(* ===== verification/Prelude.thy ===== *)
theory Prelude
  imports Complex_Main "HOL-Library.Word"
begin

text \<open>
  Shared vocabulary of the development. The programs under verification are Python, so every
  machine quantity is an unbounded integer (\<^typ>\<open>int\<close>) and the source's masks and shifts are the
  bit operations of \<^typ>\<open>int\<close>: \<open>&\<close>, \<open>|\<close>, \<open>^\<close>, \<open>~\<close> are \<open>AND\<close>, \<open>OR\<close>, \<open>XOR\<close>, \<open>NOT\<close>,
  \<open>x >> n\<close> is \<open>drop_bit n x\<close> (a floor shift, as in Python) and \<open>x << n\<close> is \<open>push_bit n x\<close>.

  This theory holds the exceptions the source raises, the result type that carries them, the
  predicate \<open>fits\<close> (a value fits in a number of bits) with the closure rules the component
  proofs run on, and the rewrite rules that turn the source's mask literals into
  \<^const>\<open>take_bit\<close>.
\<close>

unbundle bit_operations_syntax

section \<open>Collections of facts\<close>

named_theorems mask_simps \<open>mask literals of the source as \<open>take_bit\<close>\<close>
named_theorems fits_intros \<open>closure of bit-width bounds under the operations of the source\<close>

section \<open>Exceptions and results\<close>

text \<open>
  The exceptions the modelled code raises, by class (message texts are not modelled;
  \<open>StructError\<close> is \<open>struct.error\<close>), plus
  \<open>Nontermination\<close> for a call that does not return.
\<close>

datatype py_error =
    ValueError
  | KeyError
  | IndexError
  | RuntimeError
  | AssertionError
  | AttributeError
  | StructError
  | ZeroDivisionError
  | Nontermination

type_synonym 'a result = "py_error + 'a"

definition rbind :: "'a result \<Rightarrow> ('a \<Rightarrow> 'b result) \<Rightarrow> 'b result" where
  "rbind r f = (case r of Inl e \<Rightarrow> Inl e | Inr x \<Rightarrow> f x)"

lemma rbind_simps [simp]:
  "rbind (Inl e) f = Inl e"
  "rbind (Inr x) f = f x"
  by (simp_all add: rbind_def)

lemma rbind_eq_Inr [simp]: "rbind r f = Inr y \<longleftrightarrow> (\<exists>x. r = Inr x \<and> f x = Inr y)"
  by (cases r) auto

lemma rbind_eq_Inl: "rbind r f = Inl e \<longleftrightarrow> r = Inl e \<or> (\<exists>x. r = Inr x \<and> f x = Inl e)"
  by (cases r) auto

definition of_bool_int :: "bool \<Rightarrow> int" where
  "of_bool_int b = (if b then 1 else 0)"

lemma of_bool_int_simps [simp]: "of_bool_int True = 1" "of_bool_int False = 0"
  by (simp_all add: of_bool_int_def)

section \<open>Mask literals\<close>

lemma and_mask_literals [mask_simps]:
  fixes x :: int
  shows "x AND 3 = take_bit 2 x"
    and "x AND 7 = take_bit 3 x"
    and "x AND 15 = take_bit 4 x"
    and "x AND 31 = take_bit 5 x"
    and "x AND 63 = take_bit 6 x"
    and "x AND 127 = take_bit 7 x"
    and "x AND 255 = take_bit 8 x"
    and "x AND 511 = take_bit 9 x"
    and "x AND 1023 = take_bit 10 x"
    and "x AND 4095 = take_bit 12 x"
    and "x AND 65535 = take_bit 16 x"
    and "x AND 262143 = take_bit 18 x"
    and "x AND 1048575 = take_bit 20 x"
    and "x AND 8388607 = take_bit 23 x"
    and "x AND 2147483647 = take_bit 31 x"
    and "x AND 4294967295 = take_bit 32 x"
    and "x AND 18446744073709551615 = take_bit 64 x"
  by (simp_all add: take_bit_eq_mask mask_eq_exp_minus_1)

lemma and_mask_power [mask_simps]:
  fixes x :: int
  shows "x AND (2 ^ n - 1) = take_bit n x"
  by (simp add: take_bit_eq_mask mask_eq_exp_minus_1)

lemma and_1_take_bit: "x AND 1 = take_bit 1 (x::int)"
  by (simp add: take_bit_eq_mod and_one_eq)

lemma mask_and_power:
  fixes x :: int
  shows "x AND 2 ^ n = (if bit x n then 2 ^ n else 0)"
  by (rule bit_eqI) (auto simp: bit_simps)

lemma and_power_eq_0_iff [simp]: "x AND 2 ^ n = 0 \<longleftrightarrow> \<not> bit (x::int) n"
  by (simp add: mask_and_power)

section \<open>Values that fit in a number of bits\<close>

definition fits :: "nat \<Rightarrow> int \<Rightarrow> bool" where
  "fits n x \<longleftrightarrow> 0 \<le> x \<and> x < 2 ^ n"

lemma fitsI [intro?]: "0 \<le> x \<Longrightarrow> x < 2 ^ n \<Longrightarrow> fits n x"
  by (simp add: fits_def)

lemma fitsD: "fits n x \<Longrightarrow> 0 \<le> x" "fits n x \<Longrightarrow> x < 2 ^ n"
  by (simp_all add: fits_def)

lemma fits_take_bit_eq: "fits n x \<longleftrightarrow> take_bit n x = x"
  by (simp add: fits_def take_bit_int_eq_self_iff)

lemma take_bit_fits_id [simp]: "fits n x \<Longrightarrow> take_bit n x = x"
  by (simp add: fits_take_bit_eq)

lemma fits_take_bit [fits_intros, simp]: "fits n (take_bit n x)"
  by (simp add: fits_def)

lemma fits_0 [fits_intros, simp]: "fits n 0"
  by (simp add: fits_def)

lemma fits_mono: "fits m x \<Longrightarrow> m \<le> n \<Longrightarrow> fits n x"
  unfolding fits_def by (meson one_le_numeral order_less_le_trans power_increasing)

lemma fits_take_bit_le [fits_intros]: "m \<le> n \<Longrightarrow> fits n (take_bit m x)"
  by (rule fits_mono [OF fits_take_bit])

lemma fits_and1 [fits_intros]: "fits n x \<Longrightarrow> fits n (x AND y)"
  by (metis fits_take_bit_eq take_bit_and take_bit_eq_mask and.assoc and.commute)

lemma fits_and2: "fits n y \<Longrightarrow> fits n (x AND y)"
  using fits_and1 [of n y x] by (simp add: and.commute)

lemma fits_or [fits_intros]: "fits n x \<Longrightarrow> fits n y \<Longrightarrow> fits n (x OR y)"
  by (simp add: fits_take_bit_eq take_bit_or)

lemma fits_xor [fits_intros]: "fits n x \<Longrightarrow> fits n y \<Longrightarrow> fits n (x XOR y)"
  by (simp add: fits_take_bit_eq take_bit_xor)

lemma fits_drop_bit [fits_intros]: "fits n x \<Longrightarrow> fits n (drop_bit m x)"
proof -
  assume x: "fits n x"
  have "x div 2 ^ m \<le> x"
    using x int_div_less_self [of x "2 ^ m"] by (cases "x = 0"; cases "m = 0") (auto simp: fits_def)
  with x show ?thesis by (simp add: fits_def drop_bit_eq_div pos_imp_zdiv_nonneg_iff)
qed

lemma fits_drop_bit_minus: "fits n x \<Longrightarrow> m \<le> n \<Longrightarrow> fits (n - m) (drop_bit m x)"
  by (metis drop_bit_take_bit fits_take_bit fits_take_bit_eq)

lemma fits_push_bit: "fits n x \<Longrightarrow> fits (n + m) (push_bit m x)"
  by (auto simp: fits_def push_bit_eq_mult power_add)

lemma fits_push_bit_le [fits_intros]: "fits k x \<Longrightarrow> k + m \<le> n \<Longrightarrow> fits n (push_bit m x)"
  by (rule fits_mono [OF fits_push_bit])

lemma fits_1 [fits_intros]: "0 < n \<Longrightarrow> fits n 1"
  by (simp add: fits_def)

lemma fits_mod_2 [fits_intros, simp]: "0 < n \<Longrightarrow> fits n (x mod 2)"
  using fits_take_bit [of 1 x] by (auto simp: take_bit_eq_mod intro: fits_mono)

lemma fits_mask [fits_intros]: "fits n (mask n)"
  by (simp add: fits_def mask_eq_exp_minus_1)

lemma fits_numeral [fits_intros]: "numeral k < (2::int) ^ n \<Longrightarrow> fits n (numeral k)"
  by (simp add: fits_def)

lemma fits_if [fits_intros]: "fits n x \<Longrightarrow> fits n y \<Longrightarrow> fits n (if b then x else y)"
  by simp

lemma fits_foldl [fits_intros]:
  assumes "fits n a" and "\<And>r i. fits n r \<Longrightarrow> i \<in> set is \<Longrightarrow> fits n (f r i)"
  shows "fits n (foldl f a is)"
  using assms by (induction "is" arbitrary: a) auto

section \<open>Fields that do not overlap\<close>

lemma power_or_take_bit: "2 ^ n OR take_bit n x = 2 ^ n + take_bit n (x::int)"
proof -
  have "2 ^ n AND take_bit n x = 0"
    by (rule bit_eqI) (auto simp: bit_simps)
  then show ?thesis using plus_and_or [of "2 ^ n" "take_bit n x"] by simp
qed

lemma push_or_take_bit: "push_bit n a OR take_bit n x = push_bit n a + take_bit n (x::int)"
proof -
  have "push_bit n a AND take_bit n x = 0"
    by (rule bit_eqI) (auto simp: bit_simps)
  then show ?thesis using plus_and_or [of "push_bit n a" "take_bit n x"] by simp
qed

lemma take_bit_push_or: "m \<le> n \<Longrightarrow> take_bit m (push_bit n a OR x) = take_bit m (x::int)"
  by (rule bit_eqI) (auto simp: bit_simps)

lemma drop_bit_push_or: "fits n x \<Longrightarrow> drop_bit n (push_bit n a OR x) = (a::int)"
proof -
  assume "fits n x"
  then have "drop_bit n x = 0" by (simp add: drop_bit_eq_div fits_def)
  moreover have "drop_bit n (push_bit n a) = a" by (rule bit_eqI) (auto simp: bit_simps)
  ultimately show ?thesis by simp
qed

lemma push_or_add: "fits n x \<Longrightarrow> push_bit n a OR x = a * 2 ^ n + (x::int)"
  using push_or_take_bit [of n a x] by (simp add: push_bit_eq_mult)

lemma take_bit_minus_pos: "0 < a \<Longrightarrow> fits n a \<Longrightarrow> take_bit n (- a) = 2 ^ n - (a::int)"
  by (simp add: take_bit_eq_mod fits_def zmod_zminus1_eq_if)

lemma fits_1_cases: "fits 1 s \<Longrightarrow> s = 0 \<or> s = (1::int)"
  by (auto simp: fits_def)

lemma fits_high_bit: "fits n x \<Longrightarrow> n \<le> k \<Longrightarrow> \<not> bit x k"
  by (metis bit_take_bit_iff fits_take_bit_eq linorder_not_le)

lemma little_endian_bytes:
  "foldl (\<lambda>w i. w OR push_bit (8 * i) (take_bit 8 (drop_bit (8 * i) v))) 0 [0..<n] = take_bit (8 * n) (v::int)"
proof (induction n)
  case (Suc n)
  have "take_bit (8 * n) v OR push_bit (8 * n) (take_bit 8 (drop_bit (8 * n) v)) = take_bit (8 * Suc n) v"
    by (rule bit_eqI) (auto simp: bit_simps)
  then show ?case using Suc by simp
qed simp

section \<open>Lists as register files and byte arrays\<close>

definition all_fit :: "nat \<Rightarrow> int list \<Rightarrow> bool" where
  "all_fit n xs \<longleftrightarrow> list_all (fits n) xs"

lemma all_fit_nth: "all_fit n xs \<Longrightarrow> i < length xs \<Longrightarrow> fits n (xs ! i)"
  by (simp add: all_fit_def list_all_length)

lemma all_fit_update [fits_intros]: "all_fit n xs \<Longrightarrow> fits n v \<Longrightarrow> all_fit n (xs[i := v])"
  by (auto simp: all_fit_def list_all_iff dest: set_update_subset_insert [THEN subsetD])

lemma all_fit_replicate [simp]: "all_fit n (replicate k v) \<longleftrightarrow> k = 0 \<or> fits n v"
  by (auto simp: all_fit_def list_all_iff)

end
