(* ===== verification/Fixed_Width.thy ===== *)
theory Fixed_Width
  imports Prelude
begin

text \<open>
  The width helpers at the top of \<open>sim/tools/iss.py\<close>: \<open>s32\<close>, \<open>u32\<close>, \<open>sXLEN\<close>, \<open>uXLEN\<close> and
  \<open>sext\<close>, and the binary string conversions (\<open>bin\<close>, the \<open>08b\<close> format, \<open>int(_, 2)\<close>) that the
  simulator and the assembler use. Each helper is translated literally and then characterised
  by the library's \<^const>\<open>take_bit\<close> and \<^const>\<open>signed_take_bit\<close>, the form all later proofs use.
\<close>

section \<open>The helpers of the simulator\<close>

definition s32 :: "int \<Rightarrow> int" where
  "s32 v = (let v = v AND 0xFFFFFFFF in if v AND 0x80000000 \<noteq> 0 then v - 2 ^ 32 else v)"

definition u32 :: "int \<Rightarrow> int" where
  "u32 v = v AND 0xFFFFFFFF"

definition sXLEN :: "int \<Rightarrow> nat \<Rightarrow> int" where
  "sXLEN v xlen = (let v = v AND (2 ^ xlen - 1) in
     if v AND 2 ^ (xlen - 1) \<noteq> 0 then v - 2 ^ xlen else v)"

definition uXLEN :: "int \<Rightarrow> nat \<Rightarrow> int" where
  "uXLEN v xlen = v AND (2 ^ xlen - 1)"

definition sext :: "int \<Rightarrow> nat \<Rightarrow> int" where
  "sext v bits = (let v = v AND (2 ^ bits - 1) in
     if v AND 2 ^ (bits - 1) \<noteq> 0 then v - 2 ^ bits else v)"

section \<open>Binary strings\<close>

text \<open>
  \<open>bin(x)\<close> for a nonnegative \<open>x\<close>, the format \<open>f"{x:08b}"\<close> for a nonnegative \<open>x\<close> (padded with
  zeros on the left to at least \<open>w\<close> digits), and \<open>int(s, 2)\<close> on a nonempty string of binary
  digits.
\<close>

function bin_digits :: "int \<Rightarrow> string" where
  "bin_digits n = (if n < 2 then (if n \<le> 0 then ''0'' else ''1'')
     else bin_digits (n div 2) @ (if n mod 2 = 0 then ''0'' else ''1''))"
  by pat_completeness auto
termination
  by (relation "measure nat") auto

declare bin_digits.simps [simp del]

definition py_bin :: "int \<Rightarrow> string" where
  "py_bin x = ''0b'' @ bin_digits x"

definition py_count :: "string \<Rightarrow> char \<Rightarrow> int" where
  "py_count s c = int (length (filter (\<lambda>d. d = c) s))"

definition format_b :: "nat \<Rightarrow> int \<Rightarrow> string" where
  "format_b w x = (let d = bin_digits x in replicate (w - length d) CHR ''0'' @ d)"

definition bin_val :: "string \<Rightarrow> int" where
  "bin_val s = foldl (\<lambda>v c. 2 * v + (if c = CHR ''1'' then 1 else 0)) 0 s"

definition int_base2 :: "string \<Rightarrow> int result" where
  "int_base2 s =
     (if s \<noteq> [] \<and> list_all (\<lambda>c. c = CHR ''0'' \<or> c = CHR ''1'') s
      then Inr (bin_val s)
      else Inl ValueError)"

section \<open>Characterisation by the library's truncations\<close>

lemma u32_take_bit: "u32 v = take_bit 32 v"
  by (simp add: u32_def mask_simps)

lemma uXLEN_take_bit: "uXLEN v n = take_bit n v"
  by (simp add: uXLEN_def mask_simps)

lemma signed_of_unsigned:
  assumes "0 < n"
  shows "(if bit v (n - 1) then take_bit n v - 2 ^ n else take_bit n v)
    = signed_take_bit (n - 1) (v::int)"
proof -
  obtain m where n: "n = Suc m" using assms by (cases n) auto
  show ?thesis
    by (simp add: n signed_take_bit_eq_take_bit_minus)
qed

lemma sext_signed: "0 < n \<Longrightarrow> sext v n = signed_take_bit (n - 1) v"
  using signed_of_unsigned [of n v]
  by (simp add: sext_def mask_simps Let_def bit_take_bit_iff split: if_splits)

lemma sXLEN_sext: "sXLEN v n = sext v n"
  by (simp add: sXLEN_def sext_def)

lemma s32_sext: "s32 v = sext v 32"
  using and_power_eq_0_iff [of "take_bit 32 v" 31]
  by (simp add: s32_def sext_def mask_simps Let_def)

lemma sXLEN_signed: "0 < n \<Longrightarrow> sXLEN v n = signed_take_bit (n - 1) v"
  by (simp add: sXLEN_sext sext_signed)

lemma s32_signed: "s32 v = signed_take_bit 31 v"
  by (simp add: s32_sext sext_signed)

lemmas width_simps = u32_take_bit uXLEN_take_bit sXLEN_signed s32_signed sext_signed

lemma fits_uXLEN [fits_intros, simp]: "fits n (uXLEN v n)"
  by (simp add: uXLEN_take_bit)

lemma fits_u32 [fits_intros, simp]: "fits 32 (u32 v)"
  by (simp add: u32_take_bit)

lemma fits_u32_le [fits_intros]: "32 \<le> n \<Longrightarrow> fits n (u32 v)"
  by (rule fits_mono [OF fits_u32])

lemma uXLEN_id [simp]: "fits n v \<Longrightarrow> uXLEN v n = v"
  by (simp add: uXLEN_take_bit)

lemma u32_id [simp]: "fits 32 v \<Longrightarrow> u32 v = v"
  by (simp add: u32_take_bit)

lemma uXLEN_sext:
  assumes "0 < m" "m \<le> n"
  shows "uXLEN (sext v m) m = uXLEN v m"
  using assms by (simp add: width_simps take_bit_signed_take_bit)

lemma uXLEN_sXLEN [simp]: "0 < n \<Longrightarrow> uXLEN (sXLEN v n) n = uXLEN v n"
  by (simp add: width_simps take_bit_signed_take_bit)

lemma sext_range:
  assumes "0 < n"
  shows "- (2 ^ (n - 1)) \<le> sext v n" and "sext v n < 2 ^ (n - 1)"
  using assms by (simp_all add: sext_signed signed_take_bit_int_greater_eq_minus_exp
      signed_take_bit_int_less_exp)

lemma sext_id:
  assumes "0 < n" "- (2 ^ (n - 1)) \<le> v" "v < 2 ^ (n - 1)"
  shows "sext v n = v"
  using assms by (simp add: sext_signed signed_take_bit_int_eq_self)

lemma sext_uXLEN_cong: "uXLEN a n = uXLEN b n \<Longrightarrow> sext a n = sext b n"
  by (simp add: sext_def uXLEN_def)

section \<open>Binary strings: round trip\<close>

lemma bin_digits_binary: "set (bin_digits n) \<subseteq> {CHR ''0'', CHR ''1''}"
  by (induction n rule: bin_digits.induct) (subst bin_digits.simps, auto)

lemma bin_digits_nonempty [simp]: "bin_digits n \<noteq> []"
  by (subst bin_digits.simps) simp

lemma bin_val_snoc: "bin_val (s @ [c]) = 2 * bin_val s + (if c = CHR ''1'' then 1 else 0)"
  by (simp add: bin_val_def)

lemma bin_val_Nil [simp]: "bin_val [] = 0"
  by (simp add: bin_val_def)

lemma bin_val_Cons_0 [simp]: "bin_val (CHR ''0'' # s) = bin_val s"
  by (simp add: bin_val_def)

lemma bin_val_replicate_0 [simp]: "bin_val (replicate k CHR ''0'' @ s) = bin_val s"
  by (induction k) simp_all

lemma bin_val_digits: "0 \<le> n \<Longrightarrow> bin_val (bin_digits n) = n"
proof (induction n rule: bin_digits.induct)
  case (1 n)
  show ?case
  proof (cases "n < 2")
    case True
    with "1.prems" have "n = 0 \<or> n = 1" by auto
    then show ?thesis
      by (subst bin_digits.simps) (auto simp: bin_val_def)
  next
    case False
    let ?c = "if n mod 2 = 0 then CHR ''0'' else CHR ''1''"
    have "bin_digits n = bin_digits (n div 2) @ [?c]"
      using False by (subst bin_digits.simps) simp
    then have "bin_val (bin_digits n) = 2 * (n div 2) + n mod 2"
      using "1.IH" [OF False] False by (auto simp: bin_val_snoc mod2_eq_if)
    then show ?thesis by presburger
  qed
qed

lemma int_base2_val:
  "s \<noteq> [] \<Longrightarrow> set s \<subseteq> {CHR ''0'', CHR ''1''} \<Longrightarrow> int_base2 s = Inr (bin_val s)"
  by (auto simp: int_base2_def bin_val_def list_all_iff)

lemma format_b_binary: "set (format_b w x) \<subseteq> {CHR ''0'', CHR ''1''}"
  using bin_digits_binary [of x] by (auto simp: format_b_def Let_def)

lemma bin_val_format_b: "0 \<le> x \<Longrightarrow> bin_val (format_b w x) = x"
  by (simp add: format_b_def Let_def bin_val_digits)

lemma bin_digits_length: "n < 2 ^ k \<Longrightarrow> 0 < k \<Longrightarrow> length (bin_digits n) \<le> k"
proof (induction n arbitrary: k rule: bin_digits.induct)
  case (1 n)
  show ?case
  proof (cases "n < 2")
    case True
    then show ?thesis using "1.prems" by (subst bin_digits.simps) auto
  next
    case False
    then obtain j where k: "k = Suc j" "0 < j"
      using "1.prems" by (cases k; cases "k - 1") auto
    then have "length (bin_digits (n div 2)) \<le> j"
      using "1.IH" [OF False, of j] "1.prems" by simp
    then show ?thesis using False k by (subst bin_digits.simps) simp
  qed
qed

lemma format_b_length: "fits w x \<Longrightarrow> 0 < w \<Longrightarrow> length (format_b w x) = w"
  using bin_digits_length [of x w]
  by (auto simp: format_b_def Let_def fits_def nat_less_iff)

end
