(* ===== verification/Float32.thy ===== *)
theory Float32
  imports Fixed_Width
begin

text \<open>
  The single-precision reference model of \<open>sim/tools/iss.py\<close> (functions \<open>f32_decode\<close> to
  \<open>f_cvt_from_int\<close>). Values are decoded to exact rationals (Python's \<open>Fraction\<close> is \<^typ>\<open>rat\<close>),
  the operation is done exactly and the result is rounded once. Subnormal operands and results
  are flushed to zero, as the source documents.

  The normalisation loops of the source search for an exponent by unit steps and would not
  stop on a zero magnitude; they are \<open>partial_function (option)\<close> definitions, and
  \<open>diverge\<close> turns a loop that does not return into the error \<open>Nontermination\<close>. A later theory
  proves that no operation ever ends that way.
\<close>

section \<open>Constants\<close>

abbreviation (input) "RM_RNE \<equiv> (0::int)"
abbreviation (input) "RM_RTZ \<equiv> (1::int)"
abbreviation (input) "RM_RDN \<equiv> (2::int)"
abbreviation (input) "RM_RUP \<equiv> (3::int)"
abbreviation (input) "RM_RMM \<equiv> (4::int)"
abbreviation (input) "RM_DYN \<equiv> (7::int)"

abbreviation (input) "CANONICAL_NAN \<equiv> (0x7FC00000::int)"

abbreviation (input) "F_NV \<equiv> (0b10000::int)"
abbreviation (input) "F_DZ \<equiv> (0b01000::int)"
abbreviation (input) "F_OF \<equiv> (0b00100::int)"
abbreviation (input) "F_UF \<equiv> (0b00010::int)"
abbreviation (input) "F_NX \<equiv> (0b00001::int)"

section \<open>Decoding\<close>

text \<open>
  The tuple \<open>(sign, is_zero, is_inf, is_nan, is_snan, magnitude)\<close> that \<open>f32_decode\<close> returns;
  the magnitude is \<open>None\<close> for infinities and NaNs.
\<close>

record f32_parts =
  d_sign :: int
  d_zero :: bool
  d_inf :: bool
  d_nan :: bool
  d_snan :: bool
  d_mag :: "rat option"

definition f32_decode :: "int \<Rightarrow> f32_parts" where
  "f32_decode bits =
     (let bits = bits AND 0xFFFFFFFF;
          sign = drop_bit 31 bits AND 1;
          ex = drop_bit 23 bits AND 0xFF;
          mant = bits AND 0x7FFFFF
      in if ex = 0xFF
         then (if mant = 0
               then \<lparr>d_sign = sign, d_zero = False, d_inf = True, d_nan = False,
                     d_snan = False, d_mag = None\<rparr>
               else \<lparr>d_sign = sign, d_zero = False, d_inf = False, d_nan = True,
                     d_snan = (drop_bit 22 mant AND 1 = 0), d_mag = None\<rparr>)
         else if ex = 0
         then \<lparr>d_sign = sign, d_zero = True, d_inf = False, d_nan = False,
               d_snan = False, d_mag = Some 0\<rparr>
         else \<lparr>d_sign = sign, d_zero = False, d_inf = False, d_nan = False, d_snan = False,
               d_mag = Some (of_int (2 ^ 23 OR mant) / 2 ^ 23 * 2 powi (ex - 127))\<rparr>)"

definition f32_is_zero_arith :: "int \<Rightarrow> bool" where
  "f32_is_zero_arith bits \<longleftrightarrow> drop_bit 23 bits AND 0xFF = 0"

definition f32_pack_zero :: "int \<Rightarrow> int" where
  "f32_pack_zero sign = push_bit 31 (sign AND 1)"

definition f32_pack_inf :: "int \<Rightarrow> int" where
  "f32_pack_inf sign = push_bit 31 (sign AND 1) OR push_bit 23 0xFF"

section \<open>Rounding\<close>

datatype rem_cls = Exact | Below | Tie | Above

definition f32_round_up_decision :: "rem_cls \<Rightarrow> int \<Rightarrow> int \<Rightarrow> int \<Rightarrow> bool \<times> bool" where
  "f32_round_up_decision cls sig_floor sign rm =
     (if cls = Exact then (False, False)
      else if rm = RM_RTZ then (False, True)
      else if rm = RM_RDN then (sign = 1, True)
      else if rm = RM_RUP then (sign = 0, True)
      else if rm = RM_RMM then (cls \<noteq> Below, True)
      else if cls = Above then (True, True)
      else if cls = Below then (False, True)
      else (sig_floor AND 1 \<noteq> 0, True))"

definition f32_pack_rounded :: "int \<Rightarrow> int \<Rightarrow> int \<Rightarrow> rem_cls \<Rightarrow> int \<Rightarrow> int \<times> int" where
  "f32_pack_rounded sign e sig_floor cls rm =
     (let (round_up, inexact) = f32_round_up_decision cls sig_floor sign rm;
          sig_floor = (if round_up then sig_floor + 1 else sig_floor);
          (sig_floor, e) =
            (if round_up \<and> sig_floor = 2 ^ 24 then (drop_bit 1 sig_floor, e + 1)
             else (sig_floor, e))
      in if e > 127
         then ((if rm = RM_RTZ \<or> (rm = RM_RDN \<and> sign = 0) \<or> (rm = RM_RUP \<and> sign = 1)
                then push_bit 31 sign OR push_bit 23 0xFE OR 0x7FFFFF
                else push_bit 31 sign OR push_bit 23 0xFF), F_OF OR F_NX)
         else if e < -126 then (f32_pack_zero sign, F_UF OR F_NX)
         else (push_bit 31 sign OR push_bit 23 (e + 127) OR (sig_floor AND 0x7FFFFF),
               if inexact then F_NX else 0))"

text \<open>
  Python's \<open>int.bit_length\<close>, the numerator and denominator of a \<open>Fraction\<close>, and the
  comparison of an exact remainder with one half that \<open>_f32_normalize_fraction\<close> and
  \<open>f_cvt_to_int\<close> both make.
\<close>

function bit_length_pos :: "int \<Rightarrow> int" where
  "bit_length_pos n = (if n \<le> 0 then 0 else 1 + bit_length_pos (n div 2))"
  by pat_completeness auto
termination
  by (relation "measure nat") auto

declare bit_length_pos.simps [simp del]

definition bit_length :: "int \<Rightarrow> int" where
  "bit_length x = bit_length_pos \<bar>x\<bar>"

abbreviation numerator :: "rat \<Rightarrow> int" where
  "numerator q \<equiv> fst (quotient_of q)"

abbreviation denominator :: "rat \<Rightarrow> int" where
  "denominator q \<equiv> snd (quotient_of q)"

definition remainder_cls :: "rat \<Rightarrow> rem_cls" where
  "remainder_cls r =
     (if r = 0 then Exact else if r < 1 / 2 then Below else if r > 1 / 2 then Above else Tie)"

partial_function (option) normalize_up :: "rat \<Rightarrow> int \<Rightarrow> int option" where
  "normalize_up m e = (if m \<ge> 2 powi (e + 1) then normalize_up m (e + 1) else Some e)"

partial_function (option) normalize_down :: "rat \<Rightarrow> int \<Rightarrow> int option" where
  "normalize_down m e = (if m < 2 powi e then normalize_down m (e - 1) else Some e)"

declare normalize_up.simps [code] normalize_down.simps [code]

definition diverge :: "'a option \<Rightarrow> 'a result" where
  "diverge x = (case x of None \<Rightarrow> Inl Nontermination | Some y \<Rightarrow> Inr y)"

definition f32_normalize_fraction :: "rat \<Rightarrow> (int \<times> int \<times> rem_cls) result" where
  "f32_normalize_fraction magnitude =
     (let e = bit_length (numerator magnitude) - bit_length (denominator magnitude) - 1
      in rbind (diverge (normalize_up magnitude e)) (\<lambda>e.
         rbind (diverge (normalize_down magnitude e)) (\<lambda>e.
         let sig_exact = magnitude * 2 powi (23 - e);
             sig_floor = numerator sig_exact div denominator sig_exact;
             remainder = sig_exact - of_int sig_floor
         in Inr (e, sig_floor, remainder_cls remainder))))"

text \<open>\<open>math.isqrt\<close>: the greatest integer whose square does not exceed the argument.\<close>

function isqrt_pos :: "int \<Rightarrow> int" where
  "isqrt_pos n = (if n \<le> 0 then 0
     else let r = 2 * isqrt_pos (n div 4) in if (r + 1) * (r + 1) \<le> n then r + 1 else r)"
  by pat_completeness auto
termination
  by (relation "measure nat") auto

declare isqrt_pos.simps [simp del]

definition isqrt :: "int \<Rightarrow> int result" where
  "isqrt n = (if n < 0 then Inl ValueError else Inr (isqrt_pos n))"

partial_function (option) sqrt_up :: "rat \<Rightarrow> int \<Rightarrow> int option" where
  "sqrt_up m e = (if m \<ge> 2 powi (2 * (e + 1)) then sqrt_up m (e + 1) else Some e)"

partial_function (option) sqrt_down :: "rat \<Rightarrow> int \<Rightarrow> int option" where
  "sqrt_down m e = (if m < 2 powi (2 * e) then sqrt_down m (e - 1) else Some e)"

declare sqrt_up.simps [code] sqrt_down.simps [code]

definition f32_sqrt_normalize :: "rat \<Rightarrow> (int \<times> int \<times> rem_cls) result" where
  "f32_sqrt_normalize magnitude =
     (let e = (bit_length (numerator magnitude) - bit_length (denominator magnitude)) div 2 - 1
      in rbind (diverge (sqrt_up magnitude e)) (\<lambda>e.
         rbind (diverge (sqrt_down magnitude e)) (\<lambda>e.
         let scaled = magnitude * 2 powi (2 * (23 - e))
         in if denominator scaled \<noteq> 1 then Inl AssertionError
            else let n = numerator scaled
                 in rbind (isqrt n) (\<lambda>sig_floor.
                    if sig_floor * sig_floor = n then Inr (e, sig_floor, Exact)
                    else let mid_sq = (2 * sig_floor + 1) ^ 2; four_n = 4 * n
                         in Inr (e, sig_floor,
                              if four_n < mid_sq then Below
                              else if four_n > mid_sq then Above else Tie)))))"

definition f32_round_from_fraction :: "int \<Rightarrow> rat \<Rightarrow> int \<Rightarrow> (int \<times> int) result" where
  "f32_round_from_fraction sign magnitude rm =
     rbind (f32_normalize_fraction magnitude)
       (\<lambda>(e, sig_floor, cls). Inr (f32_pack_rounded sign e sig_floor cls rm))"

definition f32_round_from_sqrt :: "int \<Rightarrow> rat \<Rightarrow> int \<Rightarrow> (int \<times> int) result" where
  "f32_round_from_sqrt sign magnitude rm =
     rbind (f32_sqrt_normalize magnitude)
       (\<lambda>(e, sig_floor, cls). Inr (f32_pack_rounded sign e sig_floor cls rm))"

section \<open>Operations\<close>

text \<open>
  Every operation returns the result bits and the raised flags. \<open>mag\<close> reads the magnitude of
  a decoded finite operand.
\<close>

abbreviation mag :: "f32_parts \<Rightarrow> rat" where
  "mag d \<equiv> the (d_mag d)"

definition f_add :: "int \<Rightarrow> int \<Rightarrow> int \<Rightarrow> bool \<Rightarrow> (int \<times> int) result" where
  "f_add a_bits b_bits rm is_sub =
     (let a = f32_decode a_bits; b = f32_decode b_bits;
          eff_sb = d_sign b XOR (if is_sub then 1 else 0)
      in if d_nan a \<or> d_nan b
         then Inr (CANONICAL_NAN, if d_snan a \<or> d_snan b then F_NV else 0)
         else if d_inf a \<and> d_inf b \<and> d_sign a \<noteq> eff_sb then Inr (CANONICAL_NAN, F_NV)
         else if d_inf a then Inr (f32_pack_inf (d_sign a), 0)
         else if d_inf b then Inr (f32_pack_inf eff_sb, 0)
         else if d_zero a \<and> d_zero b
         then (if d_sign a = eff_sb then Inr (f32_pack_zero (d_sign a), 0)
               else Inr (f32_pack_zero (if rm = RM_RDN then 1 else 0), 0))
         else if d_zero a then Inr (push_bit 31 eff_sb OR (b_bits AND 0x7FFFFFFF), 0)
         else if d_zero b then Inr (a_bits, 0)
         else let va = (if d_sign a = 0 then mag a else - mag a);
                  vb = (if eff_sb = 0 then mag b else - mag b);
                  total = va + vb
              in if total = 0 then Inr (f32_pack_zero (if rm = RM_RDN then 1 else 0), 0)
                 else f32_round_from_fraction (if total < 0 then 1 else 0) \<bar>total\<bar> rm)"

definition f_mul :: "int \<Rightarrow> int \<Rightarrow> int \<Rightarrow> (int \<times> int) result" where
  "f_mul a_bits b_bits rm =
     (let a = f32_decode a_bits; b = f32_decode b_bits; s = d_sign a XOR d_sign b
      in if d_nan a \<or> d_nan b
         then Inr (CANONICAL_NAN, if d_snan a \<or> d_snan b then F_NV else 0)
         else if (d_inf a \<and> d_zero b) \<or> (d_zero a \<and> d_inf b) then Inr (CANONICAL_NAN, F_NV)
         else if d_inf a \<or> d_inf b then Inr (f32_pack_inf s, 0)
         else if d_zero a \<or> d_zero b then Inr (f32_pack_zero s, 0)
         else f32_round_from_fraction s (mag a * mag b) rm)"

definition f_div :: "int \<Rightarrow> int \<Rightarrow> int \<Rightarrow> (int \<times> int) result" where
  "f_div a_bits b_bits rm =
     (let a = f32_decode a_bits; b = f32_decode b_bits; s = d_sign a XOR d_sign b
      in if d_nan a \<or> d_nan b
         then Inr (CANONICAL_NAN, if d_snan a \<or> d_snan b then F_NV else 0)
         else if d_inf a \<and> d_inf b then Inr (CANONICAL_NAN, F_NV)
         else if d_zero a \<and> d_zero b then Inr (CANONICAL_NAN, F_NV)
         else if d_inf a then Inr (f32_pack_inf s, 0)
         else if d_inf b then Inr (f32_pack_zero s, 0)
         else if d_zero b then Inr (f32_pack_inf s, F_DZ)
         else if d_zero a then Inr (f32_pack_zero s, 0)
         else f32_round_from_fraction s (mag a / mag b) rm)"

definition f_sqrt :: "int \<Rightarrow> int \<Rightarrow> (int \<times> int) result" where
  "f_sqrt a_bits rm =
     (let a = f32_decode a_bits
      in if d_nan a then Inr (CANONICAL_NAN, if d_snan a then F_NV else 0)
         else if d_zero a then Inr (a_bits, 0)
         else if d_sign a \<noteq> 0 then Inr (CANONICAL_NAN, F_NV)
         else if d_inf a then Inr (a_bits, 0)
         else f32_round_from_sqrt 0 (mag a) rm)"

definition f_madd :: "int \<Rightarrow> int \<Rightarrow> int \<Rightarrow> int \<Rightarrow> bool \<Rightarrow> bool \<Rightarrow> (int \<times> int) result" where
  "f_madd a_bits b_bits c_bits rm neg_prod neg_addend =
     (let a = f32_decode a_bits; b = f32_decode b_bits; c = f32_decode c_bits
      in if d_nan a \<or> d_nan b \<or> d_nan c
         then Inr (CANONICAL_NAN, if d_snan a \<or> d_snan b \<or> d_snan c then F_NV else 0)
         else if (d_inf a \<and> d_zero b) \<or> (d_zero a \<and> d_inf b) then Inr (CANONICAL_NAN, F_NV)
         else
         let prod_sign = d_sign a XOR d_sign b XOR (if neg_prod then 1 else 0);
             prod_inf = (d_inf a \<or> d_inf b);
             eff_sc = d_sign c XOR (if neg_addend then 1 else 0)
         in if prod_inf \<and> d_inf c \<and> prod_sign \<noteq> eff_sc then Inr (CANONICAL_NAN, F_NV)
            else if prod_inf then Inr (f32_pack_inf prod_sign, 0)
            else if d_inf c then Inr (f32_pack_inf eff_sc, 0)
            else if d_zero a \<or> d_zero b
            then (if d_zero c
                  then (if prod_sign = eff_sc then Inr (f32_pack_zero prod_sign, 0)
                        else Inr (f32_pack_zero (if rm = RM_RDN then 1 else 0), 0))
                  else Inr (push_bit 31 eff_sc OR (c_bits AND 0x7FFFFFFF), 0))
            else let prod_val = mag a * mag b;
                     prod_signed = (if prod_sign = 0 then prod_val else - prod_val);
                     addend_signed = (if eff_sc = 0 then mag c else - mag c);
                     total = prod_signed + addend_signed
                 in if total = 0 then Inr (f32_pack_zero (if rm = RM_RDN then 1 else 0), 0)
                    else f32_round_from_fraction (if total < 0 then 1 else 0) \<bar>total\<bar> rm)"

definition f_sgnj :: "int \<Rightarrow> int \<Rightarrow> int \<Rightarrow> int \<times> int" where
  "f_sgnj a_bits b_bits funct3 =
     (let sa = drop_bit 31 a_bits AND 1; sb = drop_bit 31 b_bits AND 1;
          sign = (if funct3 = 0b000 then sb else if funct3 = 0b001 then sb XOR 1 else sa XOR sb)
      in (push_bit 31 sign OR (a_bits AND 0x7FFFFFFF), 0))"

definition f_minmax :: "int \<Rightarrow> int \<Rightarrow> int \<Rightarrow> int \<times> int" where
  "f_minmax a_bits b_bits funct3 =
     (let a = f32_decode a_bits; b = f32_decode b_bits
      in if d_nan a \<and> d_nan b then (CANONICAL_NAN, if d_snan a \<or> d_snan b then F_NV else 0)
         else if d_nan a then (b_bits, if d_snan a then F_NV else 0)
         else if d_nan b then (a_bits, if d_snan b then F_NV else 0)
         else
         let a_ez = f32_is_zero_arith a_bits; b_ez = f32_is_zero_arith b_bits;
             a_nz = (a_ez \<and> drop_bit 31 a_bits AND 1 \<noteq> 0);
             b_nz = (b_ez \<and> drop_bit 31 b_bits AND 1 \<noteq> 0);
             a_lt_b =
               (if a_ez \<and> b_ez then a_nz \<and> \<not> b_nz
                else if d_sign a \<noteq> d_sign b then d_sign a \<noteq> 0
                else if d_sign a \<noteq> 0 then a_bits AND 0x7FFFFFFF > b_bits AND 0x7FFFFFFF
                else a_bits AND 0x7FFFFFFF < b_bits AND 0x7FFFFFFF);
             is_min = (funct3 = 0b000)
         in if is_min then (if a_lt_b then a_bits else b_bits, 0)
            else (if a_lt_b then b_bits else a_bits, 0))"

definition f_cmp :: "int \<Rightarrow> int \<Rightarrow> int \<Rightarrow> int \<times> int" where
  "f_cmp a_bits b_bits funct3 =
     (let a = f32_decode a_bits; b = f32_decode b_bits
      in if d_nan a \<or> d_nan b
         then (0, if funct3 = 0b010 then (if d_snan a \<or> d_snan b then F_NV else 0) else F_NV)
         else
         let both_zero = (f32_is_zero_arith a_bits \<and> f32_is_zero_arith b_bits);
             eq = (if both_zero then True else a_bits = b_bits);
             lt =
               (if both_zero then False
                else if d_sign a \<noteq> d_sign b then d_sign a \<noteq> 0
                else if d_sign a \<noteq> 0 then a_bits AND 0x7FFFFFFF > b_bits AND 0x7FFFFFFF
                else a_bits AND 0x7FFFFFFF < b_bits AND 0x7FFFFFFF);
             res = (if funct3 = 0b010 then (if eq then 1 else 0)
                    else if funct3 = 0b001 then (if lt then 1 else 0)
                    else (if lt \<or> eq then 1 else 0))
         in (res, 0))"

definition f_class :: "int \<Rightarrow> int" where
  "f_class a_bits =
     (let sa = drop_bit 31 a_bits AND 1; ex = drop_bit 23 a_bits AND 0xFF;
          frac = a_bits AND 0x7FFFFF
      in if ex = 0xFF \<and> frac = 0 \<and> sa \<noteq> 0 then 2 ^ 0
         else if ex \<notin> {0, 0xFF} \<and> sa \<noteq> 0 then 2 ^ 1
         else if ex = 0 \<and> frac \<noteq> 0 \<and> sa \<noteq> 0 then 2 ^ 2
         else if ex = 0 \<and> frac = 0 \<and> sa \<noteq> 0 then 2 ^ 3
         else if ex = 0 \<and> frac = 0 \<and> sa = 0 then 2 ^ 4
         else if ex = 0 \<and> frac \<noteq> 0 \<and> sa = 0 then 2 ^ 5
         else if ex \<notin> {0, 0xFF} \<and> sa = 0 then 2 ^ 6
         else if ex = 0xFF \<and> frac = 0 \<and> sa = 0 then 2 ^ 7
         else if ex = 0xFF \<and> frac \<noteq> 0 \<and> drop_bit 22 frac AND 1 = 0 then 2 ^ 8
         else 2 ^ 9)"

definition f_cvt_to_int :: "int \<Rightarrow> int \<Rightarrow> bool \<Rightarrow> int \<times> int" where
  "f_cvt_to_int a_bits rm uns =
     (let a = f32_decode a_bits; sa = d_sign a;
          limit = (if uns then (if sa \<noteq> 0 then 0 else 0xFFFFFFFF)
                   else (if sa \<noteq> 0 then 0x80000000 else 0x7FFFFFFF))
      in if d_nan a then (if uns then 0xFFFFFFFF else 0x7FFFFFFF, F_NV)
         else if d_zero a then (0, 0)
         else if d_inf a then (limit, F_NV)
         else
         let ma = mag a;
             floor_mag = numerator ma div denominator ma;
             cls = remainder_cls (ma - of_int floor_mag);
             (round_up, inexact) = f32_round_up_decision cls floor_mag sa rm;
             magnitude = floor_mag + (if round_up then 1 else 0);
             out_of_range =
               (if uns then (sa \<noteq> 0 \<and> magnitude \<noteq> 0) \<or> magnitude > 0xFFFFFFFF
                else (sa = 0 \<and> magnitude > 0x7FFFFFFF) \<or> (sa \<noteq> 0 \<and> magnitude > 0x80000000))
         in if out_of_range then (limit, F_NV)
            else (if sa = 0 then magnitude AND 0xFFFFFFFF else (- magnitude) AND 0xFFFFFFFF,
                  if inexact then F_NX else 0))"

definition f_cvt_from_int :: "int \<Rightarrow> int \<Rightarrow> bool \<Rightarrow> (int \<times> int) result" where
  "f_cvt_from_int a_bits rm uns =
     (if a_bits = 0 then Inr (0, 0)
      else let (sign, magnitude) =
                 (if uns then (0, a_bits AND 0xFFFFFFFF)
                  else let sign = drop_bit 31 a_bits AND 1
                       in (sign, if sign \<noteq> 0 then (NOT a_bits + 1) AND 0xFFFFFFFF else a_bits))
           in f32_round_from_fraction sign (of_int magnitude) rm)"

end
