(* ===== verification/Float32_Props.thy ===== *)
theory Float32_Props
  imports Float32
begin

text \<open>
  The single-precision model returns: the normalisation loops stop on every magnitude they are
  called with (\<open>normal_form\<close> and \<open>sqrt_form\<close> say what they return), the assertion of
  \<open>_f32_sqrt_normalize\<close> never fires, and every operation yields a 32-bit pattern with five
  flag bits.
\<close>

section \<open>Integer and rational helpers\<close>

lemma fraction_floor: "numerator q div denominator q = \<lfloor>q\<rfloor>"
proof -
  obtain n d where nd: "quotient_of q = (n, d)" by fastforce
  then have "q = of_int n / of_int d" by (rule quotient_of_div)
  then show ?thesis using nd by (simp add: floor_divide_of_int_eq)
qed

lemma powi_less_iff [simp]: "(2::rat) powi a < 2 powi b \<longleftrightarrow> a < b"
  by (meson linorder_not_less one_less_numeral_iff power_int_increasing
      power_int_strict_increasing one_le_numeral semiring_norm(76))

lemma powi_le_iff [simp]: "(2::rat) powi a \<le> 2 powi b \<longleftrightarrow> a \<le> b"
  by (simp flip: linorder_not_less)

lemma powi_pos [simp]: "0 < (2::rat) powi e"
  by simp

lemma powi_split: "(2::rat) powi (a + b) = 2 powi a * 2 powi b"
  by (simp add: power_int_add)

lemma powi_double: "(2::rat) powi (e + 1) = 2 * 2 powi e"
  by (simp add: power_int_add_1)

lemma powi_exceeds: "\<exists>n::nat. (m::rat) < 2 powi (e + int n)"
proof -
  obtain n :: nat where n: "m / 2 powi e < 2 ^ n"
    using real_arch_pow by (metis reals_Archimedean2 less_trans of_nat_less_two_power)
  then have "m < 2 ^ n * 2 powi e" by (simp add: pos_divide_less_eq)
  then show ?thesis by (auto simp: power_int_add mult.commute)
qed

lemma powi_below: "0 < (m::rat) \<Longrightarrow> \<exists>n::nat. 2 powi (e - int n) \<le> m"
proof -
  assume m: "0 < m"
  obtain n where n: "2 powi e / m < 2 powi (0 + int n)"
    using powi_exceeds [of "2 powi e / m" 0] by auto
  then have "2 powi e / 2 powi int n \<le> m"
    using m by (simp add: field_simps)
  then show ?thesis by (auto simp: power_int_diff)
qed

section \<open>The normalisation loops return\<close>

lemma normalize_up_returns:
  "\<exists>e'. normalize_up m e = Some e' \<and> e \<le> e' \<and> m < 2 powi (e' + 1) \<and> (e < e' \<longrightarrow> 2 powi e' \<le> m)"
proof -
  obtain n :: nat where "m < 2 powi (e + 1 + int n)"
    using powi_exceeds by blast
  then show ?thesis
  proof (induction n arbitrary: e)
    case 0
    then show ?case by (subst normalize_up.simps) auto
  next
    case (Suc n)
    show ?case
    proof (cases "2 powi (e + 1) \<le> m")
      case True
      from Suc.prems have "m < 2 powi (e + 1 + 1 + int n)" by (simp add: ac_simps)
      then obtain e' where e': "normalize_up m (e + 1) = Some e'" "e + 1 \<le> e'"
          "m < 2 powi (e' + 1)" "e + 1 < e' \<longrightarrow> 2 powi e' \<le> m"
        using Suc.IH by blast
      moreover have "2 powi e' \<le> m" using e' True by (cases "e + 1 < e'") auto
      ultimately show ?thesis using True by (subst normalize_up.simps) auto
    next
      case False
      then show ?thesis by (subst normalize_up.simps) auto
    qed
  qed
qed

lemma normalize_down_returns:
  assumes "0 < m" and "m < 2 powi (e + 1)"
  shows "\<exists>e'. normalize_down m e = Some e' \<and> 2 powi e' \<le> m \<and> m < 2 powi (e' + 1)"
proof -
  obtain n :: nat where "2 powi (e - int n) \<le> m"
    using powi_below [OF assms(1)] by blast
  then show ?thesis using assms(2)
  proof (induction n arbitrary: e)
    case 0
    then show ?case by (subst normalize_down.simps) auto
  next
    case (Suc n)
    show ?case
    proof (cases "m < 2 powi e")
      case True
      then have "\<exists>e'. normalize_down m (e - 1) = Some e' \<and> 2 powi e' \<le> m \<and> m < 2 powi (e' + 1)"
        using Suc.prems by (intro Suc.IH) (simp_all add: algebra_simps)
      then show ?thesis using True by (subst normalize_down.simps) simp
    next
      case False
      then show ?thesis using Suc.prems by (subst normalize_down.simps) auto
    qed
  qed
qed

text \<open>
  What normalisation computes: the binary exponent of the magnitude, its 24-bit significand
  rounded down, and how the rest compares with one half.
\<close>

definition normal_form :: "rat \<Rightarrow> int \<Rightarrow> int \<Rightarrow> rem_cls \<Rightarrow> bool" where
  "normal_form m e sig cls \<longleftrightarrow>
     2 powi e \<le> m \<and> m < 2 powi (e + 1) \<and>
     sig = \<lfloor>m * 2 powi (23 - e)\<rfloor> \<and> cls = remainder_cls (m * 2 powi (23 - e) - of_int sig)"

lemma f32_normalize_fraction_returns:
  assumes "0 < m"
  shows "\<exists>e sig cls. f32_normalize_fraction m = Inr (e, sig, cls) \<and> normal_form m e sig cls"
proof -
  let ?e0 = "bit_length (numerator m) - bit_length (denominator m) - 1"
  obtain e1 where e1: "normalize_up m ?e0 = Some e1" "m < 2 powi (e1 + 1)"
    using normalize_up_returns by blast
  obtain e where "normalize_down m e1 = Some e" "2 powi e \<le> m" "m < 2 powi (e + 1)"
    using normalize_down_returns [OF assms e1(2)] by blast
  with e1 show ?thesis
    by (simp add: f32_normalize_fraction_def diverge_def Let_def fraction_floor normal_form_def)
qed

lemma scaled_significand:
  assumes "2 powi e \<le> m" and "m < 2 powi (e + 1)"
  shows "2 ^ 23 \<le> m * 2 powi (23 - e)" and "m * 2 powi (23 - e) < (2::rat) ^ 24"
proof -
  have "2 powi e * 2 powi (23 - e) = (2::rat) ^ 23"
    by (simp flip: power_int_add)
  moreover have "2 powi (e + 1) * 2 powi (23 - e) = (2::rat) ^ 24"
    by (simp flip: power_int_add)
  ultimately show "2 ^ 23 \<le> m * 2 powi (23 - e)" and "m * 2 powi (23 - e) < 2 ^ 24"
    using assms by (metis mult_right_mono powi_pos less_imp_le,
        metis mult_strict_right_mono powi_pos)
qed

lemma normal_form_sig_range:
  assumes "normal_form m e sig cls"
  shows "2 ^ 23 \<le> sig" and "sig < 2 ^ 24"
  using assms scaled_significand [of e m]
  by (auto simp: normal_form_def le_floor_iff floor_less_iff)

section \<open>Integer square root\<close>

lemma isqrt_pos_spec:
  "0 \<le> n \<Longrightarrow> 0 \<le> isqrt_pos n \<and> isqrt_pos n * isqrt_pos n \<le> n \<and> n < (isqrt_pos n + 1) * (isqrt_pos n + 1)"
proof (induction n rule: isqrt_pos.induct)
  case (1 n)
  show ?case
  proof (cases "n = 0")
    case True
    then show ?thesis by (simp add: isqrt_pos.simps)
  next
    case False
    let ?q = "isqrt_pos (n div 4)"
    have q: "0 \<le> ?q" "?q * ?q \<le> n div 4" "n div 4 < (?q + 1) * (?q + 1)"
      using "1.IH" False "1.prems" by auto
    have lo: "4 * (?q * ?q) \<le> n" using q(2) by linarith
    have "n div 4 + 1 \<le> (?q + 1) * (?q + 1)" using q(3) by linarith
    then have hi: "n < 4 * ((?q + 1) * (?q + 1))" by linarith
    show ?thesis
      using False "1.prems" q(1) lo hi
      by (subst (1 2 3 4 5) isqrt_pos.simps) (auto simp: Let_def algebra_simps)
  qed
qed

section \<open>The square-root normalisation returns\<close>

lemma sqrt_up_returns:
  "\<exists>e'. sqrt_up m e = Some e' \<and> m < 2 powi (2 * (e' + 1))"
proof -
  obtain n :: nat where "m < 2 powi (2 * (e + 1) + int n)"
    using powi_exceeds by blast
  also have "(2::rat) powi (2 * (e + 1) + int n) \<le> 2 powi (2 * (e + 1 + int n))" by simp
  finally show ?thesis
  proof (induction n arbitrary: e)
    case 0
    then show ?case by (subst sqrt_up.simps) auto
  next
    case (Suc n)
    then have "\<exists>e'. sqrt_up m (e + 1) = Some e' \<and> m < 2 powi (2 * (e' + 1))"
      by (intro Suc.IH) (simp add: ac_simps)
    then show ?case by (subst sqrt_up.simps) auto
  qed
qed

lemma sqrt_down_returns:
  assumes "0 < m" and "m < 2 powi (2 * (e + 1))"
  shows "\<exists>e'. sqrt_down m e = Some e' \<and> 2 powi (2 * e') \<le> m \<and> m < 2 powi (2 * (e' + 1))"
proof -
  obtain n :: nat where n: "2 powi (2 * e - int n) \<le> m"
    using powi_below [OF assms(1)] by blast
  have "(2::rat) powi (2 * (e - int n)) \<le> 2 powi (2 * e - int n)" by simp
  then have "2 powi (2 * (e - int n)) \<le> m" using n by (rule order_trans)
  then show ?thesis using assms(2)
  proof (induction n arbitrary: e)
    case 0
    then show ?case by (subst sqrt_down.simps) auto
  next
    case (Suc n)
    show ?case
    proof (cases "m < 2 powi (2 * e)")
      case True
      then have "\<exists>e'. sqrt_down m (e - 1) = Some e' \<and> 2 powi (2 * e') \<le> m \<and> m < 2 powi (2 * (e' + 1))"
        using Suc.prems by (intro Suc.IH) (simp_all add: algebra_simps)
      then show ?thesis using True by (subst sqrt_down.simps) simp
    next
      case False
      then show ?thesis using Suc.prems by (subst sqrt_down.simps) auto
    qed
  qed
qed

text \<open>The exponent, the significand of the root rounded down, and the rest against one half.\<close>

definition sqrt_form :: "rat \<Rightarrow> int \<Rightarrow> int \<Rightarrow> rem_cls \<Rightarrow> bool" where
  "sqrt_form m e sig cls \<longleftrightarrow>
     (let r = m * 2 powi (2 * (23 - e)) in
      2 ^ 23 \<le> sig \<and> sig < 2 ^ 24 \<and> of_int (sig * sig) \<le> r \<and> r < of_int ((sig + 1) * (sig + 1)) \<and>
      cls = (if r = of_int (sig * sig) then Exact
             else if 4 * r < of_int ((2 * sig + 1) ^ 2) then Below
             else if 4 * r > of_int ((2 * sig + 1) ^ 2) then Above else Tie))"

lemma isqrt_range:
  assumes "2 ^ 46 \<le> n" "n < 2 ^ 48"
  shows "2 ^ 23 \<le> isqrt_pos n" "isqrt_pos n < 2 ^ 24"
proof -
  let ?r = "isqrt_pos n"
  have spec: "0 \<le> ?r" "?r * ?r \<le> n" "n < (?r + 1) * (?r + 1)"
    using isqrt_pos_spec [of n] assms by auto
  show "2 ^ 23 \<le> ?r"
  proof (rule ccontr)
    assume "\<not> 2 ^ 23 \<le> ?r"
    then have "?r + 1 \<le> 2 ^ 23" by simp
    then have "(?r + 1) * (?r + 1) \<le> 2 ^ 23 * 2 ^ 23" using spec(1) by (intro mult_mono) auto
    then show False using spec(3) assms(1) by simp
  qed
  show "?r < 2 ^ 24"
  proof (rule ccontr)
    assume "\<not> ?r < 2 ^ 24"
    then have "2 ^ 24 * 2 ^ 24 \<le> ?r * ?r" by (intro mult_mono) auto
    then show False using spec(2) assms(2) by simp
  qed
qed

lemma scaled_radicand:
  assumes m: "m = of_int k * 2 powi x" and k: "2 ^ 23 \<le> k" "k < 2 ^ 24"
    and lo: "2 powi (2 * e) \<le> m" and hi: "m < (2::rat) powi (2 * (e + 1))"
  shows "\<exists>n. m * 2 powi (2 * (23 - e)) = of_int n \<and> 2 ^ 46 \<le> n \<and> n < 2 ^ 48"
proof -
  have "of_int (2 ^ 23) * 2 powi x \<le> m" "m < of_int (2 ^ 24) * 2 powi x"
    using k by (auto simp: m simp del: of_int_power)
  then have "2 powi (23 + x) \<le> m" "m < 2 powi (24 + x)"
    by (simp_all add: power_int_add)
  then have "2 powi (23 + x) < (2::rat) powi (2 * (e + 1))" "2 powi (2 * e) < (2::rat) powi (24 + x)"
    using lo hi by linarith+
  then have j: "0 \<le> x + 2 * (23 - e)" by simp
  define n where "n = k * 2 ^ nat (x + 2 * (23 - e))"
  have n: "m * 2 powi (2 * (23 - e)) = of_int n"
    using j by (simp add: m n_def power_int_nonneg_exp flip: power_int_add mult.assoc)
  have "2 powi (2 * e) * 2 powi (2 * (23 - e)) \<le> m * 2 powi (2 * (23 - e))"
      "m * 2 powi (2 * (23 - e)) < 2 powi (2 * (e + 1)) * 2 powi (2 * (23 - e))"
    using lo hi by simp_all
  then have "of_int (2 ^ 46) \<le> (of_int n :: rat)" "of_int n < (of_int (2 ^ 48) :: rat)"
    unfolding n by (simp_all flip: power_int_add)
  then show ?thesis using n unfolding of_int_le_iff of_int_less_iff by blast
qed

lemma f32_sqrt_normalize_returns:
  assumes m: "m = of_int k * 2 powi x" and k: "2 ^ 23 \<le> k" "k < 2 ^ 24"
  shows "\<exists>e sig cls. f32_sqrt_normalize m = Inr (e, sig, cls) \<and>
    2 powi (2 * e) \<le> m \<and> m < 2 powi (2 * (e + 1)) \<and> sqrt_form m e sig cls"
proof -
  have pos: "0 < m" using k by (simp add: m)
  let ?e0 = "(bit_length (numerator m) - bit_length (denominator m)) div 2 - 1"
  obtain e1 where e1: "sqrt_up m ?e0 = Some e1" "m < 2 powi (2 * (e1 + 1))"
    using sqrt_up_returns by blast
  obtain e where e: "sqrt_down m e1 = Some e" "2 powi (2 * e) \<le> m" "m < 2 powi (2 * (e + 1))"
    using sqrt_down_returns [OF pos e1(2)] by blast
  obtain n where n: "m * 2 powi (2 * (23 - e)) = of_int n" "2 ^ 46 \<le> n" "n < 2 ^ 48"
    using scaled_radicand [OF m k e(2,3)] by blast
  define sig where "sig = isqrt_pos n"
  have sig: "2 ^ 23 \<le> sig" "sig < 2 ^ 24" "sig * sig \<le> n" "n < (sig + 1) * (sig + 1)"
    using isqrt_range [OF n(2,3)] isqrt_pos_spec [of n] n(2) by (auto simp: sig_def)
  define cls where "cls = (if n = sig * sig then Exact
     else if 4 * n < (2 * sig + 1) ^ 2 then Below
     else if 4 * n > (2 * sig + 1) ^ 2 then Above else Tie)"
  have n': "quotient_of (m * 2 powi (2 * (23 - e))) = (n, 1)" unfolding n(1) by simp
  have "f32_sqrt_normalize m = Inr (e, sig, cls)"
    unfolding f32_sqrt_normalize_def Let_def e1(1) diverge_def option.case rbind_simps e(1) n'
    using n(2) by (auto simp: isqrt_def sig_def cls_def)
  moreover have four: "(4 * of_int n :: rat) = of_int (4 * n)" by simp
  have "sqrt_form m e sig cls"
    unfolding sqrt_form_def Let_def n(1) cls_def four of_int_eq_iff of_int_le_iff of_int_less_iff
    using sig by simp
  ultimately show ?thesis using e(2,3) by blast
qed

section \<open>Packing\<close>

lemma pack_fits:
  assumes "fits 1 sign" "fits 8 ex" "fits 23 f"
  shows "fits 32 (push_bit 31 sign OR push_bit 23 ex OR f)"
  using assms by (intro fits_or fits_push_bit_le [of 1] fits_push_bit_le [of 8])
    (auto intro: fits_mono)

lemma f32_pack_zero_fits [fits_intros]: "fits 32 (f32_pack_zero sign)"
  unfolding f32_pack_zero_def and_one_eq by (rule fits_push_bit_le [of 1]) simp_all

lemma f32_pack_inf_fits [fits_intros]: "fits 32 (f32_pack_inf sign)"
  unfolding f32_pack_inf_def and_one_eq
  by (rule fits_or [OF fits_push_bit_le [of 1] fits_push_bit_le [of 8]]) (simp_all add: fits_def)

text \<open>The significand and exponent after the rounding increment.\<close>

definition rounded_sig_exp :: "bool \<Rightarrow> int \<Rightarrow> int \<Rightarrow> int \<times> int" where
  "rounded_sig_exp up sig e =
     (if up \<and> sig + 1 = 2 ^ 24 then (2 ^ 23, e + 1) else if up then (sig + 1, e) else (sig, e))"

lemma f32_pack_rounded_alt:
  assumes "f32_round_up_decision cls sig sign rm = (up, inx)"
    and "rounded_sig_exp up sig e = (sig', e')"
  shows "f32_pack_rounded sign e sig cls rm =
    (if e' > 127
     then (if rm = RM_RTZ \<or> (rm = RM_RDN \<and> sign = 0) \<or> (rm = RM_RUP \<and> sign = 1)
           then push_bit 31 sign OR push_bit 23 0xFE OR 0x7FFFFF
           else push_bit 31 sign OR push_bit 23 0xFF, F_OF OR F_NX)
     else if e' < -126 then (f32_pack_zero sign, F_UF OR F_NX)
     else (push_bit 31 sign OR push_bit 23 (e' + 127) OR take_bit 23 sig', if inx then F_NX else 0))"
proof -
  have "(if up \<and> (if up then sig + 1 else sig) = 2 ^ 24
         then (drop_bit 1 (if up then sig + 1 else sig), e + 1)
         else (if up then sig + 1 else sig, e)) = (sig', e')"
    using assms(2) by (auto simp: rounded_sig_exp_def split: if_splits)
  then show ?thesis
    unfolding f32_pack_rounded_def Let_def assms(1) case_prod_conv
    by (simp only: case_prod_conv mask_simps)
qed

lemma f32_pack_rounded_fits:
  assumes "fits 1 sign"
  shows "fits 32 (fst (f32_pack_rounded sign e sig cls rm)) \<and>
    fits 5 (snd (f32_pack_rounded sign e sig cls rm))"
proof -
  obtain up inx where d: "f32_round_up_decision cls sig sign rm = (up, inx)" by fastforce
  obtain sig' e' where p: "rounded_sig_exp up sig e = (sig', e')" by fastforce
  have "fits 32 (push_bit 31 sign OR push_bit 23 (e' + 127) OR take_bit 23 sig')"
    if "\<not> 127 < e'" "\<not> e' < -126"
    using that assms by (intro pack_fits fits_take_bit) (auto simp: fits_def)
  moreover have "fits 32 (push_bit 31 sign OR push_bit 23 0xFE OR 0x7FFFFF)"
    "fits 32 (push_bit 31 sign OR push_bit 23 0xFF)"
    using assms pack_fits [of sign 254 8388607] pack_fits [of sign 255 0]
    by (simp_all add: fits_def)
  ultimately show ?thesis
    unfolding f32_pack_rounded_alt [OF d p]
    by (cases "127 < e'"; cases "e' < -126") (simp_all add: f32_pack_zero_fits fits_def [of 5])
qed

section \<open>Decoding\<close>

lemma f32_decode_sign_fits [fits_intros, simp]: "0 < n \<Longrightarrow> fits n (d_sign (f32_decode bits))"
  by (simp add: f32_decode_def Let_def and_one_eq)

lemma f32_decode_normal:
  assumes "d = f32_decode bits" "\<not> d_nan d" "\<not> d_inf d" "\<not> d_zero d"
  shows "\<exists>k x. d_mag d = Some (of_int k * 2 powi x) \<and> 2 ^ 23 \<le> k \<and> k < 2 ^ 24 \<and> -149 \<le> x \<and> x \<le> 104"
proof -
  let ?b = "take_bit 32 bits" let ?ex = "take_bit 8 (drop_bit 23 ?b)"
  let ?k = "2 ^ 23 OR take_bit 23 ?b"
  have ex: "?ex \<noteq> 255" "?ex \<noteq> 0"
    using assms(2-4) unfolding assms(1) f32_decode_def Let_def mask_simps by (auto split: if_splits)
  then have m: "d_mag d = Some (of_int ?k / 2 ^ 23 * 2 powi (?ex - 127))"
    unfolding assms(1) f32_decode_def Let_def mask_simps by simp
  have "of_int ?k / 2 ^ 23 * 2 powi (?ex - 127) = (of_int ?k :: rat) * 2 powi (?ex - 127 - 23)"
    by (simp add: power_int_diff)
  moreover have "fits 8 ?ex" by (rule fits_take_bit)
  then have "0 \<le> ?ex" "?ex < 256" unfolding fits_def by simp_all
  then have "-149 \<le> ?ex - 127 - 23" "?ex - 127 - 23 \<le> 104" using ex by linarith+
  moreover have "take_bit 23 ?b < 2 ^ 23" "0 \<le> take_bit 23 ?b"
    by (rule take_bit_int_less_exp, simp)
  then have "2 ^ 23 \<le> ?k" "?k < 2 ^ 24" unfolding power_or_take_bit by simp_all
  ultimately show ?thesis using m by metis
qed

lemma f32_decode_mag_pos:
  assumes "\<not> d_nan (f32_decode bits)" "\<not> d_inf (f32_decode bits)" "\<not> d_zero (f32_decode bits)"
  shows "0 < mag (f32_decode bits)"
  using f32_decode_normal [OF refl assms] by auto

section \<open>Every operation returns a 32-bit pattern and five flag bits\<close>

definition fp_result_ok :: "(int \<times> int) result \<Rightarrow> bool" where
  "fp_result_ok r \<longleftrightarrow> (\<exists>v f. r = Inr (v, f) \<and> fits 32 v \<and> fits 5 f)"

lemma fp_result_okI [intro]: "fits 32 v \<Longrightarrow> fits 5 f \<Longrightarrow> fp_result_ok (Inr (v, f))"
  by (simp add: fp_result_ok_def)

lemma fp_result_ok_if [intro]:
  "(b \<Longrightarrow> fp_result_ok x) \<Longrightarrow> (\<not> b \<Longrightarrow> fp_result_ok y) \<Longrightarrow> fp_result_ok (if b then x else y)"
  by simp

lemma round_from_fraction_ok:
  assumes "0 < m" "fits 1 sign"
  shows "fp_result_ok (f32_round_from_fraction sign m rm)"
  using f32_normalize_fraction_returns [OF assms(1)] f32_pack_rounded_fits [OF assms(2)]
  by (auto simp: f32_round_from_fraction_def fp_result_ok_def) (metis prod.collapse)

lemma round_from_sqrt_ok:
  assumes "m = of_int k * 2 powi x" "2 ^ 23 \<le> k" "k < 2 ^ 24" "fits 1 sign"
  shows "fp_result_ok (f32_round_from_sqrt sign m rm)"
  using f32_sqrt_normalize_returns [OF assms(1-3)] f32_pack_rounded_fits [OF assms(4)]
  by (auto simp: f32_round_from_sqrt_def fp_result_ok_def) (metis prod.collapse)

lemma fits_flags [simp]:
  "fits 5 16" "fits 5 8" "fits 5 4" "fits 5 2" "fits 5 1" "fits 32 2143289344"
  by (simp_all add: fits_def)

lemma sign_and_rest_fits:
  assumes "fits 1 s"
  shows "fits 32 (push_bit 31 s OR take_bit 31 x)"
  using assms by (intro fits_or fits_push_bit_le [of 1] fits_take_bit_le) auto

lemma fits_1_xor_if: "fits 1 s \<Longrightarrow> fits 1 (s XOR (if b then 1 else 0))"
  by (intro fits_xor fits_if) (auto simp: fits_def)

lemma signed_total_ok:
  assumes "t \<noteq> (0::rat)"
  shows "fp_result_ok (f32_round_from_fraction (if t < 0 then 1 else 0) \<bar>t\<bar> rm)"
  using assms by (intro round_from_fraction_ok) (auto simp: fits_def)

lemma f_add_ok:
  assumes "fits 32 a" "fits 32 b"
  shows "fp_result_ok (f_add a b rm is_sub)"
proof -
  let ?a = "f32_decode a" let ?b = "f32_decode b"
  let ?s = "d_sign ?b XOR (if is_sub then 1 else 0)"
  have s: "fits 1 ?s"
    by (rule fits_1_xor_if) simp
  show ?thesis
    unfolding f_add_def Let_def mask_simps
    by (intro fp_result_ok_if fp_result_okI fits_if f32_pack_zero_fits f32_pack_inf_fits
        signed_total_ok sign_and_rest_fits [OF s] assms fits_0 fits_flags)
qed

lemma f_mul_ok: "fp_result_ok (f_mul a b rm)"
  unfolding f_mul_def Let_def
  by (auto intro!: f32_pack_zero_fits f32_pack_inf_fits round_from_fraction_ok fits_xor
      simp: f32_decode_mag_pos)

lemma f_div_ok: "fp_result_ok (f_div a b rm)"
  unfolding f_div_def Let_def
  by (auto intro!: f32_pack_zero_fits f32_pack_inf_fits round_from_fraction_ok fits_xor
      simp: f32_decode_mag_pos)

lemma f_sqrt_ok:
  assumes "fits 32 a"
  shows "fp_result_ok (f_sqrt a rm)"
proof -
  let ?a = "f32_decode a"
  have "fp_result_ok (f32_round_from_sqrt 0 (mag ?a) rm)" if "\<not> d_nan ?a" "\<not> d_zero ?a" "\<not> d_inf ?a"
    using f32_decode_normal [OF refl that(1) that(3) that(2)] round_from_sqrt_ok by fastforce
  then show ?thesis
    unfolding f_sqrt_def Let_def using assms by auto
qed

lemma f_madd_ok: "fp_result_ok (f_madd a b c rm np na)"
proof -
  have s: "fits 1 (d_sign (f32_decode c) XOR (if na then 1 else 0))"
    by (rule fits_1_xor_if) simp
  show ?thesis
    unfolding f_madd_def Let_def mask_simps
    by (intro fp_result_ok_if fp_result_okI fits_if f32_pack_zero_fits f32_pack_inf_fits
        signed_total_ok sign_and_rest_fits [OF s] fits_0 fits_flags)
qed

lemma f_cvt_from_int_ok:
  assumes "fits 32 a"
  shows "fp_result_ok (f_cvt_from_int a rm uns)"
proof (cases "a = 0")
  case True
  then show ?thesis by (auto simp: f_cvt_from_int_def)
next
  case False
  have t: "take_bit 32 a = a" using assms by simp
  have pos: "0 < a" using False assms by (auto simp: fits_def)
  have n: "NOT a + 1 = - a" by (simp add: not_int_def)
  have "0 < take_bit 32 (- a)"
    using take_bit_minus_pos [OF pos assms] assms by (simp add: fits_def)
  then show ?thesis
    using False pos unfolding f_cvt_from_int_def Let_def mask_simps n t and_one_eq
    by (auto intro!: round_from_fraction_ok fits_1)
qed

lemma f_sgnj_fits: "fits 32 (fst (f_sgnj a b f3))"
  unfolding f_sgnj_def Let_def mask_simps fst_conv and_one_eq
  by (rule sign_and_rest_fits) (auto intro!: fits_intros)

lemma f_minmax_fits:
  assumes "fits 32 a" "fits 32 b"
  shows "fits 32 (fst (f_minmax a b f3)) \<and> fits 5 (snd (f_minmax a b f3))"
  using assms by (simp add: f_minmax_def Let_def)

lemma f_cmp_fits: "0 < n \<Longrightarrow> fits n (fst (f_cmp a b f3)) \<and> fits 5 (snd (f_cmp a b f3))"
  by (simp add: f_cmp_def Let_def fits_1)

lemma f_cvt_to_int_fits:
  "fits 32 (fst (f_cvt_to_int a rm uns)) \<and> fits 5 (snd (f_cvt_to_int a rm uns))"
proof -
  have l: "fits 32 4294967295" "fits 32 2147483647" "fits 32 2147483648"
    by (simp_all add: fits_def)
  show ?thesis
    unfolding f_cvt_to_int_def Let_def mask_simps
    by (simp split: prod.split add: l fits_1 fits_mask)
qed

end
