(* ===== verification/Float32_Round.thy ===== *)
theory Float32_Round
  imports Float32_Props
begin

text \<open>
  Correct rounding. The specification \<open>correctly_rounded\<close> is the IEEE one: the result is the
  single-precision number nearest to the exact value (or nearest on the side the rounding mode
  asks for), ties going where the mode says. Results that are too large or too small for the
  format are described by the rounding to 24 significant bits with an unbounded exponent
  (\<open>f32_outcome\<close>): overflow gives an infinity or the largest number, underflow a zero.
\<close>

section \<open>The numbers a bit pattern stands for\<close>

definition f32_finite :: "int \<Rightarrow> bool" where
  "f32_finite bits \<longleftrightarrow> \<not> d_nan (f32_decode bits) \<and> \<not> d_inf (f32_decode bits)"

definition f32_mag :: "int \<Rightarrow> real" where
  "f32_mag bits = of_rat (mag (f32_decode bits))"

definition f32_real :: "int \<Rightarrow> real" where
  "f32_real bits = (if d_sign (f32_decode bits) = 0 then f32_mag bits else - f32_mag bits)"

definition f32_max :: real where
  "f32_max = (2 ^ 24 - 1) * 2 powi 104"

text \<open>
  Rounding of \<open>q\<close> to one of the numbers \<open>F\<close>: \<open>ev\<close> says whether the significand of the result \<open>r\<close>
  is even, which decides ties in the default mode.
\<close>

definition nearest_in :: "(real \<Rightarrow> bool) \<Rightarrow> real \<Rightarrow> real \<Rightarrow> bool" where
  "nearest_in F q r \<longleftrightarrow> (\<forall>w. F w \<longrightarrow> \<bar>r - q\<bar> \<le> \<bar>w - q\<bar>)"

definition tie_in :: "(real \<Rightarrow> bool) \<Rightarrow> real \<Rightarrow> real \<Rightarrow> real \<Rightarrow> bool" where
  "tie_in F q r w \<longleftrightarrow> F w \<and> w \<noteq> r \<and> \<bar>r - q\<bar> = \<bar>w - q\<bar>"

definition rounds_to :: "(real \<Rightarrow> bool) \<Rightarrow> bool \<Rightarrow> int \<Rightarrow> real \<Rightarrow> real \<Rightarrow> bool" where
  "rounds_to F ev rm q r \<longleftrightarrow> F r \<and>
     (if rm = RM_RTZ
      then 0 \<le> r * q \<and> \<bar>r\<bar> \<le> \<bar>q\<bar> \<and> (\<forall>w. F w \<and> \<bar>w\<bar> \<le> \<bar>q\<bar> \<longrightarrow> \<bar>w\<bar> \<le> \<bar>r\<bar>)
      else if rm = RM_RDN then r \<le> q \<and> (\<forall>w. F w \<and> w \<le> q \<longrightarrow> w \<le> r)
      else if rm = RM_RUP then q \<le> r \<and> (\<forall>w. F w \<and> q \<le> w \<longrightarrow> r \<le> w)
      else if rm = RM_RMM then nearest_in F q r \<and> (\<forall>w. tie_in F q r w \<longrightarrow> \<bar>w\<bar> \<le> \<bar>r\<bar>)
      else nearest_in F q r \<and> (\<forall>w. tie_in F q r w \<longrightarrow> ev))"

definition f32_number :: "real \<Rightarrow> bool" where
  "f32_number r \<longleftrightarrow> (\<exists>w. f32_finite w \<and> f32_real w = r)"

definition correctly_rounded :: "int \<Rightarrow> real \<Rightarrow> int \<Rightarrow> bool" where
  "correctly_rounded rm q v \<longleftrightarrow> f32_finite v \<and> rounds_to f32_number (even v) rm q (f32_real v)"

text \<open>Numbers with a 24-bit significand and any exponent.\<close>

definition f24 :: "real \<Rightarrow> bool" where
  "f24 r \<longleftrightarrow> (\<exists>k x. r = of_int k * 2 powi x \<and> \<bar>k\<bar> < 2 ^ 24)"

definition f24_even :: "real \<Rightarrow> bool" where
  "f24_even r \<longleftrightarrow> (\<exists>k x. r = of_int k * 2 powi x \<and> 2 ^ 23 \<le> \<bar>k\<bar> \<and> \<bar>k\<bar> < 2 ^ 24 \<and> even k)"

text \<open>
  The result of an operation with the exact value \<open>q\<close>, in every range: \<open>r\<close> is \<open>q\<close> rounded to 24
  bits. Beyond the largest number it overflows, to infinity or (when the mode rounds towards zero
  for this sign) to the largest number; below the smallest normal number it is flushed to a zero of
  the same sign; otherwise it is the result, inexact when \<open>r\<close> is not \<open>q\<close>.
\<close>

definition overflow_bits :: "int \<Rightarrow> bool \<Rightarrow> int" where
  "overflow_bits rm neg =
     (if neg then 0x80000000 else 0) +
     (if rm = RM_RTZ \<or> rm = RM_RDN \<and> \<not> neg \<or> rm = RM_RUP \<and> neg then 0x7F7FFFFF else 0x7F800000)"

definition f32_outcome :: "int \<Rightarrow> real \<Rightarrow> int \<Rightarrow> int \<Rightarrow> bool" where
  "f32_outcome rm q v flags \<longleftrightarrow> (\<exists>r. rounds_to f24 (f24_even r) rm q r \<and>
     (if f32_max < \<bar>r\<bar> then v = overflow_bits rm (q < 0) \<and> flags = F_OF + F_NX
      else if r \<noteq> 0 \<and> \<bar>r\<bar> < 2 powi -126 then v = (if q < 0 then 0x80000000 else 0) \<and> flags = F_UF + F_NX
      else f32_finite v \<and> f32_real v = r \<and> flags = (if r = q then 0 else F_NX)))"

section \<open>Reals and powers of two\<close>

lemma powi_real_le_iff [simp]: "(2::real) powi a \<le> 2 powi b \<longleftrightarrow> a \<le> b"
  by (meson linorder_not_less one_less_numeral_iff power_int_increasing
      power_int_strict_increasing one_le_numeral semiring_norm(76))

lemma powi_real_less_iff [simp]: "(2::real) powi a < 2 powi b \<longleftrightarrow> a < b"
  by (simp flip: linorder_not_le)

lemma of_rat_powi [simp]: "(of_rat (2 powi e) :: real) = 2 powi e"
  by (simp add: power_int_def of_rat_power of_rat_divide)

lemma powi_nat_split: "a \<le> b \<Longrightarrow> (2::real) powi b = 2 ^ nat (b - a) * 2 powi a"
  by (simp add: power_int_nonneg_exp [symmetric] flip: power_int_add)

section \<open>Every finite pattern is a 24-bit significand times a power of two\<close>

lemma f32_normal_form:
  assumes "f32_finite w" "\<not> d_zero (f32_decode w)"
  shows "\<exists>k x. f32_mag w = of_int k * 2 powi x \<and> 2 ^ 23 \<le> k \<and> k < 2 ^ 24 \<and> -149 \<le> x \<and> x \<le> 104"
proof -
  obtain k x where kx: "d_mag (f32_decode w) = Some (of_int k * 2 powi x)"
      "2 ^ 23 \<le> k \<and> k < 2 ^ 24 \<and> -149 \<le> x \<and> x \<le> 104"
    using f32_decode_normal [OF refl _ _ assms(2)] assms(1) unfolding f32_finite_def by blast
  then have "f32_mag w = of_int k * 2 powi x"
    by (simp add: f32_mag_def of_rat_mult)
  then show ?thesis using kx(2) by blast
qed

lemma f32_zero_mag: "d_zero (f32_decode w) \<Longrightarrow> f32_finite w \<and> mag (f32_decode w) = 0 \<and> f32_mag w = 0 \<and> f32_real w = 0"
  by (auto simp: f32_mag_def f32_real_def f32_finite_def f32_decode_def Let_def split: if_splits)

lemma f32_finite_form:
  assumes "f32_finite w"
  shows "\<exists>k x. f32_mag w = of_int k * 2 powi x \<and> 0 \<le> k \<and> k < 2 ^ 24"
proof (cases "d_zero (f32_decode w)")
  case True
  then have "f32_mag w = of_int 0 * 2 powi 0" by (simp add: f32_zero_mag)
  then show ?thesis by (intro exI [of _ 0]) simp
next
  case False
  then show ?thesis using f32_normal_form [OF assms False] by force
qed

lemma f32_mag_nonneg: "f32_finite w \<Longrightarrow> 0 \<le> f32_mag w"
  using f32_finite_form [of w] by auto

lemma f32_real_abs: "f32_finite w \<Longrightarrow> \<bar>f32_real w\<bar> = f32_mag w"
  using f32_mag_nonneg [of w] by (auto simp: f32_real_def)

text \<open>No representable magnitude lies strictly between two adjacent significands.\<close>

lemma f24_f32: "f32_finite w \<Longrightarrow> f24 (f32_real w)"
proof -
  assume "f32_finite w"
  then obtain k x where kx: "f32_mag w = of_int k * 2 powi x" "0 \<le> k" "k < 2 ^ 24" using f32_finite_form by blast
  then have "- f32_mag w = of_int (- k) * 2 powi x" "\<bar>k\<bar> < 2 ^ 24" "\<bar>- k\<bar> < 2 ^ 24" by auto
  then show "f24 (f32_real w)" using kx(1) unfolding f24_def f32_real_def by metis
qed

lemma f24_abs: "f24 r \<Longrightarrow> \<exists>k x. \<bar>r\<bar> = of_int k * 2 powi x \<and> 0 \<le> k \<and> k < 2 ^ 24"
proof -
  assume "f24 r"
  then obtain k x where "r = of_int k * 2 powi x" "\<bar>k\<bar> < 2 ^ 24" by (auto simp: f24_def)
  then have "\<bar>r\<bar> = of_int \<bar>k\<bar> * 2 powi x \<and> 0 \<le> \<bar>k\<bar> \<and> \<bar>k\<bar> < 2 ^ 24" by (simp add: abs_mult)
  then show ?thesis by blast
qed

lemma representable_gap:
  assumes "f24 r" and "2 ^ 23 \<le> sig"
  shows "\<bar>r\<bar> \<le> of_int sig * 2 powi (e - 23) \<or> of_int (sig + 1) * 2 powi (e - 23) \<le> \<bar>r\<bar>"
proof -
  obtain k x where w: "\<bar>r\<bar> = of_int k * 2 powi x" and k: "0 \<le> k" "k < 2 ^ 24"
    using f24_abs [OF assms(1)] by blast
  show ?thesis
  proof (cases "e - 23 \<le> x")
    case True
    define n where "n = k * 2 ^ nat (x - (e - 23))"
    have "\<bar>r\<bar> = of_int n * 2 powi (e - 23)"
      using powi_nat_split [OF True] by (simp add: w n_def)
    moreover have "n \<le> sig \<or> sig + 1 \<le> n" by linarith
    ultimately show ?thesis by (metis mult_right_mono of_int_le_iff powi_pos zero_le_power_int zero_le_numeral)
  next
    case False
    have "\<bar>r\<bar> \<le> of_int (2 ^ 24) * 2 powi x"
      unfolding w using k(2) by (intro mult_right_mono) (simp_all flip: of_int_le_iff)
    also have "\<dots> = 2 powi (24 + x)" by (simp add: power_int_add)
    also have "\<dots> \<le> 2 powi e" using False by simp
    also have "\<dots> = of_int (2 ^ 23) * 2 powi (e - 23)" using powi_nat_split [of "e - 23" e] by simp
    also have "\<dots> \<le> of_int sig * 2 powi (e - 23)"
      using assms(2) by (intro mult_right_mono) (simp_all flip: of_int_le_iff)
    finally show ?thesis ..
  qed
qed

section \<open>Packing a normal number\<close>

lemma normal_pack:
  assumes "fits 1 s" "fits 8 x" "fits 23 f"
  defines "v \<equiv> push_bit 31 s OR push_bit 23 x OR f"
  shows "take_bit 32 v = v" "drop_bit 31 v = s" "take_bit 8 (drop_bit 23 v) = x" "take_bit 23 v = f"
proof -
  have v: "v = push_bit 31 s OR (push_bit 23 x OR f)" unfolding v_def by (simp only: or.assoc)
  have lo: "fits 31 (push_bit 23 x OR f)"
    using assms by (intro fits_or fits_push_bit_le [of 8]) (auto intro: fits_mono)
  show "take_bit 32 v = v" using pack_fits [OF assms(1-3)] by (simp only: v_def take_bit_fits_id)
  show "drop_bit 31 v = s" unfolding v by (rule drop_bit_push_or [OF lo])
  have "take_bit 8 (drop_bit 23 v) = drop_bit 23 (take_bit 31 v)"
    by (simp add: drop_bit_take_bit)
  also have "take_bit 31 v = push_bit 23 x OR f"
    unfolding v using lo by (simp only: take_bit_push_or take_bit_fits_id)
  also have "drop_bit 23 \<dots> = x" by (rule drop_bit_push_or [OF assms(3)])
  finally show "take_bit 8 (drop_bit 23 v) = x" .
  show "take_bit 23 v = f"
    unfolding v using assms(3) by (simp add: take_bit_push_or del: take_bit_or)
qed

lemma f32_decode_pack:
  assumes s: "fits 1 s" and e: "-126 \<le> e" "e \<le> 127" and k: "2 ^ 23 \<le> k" "k < 2 ^ 24"
  defines "v \<equiv> push_bit 31 s OR push_bit 23 (e + 127) OR take_bit 23 k"
  shows "f32_finite v" "d_sign (f32_decode v) = s" "f32_mag v = of_int k * 2 powi (e - 23)"
proof -
  have x: "fits 8 (e + 127)" using e by (simp add: fits_def)
  note p = normal_pack [OF s x fits_take_bit [of 23 k], folded v_def]
  have "take_bit 23 k = k - 2 ^ 23"
    using k minus_mod_self2 [of k "2 ^ 23"] mod_pos_pos_trivial [of "k - 2 ^ 23" "2 ^ 23"]
    by (simp add: take_bit_eq_mod)
  then have k': "2 ^ 23 OR take_bit 23 k = k" unfolding power_or_take_bit by simp
  have s1: "s AND 1 = s" using s by (auto simp: and_one_eq fits_def)
  have d: "f32_decode v = \<lparr>d_sign = s, d_zero = False, d_inf = False, d_nan = False, d_snan = False,
       d_mag = Some (of_int k / 2 ^ 23 * 2 powi (e + 127 - 127))\<rparr>"
    unfolding f32_decode_def Let_def mask_simps p s1 k' using e by simp
  show "f32_finite v" "d_sign (f32_decode v) = s" by (simp_all add: f32_finite_def d)
  show "f32_mag v = of_int k * 2 powi (e - 23)"
    by (simp add: f32_mag_def d of_rat_mult of_rat_divide power_int_diff)
qed


section \<open>Rounding a positive real\<close>

text \<open>
  What the two normalisation routines hand to \<open>_f32_pack_rounded\<close>, for the exact (possibly
  irrational) magnitude \<open>q\<close>: the neighbours below and above, and where \<open>q\<close> lies between them.
\<close>

definition sig_lo :: "int \<Rightarrow> int \<Rightarrow> real" where
  "sig_lo e sig = of_int sig * 2 powi (e - 23)"

definition sig_form :: "real \<Rightarrow> int \<Rightarrow> int \<Rightarrow> rem_cls \<Rightarrow> bool" where
  "sig_form q e sig cls \<longleftrightarrow> 2 ^ 23 \<le> sig \<and> sig < 2 ^ 24 \<and>
     sig_lo e sig \<le> q \<and> q < sig_lo e (sig + 1) \<and>
     cls = (if q = sig_lo e sig then Exact
            else if 2 * q < sig_lo e sig + sig_lo e (sig + 1) then Below
            else if 2 * q > sig_lo e sig + sig_lo e (sig + 1) then Above else Tie)"

lemma sig_lo_exponent_le:
  assumes "2 ^ 23 \<le> sig" "sig_lo e sig \<le> q" "q \<le> f32_max"
  shows "e \<le> 127"
proof -
  have "2 powi e = of_int (2 ^ 23) * (2::real) powi (e - 23)"
    using powi_nat_split [of "e - 23" e] by simp
  also have "\<dots> \<le> of_int sig * 2 powi (e - 23)"
    using assms(1) by (intro mult_right_mono) (simp_all flip: of_int_le_iff)
  also have "\<dots> \<le> f32_max" using assms by (simp add: sig_lo_def)
  also have "\<dots> < 2 ^ 24 * 2 powi 104" by (simp add: f32_max_def)
  also have "\<dots> = 2 powi 128" by simp
  finally have "2 powi e < (2::real) powi 128" .
  then show ?thesis unfolding powi_real_less_iff by simp
qed

lemma round_up_exponent_le:
  assumes "2 ^ 23 \<le> sig" "sig_lo e sig < q" "q \<le> f32_max" "sig + 1 = 2 ^ 24"
  shows "e + 1 \<le> 127"
proof (rule ccontr)
  assume "\<not> e + 1 \<le> 127"
  then have "e = 127" using sig_lo_exponent_le [OF assms(1) less_imp_le [OF assms(2)] assms(3)] by simp
  moreover have "sig = 2 ^ 24 - 1" using assms(4) by simp
  ultimately have "sig_lo e sig = f32_max" by (simp add: sig_lo_def f32_max_def)
  then show False using assms(2,3) by simp
qed

lemma even_pack: "even (push_bit 31 s OR push_bit 23 x OR take_bit 23 k) \<longleftrightarrow> even (k::int)"
  by (simp add: even_iff_mod_2_eq_zero flip: take_bit_Suc_0 and_one_eq)
     (simp add: bit_simps flip: bit_0)

lemma round_decision_up: "f32_round_up_decision cls sig s rm = (True, inx) \<Longrightarrow> cls \<noteq> Exact"
  by (auto simp: f32_round_up_decision_def)

lemma pack_rounded_selects:
  assumes sf: "sig_form q e sig cls" and e: "-126 \<le> e" and q: "q \<le> f32_max" and s: "fits 1 s"
    and d: "f32_round_up_decision cls sig s rm = (up, inx)"
  defines "v \<equiv> fst (f32_pack_rounded s e sig cls rm)"
  defines "k \<equiv> if up then sig + 1 else sig"
  shows "f32_finite v \<and> d_sign (f32_decode v) = s \<and> f32_mag v = sig_lo e k \<and> (even v \<longleftrightarrow> even k) \<and>
    snd (f32_pack_rounded s e sig cls rm) = (if inx then F_NX else 0)"
proof -
  obtain sig' e' where p: "rounded_sig_exp up sig e = (sig', e')" by fastforce
  have rng: "2 ^ 23 \<le> sig" "sig < 2 ^ 24" "sig_lo e sig \<le> q" using sf by (auto simp: sig_form_def)
  have lt: "sig_lo e sig < q" if up
    using that sf round_decision_up [of cls sig s rm inx] d by (auto simp: sig_form_def split: if_splits)
  have p': "2 ^ 23 \<le> sig'" "sig' < 2 ^ 24" "-126 \<le> e'" "of_int sig' * 2 powi (e' - 23) = sig_lo e k"
    "even sig' \<longleftrightarrow> even k"
    using p rng e by (auto simp: rounded_sig_exp_def k_def sig_lo_def powi_nat_split [of "e - 23" "e - 22"]
        split: if_splits)
  have "e' \<le> 127"
    using p sig_lo_exponent_le [OF rng(1,3) q] round_up_exponent_le [OF rng(1) lt q]
    by (auto simp: rounded_sig_exp_def split: if_splits)
  with p'(3) have "v = push_bit 31 s OR push_bit 23 (e' + 127) OR take_bit 23 sig'"
    "snd (f32_pack_rounded s e sig cls rm) = (if inx then F_NX else 0)"
    unfolding v_def f32_pack_rounded_alt [OF d p] by simp_all
  then show ?thesis
    using f32_decode_pack [OF s p'(3) \<open>e' \<le> 127\<close> p'(1,2)] p'(4,5) even_pack by simp
qed


definition with_sign :: "int \<Rightarrow> real \<Rightarrow> real" where
  "with_sign s q = (if s = 0 then q else - q)"

lemma f32_real_with_sign: "f32_real v = with_sign (d_sign (f32_decode v)) (f32_mag v)"
  by (simp add: f32_real_def with_sign_def)

lemma inexact_iff: "snd (f32_round_up_decision cls sig s rm) \<longleftrightarrow> cls \<noteq> Exact"
  by (simp add: f32_round_up_decision_def)

lemma no_number_between:
  assumes "sig_form q e sig cls" "f24 r"
  shows "\<bar>r\<bar> \<le> sig_lo e sig \<or> sig_lo e (sig + 1) \<le> \<bar>r\<bar>"
  using representable_gap [OF assms(2), of sig e] assms(1) by (simp add: sig_form_def sig_lo_def)

lemma pack_rounded_value:
  assumes sf: "sig_form q e sig cls" and e: "-126 \<le> e" and q: "q \<le> f32_max" and s: "fits 1 s"
    and d: "f32_round_up_decision cls sig s rm = (up, inx)"
    and v: "v = fst (f32_pack_rounded s e sig cls rm)" and k: "k = (if up then sig + 1 else sig)"
  shows "f32_finite v" "f32_real v = with_sign s (sig_lo e k)" "\<bar>f32_real v\<bar> = sig_lo e k"
    "even v \<longleftrightarrow> even k" "s = 0 \<or> s = 1" "0 < sig_lo e sig"
proof -
  note sel = pack_rounded_selects [OF sf e q s d, folded v k]
  then show fin: "f32_finite v" and "f32_real v = with_sign s (sig_lo e k)" "even v \<longleftrightarrow> even k"
    by (simp_all add: f32_real_with_sign)
  show "\<bar>f32_real v\<bar> = sig_lo e k" using f32_real_abs [OF fin] sel by simp
  show "s = 0 \<or> s = 1" using s by (auto simp: fits_def)
  show "0 < sig_lo e sig" using sf by (auto simp: sig_form_def sig_lo_def)
qed

text \<open>
  The neighbour the rounding decision selects is the rounded value, for every set of numbers
  with none between the two neighbours.
\<close>

lemma rounds_directed:
  assumes sf: "sig_form q e sig cls" and s: "s = 0 \<or> s = 1"
    and d: "f32_round_up_decision cls sig s rm = (up, inx)" and k: "k = (if up then sig + 1 else sig)"
    and F: "F (with_sign s (sig_lo e k))" "\<forall>w. F w \<longrightarrow> \<bar>w\<bar> \<le> sig_lo e sig \<or> sig_lo e (sig + 1) \<le> \<bar>w\<bar>"
    and rm: "rm \<in> {RM_RTZ, RM_RDN, RM_RUP}"
  shows "rounds_to F ev rm (with_sign s q) (with_sign s (sig_lo e k))"
proof -
  have bnd: "sig_lo e sig \<le> q" "q < sig_lo e (sig + 1)" "cls = Exact \<longleftrightarrow> q = sig_lo e sig" "0 < sig_lo e sig"
    using sf by (auto simp: sig_form_def sig_lo_def)
  have pos: "0 \<le> with_sign s (sig_lo e sig) * with_sign s q" using bnd by (simp add: with_sign_def)
  show ?thesis
    unfolding rounds_to_def
    using bnd rm d s k F pos by (auto simp: f32_round_up_decision_def with_sign_def abs_if split: if_splits)
qed

lemma nearest_of_neighbours:
  assumes "0 < lo" "lo \<le> q" "q < hi" "s = 0 \<or> s = 1"
    and gap: "\<forall>w. F w \<longrightarrow> \<bar>w\<bar> \<le> lo \<or> hi \<le> \<bar>w\<bar>"
    and v: "v = with_sign s c" "c = lo \<and> 2 * q \<le> lo + hi \<or> c = hi \<and> lo + hi \<le> 2 * q"
  shows "nearest_in F (with_sign s q) v"
    and "tie_in F (with_sign s q) v w \<Longrightarrow> 2 * q = lo + hi \<and> w = with_sign s (lo + hi - c)"
proof -
  have near: "\<bar>c - q\<bar> \<le> q - lo" "\<bar>c - q\<bar> \<le> hi - q" using v(2) assms(2,3) by auto
  have dist: "\<bar>v - with_sign s q\<bar> = \<bar>c - q\<bar>"
    unfolding v(1) with_sign_def by auto
  have far: "q - lo \<le> \<bar>w - with_sign s q\<bar> \<or> hi - q \<le> \<bar>w - with_sign s q\<bar>"
    if "F w" for w
    using gap [rule_format, OF that] assms(1-3) by (auto simp: with_sign_def abs_if split: if_splits)
  show "nearest_in F (with_sign s q) v"
    unfolding nearest_in_def dist using near far by fastforce
  show "2 * q = lo + hi \<and> w = with_sign s (lo + hi - c)" if "tie_in F (with_sign s q) v w"
    using that v gap [rule_format, of w] assms(1-4) unfolding tie_in_def dist
    by (auto simp: with_sign_def abs_if split: if_splits)
qed

lemma rounds_nearest:
  assumes sf: "sig_form q e sig cls" and s: "s = 0 \<or> s = 1"
    and d: "f32_round_up_decision cls sig s rm = (up, inx)" and k: "k = (if up then sig + 1 else sig)"
    and F: "F (with_sign s (sig_lo e k))" "\<forall>w. F w \<longrightarrow> \<bar>w\<bar> \<le> sig_lo e sig \<or> sig_lo e (sig + 1) \<le> \<bar>w\<bar>"
    and rm: "rm \<notin> {RM_RTZ, RM_RDN, RM_RUP}" and ev: "even k \<Longrightarrow> ev"
  shows "rounds_to F ev rm (with_sign s q) (with_sign s (sig_lo e k))"
proof -
  define v where "v = with_sign s (sig_lo e k)"
  have bnd: "0 < sig_lo e sig" "sig_lo e sig \<le> q" "q < sig_lo e (sig + 1)"
    using sf by (auto simp: sig_form_def sig_lo_def)
  have c: "sig_lo e k = sig_lo e sig \<and> 2 * q \<le> sig_lo e sig + sig_lo e (sig + 1) \<or>
      sig_lo e k = sig_lo e (sig + 1) \<and> sig_lo e sig + sig_lo e (sig + 1) \<le> 2 * q"
    using sf d rm unfolding sig_form_def k f32_round_up_decision_def by (auto split: if_splits)
  note nr = nearest_of_neighbours [where F = F, OF bnd s F(2) v_def c]
  have tie: "cls = Tie" if "2 * q = sig_lo e sig + sig_lo e (sig + 1)"
    using that sf bnd unfolding sig_form_def by auto
  have "even k" if "tie_in F (with_sign s q) v w" "rm \<noteq> RM_RMM" for w
    using tie nr(2) [OF that(1)] that(2) rm d
    by (auto simp: f32_round_up_decision_def k and_one_eq mod2_eq_if split: if_splits)
  moreover have "\<bar>w\<bar> \<le> \<bar>v\<bar>" if "tie_in F (with_sign s q) v w" "rm = RM_RMM" for w
    using tie nr(2) [OF that(1)] that(2) rm d bnd
    by (auto simp: f32_round_up_decision_def k v_def with_sign_def split: if_splits)
  ultimately show ?thesis
    unfolding rounds_to_def v_def [symmetric] using F(1) [folded v_def] nr(1) rm ev by auto
qed

lemma rounds_neighbour:
  assumes "sig_form q e sig cls" "s = 0 \<or> s = 1" "f32_round_up_decision cls sig s rm = (up, inx)" "k = (if up then sig + 1 else sig)"
    "F (with_sign s (sig_lo e k))" "\<forall>w. F w \<longrightarrow> \<bar>w\<bar> \<le> sig_lo e sig \<or> sig_lo e (sig + 1) \<le> \<bar>w\<bar>" "even k \<Longrightarrow> ev"
  shows "rounds_to F ev rm (with_sign s q) (with_sign s (sig_lo e k))"
  using rounds_directed [where F = F, OF assms(1-6)] rounds_nearest [where F = F, OF assms(1-6) _ assms(7)] by blast

text \<open>The two rounding modes groups together, on the single-precision numbers.\<close>

lemma pack_rounded_correct:
  assumes sf: "sig_form q e sig cls" and e: "-126 \<le> e" and q: "q \<le> f32_max" and s: "fits 1 s"
  shows "correctly_rounded rm (with_sign s q) (fst (f32_pack_rounded s e sig cls rm))"
proof -
  obtain up inx where d: "f32_round_up_decision cls sig s rm = (up, inx)" by fastforce
  define v where "v = fst (f32_pack_rounded s e sig cls rm)"
  define k where "k = (if up then sig + 1 else sig)"
  note v = pack_rounded_value [OF sf e q s d v_def k_def]
  have n: "f32_number (with_sign s (sig_lo e k))" using v(1,2) by (auto simp: f32_number_def)
  have gap: "\<forall>w. f32_number w \<longrightarrow> \<bar>w\<bar> \<le> sig_lo e sig \<or> sig_lo e (sig + 1) \<le> \<bar>w\<bar>"
    using no_number_between [OF sf] f24_f32 by (auto simp: f32_number_def)
  have "rounds_to f32_number (even v) rm (with_sign s q) (with_sign s (sig_lo e k))"
    using v(4) by (intro rounds_neighbour [where F = f32_number, OF sf v(5) d k_def n gap]) simp
  then show ?thesis unfolding correctly_rounded_def v_def [symmetric] using v(1,2) by simp
qed

lemma pack_rounded_flags:
  assumes sf: "sig_form q e sig cls" and e: "-126 \<le> e" and q: "q \<le> f32_max" and s: "fits 1 s"
  shows "snd (f32_pack_rounded s e sig cls rm) =
    (if f32_real (fst (f32_pack_rounded s e sig cls rm)) = with_sign s q then 0 else F_NX)"
proof -
  obtain up inx where d: "f32_round_up_decision cls sig s rm = (up, inx)" by fastforce
  define v where "v = fst (f32_pack_rounded s e sig cls rm)"
  note v = pack_rounded_value [OF sf e q s d v_def refl]
  have "inx \<longleftrightarrow> cls \<noteq> Exact" using inexact_iff [of cls sig s rm] d by simp
  moreover have "cls \<noteq> Exact \<longleftrightarrow> f32_real v \<noteq> with_sign s q"
    using sf round_decision_up [of cls sig s rm inx] d
    unfolding v(2) with_sign_def sig_form_def by (auto split: if_splits)
  ultimately show ?thesis
    using pack_rounded_selects [OF sf e q s d] by (simp add: v_def)
qed


section \<open>The two normalisation routines deliver the neighbours\<close>

lemma scale_back: "x * 2 powi (23 - e) * 2 powi (e - 23) = (x::real)"
  by (simp add: mult.assoc flip: power_int_add)

lemma sig_formI:
  assumes y: "q = y * 2 powi (e - 23)" and "2 ^ 23 \<le> sig" "sig < 2 ^ 24"
    "of_int sig \<le> y" "y < of_int sig + 1"
    "cls = (if y = of_int sig then Exact else if 2 * y < 2 * of_int sig + 1 then Below
            else if 2 * y > 2 * of_int sig + 1 then Above else Tie)"
  shows "sig_form q e sig cls"
proof -
  have t: "0 < (2::real) powi (e - 23)" by simp
  have sum: "a * c + b * c = (a + b) * c" "2 * (a * c) = (2 * a) * c" for a b c :: real
    by (simp_all add: algebra_simps)
  show ?thesis
    using assms(2-) t unfolding sig_form_def sig_lo_def y sum
    by (simp add: mult_less_cancel_right_pos)
qed

lemma of_rat_half_tests:
  "2 * (of_rat z :: real) < 2 * of_int k + 1 \<longleftrightarrow> z - of_int k < 1 / 2"
  "2 * (of_rat z :: real) > 2 * of_int k + 1 \<longleftrightarrow> z - of_int k > 1 / 2"
  "of_rat z = (of_int k :: real) \<longleftrightarrow> z - of_int k = 0"
  using of_rat_less [where 'a = real, of "2 * z" "2 * of_int k + 1"]
    of_rat_less [where 'a = real, of "2 * of_int k + 1" "2 * z"] of_rat_eq_iff [where 'a = real, of z "of_int k"]
  by (auto simp: of_rat_add of_rat_mult)

lemma normal_form_sig_form:
  assumes "normal_form m e sig cls"
  shows "sig_form (of_rat m) e sig cls"
proof (rule sig_formI)
  let ?y = "m * 2 powi (23 - e)"
  have y: "of_rat ?y = (of_rat m :: real) * 2 powi (23 - e)" by (simp add: of_rat_mult)
  show "of_rat m = (of_rat ?y :: real) * 2 powi (e - 23)" unfolding y by (rule scale_back [symmetric])
  show "2 ^ 23 \<le> sig" "sig < 2 ^ 24" using normal_form_sig_range [OF assms] by auto
  have sig: "sig = \<lfloor>?y\<rfloor>" and cls: "cls = remainder_cls (?y - of_int sig)"
    using assms by (auto simp: normal_form_def)
  have "of_int sig \<le> ?y" "?y < of_int sig + 1" unfolding sig by linarith+
  then have "of_rat (of_int sig) \<le> (of_rat ?y :: real)" "of_rat ?y < (of_rat (of_int sig + 1) :: real)"
    unfolding of_rat_less_eq of_rat_less by auto
  then show "of_int sig \<le> (of_rat ?y :: real)" "of_rat ?y < (of_int sig + 1 :: real)"
    by (simp_all add: of_rat_add)
  show "cls = (if of_rat ?y = (of_int sig :: real) then Exact
      else if 2 * (of_rat ?y :: real) < 2 * of_int sig + 1 then Below
      else if 2 * (of_rat ?y :: real) > 2 * of_int sig + 1 then Above else Tie)"
    unfolding cls remainder_cls_def of_rat_half_tests by simp
qed

lemma sqrt_form_sig_form:
  assumes "sqrt_form m e sig cls"
  shows "sig_form (sqrt (of_rat m)) e sig cls"
proof (rule sig_formI)
  define r where "r = m * 2 powi (2 * (23 - e))"
  define R :: real where "R = of_rat r"
  have sf: "2 ^ 23 \<le> sig" "sig < 2 ^ 24" "of_int (sig * sig) \<le> r" "r < of_int ((sig + 1) * (sig + 1))"
    "cls = (if r = of_int (sig * sig) then Exact else if 4 * r < of_int ((2 * sig + 1) ^ 2) then Below
             else if 4 * r > of_int ((2 * sig + 1) ^ 2) then Above else Tie)"
    using assms unfolding sqrt_form_def Let_def r_def by auto
  then show "2 ^ 23 \<le> sig" "sig < 2 ^ 24" by auto
  have "R = of_rat m * (2 powi (23 - e)) ^ 2"
    by (simp add: R_def r_def of_rat_mult power2_eq_square flip: power_int_add)
  then have "sqrt R = sqrt (of_rat m) * 2 powi (23 - e)"
    by (simp add: real_sqrt_mult)
  then show "sqrt (of_rat m) = sqrt R * 2 powi (e - 23)" by (simp only: scale_back)
  have tr: "of_int n < (of_rat z :: real) \<longleftrightarrow> of_int n < z" "(of_rat z :: real) < of_int n \<longleftrightarrow> z < of_int n"
    "of_rat z = (of_int n :: real) \<longleftrightarrow> z = of_int n" "of_int n \<le> (of_rat z :: real) \<longleftrightarrow> of_int n \<le> z" for n z
    by (metis of_rat_less of_rat_less_eq of_rat_eq_iff of_rat_of_int_eq)+
  have four: "4 * R = of_rat (4 * r)" by (simp add: R_def of_rat_mult)
  have sq: "(of_int sig)\<^sup>2 \<le> R" "R < (of_int sig + 1)\<^sup>2"
    using sf(3,4) tr(4) [of "sig * sig" r] tr(2) [of r "(sig + 1) * (sig + 1)"]
    by (simp_all add: R_def power2_eq_square)
  have pos: "0 \<le> (of_int sig :: real)" using sf(1) by simp
  show "of_int sig \<le> sqrt R" by (rule real_le_rsqrt [OF sq(1)])
  show "sqrt R < of_int sig + 1" using sq(2) pos by (intro real_less_lsqrt) auto
  have R0: "0 \<le> R" using sq(1) by (meson order_trans zero_le_power2)
  have root: "0 \<le> n \<Longrightarrow> (of_int n :: real) = sqrt (of_int (n ^ 2))" for n
    by simp
  have two: "2 * sqrt R = sqrt (4 * R)" by (simp add: real_sqrt_mult)
  have s0: "0 \<le> 2 * sig + 1" "0 \<le> sig" using sf(1) by auto
  have "2 * sqrt R < of_int (2 * sig + 1) \<longleftrightarrow> 4 * r < of_int ((2 * sig + 1) ^ 2)"
    "2 * sqrt R > of_int (2 * sig + 1) \<longleftrightarrow> 4 * r > of_int ((2 * sig + 1) ^ 2)"
    unfolding two root [OF s0(1)] real_sqrt_less_iff four tr(1,2) by (rule refl)+
  moreover have "sqrt R = of_int sig \<longleftrightarrow> r = of_int (sig * sig)"
    unfolding root [OF s0(2)] real_sqrt_eq_iff R_def tr(3) power2_eq_square by (rule refl)
  ultimately show "cls = (if sqrt R = of_int sig then Exact else if 2 * sqrt R < 2 * of_int sig + 1 then Below
            else if 2 * sqrt R > 2 * of_int sig + 1 then Above else Tie)"
    using sf(5) by simp
qed


section \<open>Results in every range\<close>

lemma f32_mag_bounds:
  assumes "f32_finite a" "\<not> d_zero (f32_decode a)"
  shows "2 powi -126 \<le> f32_mag a" "f32_mag a \<le> f32_max"
proof -
  obtain k x where a: "f32_mag a = of_int k * 2 powi x" and k: "2 ^ 23 \<le> k" "k \<le> 2 ^ 24 - 1" and x: "-149 \<le> x" "x \<le> 104"
    using f32_normal_form [OF assms] by fastforce
  have "2 powi -126 = of_int (2 ^ 23) * (2::real) powi -149"
    using powi_nat_split [of "-149" "-126"] by simp
  also have "\<dots> \<le> f32_mag a" unfolding a using k x
    by (intro mult_mono) (simp_all only: of_int_le_iff powi_real_le_iff, simp_all)
  finally show "2 powi -126 \<le> f32_mag a" .
  have "f32_mag a \<le> of_int (2 ^ 24 - 1) * 2 powi 104"
    unfolding a using k x by (intro mult_mono) (simp_all only: of_int_le_iff powi_real_le_iff, simp_all)
  then show "f32_mag a \<le> f32_max" by (simp add: f32_max_def)
qed

lemma sig_lo_bounds:
  assumes "2 ^ 23 \<le> k" "k < 2 ^ 24"
  shows "2 powi e \<le> sig_lo e k" "sig_lo e k < 2 powi (e + 1)" "e \<le> 127 \<Longrightarrow> sig_lo e k \<le> f32_max"
proof -
  have p: "0 < (2::real) powi (e - 23)" by simp
  have "2 powi e = of_int (2 ^ 23) * (2::real) powi (e - 23)" using powi_nat_split [of "e - 23" e] by simp
  also have "\<dots> \<le> sig_lo e k" unfolding sig_lo_def using assms(1) by (intro mult_right_mono) (simp_all flip: of_int_le_iff)
  finally show "2 powi e \<le> sig_lo e k" .
  have "sig_lo e k < of_int (2 ^ 24) * 2 powi (e - 23)"
    unfolding sig_lo_def using assms(2) p by (intro mult_strict_right_mono) (simp_all only: of_int_less_iff)
  also have "\<dots> = 2 powi (e + 1)" using powi_nat_split [of "e - 23" "e + 1"] by simp
  finally show "sig_lo e k < 2 powi (e + 1)" .
  assume "e \<le> 127"
  moreover have "k \<le> 2 ^ 24 - 1" using assms(2) by simp
  ultimately have "of_int k * 2 powi (e - 23) \<le> of_int (2 ^ 24 - 1) * (2::real) powi 104"
    by (intro mult_mono) (simp_all only: of_int_le_iff powi_real_le_iff, simp_all)
  then show "sig_lo e k \<le> f32_max" by (simp add: sig_lo_def f32_max_def)
qed

lemma f24_with_sign: "\<bar>k\<bar> < 2 ^ 24 \<Longrightarrow> f24 (with_sign s (sig_lo e k))"
  unfolding f24_def sig_lo_def with_sign_def
  by (rule exI [of _ "if s = 0 then k else - k"], rule exI [of _ "e - 23"]) simp

lemma f24_even_with_sign: "2 ^ 23 \<le> k \<Longrightarrow> k < 2 ^ 24 \<Longrightarrow> even k \<Longrightarrow> f24_even (with_sign s (sig_lo e k))"
  unfolding f24_even_def sig_lo_def with_sign_def
  by (rule exI [of _ "if s = 0 then k else - k"], rule exI [of _ "e - 23"]) simp

lemma with_sign_basics: "\<bar>with_sign s x\<bar> = \<bar>x\<bar>" "with_sign s x = with_sign s y \<longleftrightarrow> x = y" "with_sign s x = 0 \<longleftrightarrow> x = 0"
  by (simp_all add: with_sign_def)

lemma overflow_bits_pack:
  "s = 0 \<or> s = 1 \<Longrightarrow> overflow_bits rm (s = 1) = (if rm = RM_RTZ \<or> (rm = RM_RDN \<and> s = 0) \<or> (rm = RM_RUP \<and> s = 1)
     then push_bit 31 s OR push_bit 23 0xFE OR 0x7FFFFF else push_bit 31 s OR push_bit 23 0xFF)"
  by (auto simp: overflow_bits_def)

lemma pack_rounded_outcome:
  assumes sf: "sig_form q e sig cls" and s: "fits 1 s"
  shows "f32_outcome rm (with_sign s q) (fst (f32_pack_rounded s e sig cls rm)) (snd (f32_pack_rounded s e sig cls rm))"
proof -
  obtain up inx where d: "f32_round_up_decision cls sig s rm = (up, inx)" by fastforce
  define k where "k = (if up then sig + 1 else sig)"
  define r where "r = with_sign s (sig_lo e k)"
  obtain sig' e' where p: "rounded_sig_exp up sig e = (sig', e')" by fastforce
  have s01: "s = 0 \<or> s = 1" using s by (auto simp: fits_def)
  have rng: "2 ^ 23 \<le> sig" "sig < 2 ^ 24" "sig_lo e sig \<le> q" using sf by (auto simp: sig_form_def)
  have "0 < sig_lo e sig" using rng(1) by (simp add: sig_lo_def)
  then have pos: "0 < q" using rng(3) by (rule less_le_trans)
  have p': "2 ^ 23 \<le> sig'" "sig' < 2 ^ 24" "sig_lo e' sig' = sig_lo e k" "even sig' \<longleftrightarrow> even k"
    using p rng by (auto simp: rounded_sig_exp_def k_def sig_lo_def powi_nat_split [of "e - 23" "e - 22"] split: if_splits)
  have r': "r = with_sign s (sig_lo e' sig')" "\<bar>r\<bar> = sig_lo e' sig'"
    using order_trans [OF _ sig_lo_bounds(1) [OF p'(1,2), of e']] by (simp_all add: r_def p'(3) with_sign_basics abs_of_nonneg)
  have f: "f24 r" using p'(1,2) unfolding r'(1) by (intro f24_with_sign) simp
  have gap: "\<forall>w. f24 w \<longrightarrow> \<bar>w\<bar> \<le> sig_lo e sig \<or> sig_lo e (sig + 1) \<le> \<bar>w\<bar>" using no_number_between [OF sf] by blast
  have ev: "f24_even r" if "even k" unfolding r'(1) using that p' by (intro f24_even_with_sign) auto
  have rnd: "rounds_to f24 (f24_even r) rm (with_sign s q) r"
    unfolding r_def by (rule rounds_neighbour [where F = f24, OF sf s01 d k_def f [unfolded r_def] gap ev [unfolded r_def]])
  have neg: "with_sign s q < 0 \<longleftrightarrow> s = 1" using s01 pos by (auto simp: with_sign_def)
  have inx: "inx \<longleftrightarrow> r \<noteq> with_sign s q"
    using sf d round_decision_up [of cls sig s rm inx] inexact_iff [of cls sig s rm]
    unfolding r_def with_sign_basics sig_form_def k_def by (auto split: if_splits)
  note b = sig_lo_bounds [OF p'(1,2), of e', folded r'(2)]
  note alt = f32_pack_rounded_alt [OF d p]
  consider "127 < e'" | "e' < -126" | "-126 \<le> e'" "e' \<le> 127" by linarith
  then show ?thesis
  proof cases
    case 1
    have "f32_max < 2 powi 128" by (simp add: f32_max_def)
    also have "\<dots> \<le> 2 powi e'" using 1 unfolding powi_real_le_iff by simp
    finally have "f32_max < \<bar>r\<bar>" using b(1) by simp
    then show ?thesis unfolding f32_outcome_def alt using rnd 1 overflow_bits_pack [OF s01, of rm] neg by (intro exI [of _ r]) simp
  next
    case 2
    have "2 powi (e' + 1) \<le> (2::real) powi -126" using 2 unfolding powi_real_le_iff by simp
    then have lo: "\<bar>r\<bar> < 2 powi -126" using b(2) by simp
    have "0 < \<bar>r\<bar>" by (rule less_le_trans [OF _ b(1)]) simp
    moreover have "\<not> f32_max < \<bar>r\<bar>" using b(3) 2 by simp
    ultimately show ?thesis unfolding f32_outcome_def alt using rnd lo 2 neg s01 by (intro exI [of _ r]) (auto simp: f32_pack_zero_def)
  next
    case 3
    have "(2::real) powi -126 \<le> 2 powi e'" using 3 unfolding powi_real_le_iff by simp
    then have "\<not> \<bar>r\<bar> < 2 powi -126" "\<not> f32_max < \<bar>r\<bar>" using b(1,3) 3 by auto
    then show ?thesis
      unfolding f32_outcome_def alt using rnd 3 f32_decode_pack [OF s 3 p'(1,2)] inx
      by (intro exI [of _ r]) (simp add: f32_real_with_sign r'(1) sig_lo_def)
  qed
qed

lemma exact_outcome:
  assumes "f32_finite v" "f32_real v = q"
  shows "f32_outcome rm q v 0"
proof -
  have "\<bar>q\<bar> \<le> f32_max \<and> (q = 0 \<or> 2 powi -126 \<le> \<bar>q\<bar>)"
    using f32_mag_bounds [OF assms(1)] f32_zero_mag [of v] f32_real_abs [OF assms(1)] assms(2)
    by (cases "d_zero (f32_decode v)") (auto simp: f32_max_def)
  moreover have "rounds_to f24 (f24_even q) rm q q"
    using f24_f32 [OF assms(1)] assms(2) by (auto simp: rounds_to_def nearest_in_def tie_in_def)
  ultimately show ?thesis unfolding f32_outcome_def using assms by (intro exI [of _ q]) auto
qed

section \<open>Rounded results\<close>

text \<open>
  \<open>rounded_result rm q r\<close>: the operation returned the correctly rounded \<open>q\<close>, raising exactly
  the inexact flag when rounding changed the value. \<open>f32_in_range\<close> is the range in which
  neither overflow nor underflow can happen.
\<close>

definition rounded_result :: "int \<Rightarrow> real \<Rightarrow> (int \<times> int) result \<Rightarrow> bool" where
  "rounded_result rm q r \<longleftrightarrow> (\<exists>v. correctly_rounded rm q v \<and>
     r = Inr (v, if f32_real v = q then 0 else F_NX))"

definition f32_in_range :: "real \<Rightarrow> bool" where
  "f32_in_range q \<longleftrightarrow> 2 powi -126 \<le> \<bar>q\<bar> \<and> \<bar>q\<bar> \<le> f32_max"

lemma sig_form_exponent_ge:
  assumes "sig_form q e sig cls" "2 powi -126 \<le> q"
  shows "-126 \<le> e"
proof -
  have "q < of_int (sig + 1) * 2 powi (e - 23)" "sig + 1 \<le> 2 ^ 24"
    using assms(1) by (auto simp: sig_form_def sig_lo_def)
  moreover from this(2) have "of_int (sig + 1) * (2::real) powi (e - 23) \<le> of_int (2 ^ 24) * 2 powi (e - 23)"
    by (intro mult_right_mono) (simp_all flip: of_int_le_iff)
  moreover have "of_int (2 ^ 24) * (2::real) powi (e - 23) = 2 powi (e + 1)"
    using powi_nat_split [of "e - 23" "e + 1"] by simp
  ultimately have "2 powi -126 < (2::real) powi (e + 1)" using assms(2) by linarith
  then show ?thesis unfolding powi_real_less_iff by simp
qed

lemma pack_rounded_result:
  assumes "sig_form q e sig cls" "2 powi -126 \<le> q" "q \<le> f32_max" "fits 1 s"
  shows "rounded_result rm (with_sign s q) (Inr (f32_pack_rounded s e sig cls rm))"
proof -
  note e = sig_form_exponent_ge [OF assms(1,2)]
  show ?thesis
    unfolding rounded_result_def
    using pack_rounded_correct [OF assms(1) e assms(3,4)] pack_rounded_flags [OF assms(1) e assms(3,4)]
    by (intro exI [of _ "fst (f32_pack_rounded s e sig cls rm)"] conjI) (simp_all add: prod_eq_iff)
qed

lemma f32_round_from_fraction_correct:
  assumes "0 < m" "f32_in_range (of_rat m)" "fits 1 s"
  shows "rounded_result rm (with_sign s (of_rat m)) (f32_round_from_fraction s m rm)"
proof -
  obtain e sig cls where n: "f32_normalize_fraction m = Inr (e, sig, cls)" "normal_form m e sig cls"
    using f32_normalize_fraction_returns [OF assms(1)] by blast
  have "rounded_result rm (with_sign s (of_rat m)) (Inr (f32_pack_rounded s e sig cls rm))"
    using assms by (intro pack_rounded_result normal_form_sig_form [OF n(2)]) (simp_all add: f32_in_range_def)
  then show ?thesis by (simp add: f32_round_from_fraction_def n)
qed

text \<open>A result that is the exact value is correctly rounded in every mode.\<close>

lemma exact_result:
  assumes "f32_finite v" "f32_real v = q"
  shows "rounded_result rm q (Inr (v, 0))"
  using assms by (auto simp: rounded_result_def correctly_rounded_def rounds_to_def nearest_in_def tie_in_def f32_number_def)

text \<open>
  The result in every range: the outcome of \<open>f32_outcome\<close>, and in the normal range the correctly
  rounded value.
\<close>

definition f32_rounds :: "int \<Rightarrow> real \<Rightarrow> (int \<times> int) result \<Rightarrow> bool" where
  "f32_rounds rm q res \<longleftrightarrow> (\<exists>v flags. res = Inr (v, flags) \<and> f32_outcome rm q v flags) \<and>
     (q = 0 \<or> f32_in_range q \<longrightarrow> rounded_result rm q res)"

lemma exact_rounds: "f32_finite v \<Longrightarrow> f32_real v = q \<Longrightarrow> f32_rounds rm q (Inr (v, 0))"
  by (simp add: f32_rounds_def exact_result exact_outcome)

lemma f32_round_from_fraction_rounds:
  assumes "0 < m" "fits 1 s"
  shows "f32_rounds rm (with_sign s (of_rat m)) (f32_round_from_fraction s m rm)"
proof -
  obtain e sig cls where n: "f32_normalize_fraction m = Inr (e, sig, cls)" "normal_form m e sig cls"
    using f32_normalize_fraction_returns [OF assms(1)] by blast
  have "f32_round_from_fraction s m rm = Inr (f32_pack_rounded s e sig cls rm)"
    by (simp add: f32_round_from_fraction_def n)
  moreover have "with_sign s (of_rat m) \<noteq> 0" "f32_in_range (with_sign s (of_rat m)) = f32_in_range (of_rat m)"
    using assms(1) by (simp_all add: with_sign_def f32_in_range_def)
  ultimately show ?thesis
    using pack_rounded_outcome [OF normal_form_sig_form [OF n(2)] assms(2), of rm] f32_round_from_fraction_correct [OF assms(1) _ assms(2), of rm]
    unfolding f32_rounds_def by (metis surjective_pairing)
qed

lemma signed_total_rounds:
  assumes "t \<noteq> 0"
  shows "f32_rounds rm (of_rat t) (f32_round_from_fraction (if t < 0 then 1 else 0) \<bar>t\<bar> rm)"
proof -
  have "f32_rounds rm (with_sign (if t < 0 then 1 else 0) (of_rat \<bar>t\<bar>))
      (f32_round_from_fraction (if t < 0 then 1 else 0) \<bar>t\<bar> rm)"
    using assms by (intro f32_round_from_fraction_rounds) (auto simp: fits_def)
  moreover have "with_sign (if t < 0 then 1 else 0) (of_rat \<bar>t\<bar>) = of_rat t"
    by (simp add: with_sign_def of_rat_minus)
  ultimately show ?thesis by simp
qed


section \<open>The operations round correctly\<close>

lemma f32_sign_01: "d_sign (f32_decode w) = 0 \<or> d_sign (f32_decode w) = 1"
  using f32_decode_sign_fits [of 1 w] by (auto simp: fits_def)

lemma of_rat_value:
  "of_rat (if d_sign (f32_decode w) = 0 then mag (f32_decode w) else - mag (f32_decode w)) = f32_real w"
  by (simp add: f32_real_def f32_mag_def of_rat_minus)

lemma of_rat_value_flipped:
  "of_rat (if d_sign (f32_decode w) XOR (if neg then 1 else 0) = 0 then mag (f32_decode w)
           else - mag (f32_decode w)) = (if neg then - f32_real w else f32_real w)"
  using f32_sign_01 [of w] by (auto simp: f32_real_def f32_mag_def of_rat_minus)

lemma f32_pack_zero_value: "fits 1 s \<Longrightarrow> f32_finite (f32_pack_zero s) \<and> f32_real (f32_pack_zero s) = 0"
proof -
  assume "fits 1 s"
  then have "s = 0 \<or> s = 1" by (auto simp: fits_def)
  then show ?thesis by (auto simp: f32_pack_zero_def f32_finite_def f32_real_def f32_mag_def f32_decode_def)
qed

lemma f32_decode_resign:
  assumes "fits 1 s"
  shows "f32_decode (push_bit 31 s OR take_bit 31 w) = (f32_decode w)\<lparr>d_sign := s\<rparr>"
proof -
  let ?v = "push_bit 31 s OR take_bit 31 w"
  have s: "s AND 1 = s" using assms by (auto simp: and_one_eq fits_def)
  have "drop_bit 31 (take_bit 32 ?v) = s"
    using sign_and_rest_fits [OF assms, of w] drop_bit_push_or [OF fits_take_bit]
    by (simp only: take_bit_fits_id)
  moreover have "take_bit 23 (take_bit 32 ?v) = take_bit 23 (take_bit 32 w)"
    "take_bit 8 (drop_bit 23 (take_bit 32 ?v)) = take_bit 8 (drop_bit 23 (take_bit 32 w))"
    by (rule bit_eqI, auto simp: bit_simps)+
  ultimately show ?thesis
    unfolding f32_decode_def Let_def mask_simps using s by simp
qed

lemma f32_resign_value:
  assumes "fits 1 s" "f32_finite w"
  shows "f32_finite (push_bit 31 s OR take_bit 31 w) \<and>
    f32_real (push_bit 31 s OR take_bit 31 w) = with_sign s (f32_mag w)"
  using assms unfolding f32_finite_def f32_real_def f32_mag_def with_sign_def f32_decode_resign [OF assms(1)]
  by simp

lemma with_sign_flipped:
  "with_sign (d_sign (f32_decode w) XOR (if neg then 1 else 0)) (f32_mag w) =
   (if neg then - f32_real w else f32_real w)"
  using f32_sign_01 [of w] by (auto simp: f32_real_def with_sign_def)

text \<open>Concrete patterns the witnesses use: 1, 3 and -2.\<close>

lemma f32_one: "f32_finite 0x3F800000" "f32_real 0x3F800000 = 1"
  and f32_three: "f32_finite 0x40400000" "f32_real 0x40400000 = 3"
  and f32_minus_two: "f32_finite 0xC0000000" "f32_real 0xC0000000 = -2"
  by (simp_all add: f32_finite_def f32_real_def f32_mag_def f32_decode_def Let_def)

lemma f32_sample_ranges: "f32_in_range 5" "f32_in_range (-6)" "f32_in_range (1 / 3)"
  by (simp_all add: f32_in_range_def f32_max_def)

text \<open>C4. Addition and subtraction of finite operands, in every rounding mode: when the exact sum is zero or in the normal range, the result
  is that sum correctly rounded, with exactly the inexact flag when rounding changed it. In every range the result is that of the sum
  rounded to 24 bits: beyond the largest number infinity or the largest number with the overflow and inexact flags, below
  the smallest normal number a zero of the sum's sign with the underflow and inexact flags.\<close>

theorem f_add_correct:
  assumes "f32_finite a" "f32_finite b"
    and q: "q = (if is_sub then f32_real a - f32_real b else f32_real a + f32_real b)"
  shows "f32_rounds rm q (f_add a b rm is_sub)"
proof -
  let ?a = "f32_decode a" let ?b = "f32_decode b"
  let ?sb = "d_sign ?b XOR (if is_sub then 1 else 0)"
  have fin: "\<not> d_nan ?a" "\<not> d_inf ?a" "\<not> d_nan ?b" "\<not> d_inf ?b"
    using assms by (auto simp: f32_finite_def)
  have sb: "fits 1 ?sb" by (rule fits_1_xor_if) simp
  define t where "t = (if d_sign ?a = 0 then mag ?a else - mag ?a) + (if ?sb = 0 then mag ?b else - mag ?b)"
  have t: "of_rat t = q"
    unfolding t_def of_rat_add of_rat_value of_rat_value_flipped q by simp
  have pz: "f32_rounds rm 0 (Inr (f32_pack_zero s, 0))" if "fits 1 s" for s
    using f32_pack_zero_value that by (intro exact_rounds) auto
  have rdn: "fits 1 (if rm = RM_RDN then 1 else (0::int))" by (simp add: fits_def)
  show ?thesis
  proof (cases "d_zero ?a"; cases "d_zero ?b")
    assume z: "d_zero ?a" "d_zero ?b"
    then show ?thesis
      using pz [OF sb] pz [OF rdn] f32_zero_mag [OF z(1)] f32_zero_mag [OF z(2)] fin
      unfolding f_add_def Let_def by (cases is_sub) (simp_all add: q)
  next
    assume z: "d_zero ?a" "\<not> d_zero ?b"
    then have "with_sign ?sb (f32_mag b) = q"
      using with_sign_flipped [of b is_sub] f32_zero_mag [OF z(1)] by (simp add: q)
    then show ?thesis
      using z fin f32_resign_value [OF sb assms(2)] exact_rounds
      unfolding f_add_def Let_def mask_simps by simp
  next
    assume z: "\<not> d_zero ?a" "d_zero ?b"
    then show ?thesis
      using fin f32_zero_mag exact_rounds [OF assms(1)] unfolding f_add_def Let_def by (simp add: q)
  next
    assume z: "\<not> d_zero ?a" "\<not> d_zero ?b"
    then have "f_add a b rm is_sub = (if t = 0 then Inr (f32_pack_zero (if rm = RM_RDN then 1 else 0), 0)
        else f32_round_from_fraction (if t < 0 then 1 else 0) \<bar>t\<bar> rm)"
      using fin unfolding f_add_def Let_def t_def by simp
    then show ?thesis
      using pz [OF rdn] signed_total_rounds [of t rm] t by auto
  qed
qed


theorem f_add_correct_witness:
  "rounded_result RM_RNE 5 (f_add 0x40400000 0xC0000000 RM_RNE True)"
  using f_add_correct [of "0x40400000" "0xC0000000" 5 True RM_RNE] f32_three f32_minus_two f32_sample_ranges
  by (simp add: f32_rounds_def)

lemma with_sign_xor: "fits 1 s \<Longrightarrow> fits 1 t \<Longrightarrow> with_sign (s XOR t) q = with_sign s (with_sign t q)"
  using fits_1_cases [of s] fits_1_cases [of t] by (auto simp: with_sign_def)

lemma f32_mag_nonzero: "f32_finite a \<Longrightarrow> f32_mag a = 0 \<longleftrightarrow> d_zero (f32_decode a)"
  using f32_normal_form [of a] f32_zero_mag [of a] by (cases "d_zero (f32_decode a)") auto

lemma f32_real_zero_iff: "f32_finite a \<Longrightarrow> f32_real a = 0 \<longleftrightarrow> d_zero (f32_decode a)"
  using f32_mag_nonzero [of a] by (simp add: f32_real_def)

text \<open>Multiplication of finite operands rounds the exact product, in the same sense.\<close>

theorem f_mul_correct:
  assumes "f32_finite a" "f32_finite b" "q = f32_real a * f32_real b"
  shows "f32_rounds rm q (f_mul a b rm)"
proof -
  let ?a = "f32_decode a" let ?b = "f32_decode b" let ?s = "d_sign ?a XOR d_sign ?b"
  have fin: "\<not> d_nan ?a" "\<not> d_inf ?a" "\<not> d_nan ?b" "\<not> d_inf ?b"
    using assms by (auto simp: f32_finite_def)
  have s: "fits 1 ?s" by (intro fits_xor) simp_all
  show ?thesis
  proof (cases "d_zero ?a \<or> d_zero ?b")
    case True
    then have "q = 0" using assms(3) f32_zero_mag by auto
    then show ?thesis
      using True fin exact_rounds f32_pack_zero_value [OF s] unfolding f_mul_def Let_def by auto
  next
    case False
    have m: "of_rat (mag ?a * mag ?b) = f32_mag a * f32_mag b" by (simp add: f32_mag_def of_rat_mult)
    have q: "with_sign ?s (of_rat (mag ?a * mag ?b)) = q"
      unfolding m with_sign_xor [OF f32_decode_sign_fits f32_decode_sign_fits, OF zero_less_one zero_less_one]
        assms(3) f32_real_with_sign by (auto simp: with_sign_def)
    have "q \<noteq> 0" using False f32_real_zero_iff assms(1-3) by simp
    moreover have "0 < mag ?a * mag ?b" using f32_decode_mag_pos False fin by simp
    ultimately show ?thesis
      using f32_round_from_fraction_rounds [of "mag ?a * mag ?b" ?s rm] False fin s q
      unfolding f_mul_def Let_def by simp
  qed
qed

theorem f_mul_correct_witness:
  "rounded_result RM_RUP (-6) (f_mul 0x40400000 0xC0000000 RM_RUP)"
  using f_mul_correct [of "0x40400000" "0xC0000000" "-6" RM_RUP] f32_three f32_minus_two f32_sample_ranges
  by (simp add: f32_rounds_def)

text \<open>C31. Division of a finite number by a finite nonzero number, in every rounding mode: when the exact quotient is zero or in the normal
  range, the result is that quotient correctly rounded, with exactly the inexact flag when rounding changed it. In every range the result is
  that of the quotient rounded to 24 bits: beyond the largest number infinity or the largest number with overflow and inexact,
  below the smallest normal number a zero of the quotient's sign with underflow and inexact.\<close>

theorem f_div_correct:
  assumes "f32_finite a" "f32_finite b" "f32_real b \<noteq> 0" "q = f32_real a / f32_real b"
  shows "f32_rounds rm q (f_div a b rm)"
proof -
  let ?a = "f32_decode a" let ?b = "f32_decode b" let ?s = "d_sign ?a XOR d_sign ?b"
  have fin: "\<not> d_nan ?a" "\<not> d_inf ?a" "\<not> d_nan ?b" "\<not> d_inf ?b"
    using assms by (auto simp: f32_finite_def)
  have b: "\<not> d_zero ?b" using assms(2,3) f32_real_zero_iff by simp
  have s: "fits 1 ?s" by (intro fits_xor) simp_all
  show ?thesis
  proof (cases "d_zero ?a")
    case True
    then have "q = 0" using assms(4) f32_zero_mag by auto
    then show ?thesis
      using True b fin exact_rounds f32_pack_zero_value [OF s] unfolding f_div_def Let_def by auto
  next
    case False
    have m: "of_rat (mag ?a / mag ?b) = f32_mag a / f32_mag b" by (simp add: f32_mag_def of_rat_divide)
    have q: "with_sign ?s (of_rat (mag ?a / mag ?b)) = q"
      unfolding m with_sign_xor [OF f32_decode_sign_fits f32_decode_sign_fits, OF zero_less_one zero_less_one]
        assms(4) f32_real_with_sign by (auto simp: with_sign_def)
    have "q \<noteq> 0" using False b f32_real_zero_iff assms(1,2,4) by simp
    moreover have "0 < mag ?a / mag ?b" using f32_decode_mag_pos False b fin by simp
    ultimately show ?thesis
      using f32_round_from_fraction_rounds [of "mag ?a / mag ?b" ?s rm] False b fin s q
      unfolding f_div_def Let_def by simp
  qed
qed

theorem f_div_correct_witness:
  "rounded_result RM_RNE (1 / 3) (f_div 0x3F800000 0x40400000 RM_RNE)"
  using f_div_correct [of "0x3F800000" "0x40400000" "1 / 3" RM_RNE] f32_one f32_three f32_sample_ranges
  by (simp add: f32_rounds_def)

text \<open>C30. Square root rounds the exact (possibly irrational) root correctly for every finite nonnegative operand, with no range condition.\<close>

theorem f_sqrt_correct:
  assumes "f32_finite a" "0 \<le> f32_real a"
  shows "rounded_result rm (sqrt (f32_real a)) (f_sqrt a rm)"
proof (cases "d_zero (f32_decode a)")
  case True
  then show ?thesis
    using assms exact_result [OF assms(1)] f32_zero_mag [OF True] unfolding f_sqrt_def f32_finite_def Let_def by simp
next
  case False
  let ?a = "f32_decode a"
  have fin: "\<not> d_nan ?a" "\<not> d_inf ?a" using assms by (auto simp: f32_finite_def)
  note bnd = f32_mag_bounds [OF assms(1) False]
  have pos: "0 < f32_mag a" using less_le_trans [OF _ bnd(1)] by simp
  then have s: "d_sign ?a = 0" "f32_real a = f32_mag a" using assms(2) by (auto simp: f32_real_def split: if_splits)
  obtain k x where kx: "mag ?a = of_int k * 2 powi x" "2 ^ 23 \<le> k" "k < 2 ^ 24"
    using f32_decode_normal [OF refl fin False] by auto
  obtain e sig cls where n: "f32_sqrt_normalize (mag ?a) = Inr (e, sig, cls)" "sqrt_form (mag ?a) e sig cls"
    using f32_sqrt_normalize_returns [OF kx] by blast
  have "2 powi -126 = sqrt ((2 powi -126)\<^sup>2)" by simp
  also have "\<dots> \<le> sqrt (f32_mag a)"
    using order_trans [OF _ bnd(1), of "(2 powi -126)\<^sup>2"] by (simp add: power_int_def power_one_over)
  finally have lo: "2 powi -126 \<le> sqrt (f32_mag a)" .
  have "f32_mag a \<le> f32_max\<^sup>2" using bnd(2) by (rule order_trans) (simp add: f32_max_def)
  then have hi: "sqrt (f32_mag a) \<le> f32_max" by (intro real_le_lsqrt) (simp_all add: f32_max_def)
  have "rounded_result rm (with_sign 0 (sqrt (f32_mag a))) (Inr (f32_pack_rounded 0 e sig cls rm))"
    using lo hi sqrt_form_sig_form [OF n(2)] by (intro pack_rounded_result) (simp_all add: f32_mag_def)
  then show ?thesis
    using False fin s n unfolding f_sqrt_def Let_def f32_round_from_sqrt_def by (simp add: with_sign_def)
qed


theorem f_sqrt_correct_witness: "rounded_result RM_RTZ (sqrt 3) (f_sqrt 0x40400000 RM_RTZ)"
  using f_sqrt_correct [of "0x40400000" RM_RTZ] f32_three by simp

text \<open>C29. The fused multiply-add of finite operands, in its four sign variants, rounds the exact product plus addend once, in every rounding
  mode: when it is zero or in the normal range, the result is it correctly rounded, with exactly the inexact flag when rounding changed it. In
  every range the result is that of its rounding to 24 bits: beyond the largest number infinity or the largest number with overflow
  and inexact, below the smallest normal number a zero of its sign with underflow and inexact.\<close>

theorem f_madd_correct:
  assumes fabc: "f32_finite a" "f32_finite b" "f32_finite c"
    and q: "q = (if np then - (f32_real a * f32_real b) else f32_real a * f32_real b) +
      (if na then - f32_real c else f32_real c)"
  shows "f32_rounds rm q (f_madd a b c rm np na)"
proof -
  let ?a = "f32_decode a" let ?b = "f32_decode b" let ?c = "f32_decode c"
  let ?sc = "d_sign ?c XOR (if na then 1 else 0)"
  let ?sp = "d_sign ?a XOR d_sign ?b XOR (if np then 1 else 0)"
  have fin: "\<not> d_nan ?a" "\<not> d_inf ?a" "\<not> d_nan ?b" "\<not> d_inf ?b" "\<not> d_nan ?c" "\<not> d_inf ?c"
    using assms by (auto simp: f32_finite_def)
  have sc: "fits 1 ?sc" by (rule fits_1_xor_if) simp
  have pz: "f32_rounds rm 0 (Inr (f32_pack_zero s, 0))" if "fits 1 s" for s
    using f32_pack_zero_value that by (intro exact_rounds) auto
  have rdn: "fits 1 (if rm = RM_RDN then 1 else (0::int))" by (simp add: fits_def)
  have ct: "of_rat (if ?sc = 0 then mag ?c else - mag ?c) = (if na then - f32_real c else f32_real c)"
    by (rule of_rat_value_flipped)
  have pt: "of_rat (if ?sp = 0 then mag ?a * mag ?b else - (mag ?a * mag ?b)) =
      (if np then - (f32_real a * f32_real b) else f32_real a * f32_real b)"
    using f32_sign_01 [of a] f32_sign_01 [of b]
    by (auto simp: f32_real_def f32_mag_def of_rat_minus of_rat_mult)
  show ?thesis
  proof (cases "d_zero ?a \<or> d_zero ?b")
    case True
    then have qc: "q = (if na then - f32_real c else f32_real c)" using f32_zero_mag q by auto
    then have "f32_real (push_bit 31 ?sc OR take_bit 31 c) = q"
      using f32_resign_value [OF sc fabc(3)] with_sign_flipped [of c na] by metis
    then have nz: "f32_rounds rm q (Inr (push_bit 31 ?sc OR take_bit 31 c, 0))"
      using f32_resign_value [OF sc fabc(3)] exact_rounds by blast
    have z: "q = 0" if "d_zero ?c" using that qc f32_zero_mag by simp
    show ?thesis
      using True fin nz z pz [OF sc] pz [OF rdn] unfolding f_madd_def Let_def mask_simps
      by (cases "d_zero ?c"; cases "?sp = ?sc") simp_all
  next
    case False
    define t where "t = (if ?sp = 0 then mag ?a * mag ?b else - (mag ?a * mag ?b)) +
      (if ?sc = 0 then mag ?c else - mag ?c)"
    have t: "of_rat t = q" unfolding t_def of_rat_add pt ct q ..
    have "f_madd a b c rm np na = (if t = 0 then Inr (f32_pack_zero (if rm = RM_RDN then 1 else 0), 0)
        else f32_round_from_fraction (if t < 0 then 1 else 0) \<bar>t\<bar> rm)"
      using fin False unfolding f_madd_def Let_def t_def by simp
    then show ?thesis
      using pz [OF rdn] signed_total_rounds [of t rm] t by auto
  qed
qed

theorem f_madd_correct_witness:
  "rounded_result RM_RDN 5 (f_madd 0x40400000 0xC0000000 0x3F800000 RM_RDN True True)"
  using f_madd_correct [of "0x40400000" "0xC0000000" "0x3F800000" 5 True True RM_RDN]
    f32_one f32_three f32_minus_two f32_sample_ranges
  by (simp add: f32_rounds_def)

section \<open>Conversion from an integer\<close>

lemma int_in_range: "0 < n \<Longrightarrow> n \<le> 2 ^ 32 \<Longrightarrow> f32_in_range (of_int n)"
proof -
  assume n: "0 < n" "n \<le> 2 ^ 32"
  have "(2::real) powi -126 \<le> 2 powi 0" unfolding powi_real_le_iff by simp
  then have "2 powi -126 \<le> (of_int n :: real)" using n(1) by simp
  moreover have "of_int n \<le> (of_int (2 ^ 32) :: real)" using n(2) unfolding of_int_le_iff .
  then have "of_int n \<le> f32_max" by (simp add: f32_max_def)
  ultimately show ?thesis using n(1) by (simp add: f32_in_range_def)
qed

lemma s32_of_sign:
  assumes "fits 32 a"
  shows "s32 a = (if drop_bit 31 a mod 2 \<noteq> 0 then a - 2 ^ 32 else a)"
proof -
  have "drop_bit 31 a mod 2 \<noteq> 0 \<longleftrightarrow> bit a 31" by (simp add: bit_iff_odd_drop_bit odd_iff_mod_2_eq_one)
  then show ?thesis
    using assms and_power_eq_0_iff [of a 31] by (simp add: s32_def Let_def mask_simps)
qed

text \<open>Conversion from a 32-bit integer, signed or unsigned, is the correctly rounded integer value.\<close>

theorem f_cvt_from_int_correct:
  assumes "fits 32 a"
  shows "rounded_result rm (of_int (if uns then a else s32 a)) (f_cvt_from_int a rm uns)"
proof (cases "a = 0")
  case True
  have "rounded_result rm (of_int 0) (Inr (0, 0))"
    using f32_pack_zero_value [of 0] by (intro exact_result) (simp_all add: f32_pack_zero_def)
  then show ?thesis using True by (simp add: f_cvt_from_int_def s32_def)
next
  case False
  then have a: "0 < a" "a \<le> 2 ^ 32" using assms by (auto simp: fits_def)
  let ?s = "drop_bit 31 a mod 2"
  have pos: "rounded_result rm (of_int a) (f32_round_from_fraction 0 (of_int a) rm)"
    using f32_round_from_fraction_correct [of "of_int a" 0 rm] a int_in_range [OF a] by (simp add: with_sign_def)
  have c: "0 < 2 ^ 32 - a" "2 ^ 32 - a \<le> 2 ^ 32" using assms a(1) by (auto simp: fits_def)
  have neg: "rounded_result rm (of_int (a - 2 ^ 32)) (f32_round_from_fraction 1 (of_int (2 ^ 32 - a)) rm)"
    using f32_round_from_fraction_correct [of "of_int (2 ^ 32 - a)" 1 rm] c int_in_range [OF c]
    by (simp add: with_sign_def fits_def of_rat_diff)
  have n: "take_bit 32 (NOT a + 1) = 2 ^ 32 - a"
    using take_bit_minus_pos [OF a(1) assms] by (simp add: not_int_def)
  have s01: "?s = 0 \<or> ?s = 1" by auto
  show ?thesis
    unfolding f_cvt_from_int_def Let_def mask_simps and_one_eq n s32_of_sign [OF assms]
    using False s01 pos neg assms by (cases uns; cases "?s = 0") simp_all
qed

theorem f_cvt_from_int_correct_witness:
  "rounded_result RM_RNE (-1) (f_cvt_from_int 0xFFFFFFFF RM_RNE False)"
  using f_cvt_from_int_correct [of "0xFFFFFFFF" RM_RNE False] by (simp add: fits_def s32_def)

section \<open>Comparison\<close>

lemma f32_parts_of_pattern:
  assumes "f32_finite a" "fits 32 a"
  defines "x \<equiv> take_bit 8 (drop_bit 23 a)" and "f \<equiv> take_bit 23 a"
  shows "d_zero (f32_decode a) \<longleftrightarrow> x = 0"
    and "f32_mag a = (if x = 0 then 0 else of_int (2 ^ 23 + f) * 2 powi (x - 150))"
    and "take_bit 31 a = x * 2 ^ 23 + f" and "0 \<le> f" "f < 2 ^ 23" "0 \<le> x"
    and "a = d_sign (f32_decode a) * 2 ^ 31 + take_bit 31 a"
proof -
  have b: "take_bit 32 a = a" using assms by simp
  have x255: "x \<noteq> 255"
    using assms(1) unfolding f32_finite_def f32_decode_def Let_def mask_simps b x_def by (auto split: if_splits)
  have d: "f32_decode a = (if x = 0
      then \<lparr>d_sign = drop_bit 31 a AND 1, d_zero = True, d_inf = False, d_nan = False, d_snan = False, d_mag = Some 0\<rparr>
      else \<lparr>d_sign = drop_bit 31 a AND 1, d_zero = False, d_inf = False, d_nan = False, d_snan = False,
            d_mag = Some (of_int (2 ^ 23 + f) / 2 ^ 23 * 2 powi (x - 127))\<rparr>)"
    using x255 unfolding f32_decode_def Let_def mask_simps b x_def f_def power_or_take_bit by simp
  show "d_zero (f32_decode a) \<longleftrightarrow> x = 0" by (simp add: d)
  show "f32_mag a = (if x = 0 then 0 else of_int (2 ^ 23 + f) * 2 powi (x - 150))"
    using powi_nat_split [of "x - 150" "x - 127"]
    by (simp add: f32_mag_def d of_rat_mult of_rat_divide of_rat_add)
  have "take_bit 31 a = push_bit 23 (take_bit 8 (drop_bit 23 a)) OR take_bit 23 a"
    by (rule bit_eqI) (auto simp: bit_simps)
  then show "take_bit 31 a = x * 2 ^ 23 + f"
    unfolding push_or_take_bit by (simp add: x_def f_def push_bit_eq_mult)
  show "0 \<le> f" "0 \<le> x" by (simp_all add: f_def x_def)
  show "f < 2 ^ 23" unfolding f_def by (rule take_bit_int_less_exp)
  have s: "drop_bit 31 a AND 1 = drop_bit 31 a"
    using assms(2) by (auto simp: and_one_eq fits_def drop_bit_eq_div)
  have "a = push_bit 31 (drop_bit 31 a) + take_bit 31 a"
    by (simp add: push_bit_eq_mult drop_bit_eq_div take_bit_eq_mod)
  then show "a = d_sign (f32_decode a) * 2 ^ 31 + take_bit 31 a"
    by (simp add: d s push_bit_eq_mult)
qed

lemma f32_mag_less:
  assumes "f32_finite a" "fits 32 a" "f32_finite b" "fits 32 b" "\<not> d_zero (f32_decode b)"
    and lt: "take_bit 31 a < take_bit 31 b"
  shows "f32_mag a < f32_mag b"
proof -
  define x f y g where "x = take_bit 8 (drop_bit 23 a)" "f = take_bit 23 a"
    "y = take_bit 8 (drop_bit 23 b)" "g = take_bit 23 b"
  note A = f32_parts_of_pattern [OF assms(1,2), folded x_f_y_g_def]
    and B = f32_parts_of_pattern [OF assms(3,4), folded x_f_y_g_def]
  have y: "y \<noteq> 0" using B(1) assms(5) by simp
  have lt': "x * 2 ^ 23 + f < y * 2 ^ 23 + g" using lt unfolding A(3) B(3) .
  show ?thesis
  proof (cases "x = 0")
    case True
    have "0 < of_int (2 ^ 23 + g) * (2::real) powi (y - 150)" using B(4) by (intro mult_pos_pos) auto
    then show ?thesis using True y unfolding A(2) B(2) by simp
  next
    case False
    have "x \<le> y" using lt' A(4,5) B(4,5) by simp
    then consider "x = y" "f < g" | "x + 1 \<le> y" using lt' by fastforce
    then show ?thesis
    proof cases
      case 1
      then have "of_int (2 ^ 23 + f) * (2::real) powi (y - 150) < of_int (2 ^ 23 + g) * 2 powi (y - 150)"
        by (intro mult_strict_right_mono) simp_all
      then show ?thesis using 1 False y unfolding A(2) B(2) by simp
    next
      case 2
      have "of_int (2 ^ 23 + f) * (2::real) powi (x - 150) < of_int (2 ^ 24) * 2 powi (x - 150)"
        using A(5) by (intro mult_strict_right_mono) (simp_all only: of_int_less_iff, simp_all)
      also have "\<dots> = of_int (2 ^ 23) * 2 powi (x + 1 - 150)"
        using powi_nat_split [of "x - 150" "x + 1 - 150"] by simp
      also have "\<dots> \<le> of_int (2 ^ 23 + g) * 2 powi (y - 150)"
        using 2 B(4) by (intro mult_mono) (simp_all only: of_int_le_iff powi_real_le_iff, simp_all)
      finally show ?thesis using False y unfolding A(2) B(2) by simp
    qed
  qed
qed


lemma f32_is_zero_arith_iff: "f32_finite a \<Longrightarrow> fits 32 a \<Longrightarrow> f32_is_zero_arith a \<longleftrightarrow> d_zero (f32_decode a)"
  using f32_parts_of_pattern(1) [of a] by (simp add: f32_is_zero_arith_def mask_simps)

lemma f32_zero_pattern:
  assumes "f32_finite a" "fits 32 a"
  shows "d_zero (f32_decode a) \<longleftrightarrow> take_bit 31 a < 2 ^ 23"
proof -
  define x f where "x = take_bit 8 (drop_bit 23 a)" "f = take_bit 23 a"
  note A = f32_parts_of_pattern [OF assms, folded x_f_def]
  show ?thesis unfolding A(1,3) using A(4,5,6) by (cases "x = 0") auto
qed

lemma f32_mag_less_iff:
  assumes "f32_finite a" "fits 32 a" "f32_finite b" "fits 32 b"
    and nz: "\<not> (d_zero (f32_decode a) \<and> d_zero (f32_decode b))"
  shows "f32_mag a < f32_mag b \<longleftrightarrow> take_bit 31 a < take_bit 31 b"
    and "f32_mag a = f32_mag b \<longleftrightarrow> take_bit 31 a = take_bit 31 b"
proof -
  have ab: "f32_mag a < f32_mag b" if "take_bit 31 a < take_bit 31 b"
    using that nz f32_zero_pattern [OF assms(1,2)] f32_zero_pattern [OF assms(3,4)]
    by (intro f32_mag_less assms) auto
  have ba: "f32_mag b < f32_mag a" if "take_bit 31 b < take_bit 31 a"
    using that nz f32_zero_pattern [OF assms(1,2)] f32_zero_pattern [OF assms(3,4)]
    by (intro f32_mag_less assms) auto
  have eq: "f32_mag a = f32_mag b" if e: "take_bit 31 a = take_bit 31 b"
  proof -
    have "take_bit 8 (drop_bit 23 (take_bit 31 a)) = take_bit 8 (drop_bit 23 a)"
      "take_bit 8 (drop_bit 23 (take_bit 31 b)) = take_bit 8 (drop_bit 23 b)"
      by (rule bit_eqI, auto simp: bit_simps)+
    moreover have "take_bit 23 (take_bit 31 a) = take_bit 23 a" "take_bit 23 (take_bit 31 b) = take_bit 23 b"
      by simp_all
    ultimately show ?thesis
      using e f32_parts_of_pattern(2) [OF assms(1,2)] f32_parts_of_pattern(2) [OF assms(3,4)] by simp
  qed
  show "f32_mag a < f32_mag b \<longleftrightarrow> take_bit 31 a < take_bit 31 b"
    "f32_mag a = f32_mag b \<longleftrightarrow> take_bit 31 a = take_bit 31 b"
    using ab ba eq by (metis linorder_neq_iff order_less_asym)+
qed

lemma f32_real_less_iff:
  assumes f: "f32_finite a" "fits 32 a" "f32_finite b" "fits 32 b"
    and "\<not> (f32_is_zero_arith a \<and> f32_is_zero_arith b)"
  shows "f32_real a < f32_real b \<longleftrightarrow>
      (if d_sign (f32_decode a) \<noteq> d_sign (f32_decode b) then d_sign (f32_decode a) \<noteq> 0
       else if d_sign (f32_decode a) \<noteq> 0 then take_bit 31 b < take_bit 31 a
       else take_bit 31 a < take_bit 31 b)"
proof -
  have nz: "\<not> (d_zero (f32_decode a) \<and> d_zero (f32_decode b))"
    using assms f32_is_zero_arith_iff by simp
  note m = f32_mag_less_iff(1) [OF f nz] f32_mag_less_iff(1) [OF f(3,4,1,2)]
  have pos: "0 \<le> f32_mag a" "0 \<le> f32_mag b" "f32_mag a \<noteq> 0 \<or> f32_mag b \<noteq> 0"
    using f nz f32_mag_nonneg f32_mag_nonzero by auto
  show ?thesis
    using m nz pos f32_sign_01 [of a] f32_sign_01 [of b] by (auto simp: f32_real_def)
qed

lemma f_cmp_correct:
  assumes f: "f32_finite a" "fits 32 a" "f32_finite b" "fits 32 b"
  shows "f_cmp a b 2 = (of_bool_int (f32_real a = f32_real b), 0)"
    and "f_cmp a b 1 = (of_bool_int (f32_real a < f32_real b), 0)"
    and "f_cmp a b 0 = (of_bool_int (f32_real a \<le> f32_real b), 0)"
proof -
  let ?a = "f32_decode a" let ?b = "f32_decode b"
  let ?both = "d_zero ?a \<and> d_zero ?b"
  have nn: "\<not> d_nan ?a" "\<not> d_nan ?b" using f by (auto simp: f32_finite_def)
  have z: "f32_real a = 0" "f32_real b = 0" if ?both using that f32_zero_mag by auto
  note m = f32_mag_less_iff(2) [OF f]
  have pos: "0 \<le> f32_mag a" "0 \<le> f32_mag b" "?both \<or> f32_mag a \<noteq> 0 \<or> f32_mag b \<noteq> 0"
    using f f32_mag_nonneg f32_mag_nonzero by auto
  note s = f32_sign_01 [of a] f32_sign_01 [of b]
  have eq: "f32_real a = f32_real b \<longleftrightarrow> a = b" if "\<not> ?both"
    using that m s pos f32_parts_of_pattern(7) [OF f(1,2)] f32_parts_of_pattern(7) [OF f(3,4)]
    by (auto simp: f32_real_def split: if_splits)
  note lt = f32_real_less_iff [OF f, unfolded f32_is_zero_arith_iff [OF f(1,2)] f32_is_zero_arith_iff [OF f(3,4)]]
  have c: "f_cmp a b g = (if g = 2 then of_bool_int (f32_real a = f32_real b)
      else if g = 1 then of_bool_int (f32_real a < f32_real b)
      else of_bool_int (f32_real a < f32_real b \<or> f32_real a = f32_real b), 0)" for g
    unfolding f_cmp_def Let_def mask_simps of_bool_int_def
      f32_is_zero_arith_iff [OF f(1,2)] f32_is_zero_arith_iff [OF f(3,4)]
    using nn by (cases ?both) (simp add: z, simp only: eq lt if_False simp_thms)
  show "f_cmp a b 2 = (of_bool_int (f32_real a = f32_real b), 0)"
    "f_cmp a b 1 = (of_bool_int (f32_real a < f32_real b), 0)"
    "f_cmp a b 0 = (of_bool_int (f32_real a \<le> f32_real b), 0)"
    unfolding c by (auto simp: less_eq_real_def)
qed


section \<open>Conversion to an integer\<close>

definition int_rounded :: "int \<Rightarrow> real \<Rightarrow> int \<Rightarrow> bool" where
  "int_rounded rm q n \<longleftrightarrow>
     (if rm = RM_RTZ then n = (if 0 \<le> q then \<lfloor>q\<rfloor> else \<lceil>q\<rceil>)
      else if rm = RM_RDN then n = \<lfloor>q\<rfloor>
      else if rm = RM_RUP then n = \<lceil>q\<rceil>
      else 2 * \<bar>of_int n - q\<bar> \<le> 1 \<and>
        (2 * \<bar>of_int n - q\<bar> = 1 \<longrightarrow> (if rm = RM_RMM then \<bar>q\<bar> \<le> of_int \<bar>n\<bar> else even n)))"

definition int_saturated :: "bool \<Rightarrow> real \<Rightarrow> int \<Rightarrow> int \<times> int" where
  "int_saturated uns q n =
     (let lo = (if uns then 0 else - (2 ^ 31)); hi = (if uns then 2 ^ 32 - 1 else 2 ^ 31 - 1)
      in if n < lo then (take_bit 32 lo, F_NV) else if hi < n then (hi, F_NV)
         else (take_bit 32 n, if of_int n = q then 0 else F_NX))"

lemma remainder_cls_real:
  assumes "fl = \<lfloor>m\<rfloor>" and "M = (of_rat m :: real)"
  shows "of_int fl \<le> M" "M < of_int fl + 1"
    and "remainder_cls (m - of_int fl) =
      (if M = of_int fl then Exact else if 2 * M < 2 * of_int fl + 1 then Below
       else if 2 * M > 2 * of_int fl + 1 then Above else Tie)"
proof -
  have "of_int fl \<le> m" "m < of_int (fl + 1)" unfolding assms(1) by (simp_all, linarith)
  then have "of_rat (of_int fl) \<le> M" "M < of_rat (of_int (fl + 1))"
    unfolding assms(2) of_rat_less_eq of_rat_less by auto
  then show "of_int fl \<le> M" "M < of_int fl + 1" by (simp_all add: of_rat_add)
  show "remainder_cls (m - of_int fl) =
      (if M = of_int fl then Exact else if 2 * M < 2 * of_int fl + 1 then Below
       else if 2 * M > 2 * of_int fl + 1 then Above else Tie)"
    unfolding remainder_cls_def assms(2) of_rat_half_tests by simp
qed

lemma int_rounding_decision:
  fixes M :: real
  assumes d: "f32_round_up_decision cls fl s rm = (up, inx)" and s: "s = 0 \<or> s = 1"
    and M: "of_int fl \<le> M" "M < of_int fl + 1" "0 < M"
    and cls: "cls = (if M = of_int fl then Exact else if 2 * M < 2 * of_int fl + 1 then Below
       else if 2 * M > 2 * of_int fl + 1 then Above else Tie)"
    and n: "k = fl + (if up then 1 else 0)" "n = (if s = 0 then k else - k)"
  shows "int_rounded rm (with_sign s M) n" "inx \<longleftrightarrow> of_int n \<noteq> with_sign s M"
proof -
  have fl: "\<lfloor>M\<rfloor> = fl" "0 \<le> fl" using M by (linarith, linarith)
  have cl: "\<lceil>M\<rceil> = (if M = of_int fl then fl else fl + 1)" using M by (auto simp: ceiling_eq_iff)
  have neg: "\<lfloor>- M\<rfloor> = - \<lceil>M\<rceil>" "\<lceil>- M\<rceil> = - fl" using fl(1) by (simp_all add: ceiling_def)
  have pos: "cls = Exact \<and> M = of_int fl \<or> cls = Below \<and> of_int fl < M \<and> 2 * M < 2 * of_int fl + 1 \<or>
      cls = Tie \<and> 2 * M = 2 * of_int fl + 1 \<or> cls = Above \<and> 2 * M > 2 * of_int fl + 1"
    using cls M by (auto split: if_splits)
  show "int_rounded rm (with_sign s M) n"
  proof (cases "rm \<in> {RM_RTZ, RM_RDN, RM_RUP}")
    case True
    then show ?thesis
      using d s pos fl cl neg M unfolding int_rounded_def with_sign_def n f32_round_up_decision_def
      by (elim disjE) (auto split: if_splits)
  next
    case False
    then show ?thesis
      using d s pos fl(2) M unfolding int_rounded_def with_sign_def n f32_round_up_decision_def and_one_eq
      by (elim disjE) (auto split: if_splits simp: odd_iff_mod_2_eq_one)
  qed
  show "inx \<longleftrightarrow> of_int n \<noteq> with_sign s M"
    using d s M cls unfolding with_sign_def n f32_round_up_decision_def by (auto split: if_splits)
qed


text \<open>C32. Conversion to a 32-bit integer rounds to an integer by the rounding mode and saturates out-of-range results with the invalid flag.\<close>

theorem f_cvt_to_int_correct:
  assumes "f32_finite a"
  shows "\<exists>n. int_rounded rm (f32_real a) n \<and> f_cvt_to_int a rm uns = int_saturated uns (f32_real a) n"
proof (cases "d_zero (f32_decode a)")
  case True
  then have "f32_real a = 0" using f32_zero_mag by simp
  moreover have "int_rounded rm 0 0" "int_saturated uns 0 0 = (0, 0)"
    by (simp_all add: int_rounded_def int_saturated_def)
  moreover have "f_cvt_to_int a rm uns = (0, 0)"
    using True assms by (simp add: f_cvt_to_int_def f32_finite_def)
  ultimately show ?thesis by auto
next
  case False
  let ?a = "f32_decode a"
  have fin: "\<not> d_nan ?a" "\<not> d_inf ?a" using assms by (auto simp: f32_finite_def)
  define fl where "fl = \<lfloor>mag ?a\<rfloor>"
  note M = remainder_cls_real [OF fl_def f32_mag_def]
  have pos: "0 < f32_mag a"
    using f32_mag_nonneg [OF assms] f32_mag_nonzero [OF assms] False by simp
  obtain up inx where d: "f32_round_up_decision (remainder_cls (mag ?a - of_int fl)) fl (d_sign ?a) rm = (up, inx)"
    by fastforce
  define k where "k = fl + (if up then 1 else 0)"
  define n where "n = (if d_sign ?a = 0 then k else - k)"
  note r = int_rounding_decision [OF d f32_sign_01 M(1,2) pos M(3) k_def n_def, folded f32_real_with_sign]
  have k: "0 \<le> k" using M(1,2) pos by (simp add: k_def)
  have m31: "take_bit 32 (- (2 ^ 31)) = (0x80000000 :: int)" by (simp add: take_bit_eq_mod)
  have "f_cvt_to_int a rm uns = int_saturated uns (f32_real a) n"
    using False fin k r(2) f32_sign_01 [of a] unfolding f_cvt_to_int_def int_saturated_def Let_def fraction_floor
      fl_def [symmetric] d case_prod_conv k_def [symmetric] n_def m31 mask_simps
    by (auto split: if_splits)
  then show ?thesis using r(1) by blast
qed

theorem f_cvt_to_int_correct_witness:
  "\<exists>n. int_rounded RM_RTZ (-2) n \<and> f_cvt_to_int 0xC0000000 RM_RTZ True = int_saturated True (-2) n"
  using f_cvt_to_int_correct [of "0xC0000000" RM_RTZ True] f32_minus_two by simp

section \<open>Minimum and maximum\<close>

lemma f_minmax_correct:
  assumes f: "f32_finite a" "fits 32 a" "f32_finite b" "fits 32 b"
  shows "f32_real (fst (f_minmax a b 0)) = min (f32_real a) (f32_real b)"
    and "f32_real (fst (f_minmax a b 1)) = max (f32_real a) (f32_real b)"
    and "fst (f_minmax a b g) \<in> {a, b}" and "snd (f_minmax a b g) = 0"
proof -
  let ?a = "f32_decode a" let ?b = "f32_decode b"
  have nn: "\<not> d_nan ?a" "\<not> d_nan ?b" using f by (auto simp: f32_finite_def)
  have z: "f32_real a = 0" "f32_real b = 0" if "f32_is_zero_arith a" "f32_is_zero_arith b"
    using that f32_zero_mag f32_is_zero_arith_iff f by auto
  show "fst (f_minmax a b g) \<in> {a, b}" "snd (f_minmax a b g) = 0"
    using nn by (simp_all add: f_minmax_def Let_def)
  show "f32_real (fst (f_minmax a b 0)) = min (f32_real a) (f32_real b)"
    "f32_real (fst (f_minmax a b 1)) = max (f32_real a) (f32_real b)"
    unfolding f_minmax_def Let_def mask_simps using nn
    by (cases "f32_is_zero_arith a \<and> f32_is_zero_arith b",
        simp add: z, simp only: f32_real_less_iff [OF f, symmetric] if_False simp_thms, simp split: if_splits)+
qed


text \<open>On finite operands the comparison instructions decide equality, less-than and
  less-or-equal of the represented numbers (positive and negative zero being equal), and the
  minimum and maximum instructions return an operand with the smaller and the larger value.\<close>

theorem f_order_correct:
  assumes "f32_finite a" "fits 32 a" "f32_finite b" "fits 32 b"
  shows "f_cmp a b 2 = (of_bool_int (f32_real a = f32_real b), 0) \<and>
    f_cmp a b 1 = (of_bool_int (f32_real a < f32_real b), 0) \<and>
    f_cmp a b 0 = (of_bool_int (f32_real a \<le> f32_real b), 0) \<and>
    f32_real (fst (f_minmax a b 0)) = min (f32_real a) (f32_real b) \<and>
    f32_real (fst (f_minmax a b 1)) = max (f32_real a) (f32_real b) \<and>
    (\<forall>g. fst (f_minmax a b g) = a \<or> fst (f_minmax a b g) = b)"
  using f_cmp_correct [OF assms] f_minmax_correct [OF assms] by simp

theorem f_order_correct_witness:
  "f_cmp 0xC0000000 0x40400000 1 = (1, 0) \<and> f32_real (fst (f_minmax 0xC0000000 0x40400000 0)) = -2"
  using f_order_correct [of "0xC0000000" "0x40400000"] f32_three f32_minus_two by (simp add: fits_def)

end
