(* ===== verification/Iss_State.thy ===== *)
theory Iss_State
  imports Fixed_Width
begin

text \<open>
  The state of class \<open>ISS\<close> of \<open>sim/tools/iss.py\<close> and the methods that do not decode
  instructions: construction, register write, CSR read and write, trap entry and return,
  byte memory.

  \<open>self.csr\<close> is a dict whose key set is fixed by the constructor; it is a map, and \<open>csr_at\<close>
  reads it. A subscript \<open>self.csr[k]\<close> of the source uses one of the constructor's keys only,
  so it cannot raise; \<open>self.csr.get(k, 0)\<close> of another key is 0. The invariant \<open>wf_iss\<close> states
  the shape of the state (register count, value ranges, key set) that makes the list and map
  accesses of the model the source's; \<open>Iss_Step_Props\<close> shows that every step keeps it.
\<close>

section \<open>Constants\<close>

abbreviation (input) "CSR_MSTATUS \<equiv> (0x300::int)"
abbreviation (input) "CSR_MTVEC \<equiv> (0x305::int)"
abbreviation (input) "CSR_MSCRATCH \<equiv> (0x340::int)"
abbreviation (input) "CSR_MEPC \<equiv> (0x341::int)"
abbreviation (input) "CSR_MCAUSE \<equiv> (0x342::int)"
abbreviation (input) "CSR_SSTATUS \<equiv> (0x100::int)"
abbreviation (input) "CSR_SIE \<equiv> (0x104::int)"
abbreviation (input) "CSR_STVEC \<equiv> (0x105::int)"
abbreviation (input) "CSR_SSCRATCH \<equiv> (0x140::int)"
abbreviation (input) "CSR_SEPC \<equiv> (0x141::int)"
abbreviation (input) "CSR_SCAUSE \<equiv> (0x142::int)"
abbreviation (input) "CSR_STVAL \<equiv> (0x143::int)"
abbreviation (input) "CSR_SIP \<equiv> (0x144::int)"
abbreviation (input) "CSR_SATP \<equiv> (0x180::int)"
abbreviation (input) "CSR_MIE \<equiv> (0x304::int)"
abbreviation (input) "CSR_MIP \<equiv> (0x344::int)"
abbreviation (input) "CSR_MTVAL \<equiv> (0x343::int)"
abbreviation (input) "CSR_MEDELEG \<equiv> (0x302::int)"
abbreviation (input) "CSR_MIDELEG \<equiv> (0x303::int)"
abbreviation (input) "CSR_FFLAGS \<equiv> (0x001::int)"
abbreviation (input) "CSR_FRM \<equiv> (0x002::int)"
abbreviation (input) "CSR_FCSR \<equiv> (0x003::int)"

abbreviation (input) "MCAUSE_ILLEGAL_INSTRUCTION \<equiv> (2::int)"
abbreviation (input) "MCAUSE_BREAKPOINT \<equiv> (3::int)"
abbreviation (input) "MCAUSE_ECALL_FROM_U \<equiv> (8::int)"
abbreviation (input) "MCAUSE_ECALL_FROM_S \<equiv> (9::int)"
abbreviation (input) "MCAUSE_ECALL_FROM_M \<equiv> (11::int)"
abbreviation (input) "MCAUSE_INSTRUCTION_PAGE_FAULT \<equiv> (12::int)"
abbreviation (input) "MCAUSE_LOAD_PAGE_FAULT \<equiv> (13::int)"
abbreviation (input) "MCAUSE_STORE_PAGE_FAULT \<equiv> (15::int)"

abbreviation (input) "PRIV_U \<equiv> (0::int)"
abbreviation (input) "PRIV_S \<equiv> (1::int)"
abbreviation (input) "PRIV_M \<equiv> (3::int)"

abbreviation (input) "MSTATUS_SIE_BIT \<equiv> (1::nat)"
abbreviation (input) "MSTATUS_SPIE_BIT \<equiv> (5::nat)"
abbreviation (input) "MSTATUS_SPP_BIT \<equiv> (8::nat)"
abbreviation (input) "MSTATUS_MPP_LO \<equiv> (11::nat)"
abbreviation (input) "MIE_SSIE_BIT \<equiv> (1::nat)"
abbreviation (input) "MIE_STIE_BIT \<equiv> (5::nat)"
abbreviation (input) "MIE_SEIE_BIT \<equiv> (9::nat)"
abbreviation (input) "MIE_MSIE_BIT \<equiv> (3::nat)"
abbreviation (input) "MSTATUS_UXL_LO \<equiv> (32::nat)"
abbreviation (input) "MSTATUS_SXL_LO \<equiv> (34::nat)"
abbreviation (input) "MXL_XLEN64 \<equiv> (2::int)"

text \<open>The bit masks the source writes out at each use.\<close>

definition MSTATUS_S_MASK :: int where
  "MSTATUS_S_MASK = 2 ^ MSTATUS_SIE_BIT OR 2 ^ MSTATUS_SPIE_BIT OR 2 ^ MSTATUS_SPP_BIT"

definition MSTATUS_M_MASK :: int where
  "MSTATUS_M_MASK = 2 ^ 3 OR 2 ^ 7 OR push_bit MSTATUS_MPP_LO 0b11"

definition MSTATUS_MASK :: int where
  "MSTATUS_MASK = 2 ^ 3 OR 2 ^ 7 OR 2 ^ MSTATUS_SIE_BIT OR 2 ^ MSTATUS_SPIE_BIT OR
     2 ^ MSTATUS_SPP_BIT OR push_bit MSTATUS_MPP_LO 0b11"

definition MIE_S_MASK :: int where
  "MIE_S_MASK = 2 ^ MIE_SSIE_BIT OR 2 ^ MIE_STIE_BIT OR 2 ^ MIE_SEIE_BIT"

definition MIE_MASK :: int where
  "MIE_MASK = 2 ^ MIE_MSIE_BIT OR 2 ^ 7 OR 2 ^ 11 OR
     2 ^ MIE_SSIE_BIT OR 2 ^ MIE_STIE_BIT OR 2 ^ MIE_SEIE_BIT"

definition MEDELEG_MASK :: int where
  "MEDELEG_MASK = 2 ^ 2 OR 2 ^ 3 OR 2 ^ 8 OR 2 ^ 9 OR 2 ^ 11 OR 2 ^ 12 OR 2 ^ 13 OR 2 ^ 15"

definition MIDELEG_MASK :: int where
  "MIDELEG_MASK = 2 ^ MIE_SSIE_BIT OR 2 ^ MIE_STIE_BIT OR 2 ^ MIE_MSIE_BIT OR
     2 ^ 7 OR 2 ^ MIE_SEIE_BIT OR 2 ^ 11"

section \<open>State and construction\<close>

record iss =
  xlen :: nat
  regs :: "int list"
  mem :: "int list"
  mem_mask :: int
  pc :: int
  halted :: bool
  csr :: "int \<rightharpoonup> int"
  priv_mode :: int
  fregs :: "int list"
  frm :: int
  fflags :: int
  pending_interrupt :: "(int \<times> int) option" \<comment> \<open>the keys \<open>after\<close> and \<open>cause\<close>\<close>

definition iss_init :: "int \<Rightarrow> nat \<Rightarrow> iss" where
  "iss_init mem_size xl =
     \<lparr>xlen = xl, regs = (replicate 32 0)[2 := mem_size], mem = replicate (nat mem_size) 0,
      mem_mask = mem_size - 1, pc = 0, halted = False,
      csr = [CSR_MSTATUS \<mapsto> 0, CSR_MTVEC \<mapsto> 0, CSR_MSCRATCH \<mapsto> 0, CSR_MEPC \<mapsto> 0,
             CSR_MCAUSE \<mapsto> 0, CSR_SSCRATCH \<mapsto> 0, CSR_SEPC \<mapsto> 0, CSR_SCAUSE \<mapsto> 0,
             CSR_STVAL \<mapsto> 0, CSR_MTVAL \<mapsto> 0, CSR_STVEC \<mapsto> 0, CSR_SATP \<mapsto> 0,
             CSR_MIDELEG \<mapsto> 0, CSR_MEDELEG \<mapsto> 0, CSR_MIE \<mapsto> 0, CSR_MIP \<mapsto> 0],
      priv_mode = PRIV_M, fregs = replicate 32 0, frm = 0, fflags = 0,
      pending_interrupt = None\<rparr>"

definition schedule_interrupt :: "iss \<Rightarrow> int \<Rightarrow> int \<Rightarrow> iss" where
  "schedule_interrupt s after_steps cause = s\<lparr>pending_interrupt := Some (after_steps, cause)\<rparr>"

definition sxlen :: "iss \<Rightarrow> int \<Rightarrow> int" where
  "sxlen s v = sXLEN v (xlen s)"

definition uxlen :: "iss \<Rightarrow> int \<Rightarrow> int" where
  "uxlen s v = uXLEN v (xlen s)"

definition wr :: "iss \<Rightarrow> int \<Rightarrow> int \<Rightarrow> iss" where
  "wr s rd val = (if rd \<noteq> 0 then s\<lparr>regs := (regs s)[nat rd := uxlen s val]\<rparr> else s)"

definition wr_f :: "iss \<Rightarrow> int \<Rightarrow> int \<Rightarrow> iss" where
  \<comment> \<open>\<open>self.fregs[rd] = val\<close>\<close>
  "wr_f s rd val = s\<lparr>fregs := (fregs s)[nat rd := val]\<rparr>"

definition set_fflags :: "iss \<Rightarrow> int \<Rightarrow> iss" where
  "set_fflags s flags = s\<lparr>fflags := (fflags s OR flags) AND 0x1F\<rparr>"

definition resolve_rm :: "iss \<Rightarrow> int \<Rightarrow> int" where
  "resolve_rm s rm_field = (if rm_field = 7 then frm s else rm_field)"

section \<open>Control and status registers\<close>

definition csr_at :: "iss \<Rightarrow> int \<Rightarrow> int" where
  "csr_at s addr = (case csr s addr of Some v \<Rightarrow> v | None \<Rightarrow> 0)"

definition csr_set :: "iss \<Rightarrow> int \<Rightarrow> int \<Rightarrow> iss" where
  "csr_set s addr v = s\<lparr>csr := (csr s)(addr \<mapsto> v)\<rparr>"

definition csr_read :: "iss \<Rightarrow> int \<Rightarrow> int" where
  "csr_read s addr =
     (if addr = CSR_FFLAGS then fflags s AND 0x1F
      else if addr = CSR_FRM then frm s AND 0x7
      else if addr = CSR_FCSR then push_bit 5 (frm s AND 0x7) OR (fflags s AND 0x1F)
      else if addr = CSR_SSTATUS then
        (let m = csr_at s CSR_MSTATUS in
         push_bit MSTATUS_SIE_BIT (drop_bit MSTATUS_SIE_BIT m AND 1) OR
         push_bit MSTATUS_SPIE_BIT (drop_bit MSTATUS_SPIE_BIT m AND 1) OR
         push_bit MSTATUS_SPP_BIT (drop_bit MSTATUS_SPP_BIT m AND 1))
      else if addr = CSR_SIE then
        (let e = csr_at s CSR_MIE in
         push_bit MIE_SSIE_BIT (drop_bit MIE_SSIE_BIT e AND 1) OR
         push_bit MIE_STIE_BIT (drop_bit MIE_STIE_BIT e AND 1) OR
         push_bit MIE_SEIE_BIT (drop_bit MIE_SEIE_BIT e AND 1))
      else if addr = CSR_SIP then
        (let p = csr_at s CSR_MIP in
         push_bit MIE_SSIE_BIT (drop_bit MIE_SSIE_BIT p AND 1) OR
         push_bit MIE_STIE_BIT (drop_bit MIE_STIE_BIT p AND 1) OR
         push_bit MIE_SEIE_BIT (drop_bit MIE_SEIE_BIT p AND 1))
      else if addr = CSR_MSTATUS \<and> xlen s = 64 then
        csr_at s addr OR push_bit MSTATUS_UXL_LO MXL_XLEN64 OR push_bit MSTATUS_SXL_LO MXL_XLEN64
      else csr_at s addr)"

definition csr_store :: "iss \<Rightarrow> int \<Rightarrow> int \<Rightarrow> iss" where
  \<comment> \<open>\<open>if addr in self.csr: self.csr[addr] = u32(val)\<close>\<close>
  "csr_store s addr val = (if csr s addr \<noteq> None then csr_set s addr (u32 val) else s)"

definition csr_write :: "iss \<Rightarrow> int \<Rightarrow> int \<Rightarrow> iss" where
  "csr_write s addr val =
     (if addr = CSR_FFLAGS then s\<lparr>fflags := val AND 0x1F\<rparr>
      else if addr = CSR_FRM then s\<lparr>frm := val AND 0x7\<rparr>
      else if addr = CSR_FCSR then s\<lparr>frm := drop_bit 5 val AND 0x7, fflags := val AND 0x1F\<rparr>
      else if addr = CSR_MSTATUS then csr_store s addr (val AND MSTATUS_MASK)
      else if addr = CSR_SSTATUS then
        (let keep = csr_at s CSR_MSTATUS AND NOT MSTATUS_S_MASK; new = val AND MSTATUS_S_MASK
         in csr_set s CSR_MSTATUS (u32 (keep OR new)))
      else if addr = CSR_MIE then csr_store s addr (val AND MIE_MASK)
      else if addr = CSR_SIE then
        (let keep = csr_at s CSR_MIE AND NOT MIE_S_MASK; new = val AND MIE_S_MASK
         in csr_set s CSR_MIE (u32 (keep OR new)))
      else if addr = CSR_MIP \<or> addr = CSR_SIP then csr_set s CSR_MIP (u32 (val AND MIE_S_MASK))
      else if addr = CSR_MEDELEG then csr_store s addr (val AND MEDELEG_MASK)
      else if addr = CSR_MIDELEG then csr_store s addr (val AND MIDELEG_MASK)
      else csr_store s addr val)"

section \<open>Traps and returns\<close>

definition trap_to_s :: "iss \<Rightarrow> int \<Rightarrow> bool" where
  \<comment> \<open>the delegation decision \<open>to_s\<close> of \<open>trap\<close>\<close>
  "trap_to_s s cause =
     (let is_interrupt = (cause AND 0x80000000 \<noteq> 0);
          low_cause = cause AND 0x1F;
          deleg = (if is_interrupt then csr_at s CSR_MIDELEG else csr_at s CSR_MEDELEG)
      in priv_mode s \<noteq> PRIV_M \<and> drop_bit (nat low_cause) deleg AND 1 \<noteq> 0)"

definition trap :: "iss \<Rightarrow> int \<Rightarrow> int \<Rightarrow> iss" where
  "trap s cause tval =
     (let mcause_val = u32 cause;
          m = csr_at s CSR_MSTATUS
      in if trap_to_s s cause
         then let sie = drop_bit MSTATUS_SIE_BIT m AND 1;
                  m = m AND NOT MSTATUS_S_MASK;
                  m = m OR push_bit MSTATUS_SPIE_BIT sie
                        OR push_bit MSTATUS_SPP_BIT (priv_mode s AND 1)
              in s\<lparr>csr := (csr s)(CSR_SEPC \<mapsto> pc s, CSR_SCAUSE \<mapsto> mcause_val,
                                 CSR_STVAL \<mapsto> u32 tval, CSR_MSTATUS \<mapsto> u32 m),
                   priv_mode := PRIV_S, pc := csr_at s CSR_STVEC\<rparr>
         else let mie = drop_bit 3 m AND 1;
                  m = m AND NOT MSTATUS_M_MASK;
                  m = m OR push_bit 7 mie OR push_bit MSTATUS_MPP_LO (priv_mode s)
              in s\<lparr>csr := (csr s)(CSR_MEPC \<mapsto> pc s, CSR_MCAUSE \<mapsto> mcause_val,
                                 CSR_MTVAL \<mapsto> u32 tval, CSR_MSTATUS \<mapsto> u32 m),
                   priv_mode := PRIV_M, pc := csr_at s CSR_MTVEC\<rparr>)"

definition mret :: "iss \<Rightarrow> iss" where
  "mret s =
     (let m = csr_at s CSR_MSTATUS;
          mpie = drop_bit 7 m AND 1;
          mpp = drop_bit MSTATUS_MPP_LO m AND 0b11;
          m = m AND NOT MSTATUS_M_MASK;
          m = m OR push_bit 3 mpie OR 2 ^ 7 OR push_bit MSTATUS_MPP_LO PRIV_U
      in s\<lparr>csr := (csr s)(CSR_MSTATUS \<mapsto> u32 m), priv_mode := mpp, pc := csr_at s CSR_MEPC\<rparr>)"

definition sret :: "iss \<Rightarrow> iss" where
  "sret s =
     (let m = csr_at s CSR_MSTATUS;
          spie = drop_bit MSTATUS_SPIE_BIT m AND 1;
          spp = drop_bit MSTATUS_SPP_BIT m AND 1;
          m = m AND NOT MSTATUS_S_MASK;
          m = m OR push_bit MSTATUS_SIE_BIT spie OR 2 ^ MSTATUS_SPIE_BIT
      in s\<lparr>csr := (csr s)(CSR_MSTATUS \<mapsto> u32 m), priv_mode := spp, pc := csr_at s CSR_SEPC\<rparr>)"

section \<open>Byte memory\<close>

definition load_mem_byte :: "iss \<Rightarrow> int \<Rightarrow> int" where
  "load_mem_byte s addr =
     (if addr \<ge> 0x10000000 then 0 else mem s ! nat (addr AND mem_mask s))"

definition store_mem_byte :: "iss \<Rightarrow> int \<Rightarrow> int \<Rightarrow> iss" where
  "store_mem_byte s addr val =
     (if addr \<ge> 0x10000000 then s
      else s\<lparr>mem := (mem s)[nat (addr AND mem_mask s) := val AND 0xFF]\<rparr>)"

section \<open>The shape of the state\<close>

definition csr_keys :: "int list" where
  "csr_keys = [CSR_MSTATUS, CSR_MTVEC, CSR_MSCRATCH, CSR_MEPC, CSR_MCAUSE, CSR_SSCRATCH,
     CSR_SEPC, CSR_SCAUSE, CSR_STVAL, CSR_MTVAL, CSR_STVEC, CSR_SATP, CSR_MIDELEG,
     CSR_MEDELEG, CSR_MIE, CSR_MIP]"

text \<open>
  The exception program counters hold an unmasked \<open>pc\<close>, all other CSRs a 32-bit value; \<open>pc\<close>
  itself is nonnegative but not bounded, since \<open>step\<close> advances it without masking.
\<close>

definition wf_csr :: "(int \<rightharpoonup> int) \<Rightarrow> bool" where
  "wf_csr c \<longleftrightarrow> dom c = set csr_keys \<and>
     (\<forall>k v. c k = Some v \<longrightarrow> 0 \<le> v \<and> (k \<noteq> CSR_MEPC \<and> k \<noteq> CSR_SEPC \<longrightarrow> fits 32 v))"

definition wf_iss :: "iss \<Rightarrow> bool" where
  "wf_iss s \<longleftrightarrow>
     (xlen s = 32 \<or> xlen s = 64) \<and>
     length (regs s) = 32 \<and> all_fit (xlen s) (regs s) \<and> regs s ! 0 = 0 \<and>
     length (fregs s) = 32 \<and> all_fit 32 (fregs s) \<and>
     0 \<le> mem_mask s \<and> length (mem s) = nat (mem_mask s + 1) \<and> all_fit 8 (mem s) \<and>
     0 \<le> pc s \<and> wf_csr (csr s) \<and> fits 2 (priv_mode s) \<and> fits 3 (frm s) \<and> fits 5 (fflags s)"

end
