(* ===== verification/Iss_State_Props.thy ===== *)
theory Iss_State_Props
  imports Iss_State
begin

text \<open>
  Properties of the state component: every method of \<open>Iss_State\<close> keeps the shape \<open>wf_iss\<close>, the
  supervisor CSRs are masked views of the machine ones, and trap entry and return are inverse.
\<close>

named_theorems wf_intros \<open>operations that keep the shape of the state\<close>

section \<open>Shape of the CSR map\<close>

lemma wf_csr_update:
  assumes "wf_csr c" "k \<in> set csr_keys" "0 \<le> v" "k \<noteq> CSR_MEPC \<and> k \<noteq> CSR_SEPC \<Longrightarrow> fits 32 v"
  shows "wf_csr (c(k \<mapsto> v))"
  using assms by (auto simp: wf_csr_def)

lemma wf_csr_store_value: "fits 32 v \<Longrightarrow> wf_csr c \<Longrightarrow> k \<in> set csr_keys \<Longrightarrow> wf_csr (c(k \<mapsto> v))"
  by (rule wf_csr_update) (auto simp: fits_def)

lemma wf_csr_at:
  assumes "wf_csr (csr s)"
  shows "0 \<le> csr_at s k" and "k \<noteq> CSR_MEPC \<Longrightarrow> k \<noteq> CSR_SEPC \<Longrightarrow> fits 32 (csr_at s k)"
  using assms unfolding wf_csr_def csr_at_def by (fastforce split: option.splits)+

lemma csr_at_upd [simp]:
  "csr_at (s\<lparr>csr := c(k \<mapsto> v)\<rparr>) k' = (if k' = k then v else csr_at (s\<lparr>csr := c\<rparr>) k')"
  by (simp add: csr_at_def)

lemma csr_at_frame [simp]:
  "csr_at (s\<lparr>csr := csr s\<rparr>) k = csr_at s k"
  "csr_at (s\<lparr>pc := p\<rparr>) k = csr_at s k"
  "csr_at (s\<lparr>regs := r\<rparr>) k = csr_at s k"
  "csr_at (s\<lparr>fregs := r\<rparr>) k = csr_at s k"
  "csr_at (s\<lparr>priv_mode := m\<rparr>) k = csr_at s k"
  "csr_at (s\<lparr>mem := mm\<rparr>) k = csr_at s k"
  "csr_at (s\<lparr>frm := f\<rparr>) k = csr_at s k"
  "csr_at (s\<lparr>fflags := f\<rparr>) k = csr_at s k"
  "csr_at (s\<lparr>pending_interrupt := i\<rparr>) k = csr_at s k"
  by (simp_all add: csr_at_def)

lemma in_csr_keys [simp]:
  "CSR_MSTATUS \<in> set csr_keys" "CSR_MTVEC \<in> set csr_keys" "CSR_MEPC \<in> set csr_keys"
  "CSR_MCAUSE \<in> set csr_keys" "CSR_SEPC \<in> set csr_keys" "CSR_SCAUSE \<in> set csr_keys"
  "CSR_STVAL \<in> set csr_keys" "CSR_MTVAL \<in> set csr_keys" "CSR_MIE \<in> set csr_keys"
  "CSR_MIP \<in> set csr_keys"
  by (simp_all add: csr_keys_def)

section \<open>Every operation keeps the shape\<close>

lemma wf_issD:
  assumes "wf_iss s"
  shows "xlen s = 32 \<or> xlen s = 64" "length (regs s) = 32" "all_fit (xlen s) (regs s)"
    "length (fregs s) = 32" "all_fit 32 (fregs s)" "wf_csr (csr s)" "0 \<le> pc s"
    "fits 2 (priv_mode s)" "fits 3 (frm s)" "fits 5 (fflags s)" "regs s ! 0 = 0"
  using assms by (auto simp: wf_iss_def)

lemma uxlen_fits [simp]: "fits (xlen s) (uxlen s v)"
  by (simp add: uxlen_def fits_uXLEN)

lemma uxlen_nonneg [simp]: "0 \<le> uxlen s v"
  using uxlen_fits [of s v] by (rule fitsD)

lemma wf_iss_init:
  assumes "n \<le> 31" "xl = 32 \<or> xl = 64"
  shows "wf_iss (iss_init (2 ^ n) xl)"
proof -
  have "fits xl (2 ^ n)" using assms by (auto simp: fits_def)
  then have "all_fit xl ((replicate 32 0)[2 := 2 ^ n])" by (intro all_fit_update) simp_all
  then show ?thesis
    using assms(2) by (auto simp: wf_iss_def iss_init_def wf_csr_def csr_keys_def fits_def split: if_splits)
qed

lemma wf_pc [wf_intros]: "wf_iss s \<Longrightarrow> 0 \<le> p \<Longrightarrow> wf_iss (s\<lparr>pc := p\<rparr>)"
  by (simp add: wf_iss_def)

lemma wf_wr [wf_intros]: "wf_iss s \<Longrightarrow> 0 \<le> rd \<Longrightarrow> wf_iss (wr s rd v)"
  by (auto simp: wf_iss_def wr_def all_fit_update nth_list_update_neq)

lemma wf_wr_f [wf_intros]: "wf_iss s \<Longrightarrow> fits 32 v \<Longrightarrow> wf_iss (wr_f s rd v)"
  by (simp add: wf_iss_def wr_f_def all_fit_update)

lemma wf_set_fflags [wf_intros]: "wf_iss s \<Longrightarrow> wf_iss (set_fflags s v)"
  by (simp add: wf_iss_def set_fflags_def mask_simps del: take_bit_or)

lemma wf_schedule [wf_intros]: "wf_iss s \<Longrightarrow> wf_iss (schedule_interrupt s n c)"
  by (simp add: wf_iss_def schedule_interrupt_def)

lemma wf_csr_set [wf_intros]: "wf_iss s \<Longrightarrow> k \<in> set csr_keys \<Longrightarrow> wf_iss (csr_set s k (u32 v))"
  by (simp add: wf_iss_def csr_set_def wf_csr_store_value fits_u32)

lemma wf_csr_store [wf_intros]: "wf_iss s \<Longrightarrow> wf_iss (csr_store s k v)"
  unfolding csr_store_def by (auto intro!: wf_csr_set) (auto simp: wf_iss_def wf_csr_def)

lemma wf_csr_write [wf_intros]:
  assumes "wf_iss s"
  shows "wf_iss (csr_write s k v)"
proof -
  have "wf_iss (s\<lparr>fflags := v AND 0x1F\<rparr>)" "wf_iss (s\<lparr>frm := v AND 0x7\<rparr>)"
    "wf_iss (s\<lparr>frm := drop_bit 5 v AND 0x7, fflags := v AND 0x1F\<rparr>)"
    using assms by (simp_all add: wf_iss_def mask_simps)
  then show ?thesis
    using assms unfolding csr_write_def Let_def by (simp add: wf_csr_set wf_csr_store)
qed

lemma wf_trap [wf_intros]:
  assumes "wf_iss s"
  shows "wf_iss (trap s c t)"
proof -
  note d = wf_issD [OF assms]
  have p: "wf_csr ((csr s)(CSR_SEPC \<mapsto> pc s))" "wf_csr ((csr s)(CSR_MEPC \<mapsto> pc s))"
    using d by (auto intro!: wf_csr_update)
  show ?thesis
    using assms p wf_csr_at(1) [OF d(6)] unfolding trap_def Let_def
    by (simp add: wf_iss_def wf_csr_store_value fits_u32 fits_def [of 2])
qed

lemma wf_mret [wf_intros]: "wf_iss s \<Longrightarrow> wf_iss (mret s)"
  using wf_csr_at(1) [of s] unfolding mret_def Let_def
  by (simp add: wf_iss_def wf_csr_store_value fits_u32 mask_simps)

lemma wf_sret [wf_intros]: "wf_iss s \<Longrightarrow> wf_iss (sret s)"
  using wf_csr_at(1) [of s] unfolding sret_def Let_def
  by (simp add: wf_iss_def wf_csr_store_value fits_u32 and_one_eq)

section \<open>Byte memory\<close>

lemma mem_index:
  assumes "wf_iss s"
  shows "nat (addr AND mem_mask s) < length (mem s)"
proof -
  have "0 \<le> mem_mask s" using assms by (simp add: wf_iss_def)
  then have "0 \<le> addr AND mem_mask s" "addr AND mem_mask s \<le> mem_mask s"
    by (simp_all add: AND_upper2)
  then show ?thesis using assms by (simp add: wf_iss_def)
qed

lemma load_mem_byte_fits [fits_intros]: "wf_iss s \<Longrightarrow> fits 8 (load_mem_byte s addr)"
  using mem_index [of s addr] by (auto simp: load_mem_byte_def wf_iss_def intro: all_fit_nth)

lemma wf_store_mem_byte [wf_intros]: "wf_iss s \<Longrightarrow> wf_iss (store_mem_byte s addr v)"
  by (simp add: wf_iss_def store_mem_byte_def mask_simps all_fit_update)


section \<open>Supervisor registers are masked views of machine registers\<close>

text \<open>
  The contract between a view and the register it shows: reading the view gives the viewed
  register's masked bits; writing it replaces those bits and no others. Two views with the same
  underlying register are coherent.
\<close>

locale masked_view =
  fixes rd_view :: "iss \<Rightarrow> int"
    and wr_view :: "iss \<Rightarrow> int \<Rightarrow> iss"
    and base :: "iss \<Rightarrow> int"
    and view_mask :: int
  assumes read_view: "rd_view s = base s AND view_mask"
    and write_view: "wf_iss s \<Longrightarrow> base (wr_view s v) = (base s AND NOT view_mask) OR (v AND view_mask)"
    and keeps_shape: "wf_iss s \<Longrightarrow> wf_iss (wr_view s v)"
begin

lemma read_after_write: "wf_iss s \<Longrightarrow> rd_view (wr_view s v) = v AND view_mask"
  unfolding read_view write_view by (rule bit_eqI) (auto simp: bit_simps)

lemma hidden_bits_kept: "wf_iss s \<Longrightarrow> base (wr_view s v) AND NOT view_mask = base s AND NOT view_mask"
  unfolding write_view by (rule bit_eqI) (auto simp: bit_simps)

lemma write_back: "wf_iss s \<Longrightarrow> base (wr_view s (rd_view s)) = base s"
  unfolding write_view read_view by (rule bit_eqI) (auto simp: bit_simps)

lemma last_write_wins: "wf_iss s \<Longrightarrow> base (wr_view (wr_view s v) w) = base (wr_view s w)"
  using keeps_shape [of s v] by (simp add: write_view) (rule bit_eqI, auto simp: bit_simps)

end

lemma push_drop_bit_mask: "push_bit n (drop_bit n x AND 1) = x AND 2 ^ n" for x :: int
  by (simp add: mask_and_power and_one_eq bit_iff_odd_drop_bit odd_iff_mod_2_eq_one push_bit_eq_mult)

lemma three_bit_view:
  "push_bit a (drop_bit a x AND 1) OR push_bit b (drop_bit b x AND 1) OR push_bit c (drop_bit c x AND 1) =
   x AND (2 ^ a OR 2 ^ b OR 2 ^ c)" for x :: int
  by (simp only: push_drop_bit_mask bit.conj_disj_distrib)

lemma fits_S_masks [simp]: "fits 32 MSTATUS_S_MASK" "fits 32 MIE_S_MASK" "fits 32 MSTATUS_MASK" "fits 32 MIE_MASK"
  by (simp_all add: fits_def MSTATUS_S_MASK_def MIE_S_MASK_def MSTATUS_MASK_def MIE_MASK_def)

lemma u32_replaced_bits:
  assumes "fits 32 k" "fits 32 m"
  shows "u32 ((k AND NOT m) OR (v AND m)) = (k AND NOT m) OR (v AND m)"
proof -
  have "fits 32 ((k AND NOT m) OR (v AND m))"
    using assms by (intro fits_or fits_and1 fits_and2)
  then show ?thesis by (simp only: u32_take_bit take_bit_fits_id)
qed

interpretation sstatus: masked_view "\<lambda>s. csr_read s CSR_SSTATUS" "\<lambda>s. csr_write s CSR_SSTATUS"
    "\<lambda>s. csr_at s CSR_MSTATUS" MSTATUS_S_MASK
proof
  show "csr_read s CSR_SSTATUS = csr_at s CSR_MSTATUS AND MSTATUS_S_MASK" for s
    by (simp only: csr_read_def Let_def three_bit_view MSTATUS_S_MASK_def) simp
  show "csr_at (csr_write s CSR_SSTATUS v) CSR_MSTATUS =
      (csr_at s CSR_MSTATUS AND NOT MSTATUS_S_MASK) OR (v AND MSTATUS_S_MASK)" if "wf_iss s" for s v
    using wf_csr_at(2) [OF wf_issD(6) [OF that], of CSR_MSTATUS]
    by (simp add: csr_write_def csr_set_def csr_at_def u32_replaced_bits Let_def)
qed (rule wf_csr_write)

interpretation sie: masked_view "\<lambda>s. csr_read s CSR_SIE" "\<lambda>s. csr_write s CSR_SIE"
    "\<lambda>s. csr_at s CSR_MIE" MIE_S_MASK
proof
  show "csr_read s CSR_SIE = csr_at s CSR_MIE AND MIE_S_MASK" for s
    by (simp only: csr_read_def Let_def three_bit_view MIE_S_MASK_def) simp
  show "csr_at (csr_write s CSR_SIE v) CSR_MIE =
      (csr_at s CSR_MIE AND NOT MIE_S_MASK) OR (v AND MIE_S_MASK)" if "wf_iss s" for s v
    using wf_csr_at(2) [OF wf_issD(6) [OF that], of CSR_MIE]
    by (simp add: csr_write_def csr_set_def csr_at_def u32_replaced_bits Let_def)
qed (rule wf_csr_write)


interpretation sip: masked_view "\<lambda>s. csr_read s CSR_SIP" "\<lambda>s. csr_write s CSR_SIP"
    "\<lambda>s. csr_at s CSR_MIP AND MIE_S_MASK" MIE_S_MASK
proof
  show "csr_read s CSR_SIP = (csr_at s CSR_MIP AND MIE_S_MASK) AND MIE_S_MASK" for s
    by (simp only: csr_read_def Let_def three_bit_view MIE_S_MASK_def) simp
  have "csr_at (csr_write s CSR_SIP v) CSR_MIP = v AND MIE_S_MASK" for s v
    using fits_and2 [OF fits_S_masks(2), of v]
    by (simp add: csr_write_def csr_set_def csr_at_def u32_take_bit Let_def del: take_bit_and)
  then show "csr_at (csr_write s CSR_SIP v) CSR_MIP AND MIE_S_MASK =
      ((csr_at s CSR_MIP AND MIE_S_MASK) AND NOT MIE_S_MASK) OR (v AND MIE_S_MASK)" for s v
    by (simp add: and.assoc)
qed (rule wf_csr_write)

section \<open>Trap entry and return\<close>

lemma m_mask_bit: "bit MSTATUS_M_MASK n \<longleftrightarrow> n = 3 \<or> n = 7 \<or> n = 11 \<or> n = 12"
proof -
  have e: "MSTATUS_M_MASK = 2 ^ 3 OR 2 ^ 7 OR 2 ^ 11 OR 2 ^ 12" by (simp add: MSTATUS_M_MASK_def)
  show ?thesis unfolding e by (simp only: bit_simps) auto
qed

lemma s_mask_bit: "bit MSTATUS_S_MASK n \<longleftrightarrow> n = 1 \<or> n = 5 \<or> n = 8"
  by (simp only: MSTATUS_S_MASK_def bit_simps) auto

text \<open>\<open>mret\<close> after a trap into M-mode returns to the interrupted context.\<close>

lemma bit_one_field: "bit (push_bit k (x AND 1)) n \<longleftrightarrow> n = k \<and> bit (x::int) 0"
  by (cases "n = k") (auto simp: and_1_take_bit bit_simps bit_0)

lemma m_trap_status_bit:
  assumes "fits 32 m" "fits 2 p"
  shows "bit (u32 ((m AND NOT MSTATUS_M_MASK) OR push_bit 7 (drop_bit 3 m AND 1) OR push_bit 11 p)) n \<longleftrightarrow>
    (if n = 7 then bit m 3 else if n = 11 \<or> n = 12 then bit p (n - 11) else n \<noteq> 3 \<and> bit m n)"
proof -
  have "bit p (n - 11) \<longrightarrow> n < 13" using fits_high_bit [OF assms(2), of "n - 11"] by linarith
  moreover have "bit m n \<longrightarrow> n < 32" using fits_high_bit [OF assms(1), of n] by linarith
  ultimately show ?thesis
    unfolding u32_take_bit bit_take_bit_iff bit_or_iff bit_and_iff bit_not_iff m_mask_bit bit_one_field
      bit_drop_bit_eq unfolding bit_push_bit_iff by auto
qed

lemma m_return_status_bit:
  assumes "fits 32 m"
  shows "bit (u32 ((m AND NOT MSTATUS_M_MASK) OR push_bit 3 (drop_bit 7 m AND 1) OR 2 ^ 7 OR push_bit 11 0)) n \<longleftrightarrow>
    (if n = 3 then bit m 7 else n = 7 \<or> n \<noteq> 11 \<and> n \<noteq> 12 \<and> bit m n)"
proof -
  have "bit m n \<longrightarrow> n < 32" using fits_high_bit [OF assms(1), of n] by linarith
  then show ?thesis
    unfolding u32_take_bit bit_take_bit_iff bit_or_iff bit_and_iff bit_not_iff m_mask_bit bit_one_field
      bit_drop_bit_eq bit_exp_iff unfolding bit_push_bit_iff by auto
qed

lemma mret_trap:
  assumes "wf_iss s" "\<not> trap_to_s s c"
  shows "pc (mret (trap s c t)) = pc s" "priv_mode (mret (trap s c t)) = priv_mode s"
    "csr_at (mret (trap s c t)) CSR_MSTATUS = (csr_at s CSR_MSTATUS AND NOT MSTATUS_M_MASK) OR
       (csr_at s CSR_MSTATUS AND 2 ^ 3) OR 2 ^ 7"
proof -
  let ?m = "csr_at s CSR_MSTATUS"
  have m: "fits 32 ?m" using wf_csr_at(2) wf_issD(6) [OF assms(1)] by simp
  have p: "fits 2 (priv_mode s)" using wf_issD [OF assms(1)] by simp
  define m1 where "m1 = u32 ((?m AND NOT MSTATUS_M_MASK) OR push_bit 7 (drop_bit 3 ?m AND 1) OR push_bit 11 (priv_mode s))"
  note m1_bit = m_trap_status_bit [OF m p, folded m1_def]
  have m1: "fits 32 m1" by (simp add: m1_def fits_u32)
  have t: "csr_at (trap s c t) CSR_MSTATUS = m1" "csr_at (trap s c t) CSR_MEPC = pc s"
    using assms(2) unfolding trap_def Let_def m1_def by simp_all
  show "pc (mret (trap s c t)) = pc s" by (simp add: mret_def Let_def t)
  have "take_bit 2 (drop_bit 11 m1) = priv_mode s"
    by (rule bit_eqI)
      (use fits_high_bit [OF p] in \<open>auto simp: bit_take_bit_iff bit_drop_bit_eq m1_bit less_2_cases_iff\<close>)
  then show "priv_mode (mret (trap s c t)) = priv_mode s" by (simp add: mret_def Let_def t mask_simps)
  have "u32 ((m1 AND NOT MSTATUS_M_MASK) OR push_bit 3 (drop_bit 7 m1 AND 1) OR 2 ^ 7 OR push_bit 11 0) =
    (?m AND NOT MSTATUS_M_MASK) OR (?m AND 2 ^ 3) OR 2 ^ 7"
    by (rule bit_eqI) (unfold m_return_status_bit [OF m1] m1_bit bit_or_iff bit_and_iff bit_not_iff m_mask_bit
        bit_exp_iff, auto)
  then show "csr_at (mret (trap s c t)) CSR_MSTATUS = (?m AND NOT MSTATUS_M_MASK) OR (?m AND 2 ^ 3) OR 2 ^ 7"
    unfolding mret_def Let_def t by simp
qed

text \<open>\<open>sret\<close> after a trap delegated to S-mode returns to the interrupted context.\<close>

lemma s_trap_status_bit:
  assumes "fits 32 m"
  shows "bit (u32 ((m AND NOT MSTATUS_S_MASK) OR push_bit 5 (drop_bit 1 m AND 1) OR push_bit 8 (p AND 1))) n \<longleftrightarrow>
    (if n = 5 then bit m 1 else if n = 8 then bit p 0 else n \<noteq> 1 \<and> bit m n)"
proof -
  have "bit m n \<longrightarrow> n < 32" using fits_high_bit [OF assms(1), of n] by linarith
  then show ?thesis
    unfolding u32_take_bit bit_take_bit_iff bit_or_iff bit_and_iff bit_not_iff s_mask_bit bit_one_field
      bit_drop_bit_eq by auto
qed

lemma s_return_status_bit:
  assumes "fits 32 m"
  shows "bit (u32 ((m AND NOT MSTATUS_S_MASK) OR push_bit 1 (drop_bit 5 m AND 1) OR 2 ^ 5)) n \<longleftrightarrow>
    (if n = 1 then bit m 5 else n = 5 \<or> n \<noteq> 8 \<and> bit m n)"
proof -
  have "bit m n \<longrightarrow> n < 32" using fits_high_bit [OF assms(1), of n] by linarith
  then show ?thesis
    unfolding u32_take_bit bit_take_bit_iff bit_or_iff bit_and_iff bit_not_iff s_mask_bit bit_one_field
      bit_drop_bit_eq bit_exp_iff by auto
qed

lemma sret_trap:
  assumes "wf_iss s" "trap_to_s s c" "fits 1 (priv_mode s)"
  shows "pc (sret (trap s c t)) = pc s" "priv_mode (sret (trap s c t)) = priv_mode s"
    "csr_at (sret (trap s c t)) CSR_MSTATUS = (csr_at s CSR_MSTATUS AND NOT MSTATUS_S_MASK) OR
       (csr_at s CSR_MSTATUS AND 2 ^ 1) OR 2 ^ 5"
proof -
  let ?m = "csr_at s CSR_MSTATUS"
  have m: "fits 32 ?m" using wf_csr_at(2) wf_issD(6) [OF assms(1)] by simp
  define m1 where "m1 = u32 ((?m AND NOT MSTATUS_S_MASK) OR push_bit 5 (drop_bit 1 ?m AND 1) OR push_bit 8 (priv_mode s AND 1))"
  note m1_bit = s_trap_status_bit [OF m, of "priv_mode s", folded m1_def]
  have m1: "fits 32 m1" by (simp add: m1_def fits_u32)
  have t: "csr_at (trap s c t) CSR_MSTATUS = m1" "csr_at (trap s c t) CSR_SEPC = pc s"
    using assms(2) unfolding trap_def Let_def m1_def by simp_all
  show "pc (sret (trap s c t)) = pc s" by (simp add: sret_def Let_def t)
  have "odd (drop_bit 8 m1) \<longleftrightarrow> odd (priv_mode s)"
    using m1_bit [of 8] by (simp add: bit_iff_odd_drop_bit)
  moreover have "priv_mode s = 0 \<or> priv_mode s = 1" using assms(3) by (auto simp: fits_def)
  ultimately have "drop_bit 8 m1 AND 1 = priv_mode s" by (auto simp: and_one_eq mod2_eq_if)
  then show "priv_mode (sret (trap s c t)) = priv_mode s" unfolding sret_def Let_def t by simp
  have "u32 ((m1 AND NOT MSTATUS_S_MASK) OR push_bit 1 (drop_bit 5 m1 AND 1) OR 2 ^ 5) =
    (?m AND NOT MSTATUS_S_MASK) OR (?m AND 2 ^ 1) OR 2 ^ 5"
    by (rule bit_eqI) (unfold s_return_status_bit [OF m1] m1_bit bit_or_iff bit_and_iff bit_not_iff s_mask_bit
        bit_exp_iff, auto)
  then show "csr_at (sret (trap s c t)) CSR_MSTATUS = (?m AND NOT MSTATUS_S_MASK) OR (?m AND 2 ^ 1) OR 2 ^ 5"
    unfolding sret_def Let_def t by simp
qed


section \<open>Little-endian access over a byte store\<close>

text \<open>
  The contract of a byte-addressed store whose addresses may alias (the simulator wraps an
  address into its memory with a mask), and what multi-byte accesses built on it do.
\<close>

locale byte_store =
  fixes ld :: "'s \<Rightarrow> int \<Rightarrow> int"
    and st :: "'s \<Rightarrow> int \<Rightarrow> int \<Rightarrow> 's"
    and valid :: "'s \<Rightarrow> int \<Rightarrow> bool"
    and cell :: "'s \<Rightarrow> int \<Rightarrow> nat"
  assumes load_same: "valid s a \<Longrightarrow> cell s b = cell s a \<Longrightarrow> valid s b \<Longrightarrow> ld (st s a v) b = take_bit 8 v"
    and load_other: "valid s a \<Longrightarrow> valid s b \<Longrightarrow> cell s b \<noteq> cell s a \<Longrightarrow> ld (st s a v) b = ld s b"
    and valid_store: "valid s a \<Longrightarrow> valid (st s a v) b \<longleftrightarrow> valid s b"
    and cell_store: "cell (st s a v) b = cell s b"
begin

lemma store_n_frame:
  fixes v :: int
  assumes "\<And>i. i < n \<Longrightarrow> valid s (a + int i)"
    and "s' = foldl (\<lambda>s i. st s (a + int i) (drop_bit (8 * i) v)) s [0..<n]"
  shows "valid s' b \<longleftrightarrow> valid s b" "cell s' b = cell s b"
    "valid s b \<Longrightarrow> (\<And>i. i < n \<Longrightarrow> cell s b \<noteq> cell s (a + int i)) \<Longrightarrow> ld s' b = ld s b"
proof -
  have "(\<forall>b. (valid s' b \<longleftrightarrow> valid s b) \<and> cell s' b = cell s b \<and>
      (valid s b \<longrightarrow> (\<forall>i<n. cell s b \<noteq> cell s (a + int i)) \<longrightarrow> ld s' b = ld s b))"
    using assms by (induction n arbitrary: s') (auto simp: valid_store cell_store load_other)
  then show "valid s' b \<longleftrightarrow> valid s b" "cell s' b = cell s b"
    "valid s b \<Longrightarrow> (\<And>i. i < n \<Longrightarrow> cell s b \<noteq> cell s (a + int i)) \<Longrightarrow> ld s' b = ld s b"
    by auto
qed

lemma load_n_after_store_n:
  assumes "\<And>i. i < n \<Longrightarrow> valid s (a + int i)"
    and "\<And>i j. i < n \<Longrightarrow> j < n \<Longrightarrow> i \<noteq> j \<Longrightarrow> cell s (a + int i) \<noteq> cell s (a + int j)"
    and "k < n"
  shows "ld (foldl (\<lambda>s i. st s (a + int i) (drop_bit (8 * i) v)) s [0..<n]) (a + int k) =
    take_bit 8 (drop_bit (8 * k) v)"
  using assms
proof (induction n)
  case (Suc n)
  have IH: "foldl (\<lambda>s i. st s (a + int i) (drop_bit (8 * i) v)) s [0..<Suc n] =
    st (foldl (\<lambda>s i. st s (a + int i) (drop_bit (8 * i) v)) s [0..<n]) (a + int n) (drop_bit (8 * n) v)"
    by simp
  have f: "valid (foldl (\<lambda>s i. st s (a + int i) (drop_bit (8 * i) v)) s [0..<n]) b \<longleftrightarrow> valid s b"
    "cell (foldl (\<lambda>s i. st s (a + int i) (drop_bit (8 * i) v)) s [0..<n]) b = cell s b" for b
    using store_n_frame(1,2) [OF _ refl] Suc.prems(1) by simp_all
  show ?case
  proof (cases "k = n")
    case True
    show ?thesis unfolding IH True using Suc.prems(1) by (intro load_same) (simp_all add: f)
  next
    case False
    then have "ld (foldl (\<lambda>s i. st s (a + int i) (drop_bit (8 * i) v)) s [0..<n]) (a + int k) =
        take_bit 8 (drop_bit (8 * k) v)"
      using Suc.prems by (intro Suc.IH) auto
    moreover have "cell s (a + int k) \<noteq> cell s (a + int n)" using False Suc.prems by auto
    ultimately show ?thesis
      unfolding IH using Suc.prems(1,3) by (subst load_other) (simp_all add: f)
  qed
qed simp

end

text \<open>RAM lies below the device window at \<open>0x10000000\<close>; two addresses share a cell when they
  agree on the masked bits.\<close>

interpretation ram: byte_store load_mem_byte store_mem_byte
    "\<lambda>s a. a < 0x10000000 \<and> nat (a AND mem_mask s) < length (mem s)" "\<lambda>s a. nat (a AND mem_mask s)"
  by standard (auto simp: load_mem_byte_def store_mem_byte_def mask_simps)


section \<open>Properties\<close>

text \<open>The supervisor registers \<open>sstatus\<close> and \<open>sie\<close> are views of \<open>mstatus\<close> and \<open>mie\<close>: a write
  is read back on the supervisor's bits, the other bits of the machine register do not change,
  and of two writes the last one decides.\<close>

theorem supervisor_views:
  assumes "wf_iss s"
  shows "csr_read (csr_write s CSR_SSTATUS v) CSR_SSTATUS = v AND MSTATUS_S_MASK \<and>
    csr_at (csr_write s CSR_SSTATUS v) CSR_MSTATUS AND NOT MSTATUS_S_MASK = csr_at s CSR_MSTATUS AND NOT MSTATUS_S_MASK \<and>
    csr_at (csr_write (csr_write s CSR_SSTATUS w) CSR_SSTATUS v) CSR_MSTATUS = csr_at (csr_write s CSR_SSTATUS v) CSR_MSTATUS \<and>
    csr_read (csr_write s CSR_SIE v) CSR_SIE = v AND MIE_S_MASK \<and>
    csr_at (csr_write s CSR_SIE v) CSR_MIE AND NOT MIE_S_MASK = csr_at s CSR_MIE AND NOT MIE_S_MASK \<and>
    csr_read (csr_write s CSR_SIP v) CSR_SIP = v AND MIE_S_MASK"
  using sstatus.read_after_write [OF assms] sstatus.hidden_bits_kept [OF assms] sstatus.last_write_wins [OF assms]
    sie.read_after_write [OF assms] sie.hidden_bits_kept [OF assms] sip.read_after_write [OF assms]
  by blast

theorem supervisor_views_witness:
  "csr_read (csr_write (iss_init (2 ^ 12) 32) CSR_SSTATUS 0xFFF) CSR_SSTATUS = 0xFFF AND MSTATUS_S_MASK"
  using supervisor_views [OF wf_iss_init [of 12 32]] by simp

text \<open>\<open>mret\<close> after a trap taken in M-mode returns to the interrupted program counter and
  privilege mode and restores the interrupt-enable bit, leaving MPIE set and MPP cleared.\<close>

theorem mret_after_trap:
  assumes "wf_iss s" "\<not> trap_to_s s c"
  shows "pc (mret (trap s c t)) = pc s \<and> priv_mode (mret (trap s c t)) = priv_mode s \<and>
    csr_at (mret (trap s c t)) CSR_MSTATUS =
      (csr_at s CSR_MSTATUS AND NOT MSTATUS_M_MASK) OR (csr_at s CSR_MSTATUS AND 2 ^ 3) OR 2 ^ 7"
  using mret_trap [OF assms] by blast

theorem mret_after_trap_witness:
  "pc (mret (trap ((iss_init (2 ^ 12) 32)\<lparr>pc := 64\<rparr>) 2 0)) = 64"
  using mret_after_trap [OF wf_pc [OF wf_iss_init [of 12 32]], of 64 2 0]
  by (simp add: trap_to_s_def iss_init_def)

text \<open>\<open>sret\<close> after a trap delegated to S-mode returns to the interrupted program counter and
  to the user or supervisor mode it came from, restoring the supervisor interrupt enable.\<close>

theorem sret_after_trap:
  assumes "wf_iss s" "trap_to_s s c" "fits 1 (priv_mode s)"
  shows "pc (sret (trap s c t)) = pc s \<and> priv_mode (sret (trap s c t)) = priv_mode s \<and>
    csr_at (sret (trap s c t)) CSR_MSTATUS =
      (csr_at s CSR_MSTATUS AND NOT MSTATUS_S_MASK) OR (csr_at s CSR_MSTATUS AND 2 ^ 1) OR 2 ^ 5"
  using sret_trap [OF assms] by blast

lemma wf_iss_priv: "wf_iss s \<Longrightarrow> fits 2 m \<Longrightarrow> wf_iss (s\<lparr>priv_mode := m\<rparr>)"
  by (simp add: wf_iss_def)

theorem sret_after_trap_witness:
  "priv_mode (sret (trap ((csr_write (iss_init (2 ^ 12) 32) CSR_MEDELEG 0x100)\<lparr>priv_mode := 0\<rparr>) 8 0)) = 0"
  using sret_after_trap [OF wf_iss_priv [OF wf_csr_write [OF wf_iss_init [of 12 32]]], of 0 CSR_MEDELEG "0x100" 8 0]
  by (simp add: trap_to_s_def iss_init_def csr_write_def csr_store_def csr_set_def csr_at_def MEDELEG_MASK_def
      u32_def fits_def)

end
