(* ===== verification/Mmu.thy ===== *)
theory Mmu
  imports Iss_State
begin

text \<open>
  Address translation of \<open>sim/tools/iss.py\<close>: page-table entry reads, the permission check, the
  two-level Sv32 walk, the three-level Sv39 walk and the dispatcher \<open>translate\<close>. A walk returns
  the new state and \<open>Some\<close> physical address, or traps and returns \<open>None\<close>, as the source does.
  The access kinds are the three literals \<open>'fetch'\<close>, \<open>'load'\<close> and \<open>'store'\<close>.
\<close>

datatype access = Fetch | Load | Store

abbreviation (input) "PTE_V_BIT \<equiv> (0::nat)"
abbreviation (input) "PTE_R_BIT \<equiv> (1::nat)"
abbreviation (input) "PTE_W_BIT \<equiv> (2::nat)"
abbreviation (input) "PTE_X_BIT \<equiv> (3::nat)"
abbreviation (input) "PTE_U_BIT \<equiv> (4::nat)"
abbreviation (input) "SATP_MODE_BIT \<equiv> (31::nat)"
abbreviation (input) "SATP64_MODE_LO \<equiv> (60::nat)"
abbreviation (input) "SATP_MODE_SV39 \<equiv> (8::int)"

definition read_pte :: "iss \<Rightarrow> int \<Rightarrow> int" where
  "read_pte s addr =
     (let addr = addr AND 0xFFFFFFFF
      in load_mem_byte s addr OR push_bit 8 (load_mem_byte s (addr + 1)) OR
         push_bit 16 (load_mem_byte s (addr + 2)) OR push_bit 24 (load_mem_byte s (addr + 3)))"

definition read_pte64 :: "iss \<Rightarrow> int \<Rightarrow> int" where
  "read_pte64 s addr =
     (let addr = addr AND 0xFFFFFFFF
      in foldl (\<lambda>val i. val OR push_bit (8 * i) (load_mem_byte s (addr + int i))) 0 [0..<8])"

definition pte_flag :: "int \<Rightarrow> nat \<Rightarrow> bool" where
  \<comment> \<open>the test \<open>(pte >> bit) & 1\<close>\<close>
  "pte_flag pte b \<longleftrightarrow> drop_bit b pte AND 1 \<noteq> 0"

definition pte_leaf :: "int \<Rightarrow> bool" where
  "pte_leaf pte \<longleftrightarrow> pte_flag pte PTE_R_BIT \<or> pte_flag pte PTE_W_BIT \<or> pte_flag pte PTE_X_BIT"

definition pte_perm_ok :: "iss \<Rightarrow> int \<Rightarrow> access \<Rightarrow> bool" where
  "pte_perm_ok s pte access =
     (let access_bit = (case access of Fetch \<Rightarrow> PTE_X_BIT | Store \<Rightarrow> PTE_W_BIT | Load \<Rightarrow> PTE_R_BIT)
      in if \<not> pte_flag pte access_bit then False
         else let priv_is_u = (priv_mode s = PRIV_U); pte_u = pte_flag pte PTE_U_BIT
              in if priv_is_u then pte_u else \<not> pte_u)"

definition fault_cause :: "access \<Rightarrow> int" where
  "fault_cause access = (case access of Fetch \<Rightarrow> MCAUSE_INSTRUCTION_PAGE_FAULT
     | Load \<Rightarrow> MCAUSE_LOAD_PAGE_FAULT | Store \<Rightarrow> MCAUSE_STORE_PAGE_FAULT)"

definition page_fault :: "iss \<Rightarrow> access \<Rightarrow> int \<Rightarrow> iss \<times> int option" where
  \<comment> \<open>the local function \<open>fault\<close> of both walks\<close>
  "page_fault s access vaddr = (trap s (fault_cause access) vaddr, None)"

definition translate_sv32 :: "iss \<Rightarrow> int \<Rightarrow> access \<Rightarrow> int \<Rightarrow> iss \<times> int option" where
  "translate_sv32 s vaddr access satp =
     (let vaddr = u32 vaddr;
          vpn1 = drop_bit 22 vaddr AND 0x3FF;
          vpn0 = drop_bit 12 vaddr AND 0x3FF;
          offset = vaddr AND 0xFFF;
          satp_ppn20 = satp AND 0xFFFFF;
          l1_addr = push_bit 12 satp_ppn20 OR push_bit 2 vpn1;
          pte1 = read_pte s l1_addr
      in if \<not> pte_flag pte1 PTE_V_BIT then page_fault s access vaddr
         else if pte_leaf pte1
         then let ppn20 = drop_bit 10 pte1 AND 0xFFFFF
              in if ppn20 AND 0x3FF \<noteq> 0 then page_fault s access vaddr
                 else if \<not> pte_perm_ok s pte1 access then page_fault s access vaddr
                 else let result_ppn20 = push_bit 10 (drop_bit 10 ppn20) OR vpn0
                      in (s, Some (u32 (push_bit 12 result_ppn20 OR offset)))
         else
         let l0_addr = push_bit 12 (drop_bit 10 pte1 AND 0xFFFFF) OR push_bit 2 vpn0;
             pte0 = read_pte s l0_addr
         in if \<not> pte_flag pte0 PTE_V_BIT then page_fault s access vaddr
            else if \<not> pte_leaf pte0 then page_fault s access vaddr
            else if \<not> pte_perm_ok s pte0 access then page_fault s access vaddr
            else let ppn20 = drop_bit 10 pte0 AND 0xFFFFF
                 in (s, Some (u32 (push_bit 12 ppn20 OR offset))))"

definition translate_sv39 :: "iss \<Rightarrow> int \<Rightarrow> access \<Rightarrow> int \<Rightarrow> iss \<times> int option" where
  "translate_sv39 s vaddr access satp =
     (let vpn2 = drop_bit 30 vaddr AND 0x1FF;
          vpn1 = drop_bit 21 vaddr AND 0x1FF;
          vpn0 = drop_bit 12 vaddr AND 0x1FF;
          offset = vaddr AND 0xFFF;
          satp_ppn20 = satp AND 0xFFFFF;
          l2_addr = push_bit 12 satp_ppn20 OR push_bit 3 vpn2;
          pte2 = read_pte64 s l2_addr
      in if \<not> pte_flag pte2 PTE_V_BIT then page_fault s access vaddr
         else if pte_leaf pte2
         then let pte_ppn20 = drop_bit 10 pte2 AND 0xFFFFF
              in if pte_ppn20 AND 0x3FFFF \<noteq> 0 then page_fault s access vaddr
                 else if \<not> pte_perm_ok s pte2 access then page_fault s access vaddr
                 else let result_ppn20 =
                            push_bit 18 (drop_bit 18 pte_ppn20) OR push_bit 9 vpn1 OR vpn0
                      in (s, Some (uxlen s (push_bit 12 result_ppn20 OR offset)))
         else
         let l1_addr = push_bit 12 (drop_bit 10 pte2 AND 0xFFFFF) OR push_bit 3 vpn1;
             pte1 = read_pte64 s l1_addr
         in if \<not> pte_flag pte1 PTE_V_BIT then page_fault s access vaddr
            else if pte_leaf pte1
            then let pte_ppn20 = drop_bit 10 pte1 AND 0xFFFFF
                 in if pte_ppn20 AND 0x1FF \<noteq> 0 then page_fault s access vaddr
                    else if \<not> pte_perm_ok s pte1 access then page_fault s access vaddr
                    else let result_ppn20 = push_bit 9 (drop_bit 9 pte_ppn20) OR vpn0
                         in (s, Some (uxlen s (push_bit 12 result_ppn20 OR offset)))
            else
            let l0_addr = push_bit 12 (drop_bit 10 pte1 AND 0xFFFFF) OR push_bit 3 vpn0;
                pte0 = read_pte64 s l0_addr
            in if \<not> pte_flag pte0 PTE_V_BIT then page_fault s access vaddr
               else if \<not> pte_leaf pte0 then page_fault s access vaddr
               else if \<not> pte_perm_ok s pte0 access then page_fault s access vaddr
               else let ppn20 = drop_bit 10 pte0 AND 0xFFFFF
                    in (s, Some (uxlen s (push_bit 12 ppn20 OR offset))))"

definition translate :: "iss \<Rightarrow> int \<Rightarrow> access \<Rightarrow> iss \<times> int option" where
  "translate s vaddr access =
     (let satp = csr_at s CSR_SATP
      in if priv_mode s = PRIV_M then (s, Some (uxlen s vaddr))
         else if xlen s = 32
         then (if drop_bit SATP_MODE_BIT satp AND 1 = 0 then (s, Some (uxlen s vaddr))
               else translate_sv32 s vaddr access satp)
         else (if drop_bit SATP64_MODE_LO satp AND 0xF \<noteq> SATP_MODE_SV39
               then (s, Some (uxlen s vaddr))
               else translate_sv39 s vaddr access satp))"

end
