(* ===== verification/Mmu_Props.thy ===== *)
theory Mmu_Props
  imports Iss_State_Props Mmu
begin

text \<open>
  Address translation is a partial function of the page tables that touches nothing on success
  and takes the access's page-fault trap on failure (\<open>translator\<close>). The two walks are proved
  equivalent to specifications in arithmetic terms (\<open>sv32_walk\<close>, \<open>sv39_walk\<close>), and a
  translation is denied exactly when the specification has no walk.
\<close>

section \<open>The interface of a translator\<close>

locale translator =
  fixes tr :: "iss \<Rightarrow> int \<Rightarrow> access \<Rightarrow> iss \<times> int option"
  assumes hit: "tr s va ac = (s', Some pa) \<Longrightarrow> s' = s"
    and hit_range: "wf_iss s \<Longrightarrow> tr s va ac = (s', Some pa) \<Longrightarrow> fits (xlen s) pa"
    and miss: "tr s va ac = (s', None) \<Longrightarrow> \<exists>t. s' = trap s (fault_cause ac) t"
begin

lemma outcome: "tr s va ac = (s', r) \<Longrightarrow> s' = s \<or> (\<exists>t. s' = trap s (fault_cause ac) t)"
  using hit miss by (cases r) auto

lemma keeps_wf: "wf_iss s \<Longrightarrow> tr s va ac = (s', r) \<Longrightarrow> wf_iss s'"
  using outcome wf_trap by blast

lemma keeps_registers_and_memory:
  "regs (fst (tr s va ac)) = regs s" "mem (fst (tr s va ac)) = mem s" "fregs (fst (tr s va ac)) = fregs s"
proof -
  obtain s' r where p: "tr s va ac = (s', r)" by fastforce
  then show "regs (fst (tr s va ac)) = regs s" "mem (fst (tr s va ac)) = mem s"
    "fregs (fst (tr s va ac)) = fregs s"
    using outcome [OF p] p by (auto simp: trap_def Let_def)
qed

end

section \<open>The walks as specifications\<close>

abbreviation sv32_pte1 :: "iss \<Rightarrow> int \<Rightarrow> int \<Rightarrow> int" where
  "sv32_pte1 s satp va \<equiv> read_pte s (satp mod 2 ^ 20 * 2 ^ 12 + va div 2 ^ 22 mod 2 ^ 10 * 4)"

abbreviation sv32_pte0 :: "iss \<Rightarrow> int \<Rightarrow> int \<Rightarrow> int" where
  "sv32_pte0 s pte1 va \<equiv> read_pte s (pte1 div 2 ^ 10 mod 2 ^ 20 * 2 ^ 12 + va div 2 ^ 12 mod 2 ^ 10 * 4)"

inductive sv32_walk :: "iss \<Rightarrow> int \<Rightarrow> access \<Rightarrow> int \<Rightarrow> int \<Rightarrow> bool" for s satp ac va where
  superpage: "sv32_walk s satp ac va (pte1 div 2 ^ 20 mod 2 ^ 10 * 2 ^ 22 + va mod 2 ^ 22)"
    if "pte1 = sv32_pte1 s satp va" "pte_flag pte1 PTE_V_BIT" "pte_leaf pte1"
       "pte1 div 2 ^ 10 mod 2 ^ 10 = 0" "pte_perm_ok s pte1 ac"
| page: "sv32_walk s satp ac va (pte0 div 2 ^ 10 mod 2 ^ 20 * 2 ^ 12 + va mod 2 ^ 12)"
    if "pte1 = sv32_pte1 s satp va" "pte_flag pte1 PTE_V_BIT" "\<not> pte_leaf pte1"
       "pte0 = sv32_pte0 s pte1 va" "pte_flag pte0 PTE_V_BIT" "pte_leaf pte0" "pte_perm_ok s pte0 ac"

lemma field_address:
  fixes x y :: int
  assumes "l + k \<le> 12"
  shows "push_bit 12 (take_bit n x) OR push_bit l (take_bit k y) = x mod 2 ^ n * 2 ^ 12 + y mod 2 ^ k * 2 ^ l"
proof -
  have "fits 12 (push_bit l (take_bit k y))" using assms by (intro fits_push_bit_le [OF fits_take_bit]) simp
  then show ?thesis by (simp only: push_or_add) (simp add: push_bit_eq_mult take_bit_eq_mod)
qed

lemma frame_offset:
  fixes x y :: int
  shows "push_bit 12 (take_bit n x) OR take_bit 12 y = x mod 2 ^ n * 2 ^ 12 + y mod 2 ^ 12"
  unfolding push_or_add [OF fits_take_bit] by (simp add: take_bit_eq_mod)

lemma superpage_frame:
  fixes p y :: int
  assumes "k \<le> n"
  shows "push_bit 12 (push_bit k (drop_bit k (take_bit n p)) OR take_bit k (drop_bit 12 y)) OR take_bit 12 y =
    p div 2 ^ k mod 2 ^ (n - k) * 2 ^ (12 + k) + y mod 2 ^ (12 + k)"
proof -
  have "push_bit 12 (push_bit k (drop_bit k (take_bit n p)) OR take_bit k (drop_bit 12 y)) OR take_bit 12 y =
      push_bit (12 + k) (take_bit (n - k) (drop_bit k p)) OR take_bit (12 + k) y"
    using assms by (intro bit_eqI) (auto simp: bit_simps ac_simps)
  also have "\<dots> = take_bit (n - k) (drop_bit k p) * 2 ^ (12 + k) + take_bit (12 + k) y"
    by (rule push_or_add) simp
  finally show ?thesis by (simp add: take_bit_eq_mod drop_bit_eq_div)
qed


lemma fits_field_sum: "fits k a \<Longrightarrow> fits n b \<Longrightarrow> fits (k + n) (a * 2 ^ n + b)"
proof -
  assume ab: "fits k a" "fits n b"
  then have "a * 2 ^ n + b = push_bit n a OR b" by (simp add: push_or_add)
  moreover have "fits (k + n) (push_bit n a OR b)"
    using ab by (intro fits_or fits_push_bit) (auto intro: fits_mono)
  ultimately show ?thesis by simp
qed

lemma fits_mod [simp]: "fits n (x mod 2 ^ n)"
  using fits_take_bit [of n x] by (simp add: take_bit_eq_mod)

lemma sv32_result_fits:
  "u32 (x mod 2 ^ 20 * 2 ^ 12 + y mod 2 ^ 12) = x mod 2 ^ 20 * 2 ^ 12 + y mod 2 ^ 12"
  "u32 (x mod 2 ^ 10 * 2 ^ 22 + y mod 2 ^ 22) = x mod 2 ^ 10 * 2 ^ 22 + y mod 2 ^ 22"
  using fits_field_sum [OF fits_mod [of 20 x] fits_mod [of 12 y]]
    fits_field_sum [OF fits_mod [of 10 x] fits_mod [of 22 y]]
  by (simp_all only: u32_take_bit take_bit_fits_id) simp_all

lemma drop_div: "drop_bit m x div 2 ^ n = x div 2 ^ (m + n)" for x :: int
  by (simp add: drop_bit_eq_div zdiv_zmult2_eq [symmetric] power_add)

text \<open>The Sv32 walk in arithmetic form.\<close>

lemma translate_sv32_alt:
  fixes s va satp
  defines "v \<equiv> u32 va"
  defines "pte1 \<equiv> sv32_pte1 s satp v"
  defines "pte0 \<equiv> sv32_pte0 s pte1 v"
  shows "translate_sv32 s va ac satp =
    (if \<not> pte_flag pte1 PTE_V_BIT then page_fault s ac v
     else if pte_leaf pte1 then
       (if pte1 div 2 ^ 10 mod 2 ^ 10 \<noteq> 0 \<or> \<not> pte_perm_ok s pte1 ac then page_fault s ac v
        else (s, Some (pte1 div 2 ^ 20 mod 2 ^ 10 * 2 ^ 22 + v mod 2 ^ 22)))
     else if \<not> pte_flag pte0 PTE_V_BIT \<or> \<not> pte_leaf pte0 \<or> \<not> pte_perm_ok s pte0 ac then page_fault s ac v
     else (s, Some (pte0 div 2 ^ 10 mod 2 ^ 20 * 2 ^ 12 + v mod 2 ^ 12)))"
proof -
  have a: "read_pte s (push_bit 12 (take_bit 20 satp) OR push_bit 2 (take_bit 10 (drop_bit 22 v))) = pte1"
    unfolding pte1_def by (subst field_address) (simp_all add: drop_bit_eq_div)
  have b: "read_pte s (push_bit 12 (take_bit 20 (drop_bit 10 pte1)) OR push_bit 2 (take_bit 10 (drop_bit 12 v))) = pte0"
    unfolding pte0_def by (subst field_address) (simp_all add: drop_bit_eq_div)
  have c: "take_bit 10 (take_bit 20 (drop_bit 10 pte1)) = pte1 div 2 ^ 10 mod 2 ^ 10"
    by (simp add: take_bit_eq_mod drop_bit_eq_div mod_mod_cancel)
  have d: "u32 (push_bit 12 (push_bit 10 (drop_bit 10 (take_bit 20 (drop_bit 10 pte1))) OR take_bit 10 (drop_bit 12 v)) OR take_bit 12 v)
      = pte1 div 2 ^ 20 mod 2 ^ 10 * 2 ^ 22 + v mod 2 ^ 22"
    using superpage_frame [of 10 20 "drop_bit 10 pte1" v, unfolded drop_div] sv32_result_fits(2) [of "pte1 div 2 ^ 20" v]
    by simp
  have e: "u32 (push_bit 12 (take_bit 20 (drop_bit 10 pte0)) OR take_bit 12 v) = pte0 div 2 ^ 10 mod 2 ^ 20 * 2 ^ 12 + v mod 2 ^ 12"
    unfolding frame_offset sv32_result_fits by (simp add: drop_bit_eq_div)
  show ?thesis
    unfolding translate_sv32_def Let_def v_def [symmetric] mask_simps a b c d e
    by (cases "pte_perm_ok s pte0 ac"; cases "pte_perm_ok s pte1 ac"; cases "pte_leaf pte0") simp_all
qed


lemma sv32_walk_alt:
  assumes "pte1 = sv32_pte1 s satp v" and "pte0 = sv32_pte0 s pte1 v"
  shows "sv32_walk s satp ac v pa \<longleftrightarrow> pte_flag pte1 PTE_V_BIT \<and>
    (if pte_leaf pte1 then pte1 div 2 ^ 10 mod 2 ^ 10 = 0 \<and> pte_perm_ok s pte1 ac \<and>
       pa = pte1 div 2 ^ 20 mod 2 ^ 10 * 2 ^ 22 + v mod 2 ^ 22
     else pte_flag pte0 PTE_V_BIT \<and> pte_leaf pte0 \<and> pte_perm_ok s pte0 ac \<and>
       pa = pte0 div 2 ^ 10 mod 2 ^ 20 * 2 ^ 12 + v mod 2 ^ 12)"
proof
  assume "sv32_walk s satp ac v pa"
  then show "pte_flag pte1 PTE_V_BIT \<and>
    (if pte_leaf pte1 then pte1 div 2 ^ 10 mod 2 ^ 10 = 0 \<and> pte_perm_ok s pte1 ac \<and>
       pa = pte1 div 2 ^ 20 mod 2 ^ 10 * 2 ^ 22 + v mod 2 ^ 22
     else pte_flag pte0 PTE_V_BIT \<and> pte_leaf pte0 \<and> pte_perm_ok s pte0 ac \<and>
       pa = pte0 div 2 ^ 10 mod 2 ^ 20 * 2 ^ 12 + v mod 2 ^ 12)"
    by cases (metis assms)+
next
  assume "pte_flag pte1 PTE_V_BIT \<and>
    (if pte_leaf pte1 then pte1 div 2 ^ 10 mod 2 ^ 10 = 0 \<and> pte_perm_ok s pte1 ac \<and>
       pa = pte1 div 2 ^ 20 mod 2 ^ 10 * 2 ^ 22 + v mod 2 ^ 22
     else pte_flag pte0 PTE_V_BIT \<and> pte_leaf pte0 \<and> pte_perm_ok s pte0 ac \<and>
       pa = pte0 div 2 ^ 10 mod 2 ^ 20 * 2 ^ 12 + v mod 2 ^ 12)"
  then show "sv32_walk s satp ac v pa"
    using sv32_walk.superpage [OF assms(1)] sv32_walk.page [OF assms(1) _ _ assms(2)] by presburger
qed

lemma translate_sv32_cases:
  "(\<exists>pa. sv32_walk s satp ac (u32 va) pa \<and> translate_sv32 s va ac satp = (s, Some pa)) \<or>
   (\<nexists>pa. sv32_walk s satp ac (u32 va) pa) \<and> translate_sv32 s va ac satp = page_fault s ac (u32 va)"
proof -
  define v where "v = u32 va"
  define pte1 where "pte1 = sv32_pte1 s satp v"
  define pte0 where "pte0 = sv32_pte0 s pte1 v"
  show ?thesis
    unfolding v_def [symmetric] sv32_walk_alt [OF pte1_def pte0_def]
      translate_sv32_alt [of s va ac satp, folded v_def, folded pte1_def, folded pte0_def]
    by (cases "pte_flag pte1 PTE_V_BIT"; cases "pte_leaf pte1") simp_all
qed

lemma sv32_walk_unique: "sv32_walk s satp ac va pa \<Longrightarrow> sv32_walk s satp ac va pa' \<Longrightarrow> pa' = pa"
proof -
  define pte1 where "pte1 = sv32_pte1 s satp va"
  define pte0 where "pte0 = sv32_pte0 s pte1 va"
  show "sv32_walk s satp ac va pa \<Longrightarrow> sv32_walk s satp ac va pa' \<Longrightarrow> pa' = pa"
    unfolding sv32_walk_alt [OF pte1_def pte0_def] by (cases "pte_leaf pte1") simp_all
qed

text \<open>A walk ends at a valid leaf that grants the access to the current privilege mode.\<close>

lemma offset_kept: "(a * 2 ^ 22 + va mod 2 ^ 22) mod 2 ^ 12 = va mod (2::int) ^ 12"
proof -
  have "(a * 2 ^ 22 + va mod 2 ^ 22) mod 2 ^ 12 = (a * 2 ^ 10 * 2 ^ 12 + va mod 2 ^ 22) mod 2 ^ 12"
    by (simp only: mult.assoc flip: power_add) simp
  also have "\<dots> = va mod 2 ^ 22 mod 2 ^ 12" by (rule mod_mult_self3)
  also have "\<dots> = va mod 2 ^ 12" by (rule mod_mod_cancel) (simp add: le_imp_power_dvd)
  finally show ?thesis .
qed

definition access_bit :: "access \<Rightarrow> nat" where
  "access_bit ac = (case ac of Fetch \<Rightarrow> PTE_X_BIT | Store \<Rightarrow> PTE_W_BIT | Load \<Rightarrow> PTE_R_BIT)"

lemma pte_perm_ok_iff:
  "pte_perm_ok s pte ac \<longleftrightarrow> pte_flag pte (access_bit ac) \<and> (pte_flag pte PTE_U_BIT \<longleftrightarrow> priv_mode s = PRIV_U)"
  by (auto simp: pte_perm_ok_def access_bit_def Let_def)

lemma frame_of_page: "(x div 2 ^ 10 mod 2 ^ 20 * 2 ^ 12 + y mod 2 ^ 12) div 2 ^ 22 = x div 2 ^ 20 mod 2 ^ 10" for x y :: int
proof -
  have "(x div 2 ^ 10 mod 2 ^ 20 * 2 ^ 12 + y mod 2 ^ 12) div 2 ^ 12 = x div 2 ^ 10 mod 2 ^ 20" by simp
  then have "(x div 2 ^ 10 mod 2 ^ 20 * 2 ^ 12 + y mod 2 ^ 12) div (2 ^ 12 * 2 ^ 10) = (x div 2 ^ 10 mod 2 ^ 20) div 2 ^ 10"
    by (simp only: zdiv_zmult2_eq zero_le_power zero_le_numeral)
  also have "\<dots> = drop_bit 10 (take_bit 20 (drop_bit 10 x))" by (simp add: drop_bit_eq_div take_bit_eq_mod)
  also have "\<dots> = take_bit 10 (drop_bit 20 x)" by (simp add: drop_bit_take_bit drop_bit_drop_bit)
  finally show ?thesis by (simp add: drop_bit_eq_div take_bit_eq_mod)
qed

lemma sv32_walk_permitted:
  assumes "sv32_walk s satp ac va pa"
  shows "\<exists>pte \<in> {sv32_pte1 s satp va, sv32_pte0 s (sv32_pte1 s satp va) va}.
     pte_flag pte PTE_V_BIT \<and> pte_leaf pte \<and> pte_flag pte (access_bit ac) \<and>
     (pte_flag pte PTE_U_BIT \<longleftrightarrow> priv_mode s = PRIV_U) \<and>
     pa div 2 ^ 22 = pte div 2 ^ 20 mod 2 ^ 10 \<and> pa mod 2 ^ 12 = va mod 2 ^ 12"
  using assms
proof cases
  case (superpage pte1)
  have "pa div 2 ^ 22 = pte1 div 2 ^ 20 mod 2 ^ 10" unfolding superpage(1) by simp
  then show ?thesis using superpage offset_kept unfolding pte_perm_ok_iff by (intro bexI [of _ pte1]) blast+
next
  case (page pte1 pte0)
  have "pa mod 2 ^ 12 = va mod 2 ^ 12" unfolding page(1) by simp
  moreover have "pa div 2 ^ 22 = pte0 div 2 ^ 20 mod 2 ^ 10" unfolding page(1) by (rule frame_of_page)
  ultimately show ?thesis using page unfolding pte_perm_ok_iff by (intro bexI [of _ pte0]) blast+
qed


section \<open>Sv39\<close>

abbreviation sv39_pte2 :: "iss \<Rightarrow> int \<Rightarrow> int \<Rightarrow> int" where
  "sv39_pte2 s satp va \<equiv> read_pte64 s (satp mod 2 ^ 20 * 2 ^ 12 + va div 2 ^ 30 mod 2 ^ 9 * 8)"

abbreviation sv39_pte1 :: "iss \<Rightarrow> int \<Rightarrow> int \<Rightarrow> int" where
  "sv39_pte1 s pte2 va \<equiv> read_pte64 s (pte2 div 2 ^ 10 mod 2 ^ 20 * 2 ^ 12 + va div 2 ^ 21 mod 2 ^ 9 * 8)"

abbreviation sv39_pte0 :: "iss \<Rightarrow> int \<Rightarrow> int \<Rightarrow> int" where
  "sv39_pte0 s pte1 va \<equiv> read_pte64 s (pte1 div 2 ^ 10 mod 2 ^ 20 * 2 ^ 12 + va div 2 ^ 12 mod 2 ^ 9 * 8)"

inductive sv39_walk :: "iss \<Rightarrow> int \<Rightarrow> access \<Rightarrow> int \<Rightarrow> int \<Rightarrow> bool" for s satp ac va where
  gigapage: "sv39_walk s satp ac va (pte2 div 2 ^ 28 mod 2 ^ 2 * 2 ^ 30 + va mod 2 ^ 30)"
    if "pte2 = sv39_pte2 s satp va" "pte_flag pte2 PTE_V_BIT" "pte_leaf pte2"
       "pte2 div 2 ^ 10 mod 2 ^ 18 = 0" "pte_perm_ok s pte2 ac"
| megapage: "sv39_walk s satp ac va (pte1 div 2 ^ 19 mod 2 ^ 11 * 2 ^ 21 + va mod 2 ^ 21)"
    if "pte2 = sv39_pte2 s satp va" "pte_flag pte2 PTE_V_BIT" "\<not> pte_leaf pte2"
       "pte1 = sv39_pte1 s pte2 va" "pte_flag pte1 PTE_V_BIT" "pte_leaf pte1"
       "pte1 div 2 ^ 10 mod 2 ^ 9 = 0" "pte_perm_ok s pte1 ac"
| page: "sv39_walk s satp ac va (pte0 div 2 ^ 10 mod 2 ^ 20 * 2 ^ 12 + va mod 2 ^ 12)"
    if "pte2 = sv39_pte2 s satp va" "pte_flag pte2 PTE_V_BIT" "\<not> pte_leaf pte2"
       "pte1 = sv39_pte1 s pte2 va" "pte_flag pte1 PTE_V_BIT" "\<not> pte_leaf pte1"
       "pte0 = sv39_pte0 s pte1 va" "pte_flag pte0 PTE_V_BIT" "pte_leaf pte0" "pte_perm_ok s pte0 ac"

lemma uxlen_frame:
  assumes "32 \<le> xlen s" "k + n = 32"
  shows "uxlen s (x mod 2 ^ k * 2 ^ n + y mod 2 ^ n) = x mod 2 ^ k * 2 ^ n + y mod 2 ^ n"
proof -
  have "fits (xlen s) (x mod 2 ^ k * 2 ^ n + y mod 2 ^ n)"
    using fits_field_sum [OF fits_mod [of k x] fits_mod [of n y]] assms by (metis fits_mono)
  then show ?thesis by (simp only: uxlen_def uXLEN_take_bit take_bit_fits_id)
qed

lemma translate_sv39_alt:
  fixes s va satp
  assumes x: "32 \<le> xlen s" and pte2_def: "pte2 = sv39_pte2 s satp va"
    and pte1_def: "pte1 = sv39_pte1 s pte2 va" and pte0_def: "pte0 = sv39_pte0 s pte1 va"
  shows "translate_sv39 s va ac satp =
    (if \<not> pte_flag pte2 PTE_V_BIT then page_fault s ac va
     else if pte_leaf pte2 then
       (if pte2 div 2 ^ 10 mod 2 ^ 18 \<noteq> 0 \<or> \<not> pte_perm_ok s pte2 ac then page_fault s ac va
        else (s, Some (pte2 div 2 ^ 28 mod 2 ^ 2 * 2 ^ 30 + va mod 2 ^ 30)))
     else if \<not> pte_flag pte1 PTE_V_BIT then page_fault s ac va
     else if pte_leaf pte1 then
       (if pte1 div 2 ^ 10 mod 2 ^ 9 \<noteq> 0 \<or> \<not> pte_perm_ok s pte1 ac then page_fault s ac va
        else (s, Some (pte1 div 2 ^ 19 mod 2 ^ 11 * 2 ^ 21 + va mod 2 ^ 21)))
     else if \<not> pte_flag pte0 PTE_V_BIT \<or> \<not> pte_leaf pte0 \<or> \<not> pte_perm_ok s pte0 ac then page_fault s ac va
     else (s, Some (pte0 div 2 ^ 10 mod 2 ^ 20 * 2 ^ 12 + va mod 2 ^ 12)))"
proof -
  have a: "read_pte64 s (push_bit 12 (take_bit 20 satp) OR push_bit 3 (take_bit 9 (drop_bit 30 va))) = pte2"
    unfolding pte2_def by (subst field_address) (simp_all add: drop_bit_eq_div)
  have b: "read_pte64 s (push_bit 12 (take_bit 20 (drop_bit 10 pte2)) OR push_bit 3 (take_bit 9 (drop_bit 21 va))) = pte1"
    unfolding pte1_def by (subst field_address) (simp_all add: drop_bit_eq_div)
  have c: "read_pte64 s (push_bit 12 (take_bit 20 (drop_bit 10 pte1)) OR push_bit 3 (take_bit 9 (drop_bit 12 va))) = pte0"
    unfolding pte0_def by (subst field_address) (simp_all add: drop_bit_eq_div)
  have d: "take_bit 18 (take_bit 20 (drop_bit 10 pte2)) = pte2 div 2 ^ 10 mod 2 ^ 18"
    "take_bit 9 (take_bit 20 (drop_bit 10 pte1)) = pte1 div 2 ^ 10 mod 2 ^ 9"
    by (simp_all add: take_bit_eq_mod drop_bit_eq_div mod_mod_cancel)
  have v: "(push_bit 18 z OR push_bit 9 (take_bit 9 (drop_bit 21 va))) OR take_bit 9 (drop_bit 12 va) =
      push_bit 18 z OR take_bit 18 (drop_bit 12 va)" for z
    by (rule bit_eqI) (auto simp: bit_simps)
  have g: "uxlen s (push_bit 12 ((push_bit 18 (drop_bit 18 (take_bit 20 (drop_bit 10 pte2))) OR
        push_bit 9 (take_bit 9 (drop_bit 21 va))) OR take_bit 9 (drop_bit 12 va)) OR take_bit 12 va)
      = pte2 div 2 ^ 28 mod 2 ^ 2 * 2 ^ 30 + va mod 2 ^ 30"
    unfolding v using superpage_frame [of 18 20 "drop_bit 10 pte2" va, unfolded drop_div]
      uxlen_frame [OF x, of 2 30 "pte2 div 2 ^ 28" va] by simp
  have m: "uxlen s (push_bit 12 (push_bit 9 (drop_bit 9 (take_bit 20 (drop_bit 10 pte1))) OR
        take_bit 9 (drop_bit 12 va)) OR take_bit 12 va)
      = pte1 div 2 ^ 19 mod 2 ^ 11 * 2 ^ 21 + va mod 2 ^ 21"
    using superpage_frame [of 9 20 "drop_bit 10 pte1" va, unfolded drop_div]
      uxlen_frame [OF x, of 11 21 "pte1 div 2 ^ 19" va] by simp
  have e: "uxlen s (push_bit 12 (take_bit 20 (drop_bit 10 pte0)) OR take_bit 12 va) =
      pte0 div 2 ^ 10 mod 2 ^ 20 * 2 ^ 12 + va mod 2 ^ 12"
    unfolding frame_offset using uxlen_frame [OF x, of 20 12 "pte0 div 2 ^ 10" va] by (simp add: drop_bit_eq_div)
  show ?thesis
    unfolding translate_sv39_def Let_def or.assoc [symmetric] mask_simps a b c d g m e
    by (cases "pte_leaf pte2"; cases "pte_leaf pte1"; cases "pte_leaf pte0") simp_all
qed


lemma sv39_walk_alt:
  assumes "pte2 = sv39_pte2 s satp va" and "pte1 = sv39_pte1 s pte2 va" and "pte0 = sv39_pte0 s pte1 va"
  shows "sv39_walk s satp ac va pa \<longleftrightarrow> pte_flag pte2 PTE_V_BIT \<and>
    (if pte_leaf pte2 then pte2 div 2 ^ 10 mod 2 ^ 18 = 0 \<and> pte_perm_ok s pte2 ac \<and>
       pa = pte2 div 2 ^ 28 mod 2 ^ 2 * 2 ^ 30 + va mod 2 ^ 30
     else pte_flag pte1 PTE_V_BIT \<and>
     (if pte_leaf pte1 then pte1 div 2 ^ 10 mod 2 ^ 9 = 0 \<and> pte_perm_ok s pte1 ac \<and>
       pa = pte1 div 2 ^ 19 mod 2 ^ 11 * 2 ^ 21 + va mod 2 ^ 21
      else pte_flag pte0 PTE_V_BIT \<and> pte_leaf pte0 \<and> pte_perm_ok s pte0 ac \<and>
       pa = pte0 div 2 ^ 10 mod 2 ^ 20 * 2 ^ 12 + va mod 2 ^ 12))" (is "?walk \<longleftrightarrow> ?spec")
proof
  assume ?walk
  then show ?spec by cases (metis assms)+
next
  assume ?spec
  then show ?walk
    using sv39_walk.gigapage [OF assms(1)] sv39_walk.megapage [OF assms(1) _ _ assms(2)]
      sv39_walk.page [OF assms(1) _ _ assms(2) _ _ assms(3)] by presburger
qed

lemma translate_sv39_cases:
  assumes "32 \<le> xlen s"
  shows "(\<exists>pa. sv39_walk s satp ac va pa \<and> translate_sv39 s va ac satp = (s, Some pa)) \<or>
   (\<nexists>pa. sv39_walk s satp ac va pa) \<and> translate_sv39 s va ac satp = page_fault s ac va"
proof -
  define pte2 where "pte2 = sv39_pte2 s satp va"
  define pte1 where "pte1 = sv39_pte1 s pte2 va"
  define pte0 where "pte0 = sv39_pte0 s pte1 va"
  show ?thesis
    unfolding sv39_walk_alt [OF pte2_def pte1_def pte0_def]
      translate_sv39_alt [OF assms pte2_def pte1_def pte0_def]
    by (cases "pte_flag pte2 PTE_V_BIT"; cases "pte_leaf pte2"; cases "pte_leaf pte1") simp_all
qed

lemma sv39_walk_unique:
  assumes "sv39_walk s satp ac va pa" "sv39_walk s satp ac va pa'"
  shows "pa' = pa"
proof -
  define pte2 where "pte2 = sv39_pte2 s satp va"
  define pte1 where "pte1 = sv39_pte1 s pte2 va"
  define pte0 where "pte0 = sv39_pte0 s pte1 va"
  show ?thesis
    using assms unfolding sv39_walk_alt [OF pte2_def pte1_def pte0_def]
    by (cases "pte_leaf pte2"; cases "pte_leaf pte1") simp_all
qed

section \<open>The translators of the simulator\<close>

lemma wf_xlen_ge: "wf_iss s \<Longrightarrow> 32 \<le> xlen s"
  by (auto simp: wf_iss_def)

lemma fits_frame_32: "k + n = 32 \<Longrightarrow> fits 32 (x mod 2 ^ k * 2 ^ n + y mod 2 ^ n)"
  using fits_field_sum [OF fits_mod [of k x] fits_mod [of n y]] by simp

lemma sv32_walk_fits: "sv32_walk s satp ac va pa \<Longrightarrow> fits 32 pa"
  by (erule sv32_walk.cases) (simp_all only:, simp_all only: fits_frame_32)

lemma sv39_walk_fits: "sv39_walk s satp ac va pa \<Longrightarrow> fits 32 pa"
  by (erule sv39_walk.cases) (simp_all only:, simp_all only: fits_frame_32)

lemma translatorI:
  assumes "\<And>s va ac. (\<exists>pa. tr s va ac = (s, Some pa) \<and> (wf_iss s \<longrightarrow> fits (xlen s) pa)) \<or>
    (\<exists>t. tr s va ac = (trap s (fault_cause ac) t, None))"
  shows "translator tr"
proof
  fix s va ac s' pa
  consider p where "tr s va ac = (s, Some p)" "wf_iss s \<longrightarrow> fits (xlen s) p"
    | t where "tr s va ac = (trap s (fault_cause ac) t, None)" using assms by blast
  note c = this
  show "tr s va ac = (s', Some pa) \<Longrightarrow> s' = s" by (rule c) auto
  show "wf_iss s \<Longrightarrow> tr s va ac = (s', Some pa) \<Longrightarrow> fits (xlen s) pa" by (rule c) auto
  show "tr s va ac = (s', None) \<Longrightarrow> \<exists>t. s' = trap s (fault_cause ac) t" by (rule c) auto
qed

lemma sv32_outcome:
  "(\<exists>pa. translate_sv32 s va ac satp = (s, Some pa) \<and> (wf_iss s \<longrightarrow> fits (xlen s) pa)) \<or>
   (\<exists>t. translate_sv32 s va ac satp = (trap s (fault_cause ac) t, None))"
  using translate_sv32_cases [of s satp ac va] sv32_walk_fits wf_xlen_ge fits_mono
  unfolding page_fault_def by blast

lemma sv39_outcome:
  "(\<exists>pa. translate_sv39 s va ac satp = (s, Some pa) \<and> (wf_iss s \<longrightarrow> fits (xlen s) pa)) \<or>
   (\<exists>t. translate_sv39 s va ac satp = (trap s (fault_cause ac) t, None))"
proof -
  have "fits (xlen s) (uxlen s x)" for x by simp
  moreover have "(\<exists>pa. translate_sv39 s va ac satp = (s, Some (uxlen s pa))) \<or>
      (\<exists>t. translate_sv39 s va ac satp = (trap s (fault_cause ac) t, None))"
    unfolding translate_sv39_def Let_def page_fault_def
    by (intro conjI impI if_split [of "\<lambda>r. (\<exists>pa. r = (s, Some (uxlen s pa))) \<or> (\<exists>t. r = (trap s (fault_cause ac) t, None))", THEN iffD2]; blast)
  ultimately show ?thesis by metis
qed

interpretation sv32: translator "\<lambda>s va ac. translate_sv32 s va ac satp" for satp
  by (rule translatorI) (rule sv32_outcome)

interpretation sv39: translator "\<lambda>s va ac. translate_sv39 s va ac satp" for satp
  by (rule translatorI) (rule sv39_outcome)

interpretation mmu: translator translate
proof (rule translatorI)
  fix s va ac
  have "translate s va ac = (s, Some (uxlen s va)) \<or> translate s va ac = translate_sv32 s va ac (csr_at s CSR_SATP)
    \<or> translate s va ac = translate_sv39 s va ac (csr_at s CSR_SATP)"
    unfolding translate_def Let_def by simp
  moreover have "fits (xlen s) (uxlen s va)" by simp
  ultimately show "(\<exists>pa. translate s va ac = (s, Some pa) \<and> (wf_iss s \<longrightarrow> fits (xlen s) pa)) \<or>
      (\<exists>t. translate s va ac = (trap s (fault_cause ac) t, None))"
    using sv32_outcome [of s va ac "csr_at s CSR_SATP"] sv39_outcome [of s va ac "csr_at s CSR_SATP"]
    by metis
qed

text \<open>
  The \<open>satp\<close> a program can install is 32 bits wide, so on RV64 the mode field reads 0 and every
  access is bare: the three-level walk is never entered.
\<close>

lemma translate_rv64_bare:
  assumes "wf_iss s" "xlen s = 64"
  shows "translate s va ac = (s, Some (uxlen s va))"
proof -
  have "fits 32 (csr_at s CSR_SATP)" using wf_csr_at(2) wf_issD(6) [OF assms(1)] by simp
  then have "drop_bit SATP64_MODE_LO (csr_at s CSR_SATP) = 0" by (simp add: drop_bit_eq_div fits_def)
  then show ?thesis using assms(2) by (simp add: translate_def Let_def)
qed


section \<open>Properties\<close>

text \<open>C3. The two-level Sv32 walk implements its specification: it returns a physical address
  exactly when the page tables map the virtual address for that access, leaving the state
  unchanged, and takes the access's page fault exactly when they do not.\<close>

theorem sv32_refines:
  "(translate_sv32 s va ac satp = (s', Some pa) \<longleftrightarrow> s' = s \<and> sv32_walk s satp ac (u32 va) pa) \<and>
   (translate_sv32 s va ac satp = page_fault s ac (u32 va) \<longleftrightarrow> (\<nexists>pa. sv32_walk s satp ac (u32 va) pa))"
  using translate_sv32_cases [of s satp ac va] sv32_walk_unique
  by (auto simp: page_fault_def)

text \<open>C24. The three-level Sv39 walk implements its specification in the same way.\<close>

theorem sv39_refines:
  assumes "32 \<le> xlen s"
  shows "(translate_sv39 s va ac satp = (s', Some pa) \<longleftrightarrow> s' = s \<and> sv39_walk s satp ac va pa) \<and>
   (translate_sv39 s va ac satp = page_fault s ac va \<longleftrightarrow> (\<nexists>pa. sv39_walk s satp ac va pa))"
  using translate_sv39_cases [OF assms, of satp ac va] sv39_walk_unique by (auto simp: page_fault_def)

theorem sv39_refines_witness:
  "(translate_sv39 (iss_init 4096 64) 0 Load 0 = page_fault (iss_init 4096 64) Load 0) =
     (\<nexists>pa. sv39_walk (iss_init 4096 64) 0 Load 0 pa)"
  using sv39_refines [of "iss_init 4096 64" 0 Load 0] by (simp add: iss_init_def)

text \<open>C23. With paging on, an access of a user or supervisor program succeeds only through a
  valid leaf entry of its own page-table walk (the level-1 entry the address selects under
  \<open>satp\<close>, or the level-0 entry below it) that carries the permission bit of the access and is
  marked for user mode exactly when the program runs in user mode; the physical address has
  that entry's frame and the virtual address's page offset.\<close>

theorem paging_protects:
  assumes "xlen s = 32" "priv_mode s \<noteq> PRIV_M" "bit (csr_at s CSR_SATP) 31"
    and "translate s va ac = (s', Some pa)"
  shows "s' = s \<and>
    (\<exists>pte \<in> {sv32_pte1 s (csr_at s CSR_SATP) (u32 va), sv32_pte0 s (sv32_pte1 s (csr_at s CSR_SATP) (u32 va)) (u32 va)}.
      pte_flag pte PTE_V_BIT \<and> pte_leaf pte \<and> pte_flag pte (access_bit ac) \<and>
      (pte_flag pte PTE_U_BIT \<longleftrightarrow> priv_mode s = PRIV_U) \<and>
      pa div 2 ^ 22 = pte div 2 ^ 20 mod 2 ^ 10 \<and> pa mod 2 ^ 12 = u32 va mod 2 ^ 12)"
proof -
  have "drop_bit SATP_MODE_BIT (csr_at s CSR_SATP) AND 1 \<noteq> 0"
    using assms(3) by (simp add: bit_iff_odd_drop_bit and_one_eq odd_iff_mod_2_eq_one)
  then have t: "translate_sv32 s va ac (csr_at s CSR_SATP) = (s', Some pa)"
    using assms by (simp add: translate_def Let_def)
  then have "sv32_walk s (csr_at s CSR_SATP) ac (u32 va) pa"
    using translate_sv32_cases [of s "csr_at s CSR_SATP" ac va] by (auto simp: page_fault_def)
  then show ?thesis using sv32_walk_permitted sv32.hit [OF t] by blast
qed

text \<open>A user page at virtual address 0, mapped by a superpage entry at \<open>0x1000\<close>.\<close>

definition paged_sample :: iss where
  "paged_sample = (store_mem_byte (csr_write (iss_init (2 ^ 13) 32) CSR_SATP 0x80000001) 0x1000 0x13)
     \<lparr>priv_mode := PRIV_U\<rparr>"

lemma paged_sample_bytes: "load_mem_byte paged_sample (4096 + i) = (if i = 0 then 19 else 0)" if "0 \<le> i" "i < 4"
proof -
  have "i = 0 \<or> i = 1 \<or> i = 2 \<or> i = 3" using that by auto
  then show ?thesis
    by (auto simp: paged_sample_def load_mem_byte_def store_mem_byte_def iss_init_def csr_write_def
        csr_store_def csr_set_def)
qed

lemma paged_sample_state:
  "xlen paged_sample = 32" "priv_mode paged_sample = 0" "csr_at paged_sample CSR_SATP = 0x80000001"
  by (simp_all add: paged_sample_def store_mem_byte_def iss_init_def csr_write_def csr_store_def csr_set_def
      csr_at_def u32_def)

lemma paged_sample_translate: "translate paged_sample 52 Load = (paged_sample, Some 52)"
proof -
  have "read_pte paged_sample 4096 = 19"
    using paged_sample_bytes [of 0] paged_sample_bytes [of 1] paged_sample_bytes [of 2] paged_sample_bytes [of 3]
    by (simp add: read_pte_def)
  then show ?thesis
    by (simp add: translate_def translate_sv32_def paged_sample_state Let_def u32_def pte_flag_def pte_leaf_def
        pte_perm_ok_def)
qed

theorem paging_protects_witness:
  "\<exists>pte \<in> {sv32_pte1 paged_sample 0x80000001 52, sv32_pte0 paged_sample (sv32_pte1 paged_sample 0x80000001 52) 52}.
     pte_flag pte PTE_V_BIT \<and> pte_flag pte PTE_R_BIT \<and> pte_flag pte PTE_U_BIT"
  using paging_protects [OF _ _ _ paged_sample_translate] paged_sample_state
  by (auto simp: bit_iff_odd_drop_bit access_bit_def u32_def)

text \<open>C38. On RV64 no \<open>satp\<close> value selects Sv39, since the register keeps 32 bits: in every state
  of the right shape every access is untranslated.\<close>

theorem rv64_never_translates:
  assumes "wf_iss s" "xlen s = 64"
  shows "translate (csr_write s CSR_SATP v) va ac = (csr_write s CSR_SATP v, Some (uxlen s va))"
proof -
  have "xlen (csr_write s CSR_SATP v) = 64" using assms(2) by (simp add: csr_write_def csr_store_def csr_set_def)
  then show ?thesis
    using translate_rv64_bare [OF wf_csr_write [OF assms(1)], of CSR_SATP v va ac] assms(2) by (simp add: uxlen_def)
qed

theorem rv64_never_translates_witness:
  "translate (csr_write (iss_init (2 ^ 12) 64) CSR_SATP (8 * 2 ^ 60)) 0x1000 Load =
     (csr_write (iss_init (2 ^ 12) 64) CSR_SATP (8 * 2 ^ 60), Some 0x1000)"
  using rv64_never_translates [OF wf_iss_init [of 12 64], of "8 * 2 ^ 60" "0x1000" Load]
  by (simp add: iss_init_def uxlen_def uXLEN_take_bit)

end
