(* ===== verification/Crypto.thy ===== *)
theory Crypto
  imports Fixed_Width
begin

text \<open>
  The scalar-cryptography functions of \<open>sim/tools/iss.py\<close>: the AES tables and round functions
  (\<open>_aes_xt2\<close> to \<open>aes64im\<close>), the SHA-2 functions (\<open>_ror\<close> to \<open>sha512sum1\<close>) and \<open>brev8\<close>.
  The leading underscore of a Python name is dropped. The AES results hold in the theory
  \<open>Crypto_Props\<close>.
\<close>

section \<open>AES tables\<close>

definition AES_SBOX_FWD :: "int list" where
  "AES_SBOX_FWD = [
   0x63, 0x7c, 0x77, 0x7b, 0xf2, 0x6b, 0x6f, 0xc5, 0x30, 0x01, 0x67, 0x2b, 0xfe, 0xd7, 0xab, 0x76,
   0xca, 0x82, 0xc9, 0x7d, 0xfa, 0x59, 0x47, 0xf0, 0xad, 0xd4, 0xa2, 0xaf, 0x9c, 0xa4, 0x72, 0xc0,
   0xb7, 0xfd, 0x93, 0x26, 0x36, 0x3f, 0xf7, 0xcc, 0x34, 0xa5, 0xe5, 0xf1, 0x71, 0xd8, 0x31, 0x15,
   0x04, 0xc7, 0x23, 0xc3, 0x18, 0x96, 0x05, 0x9a, 0x07, 0x12, 0x80, 0xe2, 0xeb, 0x27, 0xb2, 0x75,
   0x09, 0x83, 0x2c, 0x1a, 0x1b, 0x6e, 0x5a, 0xa0, 0x52, 0x3b, 0xd6, 0xb3, 0x29, 0xe3, 0x2f, 0x84,
   0x53, 0xd1, 0x00, 0xed, 0x20, 0xfc, 0xb1, 0x5b, 0x6a, 0xcb, 0xbe, 0x39, 0x4a, 0x4c, 0x58, 0xcf,
   0xd0, 0xef, 0xaa, 0xfb, 0x43, 0x4d, 0x33, 0x85, 0x45, 0xf9, 0x02, 0x7f, 0x50, 0x3c, 0x9f, 0xa8,
   0x51, 0xa3, 0x40, 0x8f, 0x92, 0x9d, 0x38, 0xf5, 0xbc, 0xb6, 0xda, 0x21, 0x10, 0xff, 0xf3, 0xd2,
   0xcd, 0x0c, 0x13, 0xec, 0x5f, 0x97, 0x44, 0x17, 0xc4, 0xa7, 0x7e, 0x3d, 0x64, 0x5d, 0x19, 0x73,
   0x60, 0x81, 0x4f, 0xdc, 0x22, 0x2a, 0x90, 0x88, 0x46, 0xee, 0xb8, 0x14, 0xde, 0x5e, 0x0b, 0xdb,
   0xe0, 0x32, 0x3a, 0x0a, 0x49, 0x06, 0x24, 0x5c, 0xc2, 0xd3, 0xac, 0x62, 0x91, 0x95, 0xe4, 0x79,
   0xe7, 0xc8, 0x37, 0x6d, 0x8d, 0xd5, 0x4e, 0xa9, 0x6c, 0x56, 0xf4, 0xea, 0x65, 0x7a, 0xae, 0x08,
   0xba, 0x78, 0x25, 0x2e, 0x1c, 0xa6, 0xb4, 0xc6, 0xe8, 0xdd, 0x74, 0x1f, 0x4b, 0xbd, 0x8b, 0x8a,
   0x70, 0x3e, 0xb5, 0x66, 0x48, 0x03, 0xf6, 0x0e, 0x61, 0x35, 0x57, 0xb9, 0x86, 0xc1, 0x1d, 0x9e,
   0xe1, 0xf8, 0x98, 0x11, 0x69, 0xd9, 0x8e, 0x94, 0x9b, 0x1e, 0x87, 0xe9, 0xce, 0x55, 0x28, 0xdf,
   0x8c, 0xa1, 0x89, 0x0d, 0xbf, 0xe6, 0x42, 0x68, 0x41, 0x99, 0x2d, 0x0f, 0xb0, 0x54, 0xbb, 0x16]"

definition AES_SBOX_INV :: "int list" where
  "AES_SBOX_INV = [
   0x52, 0x09, 0x6a, 0xd5, 0x30, 0x36, 0xa5, 0x38, 0xbf, 0x40, 0xa3, 0x9e, 0x81, 0xf3, 0xd7, 0xfb,
   0x7c, 0xe3, 0x39, 0x82, 0x9b, 0x2f, 0xff, 0x87, 0x34, 0x8e, 0x43, 0x44, 0xc4, 0xde, 0xe9, 0xcb,
   0x54, 0x7b, 0x94, 0x32, 0xa6, 0xc2, 0x23, 0x3d, 0xee, 0x4c, 0x95, 0x0b, 0x42, 0xfa, 0xc3, 0x4e,
   0x08, 0x2e, 0xa1, 0x66, 0x28, 0xd9, 0x24, 0xb2, 0x76, 0x5b, 0xa2, 0x49, 0x6d, 0x8b, 0xd1, 0x25,
   0x72, 0xf8, 0xf6, 0x64, 0x86, 0x68, 0x98, 0x16, 0xd4, 0xa4, 0x5c, 0xcc, 0x5d, 0x65, 0xb6, 0x92,
   0x6c, 0x70, 0x48, 0x50, 0xfd, 0xed, 0xb9, 0xda, 0x5e, 0x15, 0x46, 0x57, 0xa7, 0x8d, 0x9d, 0x84,
   0x90, 0xd8, 0xab, 0x00, 0x8c, 0xbc, 0xd3, 0x0a, 0xf7, 0xe4, 0x58, 0x05, 0xb8, 0xb3, 0x45, 0x06,
   0xd0, 0x2c, 0x1e, 0x8f, 0xca, 0x3f, 0x0f, 0x02, 0xc1, 0xaf, 0xbd, 0x03, 0x01, 0x13, 0x8a, 0x6b,
   0x3a, 0x91, 0x11, 0x41, 0x4f, 0x67, 0xdc, 0xea, 0x97, 0xf2, 0xcf, 0xce, 0xf0, 0xb4, 0xe6, 0x73,
   0x96, 0xac, 0x74, 0x22, 0xe7, 0xad, 0x35, 0x85, 0xe2, 0xf9, 0x37, 0xe8, 0x1c, 0x75, 0xdf, 0x6e,
   0x47, 0xf1, 0x1a, 0x71, 0x1d, 0x29, 0xc5, 0x89, 0x6f, 0xb7, 0x62, 0x0e, 0xaa, 0x18, 0xbe, 0x1b,
   0xfc, 0x56, 0x3e, 0x4b, 0xc6, 0xd2, 0x79, 0x20, 0x9a, 0xdb, 0xc0, 0xfe, 0x78, 0xcd, 0x5a, 0xf4,
   0x1f, 0xdd, 0xa8, 0x33, 0x88, 0x07, 0xc7, 0x31, 0xb1, 0x12, 0x10, 0x59, 0x27, 0x80, 0xec, 0x5f,
   0x60, 0x51, 0x7f, 0xa9, 0x19, 0xb5, 0x4a, 0x0d, 0x2d, 0xe5, 0x7a, 0x9f, 0x93, 0xc9, 0x9c, 0xef,
   0xa0, 0xe0, 0x3b, 0x4d, 0xae, 0x2a, 0xf5, 0xb0, 0xc8, 0xeb, 0xbb, 0x3c, 0x83, 0x53, 0x99, 0x61,
   0x17, 0x2b, 0x04, 0x7e, 0xba, 0x77, 0xd6, 0x26, 0xe1, 0x69, 0x14, 0x63, 0x55, 0x21, 0x0c, 0x7d]"

definition AES_RCON :: "int list" where
  "AES_RCON = [1, 2, 4, 8, 0x10, 0x20, 0x40, 0x80, 0x1b, 0x36] @ replicate 6 0"

section \<open>AES functions\<close>

definition aes_xt2 :: "int \<Rightarrow> int" where
  "aes_xt2 x = (let x = push_bit 1 x;
                    x = (if x AND 0x100 \<noteq> 0 then x XOR 0x11b else x)
                in x AND 0xff)"

definition aes_xt3 :: "int \<Rightarrow> int" where
  "aes_xt3 x = x XOR aes_xt2 x"

definition aes_mixcolumn_fwd :: "int \<Rightarrow> int" where
  "aes_mixcolumn_fwd x =
     (let s0 = x AND 0xff; s1 = drop_bit 8 x AND 0xff;
          s2 = drop_bit 16 x AND 0xff; s3 = drop_bit 24 x AND 0xff;
          b0 = aes_xt2 s0 XOR aes_xt3 s1 XOR s2 XOR s3;
          b1 = s0 XOR aes_xt2 s1 XOR aes_xt3 s2 XOR s3;
          b2 = s0 XOR s1 XOR aes_xt2 s2 XOR aes_xt3 s3;
          b3 = aes_xt3 s0 XOR s1 XOR s2 XOR aes_xt2 s3
      in push_bit 24 b3 OR push_bit 16 b2 OR push_bit 8 b1 OR b0)"

definition aes_gfmul :: "int \<Rightarrow> int \<Rightarrow> int" where
  "aes_gfmul x y =
     (let r = 0;
          r = (if y AND 1 \<noteq> 0 then r XOR x else r);
          r = (if y AND 2 \<noteq> 0 then r XOR aes_xt2 x else r);
          r = (if y AND 4 \<noteq> 0 then r XOR aes_xt2 (aes_xt2 x) else r);
          r = (if y AND 8 \<noteq> 0 then r XOR aes_xt2 (aes_xt2 (aes_xt2 x)) else r)
      in r)"

definition aes_mixcolumn_inv :: "int \<Rightarrow> int" where
  "aes_mixcolumn_inv x =
     (let s0 = x AND 0xff; s1 = drop_bit 8 x AND 0xff;
          s2 = drop_bit 16 x AND 0xff; s3 = drop_bit 24 x AND 0xff;
          b0 = aes_gfmul s0 0xE XOR aes_gfmul s1 0xB XOR aes_gfmul s2 0xD XOR aes_gfmul s3 0x9;
          b1 = aes_gfmul s0 0x9 XOR aes_gfmul s1 0xE XOR aes_gfmul s2 0xB XOR aes_gfmul s3 0xD;
          b2 = aes_gfmul s0 0xD XOR aes_gfmul s1 0x9 XOR aes_gfmul s2 0xE XOR aes_gfmul s3 0xB;
          b3 = aes_gfmul s0 0xB XOR aes_gfmul s1 0xD XOR aes_gfmul s2 0x9 XOR aes_gfmul s3 0xE
      in push_bit 24 b3 OR push_bit 16 b2 OR push_bit 8 b1 OR b0)"

definition aes_subword_fwd :: "int \<Rightarrow> int" where
  "aes_subword_fwd x =
     push_bit 24 (AES_SBOX_FWD ! nat (drop_bit 24 x AND 0xff)) OR
     push_bit 16 (AES_SBOX_FWD ! nat (drop_bit 16 x AND 0xff)) OR
     push_bit 8 (AES_SBOX_FWD ! nat (drop_bit 8 x AND 0xff)) OR
     AES_SBOX_FWD ! nat (x AND 0xff)"

definition aes_getbyte :: "int \<Rightarrow> nat \<Rightarrow> int" where
  "aes_getbyte x i = drop_bit (8 * i) x AND 0xff"

definition aes_sbox_bytes64 :: "int \<Rightarrow> bool \<Rightarrow> int" where
  "aes_sbox_bytes64 x use_inv =
     (let tbl = (if use_inv then AES_SBOX_INV else AES_SBOX_FWD)
      in foldl (\<lambda>r i. r OR push_bit (8 * i) (tbl ! nat (aes_getbyte x i))) 0 [0..<8])"

definition aes_shiftrows_fwd :: "int \<Rightarrow> int \<Rightarrow> int" where
  "aes_shiftrows_fwd rs2 rs1 =
     (let g = aes_getbyte
      in push_bit 56 (g rs1 3) OR push_bit 48 (g rs2 6) OR push_bit 40 (g rs2 1) OR
         push_bit 32 (g rs1 4) OR push_bit 24 (g rs2 7) OR push_bit 16 (g rs2 2) OR
         push_bit 8 (g rs1 5) OR g rs1 0)"

definition aes_shiftrows_inv :: "int \<Rightarrow> int \<Rightarrow> int" where
  "aes_shiftrows_inv rs2 rs1 =
     (let g = aes_getbyte
      in push_bit 56 (g rs2 3) OR push_bit 48 (g rs2 6) OR push_bit 40 (g rs1 1) OR
         push_bit 32 (g rs1 4) OR push_bit 24 (g rs1 7) OR push_bit 16 (g rs2 2) OR
         push_bit 8 (g rs2 5) OR g rs1 0)"

definition aes64esm :: "int \<Rightarrow> int \<Rightarrow> int" where
  "aes64esm rs1 rs2 =
     (let sr = aes_shiftrows_fwd rs2 rs1; sb = aes_sbox_bytes64 sr False
      in push_bit 32 (aes_mixcolumn_fwd (drop_bit 32 sb AND 0xffffffff)) OR
         aes_mixcolumn_fwd (sb AND 0xffffffff))"

definition aes64es :: "int \<Rightarrow> int \<Rightarrow> int" where
  "aes64es rs1 rs2 = aes_sbox_bytes64 (aes_shiftrows_fwd rs2 rs1) False"

definition aes64dsm :: "int \<Rightarrow> int \<Rightarrow> int" where
  "aes64dsm rs1 rs2 =
     (let sr = aes_shiftrows_inv rs2 rs1; sb = aes_sbox_bytes64 sr True
      in push_bit 32 (aes_mixcolumn_inv (drop_bit 32 sb AND 0xffffffff)) OR
         aes_mixcolumn_inv (sb AND 0xffffffff))"

definition aes64ds :: "int \<Rightarrow> int \<Rightarrow> int" where
  "aes64ds rs1 rs2 = aes_sbox_bytes64 (aes_shiftrows_inv rs2 rs1) True"

definition aes64ks1i :: "int \<Rightarrow> int \<Rightarrow> int" where
  "aes64ks1i rs1 rnum =
     (let tmp1 = drop_bit 32 rs1 AND 0xffffffff;
          rc = AES_RCON ! nat rnum;
          tmp2 = (if rnum = 0xA then tmp1
                  else (drop_bit 8 tmp1 OR push_bit 24 tmp1) AND 0xffffffff);
          tmp3 = aes_subword_fwd tmp2;
          v = (tmp3 XOR rc) AND 0xffffffff
      in push_bit 32 v OR v)"

definition aes64ks2 :: "int \<Rightarrow> int \<Rightarrow> int" where
  "aes64ks2 rs1 rs2 =
     (let w0 = (drop_bit 32 rs1 XOR (rs2 AND 0xffffffff)) AND 0xffffffff;
          w1 = (w0 XOR drop_bit 32 rs2) AND 0xffffffff
      in push_bit 32 w1 OR w0)"

definition aes64im :: "int \<Rightarrow> int" where
  "aes64im rs1 =
     push_bit 32 (aes_mixcolumn_inv (drop_bit 32 rs1 AND 0xffffffff)) OR
     aes_mixcolumn_inv (rs1 AND 0xffffffff)"

section \<open>SHA-2 functions\<close>

definition ror :: "int \<Rightarrow> nat \<Rightarrow> nat \<Rightarrow> int" where
  "ror x n bits = (drop_bit n x OR push_bit (bits - n) x) AND (2 ^ bits - 1)"

definition sha256sig0 :: "int \<Rightarrow> int" where
  "sha256sig0 x = (let x = x AND 0xffffffff
     in (ror x 7 32 XOR ror x 18 32 XOR drop_bit 3 x) AND 0xffffffff)"

definition sha256sig1 :: "int \<Rightarrow> int" where
  "sha256sig1 x = (let x = x AND 0xffffffff
     in (ror x 17 32 XOR ror x 19 32 XOR drop_bit 10 x) AND 0xffffffff)"

definition sha256sum0 :: "int \<Rightarrow> int" where
  "sha256sum0 x = (let x = x AND 0xffffffff
     in (ror x 2 32 XOR ror x 13 32 XOR ror x 22 32) AND 0xffffffff)"

definition sha256sum1 :: "int \<Rightarrow> int" where
  "sha256sum1 x = (let x = x AND 0xffffffff
     in (ror x 6 32 XOR ror x 11 32 XOR ror x 25 32) AND 0xffffffff)"

definition sha512sig0 :: "int \<Rightarrow> int" where
  "sha512sig0 x = (let x = x AND 0xffffffffffffffff
     in (ror x 1 64 XOR ror x 8 64 XOR drop_bit 7 x) AND 0xffffffffffffffff)"

definition sha512sig1 :: "int \<Rightarrow> int" where
  "sha512sig1 x = (let x = x AND 0xffffffffffffffff
     in (ror x 19 64 XOR ror x 61 64 XOR drop_bit 6 x) AND 0xffffffffffffffff)"

definition sha512sum0 :: "int \<Rightarrow> int" where
  "sha512sum0 x = (let x = x AND 0xffffffffffffffff
     in (ror x 28 64 XOR ror x 34 64 XOR ror x 39 64) AND 0xffffffffffffffff)"

definition sha512sum1 :: "int \<Rightarrow> int" where
  "sha512sum1 x = (let x = x AND 0xffffffffffffffff
     in (ror x 14 64 XOR ror x 18 64 XOR ror x 41 64) AND 0xffffffffffffffff)"

section \<open>Bit reversal in bytes\<close>

text \<open>
  \<open>int(f"{byte:08b}"[::-1], 2)\<close>: the formatted byte has binary digits only, so the conversion
  is \<^const>\<open>bin_val\<close> (lemma \<open>int_base2_val\<close>).
\<close>

definition brev8 :: "int \<Rightarrow> nat \<Rightarrow> int" where
  "brev8 x xl =
     foldl (\<lambda>out i. let byte = drop_bit (i * 8) x AND 0xFF; r = bin_val (rev (format_b 8 byte))
                    in out OR push_bit (i * 8) r) 0 [0..<xl div 8]"

end
