(* ===== verification/Iss_Alu.thy ===== *)
theory Iss_Alu
  imports Crypto Iss_State
begin

text \<open>
  The integer arithmetic of \<open>ISS.step\<close>: the field extraction at its start and, for each of the
  four ALU opcodes (OP, OP-32, OP-IMM, OP-IMM-32), the value its branch passes to \<open>self.wr\<close>.
  Every branch of those four cases ends by writing that value to \<open>rd\<close> and advancing the
  program counter, so the branch is a function from the operands to a value or an exception;
  \<open>Iss_Step\<close> does the write. Tests are in the order of the source's \<open>if\<close>/\<open>elif\<close> chains.
\<close>

section \<open>Instruction fields\<close>

definition dec_op :: "int \<Rightarrow> int" where "dec_op word = word AND 0x7F"
definition dec_rd :: "int \<Rightarrow> int" where "dec_rd word = drop_bit 7 word AND 0x1F"
definition dec_f3 :: "int \<Rightarrow> int" where "dec_f3 word = drop_bit 12 word AND 0x7"
definition dec_rs1 :: "int \<Rightarrow> int" where "dec_rs1 word = drop_bit 15 word AND 0x1F"
definition dec_rs2 :: "int \<Rightarrow> int" where "dec_rs2 word = drop_bit 20 word AND 0x1F"
definition dec_f7 :: "int \<Rightarrow> int" where "dec_f7 word = drop_bit 25 word AND 0x7F"
definition dec_f6 :: "int \<Rightarrow> int" where "dec_f6 word = drop_bit 26 word AND 0x3F"
definition dec_imm12 :: "int \<Rightarrow> int" where "dec_imm12 word = drop_bit 20 word AND 0xFFF"
definition dec_imm_i :: "int \<Rightarrow> int" where "dec_imm_i word = sext (drop_bit 20 word AND 0xFFF) 12"

section \<open>OP: register-register operations\<close>

definition op_r_muldiv :: "nat \<Rightarrow> int \<Rightarrow> int \<Rightarrow> int \<Rightarrow> int" where
  "op_r_muldiv xl f3 A B =
     (if f3 = 0b000 then uXLEN (A * B) xl
      else if f3 = 0b001 then uXLEN (drop_bit xl (sXLEN A xl * sXLEN B xl)) xl
      else if f3 = 0b010 then uXLEN (drop_bit xl (sXLEN A xl * uXLEN B xl)) xl
      else if f3 = 0b011 then drop_bit xl (uXLEN A xl * uXLEN B xl)
      else if f3 = 0b100 then
        (if B = 0 then uXLEN (-1) xl
         else if sXLEN A xl = - (2 ^ (xl - 1)) \<and> sXLEN B xl = -1 then A
         else let q = \<bar>sXLEN A xl\<bar> div \<bar>sXLEN B xl\<bar>;
                  q = (if (sXLEN A xl < 0) \<noteq> (sXLEN B xl < 0) then - q else q)
              in uXLEN q xl)
      else if f3 = 0b101 then (if B = 0 then uXLEN (-1) xl else uXLEN A xl div uXLEN B xl)
      else if f3 = 0b110 then
        (if B = 0 then A
         else if sXLEN A xl = - (2 ^ (xl - 1)) \<and> sXLEN B xl = -1 then 0
         else let r = \<bar>sXLEN A xl\<bar> mod \<bar>sXLEN B xl\<bar>;
                  r = (if sXLEN A xl < 0 then - r else r)
              in uXLEN r xl)
      else (if B = 0 then A else uXLEN A xl mod uXLEN B xl))"

definition rotate_left :: "nat \<Rightarrow> int \<Rightarrow> nat \<Rightarrow> int" where
  \<comment> \<open>\<open>((a << sh) | (a >> (xl - sh))) if sh else a\<close>\<close>
  "rotate_left xl a sh = (if sh \<noteq> 0 then push_bit sh a OR drop_bit (xl - sh) a else a)"

definition rotate_right :: "nat \<Rightarrow> int \<Rightarrow> nat \<Rightarrow> int" where
  \<comment> \<open>\<open>((a >> sh) | (a << (xl - sh))) if sh else a\<close>\<close>
  "rotate_right xl a sh = (if sh \<noteq> 0 then drop_bit sh a OR push_bit (xl - sh) a else a)"

definition clmul_loop :: "nat \<Rightarrow> int \<Rightarrow> int \<Rightarrow> int" where
  "clmul_loop xl A B =
     foldl (\<lambda>res i. if drop_bit i B AND 1 \<noteq> 0 then res XOR push_bit i A else res) 0 [0..<xl]"

definition clmulh_loop :: "nat \<Rightarrow> int \<Rightarrow> int \<Rightarrow> int" where
  "clmulh_loop xl A B =
     foldl (\<lambda>res i. if drop_bit i B AND 1 \<noteq> 0 then res XOR drop_bit (xl - i) A else res) 0
       [1..<xl]"

definition xperm_loop :: "nat \<Rightarrow> nat \<Rightarrow> int \<Rightarrow> int \<Rightarrow> int \<Rightarrow> int" where
  \<comment> \<open>\<open>xperm4\<close> with width 4 and mask \<open>0xF\<close>, \<open>xperm8\<close> with width 8 and mask \<open>0xFF\<close>\<close>
  "xperm_loop xl w m A B =
     foldl (\<lambda>res i. let idx = drop_bit (w * i) B AND m
              in if idx < int (xl div w)
                 then res OR push_bit (w * i) (drop_bit (w * nat idx) A AND m) else res) 0
       [0..<xl div w]"

definition op_r_ext :: "nat \<Rightarrow> int \<Rightarrow> int \<Rightarrow> int \<Rightarrow> int \<Rightarrow> int option" where
  \<comment> \<open>the bit-manipulation and cryptography tests; \<open>None\<close> falls through to the base table\<close>
  "op_r_ext xl f7 f3 A B =
     (let amt = nat (B AND (int xl - 1)) in
      if f7 = 0b0100000 \<and> f3 = 0b111 then Some (A AND NOT B)
      else if f7 = 0b0100000 \<and> f3 = 0b110 then Some (A OR NOT B)
      else if f7 = 0b0100000 \<and> f3 = 0b100 then Some (NOT (A XOR B))
      else if f7 = 0b0000101 \<and> f3 = 0b100 then Some (if sXLEN A xl < sXLEN B xl then A else B)
      else if f7 = 0b0000101 \<and> f3 = 0b101 then Some (if uXLEN A xl < uXLEN B xl then A else B)
      else if f7 = 0b0000101 \<and> f3 = 0b110 then Some (if sXLEN A xl > sXLEN B xl then A else B)
      else if f7 = 0b0000101 \<and> f3 = 0b111 then Some (if uXLEN A xl > uXLEN B xl then A else B)
      else if f7 = 0b0110000 \<and> f3 = 0b001 then Some (rotate_left xl (uXLEN A xl) amt)
      else if f7 = 0b0110000 \<and> f3 = 0b101 then Some (rotate_right xl (uXLEN A xl) amt)
      else if f7 = 0b0010000 \<and> f3 = 0b010 then Some (push_bit 1 A + B)
      else if f7 = 0b0010000 \<and> f3 = 0b100 then Some (push_bit 2 A + B)
      else if f7 = 0b0010000 \<and> f3 = 0b110 then Some (push_bit 3 A + B)
      else if f7 = 0b0100100 \<and> f3 = 0b001 then Some (A AND NOT (push_bit amt 1))
      else if f7 = 0b0100100 \<and> f3 = 0b101 then Some (drop_bit amt A AND 1)
      else if f7 = 0b0110100 \<and> f3 = 0b001 then Some (A XOR push_bit amt 1)
      else if f7 = 0b0010100 \<and> f3 = 0b001 then Some (A OR push_bit amt 1)
      else if f7 = 0b0000101 \<and> f3 = 0b001 then Some (uXLEN (clmul_loop xl A B) xl)
      else if f7 = 0b0000101 \<and> f3 = 0b011 then Some (uXLEN (clmulh_loop xl A B) xl)
      else if f7 = 0b0000100 \<and> f3 = 0b100 then
        (let half = xl div 2 in
         Some (uXLEN (push_bit half (B AND (2 ^ half - 1)) OR (A AND (2 ^ half - 1))) xl))
      else if f7 = 0b0000100 \<and> f3 = 0b111 then Some (push_bit 8 (B AND 0xFF) OR (A AND 0xFF))
      else if f7 = 0b0010100 \<and> f3 = 0b010 then Some (xperm_loop xl 4 0xF A B)
      else if f7 = 0b0010100 \<and> f3 = 0b100 then Some (xperm_loop xl 8 0xFF A B)
      else if f7 = 0b0011011 \<and> f3 = 0b000 then Some (aes64esm A B)
      else if f7 = 0b0011001 \<and> f3 = 0b000 then Some (aes64es A B)
      else if f7 = 0b0011111 \<and> f3 = 0b000 then Some (aes64dsm A B)
      else if f7 = 0b0011101 \<and> f3 = 0b000 then Some (aes64ds A B)
      else if f7 = 0b0111111 \<and> f3 = 0b000 then Some (aes64ks2 A B)
      else None)"

definition op_r_base :: "nat \<Rightarrow> int \<Rightarrow> int \<Rightarrow> int \<Rightarrow> int \<Rightarrow> int result" where
  "op_r_base xl f7 f3 A B =
     (let amt = nat (B AND (int xl - 1)) in
      if f3 = 0 \<and> f7 = 0 then Inr (uXLEN (A + B) xl)
      else if f3 = 0 \<and> f7 = 0b0100000 then Inr (uXLEN (A - B) xl)
      else if f3 = 1 then Inr (uXLEN (push_bit amt A) xl)
      else if f3 = 2 then Inr (if sXLEN A xl < sXLEN B xl then 1 else 0)
      else if f3 = 3 then Inr (if uXLEN A xl < uXLEN B xl then 1 else 0)
      else if f3 = 4 then Inr (uXLEN (A XOR B) xl)
      else if f3 = 5 \<and> f7 = 0 then Inr (drop_bit amt (uXLEN A xl))
      else if f3 = 5 \<and> f7 = 0b0100000 then Inr (uXLEN (drop_bit amt (sXLEN A xl)) xl)
      else if f3 = 6 then Inr (uXLEN (A OR B) xl)
      else if f3 = 7 then Inr (uXLEN (A AND B) xl)
      else Inl ValueError)"

definition op_r_result :: "nat \<Rightarrow> int \<Rightarrow> int \<Rightarrow> int \<Rightarrow> int \<Rightarrow> int result" where
  "op_r_result xl f7 f3 A B =
     (if f7 = 0b0000001 then Inr (op_r_muldiv xl f3 A B)
      else case op_r_ext xl f7 f3 A B of Some v \<Rightarrow> Inr v | None \<Rightarrow> op_r_base xl f7 f3 A B)"

section \<open>OP-32: word operations\<close>

definition op_32_muldiv :: "int \<Rightarrow> int \<Rightarrow> int \<Rightarrow> int" where
  "op_32_muldiv f3 A B =
     (if f3 = 0b000 then u32 (A * B)
      else if f3 = 0b100 then
        (if u32 B = 0 then 0xFFFFFFFF
         else if s32 A = -2147483648 \<and> s32 B = -1 then u32 A
         else let q = \<bar>s32 A\<bar> div \<bar>s32 B\<bar>;
                  q = (if (s32 A < 0) \<noteq> (s32 B < 0) then - q else q)
              in u32 q)
      else if f3 = 0b101 then (if u32 B = 0 then 0xFFFFFFFF else u32 A div u32 B)
      else if f3 = 0b110 then
        (if u32 B = 0 then u32 A
         else if s32 A = -2147483648 \<and> s32 B = -1 then 0
         else let r = \<bar>s32 A\<bar> mod \<bar>s32 B\<bar>;
                  r = (if s32 A < 0 then - r else r)
              in u32 r)
      else (if u32 B = 0 then u32 A else u32 A mod u32 B))"

definition op_32_result :: "int \<Rightarrow> int \<Rightarrow> int \<Rightarrow> int \<Rightarrow> int result" where
  \<comment> \<open>the value passed to \<open>self.wr\<close>: \<open>s32(res32)\<close>, or the direct one of the early returns\<close>
  "op_32_result f7 f3 A B =
     (let amt = nat (B AND 0x1F) in
      if f7 = 0b0000001 then Inr (s32 (op_32_muldiv f3 A B))
      else if f3 = 0 \<and> f7 = 0 then Inr (s32 (u32 (A + B)))
      else if f3 = 0 \<and> f7 = 0b0100000 then Inr (s32 (u32 (A - B)))
      else if f3 = 1 then Inr (s32 (u32 (push_bit amt (u32 A))))
      else if f3 = 5 \<and> f7 = 0 then Inr (s32 (drop_bit amt (u32 A)))
      else if f3 = 5 \<and> f7 = 0b0100000 then Inr (s32 (u32 (drop_bit amt (s32 A))))
      else if f7 = 0b0110000 \<and> f3 = 0b001 then
        Inr (s32 (if amt \<noteq> 0 then (push_bit amt (u32 A) OR drop_bit (32 - amt) (u32 A))
                                      AND 0xFFFFFFFF else u32 A))
      else if f7 = 0b0110000 \<and> f3 = 0b101 then
        Inr (s32 (if amt \<noteq> 0 then (drop_bit amt (u32 A) OR push_bit (32 - amt) (u32 A))
                                      AND 0xFFFFFFFF else u32 A))
      else if f7 = 0b0000100 \<and> f3 = 0b000 then Inr (u32 A + B)
      else if f7 = 0b0010000 \<and> f3 = 0b010 then Inr (push_bit 1 (u32 A) + B)
      else if f7 = 0b0010000 \<and> f3 = 0b100 then Inr (push_bit 2 (u32 A) + B)
      else if f7 = 0b0010000 \<and> f3 = 0b110 then Inr (push_bit 3 (u32 A) + B)
      else if f7 = 0b0000100 \<and> f3 = 0b100 then
        Inr (sext (push_bit 16 (B AND 0xFFFF) OR (A AND 0xFFFF)) 32)
      else Inl ValueError)"

section \<open>OP-IMM: register-immediate operations\<close>

fun clz_loop :: "int \<Rightarrow> nat \<Rightarrow> int \<Rightarrow> int" where
  \<comment> \<open>\<open>for i in range(n - 1, -1, -1): if (A >> i) & 1: break; count += 1\<close>\<close>
  "clz_loop A 0 count = count"
| "clz_loop A (Suc i) count =
     (if drop_bit i A AND 1 \<noteq> 0 then count else clz_loop A i (count + 1))"

definition ctz_loop :: "int \<Rightarrow> nat \<Rightarrow> int" where
  "ctz_loop A n =
     fst (foldl (\<lambda>(count, done) i.
            if drop_bit i A AND 1 = 0 \<and> \<not> done then (count + 1, done) else (count, True))
          (0, False) [0..<n])"

definition orc_b :: "nat \<Rightarrow> int \<Rightarrow> int" where
  "orc_b xl a =
     foldl (\<lambda>out i. let byte = drop_bit (i * 8) a AND 0xFF
              in out OR push_bit (i * 8) (if byte \<noteq> 0 then 0xFF else 0x00)) 0 [0..<xl div 8]"

definition rev8 :: "nat \<Rightarrow> int \<Rightarrow> int" where
  "rev8 xl a =
     (let nbytes = xl div 8
      in foldl (\<lambda>out i. out OR push_bit ((nbytes - 1 - i) * 8) (drop_bit (i * 8) a AND 0xFF)) 0
           [0..<nbytes])"

definition sha_fn :: "int \<Rightarrow> (int \<Rightarrow> int) option" where
  "sha_fn rs2_c =
     (if rs2_c = 0 then Some sha256sum0 else if rs2_c = 1 then Some sha256sum1
      else if rs2_c = 2 then Some sha256sig0 else if rs2_c = 3 then Some sha256sig1
      else if rs2_c = 4 then Some sha512sum0 else if rs2_c = 5 then Some sha512sum1
      else if rs2_c = 6 then Some sha512sig0 else if rs2_c = 7 then Some sha512sig1
      else None)"

definition op_imm_ext :: "nat \<Rightarrow> int \<Rightarrow> int \<Rightarrow> int result option" where
  \<comment> \<open>the tests of the branch that end in an early return; \<open>None\<close> falls through\<close>
  "op_imm_ext xl word A =
     (let f3 = dec_f3 word; f6 = dec_f6 word; imm12 = dec_imm12 word;
          sh = nat (imm12 AND (int xl - 1)); rs2_c = drop_bit 20 word AND 0x1F in
      if (f3 = 1 \<or> f3 = 5) \<and> f6 = 0b010010 then
        Some (Inr (if f3 = 1 then A AND NOT (push_bit sh 1) else drop_bit sh A AND 1))
      else if f3 = 1 \<and> f6 = 0b011010 then Some (Inr (A XOR push_bit sh 1))
      else if f3 = 1 \<and> f6 = 0b001010 then Some (Inr (A OR push_bit sh 1))
      else if f3 = 1 \<and> f6 = 0b011000 \<and> imm12 AND 0x1F = 0b00000 then
        Some (Inr (clz_loop A xl 0))
      else if f3 = 1 \<and> f6 = 0b011000 \<and> imm12 AND 0x1F = 0b00001 then
        Some (Inr (ctz_loop A xl))
      else if f3 = 1 \<and> f6 = 0b011000 \<and> imm12 AND 0x1F = 0b00010 then
        Some (Inr (py_count (py_bin (uXLEN A xl)) CHR ''1''))
      else if f3 = 1 \<and> f6 = 0b011000 \<and> imm12 AND 0x1F = 0b00100 then
        Some (Inr (sext (A AND 0xFF) 8))
      else if f3 = 1 \<and> f6 = 0b011000 \<and> imm12 AND 0x1F = 0b00101 then
        Some (Inr (sext (A AND 0xFFFF) 16))
      else if f3 = 5 \<and> f6 = 0b011000 then Some (Inr (rotate_right xl (uXLEN A xl) sh))
      else if f3 = 5 \<and> imm12 = 0x287 then Some (Inr (orc_b xl (uXLEN A xl)))
      else if f3 = 5 \<and> imm12 = (if xl = 32 then 0x698 else 0x6B8) then
        Some (Inr (rev8 xl (uXLEN A xl)))
      else if f3 = 5 \<and> imm12 = 0x687 then Some (Inr (brev8 (uXLEN A xl) xl))
      else if f3 = 1 \<and> f6 = 0b000100 then
        Some (case sha_fn rs2_c of None \<Rightarrow> Inl ValueError
              | Some f \<Rightarrow> let res = f A in Inr (if rs2_c < 4 then sext res 32 else res))
      else if f3 = 1 \<and> f6 = 0b001100 then
        Some (Inr (if rs2_c = 0 then aes64im A else aes64ks1i A (rs2_c AND 0xF)))
      else None)"

definition op_imm_base :: "nat \<Rightarrow> int \<Rightarrow> int \<Rightarrow> int result" where
  "op_imm_base xl word A =
     (let f3 = dec_f3 word; f6 = dec_f6 word; f7 = dec_f7 word; imm_i = dec_imm_i word in
      if f3 = 1 \<or> f3 = 5 then
        (let (shamt, is_alt) =
               (if xl \<ge> 64 then (nat (drop_bit 20 word AND 0x3F), f6 = 0b010000)
                else (nat (drop_bit 20 word AND 0x1F), f7 = 0b0100000))
         in Inr (if f3 = 1 then uXLEN (push_bit shamt A) xl
                 else if is_alt then uXLEN (drop_bit shamt (sXLEN A xl)) xl
                 else drop_bit shamt (uXLEN A xl)))
      else if f3 = 0 then Inr (uXLEN (A + imm_i) xl)
      else if f3 = 2 then Inr (if sXLEN A xl < imm_i then 1 else 0)
      else if f3 = 3 then Inr (if uXLEN A xl < uXLEN imm_i xl then 1 else 0)
      else if f3 = 4 then Inr (uXLEN (A XOR uXLEN imm_i xl) xl)
      else if f3 = 6 then Inr (uXLEN (A OR uXLEN imm_i xl) xl)
      else if f3 = 7 then Inr (uXLEN (A AND uXLEN imm_i xl) xl)
      else Inl ValueError)"

definition op_imm_result :: "nat \<Rightarrow> int \<Rightarrow> int \<Rightarrow> int result" where
  "op_imm_result xl word A =
     (case op_imm_ext xl word A of Some r \<Rightarrow> r | None \<Rightarrow> op_imm_base xl word A)"

section \<open>OP-IMM-32: word operations with an immediate\<close>

definition op_imm_32_result :: "int \<Rightarrow> int \<Rightarrow> int result" where
  "op_imm_32_result word A =
     (let f3 = dec_f3 word; f7 = dec_f7 word; rs2 = dec_rs2 word; imm_i = dec_imm_i word;
          shamt = nat (drop_bit 20 word AND 0x1F) in
      if f3 = 1 \<and> f7 = 0b0110000 \<and> rs2 = 0b00000 then Inr (clz_loop A 32 0)
      else if f3 = 1 \<and> f7 = 0b0110000 \<and> rs2 = 0b00001 then Inr (ctz_loop (u32 A) 32)
      else if f3 = 1 \<and> f7 = 0b0110000 \<and> rs2 = 0b00010 then
        Inr (py_count (py_bin (u32 A)) CHR ''1'')
      else if f3 = 5 \<and> f7 = 0b0110000 then
        Inr (s32 (if shamt \<noteq> 0
                  then (drop_bit shamt (u32 A) OR push_bit (32 - shamt) (u32 A)) AND 0xFFFFFFFF
                  else u32 A))
      else if f3 = 1 \<and> drop_bit 26 word AND 0x3F = 0b000010 then
        Inr (push_bit (nat (drop_bit 20 word AND 0x3F)) (u32 A))
      else if f3 = 1 \<or> f3 = 5 then
        Inr (s32 (if f3 = 1 then u32 (push_bit shamt (u32 A))
                  else if f7 = 0b0100000 then u32 (drop_bit shamt (s32 A))
                  else drop_bit shamt (u32 A)))
      else if f3 = 0 then Inr (s32 (u32 (A + imm_i)))
      else Inl ValueError)"

end
