(* ===== verification/Iss_Step.thy ===== *)
theory Iss_Step
  imports Float32 Mmu Iss_Alu
begin

text \<open>
  \<open>ISS.step\<close> of \<open>sim/tools/iss.py\<close>: one definition per opcode case, and \<open>step\<close>, which decodes
  the opcode and dispatches in the source's order. A step returns the new state or the
  exception it raises. In every case that raises, the source has not yet changed the object, so
  an exception carries no state.
\<close>

section \<open>Operands\<close>

definition reg_A :: "iss \<Rightarrow> int \<Rightarrow> int" where
  "reg_A s word = regs s ! nat (dec_rs1 word)"

definition reg_B :: "iss \<Rightarrow> int \<Rightarrow> int" where
  "reg_B s word = regs s ! nat (dec_rs2 word)"

definition next_pc :: "iss \<Rightarrow> int" where
  "next_pc s = pc s + 4"

definition wr_next :: "iss \<Rightarrow> int \<Rightarrow> int \<Rightarrow> iss" where
  \<comment> \<open>\<open>self.wr(rd, val); self.pc = next_pc\<close>\<close>
  "wr_next s rd val = (wr s rd val)\<lparr>pc := next_pc s\<rparr>"

section \<open>Arithmetic\<close>

definition step_op :: "iss \<Rightarrow> int \<Rightarrow> iss result" where
  "step_op s word =
     rbind (op_r_result (xlen s) (dec_f7 word) (dec_f3 word) (reg_A s word) (reg_B s word))
       (\<lambda>res. Inr (wr_next s (dec_rd word) res))"

definition step_op_32 :: "iss \<Rightarrow> int \<Rightarrow> iss result" where
  "step_op_32 s word =
     rbind (op_32_result (dec_f7 word) (dec_f3 word) (reg_A s word) (reg_B s word))
       (\<lambda>res. Inr (wr_next s (dec_rd word) res))"

definition step_op_imm :: "iss \<Rightarrow> int \<Rightarrow> iss result" where
  "step_op_imm s word =
     rbind (op_imm_result (xlen s) word (reg_A s word))
       (\<lambda>res. Inr (wr_next s (dec_rd word) res))"

definition step_op_imm_32 :: "iss \<Rightarrow> int \<Rightarrow> iss result" where
  "step_op_imm_32 s word =
     rbind (op_imm_32_result word (reg_A s word))
       (\<lambda>res. Inr (wr_next s (dec_rd word) res))"

section \<open>Memory\<close>

definition load_half :: "iss \<Rightarrow> int \<Rightarrow> int" where
  "load_half s addr = load_mem_byte s addr OR push_bit 8 (load_mem_byte s (addr + 1))"

definition load_word :: "iss \<Rightarrow> int \<Rightarrow> int" where
  "load_word s addr =
     load_mem_byte s addr OR push_bit 8 (load_mem_byte s (addr + 1)) OR
     push_bit 16 (load_mem_byte s (addr + 2)) OR push_bit 24 (load_mem_byte s (addr + 3))"

definition load_double :: "iss \<Rightarrow> int \<Rightarrow> int" where
  "load_double s addr =
     foldl (\<lambda>v i. v OR push_bit (8 * i) (load_mem_byte s (addr + int i))) 0 [0..<8]"

definition store_bytes :: "iss \<Rightarrow> int \<Rightarrow> int \<Rightarrow> nat \<Rightarrow> iss" where
  \<comment> \<open>\<open>for i in range(n): self.store_mem_byte(addr + i, v >> (8 * i))\<close>\<close>
  "store_bytes s addr v n =
     foldl (\<lambda>s i. store_mem_byte s (addr + int i) (drop_bit (8 * i) v)) s [0..<n]"

definition load_value :: "iss \<Rightarrow> int \<Rightarrow> int \<Rightarrow> int result" where
  "load_value s addr f3 =
     (if f3 = 0 then
        (let v = load_mem_byte s addr in Inr (s32 (v OR (if v AND 0x80 \<noteq> 0 then 0xFFFFFF00 else 0))))
      else if f3 = 1 then
        (let v = load_half s addr in Inr (s32 (v OR (if v AND 0x8000 \<noteq> 0 then 0xFFFF0000 else 0))))
      else if f3 = 2 then Inr (s32 (load_word s addr))
      else if f3 = 4 then Inr (load_mem_byte s addr)
      else if f3 = 5 then Inr (load_half s addr)
      else if f3 = 3 then Inr (load_double s addr)
      else if f3 = 6 then Inr (load_word s addr)
      else Inl ValueError)"

definition step_load :: "iss \<Rightarrow> int \<Rightarrow> iss result" where
  "step_load s word =
     (case translate s (uxlen s (reg_A s word + dec_imm_i word)) Load of
        (s', None) \<Rightarrow> Inr s'
      | (s', Some addr) \<Rightarrow>
          rbind (load_value s' addr (dec_f3 word)) (\<lambda>res. Inr (wr_next s' (dec_rd word) res)))"

definition dec_imm_s :: "int \<Rightarrow> int" where
  "dec_imm_s word = sext (push_bit 5 (drop_bit 25 word) OR (drop_bit 7 word AND 0x1F)) 12"

definition store_value :: "iss \<Rightarrow> int \<Rightarrow> int \<Rightarrow> int \<Rightarrow> iss result" where
  "store_value s addr f3 B =
     (if f3 = 0 then Inr (store_mem_byte s addr B)
      else if f3 = 1 then Inr (store_mem_byte (store_mem_byte s addr B) (addr + 1) (drop_bit 8 B))
      else if f3 = 2 then Inr (store_bytes s addr B 4)
      else if f3 = 3 then Inr (store_bytes s addr B 8)
      else Inl ValueError)"

definition step_store :: "iss \<Rightarrow> int \<Rightarrow> iss result" where
  "step_store s word =
     (case translate s (uxlen s (reg_A s word + dec_imm_s word)) Store of
        (s', None) \<Rightarrow> Inr s'
      | (s', Some addr) \<Rightarrow>
          rbind (store_value s' addr (dec_f3 word) (reg_B s word))
            (\<lambda>s''. Inr (s''\<lparr>pc := next_pc s\<rparr>)))"

section \<open>Control transfer\<close>

definition dec_imm_b :: "int \<Rightarrow> int" where
  "dec_imm_b word =
     (let b12 = drop_bit 31 word AND 1; b11 = drop_bit 7 word AND 1;
          b10_5 = drop_bit 25 word AND 0x3F; b4_1 = drop_bit 8 word AND 0xF
      in sext (push_bit 12 b12 OR push_bit 11 b11 OR push_bit 5 b10_5 OR push_bit 1 b4_1) 13)"

definition branch_taken :: "iss \<Rightarrow> int \<Rightarrow> int \<Rightarrow> int \<Rightarrow> bool" where
  "branch_taken s f3 A B =
     (if f3 = 0 then sxlen s A = sxlen s B
      else if f3 = 1 then sxlen s A \<noteq> sxlen s B
      else if f3 = 2 then sxlen s A \<le> sxlen s B
      else if f3 = 3 then sxlen s A > sxlen s B
      else if f3 = 4 then sxlen s A < sxlen s B
      else if f3 = 5 then sxlen s A \<ge> sxlen s B
      else if f3 = 6 then uxlen s A < uxlen s B
      else uxlen s A \<ge> uxlen s B)"

definition step_branch :: "iss \<Rightarrow> int \<Rightarrow> iss result" where
  "step_branch s word =
     Inr (s\<lparr>pc := (if branch_taken s (dec_f3 word) (reg_A s word) (reg_B s word)
                   then uxlen s (pc s + dec_imm_b word) else next_pc s)\<rparr>)"

definition dec_imm_j :: "int \<Rightarrow> int" where
  "dec_imm_j word =
     (let b20 = drop_bit 31 word AND 1; b19_12 = drop_bit 12 word AND 0xFF;
          b11 = drop_bit 20 word AND 1; b10_1 = drop_bit 21 word AND 0x3FF
      in sext (push_bit 20 b20 OR push_bit 12 b19_12 OR push_bit 11 b11 OR push_bit 1 b10_1) 21)"

definition step_jal :: "iss \<Rightarrow> int \<Rightarrow> iss result" where
  "step_jal s word =
     Inr ((wr s (dec_rd word) (next_pc s))\<lparr>pc := uxlen s (pc s + dec_imm_j word)\<rparr>)"

definition step_jalr :: "iss \<Rightarrow> int \<Rightarrow> iss result" where
  "step_jalr s word =
     (let target = uxlen s ((reg_A s word + dec_imm_i word) AND NOT 1)
      in Inr ((wr s (dec_rd word) (next_pc s))\<lparr>pc := target\<rparr>))"

definition step_lui :: "iss \<Rightarrow> int \<Rightarrow> iss result" where
  "step_lui s word = Inr (wr_next s (dec_rd word) (s32 (word AND 0xFFFFF000)))"

definition step_auipc :: "iss \<Rightarrow> int \<Rightarrow> iss result" where
  "step_auipc s word =
     Inr (wr_next s (dec_rd word) (uxlen s (pc s + s32 (word AND 0xFFFFF000))))"

section \<open>SYSTEM\<close>

definition step_priv :: "iss \<Rightarrow> int \<Rightarrow> iss result" where
  \<comment> \<open>funct3 = 000: sfence.vma, ecall, ebreak, mret, sret\<close>
  "step_priv s word =
     (let csr_addr = drop_bit 20 word AND 0xFFF in
      if dec_f7 word = 0b0001001 then
        (if priv_mode s = PRIV_U then Inr (trap s MCAUSE_ILLEGAL_INSTRUCTION 0)
         else Inr (s\<lparr>pc := next_pc s\<rparr>))
      else if csr_addr = 0x000 then
        (if priv_mode s = PRIV_M then Inr (trap s MCAUSE_ECALL_FROM_M 0)
         else if priv_mode s = PRIV_S then Inr (trap s MCAUSE_ECALL_FROM_S 0)
         else if priv_mode s = PRIV_U then Inr (trap s MCAUSE_ECALL_FROM_U 0)
         else Inl KeyError)
      else if csr_addr = 0x001 then Inr (trap s MCAUSE_BREAKPOINT 0)
      else if csr_addr = 0x302 then
        (if priv_mode s \<noteq> PRIV_M then Inr (trap s MCAUSE_ILLEGAL_INSTRUCTION 0) else Inr (mret s))
      else if csr_addr = 0x102 then
        (if priv_mode s = PRIV_U then Inr (trap s MCAUSE_ILLEGAL_INSTRUCTION 0) else Inr (sret s))
      else Inr (trap s MCAUSE_ILLEGAL_INSTRUCTION 0))"

definition step_csr :: "iss \<Rightarrow> int \<Rightarrow> iss result" where
  "step_csr s word =
     (let csr_addr = drop_bit 20 word AND 0xFFF; f3 = dec_f3 word;
          required_priv = drop_bit 8 csr_addr AND 0b11 in
      if priv_mode s < required_priv then Inr (trap s MCAUSE_ILLEGAL_INSTRUCTION 0)
      else let old = csr_read s csr_addr;
               src = (if f3 AND 0b100 \<noteq> 0 then dec_rs1 word else reg_A s word);
               csr_op = f3 AND 0b011;
               new_val = (if csr_op = 0b01 then src
                          else if csr_op = 0b10 then old OR src
                          else old AND NOT src)
           in Inr ((wr (csr_write s csr_addr new_val) (dec_rd word) old)\<lparr>pc := next_pc s\<rparr>))"

definition step_system :: "iss \<Rightarrow> int \<Rightarrow> iss result" where
  "step_system s word = (if dec_f3 word = 0b000 then step_priv s word else step_csr s word)"

section \<open>Floating point\<close>

definition step_flw :: "iss \<Rightarrow> int \<Rightarrow> iss result" where
  "step_flw s word =
     (case translate s (uxlen s (reg_A s word + dec_imm_i word)) Load of
        (s', None) \<Rightarrow> Inr s'
      | (s', Some addr) \<Rightarrow> Inr ((wr_f s' (dec_rd word) (load_word s' addr))\<lparr>pc := next_pc s\<rparr>))"

definition step_fsw :: "iss \<Rightarrow> int \<Rightarrow> iss result" where
  "step_fsw s word =
     (case translate s (uxlen s (reg_A s word + dec_imm_s word)) Store of
        (s', None) \<Rightarrow> Inr s'
      | (s', Some addr) \<Rightarrow>
          Inr ((store_bytes s' addr (fregs s' ! nat (dec_rs2 word)) 4)\<lparr>pc := next_pc s\<rparr>))"

definition put_f :: "iss \<Rightarrow> int \<Rightarrow> int \<times> int \<Rightarrow> iss" where
  \<comment> \<open>\<open>self.fregs[rd] = res; self.set_fflags(flags)\<close>\<close>
  "put_f s rd rf = set_fflags (wr_f s rd (fst rf)) (snd rf)"

definition put_x :: "iss \<Rightarrow> int \<Rightarrow> int \<times> int \<Rightarrow> iss" where
  \<comment> \<open>\<open>self.wr(rd, res); self.set_fflags(flags)\<close>\<close>
  "put_x s rd rf = set_fflags (wr s rd (fst rf)) (snd rf)"

definition op_fp :: "iss \<Rightarrow> int \<Rightarrow> iss result" where
  \<comment> \<open>the OP-FP chain, before its final \<open>self.pc = next_pc\<close>\<close>
  "op_fp s word =
     (let funct5 = drop_bit 27 word AND 0x1F; f3 = dec_f3 word; rd = dec_rd word;
          rm = resolve_rm s f3; rs2 = dec_rs2 word;
          fa = fregs s ! nat (dec_rs1 word); fb = fregs s ! nat rs2 in
      if funct5 = 0b00000 then rbind (f_add fa fb rm False) (\<lambda>r. Inr (put_f s rd r))
      else if funct5 = 0b00001 then rbind (f_add fa fb rm True) (\<lambda>r. Inr (put_f s rd r))
      else if funct5 = 0b00010 then rbind (f_mul fa fb rm) (\<lambda>r. Inr (put_f s rd r))
      else if funct5 = 0b00011 then rbind (f_div fa fb rm) (\<lambda>r. Inr (put_f s rd r))
      else if funct5 = 0b01011 then rbind (f_sqrt fa rm) (\<lambda>r. Inr (put_f s rd r))
      else if funct5 = 0b00100 then Inr (wr_f s rd (fst (f_sgnj fa fb f3)))
      else if funct5 = 0b00101 then Inr (put_f s rd (f_minmax fa fb f3))
      else if funct5 = 0b10100 then Inr (put_x s rd (f_cmp fa fb f3))
      else if funct5 = 0b11000 then Inr (put_x s rd (f_cvt_to_int fa rm (rs2 = 0b00001)))
      else if funct5 = 0b11010 then
        rbind (f_cvt_from_int (u32 (reg_A s word)) rm (rs2 = 0b00001)) (\<lambda>r. Inr (put_f s rd r))
      else if funct5 = 0b11100 then
        Inr (if f3 = 0b001 then wr s rd (f_class fa) else wr s rd (s32 fa))
      else if funct5 = 0b11110 then Inr (wr_f s rd (u32 (reg_A s word)))
      else Inl ValueError)"

definition step_op_fp :: "iss \<Rightarrow> int \<Rightarrow> iss result" where
  "step_op_fp s word = rbind (op_fp s word) (\<lambda>s'. Inr (s'\<lparr>pc := next_pc s\<rparr>))"

definition step_madd :: "iss \<Rightarrow> int \<Rightarrow> iss result" where
  "step_madd s word =
     (let rs3 = drop_bit 27 word AND 0x1F; rm = resolve_rm s (dec_f3 word);
          op2 = drop_bit 2 (dec_op word) AND 0b11;
          neg_prod = (op2 AND 0b10 \<noteq> 0); neg_addend = (op2 AND 0b01 \<noteq> 0)
      in rbind (f_madd (fregs s ! nat (dec_rs1 word)) (fregs s ! nat (dec_rs2 word))
                  (fregs s ! nat rs3) rm neg_prod neg_addend)
           (\<lambda>r. Inr ((put_f s (dec_rd word) r)\<lparr>pc := next_pc s\<rparr>)))"

section \<open>One step\<close>

definition step :: "iss \<Rightarrow> int \<Rightarrow> iss result" where
  "step s word =
     (if word = 0 then Inr (s\<lparr>pc := pc s + 4\<rparr>)
      else let op = dec_op word in
      if op = 0b0110011 then step_op s word
      else if op = 0b0111011 then step_op_32 s word
      else if op = 0b0010011 then step_op_imm s word
      else if op = 0b0011011 then step_op_imm_32 s word
      else if op = 0b0000011 then step_load s word
      else if op = 0b0100011 then step_store s word
      else if op = 0b1100011 then step_branch s word
      else if op = 0b1101111 then step_jal s word
      else if op = 0b1100111 then step_jalr s word
      else if op = 0b0110111 then step_lui s word
      else if op = 0b0010111 then step_auipc s word
      else if op = 0b1110011 then step_system s word
      else if op = 0b0000111 then step_flw s word
      else if op = 0b0100111 then step_fsw s word
      else if op = 0b1010011 then step_op_fp s word
      else if op = 0b1000011 \<or> op = 0b1000111 \<or> op = 0b1001011 \<or> op = 0b1001111
      then step_madd s word
      else if op = 0b0001111 \<and> dec_f3 word = 0b000 then Inr (s\<lparr>pc := next_pc s\<rparr>)
      else Inr (trap s MCAUSE_ILLEGAL_INSTRUCTION 0))"

section \<open>The run loop\<close>

definition interrupt_due :: "iss \<Rightarrow> int \<Rightarrow> bool" where
  "interrupt_due s steps =
     (case pending_interrupt s of None \<Rightarrow> False
      | Some (after, cause) \<Rightarrow> steps \<ge> after \<and> drop_bit 3 (csr_at s CSR_MSTATUS) AND 1 \<noteq> 0)"

definition take_interrupt :: "iss \<Rightarrow> iss" where
  "take_interrupt s =
     (case pending_interrupt s of None \<Rightarrow> s
      | Some (after, cause) \<Rightarrow> (trap s cause 0)\<lparr>pending_interrupt := None\<rparr>)"

definition self_loop :: "int \<Rightarrow> bool" where
  "self_loop word \<longleftrightarrow> word AND 0x7F = 0b1101111 \<and> dec_imm_j word = 0"

text \<open>
  The loop of \<open>run\<close>, with the object state and the step count as its state. \<open>None\<close> is a loop
  that never returns: a fetch page fault continues without counting a step. On a return the
  result is the final state and the number of steps.
\<close>

partial_function (option) run_loop :: "int list \<Rightarrow> int \<Rightarrow> iss \<Rightarrow> int \<Rightarrow> (iss \<times> int) result option"
where
  "run_loop words max_steps s steps =
     (if steps < max_steps then
        if interrupt_due s steps then run_loop words max_steps (take_interrupt s) steps
        else (case translate s (pc s) Fetch of
            (s', None) \<Rightarrow> run_loop words max_steps s' steps
          | (s', Some fetch_addr) \<Rightarrow>
              if fetch_addr \<ge> int (length words) * 4 then Some (Inr (s', steps))
              else let word = words ! nat (fetch_addr div 4) in
                if self_loop word then Some (Inr (s', steps))
                else (case step s' word of
                    Inl e \<Rightarrow> Some (Inl e)
                  | Inr s'' \<Rightarrow> run_loop words max_steps s'' (steps + 1)))
      else Some (Inl RuntimeError))"

declare run_loop.simps [code]

definition run :: "iss \<Rightarrow> int list \<Rightarrow> int \<Rightarrow> (iss \<times> int) result option" where
  "run s words max_steps = run_loop words max_steps s 0"

end
