(* ===== verification/Iss_Step_Props.thy ===== *)
theory Iss_Step_Props
  imports Float32_Props Mmu_Props Iss_Step
begin

text \<open>
  Properties of \<open>step\<close> and \<open>run\<close>: every instruction keeps the shape of the state, the only
  exceptions are the source's \<open>ValueError\<close> and \<open>KeyError\<close>, privilege is gained only by a trap.
\<close>

section \<open>Instruction fields\<close>

lemma dec_fits [simp]:
  "fits 5 (dec_rd w)" "fits 5 (dec_rs1 w)" "fits 5 (dec_rs2 w)" "fits 3 (dec_f3 w)" "fits 7 (dec_f7 w)"
  by (simp_all add: dec_rd_def dec_rs1_def dec_rs2_def dec_f3_def dec_f7_def mask_simps)

lemma dec_nonneg [simp]: "0 \<le> dec_rd w" "0 \<le> dec_rs1 w" "0 \<le> dec_rs2 w"
  using dec_fits [THEN fitsD(1)] by auto

lemma dec_index [simp]: "nat (dec_rd w) < 32" "nat (dec_rs1 w) < 32" "nat (dec_rs2 w) < 32"
  using dec_fits(1-3) [of w] by (simp_all add: fits_def)

lemma reg_fits: "wf_iss s \<Longrightarrow> fits (xlen s) (reg_A s w)" "wf_iss s \<Longrightarrow> fits (xlen s) (reg_B s w)"
  by (auto simp: reg_A_def reg_B_def wf_iss_def intro!: all_fit_nth)

lemma freg_fits: "wf_iss s \<Longrightarrow> n < 32 \<Longrightarrow> fits 32 (fregs s ! n)"
  by (auto simp: wf_iss_def intro!: all_fit_nth)

section \<open>Every instruction keeps the shape of the state\<close>

lemma next_pc_nonneg: "wf_iss s \<Longrightarrow> 0 \<le> next_pc s"
  by (simp add: next_pc_def wf_iss_def)

lemma wf_wr_next [wf_intros]: "wf_iss s \<Longrightarrow> wf_iss (wr_next s (dec_rd w) v)"
  by (simp add: wr_next_def wf_pc wf_wr next_pc_nonneg)

lemma wf_store_bytes [wf_intros]: "wf_iss s \<Longrightarrow> wf_iss (store_bytes s a v n)"
  unfolding store_bytes_def by (induction n) (auto intro: wf_intros)

lemma load_word_fits: "wf_iss s \<Longrightarrow> fits 32 (load_word s a)"
  unfolding load_word_def
  by (intro fits_or fits_push_bit_le [OF load_mem_byte_fits]) (auto intro: fits_mono [OF load_mem_byte_fits])

lemma wf_put_f [wf_intros]: "wf_iss s \<Longrightarrow> fits 32 (fst r) \<Longrightarrow> wf_iss (put_f s rd r)"
  by (simp add: put_f_def wf_set_fflags wf_wr_f)

lemma wf_put_x [wf_intros]: "wf_iss s \<Longrightarrow> 0 \<le> rd \<Longrightarrow> wf_iss (put_x s rd r)"
  by (simp add: put_x_def wf_set_fflags wf_wr)

definition ok :: "bool \<Rightarrow> iss result \<Rightarrow> bool" where
  \<comment> \<open>a well-shaped state or an exception of the source; \<open>k\<close> says whether \<open>KeyError\<close> may occur\<close>
  "ok k r \<longleftrightarrow> (case r of Inl e \<Rightarrow> e = ValueError \<or> k \<and> e = KeyError | Inr s \<Rightarrow> wf_iss s)"

lemma ok_simps [simp]: "ok k (Inr s) \<longleftrightarrow> wf_iss s" "ok k (Inl e) \<longleftrightarrow> e = ValueError \<or> k \<and> e = KeyError"
  by (simp_all add: ok_def)

lemma ok_if: "(b \<Longrightarrow> ok k x) \<Longrightarrow> (\<not> b \<Longrightarrow> ok k y) \<Longrightarrow> ok k (if b then x else y)"
  by simp

lemma ok_rbind:
  assumes "\<And>e. r = Inl e \<Longrightarrow> e = ValueError" "\<And>v. r = Inr v \<Longrightarrow> ok k (f v)"
  shows "ok k (rbind r f)"
  using assms by (cases r) auto

lemma op_r_error: "op_r_result xl f7 f3 A B = Inl e \<Longrightarrow> e = ValueError"
  by (auto simp: op_r_result_def op_r_base_def Let_def split: if_splits option.splits)

lemma op_32_error: "op_32_result f7 f3 A B = Inl e \<Longrightarrow> e = ValueError"
  by (auto simp: op_32_result_def Let_def split: if_splits)

lemma op_imm_error: "op_imm_result xl w A = Inl e \<Longrightarrow> e = ValueError"
  by (auto simp: op_imm_result_def op_imm_ext_def op_imm_base_def Let_def split: if_splits option.splits prod.splits)

lemma op_imm_32_error: "op_imm_32_result w A = Inl e \<Longrightarrow> e = ValueError"
  by (auto simp: op_imm_32_result_def Let_def split: if_splits)

lemma ok_arith:
  assumes "wf_iss s"
  shows "ok k (step_op s w)" "ok k (step_op_32 s w)" "ok k (step_op_imm s w)" "ok k (step_op_imm_32 s w)"
  using assms unfolding step_op_def step_op_32_def step_op_imm_def step_op_imm_32_def
  by (auto intro!: ok_rbind wf_wr_next dest: op_r_error op_32_error op_imm_error op_imm_32_error)

lemma ok_translated:
  assumes "wf_iss s" and "\<And>pa. ok k (f s (Some pa))" and "\<And>s' t. wf_iss s' \<Longrightarrow> ok k (f s' None)"
  shows "ok k (case translate s va ac of (s', r) \<Rightarrow> f s' r)"
proof -
  obtain s' r where t: "translate s va ac = (s', r)" by fastforce
  then show ?thesis
    using assms mmu.keeps_wf [OF assms(1) t] mmu.hit [of s va ac s'] by (cases r) auto
qed

lemma ok_load: "wf_iss s \<Longrightarrow> ok k (step_load s w)"
  unfolding step_load_def
  by (rule ok_translated) (auto intro!: ok_rbind wf_wr_next simp: load_value_def Let_def split: if_splits)

lemma ok_store: "wf_iss s \<Longrightarrow> ok k (step_store s w)"
  unfolding step_store_def
  by (rule ok_translated)
    (auto intro!: ok_rbind wf_pc next_pc_nonneg wf_store_bytes wf_store_mem_byte simp: store_value_def split: if_splits)

lemma ok_control: "wf_iss s \<Longrightarrow> ok k (step_branch s w)" "wf_iss s \<Longrightarrow> ok k (step_jal s w)"
    "wf_iss s \<Longrightarrow> ok k (step_jalr s w)" "wf_iss s \<Longrightarrow> ok k (step_lui s w)" "wf_iss s \<Longrightarrow> ok k (step_auipc s w)"
  by (simp_all add: step_branch_def step_jal_def step_jalr_def step_lui_def step_auipc_def Let_def
      wf_pc wf_wr wf_wr_next next_pc_nonneg)

lemma ok_system: "wf_iss s \<Longrightarrow> ok (priv_mode s = 2) (step_system s w)"
  using wf_issD(8) [of s] unfolding step_system_def step_priv_def step_csr_def Let_def
  by (auto simp: wf_trap wf_mret wf_sret wf_pc wf_wr wf_csr_write next_pc_nonneg fits_def)

lemma ok_flw: "wf_iss s \<Longrightarrow> ok k (step_flw s w)"
  unfolding step_flw_def
  by (rule ok_translated) (auto intro!: wf_pc wf_wr_f load_word_fits next_pc_nonneg)

lemma ok_fsw: "wf_iss s \<Longrightarrow> ok k (step_fsw s w)"
  unfolding step_fsw_def by (rule ok_translated) (auto intro!: wf_pc wf_store_bytes next_pc_nonneg)

lemma ok_fp_result:
  assumes "fp_result_ok r" "wf_iss s"
  shows "ok k (rbind r (\<lambda>r. Inr (put_f s rd r)))"
  using assms by (auto simp: fp_result_ok_def wf_put_f)

lemma ok_fp_result_pc:
  assumes "fp_result_ok r" "wf_iss s" "0 \<le> p"
  shows "ok k (rbind r (\<lambda>r. Inr ((put_f s rd r)\<lparr>pc := p\<rparr>)))"
  using assms by (auto simp: fp_result_ok_def wf_put_f wf_pc)

lemma ok_op_fp:
  assumes "wf_iss s"
  shows "ok k (op_fp s w)"
proof -
  have f: "fits 32 (fregs s ! nat (dec_rs1 w))" "fits 32 (fregs s ! nat (dec_rs2 w))"
    using assms by (simp_all add: freg_fits)
  show ?thesis
    unfolding op_fp_def Let_def
    by (intro ok_if ok_fp_result f_add_ok f_mul_ok f_div_ok f_sqrt_ok f_cvt_from_int_ok f assms fits_u32)
      (simp_all add: assms wf_wr wf_wr_f wf_put_f wf_put_x f_sgnj_fits f_minmax_fits f fits_u32)
qed

lemma ok_step:
  assumes "wf_iss s"
  shows "ok (priv_mode s = 2) (step s w)"
proof -
  let ?k = "priv_mode s = 2"
  have fp: "ok ?k (step_op_fp s w)"
    using ok_op_fp [OF assms, of ?k w] by (cases "op_fp s w") (auto simp: step_op_fp_def wf_pc next_pc_nonneg assms)
  have "ok ?k (step_madd s w)"
    unfolding step_madd_def Let_def using assms by (intro ok_fp_result_pc f_madd_ok next_pc_nonneg)
  then show ?thesis
    using assms fp unfolding step_def Let_def
    by (intro ok_if ok_arith ok_load ok_store ok_control ok_system ok_flw ok_fsw)
      (simp_all add: wf_pc wf_trap next_pc_nonneg wf_issD(7))
qed


section \<open>Subscripts\<close>






section \<open>What a step can do to the privileged state\<close>

text \<open>A step either leaves privilege and CSRs alone, or is one of the four privileged moves.\<close>

definition plain :: "iss \<Rightarrow> iss \<Rightarrow> bool" where
  "plain s s' \<longleftrightarrow> csr s' = csr s \<and> priv_mode s' = priv_mode s \<and> xlen s' = xlen s \<and>
     mem_mask s' = mem_mask s"

inductive priv_move :: "iss \<Rightarrow> iss \<Rightarrow> bool" for s where
  plain_move: "plain s s' \<Longrightarrow> priv_move s s'"
| trap_move: "priv_move s (trap s c t)"
| mret_move: "priv_mode s = PRIV_M \<Longrightarrow> priv_move s (mret s)"
| sret_move: "priv_mode s \<noteq> PRIV_U \<Longrightarrow> priv_move s (sret s)"
| csr_move: "fits 12 a \<Longrightarrow> drop_bit 8 a AND 3 \<le> priv_mode s \<Longrightarrow> plain (csr_write s a v) s' \<Longrightarrow> priv_move s s'"

inductive_cases priv_moveE: "priv_move s s'"

lemma plain_frame [simp]:
  "plain s s" "plain s (wr s rd v)" "plain s (wr_f s rd v)" "plain s (set_fflags s f)"
  "plain s (store_mem_byte s a v)" "plain s s' \<Longrightarrow> plain s (s'\<lparr>pc := p\<rparr>)"
  by (simp_all add: plain_def wr_def wr_f_def set_fflags_def store_mem_byte_def)

lemma plain_trans: "plain s s' \<Longrightarrow> plain s' s'' \<Longrightarrow> plain s s''"
  by (simp add: plain_def)

lemma plain_derived [simp]:
  "plain s (wr_next s rd v)" "plain s (put_f s rd r)" "plain s (put_x s rd r)"
  by (simp_all add: plain_def wr_next_def put_f_def put_x_def set_fflags_def wr_def wr_f_def)

lemma plain_store_bytes [simp]: "plain s (store_bytes s a v n)"
  unfolding store_bytes_def by (induction n) (auto intro: plain_trans)

definition moves :: "iss \<Rightarrow> iss result \<Rightarrow> bool" where
  "moves s r \<longleftrightarrow> (\<forall>s'. r = Inr s' \<longrightarrow> priv_move s s')"

lemma moves_simps [simp]: "moves s (Inr s') \<longleftrightarrow> priv_move s s'" "moves s (Inl e)"
  by (simp_all add: moves_def)

lemma moves_if: "(b \<Longrightarrow> moves s x) \<Longrightarrow> (\<not> b \<Longrightarrow> moves s y) \<Longrightarrow> moves s (if b then x else y)"
  by simp

lemma moves_rbind: "(\<And>v. r = Inr v \<Longrightarrow> moves s (f v)) \<Longrightarrow> moves s (rbind r f)"
  by (cases r) auto

lemma moves_translated:
  assumes "\<And>pa. moves s (f s (Some pa))" and "\<And>t. moves s (f (trap s (fault_cause ac) t) None)"
  shows "moves s (case translate s va ac of (s', r) \<Rightarrow> f s' r)"
proof -
  obtain s' r where t: "translate s va ac = (s', r)" by fastforce
  then show ?thesis using assms mmu.hit [of s va ac s'] mmu.miss [of s va ac s'] by (cases r) auto
qed

lemma moves_plain: "plain s s' \<Longrightarrow> moves s (Inr s')"
  by (simp add: plain_move)

lemma moves_memory: "moves s (step_load s w)" "moves s (step_store s w)" "moves s (step_flw s w)" "moves s (step_fsw s w)"
  unfolding step_load_def step_store_def step_flw_def step_fsw_def
  by (rule moves_translated;
      auto intro!: moves_rbind plain_move trap_move plain_frame(6) simp: store_value_def split: if_splits
        intro: plain_trans [OF plain_frame(5) plain_frame(5)])+

lemma moves_system: "moves s (step_system s w)"
proof -
  have "moves s (step_priv s w)"
    unfolding step_priv_def Let_def by (simp add: trap_move mret_move sret_move plain_move)
  moreover have "moves s (step_csr s w)"
  proof (cases "priv_mode s < drop_bit 8 (drop_bit 20 w AND 0xFFF) AND 3")
    case True
    then show ?thesis by (simp add: step_csr_def Let_def trap_move)
  next
    case False
    have "priv_move s ((wr (csr_write s (drop_bit 20 w AND 0xFFF) v) rd old)\<lparr>pc := p\<rparr>)" for v rd old p
      using False by (intro csr_move [of "drop_bit 20 w AND 0xFFF" s v] plain_frame) (simp_all add: mask_simps)
    then show ?thesis using False by (simp add: step_csr_def Let_def)
  qed
  ultimately show ?thesis by (simp add: step_system_def)
qed

lemma moves_op_fp: "moves s (step_op_fp s w)"
  unfolding step_op_fp_def
proof (rule moves_rbind)
  fix s' assume "op_fp s w = Inr s'"
  then have "plain s s'" unfolding op_fp_def Let_def by (auto split: if_splits)
  then show "moves s (Inr (s'\<lparr>pc := next_pc s\<rparr>))" by (simp add: plain_move)
qed

lemma moves_step: "moves s (step s w)"
  unfolding step_def Let_def
  by (intro moves_if moves_memory moves_system moves_op_fp)
    (auto intro!: moves_rbind plain_move simp: step_op_def step_op_32_def step_op_imm_def step_op_imm_32_def
      step_branch_def step_jal_def step_jalr_def step_lui_def step_auipc_def step_madd_def Let_def trap_move)


section \<open>Privilege\<close>

lemma trap_vectors: "trap_to_s s c \<Longrightarrow> priv_mode (trap s c t) = PRIV_S \<and> pc (trap s c t) = csr_at s CSR_STVEC"
    "\<not> trap_to_s s c \<Longrightarrow> priv_mode (trap s c t) = PRIV_M \<and> pc (trap s c t) = csr_at s CSR_MTVEC"
  by (simp_all add: trap_def Let_def)

lemma csr_write_priv [simp]: "priv_mode (csr_write s a v) = priv_mode s"
  by (simp add: csr_write_def csr_store_def csr_set_def Let_def)

lemma priv_gain:
  assumes "priv_move s s'" "wf_iss s" "priv_mode s < priv_mode s'" "priv_mode s \<noteq> PRIV_M"
  shows "(\<exists>c t. s' = trap s c t) \<and> (priv_mode s' = PRIV_S \<and> pc s' = csr_at s CSR_STVEC \<or>
    priv_mode s' = PRIV_M \<and> pc s' = csr_at s CSR_MTVEC)"
  using assms(1)
proof cases
  case (trap_move c t)
  then show ?thesis using trap_vectors [of s c] by blast
next
  case sret_move
  have "priv_mode s' \<le> 1" unfolding sret_move by (simp add: sret_def Let_def and_one_eq)
  moreover have "0 < priv_mode s" using assms(2) sret_move wf_issD(8) [OF assms(2)] by (auto simp: fits_def)
  ultimately show ?thesis using assms(3) by simp
qed (use assms in \<open>auto simp: plain_def\<close>)

section \<open>Isolation of the machine level\<close>

text \<open>
  The part of the CSR file that belongs to M-mode: the machine registers, and the bits of
  \<open>mstatus\<close>, \<open>mie\<close> and \<open>mip\<close> outside the supervisor views.
\<close>

definition machine_csrs :: "int list" where
  "machine_csrs = [CSR_MTVEC, CSR_MSCRATCH, CSR_MEPC, CSR_MCAUSE, CSR_MTVAL, CSR_MIDELEG, CSR_MEDELEG]"

definition machine_part :: "iss \<Rightarrow> int list \<times> int \<times> int \<times> int" where
  "machine_part s = (map (csr_at s) machine_csrs, csr_at s CSR_MSTATUS AND NOT MSTATUS_S_MASK,
     csr_at s CSR_MIE AND NOT MIE_S_MASK, csr_at s CSR_MIP AND NOT MIE_S_MASK)"

text \<open>
  \<open>csr_write\<close> stores only the supervisor's bits in \<open>mip\<close>, through either address: from reset on,
  its machine bits are zero.
\<close>

definition mip_masked :: "iss \<Rightarrow> bool" where
  "mip_masked s \<longleftrightarrow> csr_at s CSR_MIP AND NOT MIE_S_MASK = 0"

lemma csr_at_mip_write:
  "csr_at (csr_write s a v) CSR_MIP = (if a = CSR_MIP \<or> a = CSR_SIP then v AND MIE_S_MASK else csr_at s CSR_MIP)"
proof (cases "a = CSR_MIP \<or> a = CSR_SIP")
  case True
  then show ?thesis
    using fits_and2 [OF fits_S_masks(2), of v]
    by (auto simp: csr_write_def csr_set_def csr_at_def u32_take_bit simp del: take_bit_and)
next
  case False
  then show ?thesis by (auto simp: csr_write_def csr_set_def csr_at_def csr_store_def Let_def)
qed

lemma mip_masked_write: "mip_masked s \<Longrightarrow> mip_masked (csr_write s a v)"
  by (simp add: mip_masked_def csr_at_mip_write and.assoc)

lemma mip_masked_same: "csr_at s' CSR_MIP = csr_at s CSR_MIP \<Longrightarrow> mip_masked s' = mip_masked s"
  by (simp add: mip_masked_def)

lemma mip_masked_moves:
  "mip_masked (trap s c t) = mip_masked s" "mip_masked (mret s) = mip_masked s" "mip_masked (sret s) = mip_masked s"
  "plain s s' \<Longrightarrow> mip_masked s' = mip_masked s" "mip_masked (s\<lparr>pending_interrupt := i\<rparr>) = mip_masked s"
  by (auto intro!: mip_masked_same simp: trap_def mret_def sret_def plain_def csr_at_def Let_def)

lemma mip_masked_move: "priv_move s s' \<Longrightarrow> mip_masked s \<Longrightarrow> mip_masked s'"
  by (erule priv_moveE) (auto simp: mip_masked_moves mip_masked_write)

lemma machine_part_plain: "plain s s' \<Longrightarrow> machine_part s' = machine_part s"
  by (simp add: plain_def machine_part_def csr_at_def)

lemma csr_at_store_other: "k \<noteq> a \<Longrightarrow> csr_at (csr_store s a v) k = csr_at s k"
  by (simp add: csr_store_def csr_set_def)

lemma csr_at_write_other:
  assumes "a \<noteq> k" "k \<in> set machine_csrs"
  shows "csr_at (csr_write s a v) k = csr_at s k"
  using assms unfolding csr_write_def machine_csrs_def csr_set_def Let_def
  by (auto simp: csr_at_store_other)


lemma csr_level_3: "k \<in> set (CSR_MSTATUS # CSR_MIE # CSR_MIP # machine_csrs) \<Longrightarrow> drop_bit 8 k AND 3 = (3::int)"
  by (auto simp: machine_csrs_def)

lemma machine_part_csr_write:
  assumes "wf_iss s" "mip_masked s" "drop_bit 8 a AND 3 < (3::int)"
  shows "machine_part (csr_write s a v) = machine_part s"
proof -
  have a: "a \<notin> set (CSR_MSTATUS # CSR_MIE # CSR_MIP # machine_csrs)" using assms(3) csr_level_3 [of a] by auto
  have m: "map (csr_at (csr_write s a v)) machine_csrs = map (csr_at s) machine_csrs"
    by (rule map_cong [OF refl], rule csr_at_write_other) (use a in auto)
  have "csr_at (csr_write s a v) CSR_MSTATUS = csr_at s CSR_MSTATUS" if "a \<noteq> CSR_SSTATUS"
    using a that by (simp add: csr_write_def csr_set_def csr_at_store_other Let_def)
  then have st: "csr_at (csr_write s a v) CSR_MSTATUS AND NOT MSTATUS_S_MASK = csr_at s CSR_MSTATUS AND NOT MSTATUS_S_MASK"
    using sstatus.hidden_bits_kept [OF assms(1)] by (cases "a = CSR_SSTATUS") auto
  have "csr_at (csr_write s a v) CSR_MIE = csr_at s CSR_MIE" if "a \<noteq> CSR_SIE"
    using a that by (simp add: csr_write_def csr_set_def csr_at_store_other Let_def)
  then have "csr_at (csr_write s a v) CSR_MIE AND NOT MIE_S_MASK = csr_at s CSR_MIE AND NOT MIE_S_MASK"
    using sie.hidden_bits_kept [OF assms(1)] by (cases "a = CSR_SIE") auto
  moreover have "csr_at (csr_write s a v) CSR_MIP AND NOT MIE_S_MASK = csr_at s CSR_MIP AND NOT MIE_S_MASK"
    using mip_masked_write [OF assms(2), of a v] assms(2) by (simp add: mip_masked_def)
  ultimately show ?thesis using m st unfolding machine_part_def by simp
qed

lemma machine_part_status:
  assumes "\<And>k. k \<noteq> CSR_MSTATUS \<Longrightarrow> k \<notin> {CSR_SEPC, CSR_SCAUSE, CSR_STVAL} \<Longrightarrow> csr_at s' k = csr_at s k"
    and "\<And>n. n \<notin> {1, 5, 8} \<Longrightarrow> bit (csr_at s' CSR_MSTATUS) n \<longleftrightarrow> bit (csr_at s CSR_MSTATUS) n"
  shows "machine_part s' = machine_part s"
proof -
  have "csr_at s' CSR_MSTATUS AND NOT MSTATUS_S_MASK = csr_at s CSR_MSTATUS AND NOT MSTATUS_S_MASK"
    by (rule bit_eqI) (use assms(2) in \<open>auto simp: bit_and_iff bit_not_iff s_mask_bit\<close>)
  then show ?thesis using assms(1) unfolding machine_part_def machine_csrs_def by simp
qed

lemma machine_part_trap_to_s:
  assumes "wf_iss s" "trap_to_s s c"
  shows "machine_part (trap s c t) = machine_part s"
proof (rule machine_part_status)
  have m: "fits 32 (csr_at s CSR_MSTATUS)" using wf_csr_at(2) wf_issD(6) [OF assms(1)] by simp
  show "csr_at (trap s c t) k = csr_at s k"
    if "k \<noteq> CSR_MSTATUS" "k \<notin> {CSR_SEPC, CSR_SCAUSE, CSR_STVAL}" for k
    using that assms(2) by (simp add: trap_def Let_def)
  have "csr_at (trap s c t) CSR_MSTATUS = u32 ((csr_at s CSR_MSTATUS AND NOT MSTATUS_S_MASK) OR
      push_bit 5 (drop_bit 1 (csr_at s CSR_MSTATUS) AND 1) OR push_bit 8 (priv_mode s AND 1))"
    using assms(2) unfolding trap_def Let_def by simp
  then show "bit (csr_at (trap s c t) CSR_MSTATUS) n \<longleftrightarrow> bit (csr_at s CSR_MSTATUS) n" if "n \<notin> {1, 5, 8}" for n
    using that s_trap_status_bit [OF m] by simp
qed

lemma machine_part_sret:
  assumes "wf_iss s"
  shows "machine_part (sret s) = machine_part s"
proof (rule machine_part_status)
  have m: "fits 32 (csr_at s CSR_MSTATUS)" using wf_csr_at(2) wf_issD(6) [OF assms(1)] by simp
  show "csr_at (sret s) k = csr_at s k" if "k \<noteq> CSR_MSTATUS" for k
    using that by (simp add: sret_def Let_def)
  have "csr_at (sret s) CSR_MSTATUS = u32 ((csr_at s CSR_MSTATUS AND NOT MSTATUS_S_MASK) OR
      push_bit 1 (drop_bit 5 (csr_at s CSR_MSTATUS) AND 1) OR 2 ^ 5)"
    unfolding sret_def Let_def by simp
  then show "bit (csr_at (sret s) CSR_MSTATUS) n \<longleftrightarrow> bit (csr_at s CSR_MSTATUS) n" if "n \<notin> {1, 5, 8}" for n
    using that s_return_status_bit [OF m] by simp
qed

lemma machine_part_move:
  assumes "priv_move s s'" "wf_iss s" "mip_masked s" "priv_mode s < PRIV_M" "priv_mode s' < PRIV_M"
  shows "machine_part s' = machine_part s"
  using assms(1)
proof cases
  case (trap_move c t)
  then have "trap_to_s s c" using assms(5) trap_vectors(2) [of s c t] by auto
  then show ?thesis using machine_part_trap_to_s assms(2) trap_move by simp
next
  case (csr_move a v)
  then have "machine_part s' = machine_part (csr_write s a v)" by (simp add: machine_part_plain)
  then show ?thesis using machine_part_csr_write [OF assms(2,3), of a v] csr_move(2) assms(4) by simp
qed (use assms machine_part_plain machine_part_sret in auto)

section \<open>Executions\<close>

text \<open>
  What \<open>run\<close> and its caller can do to the state, in any order: execute an instruction word, take
  the interrupt that is due, trap on a failing fetch translation, schedule an interrupt. Trap
  returns are instructions.
\<close>

inductive iss_move :: "iss \<Rightarrow> iss \<Rightarrow> bool" for s where
  move_step: "step s w = Inr s' \<Longrightarrow> iss_move s s'"
| move_interrupt: "interrupt_due s n \<Longrightarrow> iss_move s (take_interrupt s)"
| move_fetch_fault: "translate s (pc s) Fetch = (s', None) \<Longrightarrow> iss_move s s'"
| move_schedule: "iss_move s (schedule_interrupt s n c)"

inductive_cases iss_moveE: "iss_move s s'"

inductive exec :: "iss \<Rightarrow> iss \<Rightarrow> bool" where
  exec_refl: "exec s s"
| exec_move: "exec s s' \<Longrightarrow> iss_move s' s'' \<Longrightarrow> exec s s''"

text \<open>Executions all of whose moves start below the privilege mode \<open>l\<close>.\<close>

inductive exec_below :: "int \<Rightarrow> iss \<Rightarrow> iss \<Rightarrow> bool" for l where
  below_refl: "exec_below l s s"
| below_move: "exec_below l s s' \<Longrightarrow> priv_mode s' < l \<Longrightarrow> iss_move s' s'' \<Longrightarrow> exec_below l s s''"

lemma step_wf: "wf_iss s \<Longrightarrow> step s w = Inr s' \<Longrightarrow> wf_iss s'"
  using ok_step [of s w] by simp

lemma step_move: "step s w = Inr s' \<Longrightarrow> priv_move s s'"
  using moves_step [of s w] by (simp add: moves_def)

lemma wf_pending: "wf_iss s \<Longrightarrow> wf_iss (s\<lparr>pending_interrupt := i\<rparr>)"
  by (simp add: wf_iss_def)

lemma wf_take_interrupt [wf_intros]: "wf_iss s \<Longrightarrow> wf_iss (take_interrupt s)"
  by (auto simp: take_interrupt_def wf_pending wf_trap split: option.splits)

lemma move_wf: "iss_move s s' \<Longrightarrow> wf_iss s \<Longrightarrow> wf_iss s'"
  by (erule iss_moveE) (auto intro: step_wf wf_take_interrupt wf_schedule mmu.keeps_wf)

text \<open>Up to the scheduled interrupt, each of these is one of the privileged moves of a step.\<close>

lemma move_priv:
  assumes "iss_move s s'"
  shows "\<exists>s0 i. priv_move s s0 \<and> s' = s0\<lparr>pending_interrupt := i\<rparr>"
  using assms
proof cases
  case (move_step w)
  then have "priv_move s s'" by (rule step_move)
  then show ?thesis by (intro exI [of _ s'] exI [of _ "pending_interrupt s'"]) simp
next
  case (move_interrupt n)
  then obtain k c where "pending_interrupt s = Some (k, c)"
    by (auto simp: interrupt_due_def split: option.splits)
  then show ?thesis
    using move_interrupt(1) trap_move [of s c 0] by (auto simp: take_interrupt_def)
next
  case move_fetch_fault
  then obtain t where "s' = trap s (fault_cause Fetch) t" using mmu.miss by blast
  then show ?thesis
    using trap_move [of s "fault_cause Fetch" t]
    by (intro exI [of _ s'] exI [of _ "pending_interrupt s'"]) simp
next
  case (move_schedule n c)
  then show ?thesis using plain_move [OF plain_frame(1)] by (auto simp: schedule_interrupt_def)
qed

lemma machine_part_pending [simp]: "machine_part (s\<lparr>pending_interrupt := i\<rparr>) = machine_part s"
  by (rule machine_part_plain) (simp add: plain_def)

lemma move_mip: "iss_move s s' \<Longrightarrow> mip_masked s \<Longrightarrow> mip_masked s'"
  using move_priv mip_masked_move mip_masked_moves(5) by metis

lemma exec_wf: "exec s s' \<Longrightarrow> wf_iss s \<Longrightarrow> wf_iss s'"
  by (induction rule: exec.induct) (auto intro: move_wf)

lemma exec_mip: "exec s s' \<Longrightarrow> mip_masked s \<Longrightarrow> mip_masked s'"
  by (induction rule: exec.induct) (auto intro: move_mip)

lemma exec_trans: "exec s' s'' \<Longrightarrow> exec s s' \<Longrightarrow> exec s s''"
  by (induction rule: exec.induct) (auto intro: exec_move)

lemma exec_first: "iss_move s s' \<Longrightarrow> exec s' s'' \<Longrightarrow> exec s s''"
  by (rule exec_trans) (auto intro: exec_move exec_refl)

lemma exec_below_exec: "exec_below l s s' \<Longrightarrow> exec s s'"
  by (induction rule: exec_below.induct) (auto intro: exec_refl exec_move)

lemma machine_part_iss_move:
  assumes "iss_move s s'" "wf_iss s" "mip_masked s" "priv_mode s < PRIV_M" "priv_mode s' < PRIV_M"
  shows "machine_part s' = machine_part s"
  using move_priv [OF assms(1)] machine_part_move [OF _ assms(2-4)] assms(5) by auto

lemma machine_part_mtvec: "machine_part s' = machine_part s \<Longrightarrow> csr_at s' CSR_MTVEC = csr_at s CSR_MTVEC"
  by (simp add: machine_part_def machine_csrs_def)

lemma exec_below_machine_part:
  "exec_below PRIV_M s s' \<Longrightarrow> wf_iss s \<Longrightarrow> mip_masked s \<Longrightarrow> priv_mode s' < PRIV_M \<Longrightarrow>
    machine_part s' = machine_part s"
proof (induction rule: exec_below.induct)
  case (below_move s s' s'')
  note e = exec_below_exec [OF below_move(1)]
  show ?case
    using machine_part_iss_move [OF below_move(3) exec_wf [OF e] exec_mip [OF e]] below_move by simp
qed simp

lemma move_to_machine:
  assumes "iss_move s s'" "wf_iss s" "priv_mode s < PRIV_M" "\<not> priv_mode s' < PRIV_M"
  shows "priv_mode s' = PRIV_M \<and> pc s' = csr_at s CSR_MTVEC"
proof -
  obtain s0 i where s0: "priv_move s s0" "s' = s0\<lparr>pending_interrupt := i\<rparr>" using move_priv [OF assms(1)] by blast
  then show ?thesis using priv_gain [OF s0(1) assms(2)] assms(3,4) by auto
qed

lemma exec_below_isolation:
  assumes "exec_below PRIV_M s s'" "wf_iss s" "mip_masked s" "priv_mode s < PRIV_M"
  shows "priv_mode s' < PRIV_M \<and> machine_part s' = machine_part s \<or>
    priv_mode s' = PRIV_M \<and> pc s' = csr_at s CSR_MTVEC"
  using assms(1)
proof cases
  case (below_move s1)
  note e = exec_below_exec [OF below_move(1)]
  have m: "machine_part s1 = machine_part s" using exec_below_machine_part below_move(1,2) assms(2,3) by blast
  have wf: "wf_iss s1" "mip_masked s1" using exec_wf [OF e] exec_mip [OF e] assms(2,3) by auto
  show ?thesis
  proof (cases "priv_mode s' < PRIV_M")
    case True
    then show ?thesis using machine_part_iss_move [OF below_move(3) wf below_move(2)] m by simp
  next
    case False
    then show ?thesis
      using move_to_machine [OF below_move(3) wf(1) below_move(2)] machine_part_mtvec [OF m] by simp
  qed
qed (use assms in simp)


section \<open>The run loop\<close>

lemma csr_write_frame [simp]: "xlen (csr_write s a v) = xlen s" "mem_mask (csr_write s a v) = mem_mask s"
  by (simp_all add: csr_write_def csr_store_def csr_set_def Let_def)

lemma trap_frame [simp]: "xlen (trap s c t) = xlen s" "mem_mask (trap s c t) = mem_mask s" "mem (trap s c t) = mem s"
    "regs (trap s c t) = regs s"
  by (simp_all add: trap_def Let_def)

lemma priv_move_config: "priv_move s s' \<Longrightarrow> xlen s' = xlen s \<and> mem_mask s' = mem_mask s"
  by (erule priv_moveE) (auto simp: plain_def mret_def sret_def Let_def)

lemma step_config: "step s w = Inr s' \<Longrightarrow> xlen s' = xlen s \<and> mem_mask s' = mem_mask s"
  using priv_move_config step_move by blast

lemma move_config: "iss_move s s' \<Longrightarrow> xlen s' = xlen s \<and> mem_mask s' = mem_mask s"
  using move_priv priv_move_config by fastforce

lemma take_interrupt_frame [simp]: "xlen (take_interrupt s) = xlen s" "\<not> interrupt_due (take_interrupt s) n"
  by (auto simp: take_interrupt_def interrupt_due_def split: option.splits)

text \<open>One iteration when no interrupt is due and the fetch address is mapped.\<close>

lemma run_loop_fetch:
  assumes "steps < max_steps" "\<not> interrupt_due s steps" "translate s (pc s) Fetch = (s, Some a)"
  shows "run_loop words max_steps s steps =
    (if a \<ge> int (length words) * 4 then Some (Inr (s, steps))
     else if self_loop (words ! nat (a div 4)) then Some (Inr (s, steps))
     else case step s (words ! nat (a div 4)) of Inl e \<Rightarrow> Some (Inl e)
        | Inr s' \<Rightarrow> run_loop words max_steps s' (steps + 1))"
  using assms by (subst run_loop.simps) (simp add: Let_def)

lemma run_loop_returns_rv64:
  assumes "wf_iss s" "xlen s = 64"
  shows "\<exists>r. run_loop words max_steps s steps = Some r"
  using assms
proof (induction "nat (max_steps - steps)" arbitrary: s steps rule: less_induct)
  case less
  show ?case
  proof (cases "steps < max_steps")
    case True
    have go: "\<exists>r. run_loop words max_steps s' steps = Some r"
      if s': "wf_iss s'" "xlen s' = 64" "\<not> interrupt_due s' steps" for s'
    proof -
      have "\<exists>r. run_loop words max_steps s'' (steps + 1) = Some r" if "step s' w = Inr s''" for s'' w
        using that s' step_wf step_config True by (intro less.hyps) auto
      then show ?thesis
        unfolding run_loop_fetch [OF True s'(3) translate_rv64_bare [OF s'(1,2)]] by (auto split: sum.splits)
    qed
    show ?thesis
    proof (cases "interrupt_due s steps")
      case due: True
      then have "run_loop words max_steps s steps = run_loop words max_steps (take_interrupt s) steps"
        using True by (subst run_loop.simps) simp
      then show ?thesis using go [of "take_interrupt s"] less.prems by (simp add: wf_take_interrupt)
    next
      case False
      then show ?thesis using go less.prems by blast
    qed
  next
    case False
    then show ?thesis by (subst run_loop.simps) simp
  qed
qed

text \<open>What a returning run returns, at either width.\<close>

definition run_result_ok :: "int \<Rightarrow> int \<Rightarrow> (iss \<times> int) result \<Rightarrow> bool" where
  "run_result_ok steps max_steps r \<longleftrightarrow>
     (case r of Inr (s', n) \<Rightarrow> wf_iss s' \<and> steps \<le> n \<and> n < max_steps
      | Inl e \<Rightarrow> e \<in> {RuntimeError, ValueError, KeyError})"

lemma run_result_ok_mono: "run_result_ok (n + 1) m r \<Longrightarrow> run_result_ok n m r"
  by (auto simp: run_result_ok_def split: sum.splits)

text \<open>The body of the loop over an arbitrary continuation.\<close>

abbreviation run_body ::
  "(int list \<Rightarrow> int \<Rightarrow> iss \<Rightarrow> int \<Rightarrow> (iss \<times> int) result option) \<Rightarrow> int list \<Rightarrow> int \<Rightarrow> iss \<Rightarrow> int \<Rightarrow>
    (iss \<times> int) result option" where
  "run_body loop words max_steps s steps \<equiv>
     (if steps < max_steps then
        if interrupt_due s steps then loop words max_steps (take_interrupt s) steps
        else (case translate s (pc s) Fetch of
            (s', None) \<Rightarrow> loop words max_steps s' steps
          | (s', Some fetch_addr) \<Rightarrow>
              if fetch_addr \<ge> int (length words) * 4 then Some (Inr (s', steps))
              else let word = words ! nat (fetch_addr div 4) in
                if self_loop word then Some (Inr (s', steps))
                else (case step s' word of
                    Inl e \<Rightarrow> Some (Inl e)
                  | Inr s'' \<Rightarrow> loop words max_steps s'' (steps + 1)))
      else Some (Inl RuntimeError))"

lemma run_body_step:
  assumes "run_body loop words max_steps s steps = Some r" "wf_iss s" "steps < max_steps"
    "\<not> interrupt_due s steps"
  shows "(\<exists>s'. wf_iss s' \<and> (loop words max_steps s' steps = Some r \<or>
      loop words max_steps s' (steps + 1) = Some r \<or> r = Inr (s', steps))) \<or> r \<in> {Inl ValueError, Inl KeyError}"
proof -
  obtain s' t where t: "translate s (pc s) Fetch = (s', t)" by fastforce
  note wf = mmu.keeps_wf [OF assms(2) t]
  show ?thesis
  proof (cases t)
    case None
    then show ?thesis using assms wf unfolding t by auto
  next
    case (Some a)
    let ?w = "words ! nat (a div 4)"
    consider "a \<ge> int (length words) * 4 \<or> self_loop ?w" | e where "r = Inl e" "step s' ?w = Inl e"
      | s'' where "step s' ?w = Inr s''" "loop words max_steps s'' (steps + 1) = Some r"
      using assms unfolding t Some by (auto simp: Let_def split: if_splits sum.splits)
    then show ?thesis
    proof cases
      case 1
      then have "r = Inr (s', steps)"
        using assms unfolding t Some by (cases "a \<ge> int (length words) * 4") (auto simp: Let_def)
      then show ?thesis using wf by blast
    qed (use ok_step [OF wf, of ?w] step_wf [OF wf] in auto)
  qed
qed

lemma run_loop_result:
  assumes "run_loop words max_steps s steps = Some r" "wf_iss s"
  shows "run_result_ok steps max_steps r"
proof (rule run_loop.raw_induct [where P = "\<lambda>words max_steps s steps r. wf_iss s \<longrightarrow> run_result_ok steps max_steps r",
      THEN mp, OF _ assms], intro impI)
  fix loop words max_steps s steps r
  assume IH: "\<And>words max_steps s steps r. loop words max_steps s steps = Some r \<Longrightarrow>
      wf_iss s \<longrightarrow> run_result_ok steps max_steps r"
    and body: "run_body loop words max_steps s steps = Some r" and wf: "wf_iss s"
  consider "\<not> steps < max_steps" | "steps < max_steps" "interrupt_due s steps"
    | "steps < max_steps" "\<not> interrupt_due s steps" by blast
  then show "run_result_ok steps max_steps r"
  proof cases
    case 3
    then show ?thesis
      using run_body_step [of steps max_steps s loop words r, OF body wf 3] IH run_result_ok_mono
      by (auto simp: run_result_ok_def [of _ _ "Inr _"] run_result_ok_def [of _ _ "Inl _"])
  qed (use body IH wf_take_interrupt [OF wf] in \<open>auto simp: run_result_ok_def [of _ _ "Inl _"]\<close>)
qed

text \<open>A run that returns ends in a state of \<open>exec\<close>: the moves are those of the loop.\<close>

lemma run_body_exec:
  assumes "run_body loop words max_steps s steps = Some (Inr (s', n))"
    and IH: "\<And>s1 steps. loop words max_steps s1 steps = Some (Inr (s', n)) \<Longrightarrow> exec s1 s'"
  shows "exec s s'"
proof -
  obtain s1 t where t: "translate s (pc s) Fetch = (s1, t)" by fastforce
  consider "interrupt_due s steps" | "\<not> interrupt_due s steps" "t = None" | a where "\<not> interrupt_due s steps" "t = Some a"
    by (cases t) auto
  then show ?thesis
  proof cases
    case 1
    then show ?thesis using assms by (auto intro: exec_first move_interrupt split: if_splits)
  next
    case 2
    then have "exec s1 s'" using assms t by (auto split: if_splits)
    then show ?thesis using exec_first [OF move_fetch_fault] t 2(2) by blast
  next
    case (3 a)
    then have [simp]: "s1 = s" using mmu.hit t by blast
    show ?thesis
      using assms t 3 by (auto simp: Let_def intro: exec_refl exec_first [OF move_step] split: if_splits sum.splits)
  qed
qed

lemma run_loop_exec:
  assumes "run_loop words max_steps s steps = Some (Inr (s', n))"
  shows "exec s s'"
proof -
  have "\<forall>s' n. r = Inr (s', n) \<longrightarrow> exec s s'" if "run_loop words max_steps s steps = Some r" for r
  proof (rule run_loop.raw_induct [where P = "\<lambda>words max_steps s steps r. \<forall>s' n. r = Inr (s', n) \<longrightarrow> exec s s'",
        OF _ that], intro allI impI)
    fix loop words max_steps s steps r s' n
    assume IH: "\<And>words max_steps s steps r. loop words max_steps s steps = Some r \<Longrightarrow>
        \<forall>s' n. r = Inr (s', n) \<longrightarrow> exec s s'"
      and body: "run_body loop words max_steps s steps = Some r" and r: "r = Inr (s', n)"
    show "exec s s'" by (rule run_body_exec [of steps max_steps s loop words s' n, OF body [unfolded r]]) (use IH in blast)
  qed
  then show ?thesis using assms by blast
qed

section \<open>A run that does not return\<close>

text \<open>
  On RV32 a fetch page fault restarts the loop without counting a step. With paging on, page
  faults delegated to S-mode and no page mapped at the handler, the loop runs forever.
\<close>

definition fault_storm :: "iss \<Rightarrow> bool" where
  "fault_storm s \<longleftrightarrow> xlen s = 32 \<and> priv_mode s \<noteq> PRIV_M \<and> bit (csr_at s CSR_SATP) 31 \<and>
     bit (csr_at s CSR_MEDELEG) 12 \<and> list_all (\<lambda>b. b = 0) (mem s) \<and> pending_interrupt s = None \<and>
     wf_iss s"

lemma zero_memory_byte: "wf_iss s \<Longrightarrow> list_all (\<lambda>b. b = 0) (mem s) \<Longrightarrow> load_mem_byte s a = 0"
  using mem_index [of s a] by (auto simp: load_mem_byte_def list_all_length)

lemma fault_storm_translate:
  assumes "fault_storm s"
  shows "\<exists>s'. translate s va Fetch = (s', None) \<and> fault_storm s'"
proof -
  have z: "read_pte s a = 0" for a
    using assms zero_memory_byte by (simp add: fault_storm_def read_pte_def Let_def)
  have m: "drop_bit 31 (csr_at s CSR_SATP) AND 1 \<noteq> 0"
    using assms by (simp add: fault_storm_def bit_iff_odd_drop_bit and_one_eq odd_iff_mod_2_eq_one)
  have d: "trap_to_s s 12"
    using assms by (simp add: fault_storm_def trap_to_s_def bit_iff_odd_drop_bit and_one_eq odd_iff_mod_2_eq_one)
  have "translate s va Fetch = page_fault s Fetch (u32 va)"
    using assms m z by (simp add: fault_storm_def translate_def translate_sv32_def Let_def pte_flag_def)
  moreover have "fault_storm (trap s 12 t)" for t
    using assms d wf_trap [of s 12 t] trap_vectors(1) [OF d, of t] unfolding fault_storm_def
    by (simp add: trap_def Let_def)
  ultimately show ?thesis by (simp add: page_fault_def fault_cause_def)
qed

lemma fault_storm_run_loop:
  assumes "fault_storm s" "steps < max_steps"
  shows "run_loop words max_steps s steps = None"
proof (rule ccontr)
  assume "run_loop words max_steps s steps \<noteq> None"
  then obtain r where r: "run_loop words max_steps s steps = Some r" by blast
  have "fault_storm s \<longrightarrow> steps < max_steps \<longrightarrow> False"
  proof (rule run_loop.raw_induct [where P = "\<lambda>words max_steps s steps r. fault_storm s \<longrightarrow> steps < max_steps \<longrightarrow> False",
        OF _ r], intro impI)
    fix loop words max_steps s steps r
    assume IH: "\<And>words max_steps s steps r. loop words max_steps s steps = Some r \<Longrightarrow>
        fault_storm s \<longrightarrow> steps < max_steps \<longrightarrow> False"
      and s: "fault_storm s" "steps < max_steps"
      and body: "run_body loop words max_steps s steps = Some r"
    obtain s' where t: "translate s (pc s) Fetch = (s', None)" "fault_storm s'"
      using fault_storm_translate [OF s(1)] by blast
    have "\<not> interrupt_due s steps" using s(1) by (simp add: fault_storm_def interrupt_due_def)
    then have "loop words max_steps s' steps = Some r" using body s(2) t(1) by simp
    then show False using IH t(2) s(2) by blast
  qed
  then show False using assms by blast
qed


section \<open>Properties\<close>

text \<open>C1. Every state the simulator can reach from reset by instructions (trap returns among
  them), interrupts and fetch faults has the right shape: 32 registers of the machine's width
  with x0 zero, 32 single-precision registers, byte-valued memory of the configured size, the
  constructor's CSRs within their width and no machine bit in \<open>mip\<close>, a valid privilege encoding;
  the width and the memory size are the configured ones. The state a \<open>run\<close> from there returns is
  such a state.\<close>

theorem reachable_wf:
  assumes "n \<le> 31" "xl = 32 \<or> xl = 64" "exec (iss_init (2 ^ n) xl) s"
  shows "wf_iss s \<and> mip_masked s \<and> xlen s = xl \<and> mem_mask s = 2 ^ n - 1 \<and>
    (\<forall>words max_steps s' k. run s words max_steps = Some (Inr (s', k)) \<longrightarrow>
       exec (iss_init (2 ^ n) xl) s' \<and> wf_iss s')"
proof -
  have "exec t s \<Longrightarrow> xlen s = xlen t \<and> mem_mask s = mem_mask t" for t
    by (induction rule: exec.induct) (auto dest: move_config)
  then have "xlen s = xl \<and> mem_mask s = 2 ^ n - 1" using assms(3) by (fastforce simp: iss_init_def)
  moreover have wf: "wf_iss s" by (rule exec_wf [OF assms(3) wf_iss_init [OF assms(1,2)]])
  moreover have "mip_masked s"
    by (rule exec_mip [OF assms(3)]) (simp add: mip_masked_def csr_at_def iss_init_def)
  moreover have "exec (iss_init (2 ^ n) xl) s' \<and> wf_iss s'"
    if "run s words max_steps = Some (Inr (s', k))" for words max_steps s' k
  proof -
    have "exec s s'" using that run_loop_exec unfolding run_def by blast
    then show ?thesis using exec_trans [OF _ assms(3)] exec_wf wf by blast
  qed
  ultimately show ?thesis by blast
qed

text \<open>An interrupt that is due at once: interrupts enabled, then scheduled and taken.\<close>

definition irq_sample :: iss where
  "irq_sample = csr_write (iss_init (2 ^ 12) 64) CSR_MSTATUS 8"

lemma irq_sample_exec: "exec (iss_init (2 ^ 12) 64) (take_interrupt (schedule_interrupt (irq_sample\<lparr>pc := 4\<rparr>) 0 0x80000007))"
proof -
  have "step (iss_init (2 ^ 12) 64) 0x30045073 = Inr (irq_sample\<lparr>pc := 4\<rparr>)"
    by (simp add: irq_sample_def step_def dec_op_def step_system_def step_csr_def dec_f3_def dec_rd_def dec_rs1_def
        next_pc_def csr_read_def csr_at_def iss_init_def wr_def csr_write_def csr_store_def csr_set_def
        MSTATUS_MASK_def u32_def Let_def)
  moreover have "interrupt_due (schedule_interrupt (irq_sample\<lparr>pc := 4\<rparr>) 0 0x80000007) 0"
    by (simp add: irq_sample_def interrupt_due_def schedule_interrupt_def csr_at_def csr_write_def csr_store_def
        csr_set_def iss_init_def MSTATUS_MASK_def u32_def)
  ultimately show ?thesis by (intro exec_move [OF exec_move [OF exec_move [OF exec_refl]]]) (rule iss_move.intros, assumption?)+
qed

theorem reachable_wf_witness:
  "wf_iss (take_interrupt (schedule_interrupt (irq_sample\<lparr>pc := 4\<rparr>) 0 0x80000007))"
  using reachable_wf [OF _ _ irq_sample_exec] by simp



text \<open>C2. Software below M-mode (modes U, S and the reserved 2), whatever instructions it executes
  and whatever interrupts and fetch faults it takes, cannot change the machine's own CSRs or the
  machine bits of \<open>mstatus\<close>, \<open>mie\<close> and \<open>mip\<close>; if it ends in M-mode, it is at the trap vector the
  machine installed. The machine bits of \<open>mip\<close> are those of every reachable state: zero.\<close>

theorem machine_isolation:
  assumes "exec_below PRIV_M s s'" "wf_iss s" "mip_masked s" "priv_mode s < PRIV_M"
  shows "priv_mode s' < PRIV_M \<and> machine_part s' = machine_part s \<or>
    priv_mode s' = PRIV_M \<and> pc s' = csr_at s CSR_MTVEC"
  by (rule exec_below_isolation [OF assms])

text \<open>C21. One step raises the privilege mode only by a trap: the new state is the trap's, at the
  supervisor or machine trap vector.\<close>

theorem privilege_gain_by_trap:
  assumes "wf_iss s" "step s w = Inr s'" "priv_mode s < priv_mode s'" "priv_mode s \<noteq> PRIV_M"
  shows "(\<exists>c t. s' = trap s c t) \<and> (priv_mode s' = PRIV_S \<and> pc s' = csr_at s CSR_STVEC \<or>
    priv_mode s' = PRIV_M \<and> pc s' = csr_at s CSR_MTVEC)"
  by (rule priv_gain [OF step_move [OF assms(2)] assms(1,3,4)])

text \<open>A user-mode \<open>ecall\<close>.\<close>

definition user_sample :: iss where
  "user_sample = (csr_write (iss_init (2 ^ 12) 32) CSR_MTVEC 0x100)\<lparr>priv_mode := PRIV_U\<rparr>"

lemma user_sample_wf: "wf_iss user_sample"
  using wf_csr_write [OF wf_iss_init [of 12 32], of CSR_MTVEC "0x100"]
  by (simp add: user_sample_def wf_iss_def fits_def [of 2])

lemma user_sample_state: "priv_mode user_sample = 0" "csr_at user_sample CSR_MTVEC = 0x100"
  "csr_at user_sample CSR_MEDELEG = 0"
  by (simp_all add: user_sample_def csr_write_def csr_store_def csr_set_def csr_at_def iss_init_def u32_def)

lemma user_sample_mip: "mip_masked user_sample"
  by (simp add: mip_masked_def user_sample_def csr_write_def csr_store_def csr_set_def csr_at_def iss_init_def)

lemma user_sample_ecall: "step user_sample 0x73 = Inr (trap user_sample 8 0)"
  by (simp add: step_def dec_op_def step_system_def step_priv_def dec_f3_def dec_f7_def user_sample_state)

lemma user_sample_trap: "priv_mode (trap user_sample 8 0) = 3"
  using trap_vectors(2) [of user_sample 8 0] by (simp add: trap_to_s_def user_sample_state)

theorem privilege_gain_by_trap_witness: "pc (trap user_sample 8 0) = 0x100"
  using privilege_gain_by_trap [OF user_sample_wf user_sample_ecall] user_sample_trap user_sample_state by auto

theorem machine_isolation_witness: "pc (trap user_sample 8 0) = 0x100"
  using machine_isolation [OF below_move [OF below_refl _ move_step [OF user_sample_ecall]] user_sample_wf]
    user_sample_mip user_sample_trap user_sample_state by simp

text \<open>C22. On RV64 \<open>run\<close> always returns: with a final state and a step count below the limit, or
  with the step-limit error, or with the exception of a step.\<close>

theorem run_returns_rv64:
  assumes "wf_iss s" "xlen s = 64"
  shows "\<exists>r. run s words max_steps = Some r \<and> run_result_ok 0 max_steps r"
  using run_loop_returns_rv64 [OF assms, of words max_steps 0] run_loop_result [OF _ assms(1), of words max_steps 0]
  unfolding run_def by blast

theorem run_returns_rv64_witness: "\<exists>r. run (iss_init (2 ^ 12) 64) [0x13, 0x6F] 100 = Some r"
  using run_returns_rv64 [OF wf_iss_init [of 12 64], of "[0x13, 0x6F]" 100] by (auto simp: iss_init_def)

definition storm_sample :: iss where
  "storm_sample = (csr_write (csr_write (iss_init (2 ^ 12) 32) CSR_MEDELEG 0x1000) CSR_SATP 0x80000000)
     \<lparr>priv_mode := PRIV_S\<rparr>"

lemma fault_storm_sample: "fault_storm storm_sample"
proof -
  have "wf_iss storm_sample"
    using wf_csr_write [OF wf_csr_write [OF wf_iss_init [of 12 32]], of CSR_MEDELEG "0x1000" CSR_SATP "0x80000000"]
    by (simp add: storm_sample_def wf_iss_def fits_def [of 2])
  then show ?thesis
    unfolding fault_storm_def
    by (simp add: storm_sample_def csr_write_def csr_store_def csr_set_def csr_at_def iss_init_def u32_def
        MEDELEG_MASK_def bit_iff_odd_drop_bit list_all_length)
qed

text \<open>C39. On RV32 \<open>run\<close> can run forever whatever the step limit: when instruction page faults are
  delegated to S-mode and the page tables map nothing, each fetch traps to an unmapped handler
  and the loop restarts without counting a step.\<close>

theorem run_may_diverge_rv32:
  "wf_iss storm_sample \<and> xlen storm_sample = 32 \<and> run storm_sample words (1 + int n) = None"
  using fault_storm_sample fault_storm_run_loop [OF fault_storm_sample, of 0 "1 + int n" words]
  by (simp add: fault_storm_def run_def)

text \<open>A program that writes the reserved encoding 2 to \<open>mstatus.MPP\<close> and returns with \<open>mret\<close>:
  \<open>lui x1, 1\<close>, \<open>csrrw x0, mstatus, x1\<close>, \<open>mret\<close>.\<close>

definition mpp_state1 :: iss where
  "mpp_state1 = (wr (iss_init (2 ^ 12) 32) 1 0x1000)\<lparr>pc := 4\<rparr>"

definition mpp_state2 :: iss where
  "mpp_state2 = (csr_write mpp_state1 CSR_MSTATUS 0x1000)\<lparr>pc := 8\<rparr>"

lemma mpp_steps:
  "step (iss_init (2 ^ 12) 32) 0x000010B7 = Inr mpp_state1"
  "step mpp_state1 0x30009073 = Inr mpp_state2"
  "step mpp_state2 0x30200073 = Inr (mret mpp_state2)"
  by (simp_all add: step_def dec_op_def step_lui_def step_system_def step_csr_def step_priv_def dec_f3_def dec_f7_def
      dec_rd_def dec_rs1_def reg_A_def wr_next_def next_pc_def mpp_state1_def mpp_state2_def s32_def wr_def uxlen_def
      uXLEN_take_bit iss_init_def Let_def csr_write_def csr_store_def csr_set_def)

lemma mpp_mode: "priv_mode (mret mpp_state2) = 2"
  by (simp add: mret_def mpp_state2_def mpp_state1_def csr_write_def csr_store_def csr_set_def csr_at_def wr_def
      iss_init_def u32_def MSTATUS_MASK_def Let_def)

text \<open>C40. The reserved privilege encoding is reachable: \<open>mstatus.MPP\<close> accepts 2 and \<open>mret\<close> then enters
  mode 2, where \<open>ecall\<close> ends in a \<open>KeyError\<close> instead of a trap.\<close>

theorem reserved_mode_reachable:
  "\<exists>s. exec (iss_init (2 ^ 12) 32) s \<and> priv_mode s = 2 \<and> step s 0x73 = Inl KeyError"
proof (intro exI conjI)
  show "exec (iss_init (2 ^ 12) 32) (mret mpp_state2)"
    using mpp_steps by (meson exec_refl exec_move move_step)
  show "step (mret mpp_state2) 0x73 = Inl KeyError"
    using mpp_mode by (simp add: step_def dec_op_def step_system_def step_priv_def dec_f3_def dec_f7_def)
qed (rule mpp_mode)

end
