(* ===== verification/Iss_Memory_Props.thy ===== *)
theory Iss_Memory_Props
  imports Iss_Step_Props
begin

text \<open>
  Loads and stores of all widths over the byte memory: what is stored is read back, sign
  extended by the load, and nothing else changes. The proofs are instances of the
  little-endian lemmas of the locale \<open>byte_store\<close>.
\<close>

section \<open>Multi-byte memory access\<close>

lemma cell_mod: "mem_mask s = 2 ^ k - 1 \<Longrightarrow> nat (a AND mem_mask s) = nat (a mod 2 ^ k)"
  by (simp only: and_mask_power take_bit_eq_mod)

lemma cell_distinct:
  assumes "mem_mask s = 2 ^ k - 1" "3 \<le> k" "i < n" "j < n" "n \<le> 8" "i \<noteq> j"
  shows "nat ((a + int i) AND mem_mask s) \<noteq> nat ((a + int j) AND mem_mask s)"
proof
  assume "nat ((a + int i) AND mem_mask s) = nat ((a + int j) AND mem_mask s)"
  then have "(a + int i) mod 2 ^ k = (a + int j) mod 2 ^ k"
    unfolding cell_mod [OF assms(1)] by (simp add: nat_eq_iff)
  then have "2 ^ k dvd (int i - int j)" by (simp add: mod_eq_dvd_iff)
  moreover have "(2::int) ^ 3 \<le> 2 ^ k" using assms(2) by (intro power_increasing) auto
  then have "\<bar>int i - int j\<bar> < 2 ^ k" using assms(3-5) by simp
  ultimately show False using assms(6) zdvd_imp_le [of "2 ^ k" "\<bar>int i - int j\<bar>"] by auto
qed

lemma store_bytes_byte:
  assumes "wf_iss s" "mem_mask s = 2 ^ k - 1" "3 \<le> k" "n \<le> 8" "a + int n \<le> 0x10000000" "i < n"
  shows "load_mem_byte (store_bytes s a v n) (a + int i) = take_bit 8 (drop_bit (8 * i) v)"
  unfolding store_bytes_def
  using assms mem_index [OF assms(1)] cell_distinct [OF assms(2,3)]
  by (intro ram.load_n_after_store_n) auto

lemma load_double_bytes: "load_double s a = foldl (\<lambda>v i. v OR push_bit (8 * i) (load_mem_byte s (a + int i))) 0 [0..<8]"
  by (rule load_double_def)

lemma load_word_bytes: "load_word s a = foldl (\<lambda>v i. v OR push_bit (8 * i) (load_mem_byte s (a + int i))) 0 [0..<4]"
  by (simp add: load_word_def upt_rec numeral_eq_Suc or.assoc)

lemma load_half_bytes: "load_half s a = foldl (\<lambda>v i. v OR push_bit (8 * i) (load_mem_byte s (a + int i))) 0 [0..<2]"
  by (simp add: load_half_def upt_rec numeral_eq_Suc)

lemma load_after_store_bytes:
  assumes "wf_iss s" "mem_mask s = 2 ^ k - 1" "3 \<le> k" "n \<le> 8" "a + int n \<le> 0x10000000"
  shows "foldl (\<lambda>w i. w OR push_bit (8 * i) (load_mem_byte (store_bytes s a v n) (a + int i))) 0 [0..<n] =
    take_bit (8 * n) v"
proof -
  have "foldl (\<lambda>w i. w OR push_bit (8 * i) (load_mem_byte (store_bytes s a v n) (a + int i))) 0 [0..<n] =
     foldl (\<lambda>w i. w OR push_bit (8 * i) (take_bit 8 (drop_bit (8 * i) v))) 0 [0..<n]"
    using store_bytes_byte [OF assms] by (intro foldl_cong) auto
  then show ?thesis by (simp only: little_endian_bytes)
qed

lemma store_bytes_other:
  assumes "wf_iss s" "mem_mask s = 2 ^ k - 1" "a + int n \<le> 0x10000000" "b < 0x10000000"
    and "int n \<le> (b - a) mod 2 ^ k"
  shows "load_mem_byte (store_bytes s a v n) b = load_mem_byte s b"
proof -
  have "nat (b AND mem_mask s) \<noteq> nat ((a + int i) AND mem_mask s)" if "i < n" for i
  proof
    assume "nat (b AND mem_mask s) = nat ((a + int i) AND mem_mask s)"
    then have "b mod 2 ^ k = (a + int i) mod 2 ^ k"
      unfolding cell_mod [OF assms(2)] by (simp add: nat_eq_iff)
    then have "(b - a) mod 2 ^ k = (a + int i - a) mod 2 ^ k" by (rule mod_diff_cong) simp
    also have "\<dots> \<le> int i" using zmod_le_nonneg_dividend [of "int i" "2 ^ k"] by simp
    finally show False using assms(5) that by simp
  qed
  then show ?thesis
    unfolding store_bytes_def using assms mem_index [OF assms(1)] by (intro ram.store_n_frame(3) [OF _ refl]) auto
qed

lemma sign_extended_load:
  "s32 (take_bit 8 v OR (if take_bit 8 v AND 0x80 \<noteq> 0 then 0xFFFFFF00 else 0)) = signed_take_bit 7 v"
  "s32 (take_bit 16 v OR (if take_bit 16 v AND 0x8000 \<noteq> 0 then 0xFFFF0000 else 0)) = signed_take_bit 15 v"
proof -
  have e: "take_bit 8 v OR (if take_bit 8 v AND 2 ^ 7 \<noteq> 0 then push_bit 8 (mask 24) else 0) = take_bit 32 (signed_take_bit 7 v)"
    (is "?l = ?r")
  proof (rule bit_eqI)
    show "bit ?l n \<longleftrightarrow> bit ?r n" for n unfolding and_power_eq_0_iff by (cases "n = 7") (auto simp: bit_simps min_def)
  qed
  have f: "take_bit 16 v OR (if take_bit 16 v AND 2 ^ 15 \<noteq> 0 then push_bit 16 (mask 16) else 0) = take_bit 32 (signed_take_bit 15 v)"
    (is "?l = ?r")
  proof (rule bit_eqI)
    show "bit ?l n \<longleftrightarrow> bit ?r n" for n unfolding and_power_eq_0_iff by (cases "n = 15") (auto simp: bit_simps min_def)
  qed
  have p: "push_bit 8 (mask 24) = (0xFFFFFF00::int)" "push_bit 16 (mask 16) = (0xFFFF0000::int)"
    by (simp_all add: push_bit_eq_mult mask_eq_exp_minus_1)
  have "take_bit 8 v OR (if take_bit 8 v AND 0x80 \<noteq> 0 then 0xFFFFFF00 else 0) = take_bit 32 (signed_take_bit 7 v)"
    "take_bit 16 v OR (if take_bit 16 v AND 0x8000 \<noteq> 0 then 0xFFFF0000 else 0) = take_bit 32 (signed_take_bit 15 v)"
    using e [unfolded p] f [unfolded p] by simp_all
  then show "s32 (take_bit 8 v OR (if take_bit 8 v AND 0x80 \<noteq> 0 then 0xFFFFFF00 else 0)) = signed_take_bit 7 v"
    "s32 (take_bit 16 v OR (if take_bit 16 v AND 0x8000 \<noteq> 0 then 0xFFFF0000 else 0)) = signed_take_bit 15 v"
    by (simp_all add: s32_signed signed_take_bit_take_bit)
qed

text \<open>C25. A value stored by SB, SH, SW or SD is read back by the load of the same width, sign
  extended (LD: all 64 bits), and no byte outside the stored ones changes, in a memory whose
  size is a power of two of at least eight bytes, below the device window.\<close>

theorem load_after_store:
  assumes "wf_iss s" "mem_mask s = 2 ^ k - 1" "3 \<le> k" "a + 8 \<le> 0x10000000" "f3 \<in> {0, 1, 2, 3}"
  shows "\<exists>s'. store_value s a f3 v = Inr s' \<and>
    load_value s' a f3 = Inr (if f3 = 3 then take_bit 64 v else signed_take_bit (8 * 2 ^ nat f3 - 1) v) \<and>
    (\<forall>b < 0x10000000. 2 ^ nat f3 \<le> (b - a) mod 2 ^ k \<longrightarrow> load_mem_byte s' b = load_mem_byte s b)"
proof -
  have one: "store_mem_byte s a v = store_bytes s a v 1" by (simp add: store_bytes_def)
  have two: "store_mem_byte (store_mem_byte s a v) (a + 1) (drop_bit 8 v) = store_bytes s a v 2"
    by (simp add: store_bytes_def upt_rec numeral_eq_Suc)
  note r = load_after_store_bytes [OF assms(1-3), of _ a v]
  have L: "load_mem_byte (store_bytes s a v 1) a = take_bit 8 v" "load_half (store_bytes s a v 2) a = take_bit 16 v"
    "load_word (store_bytes s a v 4) a = take_bit 32 v" "load_double (store_bytes s a v 8) a = take_bit 64 v"
    using r [of 1] r [of 2] r [of 4] r [of 8] assms(4)
    by (simp_all add: load_half_bytes load_word_bytes load_double_def)
  have o: "load_mem_byte (store_bytes s a v n) b = load_mem_byte s b"
    if "b < 0x10000000" "int n \<le> (b - a) mod 2 ^ k" "n \<le> 8" for n b
    using that assms(4) by (intro store_bytes_other [OF assms(1,2)]) auto
  consider "f3 = 0" | "f3 = 1" | "f3 = 2" | "f3 = 3" using assms(5) by auto
  then show ?thesis
  proof cases
    case 1
    then show ?thesis using L(1) o [of _ 1] by (simp add: store_value_def load_value_def one Let_def sign_extended_load)
  next
    case 2
    then show ?thesis using L(2) o [of _ 2] by (simp add: store_value_def load_value_def two Let_def sign_extended_load)
  next
    case 3
    then show ?thesis using L(3) o [of _ 4] by (simp add: store_value_def load_value_def s32_signed signed_take_bit_take_bit)
  next
    case 4
    then show ?thesis using L(4) o [of _ 8] by (simp add: store_value_def load_value_def)
  qed
qed

theorem load_after_store_witness:
  "\<exists>s'. store_value (iss_init 4096 64) 40 1 0xFEDC = Inr s' \<and> load_value s' 40 1 = Inr (signed_take_bit 15 0xFEDC)"
  using load_after_store [of "iss_init (2 ^ 12) 64" 12 40 1 "0xFEDC"] wf_iss_init [of 12 64]
  by (auto simp: iss_init_def)

end
