(* ===== verification/Iss_Alu_Props.thy ===== *)
theory Iss_Alu_Props
  imports Iss_Alu "HOL-Library.Signed_Division"
begin

text \<open>
  The integer ALU against machine words. \<open>r_sem\<close> gives the RV32/RV64 register-register
  instructions their meaning on \<open>'a word\<close> (wrap-around arithmetic, signed and unsigned
  comparison, division as the ISA manual defines it for zero divisors and overflow);
  \<open>op_r_result\<close>, which computes with unbounded integers and masks, is proved to implement it
  at both widths.
\<close>

section \<open>Reference semantics\<close>

datatype r_op = R_ADD | R_SUB | R_SLL | R_SLT | R_SLTU | R_XOR | R_SRL | R_SRA | R_OR | R_AND
  | R_MUL | R_MULH | R_MULHSU | R_MULHU | R_DIV | R_DIVU | R_REM | R_REMU

fun r_code :: "r_op \<Rightarrow> int \<times> int" where
  "r_code R_ADD = (0, 0)" | "r_code R_SUB = (0b0100000, 0)" | "r_code R_SLL = (0, 1)"
| "r_code R_SLT = (0, 2)" | "r_code R_SLTU = (0, 3)" | "r_code R_XOR = (0, 4)"
| "r_code R_SRL = (0, 5)" | "r_code R_SRA = (0b0100000, 5)" | "r_code R_OR = (0, 6)" | "r_code R_AND = (0, 7)"
| "r_code R_MUL = (1, 0)" | "r_code R_MULH = (1, 1)" | "r_code R_MULHSU = (1, 2)" | "r_code R_MULHU = (1, 3)"
| "r_code R_DIV = (1, 4)" | "r_code R_DIVU = (1, 5)" | "r_code R_REM = (1, 6)" | "r_code R_REMU = (1, 7)"

definition shamt :: "'a::len word \<Rightarrow> nat" where
  "shamt b = nat (uint b mod int LENGTH('a))"

fun r_sem :: "r_op \<Rightarrow> 'a::len word \<Rightarrow> 'a word \<Rightarrow> 'a word" where
  "r_sem R_ADD a b = a + b"
| "r_sem R_SUB a b = a - b"
| "r_sem R_SLL a b = push_bit (shamt b) a"
| "r_sem R_SLT a b = of_bool (sint a < sint b)"
| "r_sem R_SLTU a b = of_bool (a < b)"
| "r_sem R_XOR a b = a XOR b"
| "r_sem R_SRL a b = drop_bit (shamt b) a"
| "r_sem R_SRA a b = word_of_int (sint a div 2 ^ shamt b)"
| "r_sem R_OR a b = a OR b"
| "r_sem R_AND a b = a AND b"
| "r_sem R_MUL a b = a * b"
| "r_sem R_MULH a b = word_of_int (sint a * sint b div 2 ^ LENGTH('a))"
| "r_sem R_MULHSU a b = word_of_int (sint a * uint b div 2 ^ LENGTH('a))"
| "r_sem R_MULHU a b = word_of_int (uint a * uint b div 2 ^ LENGTH('a))"
| "r_sem R_DIV a b = (if b = 0 then -1 else word_of_int (sint a sdiv sint b))"
| "r_sem R_DIVU a b = (if b = 0 then -1 else a div b)"
| "r_sem R_REM a b = (if b = 0 then a else word_of_int (sint a smod sint b))"
| "r_sem R_REMU a b = (if b = 0 then a else a mod b)"

section \<open>A machine width and its word type\<close>

locale machine_word =
  fixes xl :: nat and k :: nat and ty :: "'a::len itself"
  assumes width: "xl = LENGTH('a)" and power_width: "xl = 2 ^ k"
begin

lemma sx: "sXLEN (uint a) xl = sint (a :: 'a word)"
  by (simp add: sXLEN_signed width sint_uint)

lemma ux: "uXLEN (uint a) xl = uint (a :: 'a word)"
  by (simp add: uXLEN_take_bit width take_bit_int_eq_self_iff)

lemma uw: "uXLEN x xl = uint (word_of_int x :: 'a word)"
  by (simp add: uXLEN_take_bit width uint_word_of_int_eq)

lemma amount: "nat (uint (b :: 'a word) AND (int xl - 1)) = shamt b"
proof -
  have "int xl - 1 = 2 ^ k - 1" using power_width by simp
  then show ?thesis
    using power_width by (simp add: shamt_def and_mask_power take_bit_eq_mod width [symmetric])
qed


lemma wrapped:
  fixes a b :: "'a word"
  shows "uXLEN (uint a + uint b) xl = uint (a + b)" "uXLEN (uint a - uint b) xl = uint (a - b)"
    "uXLEN (uint a * uint b) xl = uint (a * b)" "uXLEN (uint a XOR uint b) xl = uint (a XOR b)"
    "uXLEN (uint a OR uint b) xl = uint (a OR b)" "uXLEN (uint a AND uint b) xl = uint (a AND b)"
    "uXLEN (push_bit n (uint a)) xl = uint (push_bit n a)" "uXLEN (-1) xl = uint (-1 :: 'a word)"
    "drop_bit n (uint a) = uint (drop_bit n a)"
proof -
  show "uXLEN (uint a XOR uint b) xl = uint (a XOR b)" "uXLEN (uint a OR uint b) xl = uint (a OR b)"
    "uXLEN (uint a AND uint b) xl = uint (a AND b)"
    using ux [of "a XOR b"] ux [of "a OR b"] ux [of "a AND b"]
    by (simp_all add: unsigned_xor_eq unsigned_or_eq unsigned_and_eq)
qed (simp_all add: uXLEN_take_bit width unsigned_push_bit_eq unsigned_drop_bit_eq uint_word_ariths take_bit_eq_mod
    unsigned_minus_1_eq_mask mask_eq_exp_minus_1 take_bit_minus_one_eq_mask)

lemma base_ops:
  fixes a b :: "'a word"
  assumes "op \<in> {R_ADD, R_SUB, R_SLL, R_SLT, R_SLTU, R_XOR, R_SRL, R_SRA, R_OR, R_AND}" "r_code op = (f7, f3)"
  shows "op_r_result xl f7 f3 (uint a) (uint b) = Inr (uint (r_sem op a b))"
  using assms
  by (elim insertE emptyE)
    (simp_all add: op_r_result_def op_r_ext_def op_r_base_def amount sx ux wrapped word_less_def
      drop_bit_eq_div [of _ "sint _"] uw [of "sint _ div _"])

lemma sdiv_alt: "(if (x < 0) \<noteq> (y < 0) then - (\<bar>x\<bar> div \<bar>y\<bar>) else \<bar>x\<bar> div \<bar>y\<bar>) = x sdiv (y::int)" if "y \<noteq> 0"
  using that by (auto simp: signed_divide_int_def sgn_if)

lemma smod_alt: "(if x < 0 then - (\<bar>x\<bar> mod \<bar>y\<bar>) else \<bar>x\<bar> mod \<bar>y\<bar>) = x smod (y::int)"
  by (auto simp: smod_int_alt_def sgn_if)


lemma high_word:
  "uXLEN (drop_bit xl p) xl = uint (word_of_int (p div 2 ^ LENGTH('a)) :: 'a word)"
  by (simp only: uw drop_bit_eq_div) (simp only: width)

lemma int_div_less: "x < z * y \<Longrightarrow> x div y < z" if "0 < y" for x y z :: int
proof (rule ccontr)
  assume x: "x < z * y" and "\<not> x div y < z"
  then have "z * y \<le> x div y * y" using that by (intro mult_right_mono) auto
  also have "\<dots> \<le> x" using that by (simp flip: minus_mod_eq_div_mult)
  finally show False using x by simp
qed

lemma mulhu_word:
  fixes a b :: "'a word"
  shows "drop_bit xl (uint a * uint b) = uint (word_of_int (uint a * uint b div 2 ^ LENGTH('a)) :: 'a word)"
proof -
  have "uint a * uint b < 2 ^ LENGTH('a) * 2 ^ LENGTH('a)"
    by (intro mult_strict_mono) (simp_all add: unsigned_less)
  then have "uint a * uint b div 2 ^ LENGTH('a) < 2 ^ LENGTH('a)"
    by (intro int_div_less) simp_all
  then show ?thesis
    by (simp add: drop_bit_eq_div width uint_word_of_int_eq take_bit_int_eq_self pos_imp_zdiv_nonneg_iff)
qed

lemma overflow_quotient:
  fixes a b :: "'a word"
  assumes "sint a = - (2 ^ (xl - 1))" "sint b = -1"
  shows "word_of_int (sint a sdiv sint b) = a" "word_of_int (sint a smod sint b) = (0 :: 'a word)"
proof -
  have "sint a sdiv sint b = - sint a" "sint a smod sint b = 0"
    using assms(2) by (simp_all add: smod_int_alt_def)
  moreover have "word_of_int (- sint a) = a"
  proof -
    have "- sint a = sint a + 2 ^ LENGTH('a)"
      using assms(1) width by (cases "LENGTH('a)") simp_all
    then show ?thesis
      by (simp only: of_int_add of_int_sint of_int_power of_int_numeral word_exp_length_eq_0 add_0_right scast_id)
  qed
  ultimately show "word_of_int (sint a sdiv sint b) = a" "word_of_int (sint a smod sint b) = (0 :: 'a word)"
    by simp_all
qed

lemma muldiv_ops:
  fixes a b :: "'a word"
  assumes "op \<in> {R_MUL, R_MULH, R_MULHSU, R_MULHU, R_DIV, R_DIVU, R_REM, R_REMU}" "r_code op = (f7, f3)"
  shows "op_r_result xl f7 f3 (uint a) (uint b) = Inr (uint (r_sem op a b))"
proof -
  have b0: "uint b = 0 \<longleftrightarrow> b = 0" by (simp add: uint_0_iff)
  have s0: "sint b \<noteq> 0" if "b \<noteq> 0" using that by (simp add: signed_eq_0_iff)
  consider "op \<in> {R_MUL, R_MULH, R_MULHSU, R_MULHU, R_DIVU, R_REMU}" | "op \<in> {R_DIV, R_REM}" "b = 0"
    | "op \<in> {R_DIV, R_REM}" "b \<noteq> 0" "sint a = - (2 ^ (xl - 1))" "sint b = -1"
    | "op \<in> {R_DIV, R_REM}" "b \<noteq> 0" "\<not> (sint a = - (2 ^ (xl - 1)) \<and> sint b = -1)" using assms(1) by blast
  then show ?thesis
  proof cases
    case 1
    then show ?thesis
      using assms(2) by (elim insertE emptyE) (simp_all add: op_r_result_def op_r_muldiv_def sx ux wrapped high_word
          mulhu_word b0 uint_div uint_mod)
  next
    case 2
    then show ?thesis using assms(2) by (elim insertE emptyE) (simp_all add: op_r_result_def op_r_muldiv_def wrapped)
  next
    case 3
    then show ?thesis
      using assms(2) overflow_quotient [OF 3(3,4)]
      by (elim insertE emptyE) (simp_all only: op_r_result_def op_r_muldiv_def sx r_code.simps r_sem.simps b0 prod.inject, simp_all)
  next
    case 4
    have "op_r_muldiv xl 4 (uint a) (uint b) = uXLEN (sint a sdiv sint b) xl"
      "op_r_muldiv xl 6 (uint a) (uint b) = uXLEN (sint a smod sint b) xl"
      unfolding op_r_muldiv_def sx Let_def b0 sdiv_alt [OF s0 [OF 4(2)]] smod_alt using 4(2,3) by auto
    then show ?thesis
      using assms(2) 4(1,2) by (elim insertE emptyE) (simp_all add: op_r_result_def uw)
  qed
qed

lemma r_ops:
  fixes a b :: "'a word"
  shows "op_r_result xl (fst (r_code op)) (snd (r_code op)) (uint a) (uint b) = Inr (uint (r_sem op a b))"
proof -
  have "op \<in> {R_ADD, R_SUB, R_SLL, R_SLT, R_SLTU, R_XOR, R_SRL, R_SRA, R_OR, R_AND} \<or>
      op \<in> {R_MUL, R_MULH, R_MULHSU, R_MULHU, R_DIV, R_DIVU, R_REM, R_REMU}" by (cases op) simp_all
  then show ?thesis
    using base_ops [OF _ surjective_pairing, of op a b] muldiv_ops [OF _ surjective_pairing, of op a b] by fast
qed

end

interpretation rv32: machine_word 32 5 "TYPE(32)"
  by standard simp_all

interpretation rv64: machine_word 64 6 "TYPE(64)"
  by standard simp_all


section \<open>OP-32\<close>

lemma u32_ucast: "u32 (uint a) = uint (ucast a :: 32 word)" for a :: "64 word"
  by (simp add: u32_take_bit unsigned_ucast_eq)

lemma s32_ucast: "s32 (uint a) = sint (ucast a :: 32 word)" for a :: "64 word"
  by (simp add: s32_signed sint_uint unsigned_ucast_eq signed_take_bit_take_bit)

lemma s32_uint: "s32 (uint w) = sint w" for w :: "32 word"
  by (simp add: s32_signed sint_uint)

lemma u32_XLEN: "u32 x = uXLEN x 32"
  by (simp add: u32_take_bit uXLEN_take_bit)

lemmas rv32_u32 = rv32.wrapped [folded u32_XLEN] rv32.ux [folded u32_XLEN]

lemma u32_wrapped:
  fixes a b :: "64 word"
  shows "u32 (uint a + uint b) = uint (ucast a + ucast b :: 32 word)"
    "u32 (uint a - uint b) = uint (ucast a - ucast b :: 32 word)"
    "u32 (uint a * uint b) = uint (ucast a * ucast b :: 32 word)"
  by (simp_all add: u32_take_bit uint_word_ariths unsigned_ucast_eq take_bit_eq_mod mod_simps)

lemma amount_32: "nat (uint b AND 31) = shamt (ucast b :: 32 word)" for b :: "64 word"
  by (simp add: shamt_def mask_simps unsigned_ucast_eq take_bit_eq_mod mod_mod_cancel)

definition op_32_ops :: "r_op set" where
  "op_32_ops = {R_ADD, R_SUB, R_SLL, R_SRL, R_SRA, R_MUL, R_DIV, R_DIVU, R_REM, R_REMU}"

lemma op_32_words:
  fixes a b :: "64 word"
  assumes "op \<in> op_32_ops" "r_code op = (f7, f3)"
  shows "op_32_result f7 f3 (uint a) (uint b) = Inr (sint (r_sem op (ucast a) (ucast b) :: 32 word))"
proof (cases "op \<in> {R_MUL, R_DIV, R_DIVU, R_REM, R_REMU}")
  case True
  let ?A = "ucast a :: 32 word" let ?B = "ucast b :: 32 word"
  have "op_r_result 32 f7 f3 (uint ?A) (uint ?B) = Inr (uint (r_sem op ?A ?B))"
    using rv32.r_ops [of op ?A ?B] assms(2) by simp
  moreover have "op_r_result 32 f7 f3 (uint ?A) (uint ?B) = Inr (op_r_muldiv 32 f3 (uint ?A) (uint ?B))" and f7: "f7 = 1"
    using True assms(2) by (auto simp: op_r_result_def)
  moreover have "op_32_muldiv f3 (uint a) (uint b) = op_r_muldiv 32 f3 (uint ?A) (uint ?B)"
    using True assms(2)
    by (elim insertE emptyE) (simp_all add: op_32_muldiv_def op_r_muldiv_def u32_ucast s32_ucast rv32.sx rv32.ux
        u32_wrapped rv32_u32 u32_XLEN [symmetric] unsigned_minus_1_eq_mask mask_eq_exp_minus_1)
  ultimately have "op_32_muldiv f3 (uint a) (uint b) = uint (r_sem op ?A ?B)" by simp
  then show ?thesis by (simp add: op_32_result_def f7 s32_uint)
next
  case False
  then show ?thesis
    using assms unfolding op_32_ops_def
    by (elim insertE emptyE) (simp_all add: op_32_result_def u32_wrapped u32_ucast s32_ucast s32_uint amount_32
        rv32_u32 rv32.uw [of "sint _ div _", folded u32_XLEN] drop_bit_eq_div [of _ "sint _"] Let_def)
qed

section \<open>Rotation\<close>

context machine_word
begin

lemma shamt_less: "shamt (b :: 'a word) < LENGTH('a)"
  by (simp add: shamt_def nat_less_iff)

lemma bit_uint: "bit (uint (a :: 'a word)) n \<longleftrightarrow> bit a n"
  by (auto simp: bit_uint_iff dest: bit_imp_le_length)

lemma rol_word:
  fixes a :: "'a word"
  assumes "n < LENGTH('a)"
  shows "uXLEN (rotate_left xl (uint a) n) xl = uint (word_rotl n a)"
proof (rule bit_eqI)
  fix i
  have l: "bit (uXLEN (rotate_left xl (uint a) n) xl) i \<longleftrightarrow> i < LENGTH('a) \<and>
      (n \<le> i \<and> bit a (i - n) \<or> n \<noteq> 0 \<and> bit a (i + (LENGTH('a) - n)))"
    unfolding uXLEN_take_bit rotate_left_def width
    by (simp add: bit_take_bit_iff bit_or_iff bit_push_bit_iff bit_drop_bit_eq bit_uint ac_simps)
  have r: "bit (uint (word_rotl n a)) i \<longleftrightarrow> i < LENGTH('a) \<and> bit a ((i + (LENGTH('a) - n)) mod LENGTH('a))"
    using assms by (simp add: bit_uint bit_word_rotl_iff)
  have hi: "\<not> bit a (i + (LENGTH('a) - n))" if "n \<le> i" using that assms by (auto dest: bit_imp_le_length)
  show "bit (uXLEN (rotate_left xl (uint a) n) xl) i \<longleftrightarrow> bit (uint (word_rotl n a)) i"
  proof (cases "i < LENGTH('a) \<and> n \<le> i")
    case True
    then have "i + (LENGTH('a) - n) = (i - n) + LENGTH('a)" "i - n < LENGTH('a)" using assms by auto
    then have "(i + (LENGTH('a) - n)) mod LENGTH('a) = i - n" by (simp only: mod_add_self2 mod_less)
    then show ?thesis unfolding l r using hi True by auto
  next
    case False
    then have "\<not> i < LENGTH('a) \<or> (i + (LENGTH('a) - n)) mod LENGTH('a) = i + (LENGTH('a) - n) \<and> \<not> n \<le> i \<and> n \<noteq> 0"
      using assms by auto
    then show ?thesis unfolding l r by auto
  qed
qed

lemma ror_word:
  fixes a :: "'a word"
  assumes "n < LENGTH('a)"
  shows "uXLEN (rotate_right xl (uint a) n) xl = uint (word_rotr n a)"
proof (rule bit_eqI)
  fix i
  have l: "bit (uXLEN (rotate_right xl (uint a) n) xl) i \<longleftrightarrow> i < LENGTH('a) \<and>
      (bit a (i + n) \<or> n \<noteq> 0 \<and> LENGTH('a) - n \<le> i \<and> bit a (i - (LENGTH('a) - n)))"
    unfolding uXLEN_take_bit rotate_right_def width
    by (simp add: bit_take_bit_iff bit_or_iff bit_push_bit_iff bit_drop_bit_eq bit_uint ac_simps)
  have r: "bit (uint (word_rotr n a)) i \<longleftrightarrow> i < LENGTH('a) \<and> bit a ((i + n) mod LENGTH('a))"
    using assms by (simp add: bit_uint bit_word_rotr_iff)
  have hi: "\<not> bit a (i + n)" if "LENGTH('a) - n \<le> i" using that assms by (auto dest: bit_imp_le_length)
  show "bit (uXLEN (rotate_right xl (uint a) n) xl) i \<longleftrightarrow> bit (uint (word_rotr n a)) i"
  proof (cases "i < LENGTH('a) \<and> LENGTH('a) - n \<le> i")
    case True
    then have "i + n = (i - (LENGTH('a) - n)) + LENGTH('a)" "i - (LENGTH('a) - n) < LENGTH('a)" using assms by auto
    then have "(i + n) mod LENGTH('a) = i - (LENGTH('a) - n)" by (simp only: mod_add_self2 mod_less)
    then show ?thesis unfolding l r using hi True assms by auto
  next
    case False
    then show ?thesis unfolding l r by auto
  qed
qed

lemma rotate_ops:
  fixes a b :: "'a word"
  shows "op_r_ext xl 0b0110000 1 (uint a) (uint b) = Some (rotate_left xl (uint a) (shamt b))"
    "op_r_ext xl 0b0110000 5 (uint a) (uint b) = Some (rotate_right xl (uint a) (shamt b))"
    "op_r_result xl 0b0110000 1 (uint a) (uint b) = Inr (rotate_left xl (uint a) (shamt b))"
    "op_r_result xl 0b0110000 5 (uint a) (uint b) = Inr (rotate_right xl (uint a) (shamt b))"
  by (simp_all add: op_r_ext_def op_r_result_def ux amount Let_def)

end


section \<open>Carry-less multiplication\<close>

lemma clmul_loop_0: "clmul_loop 0 A B = 0"
  by (simp add: clmul_loop_def)

lemma clmul_loop_suc:
  "clmul_loop (Suc n) A B = (if bit B n then clmul_loop n A B XOR push_bit n A else clmul_loop n A B)"
  by (simp add: clmul_loop_def bit_iff_odd_drop_bit and_one_eq odd_iff_mod_2_eq_one)

lemma clmulh_foldl:
  assumes "fits w A" and that: "n \<le> w"
  shows "foldl (\<lambda>res i. if drop_bit i B AND 1 \<noteq> 0 then res XOR drop_bit (w - i) A else res) 0 [1..<n] =
    drop_bit w (clmul_loop n A B)"
  using that
proof (induction n)
  case 0
  then show ?case by (simp add: clmul_loop_def)
next
  case (Suc n)
  have A: "drop_bit w A = 0" using assms by (simp add: drop_bit_eq_div fits_def)
  have "drop_bit w (push_bit n A) = drop_bit (w - n) A" using Suc.prems by (intro bit_eqI) (auto simp: bit_simps)
  then show ?case
    using Suc A by (cases "n = 0")
      (simp_all add: clmul_loop_0 clmul_loop_suc bit_iff_odd_drop_bit and_one_eq odd_iff_mod_2_eq_one)
qed

text \<open>The bits of a carry-less product: the parity of the number of ways to split the position.\<close>

lemma clmul_bit:
  "bit (clmul_loop n A B) m \<longleftrightarrow> odd (card {i. i < n \<and> i \<le> m \<and> bit B i \<and> bit A (m - i)})"
proof (induction n)
  case 0
  then show ?case by (simp add: clmul_loop_def)
next
  case (Suc n)
  let ?S = "\<lambda>n. {i. i < n \<and> i \<le> m \<and> bit B i \<and> bit A (m - i)}"
  have fin: "finite (?S n)" by simp
  have "?S (Suc n) = (if n \<le> m \<and> bit B n \<and> bit A (m - n) then insert n (?S n) else ?S n)"
    by (auto simp: less_Suc_eq)
  moreover have "n \<notin> ?S n" by simp
  ultimately have "odd (card (?S (Suc n))) \<longleftrightarrow>
      ((n \<le> m \<and> bit B n \<and> bit A (m - n)) \<noteq> odd (card (?S n)))"
    using fin by (cases "n \<le> m \<and> bit B n \<and> bit A (m - n)") auto
  then show ?case
    unfolding clmul_loop_suc using Suc by (cases "bit B n") (simp_all add: bit_xor_iff bit_push_bit_iff, blast?)
qed

lemma clmul_commute:
  assumes "fits w A" "fits w B"
  shows "clmul_loop w A B = clmul_loop w B A"
proof (rule bit_eqI)
  fix m
  let ?S = "\<lambda>A B. {i. i < w \<and> i \<le> m \<and> bit B i \<and> bit A (m - i)}"
  have lt: "bit A i \<Longrightarrow> i < w" "bit B i \<Longrightarrow> i < w" for i
    using fits_high_bit [OF assms(1)] fits_high_bit [OF assms(2)] by (meson linorder_not_le)+
  have "bij_betw (\<lambda>i. m - i) (?S A B) (?S B A)"
    by (rule bij_betw_byWitness [where f' = "\<lambda>i. m - i"]) (use lt in auto)
  then have "card (?S A B) = card (?S B A)" by (rule bij_betw_same_card)
  then show "bit (clmul_loop w A B) m \<longleftrightarrow> bit (clmul_loop w B A) m" by (simp add: clmul_bit)
qed

section \<open>Counting bits\<close>

lemma take_bit_zero_iff: "take_bit n A = 0 \<longleftrightarrow> (\<forall>i<n. \<not> bit (A::int) i)"
  by (auto simp: bit_eq_iff bit_take_bit_iff)

lemma take_bit_Suc_zero_iff: "take_bit (Suc n) A = 0 \<longleftrightarrow> \<not> bit (A::int) n \<and> take_bit n A = 0"
  by (auto simp: take_bit_zero_iff less_Suc_eq)

lemma clz_loop_spec:
  "clz_loop A n c = c + int n \<and> take_bit n A = 0 \<or>
   (\<exists>h < n. clz_loop A n c = c + int (n - 1 - h) \<and> bit A h \<and> take_bit (n - Suc h) (drop_bit (Suc h) A) = 0)"
proof (induction n arbitrary: c)
  case (Suc n)
  have b: "drop_bit n A AND 1 \<noteq> 0 \<longleftrightarrow> bit A n"
    by (simp add: bit_iff_odd_drop_bit and_one_eq odd_iff_mod_2_eq_one)
  show ?case
  proof (cases "bit A n")
    case True
    then show ?thesis using b by (intro disjI2 exI [of _ n]) simp
  next
    case False
    then have e: "clz_loop A (Suc n) c = clz_loop A n (c + 1)" using b by simp
    from Suc.IH [of "c + 1"] show ?thesis
    proof (elim disjE exE conjE)
      assume "clz_loop A n (c + 1) = c + 1 + int n" "take_bit n A = 0"
      then show ?thesis using False e by (simp add: take_bit_Suc_zero_iff)
    next
      fix h assume h: "h < n" "clz_loop A n (c + 1) = c + 1 + int (n - 1 - h)" "bit A h"
        "take_bit (n - Suc h) (drop_bit (Suc h) A) = 0"
      have "take_bit (Suc n - Suc h) (drop_bit (Suc h) A) = 0"
        using h(1,4) False Suc_diff_Suc [OF h(1)] take_bit_Suc_zero_iff [of "n - Suc h" "drop_bit (Suc h) A"]
        by (simp add: bit_drop_bit_eq)
      then show ?thesis using h e by (intro disjI2 exI [of _ h]) auto
    qed
  qed
qed (simp)

lemma ctz_loop_state:
  "foldl (\<lambda>(count, done) i. if drop_bit i (A::int) AND 1 = 0 \<and> \<not> done then (count + 1, done) else (count, True)) (0, False) [0..<n]
    = (if take_bit n A = 0 then (int n, False) else (int (LEAST i. bit A i), True))"
proof (induction n)
  case (Suc n)
  have b: "drop_bit n A AND 1 = 0 \<longleftrightarrow> \<not> bit A n"
    by (simp add: bit_iff_odd_drop_bit and_one_eq odd_iff_mod_2_eq_one)
  have "(LEAST i. bit A i) = n" if "take_bit n A = 0" "bit A n"
  proof (rule Least_equality)
    show "bit A n" by (rule that(2))
    show "n \<le> i" if "bit A i" for i
      using \<open>take_bit n A = 0\<close> that by (metis bit_0_eq bit_take_bit_iff bot_apply bot_bool_def linorder_not_less)
  qed
  then show ?case using Suc b by (auto simp: take_bit_Suc_zero_iff)
qed simp

lemma ctz_loop_spec: "ctz_loop A n = (if take_bit n A = 0 then int n else int (LEAST i. bit A i))"
  unfolding ctz_loop_def ctz_loop_state by simp

lemma bit_add_double: "bit (2 * x + of_bool_int p) n \<longleftrightarrow> (if n = 0 then p else bit x (n - 1))"
  by (cases n) (auto simp: of_bool_int_def bit_Suc bit_0)

lemma bits_step: "{i. bit x i} = (if odd x then {0} else {}) \<union> Suc ` {i. bit (x div 2) i}" for x :: int
proof -
  have "bit x i \<longleftrightarrow> i = 0 \<and> odd x \<or> (\<exists>j. i = Suc j \<and> bit (x div 2) j)" for i
    by (cases i) (simp_all add: bit_0 bit_Suc)
  then show ?thesis by auto
qed

lemma finite_bits: "0 \<le> x \<Longrightarrow> finite {i. bit (x::int) i}"
proof -
  assume x: "0 \<le> x"
  have "x < 2 ^ nat x" using x of_nat_less_two_power [of "nat x", where 'a = int] by simp
  then have "{i. bit x i} \<subseteq> {..<nat x}"
    using fits_high_bit [of "nat x" x] x by (auto simp: fits_def not_le [symmetric])
  then show ?thesis by (rule finite_subset) simp
qed

lemma card_bits_step: "0 \<le> x \<Longrightarrow> card {i. bit (x::int) i} = (if odd x then 1 else 0) + card {i. bit (x div 2) i}"
  using finite_bits [of "x div 2"] by (subst bits_step) (simp add: card_image card_insert_if)

lemma bin_digits_count:
  "0 \<le> x \<Longrightarrow> length (filter (\<lambda>d. d = CHR ''1'') (bin_digits x)) = card {i. bit x i}"
proof (induction x rule: bin_digits.induct)
  case (1 n)
  show ?case
  proof (cases "n < 2")
    case True
    with 1 have "n = 0 \<or> n = 1" by auto
    then show ?thesis
      by (subst bin_digits.simps) (auto simp: card_bits_step [of 1] bot_fun_def)
  next
    case False
    then show ?thesis
      using 1 by (subst bin_digits.simps) (auto simp: card_bits_step [of n] even_iff_mod_2_eq_zero)
  qed
qed

lemma cpop_spec: "0 \<le> x \<Longrightarrow> py_count (py_bin x) CHR ''1'' = int (card {i. bit x i})"
  by (simp add: py_count_def py_bin_def bin_digits_count)

section \<open>Byte and bit reversal\<close>

lemma foldl_or_bit:
  "bit (foldl (\<lambda>r i. r OR g i) z xs) m \<longleftrightarrow> bit (z::int) m \<or> (\<exists>i \<in> set xs. bit (g i) m)"
  by (induction xs arbitrary: z) (auto simp: bit_or_iff)

lemma bytes_bit:
  assumes "\<And>i. fits 8 (g i)" "inj_on p {..<n}"
  shows "bit (foldl (\<lambda>r i. r OR push_bit (p i * 8) (g i)) 0 [0..<n]) m \<longleftrightarrow>
    (\<exists>i<n. p i = m div 8 \<and> bit (g i) (m mod 8))"
proof -
  have "bit (push_bit (p i * 8) (g i)) m \<longleftrightarrow> p i = m div 8 \<and> bit (g i) (m mod 8)" for i
  proof
    assume "bit (push_bit (p i * 8) (g i)) m"
    then have b: "p i * 8 \<le> m" "bit (g i) (m - p i * 8)" by (auto simp: bit_push_bit_iff)
    then have "m - p i * 8 < 8" using fits_high_bit [OF assms(1)] by (meson linorder_not_le)
    then have "p i = m div 8" using b(1) by (auto simp: div_nat_eqI)
    then have "p i = m div 8" "m - p i * 8 = m mod 8" by (simp_all add: minus_div_mult_eq_mod)
    then show "p i = m div 8 \<and> bit (g i) (m mod 8)" using b by simp
  next
    assume "p i = m div 8 \<and> bit (g i) (m mod 8)"
    then show "bit (push_bit (p i * 8) (g i)) m" by (simp add: bit_push_bit_iff minus_div_mult_eq_mod)
  qed
  then show ?thesis by (auto simp: foldl_or_bit)
qed

lemma flip_index: "(\<exists>i<n. n - 1 - i = d \<and> P i) \<longleftrightarrow> d < n \<and> P (n - 1 - d)" for n d :: nat
  by (auto intro!: exI [of _ "n - 1 - d"])

lemma rev8_bit:
  assumes "xl = 8 * n"
  shows "bit (rev8 xl a) m \<longleftrightarrow> m < xl \<and> bit a ((n - 1 - m div 8) * 8 + m mod 8)"
proof -
  have "inj_on (\<lambda>i. n - 1 - i) {..<n}" by (auto simp: inj_on_def)
  then have "bit (rev8 xl a) m \<longleftrightarrow> (\<exists>i<n. n - 1 - i = m div 8 \<and> bit (take_bit 8 (drop_bit (i * 8) a)) (m mod 8))"
    using bytes_bit [of "\<lambda>i. take_bit 8 (drop_bit (i * 8) a)" "\<lambda>i. n - 1 - i" n m] assms
    by (simp add: rev8_def mask_simps)
  also have "\<dots> \<longleftrightarrow> m div 8 < n \<and> bit a ((n - 1 - m div 8) * 8 + m mod 8)"
    unfolding flip_index by (simp add: bit_take_bit_iff bit_drop_bit_eq)
  also have "m div 8 < n \<longleftrightarrow> m < xl" using assms by auto
  finally show ?thesis .
qed

lemma rev8_involution:
  assumes "xl = 8 * n" "fits xl a"
  shows "rev8 xl (rev8 xl a) = a"
proof (rule bit_eqI)
  fix m
  show "bit (rev8 xl (rev8 xl a)) m \<longleftrightarrow> bit a m"
  proof (cases "m < xl")
    case True
    then have "n - 1 - (n - 1 - m div 8) = m div 8" "(n - 1 - m div 8) * 8 + m mod 8 < xl" using assms(1) by auto
    then show ?thesis using True assms(1) by (simp add: rev8_bit)
  next
    case False
    then show ?thesis using assms fits_high_bit [of xl a m] by (simp add: rev8_bit)
  qed
qed

lemma bin_val_bit: "bit (bin_val s) n \<longleftrightarrow> n < length s \<and> s ! (length s - 1 - n) = CHR ''1''"
proof (induction s arbitrary: n rule: rev_induct)
  case (snoc c s)
  have "bin_val (s @ [c]) = 2 * bin_val s + of_bool_int (c = CHR ''1'')"
    by (simp add: bin_val_snoc of_bool_int_def)
  then have b: "bit (bin_val (s @ [c])) n \<longleftrightarrow> (if n = 0 then c = CHR ''1'' else bit (bin_val s) (n - 1))"
    by (simp only: bit_add_double)
  show ?case
  proof (cases n)
    case 0
    then show ?thesis unfolding b by simp
  next
    case (Suc k)
    have "k < length s \<Longrightarrow> (s @ [c]) ! (length s - Suc k) = s ! (length s - Suc k)"
      by (auto simp: nth_append)
    then show ?thesis unfolding b using snoc [of k] Suc by auto
  qed
qed simp

lemma reversed_byte_bit:
  assumes "fits 8 b"
  shows "bit (bin_val (rev (format_b 8 b))) n \<longleftrightarrow> n < 8 \<and> bit b (7 - n)"
proof -
  have l: "length (format_b 8 b) = 8" using format_b_length [OF assms] by simp
  have "bit b (7 - n) \<longleftrightarrow> format_b 8 b ! (7 - (7 - n)) = CHR ''1''" if "n < 8"
    using bin_val_bit [of "format_b 8 b" "7 - n"] bin_val_format_b [of b 8] l assms that by (auto simp: fits_def)
  then show ?thesis using l by (auto simp: bin_val_bit rev_nth)
qed

lemma brev8_bit:
  assumes "xl = 8 * n"
  shows "bit (brev8 a xl) m \<longleftrightarrow> m < xl \<and> bit a (m div 8 * 8 + (7 - m mod 8))"
proof -
  let ?r = "\<lambda>i. bin_val (rev (format_b 8 (take_bit 8 (drop_bit (i * 8) a))))"
  have b: "bit (?r i) j \<longleftrightarrow> j < 8 \<and> bit a (i * 8 + (7 - j))" for i j
    by (auto simp: reversed_byte_bit bit_take_bit_iff bit_drop_bit_eq)
  have "fits 8 (?r i)" for i
  proof -
    have "take_bit 8 (?r i) = ?r i" by (rule bit_eqI) (auto simp: b bit_take_bit_iff)
    then show ?thesis by (simp add: fits_take_bit_eq)
  qed
  then have "bit (brev8 a xl) m \<longleftrightarrow> (\<exists>i<n. i = m div 8 \<and> bit (?r i) (m mod 8))"
    using bytes_bit [of ?r "\<lambda>i. i" n m] assms by (simp add: brev8_def mask_simps)
  also have "\<dots> \<longleftrightarrow> m < xl \<and> bit a (m div 8 * 8 + (7 - m mod 8))" using assms by (auto simp: b)
  finally show ?thesis .
qed

lemma brev8_involution:
  assumes "xl = 8 * n" "fits xl a"
  shows "brev8 (brev8 a xl) xl = a"
proof (rule bit_eqI)
  fix m :: nat
  define k where "k = m div 8 * 8 + (7 - m mod 8)"
  have b: "bit (brev8 (brev8 a xl) xl) m \<longleftrightarrow> m < xl \<and> k < xl \<and> bit a (k div 8 * 8 + (7 - k mod 8))"
    unfolding k_def brev8_bit [OF assms(1)] by (rule refl)
  have "7 - m mod 8 < 8" by simp
  then have "k div 8 = m div 8" "k mod 8 = 7 - m mod 8"
    unfolding k_def by (simp_all only: div_mult_self3 mod_mult_self3, simp_all)
  then have m: "k div 8 * 8 + (7 - k mod 8) = m" by simp
  have "k < xl" if "m < xl"
  proof -
    have "m div 8 < n" using that assms(1) by auto
    then have "m div 8 * 8 + 8 \<le> xl" using assms(1) by linarith
    then show ?thesis by (simp add: k_def)
  qed
  then show "bit (brev8 (brev8 a xl) xl) m \<longleftrightarrow> bit a m"
    unfolding b m using fits_high_bit [OF assms(2), of m] by (meson linorder_not_le)
qed

section \<open>Properties\<close>

text \<open>C5. On RV32 and on RV64, each of the eighteen base and multiply/divide register-register
  instructions computes the machine-word function of the instruction set: wrap-around
  arithmetic, signed and unsigned comparison, shifts by the low bits of the second operand,
  high products, and division with the defined results for a zero divisor and for overflow.\<close>

theorem alu_implements_words:
  fixes a b :: "32 word" and c d :: "64 word"
  shows "op_r_result 32 (fst (r_code op)) (snd (r_code op)) (uint a) (uint b) = Inr (uint (r_sem op a b)) \<and>
    op_r_result 64 (fst (r_code op)) (snd (r_code op)) (uint c) (uint d) = Inr (uint (r_sem op c d))"
  using rv32.r_ops rv64.r_ops by blast

text \<open>The RV64 word instructions compute on the low 32 bits of the operands and sign-extend the
  32-bit result.\<close>

theorem op_32_implements_words:
  fixes a b :: "64 word"
  assumes "op \<in> op_32_ops"
  shows "op_32_result (fst (r_code op)) (snd (r_code op)) (uint a) (uint b) =
    Inr (sint (r_sem op (ucast a) (ucast b) :: 32 word))"
  by (rule op_32_words [OF assms surjective_pairing])

theorem op_32_implements_words_witness:
  "op_32_result 1 4 (uint (7 :: 64 word)) (uint (-2 :: 64 word)) =
     Inr (sint (r_sem R_DIV (ucast (7 :: 64 word)) (ucast (-2 :: 64 word)) :: 32 word))"
  using op_32_implements_words [of R_DIV 7 "-2"] by (simp add: op_32_ops_def)

text \<open>The encoding of \<open>rolw\<close> (rotate left word) executes \<open>sllw\<close>: the test for the shift comes
  first and does not look at \<open>funct7\<close>, so the rotated-out bits are lost.\<close>

theorem rolw_executes_sllw:
  fixes a b :: "64 word"
  shows "op_32_result 0b0110000 1 (uint a) (uint b) = Inr (sint (push_bit (shamt (ucast b :: 32 word)) (ucast a :: 32 word)))"
  by (simp add: op_32_result_def u32_ucast s32_uint amount_32 rv32_u32 Let_def)


text \<open>The rotate instructions rotate: what reaches the register is the word rotated left or
  right by the low bits of the second operand.\<close>

lemma rotates_implement_words:
  fixes a b :: "32 word" and c d :: "64 word"
  shows "(\<exists>v. op_r_result 32 0b0110000 1 (uint a) (uint b) = Inr v \<and> uXLEN v 32 = uint (word_rotl (shamt b) a)) \<and>
    (\<exists>v. op_r_result 32 0b0110000 5 (uint a) (uint b) = Inr v \<and> uXLEN v 32 = uint (word_rotr (shamt b) a)) \<and>
    (\<exists>v. op_r_result 64 0b0110000 1 (uint c) (uint d) = Inr v \<and> uXLEN v 64 = uint (word_rotl (shamt d) c)) \<and>
    (\<exists>v. op_r_result 64 0b0110000 5 (uint c) (uint d) = Inr v \<and> uXLEN v 64 = uint (word_rotr (shamt d) c))"
  using rv32.rotate_ops(3,4) [of a b] rv64.rotate_ops(3,4) [of c d]
    rv32.rol_word [OF rv32.shamt_less, of a b] rv32.ror_word [OF rv32.shamt_less, of a b]
    rv64.rol_word [OF rv64.shamt_less, of c d] rv64.ror_word [OF rv64.shamt_less, of c d]
  by blast

text \<open>\<open>clmul\<close> and \<open>clmulh\<close> are the low and the high half of one carry-less product: bit \<open>m\<close> of
  the product is the parity of the number of set bit pairs whose positions add up to \<open>m\<close>, and
  the product is commutative.\<close>

theorem clmul_correct:
  assumes "fits w A" "fits w B"
  shows "clmulh_loop w A B = drop_bit w (clmul_loop w A B) \<and> clmul_loop w A B = clmul_loop w B A \<and>
    (bit (clmul_loop w A B) m \<longleftrightarrow> odd (card {i. i < w \<and> i \<le> m \<and> bit B i \<and> bit A (m - i)}))"
  unfolding clmulh_loop_def using clmulh_foldl [OF assms(1) order_refl] clmul_commute [OF assms] clmul_bit
  by blast

theorem clmul_correct_witness: "clmulh_loop 8 0xB5 0x63 = drop_bit 8 (clmul_loop 8 0xB5 0x63)"
  using clmul_correct [of 8 "0xB5" "0x63"] by (simp add: fits_def)

text \<open>The counting loops: \<open>clz\<close> finds the highest set bit, \<open>ctz\<close> the lowest, both give the
  width when there is none, and \<open>cpop\<close>, which counts the ones of Python's binary string, is
  the number of set bits.\<close>

lemma bit_counts_correct:
  assumes "fits n A"
  shows "(if A = 0 then clz_loop A n 0 = int n \<and> ctz_loop A n = int n
     else 2 ^ (n - 1 - nat (clz_loop A n 0)) \<le> A \<and> A < 2 ^ (n - nat (clz_loop A n 0)) \<and>
       ctz_loop A n = int (LEAST i. bit A i)) \<and>
    py_count (py_bin A) CHR ''1'' = int (card {i. bit A i})"
proof -
  have A: "0 \<le> A" "take_bit n A = A" using assms by (auto simp: fits_def)
  have "2 ^ (n - 1 - nat (clz_loop A n 0)) \<le> A \<and> A < 2 ^ (n - nat (clz_loop A n 0))" if "A \<noteq> 0"
  proof -
    obtain h where h: "h < n" "clz_loop A n 0 = int (n - 1 - h)" "bit A h"
        "take_bit (n - Suc h) (drop_bit (Suc h) A) = 0"
      using clz_loop_spec [of A n 0] A(2) \<open>A \<noteq> 0\<close> by auto
    have "drop_bit (Suc h) A = take_bit (n - Suc h) (drop_bit (Suc h) A)"
      using A(2) h(1) by (metis drop_bit_take_bit)
    then have "A div 2 ^ Suc h = 0" using h(4) by (simp add: drop_bit_eq_div)
    then have hi: "A < 2 ^ Suc h" using A(1) by (auto simp: zdiv_eq_0_iff)
    have lo: "2 ^ h \<le> A" using h(3) A(1) fits_high_bit [of h A h] by (force simp: fits_def)
    have "n - 1 - nat (clz_loop A n 0) = h" "n - nat (clz_loop A n 0) = Suc h" using h(1,2) by auto
    then show ?thesis using hi lo by simp
  qed
  then show ?thesis
    using clz_loop_spec [of 0 n 0] ctz_loop_spec [of A n] A(2) cpop_spec [OF A(1)] by auto
qed

lemma bit_counts_correct_witness: "2 ^ (32 - 1 - nat (clz_loop 0x00012340 32 0)) \<le> (0x00012340 :: int)"
  using bit_counts_correct [of 32 "0x00012340"] by (simp add: fits_def)

text \<open>Byte reversal and bit reversal within bytes are involutions on values of the machine's
  width.\<close>

theorem reversals_involutive:
  assumes "xl = 32 \<or> xl = 64" "fits xl a"
  shows "rev8 xl (rev8 xl a) = a \<and> brev8 (brev8 a xl) xl = a"
  using assms rev8_involution [of xl 4 a] rev8_involution [of xl 8 a] brev8_involution [of xl 4 a]
    brev8_involution [of xl 8 a] by auto

theorem reversals_involutive_witness: "rev8 32 (rev8 32 0x12345678) = 0x12345678"
  using reversals_involutive [of 32 "0x12345678"] by (simp add: fits_def)

end
