(* ===== verification/Crypto_Props.thy ===== *)
theory Crypto_Props
  imports Iss_Alu_Props
begin

text \<open>
  The scalar-cryptography functions: the SHA-2 functions are those of the standard on machine
  words, and the AES decryption instructions undo the encryption ones.
\<close>

section \<open>SHA-2\<close>


context machine_word
begin

lemma ror_rotr:
  fixes a :: "'a word"
  assumes "n < LENGTH('a)" "n \<noteq> 0"
  shows "ror (uint a) n xl = uint (word_rotr n a)"
  using ror_word [OF assms(1), of a] assms(2) by (simp add: ror_def rotate_right_def uXLEN_def)

lemma take_uint: "take_bit xl (uint (a :: 'a word)) = uint a"
  using ux [of a] by (simp only: uXLEN_take_bit)

end

lemma sha256_words:
  fixes w :: "32 word"
  shows "sha256sig0 (uint w) = uint (word_rotr 7 w XOR word_rotr 18 w XOR drop_bit 3 w)"
    "sha256sig1 (uint w) = uint (word_rotr 17 w XOR word_rotr 19 w XOR drop_bit 10 w)"
    "sha256sum0 (uint w) = uint (word_rotr 2 w XOR word_rotr 13 w XOR word_rotr 22 w)"
    "sha256sum1 (uint w) = uint (word_rotr 6 w XOR word_rotr 11 w XOR word_rotr 25 w)"
  unfolding sha256sig0_def sha256sig1_def sha256sum0_def sha256sum1_def Let_def mask_simps
    rv32.take_uint
  by (simp_all add: rv32.ror_rotr rv32.wrapped(9) unsigned_xor_eq [symmetric] rv32.take_uint del: take_bit_xor)

lemma sha512_words:
  fixes w :: "64 word"
  shows "sha512sig0 (uint w) = uint (word_rotr 1 w XOR word_rotr 8 w XOR drop_bit 7 w)"
    "sha512sig1 (uint w) = uint (word_rotr 19 w XOR word_rotr 61 w XOR drop_bit 6 w)"
    "sha512sum0 (uint w) = uint (word_rotr 28 w XOR word_rotr 34 w XOR word_rotr 39 w)"
    "sha512sum1 (uint w) = uint (word_rotr 14 w XOR word_rotr 18 w XOR word_rotr 41 w)"
  unfolding sha512sig0_def sha512sig1_def sha512sum0_def sha512sum1_def Let_def mask_simps
    rv64.take_uint
  by (simp_all add: rv64.ror_rotr rv64.wrapped(9) unsigned_xor_eq [symmetric] rv64.take_uint del: take_bit_xor)

section \<open>S-box\<close>

lemma sbox_inverse: "map (\<lambda>x. AES_SBOX_INV ! nat x) AES_SBOX_FWD = map int [0..<256]"
  by code_simp

lemma sbox_bytes: "list_all (\<lambda>x. 0 \<le> x \<and> x < 256) AES_SBOX_FWD" "length AES_SBOX_FWD = 256"
   "list_all (\<lambda>x. 0 \<le> x \<and> x < 256) AES_SBOX_INV" "length AES_SBOX_INV = 256"
  by (code_simp+)


lemma sbox_fwd_byte: "fits 8 b \<Longrightarrow> fits 8 (AES_SBOX_FWD ! nat b)"
  using sbox_bytes(1,2) by (auto simp: list_all_length fits_def)

lemma sbox_inv_fwd:
  assumes "fits 8 b"
  shows "AES_SBOX_INV ! nat (AES_SBOX_FWD ! nat b) = b"
proof -
  have n: "nat b < 256" using assms by (auto simp: fits_def nat_less_iff)
  then have "map (\<lambda>x. AES_SBOX_INV ! nat x) AES_SBOX_FWD ! nat b = AES_SBOX_INV ! nat (AES_SBOX_FWD ! nat b)"
    by (intro nth_map) (simp add: sbox_bytes(2))
  then show ?thesis using n assms unfolding sbox_inverse by (simp add: fits_def)
qed

section \<open>Bytes\<close>

lemma aes_getbyte_fits [simp]: "fits 8 (aes_getbyte x i)"
  by (simp add: aes_getbyte_def mask_simps)

lemma getbyte_bit: "bit (aes_getbyte x i) n \<longleftrightarrow> n < 8 \<and> bit x (8 * i + n)"
  by (auto simp: aes_getbyte_def mask_simps bit_take_bit_iff bit_drop_bit_eq)

lemma getbyte_bytes:
  assumes "\<And>i. fits 8 (g i)" "j < n"
  shows "aes_getbyte (foldl (\<lambda>r i. r OR push_bit (8 * i) (g i)) 0 [0..<n]) j = g j"
proof (rule bit_eqI)
  fix m
  have "bit (foldl (\<lambda>r i. r OR push_bit (i * 8) (g i)) 0 [0..<n]) (8 * j + m) \<longleftrightarrow>
      (\<exists>i<n. i = (8 * j + m) div 8 \<and> bit (g i) ((8 * j + m) mod 8))"
    by (rule bytes_bit) (simp_all add: assms(1))
  then show "bit (aes_getbyte (foldl (\<lambda>r i. r OR push_bit (8 * i) (g i)) 0 [0..<n]) j) m \<longleftrightarrow> bit (g j) m"
    using assms(2) fits_high_bit [OF assms(1), of m j]
    by (cases "m < 8") (simp_all add: getbyte_bit mult.commute [of 8])
qed

lemma bytes_of_getbyte: "foldl (\<lambda>r i. r OR push_bit (8 * i) (aes_getbyte x i)) 0 [0..<n] = take_bit (8 * n) x"
  using little_endian_bytes [of x n] by (simp add: aes_getbyte_def mask_simps)

lemma bytes_ext: "(\<And>i. i < n \<Longrightarrow> g i = h i) \<Longrightarrow>
  foldl (\<lambda>r i. r OR push_bit (8 * i) (g i)) 0 [0..<n] = foldl (\<lambda>r i. r OR push_bit (8 * i) (h i)) (0::int) [0..<n]"
  by (intro foldl_cong) auto

text \<open>The byte permutations as lists of source bytes.\<close>

definition bytes8 :: "int list \<Rightarrow> int" where
  "bytes8 bs = foldl (\<lambda>r i. r OR push_bit (8 * i) (bs ! i)) 0 [0..<8]"

lemma upt_8: "[0..<8] = [0, 1, 2, 3, 4, 5, 6, 7]"
  by (simp add: upt_rec)

lemma shiftrows_fwd_bytes: "aes_shiftrows_fwd rs2 rs1 = (let g = aes_getbyte in
    bytes8 [g rs1 0, g rs1 5, g rs2 2, g rs2 7, g rs1 4, g rs2 1, g rs2 6, g rs1 3])"
  unfolding aes_shiftrows_fwd_def bytes8_def Let_def upt_8 by (simp add: or.assoc or.commute or.left_commute)

lemma shiftrows_inv_bytes: "aes_shiftrows_inv rs2 rs1 = (let g = aes_getbyte in
    bytes8 [g rs1 0, g rs2 5, g rs2 2, g rs1 7, g rs1 4, g rs1 1, g rs2 6, g rs2 3])"
  unfolding aes_shiftrows_inv_def bytes8_def Let_def upt_8 by (simp add: or.assoc or.commute or.left_commute)

lemma all_bytes_less: "list_all (fits 8) bs \<Longrightarrow> length bs = 8 \<Longrightarrow> i < 8 \<Longrightarrow> fits 8 (bs ! i)"
  by (simp add: list_all_length)

lemma getbyte_bytes8:
  assumes "list_all (fits 8) bs" "length bs = 8" "j < 8"
  shows "aes_getbyte (bytes8 bs) j = bs ! j"
proof -
  define g where "g i = (if i < 8 then bs ! i else 0)" for i
  have "fits 8 (g i)" for i using assms by (simp add: g_def list_all_length)
  then have "aes_getbyte (foldl (\<lambda>r i. r OR push_bit (8 * i) (g i)) 0 [0..<8]) j = g j"
    using assms(3) by (rule getbyte_bytes)
  moreover have "foldl (\<lambda>r i. r OR push_bit (8 * i) (g i)) 0 [0..<8] = bytes8 bs"
    unfolding bytes8_def by (rule bytes_ext) (simp add: g_def)
  ultimately show ?thesis using assms(3) by (simp add: g_def)
qed

lemma sbox_bytes_getbyte:
  assumes "i < 8"
  shows "aes_getbyte (aes_sbox_bytes64 x False) i = AES_SBOX_FWD ! nat (aes_getbyte x i)"
  unfolding aes_sbox_bytes64_def Let_def using assms by (simp add: getbyte_bytes sbox_fwd_byte)

lemma sbox_inv_bytes64:
  "aes_sbox_bytes64 x True = bytes8 (map (\<lambda>i. AES_SBOX_INV ! nat (aes_getbyte x i)) [0..<8])"
  unfolding aes_sbox_bytes64_def bytes8_def Let_def if_True by (rule bytes_ext) simp

lemma bytes8_getbytes: "fits 64 x \<Longrightarrow> bytes8 (map (aes_getbyte x) [0..<8]) = x"
proof -
  assume x: "fits 64 x"
  have "bytes8 (map (aes_getbyte x) [0..<8]) = foldl (\<lambda>r i. r OR push_bit (8 * i) (aes_getbyte x i)) 0 [0..<8]"
    unfolding bytes8_def by (rule bytes_ext) simp
  then show ?thesis using x by (simp only: bytes_of_getbyte) simp
qed

lemma es_getbyte:
  assumes "i < 8"
  shows "aes_getbyte (aes64es rs1 rs2) i = AES_SBOX_FWD ! nat ((let g = aes_getbyte in
    [g rs1 0, g rs1 5, g rs2 2, g rs2 7, g rs1 4, g rs2 1, g rs2 6, g rs1 3]) ! i)"
proof -
  let ?g = aes_getbyte
  let ?bs = "[?g rs1 0, ?g rs1 5, ?g rs2 2, ?g rs2 7, ?g rs1 4, ?g rs2 1, ?g rs2 6, ?g rs1 3]"
  have "aes_getbyte (bytes8 ?bs) i = ?bs ! i"
    using assms by (intro getbyte_bytes8) simp_all
  then show ?thesis
    unfolding aes64es_def shiftrows_fwd_bytes Let_def sbox_bytes_getbyte [OF assms] by (simp only:)
qed

lemma ds_es:
  assumes "fits 64 lo"
  shows "aes64ds (aes64es lo hi) (aes64es hi lo) = lo"
proof -
  have "map (\<lambda>i. AES_SBOX_INV ! nat (aes_getbyte (aes_shiftrows_inv (aes64es hi lo) (aes64es lo hi)) i)) [0..<8] =
      map (aes_getbyte lo) [0..<8]"
    unfolding shiftrows_inv_bytes Let_def
    by (simp add: upt_8 getbyte_bytes8 es_getbyte Let_def sbox_inv_fwd sbox_fwd_byte)
  then show ?thesis unfolding aes64ds_def sbox_inv_bytes64 using bytes8_getbytes [OF assms] by (simp only:)
qed


section \<open>MixColumns\<close>

lemma xt2_bit: "fits 8 a \<Longrightarrow> bit (aes_xt2 a) n \<longleftrightarrow>
   n < 8 \<and> ((n \<noteq> 0 \<and> bit a (n - 1)) \<noteq> (bit a 7 \<and> n \<in> {0, 1, 3, 4}))"
proof -
  have "(0x100 :: int) = 2 ^ 8" "bit (push_bit 1 a) 8 \<longleftrightarrow> bit a 7" by (simp, simp only: bit_push_bit_iff, simp)
  then have c: "push_bit 1 a AND 0x100 \<noteq> 0 \<longleftrightarrow> bit a 7" by (simp only: and_power_eq_0_iff not_not)
  have b: "bit (0x11b :: int) n \<longleftrightarrow> n \<in> {0, 1, 3, 4, 8}" for n
  proof -
    have "(0x11b :: int) = 2 ^ 0 OR 2 ^ 1 OR 2 ^ 3 OR 2 ^ 4 OR 2 ^ 8" by simp
    then show ?thesis by (simp only: bit_or_iff bit_exp_iff) auto
  qed
  show ?thesis
    unfolding aes_xt2_def Let_def c mask_simps
    by (cases "bit a 7") (simp_all only: if_True if_False bit_take_bit_iff bit_xor_iff bit_push_bit_iff b, auto)
qed

lemma xt2_fits [simp]: "fits 8 (aes_xt2 a)"
  by (simp add: aes_xt2_def Let_def mask_simps)

lemma xt2_xor: "fits 8 a \<Longrightarrow> fits 8 b \<Longrightarrow> aes_xt2 (a XOR b) = aes_xt2 a XOR aes_xt2 b"
  by (rule bit_eqI) (auto simp: xt2_bit fits_xor bit_xor_iff)

lemma xor_cancel: "a XOR (a XOR b) = (b::int)"
  by (simp flip: xor.assoc)

lemma mix_inverse_bytes:
  assumes "fits 8 s0" "fits 8 s1" "fits 8 s2" "fits 8 s3"
  defines "b0 \<equiv> aes_xt2 s0 XOR aes_xt3 s1 XOR s2 XOR s3" and "b1 \<equiv> s0 XOR aes_xt2 s1 XOR aes_xt3 s2 XOR s3"
    and "b2 \<equiv> s0 XOR s1 XOR aes_xt2 s2 XOR aes_xt3 s3" and "b3 \<equiv> aes_xt3 s0 XOR s1 XOR s2 XOR aes_xt2 s3"
  shows "aes_gfmul b0 0xE XOR aes_gfmul b1 0xB XOR aes_gfmul b2 0xD XOR aes_gfmul b3 0x9 = s0"
    "aes_gfmul b0 0x9 XOR aes_gfmul b1 0xE XOR aes_gfmul b2 0xB XOR aes_gfmul b3 0xD = s1"
    "aes_gfmul b0 0xD XOR aes_gfmul b1 0x9 XOR aes_gfmul b2 0xE XOR aes_gfmul b3 0xB = s2"
    "aes_gfmul b0 0xB XOR aes_gfmul b1 0xD XOR aes_gfmul b2 0x9 XOR aes_gfmul b3 0xE = s3"
  using assms(1-4) unfolding b0_def b1_def b2_def b3_def aes_gfmul_def aes_xt3_def Let_def
  by (simp_all add: xt2_xor fits_xor xor.assoc xor.commute xor.left_commute xor_cancel)


lemma word_bytes:
  assumes "fits 8 s0" "fits 8 s1" "fits 8 s2" "fits 8 s3"
  defines "w \<equiv> push_bit 24 s3 OR push_bit 16 s2 OR push_bit 8 s1 OR s0"
  shows "w AND 0xff = s0" "drop_bit 8 w AND 0xff = s1" "drop_bit 16 w AND 0xff = s2" "drop_bit 24 w AND 0xff = s3"
    "fits 32 w"
proof -
  define g where "g i = (if i < 4 then [s0, s1, s2, s3] ! i else 0)" for i :: nat
  have g: "fits 8 (g i)" for i
    using assms(1-4) by (auto simp: g_def less_Suc_eq numeral_eq_Suc)
  have w: "w = foldl (\<lambda>r i. r OR push_bit (8 * i) (g i)) 0 [0..<4]"
    by (simp add: w_def g_def upt_rec numeral_eq_Suc or.assoc or.commute or.left_commute)
  have "drop_bit (8 * i) w AND 0xff = g i" if "i < 4" for i
    using getbyte_bytes [OF g that] by (simp add: w aes_getbyte_def)
  from this [of 0] this [of 1] this [of 2] this [of 3]
  show "w AND 0xff = s0" "drop_bit 8 w AND 0xff = s1" "drop_bit 16 w AND 0xff = s2" "drop_bit 24 w AND 0xff = s3"
    by (simp_all add: g_def)
  show "fits 32 w" unfolding w_def using assms by (intro fits_or fits_push_bit_le [of 8]) (auto intro: fits_mono)
qed

lemma byte_fits [simp]: "fits 8 (x AND 0xff)"
  by (simp add: mask_simps)

lemma four_bytes:
  assumes "fits 32 x"
  shows "push_bit 24 (drop_bit 24 x AND 0xff) OR push_bit 16 (drop_bit 16 x AND 0xff) OR
    push_bit 8 (drop_bit 8 x AND 0xff) OR (x AND 0xff) = x"
  using little_endian_bytes [of x 4] assms
  by (simp add: mask_simps upt_rec numeral_eq_Suc or.assoc or.commute or.left_commute)

lemma xt3_fits: "fits 8 a \<Longrightarrow> fits 8 (aes_xt3 a)"
  by (simp add: aes_xt3_def fits_xor)

lemma mixcolumn_inverse:
  assumes "fits 32 x"
  shows "aes_mixcolumn_inv (aes_mixcolumn_fwd x) = x" "fits 32 (aes_mixcolumn_fwd x)"
proof -
  let ?s0 = "x AND 0xff" let ?s1 = "drop_bit 8 x AND 0xff"
  let ?s2 = "drop_bit 16 x AND 0xff" let ?s3 = "drop_bit 24 x AND 0xff"
  have f: "fits 8 (aes_xt2 ?s0 XOR aes_xt3 ?s1 XOR ?s2 XOR ?s3)" "fits 8 (?s0 XOR aes_xt2 ?s1 XOR aes_xt3 ?s2 XOR ?s3)"
    "fits 8 (?s0 XOR ?s1 XOR aes_xt2 ?s2 XOR aes_xt3 ?s3)" "fits 8 (aes_xt3 ?s0 XOR ?s1 XOR ?s2 XOR aes_xt2 ?s3)"
    by (intro fits_xor xt3_fits xt2_fits byte_fits)+
  show "fits 32 (aes_mixcolumn_fwd x)"
    unfolding aes_mixcolumn_fwd_def Let_def by (rule word_bytes(5) [OF f])
  show "aes_mixcolumn_inv (aes_mixcolumn_fwd x) = x"
    unfolding aes_mixcolumn_fwd_def aes_mixcolumn_inv_def Let_def word_bytes(1-4) [OF f]
      mix_inverse_bytes [OF byte_fits byte_fits byte_fits byte_fits] by (rule four_bytes [OF assms])
qed

lemma halves:
  assumes "fits 32 a" "fits 32 b"
  shows "drop_bit 32 (push_bit 32 a OR b) AND 0xffffffff = a" "(push_bit 32 a OR b) AND 0xffffffff = b"
proof -
  show "drop_bit 32 (push_bit 32 a OR b) AND 0xffffffff = a"
    unfolding drop_bit_push_or [OF assms(2)] mask_simps using assms by simp
  show "(push_bit 32 a OR b) AND 0xffffffff = b"
    unfolding mask_simps take_bit_push_or [OF order_refl] using assms by simp
qed

lemma im_esm: "aes64im (aes64esm a b) = aes64es a b"
proof -
  define sb where "sb = aes64es a b"
  have sb: "fits 64 sb"
    unfolding sb_def aes64es_def aes_sbox_bytes64_def Let_def
    by (intro fits_foldl fits_0 fits_or fits_push_bit_le [of 8]) (auto simp: sbox_fwd_byte)
  have w: "fits 32 (drop_bit 32 sb AND 0xffffffff)" "fits 32 (sb AND 0xffffffff)" by (simp_all add: mask_simps)
  have "aes64im (aes64esm a b) = push_bit 32 (drop_bit 32 sb AND 0xffffffff) OR (sb AND 0xffffffff)"
    unfolding aes64im_def aes64esm_def Let_def aes64es_def [symmetric] sb_def [symmetric]
      halves [OF mixcolumn_inverse(2) [OF w(1)] mixcolumn_inverse(2) [OF w(2)]] mixcolumn_inverse(1) [OF w(1)]
      mixcolumn_inverse(1) [OF w(2)] by (rule refl)
  also have "\<dots> = sb"
  proof -
    have "push_bit 32 (take_bit 32 (drop_bit 32 sb)) OR take_bit 32 sb = take_bit 64 sb"
      by (rule bit_eqI) (auto simp: bit_simps)
    then show ?thesis unfolding mask_simps using sb by simp
  qed
  finally show ?thesis by (simp only: sb_def)
qed


lemma dsm_im: "aes64dsm a b = aes64im (aes64ds a b)"
  by (simp add: aes64dsm_def aes64im_def aes64ds_def Let_def)

section \<open>Properties\<close>

text \<open>C37. The AES round instructions are undone by their inverses: with the two halves of the state
  in a register pair, the last-round decryption step recovers both halves from the last-round
  encryption step, \<open>aes64im\<close> strips the MixColumns of a middle encryption round, and the middle-round
  decryption step recovers the half with the inverse MixColumns applied.\<close>

theorem aes_rounds_inverse:
  assumes "fits 64 lo" "fits 64 hi"
  shows "aes64ds (aes64es lo hi) (aes64es hi lo) = lo \<and> aes64ds (aes64es hi lo) (aes64es lo hi) = hi \<and>
    aes64ds (aes64im (aes64esm lo hi)) (aes64im (aes64esm hi lo)) = lo \<and>
    aes64dsm (aes64es lo hi) (aes64es hi lo) = aes64im lo \<and> aes64dsm (aes64es hi lo) (aes64es lo hi) = aes64im hi"
  using ds_es [OF assms(1)] ds_es [OF assms(2)] im_esm dsm_im by simp

theorem aes_rounds_inverse_witness:
  "aes64ds (aes64es 0x0123456789ABCDEF 0xFEDCBA9876543210) (aes64es 0xFEDCBA9876543210 0x0123456789ABCDEF) =
     0x0123456789ABCDEF"
  using aes_rounds_inverse [of "0x0123456789ABCDEF" "0xFEDCBA9876543210"] by (simp add: fits_def)

text \<open>The eight SHA-2 instructions compute the sigma and sum functions of the standard on 32-bit
  and 64-bit words.\<close>

theorem sha2_implements_words:
  fixes w :: "32 word" and v :: "64 word"
  shows "sha256sig0 (uint w) = uint (word_rotr 7 w XOR word_rotr 18 w XOR drop_bit 3 w) \<and>
    sha256sig1 (uint w) = uint (word_rotr 17 w XOR word_rotr 19 w XOR drop_bit 10 w) \<and>
    sha256sum0 (uint w) = uint (word_rotr 2 w XOR word_rotr 13 w XOR word_rotr 22 w) \<and>
    sha256sum1 (uint w) = uint (word_rotr 6 w XOR word_rotr 11 w XOR word_rotr 25 w) \<and>
    sha512sig0 (uint v) = uint (word_rotr 1 v XOR word_rotr 8 v XOR drop_bit 7 v) \<and>
    sha512sig1 (uint v) = uint (word_rotr 19 v XOR word_rotr 61 v XOR drop_bit 6 v) \<and>
    sha512sum0 (uint v) = uint (word_rotr 28 v XOR word_rotr 34 v XOR word_rotr 39 v) \<and>
    sha512sum1 (uint v) = uint (word_rotr 14 v XOR word_rotr 18 v XOR word_rotr 41 v)"
  using sha256_words [of w] sha512_words [of v] by blast

end
