(* ===== verification/Py_Text.thy ===== *)
theory Py_Text
  imports Prelude
begin

text \<open>
  The Python text operations the assembler and the disassembler use, on ASCII strings:
  \<open>str.strip\<close>, \<open>str.lower\<close>, \<open>str.split(c, 1)[0]\<close>, \<open>re.split(r"[,\s]+", _)\<close>, \<open>int(_)\<close> on decimal
  digits, \<open>int(_, 0)\<close> with its prefixes, signs and underscores, and the formats \<open>{n}\<close>, \<open>{n:+d}\<close>
  and \<open>{n:x}\<close>. The lemmas show that the readers invert the printers.
\<close>

section \<open>Characters\<close>

definition py_isspace :: "char \<Rightarrow> bool" where
  "py_isspace c \<longleftrightarrow> (let n = of_char c :: nat in 9 \<le> n \<and> n \<le> 13 \<or> 28 \<le> n \<and> n \<le> 32)"

definition py_isdigit :: "char \<Rightarrow> bool" where
  "py_isdigit c \<longleftrightarrow> (let n = of_char c :: nat in 48 \<le> n \<and> n \<le> 57)"

definition is_lower :: "char \<Rightarrow> bool" where
  "is_lower c \<longleftrightarrow> (let n = of_char c :: nat in 97 \<le> n \<and> n \<le> 122)"

definition is_upper :: "char \<Rightarrow> bool" where
  "is_upper c \<longleftrightarrow> (let n = of_char c :: nat in 65 \<le> n \<and> n \<le> 90)"

definition is_word_char :: "char \<Rightarrow> bool" where
  \<comment> \<open>the class \<open>\w\<close>\<close>
  "is_word_char c \<longleftrightarrow> py_isdigit c \<or> is_lower c \<or> is_upper c \<or> c = CHR ''_''"

section \<open>Strings\<close>

definition py_strip :: "string \<Rightarrow> string" where
  "py_strip s = rev (dropWhile py_isspace (rev (dropWhile py_isspace s)))"

definition py_lower :: "string \<Rightarrow> string" where
  "py_lower s = map (\<lambda>c. if is_upper c then char_of (of_char c + 32 :: nat) else c) s"

definition split_first :: "char \<Rightarrow> string \<Rightarrow> string" where
  \<comment> \<open>\<open>s.split(c, 1)[0]\<close>\<close>
  "split_first c s = takeWhile (\<lambda>d. d \<noteq> c) s"

function re_split :: "(char \<Rightarrow> bool) \<Rightarrow> string \<Rightarrow> string list" where
  \<comment> \<open>\<open>re.split(r"[...]+", s)\<close> for a character class\<close>
  "re_split sep s =
     (case dropWhile (\<lambda>c. \<not> sep c) s of
        [] \<Rightarrow> [s]
      | c # cs \<Rightarrow> takeWhile (\<lambda>c. \<not> sep c) s # re_split sep (dropWhile sep cs))"
  by pat_completeness auto
termination
proof (relation "measure (length \<circ> snd)")
  fix sep :: "char \<Rightarrow> bool" and s c cs
  assume "dropWhile (\<lambda>c. \<not> sep c) s = c # cs"
  then have "length (c # cs) \<le> length s" by (metis length_dropWhile_le)
  then show "((sep, dropWhile sep cs), sep, s) \<in> measure (length \<circ> snd)"
    using length_dropWhile_le [of sep cs] by simp
qed simp

declare re_split.simps [simp del]

section \<open>Numbers\<close>

definition digit_char :: "nat \<Rightarrow> char" where
  "digit_char d = (if d < 10 then char_of (48 + d) else char_of (87 + d))"

definition digit_val :: "char \<Rightarrow> nat option" where
  "digit_val c =
     (if py_isdigit c then Some (of_char c - 48)
      else if is_lower c then Some (of_char c - 87)
      else if is_upper c then Some (of_char c - 55)
      else None)"

fun digits :: "nat \<Rightarrow> nat \<Rightarrow> string" where
  "digits b n = (if n < b \<or> b < 2 then [digit_char (n mod b)] else digits b (n div b) @ [digit_char (n mod b)])"

declare digits.simps [simp del]

definition py_str :: "int \<Rightarrow> string" where
  \<comment> \<open>\<open>f"{n}"\<close>\<close>
  "py_str n = (if n < 0 then ''-'' @ digits 10 (nat (- n)) else digits 10 (nat n))"

definition py_plus_d :: "int \<Rightarrow> string" where
  \<comment> \<open>\<open>f"{n:+d}"\<close>\<close>
  "py_plus_d n = (if n < 0 then py_str n else ''+'' @ py_str n)"

definition py_hex :: "int \<Rightarrow> string" where
  \<comment> \<open>\<open>f"{n:x}"\<close> for a nonnegative number\<close>
  "py_hex n = digits 16 (nat n)"

definition pad0 :: "nat \<Rightarrow> string \<Rightarrow> string" where
  \<comment> \<open>zero padding of a nonnegative number to a width\<close>
  "pad0 w s = replicate (w - length s) CHR ''0'' @ s"

fun int_digits :: "nat \<Rightarrow> nat \<Rightarrow> bool \<Rightarrow> string \<Rightarrow> nat result" where
  \<comment> \<open>the digit loop of \<open>int\<close>: one underscore is allowed between two digits\<close>
  "int_digits b acc prev [] = (if prev then Inr acc else Inl ValueError)"
| "int_digits b acc prev (c # cs) =
     (if c = CHR ''_'' then (if prev then int_digits b acc False cs else Inl ValueError)
      else case digit_val c of
          None \<Rightarrow> Inl ValueError
        | Some d \<Rightarrow> if d < b then int_digits b (acc * b + d) True cs else Inl ValueError)"

definition drop_underscore :: "string \<Rightarrow> string" where
  "drop_underscore s = (case s of c # cs \<Rightarrow> (if c = CHR ''_'' then cs else s) | [] \<Rightarrow> [])"

definition int_unsigned :: "string \<Rightarrow> nat result" where
  "int_unsigned s =
     (case s of
        [] \<Rightarrow> Inl ValueError
      | c # cs \<Rightarrow>
          if c = CHR ''0'' then
            (case cs of
               [] \<Rightarrow> Inr 0
             | p # r \<Rightarrow>
                 if p = CHR ''x'' \<or> p = CHR ''X'' then int_digits 16 0 False (drop_underscore r)
                 else if p = CHR ''o'' \<or> p = CHR ''O'' then int_digits 8 0 False (drop_underscore r)
                 else if p = CHR ''b'' \<or> p = CHR ''B'' then int_digits 2 0 False (drop_underscore r)
                 else rbind (int_digits 10 0 False s) (\<lambda>v. if v = 0 then Inr 0 else Inl ValueError))
          else int_digits 10 0 False s)"

definition py_int0 :: "string \<Rightarrow> int result" where
  \<comment> \<open>\<open>int(s, 0)\<close>\<close>
  "py_int0 s =
     (case py_strip s of
        [] \<Rightarrow> Inl ValueError
      | c # cs \<Rightarrow>
          if c = CHR ''-'' then rbind (int_unsigned cs) (\<lambda>v. Inr (- int v))
          else if c = CHR ''+'' then rbind (int_unsigned cs) (\<lambda>v. Inr (int v))
          else rbind (int_unsigned (c # cs)) (\<lambda>v. Inr (int v)))"

definition int_signed :: "nat \<Rightarrow> (string \<Rightarrow> string) \<Rightarrow> string \<Rightarrow> int result" where
  \<comment> \<open>\<open>int(s, b)\<close> for an explicit base, with the base's optional prefix removed by the argument\<close>
  "int_signed b unprefix s =
     (case py_strip s of
        [] \<Rightarrow> Inl ValueError
      | c # cs \<Rightarrow>
          if c = CHR ''-'' then rbind (int_digits b 0 False (unprefix cs)) (\<lambda>v. Inr (- int v))
          else if c = CHR ''+'' then rbind (int_digits b 0 False (unprefix cs)) (\<lambda>v. Inr (int v))
          else rbind (int_digits b 0 False (unprefix (c # cs))) (\<lambda>v. Inr (int v)))"

definition py_int10 :: "string \<Rightarrow> int result" where
  \<comment> \<open>\<open>int(s)\<close>\<close>
  "py_int10 s = int_signed 10 (\<lambda>t. t) s"

definition py_int2 :: "string \<Rightarrow> int result" where
  \<comment> \<open>\<open>int(s, 2)\<close>\<close>
  "py_int2 s = int_signed 2 (\<lambda>t. case t of
       a # p # r \<Rightarrow> if a = CHR ''0'' \<and> (p = CHR ''b'' \<or> p = CHR ''B'') then drop_underscore r else t
     | _ \<Rightarrow> t) s"

definition py_split :: "string \<Rightarrow> string list" where
  \<comment> \<open>\<open>s.split()\<close>\<close>
  "py_split s = (let t = py_strip s in if t = [] then [] else re_split py_isspace t)"

fun text_lines :: "string \<Rightarrow> string list" where
  \<comment> \<open>the lines a text file yields, without their newlines\<close>
  "text_lines [] = []"
| "text_lines (c # cs) =
     (if c = CHR 0x0A then [] # text_lines cs
      else case text_lines cs of [] \<Rightarrow> [[c]] | l # ls \<Rightarrow> (c # l) # ls)"

definition int_dec :: "string \<Rightarrow> int" where
  \<comment> \<open>\<open>int(s)\<close> on the text of \<open>\d+\<close>\<close>
  "int_dec s = foldl (\<lambda>v c. 10 * v + (of_char c - 48)) 0 s"

text \<open>The text of an instruction: a mnemonic and its comma-separated operands.\<close>

fun join_comma :: "string list \<Rightarrow> string" where
  "join_comma [] = []"
| "join_comma (t # ts) = (if ts = [] then t else t @ CHR '','' # join_comma ts)"

definition asm_text :: "string \<Rightarrow> string list \<Rightarrow> string" where
  \<comment> \<open>\<open>f"{mn} {a},{b},..."\<close>\<close>
  "asm_text mn ts = (if ts = [] then mn else mn @ CHR '' '' # join_comma ts)"

definition xr :: "int \<Rightarrow> string" where
  \<comment> \<open>\<open>f"x{n}"\<close>\<close>
  "xr n = CHR ''x'' # py_str n"

definition fr :: "int \<Rightarrow> string" where
  \<comment> \<open>\<open>f"f{n}"\<close>\<close>
  "fr n = CHR ''f'' # py_str n"

definition mem_text :: "int \<Rightarrow> int \<Rightarrow> string" where
  \<comment> \<open>\<open>f"{imm}(x{rs1})"\<close>\<close>
  "mem_text i rs1 = py_str i @ ''('' @ xr rs1 @ '')''"

fun join_comma_space :: "string list \<Rightarrow> string" where
  "join_comma_space [] = []"
| "join_comma_space (t # ts) = (if ts = [] then t else t @ '', '' @ join_comma_space ts)"

definition asm_line :: "string \<Rightarrow> string list \<Rightarrow> string" where
  \<comment> \<open>\<open>f"{mn} {a}, {b}, ..."\<close>\<close>
  "asm_line mn ts = (if ts = [] then mn else mn @ CHR '' '' # join_comma_space ts)"

definition join_lines :: "string list \<Rightarrow> string" where
  \<comment> \<open>\<open>"\n".join(lines) + "\n"\<close> for a nonempty list\<close>
  "join_lines ls = concat (map (\<lambda>l. l @ [CHR 0x0A]) ls)"

definition py_rstrip :: "string \<Rightarrow> string" where
  "py_rstrip s = rev (dropWhile py_isspace (rev s))"

function py_replace :: "string \<Rightarrow> string \<Rightarrow> string \<Rightarrow> string" where
  \<comment> \<open>\<open>s.replace(old, new)\<close> for a nonempty \<open>old\<close>\<close>
  "py_replace old new s =
     (case s of
        [] \<Rightarrow> []
      | c # cs \<Rightarrow>
          if old \<noteq> [] \<and> take (length old) s = old then new @ py_replace old new (drop (length old) s)
          else c # py_replace old new cs)"
  by pat_completeness auto
termination
  by (relation "measure (\<lambda>(old, new, s). length s)") auto

declare py_replace.simps [simp del]

section \<open>Digits\<close>

lemma digit_char_cases:
  "d < 16 \<Longrightarrow> d \<in> {0, 1, 2, 3, 4, 5, 6, 7, 8, 9, 10, 11, 12, 13, 14, 15::nat}"
  by (simp only: insert_iff empty_iff) arith

lemma digit_char_val [simp]: "d < 16 \<Longrightarrow> digit_val (digit_char d) = Some d"
  by (drule digit_char_cases, elim insertE emptyE; hypsubst; code_simp)

lemma digit_char_word: "d < 16 \<Longrightarrow> is_word_char (digit_char d) \<and> \<not> py_isspace (digit_char d) \<and>
    digit_char d \<notin> {CHR ''_'', CHR ''-'', CHR ''+''}"
  by (drule digit_char_cases, elim insertE emptyE; hypsubst; code_simp)

lemma digit_char_dec: "d < 10 \<Longrightarrow> py_isdigit (digit_char d) \<and> of_char (digit_char d) - 48 = int d"
proof -
  assume "d < 10"
  then have "d \<in> {0, 1, 2, 3, 4, 5, 6, 7, 8, 9}" by (simp only: insert_iff empty_iff) arith
  then show ?thesis by (elim insertE emptyE; hypsubst; code_simp)
qed

lemma digit_char_zero: "d < 16 \<Longrightarrow> digit_char d = CHR ''0'' \<longleftrightarrow> d = 0"
  by (drule digit_char_cases, elim insertE emptyE; hypsubst; code_simp)

lemma digits_set: "1 < b \<Longrightarrow> c \<in> set (digits b n) \<Longrightarrow> \<exists>d<b. c = digit_char d"
proof (induction b n rule: digits.induct)
  case (1 b n)
  then have "\<exists>d<b. digit_char (n mod b) = digit_char d" by (intro exI [of _ "n mod b"]) simp
  moreover have "c \<in> set (if n < b \<or> b < 2 then [digit_char (n mod b)] else digits b (n div b) @ [digit_char (n mod b)])"
    using 1(3) by (subst (asm) digits.simps)
  ultimately show ?case using 1(1,2) by (auto split: if_splits)
qed

lemma digits_nonempty [simp]: "digits b n \<noteq> []"
  by (subst digits.simps) simp

lemma digits_hd_zero: "1 < b \<Longrightarrow> b \<le> 16 \<Longrightarrow> hd (digits b n) = CHR ''0'' \<longleftrightarrow> n = 0"
proof (induction b n rule: digits.induct)
  case (1 b n)
  show ?case
  proof (cases "n < b")
    case True
    then show ?thesis using 1 by (subst digits.simps) (simp add: digit_char_zero)
  next
    case False
    then have "hd (digits b (n div b)) = CHR ''0'' \<longleftrightarrow> n div b = 0" using 1 by simp
    moreover have "n div b \<noteq> 0" "n \<noteq> 0" using False 1 by (auto simp: div_eq_0_iff)
    ultimately show ?thesis using False 1 by (subst digits.simps) simp
  qed
qed

lemma int_digits_append:
  assumes "\<forall>c \<in> set s. \<exists>d<b. c = digit_char d" "b \<le> 16"
  shows "int_digits b acc p (s @ t) =
    int_digits b (foldl (\<lambda>v c. v * b + the (digit_val c)) acc s) (p \<or> s \<noteq> []) t"
  using assms
proof (induction s arbitrary: acc p)
  case (Cons c s)
  then obtain d where d: "d < b" "c = digit_char d" by auto
  then show ?case using Cons digit_char_word [of d] by simp
qed simp

lemma digits_value:
  "1 < b \<Longrightarrow> b \<le> 16 \<Longrightarrow> foldl (\<lambda>v c. v * b + the (digit_val c)) 0 (digits b n) = n"
proof (induction b n rule: digits.induct)
  case (1 b n)
  then have "n mod b < 16" by (simp add: less_le_trans [OF mod_less_divisor])
  then show ?case using 1 by (subst digits.simps) auto
qed

lemma int_digits_digits: "1 < b \<Longrightarrow> b \<le> 16 \<Longrightarrow> int_digits b 0 False (digits b n) = Inr n"
  using int_digits_append [of "digits b n" b 0 False "[]"] digits_set [of b] digits_value [of b n]
  by auto

lemma int_dec_digits: "int_dec (digits 10 n) = int n"
proof (induction "10::nat" n rule: digits.induct)
  case (1 n)
  show ?case
    using 1 digit_char_dec [of "n mod 10"] digit_char_dec [of n]
    by (subst digits.simps) (auto simp: int_dec_def zmod_int zdiv_int)
qed

lemma digits_no_space: "1 < b \<Longrightarrow> b \<le> 16 \<Longrightarrow> c \<in> set (digits b n) \<Longrightarrow> is_word_char c \<and> \<not> py_isspace c"
  using digits_set [of b c n] digit_char_word by fastforce

section \<open>The readers invert the printers\<close>

lemma strip_id: "\<forall>c \<in> set s. \<not> py_isspace c \<Longrightarrow> py_strip s = s"
proof -
  assume a: "\<forall>c \<in> set s. \<not> py_isspace c"
  have "dropWhile py_isspace xs = xs" if "\<forall>c \<in> set xs. \<not> py_isspace c" for xs
    using that by (cases xs) auto
  from this [of s] this [of "rev s"] show ?thesis using a by (simp add: py_strip_def)
qed

lemma int_unsigned_digits: "int_unsigned (digits 10 n) = Inr n"
proof (cases "n = 0")
  case True
  have "int_unsigned (digits 10 0) = Inr 0" by code_simp
  then show ?thesis using True by simp
next
  case False
  then obtain c cs where e: "digits 10 n = c # cs" "c \<noteq> CHR ''0''"
    using digits_hd_zero [of 10 n] by (cases "digits 10 n") auto
  then show ?thesis using int_digits_digits [of 10 n] by (simp add: int_unsigned_def)
qed

lemma digits_first: "1 < b \<Longrightarrow> b \<le> 16 \<Longrightarrow> digits b n = c # cs \<Longrightarrow> c \<noteq> CHR ''-'' \<and> c \<noteq> CHR ''+'' \<and> c \<noteq> CHR ''_''"
  using digits_set [of b c n] digit_char_word
  by (auto dest!: less_le_trans [of _ b 16])

lemma py_int0_digits: "py_int0 (digits 10 n) = Inr (int n)"
proof -
  obtain c cs where e: "digits 10 n = c # cs" by (cases "digits 10 n") auto
  have "py_strip (digits 10 n) = digits 10 n" by (rule strip_id) (use digits_no_space [of 10] in auto)
  then show ?thesis using e int_unsigned_digits [of n] digits_first [of 10 n c cs] by (simp add: py_int0_def)
qed

lemma int_unsigned_prefix:
  assumes s: "py_strip (p # s) = p # s" and p: "p \<in> {CHR ''-'', CHR ''+''}"
  shows "py_int0 (p # s) = rbind (int_unsigned s) (\<lambda>v. Inr (if p = CHR ''-'' then - int v else int v))"
  using p by (auto simp: py_int0_def s)

lemma strip_sign: "p \<in> {CHR ''-'', CHR ''+''} \<Longrightarrow> py_strip (p # digits 10 n) = p # digits 10 n"
  by (rule strip_id) (use digits_no_space [of 10] in \<open>auto simp: py_isspace_def\<close>)

lemma py_int0_str [simp]: "py_int0 (py_str n) = Inr n"
  using int_unsigned_prefix [OF strip_sign, of "CHR ''-''" "nat (- n)"] int_unsigned_digits
  by (auto simp: py_str_def py_int0_digits)

lemma py_int0_plus_d [simp]: "py_int0 (py_plus_d n) = Inr n"
proof (cases "n < 0")
  case False
  then show ?thesis
    using int_unsigned_prefix [OF strip_sign, of "CHR ''+''" "nat n"] int_unsigned_digits [of "nat n"]
    by (simp add: py_plus_d_def py_str_def)
qed (simp add: py_plus_d_def)

lemma drop_underscore_digits: "1 < b \<Longrightarrow> b \<le> 16 \<Longrightarrow> drop_underscore (digits b n) = digits b n"
  using digits_first [of b n] by (auto simp: drop_underscore_def split: list.split)

lemma py_int0_hex [simp]: "0 \<le> n \<Longrightarrow> py_int0 (''0x'' @ py_hex n) = Inr n"
proof -
  assume n: "0 \<le> n"
  have "py_strip (''0x'' @ py_hex n) = ''0x'' @ py_hex n"
    by (rule strip_id) (use digits_no_space [of 16] in \<open>auto simp: py_isspace_def py_hex_def\<close>)
  then show ?thesis
    using n int_digits_digits [of 16 "nat n"]
    by (simp add: py_int0_def int_unsigned_def drop_underscore_digits py_hex_def)
qed

end
