(* ===== verification/Asm_Encode.thy ===== *)
theory Asm_Encode
  imports Py_Text
begin

text \<open>
  The operand readers, the mnemonic tables and the instruction encoders of
  \<open>sim/tools/asm.py\<close>. A dictionary is an association list, looked up with \<open>py_get\<close> (a missing
  key is a \<open>KeyError\<close>) and tested with \<open>has_key\<close>. An immediate operand is text or a number, as
  \<open>imm\<close> tests with \<open>isinstance\<close>.
\<close>

section \<open>Dictionaries and operands\<close>

definition py_get :: "('k \<times> 'v) list \<Rightarrow> 'k \<Rightarrow> 'v result" where
  "py_get t k = (case map_of t k of None \<Rightarrow> Inl KeyError | Some v \<Rightarrow> Inr v)"

definition has_key :: "('k \<times> 'v) list \<Rightarrow> 'k \<Rightarrow> bool" where
  "has_key t k \<longleftrightarrow> map_of t k \<noteq> None"

datatype operand = Tok string | Num int

definition reg_of :: "char \<Rightarrow> string \<Rightarrow> int result" where
  \<comment> \<open>\<open>^x(\d+)$\<close> or \<open>^f(\d+)$\<close> on the stripped token, then the range check\<close>
  "reg_of letter tok =
     (case py_strip tok of
        [] \<Rightarrow> Inl ValueError
      | c # ds \<Rightarrow>
          if c = letter \<and> ds \<noteq> [] \<and> list_all py_isdigit ds then
            (let n = int_dec ds in if 0 \<le> n \<and> n \<le> 31 then Inr n else Inl ValueError)
          else Inl ValueError)"

definition reg :: "string \<Rightarrow> int result" where
  "reg tok = reg_of CHR ''x'' tok"

definition freg :: "string \<Rightarrow> int result" where
  "freg tok = reg_of CHR ''f'' tok"

definition imm :: "operand \<Rightarrow> nat \<Rightarrow> bool \<Rightarrow> int result" where
  "imm tok bits is_signed =
     rbind (case tok of Num v \<Rightarrow> Inr v | Tok s \<Rightarrow> py_int0 (py_strip s))
       (\<lambda>v. let lo = (if is_signed then - (2 ^ (bits - 1)) else 0);
                hi = (if is_signed then 2 ^ (bits - 1) - 1 else 2 ^ bits - 1)
            in if lo \<le> v \<and> v \<le> hi then Inr (v AND (2 ^ bits - 1)) else Inl ValueError)"

definition u_bits :: "int \<Rightarrow> nat \<Rightarrow> int" where
  "u_bits v bits = v AND (2 ^ bits - 1)"

section \<open>Opcodes and tables\<close>

definition OP_R :: int where [simp]: "OP_R = 0b0110011"
definition OP_I :: int where [simp]: "OP_I = 0b0010011"
definition OP_LOAD :: int where [simp]: "OP_LOAD = 0b0000011"
definition OP_STORE :: int where [simp]: "OP_STORE = 0b0100011"
definition OP_BRANCH :: int where [simp]: "OP_BRANCH = 0b1100011"
definition OP_JAL :: int where [simp]: "OP_JAL = 0b1101111"
definition OP_JALR :: int where [simp]: "OP_JALR = 0b1100111"
definition OP_LUI :: int where [simp]: "OP_LUI = 0b0110111"
definition OP_AUIPC :: int where [simp]: "OP_AUIPC = 0b0010111"
definition OP_SYSTEM :: int where [simp]: "OP_SYSTEM = 0b1110011"
definition OP_MISC_MEM :: int where [simp]: "OP_MISC_MEM = 0b0001111"
definition OP_32 :: int where [simp]: "OP_32 = 0b0111011"
definition OP_IMM_32 :: int where [simp]: "OP_IMM_32 = 0b0011011"
definition OP_FP :: int where [simp]: "OP_FP = 0b1010011"
definition OP_LOAD_FP :: int where [simp]: "OP_LOAD_FP = 0b0000111"
definition OP_STORE_FP :: int where [simp]: "OP_STORE_FP = 0b0100111"

definition CSR_ADDR :: "(string \<times> int) list" where
  "CSR_ADDR = [(''mstatus'', 0x300), (''mie'', 0x304), (''mtvec'', 0x305), (''mscratch'', 0x340),
     (''mepc'', 0x341), (''mcause'', 0x342), (''mip'', 0x344), (''satp'', 0x180)]"

definition CSR_OP :: "(string \<times> int) list" where
  "CSR_OP = [(''csrrw'', 0b001), (''csrrs'', 0b010), (''csrrc'', 0b011),
     (''csrrwi'', 0b101), (''csrrsi'', 0b110), (''csrrci'', 0b111)]"

definition SYSTEM_IMM12 :: "(string \<times> int) list" where
  "SYSTEM_IMM12 = [(''ecall'', 0x000), (''ebreak'', 0x001), (''mret'', 0x302), (''sret'', 0x102)]"

definition FUNCT7_SFENCE_VMA :: int where [simp]: "FUNCT7_SFENCE_VMA = 0b0001001"
definition FUNCT7_BASE :: int where [simp]: "FUNCT7_BASE = 0b0000000"
definition FUNCT7_ALT :: int where [simp]: "FUNCT7_ALT = 0b0100000"
definition FUNCT7_MULDIV :: int where [simp]: "FUNCT7_MULDIV = 0b0000001"

definition R_TYPE :: "(string \<times> int \<times> int) list" where
  "R_TYPE = [
    (''add'', FUNCT7_BASE, 0b000), (''sub'', FUNCT7_ALT, 0b000), (''sll'', FUNCT7_BASE, 0b001),
    (''slt'', FUNCT7_BASE, 0b010), (''sltu'', FUNCT7_BASE, 0b011), (''xor'', FUNCT7_BASE, 0b100),
    (''srl'', FUNCT7_BASE, 0b101), (''sra'', FUNCT7_ALT, 0b101), (''or'', FUNCT7_BASE, 0b110), (''and'', FUNCT7_BASE, 0b111),
    (''mul'', FUNCT7_MULDIV, 0b000), (''mulh'', FUNCT7_MULDIV, 0b001),
    (''mulhsu'', FUNCT7_MULDIV, 0b010), (''mulhu'', FUNCT7_MULDIV, 0b011),
    (''div'', FUNCT7_MULDIV, 0b100), (''divu'', FUNCT7_MULDIV, 0b101),
    (''rem'', FUNCT7_MULDIV, 0b110), (''remu'', FUNCT7_MULDIV, 0b111),
    (''andn'', FUNCT7_ALT, 0b111), (''orn'', FUNCT7_ALT, 0b110), (''xnor'', FUNCT7_ALT, 0b100),
    (''min'', 0b0000101, 0b100), (''minu'', 0b0000101, 0b101), (''max'', 0b0000101, 0b110), (''maxu'', 0b0000101, 0b111),
    (''rol'', 0b0110000, 0b001), (''ror'', 0b0110000, 0b101),
    (''sh1add'', 0b0010000, 0b010), (''sh2add'', 0b0010000, 0b100), (''sh3add'', 0b0010000, 0b110),
    (''bclr'', 0b0100100, 0b001), (''bext'', 0b0100100, 0b101), (''binv'', 0b0110100, 0b001), (''bset'', 0b0010100, 0b001),
    (''clmul'', 0b0000101, 0b001), (''clmulh'', 0b0000101, 0b011),
    (''pack'', 0b0000100, 0b100), (''packh'', 0b0000100, 0b111),
    (''xperm4'', 0b0010100, 0b010), (''xperm8'', 0b0010100, 0b100),
    (''aes64esm'', 0b0011011, 0b000), (''aes64es'', 0b0011001, 0b000),
    (''aes64dsm'', 0b0011111, 0b000), (''aes64ds'', 0b0011101, 0b000),
    (''aes64ks2'', 0b0111111, 0b000)]"

definition I_TYPE :: "(string \<times> int) list" where
  "I_TYPE = [(''addi'', 0b000), (''slli'', 0b001), (''slti'', 0b010), (''sltiu'', 0b011),
     (''xori'', 0b100), (''srli'', 0b101), (''srai'', 0b101), (''ori'', 0b110), (''andi'', 0b111)]"

definition I_TYPE_BEXT_SHAMT :: "(string \<times> int \<times> int) list" where
  "I_TYPE_BEXT_SHAMT = [(''bclri'', 0b010010, 0b001), (''bexti'', 0b010010, 0b101),
     (''binvi'', 0b011010, 0b001), (''bseti'', 0b001010, 0b001), (''rori'', 0b011000, 0b101)]"

definition I_TYPE_BEXT_FIXED :: "(string \<times> int \<times> int) list" where
  "I_TYPE_BEXT_FIXED = [
    (''clz'', 0x600, 0b001), (''ctz'', 0x601, 0b001), (''cpop'', 0x602, 0b001),
    (''sext.b'', 0x604, 0b001), (''sext.h'', 0x605, 0b001), (''orc.b'', 0x287, 0b101),
    (''brev8'', 0x687, 0b101),
    (''sha256sum0'', 0x100, 0b001), (''sha256sum1'', 0x101, 0b001),
    (''sha256sig0'', 0x102, 0b001), (''sha256sig1'', 0x103, 0b001),
    (''sha512sum0'', 0x104, 0b001), (''sha512sum1'', 0x105, 0b001),
    (''sha512sig0'', 0x106, 0b001), (''sha512sig1'', 0x107, 0b001),
    (''aes64im'', 0x300, 0b001)]"

definition BRANCH :: "(string \<times> int) list" where
  "BRANCH = [(''beq'', 0b000), (''bne'', 0b001), (''blt'', 0b100), (''bge'', 0b101),
     (''ble'', 0b010), (''bgt'', 0b011), (''bltu'', 0b110), (''bgeu'', 0b111)]"

definition LOAD :: "(string \<times> int) list" where
  "LOAD = [(''lb'', 0b000), (''lh'', 0b001), (''lw'', 0b010), (''lbu'', 0b100), (''lhu'', 0b101),
     (''ld'', 0b011), (''lwu'', 0b110)]"

definition STORE :: "(string \<times> int) list" where
  "STORE = [(''sb'', 0b000), (''sh'', 0b001), (''sw'', 0b010), (''sd'', 0b011)]"

definition R_TYPE_W :: "(string \<times> int \<times> int) list" where
  "R_TYPE_W = [
    (''addw'', FUNCT7_BASE, 0b000), (''subw'', FUNCT7_ALT, 0b000), (''sllw'', FUNCT7_BASE, 0b001),
    (''srlw'', FUNCT7_BASE, 0b101), (''sraw'', FUNCT7_ALT, 0b101),
    (''mulw'', FUNCT7_MULDIV, 0b000),
    (''divw'', FUNCT7_MULDIV, 0b100), (''divuw'', FUNCT7_MULDIV, 0b101),
    (''remw'', FUNCT7_MULDIV, 0b110), (''remuw'', FUNCT7_MULDIV, 0b111),
    (''rolw'', 0b0110000, 0b001), (''rorw'', 0b0110000, 0b101),
    (''add.uw'', 0b0000100, 0b000),
    (''sh1add.uw'', 0b0010000, 0b010), (''sh2add.uw'', 0b0010000, 0b100), (''sh3add.uw'', 0b0010000, 0b110),
    (''packw'', 0b0000100, 0b100)]"

definition I_TYPE_W :: "(string \<times> int) list" where
  "I_TYPE_W = [(''addiw'', 0b000), (''slliw'', 0b001), (''srliw'', 0b101), (''sraiw'', 0b101)]"

definition I_TYPE_W_BEXT_FIXED :: "(string \<times> int) list" where
  "I_TYPE_W_BEXT_FIXED = [(''clzw'', 0x600), (''ctzw'', 0x601), (''cpopw'', 0x602)]"

definition MADD_OPCODES :: "(string \<times> int) list" where
  "MADD_OPCODES = [(''fmadd.s'', 0b1000011), (''fmsub.s'', 0b1000111),
     (''fnmsub.s'', 0b1001011), (''fnmadd.s'', 0b1001111)]"

definition FUNCT5_FSQRT :: int where [simp]: "FUNCT5_FSQRT = 0b01011"
definition FUNCT5_FSGNJ :: int where [simp]: "FUNCT5_FSGNJ = 0b00100"
definition FUNCT5_FMINMAX :: int where [simp]: "FUNCT5_FMINMAX = 0b00101"
definition FUNCT5_FCMP :: int where [simp]: "FUNCT5_FCMP = 0b10100"
definition FUNCT5_FCVT_W_S :: int where [simp]: "FUNCT5_FCVT_W_S = 0b11000"
definition FUNCT5_FCVT_S_W :: int where [simp]: "FUNCT5_FCVT_S_W = 0b11010"
definition FUNCT5_FMV_X_W_FCLASS :: int where [simp]: "FUNCT5_FMV_X_W_FCLASS = 0b11100"
definition FUNCT5_FMV_W_X :: int where [simp]: "FUNCT5_FMV_W_X = 0b11110"

definition FP_ARITH :: "(string \<times> int) list" where
  "FP_ARITH = [(''fadd.s'', 0b00000), (''fsub.s'', 0b00001), (''fmul.s'', 0b00010), (''fdiv.s'', 0b00011)]"

definition FP_SGNJ :: "(string \<times> int) list" where
  "FP_SGNJ = [(''fsgnj.s'', 0b000), (''fsgnjn.s'', 0b001), (''fsgnjx.s'', 0b010)]"

definition FP_MINMAX :: "(string \<times> int) list" where
  "FP_MINMAX = [(''fmin.s'', 0b000), (''fmax.s'', 0b001)]"

definition FP_CMP :: "(string \<times> int) list" where
  "FP_CMP = [(''fle.s'', 0b000), (''flt.s'', 0b001), (''feq.s'', 0b010)]"

definition RM_NAMES :: "(string \<times> int) list" where
  "RM_NAMES = [(''rne'', 0b000), (''rtz'', 0b001), (''rdn'', 0b010), (''rup'', 0b011),
     (''rmm'', 0b100), (''dyn'', 0b111)]"

definition parse_rm :: "string list \<Rightarrow> nat \<Rightarrow> int result" where
  "parse_rm args idx =
     (if length args > idx \<and> py_strip (args ! idx) \<noteq> [] then
        (let name = py_lower (py_strip (args ! idx)) in
         if has_key RM_NAMES name then py_get RM_NAMES name else Inl ValueError)
      else py_get RM_NAMES ''dyn'')"

section \<open>Encoders\<close>

definition r_type :: "string \<Rightarrow> int \<Rightarrow> int \<Rightarrow> int \<Rightarrow> int result" where
  "r_type mn rd rs1 rs2 =
     rbind (py_get R_TYPE mn) (\<lambda>(f7, f3).
       Inr (push_bit 25 f7 OR push_bit 20 rs2 OR push_bit 15 rs1 OR push_bit 12 f3 OR push_bit 7 rd OR OP_R))"

definition i_type :: "string \<Rightarrow> int \<Rightarrow> int \<Rightarrow> operand \<Rightarrow> nat \<Rightarrow> int result" where
  "i_type mn rd rs1 immv xlen =
     rbind (py_get I_TYPE mn) (\<lambda>f3.
     rbind (if mn \<in> {''slli'', ''srli'', ''srai''} then
              (if xlen \<ge> 64 then
                 rbind (imm immv 6 False) (\<lambda>shamt.
                   let f6 = (if mn = ''srai'' then 0b010000 else 0b000000) in Inr (push_bit 6 f6 OR shamt))
               else
                 rbind (imm immv 5 False) (\<lambda>shamt.
                   let f7 = (if mn = ''srai'' then FUNCT7_ALT else FUNCT7_BASE) in Inr (push_bit 5 f7 OR shamt)))
            else imm immv 12 True) (\<lambda>imm12.
       Inr (push_bit 20 (u_bits imm12 12) OR push_bit 15 rs1 OR push_bit 12 f3 OR push_bit 7 rd OR OP_I)))"

definition r_type_w :: "string \<Rightarrow> int \<Rightarrow> int \<Rightarrow> int \<Rightarrow> int result" where
  "r_type_w mn rd rs1 rs2 =
     rbind (py_get R_TYPE_W mn) (\<lambda>(f7, f3).
       Inr (push_bit 25 f7 OR push_bit 20 rs2 OR push_bit 15 rs1 OR push_bit 12 f3 OR push_bit 7 rd OR OP_32))"

definition i_type_w :: "string \<Rightarrow> int \<Rightarrow> int \<Rightarrow> operand \<Rightarrow> int result" where
  "i_type_w mn rd rs1 immv =
     rbind (py_get I_TYPE_W mn) (\<lambda>f3.
     rbind (if mn \<in> {''slliw'', ''srliw'', ''sraiw''} then
              rbind (imm immv 5 False) (\<lambda>shamt.
                let f7 = (if mn = ''sraiw'' then FUNCT7_ALT else FUNCT7_BASE) in Inr (push_bit 5 f7 OR shamt))
            else imm immv 12 True) (\<lambda>imm12.
       Inr (push_bit 20 (u_bits imm12 12) OR push_bit 15 rs1 OR push_bit 12 f3 OR push_bit 7 rd OR OP_IMM_32)))"

definition load :: "string \<Rightarrow> int \<Rightarrow> operand \<Rightarrow> int \<Rightarrow> int result" where
  "load mn rd offs rs1 =
     rbind (imm offs 12 True) (\<lambda>imm12. rbind (py_get LOAD mn) (\<lambda>f3.
       Inr (push_bit 20 (u_bits imm12 12) OR push_bit 15 rs1 OR push_bit 12 f3 OR push_bit 7 rd OR OP_LOAD)))"

definition store :: "string \<Rightarrow> int \<Rightarrow> operand \<Rightarrow> int \<Rightarrow> int result" where
  "store mn rs2 offs rs1 =
     rbind (imm offs 12 True) (\<lambda>imm12.
       let hi = drop_bit 5 imm12 AND 0x7F; lo = imm12 AND 0x1F in
       rbind (py_get STORE mn) (\<lambda>f3.
         Inr (push_bit 25 hi OR push_bit 20 rs2 OR push_bit 15 rs1 OR push_bit 12 f3 OR push_bit 7 lo OR OP_STORE)))"

definition jalr :: "int \<Rightarrow> operand \<Rightarrow> int \<Rightarrow> int result" where
  "jalr rd offs rs1 =
     rbind (imm offs 12 True) (\<lambda>imm12.
       Inr (push_bit 20 (u_bits imm12 12) OR push_bit 15 rs1 OR push_bit 7 rd OR OP_JALR))"

definition u_type :: "int \<Rightarrow> int \<Rightarrow> operand \<Rightarrow> int result" where
  "u_type opcode rd imm20 =
     rbind (imm imm20 20 False) (\<lambda>v. Inr (push_bit 12 v OR push_bit 7 rd OR opcode))"

definition branch :: "string \<Rightarrow> int \<Rightarrow> int \<Rightarrow> operand \<Rightarrow> int result" where
  "branch mn rs1 rs2 offset_bytes =
     rbind (py_get BRANCH mn) (\<lambda>f3. rbind (imm offset_bytes 13 True) (\<lambda>v.
       if v AND 1 \<noteq> 0 then Inl ValueError
       else let b12 = drop_bit 12 v AND 1; b11 = drop_bit 11 v AND 1;
                b10_5 = drop_bit 5 v AND 0x3F; b4_1 = drop_bit 1 v AND 0xF
            in Inr (push_bit 31 b12 OR push_bit 25 b10_5 OR push_bit 20 rs2 OR push_bit 15 rs1 OR push_bit 12 f3 OR
                    push_bit 7 b11 OR push_bit 8 b4_1 OR OP_BRANCH)))"

definition jal :: "int \<Rightarrow> operand \<Rightarrow> int result" where
  "jal rd offset_bytes =
     rbind (imm offset_bytes 21 True) (\<lambda>v.
       if v AND 1 \<noteq> 0 then Inl ValueError
       else let b20 = drop_bit 20 v AND 1; b10_1 = drop_bit 1 v AND 0x3FF;
                b11 = drop_bit 11 v AND 1; b19_12 = drop_bit 12 v AND 0xFF
            in Inr (push_bit 31 b20 OR push_bit 12 b19_12 OR push_bit 20 b11 OR push_bit 21 b10_1 OR push_bit 7 rd OR
                    OP_JAL))"

definition i_type_raw :: "int \<Rightarrow> int \<Rightarrow> int \<Rightarrow> int \<Rightarrow> int \<Rightarrow> int" where
  "i_type_raw imm12 f3 rd rs1 opcode =
     push_bit 20 (u_bits imm12 12) OR push_bit 15 rs1 OR push_bit 12 f3 OR push_bit 7 rd OR opcode"

definition i_type_bext_shamt :: "string \<Rightarrow> int \<Rightarrow> int \<Rightarrow> operand \<Rightarrow> nat \<Rightarrow> int result" where
  "i_type_bext_shamt mn rd rs1 immv xlen =
     rbind (py_get I_TYPE_BEXT_SHAMT mn) (\<lambda>(f6, f3).
     rbind (imm immv (if xlen \<ge> 64 then 6 else 5) False) (\<lambda>shamt.
       Inr (i_type_raw (push_bit 6 f6 OR shamt) f3 rd rs1 OP_I)))"

definition i_type_bext_fixed :: "string \<Rightarrow> int \<Rightarrow> int \<Rightarrow> int result" where
  "i_type_bext_fixed mn rd rs1 =
     rbind (py_get I_TYPE_BEXT_FIXED mn) (\<lambda>(imm12, f3). Inr (i_type_raw imm12 f3 rd rs1 OP_I))"

definition asm_aes64ks1i :: "int \<Rightarrow> int \<Rightarrow> operand \<Rightarrow> int result" where
  "asm_aes64ks1i rd rs1 rnum =
     rbind (imm rnum 4 False) (\<lambda>r. Inr (i_type_raw (push_bit 5 0b0011000 OR 0b10000 OR r) 0b001 rd rs1 OP_I))"

definition asm_rev8 :: "int \<Rightarrow> int \<Rightarrow> nat \<Rightarrow> int" where
  "asm_rev8 rd rs1 xlen = i_type_raw (if xlen = 32 then 0x698 else 0x6B8) 0b101 rd rs1 OP_I"

definition i_type_w_bext_fixed :: "string \<Rightarrow> int \<Rightarrow> int \<Rightarrow> int result" where
  "i_type_w_bext_fixed mn rd rs1 =
     rbind (py_get I_TYPE_W_BEXT_FIXED mn) (\<lambda>imm12. Inr (i_type_raw imm12 0b001 rd rs1 OP_IMM_32))"

definition roriw :: "int \<Rightarrow> int \<Rightarrow> operand \<Rightarrow> int result" where
  "roriw rd rs1 immv =
     rbind (imm immv 5 False) (\<lambda>shamt. Inr (i_type_raw (push_bit 5 0b0110000 OR shamt) 0b101 rd rs1 OP_IMM_32))"

definition slli_uw :: "int \<Rightarrow> int \<Rightarrow> operand \<Rightarrow> int result" where
  "slli_uw rd rs1 immv =
     rbind (imm immv 6 False) (\<lambda>shamt. Inr (i_type_raw (push_bit 6 0b000010 OR shamt) 0b001 rd rs1 OP_IMM_32))"

definition fp_r_type :: "int \<Rightarrow> int \<Rightarrow> int \<Rightarrow> int \<Rightarrow> int \<Rightarrow> int" where
  "fp_r_type funct5 rd rs1 rs2 rm =
     push_bit 27 funct5 OR push_bit 20 rs2 OR push_bit 15 rs1 OR push_bit 12 rm OR push_bit 7 rd OR OP_FP"

definition fp_sqrt :: "int \<Rightarrow> int \<Rightarrow> int \<Rightarrow> int" where
  "fp_sqrt rd rs1 rm =
     push_bit 27 FUNCT5_FSQRT OR push_bit 20 0 OR push_bit 15 rs1 OR push_bit 12 rm OR push_bit 7 rd OR OP_FP"

definition fp_sgnj :: "string \<Rightarrow> int \<Rightarrow> int \<Rightarrow> int \<Rightarrow> int result" where
  "fp_sgnj mn rd rs1 rs2 = rbind (py_get FP_SGNJ mn) (\<lambda>f3.
     Inr (push_bit 27 FUNCT5_FSGNJ OR push_bit 20 rs2 OR push_bit 15 rs1 OR push_bit 12 f3 OR push_bit 7 rd OR OP_FP))"

definition fp_minmax :: "string \<Rightarrow> int \<Rightarrow> int \<Rightarrow> int \<Rightarrow> int result" where
  "fp_minmax mn rd rs1 rs2 = rbind (py_get FP_MINMAX mn) (\<lambda>f3.
     Inr (push_bit 27 FUNCT5_FMINMAX OR push_bit 20 rs2 OR push_bit 15 rs1 OR push_bit 12 f3 OR push_bit 7 rd OR OP_FP))"

definition fp_cmp :: "string \<Rightarrow> int \<Rightarrow> int \<Rightarrow> int \<Rightarrow> int result" where
  "fp_cmp mn rd rs1 rs2 = rbind (py_get FP_CMP mn) (\<lambda>f3.
     Inr (push_bit 27 FUNCT5_FCMP OR push_bit 20 rs2 OR push_bit 15 rs1 OR push_bit 12 f3 OR push_bit 7 rd OR OP_FP))"

definition fp_cvt_w_s :: "bool \<Rightarrow> int \<Rightarrow> int \<Rightarrow> int \<Rightarrow> int" where
  "fp_cvt_w_s uns rd rs1 rm =
     (let rs2 = (if uns then 0b00001 else 0b00000) in
      push_bit 27 FUNCT5_FCVT_W_S OR push_bit 20 rs2 OR push_bit 15 rs1 OR push_bit 12 rm OR push_bit 7 rd OR OP_FP)"

definition fp_cvt_s_w :: "bool \<Rightarrow> int \<Rightarrow> int \<Rightarrow> int \<Rightarrow> int" where
  "fp_cvt_s_w uns rd rs1 rm =
     (let rs2 = (if uns then 0b00001 else 0b00000) in
      push_bit 27 FUNCT5_FCVT_S_W OR push_bit 20 rs2 OR push_bit 15 rs1 OR push_bit 12 rm OR push_bit 7 rd OR OP_FP)"

definition fp_mv_x_w :: "int \<Rightarrow> int \<Rightarrow> int" where
  "fp_mv_x_w rd rs1 =
     push_bit 27 FUNCT5_FMV_X_W_FCLASS OR push_bit 15 rs1 OR push_bit 12 0b000 OR push_bit 7 rd OR OP_FP"

definition fp_class :: "int \<Rightarrow> int \<Rightarrow> int" where
  "fp_class rd rs1 =
     push_bit 27 FUNCT5_FMV_X_W_FCLASS OR push_bit 15 rs1 OR push_bit 12 0b001 OR push_bit 7 rd OR OP_FP"

definition fp_mv_w_x :: "int \<Rightarrow> int \<Rightarrow> int" where
  "fp_mv_w_x rd rs1 = push_bit 27 FUNCT5_FMV_W_X OR push_bit 15 rs1 OR push_bit 7 rd OR OP_FP"

definition flw :: "int \<Rightarrow> operand \<Rightarrow> int \<Rightarrow> int result" where
  "flw rd offs rs1 =
     rbind (imm offs 12 True) (\<lambda>imm12.
       Inr (push_bit 20 (u_bits imm12 12) OR push_bit 15 rs1 OR push_bit 12 0b010 OR push_bit 7 rd OR OP_LOAD_FP))"

definition fsw :: "int \<Rightarrow> operand \<Rightarrow> int \<Rightarrow> int result" where
  "fsw rs2 offs rs1 =
     rbind (imm offs 12 True) (\<lambda>imm12.
       let hi = drop_bit 5 imm12 AND 0x7F; lo = imm12 AND 0x1F in
       Inr (push_bit 25 hi OR push_bit 20 rs2 OR push_bit 15 rs1 OR push_bit 12 0b010 OR push_bit 7 lo OR OP_STORE_FP))"

definition fp_r4_type :: "int \<Rightarrow> int \<Rightarrow> int \<Rightarrow> int \<Rightarrow> int \<Rightarrow> int \<Rightarrow> int" where
  "fp_r4_type opcode rd rs1 rs2 rs3 rm =
     push_bit 27 rs3 OR push_bit 20 rs2 OR push_bit 15 rs1 OR push_bit 12 rm OR push_bit 7 rd OR opcode"

definition csr_lookup :: "operand \<Rightarrow> int result" where
  "csr_lookup csr =
     (case csr of
        Tok s \<Rightarrow> if has_key CSR_ADDR s then py_get CSR_ADDR s else py_int0 s
      | Num n \<Rightarrow> Inr n)"

definition csr_reg :: "string \<Rightarrow> int \<Rightarrow> operand \<Rightarrow> int \<Rightarrow> int result" where
  "csr_reg mn rd csr rs1 =
     rbind (csr_lookup csr) (\<lambda>csr_addr. rbind (py_get CSR_OP mn) (\<lambda>f3.
       Inr (push_bit 20 (u_bits csr_addr 12) OR push_bit 15 rs1 OR push_bit 12 f3 OR push_bit 7 rd OR OP_SYSTEM)))"

definition csr_imm :: "string \<Rightarrow> int \<Rightarrow> operand \<Rightarrow> operand \<Rightarrow> int result" where
  "csr_imm mn rd csr uimm =
     rbind (csr_lookup csr) (\<lambda>csr_addr. rbind (imm uimm 5 False) (\<lambda>uimm5. rbind (py_get CSR_OP mn) (\<lambda>f3.
       Inr (push_bit 20 (u_bits csr_addr 12) OR push_bit 15 uimm5 OR push_bit 12 f3 OR push_bit 7 rd OR OP_SYSTEM))))"

definition system_noarg :: "string \<Rightarrow> int result" where
  "system_noarg mn = rbind (py_get SYSTEM_IMM12 mn) (\<lambda>i. Inr (push_bit 20 i OR OP_SYSTEM))"

definition sfence_vma :: "int \<Rightarrow> int \<Rightarrow> int" where
  "sfence_vma rs1 rs2 = push_bit 25 FUNCT7_SFENCE_VMA OR push_bit 20 rs2 OR push_bit 15 rs1 OR OP_SYSTEM"

definition fence :: int where
  "fence = push_bit 20 0b000011111111 OR OP_MISC_MEM"

end
