(* ===== verification/Asm.thy ===== *)
theory Asm
  imports Asm_Encode Fixed_Width
begin

text \<open>
  \<open>assemble\<close> and \<open>write_mem\<close> of \<open>sim/tools/asm.py\<close>. The first pass collects the statements with
  their addresses and the labels; the second translates each statement. The source's chain of
  tests on the mnemonic is cut into four groups, in its order: a group answers \<open>None\<close> when none
  of its tests applies. Evaluation order is the source's, so the first error in that order is
  the one reported; a missing operand is an \<open>IndexError\<close> and a memory operand that does not
  match is an \<open>AttributeError\<close>, neither of which \<open>main\<close> catches.
\<close>

section \<open>First pass\<close>

type_synonym labels = "string \<rightharpoonup> int"

definition is_label :: "string \<Rightarrow> bool" where
  \<comment> \<open>\<open>line.endswith(":")\<close>\<close>
  "is_label line \<longleftrightarrow> line \<noteq> [] \<and> last line = CHR '':''"

fun pass1 :: "string list \<Rightarrow> int \<Rightarrow> (int \<times> string) list \<Rightarrow> labels \<Rightarrow> (int \<times> string) list \<times> labels" where
  "pass1 [] addr stmts labels = (stmts, labels)"
| "pass1 (raw # lines) addr stmts labels =
     (let line = py_strip (split_first CHR ''#'' raw) in
      if line = [] then pass1 lines addr stmts labels
      else if is_label line then pass1 lines addr stmts (labels(py_strip (butlast line) \<mapsto> addr))
      else pass1 lines (addr + 4) (stmts @ [(addr, line)]) labels)"

definition resolve :: "labels \<Rightarrow> string \<Rightarrow> int \<Rightarrow> int result" where
  "resolve labels tok cur_addr =
     (let tok = py_strip tok in
      case labels tok of Some a \<Rightarrow> Inr (a - cur_addr) | None \<Rightarrow> py_int0 tok)"

section \<open>Operands\<close>

definition arg :: "string list \<Rightarrow> nat \<Rightarrow> string result" where
  "arg args i = (if i < length args then Inr (args ! i) else Inl IndexError)"

definition reg_arg :: "string list \<Rightarrow> nat \<Rightarrow> int result" where
  "reg_arg args i = rbind (arg args i) reg"

definition freg_arg :: "string list \<Rightarrow> nat \<Rightarrow> int result" where
  "freg_arg args i = rbind (arg args i) freg"

definition tok_arg :: "string list \<Rightarrow> nat \<Rightarrow> operand result" where
  "tok_arg args i = rbind (arg args i) (\<lambda>t. Inr (Tok t))"

definition mem_operand :: "string \<Rightarrow> (string \<times> string) result" where
  \<comment> \<open>\<open>re.match(r"(-?\w+)\((x\d+)\)", s)\<close> and its two groups\<close>
  "mem_operand s =
     (let sign = takeWhile (\<lambda>c. c = CHR ''-'') (take 1 s); rest = drop (length sign) s;
          w = takeWhile is_word_char rest in
      case dropWhile is_word_char rest of
        c1 # c2 # r \<Rightarrow>
          (let d = takeWhile py_isdigit r in
           if w \<noteq> [] \<and> c1 = CHR ''('' \<and> c2 = CHR ''x'' \<and> d \<noteq> [] \<and>
              take 1 (dropWhile py_isdigit r) = '')''
           then Inr (sign @ w, CHR ''x'' # d) else Inl AttributeError)
      | _ \<Rightarrow> Inl AttributeError)"

definition with_mem :: "string list \<Rightarrow> (operand \<Rightarrow> int \<Rightarrow> int result) \<Rightarrow> int result" where
  \<comment> \<open>\<open>m = re.match(..., args[1])\<close>, then the encoder on \<open>m.group(1)\<close> and \<open>reg(m.group(2))\<close>\<close>
  "with_mem args k =
     rbind (arg args 1) (\<lambda>a. rbind (mem_operand a) (\<lambda>(offs, base). rbind (reg base) (k (Tok offs))))"

section \<open>Second pass\<close>

definition asm_alu :: "nat \<Rightarrow> string \<Rightarrow> string list \<Rightarrow> int result option" where
  "asm_alu xlen mn args =
     (if mn = ''nop'' then Some (i_type ''addi'' 0 0 (Num 0) 32)
      else if has_key R_TYPE mn then
        Some (rbind (reg_arg args 0) (\<lambda>rd. rbind (reg_arg args 1) (\<lambda>rs1. rbind (reg_arg args 2) (\<lambda>rs2.
          r_type mn rd rs1 rs2))))
      else if has_key I_TYPE mn then
        Some (rbind (reg_arg args 0) (\<lambda>rd. rbind (reg_arg args 1) (\<lambda>rs1. rbind (tok_arg args 2) (\<lambda>i.
          i_type mn rd rs1 i xlen))))
      else if has_key I_TYPE_BEXT_SHAMT mn then
        Some (rbind (reg_arg args 0) (\<lambda>rd. rbind (reg_arg args 1) (\<lambda>rs1. rbind (tok_arg args 2) (\<lambda>i.
          i_type_bext_shamt mn rd rs1 i xlen))))
      else if has_key I_TYPE_BEXT_FIXED mn then
        Some (rbind (reg_arg args 0) (\<lambda>rd. rbind (reg_arg args 1) (\<lambda>rs1. i_type_bext_fixed mn rd rs1)))
      else if mn = ''rev8'' then
        Some (rbind (reg_arg args 0) (\<lambda>rd. rbind (reg_arg args 1) (\<lambda>rs1. Inr (asm_rev8 rd rs1 xlen))))
      else if mn = ''zext.w'' then
        Some (rbind (reg_arg args 0) (\<lambda>rd. rbind (reg_arg args 1) (\<lambda>rs1. r_type_w ''add.uw'' rd rs1 0)))
      else if has_key R_TYPE_W mn then
        Some (rbind (reg_arg args 0) (\<lambda>rd. rbind (reg_arg args 1) (\<lambda>rs1. rbind (reg_arg args 2) (\<lambda>rs2.
          r_type_w mn rd rs1 rs2))))
      else if has_key I_TYPE_W mn then
        Some (rbind (reg_arg args 0) (\<lambda>rd. rbind (reg_arg args 1) (\<lambda>rs1. rbind (tok_arg args 2) (\<lambda>i.
          i_type_w mn rd rs1 i))))
      else if has_key I_TYPE_W_BEXT_FIXED mn then
        Some (rbind (reg_arg args 0) (\<lambda>rd. rbind (reg_arg args 1) (\<lambda>rs1. i_type_w_bext_fixed mn rd rs1)))
      else if mn = ''roriw'' then
        Some (rbind (reg_arg args 0) (\<lambda>rd. rbind (reg_arg args 1) (\<lambda>rs1. rbind (tok_arg args 2) (\<lambda>i.
          roriw rd rs1 i))))
      else if mn = ''slli.uw'' then
        Some (rbind (reg_arg args 0) (\<lambda>rd. rbind (reg_arg args 1) (\<lambda>rs1. rbind (tok_arg args 2) (\<lambda>i.
          slli_uw rd rs1 i))))
      else None)"

definition asm_mem :: "labels \<Rightarrow> int \<Rightarrow> string \<Rightarrow> string list \<Rightarrow> int result option" where
  "asm_mem labels cur_addr mn args =
     (if has_key LOAD mn then
        Some (rbind (reg_arg args 0) (\<lambda>rd. with_mem args (\<lambda>offs rs1. load mn rd offs rs1)))
      else if has_key STORE mn then
        Some (rbind (reg_arg args 0) (\<lambda>rs2. with_mem args (\<lambda>offs rs1. store mn rs2 offs rs1)))
      else if has_key BRANCH mn then
        Some (rbind (reg_arg args 0) (\<lambda>rs1. rbind (reg_arg args 1) (\<lambda>rs2. rbind (arg args 2) (\<lambda>t.
          rbind (resolve labels t cur_addr) (\<lambda>off. branch mn rs1 rs2 (Num off))))))
      else if mn = ''jal'' then
        Some (rbind (reg_arg args 0) (\<lambda>rd. rbind (arg args 1) (\<lambda>t.
          rbind (resolve labels t cur_addr) (\<lambda>off. jal rd (Num off)))))
      else if mn = ''jalr'' then
        Some (rbind (reg_arg args 0) (\<lambda>rd. with_mem args (\<lambda>offs rs1. jalr rd offs rs1)))
      else if mn = ''lui'' then
        Some (rbind (reg_arg args 0) (\<lambda>rd. rbind (tok_arg args 1) (\<lambda>i. u_type OP_LUI rd i)))
      else if mn = ''auipc'' then
        Some (rbind (reg_arg args 0) (\<lambda>rd. rbind (tok_arg args 1) (\<lambda>i. u_type OP_AUIPC rd i)))
      else None)"

definition asm_sys :: "string \<Rightarrow> string list \<Rightarrow> int result option" where
  "asm_sys mn args =
     (if mn \<in> {''csrrw'', ''csrrs'', ''csrrc''} then
        Some (rbind (reg_arg args 0) (\<lambda>rd. rbind (tok_arg args 1) (\<lambda>csr. rbind (reg_arg args 2) (\<lambda>rs1.
          csr_reg mn rd csr rs1))))
      else if mn \<in> {''csrrwi'', ''csrrsi'', ''csrrci''} then
        Some (rbind (reg_arg args 0) (\<lambda>rd. rbind (tok_arg args 1) (\<lambda>csr. rbind (tok_arg args 2) (\<lambda>uimm.
          csr_imm mn rd csr uimm))))
      else if mn \<in> {''ecall'', ''ebreak'', ''mret'', ''sret''} then Some (system_noarg mn)
      else if mn = ''sfence.vma'' then
        Some (rbind (if length args > 0 then reg_arg args 0 else Inr 0) (\<lambda>rs1.
              rbind (if length args > 1 then reg_arg args 1 else Inr 0) (\<lambda>rs2. Inr (sfence_vma rs1 rs2))))
      else if mn = ''fence'' then Some (Inr fence)
      else if mn = ''word'' then
        Some (rbind (arg args 0) (\<lambda>t. rbind (py_int0 t) (\<lambda>v. Inr (u_bits v 32))))
      else None)"

definition asm_fp :: "string \<Rightarrow> string list \<Rightarrow> int result option" where
  "asm_fp mn args =
     (if mn = ''flw'' then
        Some (rbind (freg_arg args 0) (\<lambda>rd. with_mem args (\<lambda>offs rs1. flw rd offs rs1)))
      else if mn = ''fsw'' then
        Some (rbind (freg_arg args 0) (\<lambda>rs2. with_mem args (\<lambda>offs rs1. fsw rs2 offs rs1)))
      else if has_key FP_ARITH mn then
        Some (rbind (freg_arg args 0) (\<lambda>rd. rbind (freg_arg args 1) (\<lambda>rs1. rbind (freg_arg args 2) (\<lambda>rs2.
          rbind (parse_rm args 3) (\<lambda>rm. rbind (py_get FP_ARITH mn) (\<lambda>f5. Inr (fp_r_type f5 rd rs1 rs2 rm)))))))
      else if mn = ''fsqrt.s'' then
        Some (rbind (freg_arg args 0) (\<lambda>rd. rbind (freg_arg args 1) (\<lambda>rs1. rbind (parse_rm args 2) (\<lambda>rm.
          Inr (fp_sqrt rd rs1 rm)))))
      else if has_key FP_SGNJ mn then
        Some (rbind (freg_arg args 0) (\<lambda>rd. rbind (freg_arg args 1) (\<lambda>rs1. rbind (freg_arg args 2) (\<lambda>rs2.
          fp_sgnj mn rd rs1 rs2))))
      else if has_key FP_MINMAX mn then
        Some (rbind (freg_arg args 0) (\<lambda>rd. rbind (freg_arg args 1) (\<lambda>rs1. rbind (freg_arg args 2) (\<lambda>rs2.
          fp_minmax mn rd rs1 rs2))))
      else if has_key FP_CMP mn then
        Some (rbind (reg_arg args 0) (\<lambda>rd. rbind (freg_arg args 1) (\<lambda>rs1. rbind (freg_arg args 2) (\<lambda>rs2.
          fp_cmp mn rd rs1 rs2))))
      else if mn \<in> {''fcvt.w.s'', ''fcvt.wu.s''} then
        Some (rbind (reg_arg args 0) (\<lambda>rd. rbind (freg_arg args 1) (\<lambda>rs1. rbind (parse_rm args 2) (\<lambda>rm.
          Inr (fp_cvt_w_s (mn = ''fcvt.wu.s'') rd rs1 rm)))))
      else if mn \<in> {''fcvt.s.w'', ''fcvt.s.wu''} then
        Some (rbind (freg_arg args 0) (\<lambda>rd. rbind (reg_arg args 1) (\<lambda>rs1. rbind (parse_rm args 2) (\<lambda>rm.
          Inr (fp_cvt_s_w (mn = ''fcvt.s.wu'') rd rs1 rm)))))
      else if mn = ''fmv.x.w'' then
        Some (rbind (reg_arg args 0) (\<lambda>rd. rbind (freg_arg args 1) (\<lambda>rs1. Inr (fp_mv_x_w rd rs1))))
      else if mn = ''fclass.s'' then
        Some (rbind (reg_arg args 0) (\<lambda>rd. rbind (freg_arg args 1) (\<lambda>rs1. Inr (fp_class rd rs1))))
      else if mn = ''fmv.w.x'' then
        Some (rbind (freg_arg args 0) (\<lambda>rd. rbind (reg_arg args 1) (\<lambda>rs1. Inr (fp_mv_w_x rd rs1))))
      else if has_key MADD_OPCODES mn then
        Some (rbind (freg_arg args 0) (\<lambda>rd. rbind (freg_arg args 1) (\<lambda>rs1. rbind (freg_arg args 2) (\<lambda>rs2.
          rbind (freg_arg args 3) (\<lambda>rs3. rbind (parse_rm args 4) (\<lambda>rm.
          rbind (py_get MADD_OPCODES mn) (\<lambda>opc. Inr (fp_r4_type opc rd rs1 rs2 rs3 rm))))))))
      else if mn = ''aes64ks1i'' then
        Some (rbind (reg_arg args 0) (\<lambda>rd. rbind (reg_arg args 1) (\<lambda>rs1. rbind (tok_arg args 2) (\<lambda>i.
          asm_aes64ks1i rd rs1 i))))
      else if mn = ''.word'' then
        Some (rbind (arg args 0) (\<lambda>t. rbind (py_int0 t) (\<lambda>v. Inr (v AND 0xFFFFFFFF))))
      else None)"

definition asm_insn :: "labels \<Rightarrow> nat \<Rightarrow> int \<Rightarrow> string \<Rightarrow> string list \<Rightarrow> int result" where
  "asm_insn labels xlen cur_addr mn args =
     (case asm_alu xlen mn args of Some r \<Rightarrow> r | None \<Rightarrow>
      case asm_mem labels cur_addr mn args of Some r \<Rightarrow> r | None \<Rightarrow>
      case asm_sys mn args of Some r \<Rightarrow> r | None \<Rightarrow>
      case asm_fp mn args of Some r \<Rightarrow> r | None \<Rightarrow> Inl ValueError)"

definition is_sep :: "char \<Rightarrow> bool" where
  \<comment> \<open>the class \<open>[,\s]\<close>\<close>
  "is_sep c \<longleftrightarrow> c = CHR '','' \<or> py_isspace c"

definition asm_stmt :: "labels \<Rightarrow> nat \<Rightarrow> int \<times> string \<Rightarrow> int result" where
  "asm_stmt labels xlen stmt =
     (let parts = re_split is_sep (py_strip (snd stmt))
      in asm_insn labels xlen (fst stmt) (py_lower (hd parts)) (tl parts))"

fun asm_stmts :: "labels \<Rightarrow> nat \<Rightarrow> (int \<times> string) list \<Rightarrow> int list result" where
  "asm_stmts labels xlen [] = Inr []"
| "asm_stmts labels xlen (stmt # stmts) =
     rbind (asm_stmt labels xlen stmt) (\<lambda>w. rbind (asm_stmts labels xlen stmts) (\<lambda>ws. Inr (w # ws)))"

definition assemble :: "string list \<Rightarrow> nat \<Rightarrow> int list result" where
  "assemble lines xlen = (let (stmts, labels) = pass1 lines 0 [] Map.empty in asm_stmts labels xlen stmts)"

section \<open>The memory image\<close>

fun fill_mem :: "nat \<Rightarrow> nat \<Rightarrow> int list \<Rightarrow> int list \<Rightarrow> int list result" where
  "fill_mem size_bytes i data [] = Inr data"
| "fill_mem size_bytes i data (w # ws) =
     (let off = i * 4 in
      if off + 4 > size_bytes then Inl ValueError
      else fill_mem size_bytes (i + 1)
        (data[off := w AND 0xFF, off + 1 := drop_bit 8 w AND 0xFF,
              off + 2 := drop_bit 16 w AND 0xFF, off + 3 := drop_bit 24 w AND 0xFF]) ws)"

definition write_mem :: "int list \<Rightarrow> nat \<Rightarrow> string result" where
  \<comment> \<open>the text written to the file\<close>
  "write_mem words size_bytes =
     rbind (fill_mem size_bytes 0 (replicate size_bytes 0) words)
       (\<lambda>data. Inr (concat (map (\<lambda>b. format_b 8 b @ [CHR 0x0A]) data)))"

end
