(* ===== verification/Insn_Format.thy ===== *)
theory Insn_Format
  imports Iss_Step
begin

text \<open>
  The six instruction formats as pairs of an encoder and the simulator's decoder. The
  assembler, the disassembler and the simulator each take instruction words apart or put them
  together with shifts and masks of their own; here the simulator's fields (\<open>dec_rd\<close>,
  \<open>dec_imm_b\<close>, ...) are shown to read back what a format puts together. The contract is the
  locale \<open>insn_format\<close>, interpreted for each format.
\<close>

section \<open>Non-overlapping fields\<close>

named_theorems field_simps \<open>reading a field out of a disjunction of shifted fields\<close>

lemma drop_push_bit [field_simps]:
  "drop_bit m (push_bit n a) = (if m \<le> n then push_bit (n - m) a else drop_bit (m - n) (a::int))"
  by (rule bit_eqI) (auto simp: bit_simps add.commute)

lemma fits_drop_0 [field_simps]: "fits n x \<Longrightarrow> n \<le> m \<Longrightarrow> drop_bit m x = (0::int)"
  by (rule bit_eqI) (auto simp: bit_simps fits_high_bit)

lemma fits_take_self [field_simps]: "fits n x \<Longrightarrow> n \<le> m \<Longrightarrow> take_bit m x = (x::int)"
  by (simp add: fits_mono)

lemma drop_take_0 [field_simps]: "n \<le> m \<Longrightarrow> drop_bit m (take_bit n x) = (0::int)"
  by (rule fits_drop_0 [OF fits_take_bit])

lemma drop_mod_2_0 [field_simps]: "0 < m \<Longrightarrow> drop_bit m (x mod 2) = (0::int)"
  using drop_take_0 [of 1 m x] by (simp add: take_bit_eq_mod)

lemmas field_rules = field_simps take_bit_or drop_bit_or take_bit_push_bit mask_simps and_1_take_bit
  fits_numeral

section \<open>The contract\<close>

locale insn_format =
  fixes enc :: "'a \<Rightarrow> int" and dec :: "int \<Rightarrow> 'a" and ok :: "'a \<Rightarrow> bool"
  assumes dec_enc: "ok x \<Longrightarrow> dec (enc x) = x"
    and enc_word: "ok x \<Longrightarrow> fits 32 (enc x)"
begin

lemma enc_inj: "ok x \<Longrightarrow> ok y \<Longrightarrow> enc x = enc y \<longleftrightarrow> x = y"
  using dec_enc by metis

lemma enc_image: "inj_on enc {x. ok x}"
  using enc_inj by (auto intro: inj_onI)

end

section \<open>Formats\<close>

definition enc_r :: "int \<times> int \<times> int \<times> int \<times> int \<times> int \<Rightarrow> int" where
  "enc_r = (\<lambda>(f7, rs2, rs1, f3, rd, opc).
     push_bit 25 f7 OR push_bit 20 rs2 OR push_bit 15 rs1 OR push_bit 12 f3 OR push_bit 7 rd OR opc)"

definition dec_r :: "int \<Rightarrow> int \<times> int \<times> int \<times> int \<times> int \<times> int" where
  "dec_r w = (dec_f7 w, dec_rs2 w, dec_rs1 w, dec_f3 w, dec_rd w, dec_op w)"

definition ok_r :: "int \<times> int \<times> int \<times> int \<times> int \<times> int \<Rightarrow> bool" where
  "ok_r = (\<lambda>(f7, rs2, rs1, f3, rd, opc).
     fits 7 f7 \<and> fits 5 rs2 \<and> fits 5 rs1 \<and> fits 3 f3 \<and> fits 5 rd \<and> fits 7 opc)"

definition enc_i :: "int \<times> int \<times> int \<times> int \<times> int \<Rightarrow> int" where
  "enc_i = (\<lambda>(imm12, rs1, f3, rd, opc).
     push_bit 20 imm12 OR push_bit 15 rs1 OR push_bit 12 f3 OR push_bit 7 rd OR opc)"

definition dec_i :: "int \<Rightarrow> int \<times> int \<times> int \<times> int \<times> int" where
  "dec_i w = (dec_imm12 w, dec_rs1 w, dec_f3 w, dec_rd w, dec_op w)"

definition ok_i :: "int \<times> int \<times> int \<times> int \<times> int \<Rightarrow> bool" where
  "ok_i = (\<lambda>(imm12, rs1, f3, rd, opc).
     fits 12 imm12 \<and> fits 5 rs1 \<and> fits 3 f3 \<and> fits 5 rd \<and> fits 7 opc)"

definition enc_s :: "int \<times> int \<times> int \<times> int \<times> int \<Rightarrow> int" where
  "enc_s = (\<lambda>(v, rs2, rs1, f3, opc).
     push_bit 25 (take_bit 7 (drop_bit 5 v)) OR push_bit 20 rs2 OR push_bit 15 rs1 OR push_bit 12 f3 OR
     push_bit 7 (take_bit 5 v) OR opc)"

definition dec_s :: "int \<Rightarrow> int \<times> int \<times> int \<times> int \<times> int" where
  "dec_s w = (dec_imm_s w, dec_rs2 w, dec_rs1 w, dec_f3 w, dec_op w)"

definition signed_in :: "nat \<Rightarrow> int \<Rightarrow> bool" where
  "signed_in n v \<longleftrightarrow> - (2 ^ (n - 1)) \<le> v \<and> v < 2 ^ (n - 1)"

definition ok_s :: "int \<times> int \<times> int \<times> int \<times> int \<Rightarrow> bool" where
  "ok_s = (\<lambda>(v, rs2, rs1, f3, opc). signed_in 12 v \<and> fits 5 rs2 \<and> fits 5 rs1 \<and> fits 3 f3 \<and> fits 7 opc)"

definition enc_b :: "int \<times> int \<times> int \<times> int \<times> int \<Rightarrow> int" where
  "enc_b = (\<lambda>(v, rs2, rs1, f3, opc).
     push_bit 31 (take_bit 1 (drop_bit 12 v)) OR push_bit 25 (take_bit 6 (drop_bit 5 v)) OR push_bit 20 rs2 OR
     push_bit 15 rs1 OR push_bit 12 f3 OR push_bit 7 (take_bit 1 (drop_bit 11 v)) OR
     push_bit 8 (take_bit 4 (drop_bit 1 v)) OR opc)"

definition dec_b :: "int \<Rightarrow> int \<times> int \<times> int \<times> int \<times> int" where
  "dec_b w = (dec_imm_b w, dec_rs2 w, dec_rs1 w, dec_f3 w, dec_op w)"

definition ok_b :: "int \<times> int \<times> int \<times> int \<times> int \<Rightarrow> bool" where
  "ok_b = (\<lambda>(v, rs2, rs1, f3, opc).
     signed_in 13 v \<and> even v \<and> fits 5 rs2 \<and> fits 5 rs1 \<and> fits 3 f3 \<and> fits 7 opc)"

definition enc_u :: "int \<times> int \<times> int \<Rightarrow> int" where
  "enc_u = (\<lambda>(imm20, rd, opc). push_bit 12 imm20 OR push_bit 7 rd OR opc)"

definition dec_u :: "int \<Rightarrow> int \<times> int \<times> int" where
  "dec_u w = (drop_bit 12 (w AND 0xFFFFF000), dec_rd w, dec_op w)"

definition ok_u :: "int \<times> int \<times> int \<Rightarrow> bool" where
  "ok_u = (\<lambda>(imm20, rd, opc). fits 20 imm20 \<and> fits 5 rd \<and> fits 7 opc)"

definition enc_j :: "int \<times> int \<times> int \<Rightarrow> int" where
  "enc_j = (\<lambda>(v, rd, opc).
     push_bit 31 (take_bit 1 (drop_bit 20 v)) OR push_bit 12 (take_bit 8 (drop_bit 12 v)) OR
     push_bit 20 (take_bit 1 (drop_bit 11 v)) OR push_bit 21 (take_bit 10 (drop_bit 1 v)) OR push_bit 7 rd OR opc)"

definition dec_j :: "int \<Rightarrow> int \<times> int \<times> int" where
  "dec_j w = (dec_imm_j w, dec_rd w, dec_op w)"

definition ok_j :: "int \<times> int \<times> int \<Rightarrow> bool" where
  "ok_j = (\<lambda>(v, rd, opc). signed_in 21 v \<and> even v \<and> fits 5 rd \<and> fits 7 opc)"

lemma signed_in_sext: "0 < n \<Longrightarrow> signed_in n v \<Longrightarrow> sext v n = v"
  by (simp add: sext_signed signed_in_def signed_take_bit_int_eq_self_iff)

lemma sext_take_bit: "0 < n \<Longrightarrow> sext (take_bit n v) n = sext v n"
  by (simp add: sext_def mask_simps)

interpretation r_format: insn_format enc_r dec_r ok_r
proof unfold_locales
  fix x assume "ok_r x"
  then show "dec_r (enc_r x) = x" "fits 32 (enc_r x)"
    by (auto simp: ok_r_def enc_r_def dec_r_def dec_f7_def dec_rs2_def dec_rs1_def dec_f3_def dec_rd_def dec_op_def
        field_rules intro!: fits_or intro: fits_push_bit_le fits_mono)
qed

interpretation i_format: insn_format enc_i dec_i ok_i
proof unfold_locales
  fix x assume "ok_i x"
  then show "dec_i (enc_i x) = x" "fits 32 (enc_i x)"
    by (auto simp: ok_i_def enc_i_def dec_i_def dec_imm12_def dec_rs1_def dec_f3_def dec_rd_def dec_op_def
        field_rules intro!: fits_or intro: fits_push_bit_le fits_mono)
qed

lemma s_fields: "push_bit 5 (take_bit 7 (drop_bit 5 v)) OR take_bit 5 v = take_bit 12 (v::int)"
  by (rule bit_eqI) (auto simp: bit_simps)

lemma bit_field: "bit (push_bit k (take_bit n (drop_bit k v))) i \<longleftrightarrow> k \<le> i \<and> i < k + n \<and> bit (v::int) i"
  by (auto simp: bit_simps)

lemma b_fields:
  fixes v :: int
  assumes "even v"
  shows "push_bit 12 (take_bit 1 (drop_bit 12 v)) OR push_bit 11 (take_bit 1 (drop_bit 11 v)) OR
    push_bit 5 (take_bit 6 (drop_bit 5 v)) OR push_bit 1 (take_bit 4 (drop_bit 1 v)) = take_bit 13 v"
proof (rule bit_eqI)
  fix n
  have "\<not> bit v 0" using assms by (simp add: bit_0)
  then show "bit (push_bit 12 (take_bit 1 (drop_bit 12 v)) OR push_bit 11 (take_bit 1 (drop_bit 11 v)) OR
    push_bit 5 (take_bit 6 (drop_bit 5 v)) OR push_bit 1 (take_bit 4 (drop_bit 1 v))) n = bit (take_bit 13 v) n"
    unfolding bit_or_iff bit_field bit_take_bit_iff by (cases "n = 0") auto
qed

lemma j_fields:
  fixes v :: int
  assumes "even v"
  shows "push_bit 20 (take_bit 1 (drop_bit 20 v)) OR push_bit 12 (take_bit 8 (drop_bit 12 v)) OR
    push_bit 11 (take_bit 1 (drop_bit 11 v)) OR push_bit 1 (take_bit 10 (drop_bit 1 v)) = take_bit 21 v"
proof (rule bit_eqI)
  fix n
  have "\<not> bit v 0" using assms by (simp add: bit_0)
  then show "bit (push_bit 20 (take_bit 1 (drop_bit 20 v)) OR push_bit 12 (take_bit 8 (drop_bit 12 v)) OR
    push_bit 11 (take_bit 1 (drop_bit 11 v)) OR push_bit 1 (take_bit 10 (drop_bit 1 v))) n = bit (take_bit 21 v) n"
    unfolding bit_or_iff bit_field bit_take_bit_iff by (cases "n = 0") auto
qed

interpretation s_format: insn_format enc_s dec_s ok_s
proof unfold_locales
  fix x assume x: "ok_s x"
  obtain v rs2 rs1 f3 opc where e: "x = (v, rs2, rs1, f3, opc)" by (cases x)
  have f: "fits 5 rs2" "fits 5 rs1" "fits 3 f3" "fits 7 opc" using x by (simp_all add: e ok_s_def)
  have "dec_imm_s (enc_s x) = sext (push_bit 5 (take_bit 7 (drop_bit 5 v)) OR take_bit 5 v) 12"
    using f by (simp add: e enc_s_def dec_imm_s_def field_rules)
  then have "dec_imm_s (enc_s x) = v"
    using x by (simp add: s_fields sext_take_bit signed_in_sext e ok_s_def)
  then show "dec_s (enc_s x) = x" "fits 32 (enc_s x)"
    using x by (auto simp: e ok_s_def enc_s_def dec_s_def dec_rs2_def dec_rs1_def dec_f3_def dec_op_def
        field_rules intro!: fits_or intro: fits_push_bit_le [OF fits_take_bit] fits_push_bit_le [OF fits_mod_2 [OF zero_less_one]]
          fits_push_bit_le fits_mono)
qed

interpretation b_format: insn_format enc_b dec_b ok_b
proof unfold_locales
  fix x assume x: "ok_b x"
  obtain v rs2 rs1 f3 opc where e: "x = (v, rs2, rs1, f3, opc)" by (cases x)
  have f: "fits 5 rs2" "fits 5 rs1" "fits 3 f3" "fits 7 opc" using x by (simp_all add: e ok_b_def)
  have "dec_imm_b (enc_b x) = sext (push_bit 12 (take_bit 1 (drop_bit 12 v)) OR push_bit 11 (take_bit 1 (drop_bit 11 v)) OR
    push_bit 5 (take_bit 6 (drop_bit 5 v)) OR push_bit 1 (take_bit 4 (drop_bit 1 v))) 13"
    using f by (simp add: e enc_b_def dec_imm_b_def field_rules)
  then have "dec_imm_b (enc_b x) = v"
    using x b_fields [of v] by (simp add: sext_take_bit signed_in_sext e ok_b_def)
  then show "dec_b (enc_b x) = x" "fits 32 (enc_b x)"
    using x by (auto simp: e ok_b_def enc_b_def dec_b_def dec_rs2_def dec_rs1_def dec_f3_def dec_op_def
        field_rules intro!: fits_or intro: fits_push_bit_le [OF fits_take_bit] fits_push_bit_le [OF fits_mod_2 [OF zero_less_one]]
          fits_push_bit_le fits_mono)
qed

interpretation u_format: insn_format enc_u dec_u ok_u
proof unfold_locales
  fix x assume x: "ok_u x"
  obtain i rd opc where e: "x = (i, rd, opc)" by (cases x)
  have "drop_bit 12 (enc_u x AND 0xFFFFF000) = drop_bit 12 (enc_u x) AND 0xFFFFF"
    by (simp add: drop_bit_and)
  then show "dec_u (enc_u x) = x" "fits 32 (enc_u x)"
    using x by (auto simp: e ok_u_def enc_u_def dec_u_def dec_rd_def dec_op_def
        field_rules intro!: fits_or intro: fits_push_bit_le fits_mono)
qed

interpretation j_format: insn_format enc_j dec_j ok_j
proof unfold_locales
  fix x assume x: "ok_j x"
  obtain v rd opc where e: "x = (v, rd, opc)" by (cases x)
  have f: "fits 5 rd" "fits 7 opc" using x by (simp_all add: e ok_j_def)
  have "dec_imm_j (enc_j x) = sext (push_bit 20 (take_bit 1 (drop_bit 20 v)) OR push_bit 12 (take_bit 8 (drop_bit 12 v)) OR
    push_bit 11 (take_bit 1 (drop_bit 11 v)) OR push_bit 1 (take_bit 10 (drop_bit 1 v))) 21"
    using f by (simp add: e enc_j_def dec_imm_j_def field_rules)
  then have "dec_imm_j (enc_j x) = v"
    using x j_fields [of v] by (simp add: sext_take_bit signed_in_sext e ok_j_def)
  then show "dec_j (enc_j x) = x" "fits 32 (enc_j x)"
    using x by (auto simp: e ok_j_def enc_j_def dec_j_def dec_rd_def dec_op_def
        field_rules intro!: fits_or intro: fits_push_bit_le [OF fits_take_bit] fits_push_bit_le [OF fits_mod_2 [OF zero_less_one]]
          fits_push_bit_le fits_mono)
qed

end
