(* ===== verification/Asm_Encode_Props.thy ===== *)
theory Asm_Encode_Props
  imports Asm Insn_Format
begin

text \<open>
  What the readers and encoders of the assembler produce. Each successful encoder call is an
  instruction of one of the formats of \<open>Insn_Format\<close> with fields in range, so the word has 32
  bits and the simulator's decoder reads the operands back.
\<close>

named_theorems encoders \<open>encoder calls as formats\<close>

section \<open>Readers\<close>

lemma reg_of_range: "reg_of c tok = Inr n \<Longrightarrow> fits 5 n"
  by (auto simp: reg_of_def fits_def Let_def split: list.splits if_splits)

lemma reg_range: "reg tok = Inr n \<Longrightarrow> fits 5 n" "freg tok = Inr n \<Longrightarrow> fits 5 n"
  by (auto simp: reg_def freg_def intro: reg_of_range)

lemma reg_arg_range: "reg_arg args i = Inr n \<Longrightarrow> fits 5 n" "freg_arg args i = Inr n \<Longrightarrow> fits 5 n"
  by (auto simp: reg_arg_def freg_arg_def intro: reg_range)

lemma imm_range: "imm t n sg = Inr v \<Longrightarrow> fits n v"
  by (auto simp: imm_def Let_def mask_simps split: if_splits)

lemma imm_num_signed:
  "0 < n \<Longrightarrow> imm (Num v) n True = (if signed_in n v then Inr (take_bit n v) else Inl ValueError)"
  by (auto simp: imm_def Let_def mask_simps signed_in_def)

lemma imm_num_unsigned: "imm (Num v) n False = (if fits n v then Inr v else Inl ValueError)"
  by (auto simp: imm_def Let_def mask_simps fits_def)

definition operand_value :: "operand \<Rightarrow> int result" where
  "operand_value t = (case t of Num v \<Rightarrow> Inr v | Tok s \<Rightarrow> py_int0 (py_strip s))"

lemma imm_value: "imm t n sg = rbind (operand_value t) (\<lambda>v. imm (Num v) n sg)"
  by (simp add: imm_def operand_value_def)

lemma imm_signed_iff:
  "0 < n \<Longrightarrow> imm t n True = Inr x \<longleftrightarrow> (\<exists>v. operand_value t = Inr v \<and> signed_in n v \<and> x = take_bit n v)"
  by (subst imm_value) (auto simp: imm_num_signed split: if_splits)

lemma imm_unsigned_iff: "imm t n False = Inr x \<longleftrightarrow> operand_value t = Inr x \<and> fits n x"
  by (subst imm_value) (auto simp: imm_num_unsigned split: if_splits)

lemma u_bits_take: "u_bits v n = take_bit n v"
  by (simp add: u_bits_def mask_simps)

section \<open>Tables\<close>

lemma py_get_all: "py_get t k = Inr v \<Longrightarrow> list_all (\<lambda>(k, v). P v) t \<Longrightarrow> P v"
  by (auto simp: py_get_def list_all_iff split: option.splits dest: map_of_SomeD)

lemma has_key_get: "has_key t k \<longleftrightarrow> (\<exists>v. py_get t k = Inr v)"
  by (auto simp: has_key_def py_get_def split: option.splits)

lemma py_get_errors: "py_get t k = Inl e \<longleftrightarrow> \<not> has_key t k \<and> e = KeyError"
  by (auto simp: has_key_def py_get_def split: option.splits)

lemma funct3_tables:
  assumes "py_get t mn = Inr f3"
    and "t \<in> {I_TYPE, I_TYPE_W, LOAD, STORE, BRANCH, CSR_OP, FP_SGNJ, FP_MINMAX, FP_CMP, RM_NAMES}"
  shows "fits 3 f3"
proof -
  have "list_all (\<lambda>(k, v). fits 3 v) t"
    using assms(2) by (elim insertE emptyE; hypsubst) (simp_all only: I_TYPE_def I_TYPE_W_def LOAD_def STORE_def
        BRANCH_def CSR_OP_def FP_SGNJ_def FP_MINMAX_def FP_CMP_def RM_NAMES_def, simp_all add: fits_def)
  with assms(1) show ?thesis by (rule py_get_all)
qed

lemma funct7_tables: "py_get t mn = Inr (f7, f3) \<Longrightarrow> t \<in> {R_TYPE, R_TYPE_W} \<Longrightarrow> fits 7 f7 \<and> fits 3 f3"
  using py_get_all [of t mn "(f7, f3)" "\<lambda>(f7, f3). fits 7 f7 \<and> fits 3 f3"]
  by (elim insertE emptyE; simp add: R_TYPE_def R_TYPE_W_def fits_def)

lemma imm12_tables:
  "py_get I_TYPE_BEXT_SHAMT mn = Inr (f6, f3) \<Longrightarrow> fits 6 f6 \<and> fits 3 f3"
  "py_get I_TYPE_BEXT_FIXED mn = Inr (i12, f3) \<Longrightarrow> fits 12 i12 \<and> fits 3 f3"
  by (drule py_get_all [where P = "\<lambda>(f6, f3). fits 6 f6 \<and> fits 3 f3"], simp_all add: I_TYPE_BEXT_SHAMT_def fits_def)
    (drule py_get_all [where P = "\<lambda>(i12, f3). fits 12 i12 \<and> fits 3 f3"], simp_all add: I_TYPE_BEXT_FIXED_def fits_def)

lemma other_tables:
  "py_get I_TYPE_W_BEXT_FIXED mn = Inr i12 \<Longrightarrow> fits 12 i12"
  "py_get SYSTEM_IMM12 mn = Inr i12 \<Longrightarrow> fits 12 i12"
  "py_get FP_ARITH mn = Inr f5 \<Longrightarrow> fits 5 f5"
  "py_get MADD_OPCODES mn = Inr opc \<Longrightarrow> fits 7 opc"
  by (drule py_get_all [where P = "fits 12"], simp_all add: I_TYPE_W_BEXT_FIXED_def fits_def)
    (drule py_get_all [where P = "fits 12"], simp_all add: SYSTEM_IMM12_def fits_def,
     drule py_get_all [where P = "fits 5"], simp_all add: FP_ARITH_def fits_def,
     drule py_get_all [where P = "fits 7"], simp_all add: MADD_OPCODES_def fits_def)

lemma parse_rm_range: "parse_rm args i = Inr rm \<Longrightarrow> fits 3 rm"
  by (auto simp: parse_rm_def Let_def split: if_splits intro: funct3_tables)

section \<open>Encoders as formats\<close>

lemma r_type_enc [encoders]:
  "r_type mn rd rs1 rs2 = rbind (py_get R_TYPE mn) (\<lambda>(f7, f3). Inr (enc_r (f7, rs2, rs1, f3, rd, OP_R)))"
  "r_type_w mn rd rs1 rs2 = rbind (py_get R_TYPE_W mn) (\<lambda>(f7, f3). Inr (enc_r (f7, rs2, rs1, f3, rd, OP_32)))"
  by (simp_all add: r_type_def r_type_w_def enc_r_def)

lemma i_type_raw_enc [encoders]: "i_type_raw i f3 rd rs1 opc = enc_i (take_bit 12 i, rs1, f3, rd, opc)"
  by (simp add: i_type_raw_def enc_i_def u_bits_take)

definition signed_imm :: "nat \<Rightarrow> operand \<Rightarrow> (int \<Rightarrow> int result) \<Rightarrow> int result" where
  "signed_imm n t k = rbind (operand_value t) (\<lambda>v. if signed_in n v then k v else Inl ValueError)"

lemma imm_signed_bind: "0 < n \<Longrightarrow> rbind (imm t n True) k = signed_imm n t (\<lambda>v. k (take_bit n v))"
  by (subst imm_value, cases "operand_value t") (auto simp: imm_num_signed signed_imm_def)

lemma signed_imm_Inr [simp]:
  "signed_imm n t k = Inr w \<longleftrightarrow> (\<exists>v. operand_value t = Inr v \<and> signed_in n v \<and> k v = Inr w)"
  by (auto simp: signed_imm_def split: if_splits)

lemma imm12_enc [encoders]:
  "load mn rd t rs1 = signed_imm 12 t (\<lambda>v. rbind (py_get LOAD mn) (\<lambda>f3. Inr (enc_i (take_bit 12 v, rs1, f3, rd, OP_LOAD))))"
  "jalr rd t rs1 = signed_imm 12 t (\<lambda>v. Inr (enc_i (take_bit 12 v, rs1, 0, rd, OP_JALR)))"
  "flw rd t rs1 = signed_imm 12 t (\<lambda>v. Inr (enc_i (take_bit 12 v, rs1, 2, rd, OP_LOAD_FP)))"
  by (simp_all add: load_def jalr_def flw_def imm_signed_bind u_bits_take enc_i_def)

lemma store_enc [encoders]:
  "store mn rs2 t rs1 = signed_imm 12 t (\<lambda>v. rbind (py_get STORE mn) (\<lambda>f3. Inr (enc_s (v, rs2, rs1, f3, OP_STORE))))"
  "fsw rs2 t rs1 = signed_imm 12 t (\<lambda>v. Inr (enc_s (v, rs2, rs1, 2, OP_STORE_FP)))"
  by (simp_all add: store_def fsw_def imm_signed_bind Let_def enc_s_def mask_simps drop_bit_take_bit)

lemma u_type_enc [encoders]:
  "u_type opc rd t = rbind (operand_value t) (\<lambda>v. if fits 20 v then Inr (enc_u (v, rd, opc)) else Inl ValueError)"
  unfolding u_type_def by (subst imm_value, cases "operand_value t") (auto simp: imm_num_unsigned enc_u_def)

lemma take_bit_mod_2: "0 < n \<Longrightarrow> take_bit n v mod 2 = v mod (2::int)"
  using take_bit_take_bit [of 1 n v] by (simp add: take_bit_eq_mod min_def mod_mod_cancel)

lemma branch_enc [encoders]:
  "branch mn rs1 rs2 t = rbind (py_get BRANCH mn) (\<lambda>f3. signed_imm 13 t (\<lambda>v.
     if odd v then Inl ValueError else Inr (enc_b (v, rs2, rs1, f3, OP_BRANCH))))"
  by (simp add: branch_def imm_signed_bind take_bit_mod_2 odd_iff_mod_2_eq_one Let_def enc_b_def mask_simps drop_bit_take_bit and_one_eq
      del: OP_BRANCH_def cong del: if_weak_cong)

lemma jal_enc [encoders]:
  "jal rd t = signed_imm 21 t (\<lambda>v. if odd v then Inl ValueError else Inr (enc_j (v, rd, OP_JAL)))"
  by (simp add: jal_def imm_signed_bind take_bit_mod_2 odd_iff_mod_2_eq_one Let_def enc_j_def mask_simps drop_bit_take_bit and_one_eq
      del: OP_JAL_def cong del: if_weak_cong)

lemma fp_enc [encoders]:
  "fp_r_type f5 rd rs1 rs2 rm = enc_r (push_bit 2 f5, rs2, rs1, rm, rd, OP_FP)"
  "fp_sqrt rd rs1 rm = enc_r (push_bit 2 FUNCT5_FSQRT, 0, rs1, rm, rd, OP_FP)"
  "fp_sgnj mn rd rs1 rs2 = rbind (py_get FP_SGNJ mn) (\<lambda>f3. Inr (enc_r (push_bit 2 FUNCT5_FSGNJ, rs2, rs1, f3, rd, OP_FP)))"
  "fp_minmax mn rd rs1 rs2 = rbind (py_get FP_MINMAX mn) (\<lambda>f3. Inr (enc_r (push_bit 2 FUNCT5_FMINMAX, rs2, rs1, f3, rd, OP_FP)))"
  "fp_cmp mn rd rs1 rs2 = rbind (py_get FP_CMP mn) (\<lambda>f3. Inr (enc_r (push_bit 2 FUNCT5_FCMP, rs2, rs1, f3, rd, OP_FP)))"
  "fp_cvt_w_s uns rd rs1 rm = enc_r (push_bit 2 FUNCT5_FCVT_W_S, of_bool uns, rs1, rm, rd, OP_FP)"
  "fp_cvt_s_w uns rd rs1 rm = enc_r (push_bit 2 FUNCT5_FCVT_S_W, of_bool uns, rs1, rm, rd, OP_FP)"
  "fp_mv_x_w rd rs1 = enc_r (push_bit 2 FUNCT5_FMV_X_W_FCLASS, 0, rs1, 0, rd, OP_FP)"
  "fp_class rd rs1 = enc_r (push_bit 2 FUNCT5_FMV_X_W_FCLASS, 0, rs1, 1, rd, OP_FP)"
  "fp_mv_w_x rd rs1 = enc_r (push_bit 2 FUNCT5_FMV_W_X, 0, rs1, 0, rd, OP_FP)"
  "fp_r4_type opc rd rs1 rs2 rs3 rm = enc_r (push_bit 2 rs3, rs2, rs1, rm, rd, opc)"
  by (simp_all add: fp_r_type_def fp_sqrt_def fp_sgnj_def fp_minmax_def fp_cmp_def fp_cvt_w_s_def fp_cvt_s_w_def
      fp_mv_x_w_def fp_class_def fp_mv_w_x_def fp_r4_type_def enc_r_def Let_def)

lemma system_enc [encoders]:
  "csr_reg mn rd c rs1 = rbind (csr_lookup c) (\<lambda>a. rbind (py_get CSR_OP mn) (\<lambda>f3.
     Inr (enc_i (take_bit 12 a, rs1, f3, rd, OP_SYSTEM))))"
  "csr_imm mn rd c t = rbind (csr_lookup c) (\<lambda>a. rbind (imm t 5 False) (\<lambda>z. rbind (py_get CSR_OP mn) (\<lambda>f3.
     Inr (enc_i (take_bit 12 a, z, f3, rd, OP_SYSTEM)))))"
  "system_noarg mn = rbind (py_get SYSTEM_IMM12 mn) (\<lambda>i. Inr (enc_i (i, 0, 0, 0, OP_SYSTEM)))"
  "sfence_vma rs1 rs2 = enc_r (FUNCT7_SFENCE_VMA, rs2, rs1, 0, 0, OP_SYSTEM)"
  by (simp_all add: csr_reg_def csr_imm_def system_noarg_def sfence_vma_def u_bits_take enc_i_def enc_r_def)

section \<open>Every encoder gives a 32-bit word\<close>

lemma operand_fields:
  "fits 5 rd \<Longrightarrow> fits 5 rs1 \<Longrightarrow> fits 5 rs2 \<Longrightarrow> fits 3 f3 \<Longrightarrow> fits 7 f7 \<Longrightarrow> fits 7 opc \<Longrightarrow>
     fits 32 (enc_r (f7, rs2, rs1, f3, rd, opc))"
  "fits 5 rd \<Longrightarrow> fits 5 rs1 \<Longrightarrow> fits 3 f3 \<Longrightarrow> fits 7 opc \<Longrightarrow> fits 12 i \<Longrightarrow> fits 32 (enc_i (i, rs1, f3, rd, opc))"
  "fits 5 rs2 \<Longrightarrow> fits 5 rs1 \<Longrightarrow> fits 3 f3 \<Longrightarrow> fits 7 opc \<Longrightarrow> signed_in 12 v \<Longrightarrow> fits 32 (enc_s (v, rs2, rs1, f3, opc))"
  "fits 5 rs2 \<Longrightarrow> fits 5 rs1 \<Longrightarrow> fits 3 f3 \<Longrightarrow> fits 7 opc \<Longrightarrow> signed_in 13 v \<Longrightarrow> even v \<Longrightarrow>
     fits 32 (enc_b (v, rs2, rs1, f3, opc))"
  "fits 5 rd \<Longrightarrow> fits 7 opc \<Longrightarrow> fits 20 v \<Longrightarrow> fits 32 (enc_u (v, rd, opc))"
  "fits 5 rd \<Longrightarrow> fits 7 opc \<Longrightarrow> signed_in 21 v \<Longrightarrow> even v \<Longrightarrow> fits 32 (enc_j (v, rd, opc))"
  using r_format.enc_word [of "(f7, rs2, rs1, f3, rd, opc)"] i_format.enc_word [of "(i, rs1, f3, rd, opc)"]
    s_format.enc_word [of "(v, rs2, rs1, f3, opc)"] b_format.enc_word [of "(v, rs2, rs1, f3, opc)"]
    u_format.enc_word [of "(v, rd, opc)"] j_format.enc_word [of "(v, rd, opc)"]
  by (simp_all add: ok_r_def ok_i_def ok_s_def ok_b_def ok_u_def ok_j_def)

lemma fits_opcodes [simp]:
  "fits 7 OP_R" "fits 7 OP_I" "fits 7 OP_LOAD" "fits 7 OP_STORE" "fits 7 OP_BRANCH" "fits 7 OP_JAL" "fits 7 OP_JALR"
  "fits 7 OP_LUI" "fits 7 OP_AUIPC" "fits 7 OP_SYSTEM" "fits 7 OP_32" "fits 7 OP_IMM_32" "fits 7 OP_FP"
  "fits 7 OP_LOAD_FP" "fits 7 OP_STORE_FP"
  by (simp_all add: fits_def)

lemma i_type_word:
  assumes "i_type mn rd rs1 t xl = Inr w"
  shows "\<exists>i f3. py_get I_TYPE mn = Inr f3 \<and> fits 12 i \<and> w = enc_i (i, rs1, f3, rd, OP_I)"
proof -
  obtain f3 i where "py_get I_TYPE mn = Inr f3" "w = enc_i (take_bit 12 i, rs1, f3, rd, OP_I)"
    using assms by (auto simp: i_type_def u_bits_take enc_i_def)
  then show ?thesis by (auto intro: exI [of _ "take_bit 12 i"])
qed

lemma i_type_w_word:
  assumes "i_type_w mn rd rs1 t = Inr w"
  shows "\<exists>i f3. py_get I_TYPE_W mn = Inr f3 \<and> fits 12 i \<and> w = enc_i (i, rs1, f3, rd, OP_IMM_32)"
proof -
  obtain f3 i where "py_get I_TYPE_W mn = Inr f3" "w = enc_i (take_bit 12 i, rs1, f3, rd, OP_IMM_32)"
    using assms by (auto simp: i_type_w_def u_bits_take enc_i_def)
  then show ?thesis by (auto intro: exI [of _ "take_bit 12 i"])
qed

lemma fits_push_2 [simp]: "fits 5 x \<Longrightarrow> fits 7 (push_bit 2 x)"
  by (auto intro: fits_push_bit_le)

lemma fits_small [simp]: "fits (numeral n) 1"
  by (rule fits_1) simp

lemmas encoder_defs = encoders i_type_bext_shamt_def i_type_bext_fixed_def asm_aes64ks1i_def asm_rev8_def
  i_type_w_bext_fixed_def roriw_def slli_uw_def fence_def

lemmas table_fields = imm12_tables other_tables funct7_tables [OF _ insertI1] funct7_tables [OF _ insertI2, OF _ insertI1]
  funct3_tables [of I_TYPE, simplified] funct3_tables [of I_TYPE_W, simplified] funct3_tables [of LOAD, simplified]
  funct3_tables [of STORE, simplified] funct3_tables [of BRANCH, simplified] funct3_tables [of CSR_OP, simplified]
  funct3_tables [of FP_SGNJ, simplified] funct3_tables [of FP_MINMAX, simplified] funct3_tables [of FP_CMP, simplified]

lemmas reader_fields = reg_arg_range reg_range parse_rm_range imm_range table_fields i_type_word i_type_w_word

text \<open>A chain of tests that yields an answer yields it in one of its branches.\<close>

lemma chainE:
  assumes "(if c then Some r else e) = Some x" and "r = x \<Longrightarrow> P" and "e = Some x \<Longrightarrow> P"
  shows P
  using assms by (auto split: if_splits)

lemma alu_word: "asm_alu xl mn args = Some (Inr w) \<Longrightarrow> fits 32 w"
  unfolding asm_alu_def
  by (elim chainE) (auto simp: encoder_defs fits_numeral intro!: operand_fields fits_or dest!: reader_fields)

lemma mem_word: "asm_mem labels a mn args = Some (Inr w) \<Longrightarrow> fits 32 w"
  unfolding asm_mem_def with_mem_def
  by (elim chainE) (auto simp: encoder_defs fits_numeral intro!: operand_fields split: if_splits dest!: reader_fields)

lemma sys_word: "asm_sys mn args = Some (Inr w) \<Longrightarrow> fits 32 w"
  unfolding asm_sys_def
  by (elim chainE) (auto simp: encoder_defs fits_numeral u_bits_take intro!: operand_fields split: if_splits dest!: reader_fields)

lemma fp_word: "asm_fp mn args = Some (Inr w) \<Longrightarrow> fits 32 w"
  unfolding asm_fp_def with_mem_def
  by (elim chainE) (auto simp: encoder_defs fits_numeral mask_simps intro!: operand_fields fits_or dest!: reader_fields)

lemma insn_word: "asm_insn labels xl a mn args = Inr w \<Longrightarrow> fits 32 w"
  by (auto simp: asm_insn_def split: option.splits dest: alu_word mem_word sys_word fp_word)

section \<open>Errors\<close>

text \<open>\<open>raises P r\<close>: if the call fails, its exception satisfies \<open>P\<close>.\<close>

named_theorems raises_intros \<open>which exceptions a call can raise\<close>

definition raises :: "(py_error \<Rightarrow> bool) \<Rightarrow> 'a result \<Rightarrow> bool" where
  "raises P r \<longleftrightarrow> (\<forall>e. r = Inl e \<longrightarrow> P e)"

lemma raises_result [raises_intros]: "raises P (Inr x)" "P e \<Longrightarrow> raises P (Inl e)"
  by (simp_all add: raises_def)

lemma raises_rbind [raises_intros]:
  "raises P r \<Longrightarrow> (\<And>x. r = Inr x \<Longrightarrow> raises P (f x)) \<Longrightarrow> raises P (rbind r f)"
  by (cases r) (auto simp: raises_def)

lemma raises_if [raises_intros]:
  "(c \<Longrightarrow> raises P a) \<Longrightarrow> (\<not> c \<Longrightarrow> raises P b) \<Longrightarrow> raises P (if c then a else b)"
  by simp

lemma raises_case [raises_intros]:
  "(xs = [] \<Longrightarrow> raises P a) \<Longrightarrow> (\<And>y ys. xs = y # ys \<Longrightarrow> raises P (f y ys)) \<Longrightarrow>
     raises P (case xs of [] \<Rightarrow> a | y # ys \<Rightarrow> f y ys)"
  "(m = None \<Longrightarrow> raises P b) \<Longrightarrow> (\<And>v. m = Some v \<Longrightarrow> raises P (g v)) \<Longrightarrow>
     raises P (case m of None \<Rightarrow> b | Some v \<Rightarrow> g v)"
  "(\<And>n. t = Num n \<Longrightarrow> raises P (h n)) \<Longrightarrow> (\<And>tx. t = Tok tx \<Longrightarrow> raises P (j tx)) \<Longrightarrow>
     raises P (case t of Num n \<Rightarrow> h n | Tok tx \<Rightarrow> j tx)"
  "(\<And>u v. p = (u, v) \<Longrightarrow> raises P (k u v)) \<Longrightarrow> raises P (case p of (u, v) \<Rightarrow> k u v)"
  by (auto split: list.splits option.splits operand.splits prod.splits)

definition asm_error :: "py_error \<Rightarrow> bool" where
  "asm_error e \<longleftrightarrow> e = ValueError \<or> e = IndexError \<or> e = AttributeError"

lemma asm_error_simps [simp, raises_intros]: "asm_error ValueError" "asm_error IndexError" "asm_error AttributeError"
  by (simp_all add: asm_error_def)

lemma int_digits_raises [raises_intros]: "raises asm_error (int_digits b acc p s)"
  by (induction b acc p s rule: int_digits.induct) (auto simp: raises_def split: option.splits)

lemma py_int0_raises [raises_intros]: "raises asm_error (py_int0 s)"
  unfolding py_int0_def int_unsigned_def by (intro raises_intros)

lemma imm_raises [raises_intros]: "raises asm_error (imm t n sg)"
  unfolding imm_def Let_def by (intro raises_intros)

lemma reg_raises [raises_intros]: "raises asm_error (reg t)" "raises asm_error (freg t)"
  unfolding reg_def freg_def reg_of_def Let_def by (intro raises_intros)+

lemma arg_raises [raises_intros]: "raises asm_error (arg args i)" "raises asm_error (reg_arg args i)"
  "raises asm_error (freg_arg args i)" "raises asm_error (tok_arg args i)"
  unfolding reg_arg_def freg_arg_def tok_arg_def arg_def by (intro raises_intros)+

lemma mem_operand_raises [raises_intros]: "raises asm_error (mem_operand s)"
  unfolding mem_operand_def Let_def by (intro raises_intros)

lemma with_mem_raises [raises_intros]: "(\<And>t r. raises asm_error (k t r)) \<Longrightarrow> raises asm_error (with_mem args k)"
  unfolding with_mem_def by (intro raises_intros) simp_all

lemma py_get_raises [raises_intros]: "has_key t k \<Longrightarrow> raises P (py_get t k)"
  by (auto simp: py_get_def has_key_def raises_def)

lemma parse_rm_raises [raises_intros]: "raises asm_error (parse_rm args i)"
proof -
  have "has_key RM_NAMES ''dyn''" by (simp add: RM_NAMES_def has_key_def)
  then show ?thesis unfolding parse_rm_def Let_def by (intro raises_intros) simp_all
qed

lemma csr_lookup_raises [raises_intros]: "raises asm_error (csr_lookup c)"
  by (cases c) (auto simp: csr_lookup_def intro!: raises_intros)

lemma resolve_raises [raises_intros]: "raises asm_error (resolve labels t a)"
  unfolding resolve_def Let_def by (intro raises_intros)

lemma csr_op_keys [simp]:
  "has_key CSR_OP ''csrrw''" "has_key CSR_OP ''csrrs''" "has_key CSR_OP ''csrrc''"
  "has_key CSR_OP ''csrrwi''" "has_key CSR_OP ''csrrsi''" "has_key CSR_OP ''csrrci''"
  "has_key SYSTEM_IMM12 ''ecall''" "has_key SYSTEM_IMM12 ''ebreak''" "has_key SYSTEM_IMM12 ''mret''"
  "has_key SYSTEM_IMM12 ''sret''" "has_key R_TYPE_W ''add.uw''" "has_key I_TYPE ''addi''"
  by (simp_all add: CSR_OP_def SYSTEM_IMM12_def R_TYPE_W_def I_TYPE_def has_key_def)

lemma csr_op_members:
  "mn \<in> {''csrrw'', ''csrrs'', ''csrrc''} \<Longrightarrow> has_key CSR_OP mn"
  "mn \<in> {''csrrwi'', ''csrrsi'', ''csrrci''} \<Longrightarrow> has_key CSR_OP mn"
  "mn \<in> {''ecall'', ''ebreak'', ''mret'', ''sret''} \<Longrightarrow> has_key SYSTEM_IMM12 mn"
  by auto

definition opt_raises :: "int result option \<Rightarrow> bool" where
  "opt_raises m \<longleftrightarrow> (\<forall>r. m = Some r \<longrightarrow> raises asm_error r)"

lemma opt_raises_chain: "(c \<Longrightarrow> raises asm_error r) \<Longrightarrow> opt_raises m \<Longrightarrow> opt_raises (if c then Some r else m)"
  by (simp add: opt_raises_def)

lemma opt_raises_None: "opt_raises None"
  by (simp add: opt_raises_def)

lemma encoder_raises:
  "has_key R_TYPE mn \<Longrightarrow> raises asm_error (r_type mn rd rs1 rs2)"
  "has_key R_TYPE_W mn \<Longrightarrow> raises asm_error (r_type_w mn rd rs1 rs2)"
  "has_key I_TYPE mn \<Longrightarrow> raises asm_error (i_type mn rd rs1 t xl)"
  "has_key I_TYPE_W mn \<Longrightarrow> raises asm_error (i_type_w mn rd rs1 t)"
  "has_key I_TYPE_BEXT_SHAMT mn \<Longrightarrow> raises asm_error (i_type_bext_shamt mn rd rs1 t xl)"
  "has_key I_TYPE_BEXT_FIXED mn \<Longrightarrow> raises asm_error (i_type_bext_fixed mn rd rs1)"
  "has_key I_TYPE_W_BEXT_FIXED mn \<Longrightarrow> raises asm_error (i_type_w_bext_fixed mn rd rs1)"
  "raises asm_error (roriw rd rs1 t)" "raises asm_error (slli_uw rd rs1 t)" "raises asm_error (asm_aes64ks1i rd rs1 t)"
  "has_key LOAD mn \<Longrightarrow> raises asm_error (load mn rd t rs1)"
  "has_key STORE mn \<Longrightarrow> raises asm_error (store mn rs2 t rs1)"
  "has_key BRANCH mn \<Longrightarrow> raises asm_error (branch mn rs1 rs2 t)"
  "raises asm_error (jal rd t)" "raises asm_error (jalr rd t rs1)" "raises asm_error (u_type opc rd t)"
  "has_key CSR_OP mn \<Longrightarrow> raises asm_error (csr_reg mn rd t rs1)"
  "has_key CSR_OP mn \<Longrightarrow> raises asm_error (csr_imm mn rd t t')"
  "has_key SYSTEM_IMM12 mn \<Longrightarrow> raises asm_error (system_noarg mn)"
  "has_key FP_SGNJ mn \<Longrightarrow> raises asm_error (fp_sgnj mn rd rs1 rs2)"
  "has_key FP_MINMAX mn \<Longrightarrow> raises asm_error (fp_minmax mn rd rs1 rs2)"
  "has_key FP_CMP mn \<Longrightarrow> raises asm_error (fp_cmp mn rd rs1 rs2)"
  "raises asm_error (flw rd t rs1)" "raises asm_error (fsw rs2 t rs1)"
  unfolding r_type_def r_type_w_def i_type_def i_type_w_def i_type_bext_shamt_def i_type_bext_fixed_def
    i_type_w_bext_fixed_def roriw_def slli_uw_def asm_aes64ks1i_def load_def store_def branch_def jal_def jalr_def
    u_type_def csr_reg_def csr_imm_def system_noarg_def fp_sgnj_def fp_minmax_def fp_cmp_def flw_def fsw_def Let_def
  by (intro raises_intros; assumption)+

lemmas asm_raises = opt_raises_chain opt_raises_None encoder_raises raises_intros csr_op_keys csr_op_members

lemma alu_raises: "opt_raises (asm_alu xl mn args)"
  unfolding asm_alu_def by (intro asm_raises; assumption?)

lemma mem_raises: "opt_raises (asm_mem labels a mn args)"
  unfolding asm_mem_def by (intro asm_raises; assumption?)

lemma sys_raises: "opt_raises (asm_sys mn args)"
  unfolding asm_sys_def by (intro asm_raises; assumption?)

lemma fp_raises: "opt_raises (asm_fp mn args)"
  unfolding asm_fp_def by (intro asm_raises; assumption?)

lemma insn_error: "asm_insn labels xl a mn args = Inl e \<Longrightarrow> asm_error e"
  using alu_raises [of xl mn args] mem_raises [of labels a mn args] sys_raises [of mn args] fp_raises [of mn args]
  by (auto simp: asm_insn_def opt_raises_def raises_def split: option.splits)

end
