(* ===== verification/Asm_Text.thy ===== *)
theory Asm_Text
  imports Asm_Encode_Props
begin

text \<open>
  The text of assembly programs: the statements of a program with their addresses, the values
  of its labels, and how a line of a mnemonic and comma-separated operands is taken apart.
\<close>

section \<open>Statements and labels\<close>

definition clean :: "string \<Rightarrow> string" where
  "clean raw = py_strip (split_first CHR ''#'' raw)"

definition statements :: "string list \<Rightarrow> string list" where
  "statements lines = filter (\<lambda>l. l \<noteq> [] \<and> \<not> is_label l) (map clean lines)"

definition label_name :: "string \<Rightarrow> string option" where
  "label_name raw = (if is_label (clean raw) then Some (py_strip (butlast (clean raw))) else None)"

lemma statements_simps [simp]:
  "statements [] = []"
  "statements (raw # lines) = (if clean raw = [] \<or> is_label (clean raw) then statements lines else clean raw # statements lines)"
  "statements (xs @ ys) = statements xs @ statements ys"
  by (simp_all add: statements_def)

fun addressed :: "int \<Rightarrow> string list \<Rightarrow> (int \<times> string) list" where
  "addressed a [] = []"
| "addressed a (l # ls) = (a, l) # addressed (a + 4) ls"

lemma addressed_nth: "i < length ls \<Longrightarrow> addressed a ls ! i = (a + 4 * int i, ls ! i)"
proof (induction ls arbitrary: a i)
  case (Cons l ls)
  then show ?case by (cases i) auto
qed simp

lemma addressed_length [simp]: "length (addressed a ls) = length ls"
  by (induction a ls rule: addressed.induct) auto

lemma pass1_statements: "fst (pass1 lines a stmts labels) = stmts @ addressed a (statements lines)"
  by (induction lines arbitrary: a stmts labels) (simp_all add: Let_def clean_def [symmetric])

lemma pass1_other_label:
  "L \<notin> {l. \<exists>raw \<in> set lines. label_name raw = Some l} \<Longrightarrow> snd (pass1 lines a stmts labels) L = labels L"
  by (induction lines arbitrary: a stmts labels)
    (auto simp: Let_def clean_def [symmetric] label_name_def split: if_splits)

lemma pass1_append:
  "pass1 (xs @ ys) a stmts labels =
     pass1 ys (a + 4 * int (length (statements xs))) (fst (pass1 xs a stmts labels)) (snd (pass1 xs a stmts labels))"
  by (induction xs arbitrary: a stmts labels) (auto simp: Let_def clean_def [symmetric] algebra_simps)

lemma pass1_label:
  assumes "label_name raw = Some L" "\<forall>r \<in> set after. label_name r \<noteq> Some L"
  shows "snd (pass1 (before @ raw # after) 0 [] Map.empty) L = Some (4 * int (length (statements before)))"
proof -
  have l: "is_label (clean raw)" "py_strip (butlast (clean raw)) = L" "clean raw \<noteq> []"
    using assms(1) by (auto simp: label_name_def is_label_def split: if_splits)
  then have "snd (pass1 (before @ raw # after) 0 [] Map.empty) L =
      snd (pass1 after (4 * int (length (statements before))) (fst (pass1 before 0 [] Map.empty))
        ((snd (pass1 before 0 [] Map.empty))(L \<mapsto> 4 * int (length (statements before))))) L"
    by (simp add: pass1_append Let_def clean_def [symmetric])
  also have "\<dots> = Some (4 * int (length (statements before)))"
    using assms(2) by (subst pass1_other_label) auto
  finally show ?thesis .
qed

lemma asm_stmts_Inr:
  "asm_stmts labels xl stmts = Inr ws \<longleftrightarrow>
     length ws = length stmts \<and> (\<forall>i < length stmts. asm_stmt labels xl (stmts ! i) = Inr (ws ! i))"
proof (induction stmts arbitrary: ws)
  case (Cons s stmts)
  show ?case
    by (cases ws) (auto simp: Cons All_less_Suc2)
qed auto

lemma asm_stmts_raises: "raises asm_error (asm_stmts labels xl stmts)"
  by (induction stmts)
    (auto intro!: raises_intros simp: asm_stmt_def Let_def, auto simp: raises_def dest: insn_error)

lemma assemble_unfold:
  "assemble lines xl = asm_stmts (snd (pass1 lines 0 [] Map.empty)) xl (addressed 0 (statements lines))"
  using pass1_statements [of lines 0 "[]" Map.empty] by (auto simp: assemble_def split: prod.split)

lemma assemble_nth:
  assumes "assemble lines xl = Inr ws" "i < length (statements lines)"
  shows "asm_stmt (snd (pass1 lines 0 [] Map.empty)) xl (4 * int i, statements lines ! i) = Inr (ws ! i)"
  using assms by (auto simp: assemble_unfold asm_stmts_Inr addressed_nth)

section \<open>Text of one instruction\<close>

lemma dropWhile_hd: "xs = [] \<or> \<not> P (hd xs) \<Longrightarrow> dropWhile P xs = xs"
  by (cases xs) auto

lemma strip_idem [simp]: "py_strip (py_strip s) = py_strip s"
proof -
  define r where "r = dropWhile py_isspace s"
  define q where "q = rev (dropWhile py_isspace (rev r))"
  have q: "py_strip s = q" by (simp add: py_strip_def r_def q_def)
  have "\<exists>t. r = q @ t"
    unfolding q_def by (metis rev_append rev_rev_ident takeWhile_dropWhile_id)
  moreover have "r = [] \<or> \<not> py_isspace (hd r)" unfolding r_def using hd_dropWhile by blast
  ultimately have "dropWhile py_isspace q = q" by (intro dropWhile_hd) (cases q, auto)
  moreover have "dropWhile py_isspace (rev q) = rev q" by (simp add: q_def)
  ultimately show ?thesis unfolding q by (simp add: py_strip_def)
qed

lemma clean_strip [simp]: "py_strip (clean l) = clean l"
  by (simp add: clean_def)

lemma re_split_token: "list_all (\<lambda>c. \<not> sep c) t \<Longrightarrow> re_split sep t = [t]"
proof -
  assume "list_all (\<lambda>c. \<not> sep c) t"
  then have "dropWhile (\<lambda>c. \<not> sep c) t = []" by (simp add: list_all_iff)
  then show ?thesis unfolding re_split.simps [of sep t] by (simp only: list.case)
qed

lemma re_split_sep:
  assumes "list_all (\<lambda>c. \<not> sep c) t" "sep d" "rest = [] \<or> \<not> sep (hd rest)"
  shows "re_split sep (t @ d # rest) = t # re_split sep rest"
  using assms dropWhile_hd [of rest sep]
  by (subst re_split.simps) (simp add: list_all_iff)

definition token :: "string \<Rightarrow> bool" where
  "token t \<longleftrightarrow> t \<noteq> [] \<and> list_all (\<lambda>c. \<not> is_sep c \<and> c \<noteq> CHR ''#'' \<and> c \<noteq> CHR '':'') t"

lemma token_hd: "token t \<Longrightarrow> \<not> is_sep (hd t)" "token t \<Longrightarrow> t \<noteq> []"
  by (auto simp: token_def list_all_iff)

lemma token_no_sep: "token t \<Longrightarrow> list_all (\<lambda>c. \<not> is_sep c) t"
  by (auto simp: token_def list_all_iff)

lemma join_comma_hd: "ts \<noteq> [] \<Longrightarrow> list_all token ts \<Longrightarrow> join_comma ts \<noteq> [] \<and> hd (join_comma ts) = hd (hd ts)"
  by (cases ts) (auto simp: token_def)

lemma split_join: "ts \<noteq> [] \<Longrightarrow> list_all token ts \<Longrightarrow> re_split is_sep (join_comma ts) = ts"
proof (induction ts)
  case (Cons t ts)
  have c: "is_sep CHR '',''" by (simp add: is_sep_def)
  show ?case
  proof (cases "ts = []")
    case False
    then have "hd (join_comma ts) = hd (hd ts)" "token (hd ts)"
      using Cons.prems join_comma_hd [of ts] by (cases ts, auto)+
    then show ?thesis
      using Cons False re_split_sep [OF token_no_sep c, of t "join_comma ts"] token_hd(1) by simp
  qed (use Cons re_split_token [OF token_no_sep] in auto)
qed simp

lemma split_text: "token mn \<Longrightarrow> list_all token ts \<Longrightarrow> re_split is_sep (asm_text mn ts) = mn # ts"
proof (cases "ts = []")
  case False
  assume a: "token mn" "list_all token ts"
  have c: "is_sep CHR '' ''" by (simp add: is_sep_def py_isspace_def)
  have "hd (join_comma ts) = hd (hd ts)" "token (hd ts)"
    using a False join_comma_hd [of ts] by (cases ts, auto)+
  then show ?thesis
    using a False re_split_sep [OF token_no_sep c, of mn "join_comma ts"] split_join [of ts] token_hd(1)
    by (simp add: asm_text_def)
qed (simp add: asm_text_def re_split_token token_no_sep)

lemma join_comma_last: "ts \<noteq> [] \<Longrightarrow> list_all token ts \<Longrightarrow> last (join_comma ts) = last (last ts)"
  by (induction ts) (auto simp: token_def dest: join_comma_hd)

lemma join_comma_set: "c \<in> set (join_comma ts) \<Longrightarrow> c = CHR '','' \<or> (\<exists>t \<in> set ts. c \<in> set t)"
  by (induction ts) (auto split: if_splits)

lemma asm_text_hash: "token mn \<Longrightarrow> list_all token ts \<Longrightarrow> CHR ''#'' \<notin> set (asm_text mn ts)"
  by (auto simp: asm_text_def token_def list_all_iff dest!: join_comma_set)

lemma asm_text_ends:
  assumes "token mn" "list_all token ts"
  shows "asm_text mn ts \<noteq> []" "\<not> is_sep (hd (asm_text mn ts))" "\<not> is_sep (last (asm_text mn ts))"
    "\<not> is_label (asm_text mn ts)"
proof -
  have l: "last (asm_text mn ts) = last (if ts = [] then mn else last ts)"
    using assms join_comma_last [of ts] join_comma_hd [of ts] by (simp add: asm_text_def)
  have t: "token (if ts = [] then mn else last ts)" using assms by (auto simp: list_all_iff)
  then have "\<not> is_sep (last (asm_text mn ts))" "last (asm_text mn ts) \<noteq> CHR '':''"
    unfolding l token_def list_all_iff using last_in_set by blast+
  then show "\<not> is_sep (last (asm_text mn ts))" "\<not> is_label (asm_text mn ts)" by (simp_all add: is_label_def)
  show "asm_text mn ts \<noteq> []" "\<not> is_sep (hd (asm_text mn ts))"
    using assms token_hd [of mn] by (auto simp: asm_text_def)
qed

lemma strip_ends: "s = [] \<or> \<not> py_isspace (hd s) \<Longrightarrow> s = [] \<or> \<not> py_isspace (last s) \<Longrightarrow> py_strip s = s"
  by (simp add: py_strip_def dropWhile_hd hd_rev)

lemma clean_text: "token mn \<Longrightarrow> list_all token ts \<Longrightarrow> clean (asm_text mn ts) = asm_text mn ts"
proof -
  assume a: "token mn" "list_all token ts"
  have "split_first CHR ''#'' (asm_text mn ts) = asm_text mn ts"
    using asm_text_hash [OF a] by (auto simp: split_first_def takeWhile_eq_all_conv)
  then show ?thesis using asm_text_ends [OF a] by (auto simp: clean_def is_sep_def intro!: strip_ends)
qed

lemma assemble_text:
  assumes "token mn" "list_all token ts"
  shows "assemble [asm_text mn ts] xl = rbind (asm_insn Map.empty xl 0 (py_lower mn) ts) (\<lambda>w. Inr [w])"
  using asm_text_ends [OF assms] clean_text [OF assms] split_text [OF assms]
    strip_ends [of "asm_text mn ts"]
  by (simp add: assemble_def clean_def [symmetric] Let_def asm_stmt_def is_sep_def)

section \<open>Printed operands are read back\<close>

lemma lower_id: "list_all (\<lambda>c. \<not> is_upper c) s \<Longrightarrow> py_lower s = s"
  by (induction s) (simp_all add: py_lower_def)

lemma digits_dec: "c \<in> set (digits 10 n) \<Longrightarrow> py_isdigit c"
  using digits_set [of 10 c n] digit_char_dec by fastforce

lemma py_str_nonneg: "0 \<le> n \<Longrightarrow> py_str n = digits 10 (nat n)"
  by (simp add: py_str_def)

lemma digit_token: "py_isdigit c \<Longrightarrow> \<not> is_sep c \<and> c \<noteq> CHR ''#'' \<and> c \<noteq> CHR '':''"
  by (auto simp: py_isdigit_def is_sep_def py_isspace_def Let_def)

lemma reg_of_str: "fits 5 n \<Longrightarrow> \<not> py_isspace c \<Longrightarrow> reg_of c (c # py_str n) = Inr n"
proof -
  assume n: "fits 5 n" and c: "\<not> py_isspace c"
  have "py_strip (c # digits 10 (nat n)) = c # digits 10 (nat n)"
    by (rule strip_id) (use c digits_dec [of _ "nat n"] digit_token in \<open>auto simp: is_sep_def\<close>)
  moreover have "list_all py_isdigit (digits 10 (nat n))" using digits_dec by (auto simp: list_all_iff)
  ultimately show ?thesis
    using n int_dec_digits [of "nat n"] by (simp add: reg_of_def py_str_nonneg fitsD) (simp add: fits_def)
qed

lemma reg_str [simp]: "fits 5 n \<Longrightarrow> reg (CHR ''x'' # py_str n) = Inr n" "fits 5 n \<Longrightarrow> freg (CHR ''f'' # py_str n) = Inr n"
  by (auto simp: reg_def freg_def intro!: reg_of_str) (auto simp: py_isspace_def)

lemma token_str: "0 \<le> n \<Longrightarrow> c \<in> {CHR ''x'', CHR ''f''} \<Longrightarrow> token (c # py_str n)"
  using digits_dec [of _ "nat n"] digit_token
  by (auto simp: token_def list_all_iff py_str_nonneg is_sep_def py_isspace_def)

end
