(* ===== verification/Asm_Props.thy ===== *)
theory Asm_Props
  imports Asm_Text Iss_Alu_Props Iss_State_Props
begin

text \<open>
  The assembler against the simulator: what an assembled instruction does when the simulator
  executes it, where an assembled branch goes, and which programs assemble.
\<close>

section \<open>Dispatch of encoded words\<close>

lemma step_by_opcode:
  "dec_op w = 0b0110011 \<Longrightarrow> step s w = step_op s w"
  "dec_op w = 0b0111011 \<Longrightarrow> step s w = step_op_32 s w"
  "dec_op w = 0b0000011 \<Longrightarrow> step s w = step_load s w"
  "dec_op w = 0b0100011 \<Longrightarrow> step s w = step_store s w"
  "dec_op w = 0b1100011 \<Longrightarrow> step s w = step_branch s w"
  "dec_op w = 0b1101111 \<Longrightarrow> step s w = step_jal s w"
  "dec_op w = 0b1100111 \<Longrightarrow> step s w = step_jalr s w"
  "dec_op w = 0b0110111 \<Longrightarrow> step s w = step_lui s w"
  by (auto simp: step_def dec_op_def)

lemma r_fields:
  assumes "fits 7 f7" "fits 5 rs2" "fits 5 rs1" "fits 3 f3" "fits 5 rd" "fits 7 opc"
  shows "dec_f7 (enc_r (f7, rs2, rs1, f3, rd, opc)) = f7" "dec_rs2 (enc_r (f7, rs2, rs1, f3, rd, opc)) = rs2"
    "dec_rs1 (enc_r (f7, rs2, rs1, f3, rd, opc)) = rs1" "dec_f3 (enc_r (f7, rs2, rs1, f3, rd, opc)) = f3"
    "dec_rd (enc_r (f7, rs2, rs1, f3, rd, opc)) = rd" "dec_op (enc_r (f7, rs2, rs1, f3, rd, opc)) = opc"
  using r_format.dec_enc [of "(f7, rs2, rs1, f3, rd, opc)"] assms by (auto simp: ok_r_def dec_r_def)

lemma i_fields:
  assumes "fits 12 i" "fits 5 rs1" "fits 3 f3" "fits 5 rd" "fits 7 opc"
  shows "dec_imm12 (enc_i (i, rs1, f3, rd, opc)) = i" "dec_rs1 (enc_i (i, rs1, f3, rd, opc)) = rs1"
    "dec_f3 (enc_i (i, rs1, f3, rd, opc)) = f3" "dec_rd (enc_i (i, rs1, f3, rd, opc)) = rd"
    "dec_op (enc_i (i, rs1, f3, rd, opc)) = opc"
  using i_format.dec_enc [of "(i, rs1, f3, rd, opc)"] assms by (auto simp: ok_i_def dec_i_def)

lemma imm_i_enc:
  assumes "signed_in 12 v" "fits 5 rs1" "fits 3 f3" "fits 5 rd" "fits 7 opc"
  shows "dec_imm_i (enc_i (take_bit 12 v, rs1, f3, rd, opc)) = v"
  using i_fields(1) [OF fits_take_bit assms(2-5), of v] signed_in_sext [OF _ assms(1)]
  by (simp add: dec_imm12_def dec_imm_i_def sext_take_bit)

lemma s_decode:
  assumes "signed_in 12 v" "fits 5 rs2" "fits 5 rs1" "fits 3 f3" "fits 7 opc"
  shows "dec_imm_s (enc_s (v, rs2, rs1, f3, opc)) = v" "dec_rs2 (enc_s (v, rs2, rs1, f3, opc)) = rs2"
    "dec_rs1 (enc_s (v, rs2, rs1, f3, opc)) = rs1" "dec_f3 (enc_s (v, rs2, rs1, f3, opc)) = f3"
    "dec_op (enc_s (v, rs2, rs1, f3, opc)) = opc"
  using s_format.dec_enc [of "(v, rs2, rs1, f3, opc)"] assms by (auto simp: ok_s_def dec_s_def)

lemma b_decode:
  assumes "signed_in 13 v" "even v" "fits 5 rs2" "fits 5 rs1" "fits 3 f3" "fits 7 opc"
  shows "dec_imm_b (enc_b (v, rs2, rs1, f3, opc)) = v" "dec_rs2 (enc_b (v, rs2, rs1, f3, opc)) = rs2"
    "dec_rs1 (enc_b (v, rs2, rs1, f3, opc)) = rs1" "dec_f3 (enc_b (v, rs2, rs1, f3, opc)) = f3"
    "dec_op (enc_b (v, rs2, rs1, f3, opc)) = opc"
  using b_format.dec_enc [of "(v, rs2, rs1, f3, opc)"] assms by (auto simp: ok_b_def dec_b_def)

lemma j_decode:
  assumes "signed_in 21 v" "even v" "fits 5 rd" "fits 7 opc"
  shows "dec_imm_j (enc_j (v, rd, opc)) = v" "dec_rd (enc_j (v, rd, opc)) = rd" "dec_op (enc_j (v, rd, opc)) = opc"
  using j_format.dec_enc [of "(v, rd, opc)"] assms by (auto simp: ok_j_def dec_j_def)

lemma u_decode:
  assumes "fits 20 v" "fits 5 rd" "fits 7 opc"
  shows "enc_u (v, rd, opc) AND 0xFFFFF000 = push_bit 12 v" "dec_rd (enc_u (v, rd, opc)) = rd"
    "dec_op (enc_u (v, rd, opc)) = opc"
proof -
  note d = u_format.dec_enc [of "(v, rd, opc)"]
  then show "dec_rd (enc_u (v, rd, opc)) = rd" "dec_op (enc_u (v, rd, opc)) = opc"
    using assms by (auto simp: ok_u_def dec_u_def)
  have "drop_bit 12 (enc_u (v, rd, opc) AND 0xFFFFF000) = v" using d assms by (simp add: ok_u_def dec_u_def)
  moreover have "take_bit 12 (enc_u (v, rd, opc) AND 0xFFFFF000) = 0" by (simp add: take_bit_and)
  ultimately show "enc_u (v, rd, opc) AND 0xFFFFF000 = push_bit 12 v"
    using bits_ident [of 12 "enc_u (v, rd, opc) AND 0xFFFFF000"] by simp
qed

section \<open>Register-register instructions\<close>

fun r_name :: "r_op \<Rightarrow> string" where
  "r_name R_ADD = ''add''" | "r_name R_SUB = ''sub''" | "r_name R_SLL = ''sll''" | "r_name R_SLT = ''slt''"
| "r_name R_SLTU = ''sltu''" | "r_name R_XOR = ''xor''" | "r_name R_SRL = ''srl''" | "r_name R_SRA = ''sra''"
| "r_name R_OR = ''or''" | "r_name R_AND = ''and''" | "r_name R_MUL = ''mul''" | "r_name R_MULH = ''mulh''"
| "r_name R_MULHSU = ''mulhsu''" | "r_name R_MULHU = ''mulhu''" | "r_name R_DIV = ''div''"
| "r_name R_DIVU = ''divu''" | "r_name R_REM = ''rem''" | "r_name R_REMU = ''remu''"

lemma r_name_code: "py_get R_TYPE (r_name op) = Inr (r_code op)"
  by (cases op) (simp_all add: R_TYPE_def py_get_def)

lemma r_name_text: "token (r_name op)" "py_lower (r_name op) = r_name op" "r_name op \<noteq> ''nop''"
  by (cases op; simp add: token_def is_sep_def py_isspace_def; fail | cases op; simp add: py_lower_def is_upper_def)+

lemma asm_r_insn:
  assumes "py_get R_TYPE mn = Inr (f7, f3)" "mn \<noteq> ''nop''" "reg a = Inr rd" "reg b = Inr rs1" "reg c = Inr rs2"
  shows "asm_insn labels xl cur mn [a, b, c] = Inr (enc_r (f7, rs2, rs1, f3, rd, OP_R))"
  using assms by (simp add: asm_insn_def asm_alu_def has_key_get reg_arg_def arg_def r_type_enc)

lemma step_r_type:
  assumes "fits 5 rd" "fits 5 rs1" "fits 5 rs2"
  shows "step s (enc_r (fst (r_code op), rs2, rs1, snd (r_code op), rd, OP_R)) =
    rbind (op_r_result (xlen s) (fst (r_code op)) (snd (r_code op)) (regs s ! nat rs1) (regs s ! nat rs2))
      (\<lambda>v. Inr (wr_next s rd v))"
proof -
  have "fits 7 (fst (r_code op))" "fits 3 (snd (r_code op))" by (cases op; simp add: fits_def)+
  note f = r_fields [OF this(1) assms(3,2) this(2) assms(1) fits_opcodes(1)]
  show ?thesis using f by (simp add: step_by_opcode step_op_def reg_A_def reg_B_def)
qed

lemma uint_of_reg: "wf_iss s \<Longrightarrow> fits 5 r \<Longrightarrow> xlen s = LENGTH('a) \<Longrightarrow>
    uint (word_of_int (regs s ! nat r) :: 'a::len word) = regs s ! nat r"
  using all_fit_nth [of "xlen s" "regs s" "nat r"] by (auto simp: wf_iss_def uint_word_of_int fits_def)

text \<open>C6. A line \<open>op xd,xa,xb\<close> for any of the eighteen base and multiply/divide instructions
  assembles to one word, and executing that word on RV32 or RV64 writes to \<open>xd\<close> the machine-word
  function of the values of \<open>xa\<close> and \<open>xb\<close> and goes on with the next instruction.\<close>

theorem assembled_alu_executes:
  assumes "wf_iss s" "fits 5 rd" "fits 5 rs1" "fits 5 rs2"
  shows "\<exists>w. assemble [asm_text (r_name op) [CHR ''x'' # py_str rd, CHR ''x'' # py_str rs1, CHR ''x'' # py_str rs2]] xl = Inr [w] \<and>
    (xlen s = 32 \<longrightarrow> step s w = Inr (wr_next s rd
       (uint (r_sem op (word_of_int (regs s ! nat rs1)) (word_of_int (regs s ! nat rs2)) :: 32 word)))) \<and>
    (xlen s = 64 \<longrightarrow> step s w = Inr (wr_next s rd
       (uint (r_sem op (word_of_int (regs s ! nat rs1)) (word_of_int (regs s ! nat rs2)) :: 64 word))))"
proof -
  let ?w = "enc_r (fst (r_code op), rs2, rs1, snd (r_code op), rd, OP_R)"
  have t: "list_all token [CHR ''x'' # py_str rd, CHR ''x'' # py_str rs1, CHR ''x'' # py_str rs2]"
    using assms(2-4) token_str by (simp add: fitsD)
  have "assemble [asm_text (r_name op) [CHR ''x'' # py_str rd, CHR ''x'' # py_str rs1, CHR ''x'' # py_str rs2]] xl = Inr [?w]"
    unfolding assemble_text [OF r_name_text(1) t] r_name_text(2)
    using asm_r_insn [of "r_name op" "fst (r_code op)" "snd (r_code op)"] r_name_code [of op] r_name_text(3) assms(2-4)
    by simp
  moreover have "step s ?w = Inr (wr_next s rd
      (uint (r_sem op (word_of_int (regs s ! nat rs1)) (word_of_int (regs s ! nat rs2)) :: 32 word)))" if "xlen s = 32"
    using rv32.r_ops [of op "word_of_int (regs s ! nat rs1)" "word_of_int (regs s ! nat rs2)"] that assms
    by (simp add: step_r_type uint_of_reg del: OP_R_def)
  moreover have "step s ?w = Inr (wr_next s rd
      (uint (r_sem op (word_of_int (regs s ! nat rs1)) (word_of_int (regs s ! nat rs2)) :: 64 word)))" if "xlen s = 64"
    using rv64.r_ops [of op "word_of_int (regs s ! nat rs1)" "word_of_int (regs s ! nat rs2)"] that assms
    by (simp add: step_r_type uint_of_reg del: OP_R_def)
  ultimately show ?thesis by blast
qed

theorem assembled_alu_executes_witness:
  "\<exists>w. assemble [asm_text ''mulhu'' [''x3'', ''x1'', ''x2'']] 32 = Inr [w] \<and>
     step (iss_init (2 ^ 12) 32) w = Inr (wr_next (iss_init (2 ^ 12) 32) 3 0)"
proof -
  have "py_str 3 = ''3''" "py_str 1 = ''1''" "py_str 2 = ''2''" by code_simp+
  then show ?thesis
    using assembled_alu_executes [OF wf_iss_init [of 12 32], of 3 1 2 R_MULHU 32]
    by (simp add: fits_def iss_init_def)
qed

section \<open>Branches and labels\<close>

lemma asm_branch_insn:
  assumes "has_key BRANCH mn" "asm_insn labels xl cur mn [a, b, L] = Inr w"
  shows "\<exists>rs1 rs2 f3 v. reg a = Inr rs1 \<and> reg b = Inr rs2 \<and> py_get BRANCH mn = Inr f3 \<and> resolve labels L cur = Inr v \<and>
    signed_in 13 v \<and> even v \<and> w = enc_b (v, rs2, rs1, f3, OP_BRANCH)"
proof -
  have m: "mn \<in> {''beq'', ''bne'', ''blt'', ''bge'', ''ble'', ''bgt'', ''bltu'', ''bgeu''}"
    using assms(1) by (auto simp: has_key_def BRANCH_def split: if_splits)
  have a: "asm_alu xl mn args = None" for args
    using m by (elim insertE emptyE; hypsubst) (simp_all add: asm_alu_def has_key_def R_TYPE_def I_TYPE_def
        I_TYPE_BEXT_SHAMT_def I_TYPE_BEXT_FIXED_def R_TYPE_W_def I_TYPE_W_def I_TYPE_W_BEXT_FIXED_def)
  have l: "\<not> has_key LOAD mn" "\<not> has_key STORE mn"
    using m by (elim insertE emptyE; hypsubst; simp add: has_key_def LOAD_def STORE_def)+
  have "asm_mem labels cur mn [a, b, L] = Some (Inr w)"
    using assms a l by (auto simp: asm_insn_def asm_mem_def)
  then show ?thesis
    using assms(1) l by (auto simp: asm_mem_def branch_enc operand_value_def reg_arg_def arg_def split: if_splits)
qed

lemma step_branch_enc:
  assumes "signed_in 13 v" "even v" "fits 5 rs2" "fits 5 rs1" "fits 3 f3"
  shows "step s (enc_b (v, rs2, rs1, f3, OP_BRANCH)) =
    Inr (s\<lparr>pc := (if branch_taken s f3 (regs s ! nat rs1) (regs s ! nat rs2) then uxlen s (pc s + v) else pc s + 4)\<rparr>)"
  using b_decode [OF assms fits_opcodes(5)] by (simp add: step_by_opcode step_branch_def reg_A_def reg_B_def next_pc_def)

lemma statements_nth: "clean l \<noteq> [] \<Longrightarrow> \<not> is_label (clean l) \<Longrightarrow>
    statements (pre @ l # post) ! length (statements pre) = clean l \<and>
    length (statements pre) < length (statements (pre @ l # post))"
  by (simp add: nth_append)

text \<open>C7. A conditional branch to a label, anywhere in a program that assembles, before or after the
  label: when the simulator executes the branch's word at the branch's address, a taken branch
  continues at the address of the first statement after the label, and a branch not taken at
  the next statement.\<close>

theorem assembled_branch_reaches_label:
  assumes asm: "assemble lines xl = Inr ws"
    and lbl: "lines = before @ raw # after" "label_name raw = Some L" "\<forall>r \<in> set after. label_name r \<noteq> Some L"
    and br: "lines = pre @ line # post" "re_split is_sep (clean line) = [mn, a, b, L]" "\<not> is_label (clean line)"
      "has_key BRANCH (py_lower mn)"
    and pc: "pc s = 4 * int (length (statements pre))"
  shows "\<exists>rs1 rs2 f3. reg a = Inr rs1 \<and> reg b = Inr rs2 \<and> py_get BRANCH (py_lower mn) = Inr f3 \<and>
    step s (ws ! length (statements pre)) =
      Inr (s\<lparr>pc := (if branch_taken s f3 (regs s ! nat rs1) (regs s ! nat rs2)
                    then uxlen s (4 * int (length (statements before))) else pc s + 4)\<rparr>)"
proof -
  let ?labels = "snd (pass1 lines 0 [] Map.empty)"
  have ne: "clean line \<noteq> []" using br(2) by (auto simp: re_split_token)
  have "asm_stmt ?labels xl (4 * int (length (statements pre)), clean line) = Inr (ws ! length (statements pre))"
    using assemble_nth [OF asm, of "length (statements pre)"] statements_nth [OF ne br(3), of pre post] br(1) by simp
  then have i: "asm_insn ?labels xl (pc s) (py_lower mn) [a, b, L] = Inr (ws ! length (statements pre))"
    by (simp add: asm_stmt_def br(2) pc)
  have L: "py_strip L = L" using lbl(2) by (auto simp: label_name_def split: if_splits)
  have "?labels L = Some (4 * int (length (statements before)))" unfolding lbl(1) by (rule pass1_label [OF lbl(2,3)])
  then have r: "resolve ?labels L (pc s) = Inr (4 * int (length (statements before)) - pc s)" by (simp add: resolve_def L)
  obtain rs1 rs2 f3 v where e: "reg a = Inr rs1" "reg b = Inr rs2" "py_get BRANCH (py_lower mn) = Inr f3"
      "resolve ?labels L (pc s) = Inr v" "signed_in 13 v" "even v" "ws ! length (statements pre) = enc_b (v, rs2, rs1, f3, OP_BRANCH)"
    using asm_branch_insn [OF br(4) i] by blast
  have v: "pc s + v = 4 * int (length (statements before))" using e(4) r by simp
  show ?thesis
    using step_branch_enc [OF e(5,6) reg_range(1) [OF e(2)] reg_range(1) [OF e(1)] funct3_tables [OF e(3)], of s] e(1-3)
    unfolding v e(7) by simp
qed

text \<open>A loop that counts \<open>x1\<close> down.\<close>

definition loop_program :: "string list" where
  "loop_program = [''loop:'', ''addi x1,x1,-1'', ''bne x1,x0,loop  # again'', ''jal x0,0'']"

lemma loop_program_assembles: "assemble loop_program 32 = Inr [0xFFF08093, 0xFE009EE3, 0x0000006F]"
  by code_simp

definition loop_state :: iss where
  "loop_state = (wr (iss_init (2 ^ 12) 32) 1 5)\<lparr>pc := 4\<rparr>"

lemma loop_state_simps: "pc loop_state = 4" "branch_taken loop_state 1 (regs loop_state ! 1) (regs loop_state ! 0)"
  "uxlen loop_state 0 = 0"
  by (simp_all add: loop_state_def wr_def iss_init_def branch_taken_def sxlen_def uxlen_def sXLEN_def uXLEN_def)

theorem assembled_branch_reaches_label_witness: "step loop_state 0xFE009EE3 = Inr (loop_state\<lparr>pc := 0\<rparr>)"
proof -
  have c: "clean ''loop:'' = ''loop:''" "clean ''addi x1,x1,-1'' = ''addi x1,x1,-1''"
    "clean ''bne x1,x0,loop  # again'' = ''bne x1,x0,loop''"
    "re_split is_sep ''bne x1,x0,loop'' = [''bne'', ''x1'', ''x0'', ''loop'']" "py_lower ''bne'' = ''bne''"
    "label_name ''loop:'' = Some ''loop''" "label_name ''addi x1,x1,-1'' = None"
    "label_name ''bne x1,x0,loop  # again'' = None" "label_name ''jal x0,0'' = None"
    "is_label ''loop:''" "\<not> is_label ''addi x1,x1,-1''" "\<not> is_label ''bne x1,x0,loop''" "has_key BRANCH ''bne''"
    "reg ''x1'' = Inr 1" "reg ''x0'' = Inr 0" "py_get BRANCH ''bne'' = Inr 1"
    by code_simp+
  show ?thesis
    using assembled_branch_reaches_label [OF loop_program_assembles, of "[]" "''loop:''"
        "[''addi x1,x1,-1'', ''bne x1,x0,loop  # again'', ''jal x0,0'']" "''loop''"
        "[''loop:'', ''addi x1,x1,-1'']" "''bne x1,x0,loop  # again''" "[''jal x0,0'']" "''bne''" "''x1''" "''x0''"
        loop_state] c loop_state_simps
    by (simp add: loop_program_def)
qed

section \<open>Operands of memory and jump instructions\<close>

lemma load_decodes:
  assumes "fits 5 rd" "fits 5 rs1" "load mn rd t rs1 = Inr w"
  shows "dec_op w = OP_LOAD \<and> py_get LOAD mn = Inr (dec_f3 w) \<and> dec_rd w = rd \<and> dec_rs1 w = rs1 \<and>
    operand_value t = Inr (dec_imm_i w)"
proof -
  obtain v f3 where v: "operand_value t = Inr v" "signed_in 12 v" "py_get LOAD mn = Inr f3"
      "w = enc_i (take_bit 12 v, rs1, f3, rd, OP_LOAD)"
    using assms(3) by (auto simp: imm12_enc simp del: OP_LOAD_def)
  have f3: "fits 3 f3" using v(3) by (rule funct3_tables) simp
  show ?thesis
    using v i_fields [OF fits_take_bit assms(2) f3 assms(1) fits_opcodes(3), of v]
      imm_i_enc [OF v(2) assms(2) f3 assms(1) fits_opcodes(3)]
    by (simp del: OP_LOAD_def)
qed

lemma store_decodes:
  assumes "fits 5 rs2" "fits 5 rs1" "store mn rs2 t rs1 = Inr w"
  shows "dec_op w = OP_STORE \<and> py_get STORE mn = Inr (dec_f3 w) \<and> dec_rs2 w = rs2 \<and> dec_rs1 w = rs1 \<and>
    operand_value t = Inr (dec_imm_s w)"
proof -
  obtain v f3 where v: "operand_value t = Inr v" "signed_in 12 v" "py_get STORE mn = Inr f3"
      "w = enc_s (v, rs2, rs1, f3, OP_STORE)"
    using assms(3) by (auto simp: store_enc simp del: OP_STORE_def)
  have f3: "fits 3 f3" using v(3) by (rule funct3_tables) simp
  show ?thesis using v s_decode [OF v(2) assms(1,2) f3 fits_opcodes(4)] by (simp del: OP_STORE_def)
qed

lemma branch_decodes:
  assumes "fits 5 rs1" "fits 5 rs2" "branch mn rs1 rs2 t = Inr w"
  shows "dec_op w = OP_BRANCH \<and> py_get BRANCH mn = Inr (dec_f3 w) \<and> dec_rs1 w = rs1 \<and> dec_rs2 w = rs2 \<and>
    operand_value t = Inr (dec_imm_b w)"
proof -
  obtain v f3 where v: "operand_value t = Inr v" "signed_in 13 v" "even v" "py_get BRANCH mn = Inr f3"
      "w = enc_b (v, rs2, rs1, f3, OP_BRANCH)"
    using assms(3) by (auto simp: branch_enc simp del: OP_BRANCH_def split: if_splits)
  have f3: "fits 3 f3" using v(4) by (rule funct3_tables) simp
  show ?thesis using v b_decode [OF v(2,3) assms(2,1) f3 fits_opcodes(5)] by (simp del: OP_BRANCH_def)
qed

lemma jump_decodes:
  assumes "fits 5 rd" "fits 5 rs1"
  shows "jal rd t = Inr w \<Longrightarrow> dec_op w = OP_JAL \<and> dec_rd w = rd \<and> operand_value t = Inr (dec_imm_j w)"
    "jalr rd t rs1 = Inr w \<Longrightarrow> dec_op w = OP_JALR \<and> dec_rd w = rd \<and> dec_rs1 w = rs1 \<and> operand_value t = Inr (dec_imm_i w)"
proof -
  assume "jal rd t = Inr w"
  then obtain v where v: "operand_value t = Inr v" "signed_in 21 v" "even v" "w = enc_j (v, rd, OP_JAL)"
    by (auto simp: jal_enc simp del: OP_JAL_def split: if_splits)
  then show "dec_op w = OP_JAL \<and> dec_rd w = rd \<and> operand_value t = Inr (dec_imm_j w)"
    using j_decode [OF v(2,3) assms(1) fits_opcodes(6)] by (simp del: OP_JAL_def)
next
  assume "jalr rd t rs1 = Inr w"
  then obtain v where v: "operand_value t = Inr v" "signed_in 12 v" "w = enc_i (take_bit 12 v, rs1, 0, rd, OP_JALR)"
    by (auto simp: imm12_enc simp del: OP_JALR_def)
  then show "dec_op w = OP_JALR \<and> dec_rd w = rd \<and> dec_rs1 w = rs1 \<and> operand_value t = Inr (dec_imm_i w)"
    using i_fields [OF fits_take_bit assms(2) fits_0 assms(1) fits_opcodes(7), of v]
      imm_i_enc [OF v(2) assms(2) fits_0 assms(1) fits_opcodes(7)] by (simp del: OP_JALR_def)
qed

lemma offset_accepted:
  "(\<exists>w. load mn rd t rs1 = Inr w) \<longleftrightarrow> has_key LOAD mn \<and> (\<exists>v. operand_value t = Inr v \<and> signed_in 12 v)"
  "(\<exists>w. store mn rs2 t rs1 = Inr w) \<longleftrightarrow> has_key STORE mn \<and> (\<exists>v. operand_value t = Inr v \<and> signed_in 12 v)"
  "(\<exists>w. branch mn rs1 rs2 t = Inr w) \<longleftrightarrow> has_key BRANCH mn \<and> (\<exists>v. operand_value t = Inr v \<and> signed_in 13 v \<and> even v)"
  "(\<exists>w. jal rd t = Inr w) \<longleftrightarrow> (\<exists>v. operand_value t = Inr v \<and> signed_in 21 v \<and> even v)"
  by (auto simp: imm12_enc store_enc branch_enc jal_enc has_key_get)

text \<open>The simulator reads back the operands the assembler wrote, for loads, stores, branches, \<open>jal\<close> and
  \<open>jalr\<close>: registers, the operation selector and the value of the offset, whose bits the
  formats scatter over the word. An offset is accepted exactly when it is in the signed range
  of its field (and even, for branches and \<open>jal\<close>).\<close>

theorem operands_decoded:
  assumes "fits 5 r1" "fits 5 r2"
  shows "(\<forall>w. load mn r1 t r2 = Inr w \<longrightarrow> dec_op w = OP_LOAD \<and> py_get LOAD mn = Inr (dec_f3 w) \<and> dec_rd w = r1 \<and>
      dec_rs1 w = r2 \<and> operand_value t = Inr (dec_imm_i w)) \<and>
    (\<forall>w. store mn r1 t r2 = Inr w \<longrightarrow> dec_op w = OP_STORE \<and> py_get STORE mn = Inr (dec_f3 w) \<and> dec_rs2 w = r1 \<and>
      dec_rs1 w = r2 \<and> operand_value t = Inr (dec_imm_s w)) \<and>
    (\<forall>w. branch mn r1 r2 t = Inr w \<longrightarrow> dec_op w = OP_BRANCH \<and> py_get BRANCH mn = Inr (dec_f3 w) \<and> dec_rs1 w = r1 \<and>
      dec_rs2 w = r2 \<and> operand_value t = Inr (dec_imm_b w)) \<and>
    (\<forall>w. jal r1 t = Inr w \<longrightarrow> dec_op w = OP_JAL \<and> dec_rd w = r1 \<and> operand_value t = Inr (dec_imm_j w)) \<and>
    (\<forall>w. jalr r1 t r2 = Inr w \<longrightarrow> dec_op w = OP_JALR \<and> dec_rd w = r1 \<and> dec_rs1 w = r2 \<and> operand_value t = Inr (dec_imm_i w)) \<and>
    ((\<exists>w. store mn r1 t r2 = Inr w) \<longleftrightarrow> has_key STORE mn \<and> (\<exists>v. operand_value t = Inr v \<and> signed_in 12 v)) \<and>
    ((\<exists>w. branch mn r1 r2 t = Inr w) \<longleftrightarrow> has_key BRANCH mn \<and> (\<exists>v. operand_value t = Inr v \<and> signed_in 13 v \<and> even v)) \<and>
    ((\<exists>w. jal r1 t = Inr w) \<longleftrightarrow> (\<exists>v. operand_value t = Inr v \<and> signed_in 21 v \<and> even v))"
proof (intro conjI offset_accepted)
qed (use load_decodes [OF assms, of mn t] store_decodes [OF assms, of mn t] branch_decodes [OF assms, of mn t]
  jump_decodes [OF assms, of t] in simp_all)

theorem operands_decoded_witness: "jal 1 (Num (-4)) = Inr 0xFFDFF0EF \<and> dec_imm_j 0xFFDFF0EF = -4"
proof -
  have "jal 1 (Num (-4)) = Inr 0xFFDFF0EF" by code_simp
  moreover have "\<forall>w. jal 1 (Num (-4)) = Inr w \<longrightarrow> dec_op w = OP_JAL \<and> dec_rd w = 1 \<and> operand_value (Num (-4)) = Inr (dec_imm_j w)"
    using operands_decoded [of 1 2 _ "Num (-4)"] fits_small fits_numeral [of "num.Bit0 num.One" 5] by simp
  ultimately show ?thesis by (simp add: operand_value_def)
qed

section \<open>Which programs assemble\<close>

lemma asm_stmts_fit: "asm_stmts labels xl stmts = Inr ws \<Longrightarrow> all_fit 32 ws"
  by (auto simp: asm_stmts_Inr all_fit_def list_all_length asm_stmt_def Let_def intro: insn_word)

text \<open>C34. Assembling a program either yields one 32-bit word per statement, or fails with a \<open>ValueError\<close>,
  an \<open>IndexError\<close> (missing operand) or an \<open>AttributeError\<close> (malformed memory operand); no lookup in
  a mnemonic table fails.\<close>

theorem assemble_outcome:
  "case assemble lines xl of
     Inr ws \<Rightarrow> length ws = length (statements lines) \<and> all_fit 32 ws
   | Inl e \<Rightarrow> e \<in> {ValueError, IndexError, AttributeError}"
proof (cases "assemble lines xl")
  case (Inl e)
  then show ?thesis
    using asm_stmts_raises [of "snd (pass1 lines 0 [] Map.empty)" xl "addressed 0 (statements lines)"]
    by (simp add: assemble_unfold raises_def asm_error_def)
next
  case (Inr ws)
  then have a: "asm_stmts (snd (pass1 lines 0 [] Map.empty)) xl (addressed 0 (statements lines)) = Inr ws"
    by (simp add: assemble_unfold)
  then have "length ws = length (statements lines)" by (simp add: asm_stmts_Inr)
  with a Inr show ?thesis using asm_stmts_fit by simp
qed

end
