(* ===== verification/Disasm.thy ===== *)
theory Disasm
  imports Iss_Alu Py_Text
begin

text \<open>
  The disassembler of \<open>sim/tools/disasm.py\<close>: \<open>disasm\<close> turns an instruction word into text, one
  definition per opcode case. The fields of a word (\<open>word & 0x7F\<close>, \<open>(word >> 7) & 0x1F\<close>, ...) are
  the same expressions as in the simulator, whose \<open>dec_\<close> functions are used; the sign extension and
  the immediates are the disassembler's own. Dictionaries are association lists; a string
  with a character outside ASCII is its UTF-8 encoding.
\<close>

section \<open>Tables and helpers\<close>

definition get_or :: "('k \<times> 'v) list \<Rightarrow> 'k \<Rightarrow> 'v \<Rightarrow> 'v" where
  \<comment> \<open>\<open>t.get(k, d)\<close>\<close>
  "get_or t k d = (case map_of t k of None \<Rightarrow> d | Some v \<Rightarrow> v)"

definition MADD_NAMES :: "(int \<times> string) list" where
  "MADD_NAMES = [(0b1000011, ''fmadd.s''), (0b1000111, ''fmsub.s''), (0b1001011, ''fnmsub.s''), (0b1001111, ''fnmadd.s'')]"

definition DIS_RM_NAMES :: "(int \<times> string) list" where
  "DIS_RM_NAMES = [(0b000, ''rne''), (0b001, ''rtz''), (0b010, ''rdn''), (0b011, ''rup''), (0b100, ''rmm''), (0b111, ''dyn'')]"

definition CSR_NAMES :: "(int \<times> string) list" where
  "CSR_NAMES = [(0x300, ''mstatus''), (0x305, ''mtvec''), (0x340, ''mscratch''), (0x341, ''mepc''), (0x342, ''mcause''),
     (0x001, ''fflags''), (0x002, ''frm''), (0x003, ''fcsr'')]"

definition rm_name :: "int \<Rightarrow> string" where
  "rm_name rm = get_or DIS_RM_NAMES rm (''rm?'' @ py_str rm)"

definition dis_sext :: "int \<Rightarrow> nat \<Rightarrow> int" where
  "dis_sext v bits =
     (let v = v AND (2 ^ bits - 1) in if v AND 2 ^ (bits - 1) \<noteq> 0 then v - 2 ^ bits else v)"

definition csr_name :: "int \<Rightarrow> string" where
  "csr_name addr = get_or CSR_NAMES addr (''0x'' @ pad0 3 (py_hex addr))"

definition dis_imm_i :: "int \<Rightarrow> int" where
  "dis_imm_i word = dis_sext (drop_bit 20 word) 12"

definition dis_imm_s :: "int \<Rightarrow> int" where
  "dis_imm_s word = dis_sext (push_bit 5 (drop_bit 25 word) OR (drop_bit 7 word AND 0x1F)) 12"

definition dis_imm_b :: "int \<Rightarrow> int" where
  "dis_imm_b word =
     (let b12 = drop_bit 31 word AND 1; b11 = drop_bit 7 word AND 1;
          b10_5 = drop_bit 25 word AND 0x3F; b4_1 = drop_bit 8 word AND 0xF
      in dis_sext (push_bit 12 b12 OR push_bit 11 b11 OR push_bit 5 b10_5 OR push_bit 1 b4_1) 13)"

definition dis_imm_j :: "int \<Rightarrow> int" where
  "dis_imm_j word =
     (let b20 = drop_bit 31 word AND 1; b19_12 = drop_bit 12 word AND 0xFF;
          b11 = drop_bit 20 word AND 1; b10_1 = drop_bit 21 word AND 0x3FF
      in dis_sext (push_bit 20 b20 OR push_bit 12 b19_12 OR push_bit 11 b11 OR push_bit 1 b10_1) 21)"

definition unknown_f :: "string \<Rightarrow> int \<Rightarrow> int \<Rightarrow> string" where
  \<comment> \<open>\<open>f"...?(f7={f7:#04x},f3={f3})"\<close>\<close>
  "unknown_f s f7 f3 = s @ ''?(f7=0x'' @ pad0 2 (py_hex f7) @ '',f3='' @ py_str f3 @ '')''"

section \<open>Integer register instructions\<close>

definition dis_muldiv :: "(int \<times> string) list" where
  "dis_muldiv = [(0, ''mul''), (1, ''mulh''), (2, ''mulhsu''), (3, ''mulhu''),
     (4, ''div''), (5, ''divu''), (6, ''rem''), (7, ''remu'')]"

definition dis_bext :: "((int \<times> int) \<times> string) list" where
  "dis_bext = [
    ((0b0100000, 0b111), ''andn''), ((0b0100000, 0b110), ''orn''), ((0b0100000, 0b100), ''xnor''),
    ((0b0000101, 0b100), ''min''), ((0b0000101, 0b101), ''minu''), ((0b0000101, 0b110), ''max''), ((0b0000101, 0b111), ''maxu''),
    ((0b0110000, 0b001), ''rol''), ((0b0110000, 0b101), ''ror''),
    ((0b0010000, 0b010), ''sh1add''), ((0b0010000, 0b100), ''sh2add''), ((0b0010000, 0b110), ''sh3add''),
    ((0b0100100, 0b001), ''bclr''), ((0b0100100, 0b101), ''bext''), ((0b0110100, 0b001), ''binv''), ((0b0010100, 0b001), ''bset''),
    ((0b0000101, 0b001), ''clmul''), ((0b0000101, 0b011), ''clmulh''),
    ((0b0000100, 0b100), ''pack''), ((0b0000100, 0b111), ''packh''),
    ((0b0010100, 0b010), ''xperm4''), ((0b0010100, 0b100), ''xperm8''),
    ((0b0011011, 0b000), ''aes64esm''), ((0b0011001, 0b000), ''aes64es''),
    ((0b0011111, 0b000), ''aes64dsm''), ((0b0011101, 0b000), ''aes64ds''),
    ((0b0111111, 0b000), ''aes64ks2'')]"

definition dis_base :: "((int \<times> int) \<times> string) list" where
  "dis_base = [
    ((0b0000000, 0), ''add''), ((0b0100000, 0), ''sub''), ((0b0000000, 1), ''sll''),
    ((0b0000000, 2), ''slt''), ((0b0000000, 3), ''sltu''), ((0b0000000, 4), ''xor''),
    ((0b0000000, 5), ''srl''), ((0b0100000, 5), ''sra''), ((0b0000000, 6), ''or''),
    ((0b0000000, 7), ''and'')]"

definition r_mnemonic :: "int \<Rightarrow> int \<Rightarrow> string" where
  \<comment> \<open>\<open>names[f3]\<close> of the multiply/divide case has all eight keys\<close>
  "r_mnemonic f7 f3 =
     (if f7 = 0b0000001 then get_or dis_muldiv f3 []
      else case map_of dis_bext (f7, f3) of Some mn \<Rightarrow> mn
      | None \<Rightarrow> get_or dis_base (f7, f3) (unknown_f ''r-type'' f7 f3))"

definition disasm_r :: "int \<Rightarrow> string" where
  "disasm_r word =
     asm_text (r_mnemonic (dec_f7 word) (dec_f3 word)) [xr (dec_rd word), xr (dec_rs1 word), xr (dec_rs2 word)]"

definition dis_w_muldiv :: "(int \<times> string) list" where
  "dis_w_muldiv = [(0, ''mulw''), (4, ''divw''), (5, ''divuw''), (6, ''remw''), (7, ''remuw'')]"

definition dis_w_bext :: "((int \<times> int) \<times> string) list" where
  "dis_w_bext = [
    ((0b0110000, 0b001), ''rolw''), ((0b0110000, 0b101), ''rorw''),
    ((0b0000100, 0b000), ''add.uw''),
    ((0b0010000, 0b010), ''sh1add.uw''), ((0b0010000, 0b100), ''sh2add.uw''), ((0b0010000, 0b110), ''sh3add.uw''),
    ((0b0000100, 0b100), ''packw'')]"

definition dis_w_base :: "((int \<times> int) \<times> string) list" where
  "dis_w_base = [
    ((0b0000000, 0), ''addw''), ((0b0100000, 0), ''subw''), ((0b0000000, 1), ''sllw''),
    ((0b0000000, 5), ''srlw''), ((0b0100000, 5), ''sraw'')]"

definition op_32_mnemonic :: "int \<Rightarrow> int \<Rightarrow> string" where
  "op_32_mnemonic f7 f3 =
     (if f7 = 0b0000001 then get_or dis_w_muldiv f3 ''op32muldiv?''
      else case map_of dis_w_bext (f7, f3) of Some mn \<Rightarrow> mn
      | None \<Rightarrow> get_or dis_w_base (f7, f3) (unknown_f ''op32'' f7 f3))"

definition disasm_op_32 :: "int \<Rightarrow> string" where
  "disasm_op_32 word =
     asm_text (op_32_mnemonic (dec_f7 word) (dec_f3 word)) [xr (dec_rd word), xr (dec_rs1 word), xr (dec_rs2 word)]"

section \<open>Immediate instructions\<close>

definition dis_sub :: "(int \<times> string) list" where
  "dis_sub = [(0, ''clz''), (1, ''ctz''), (2, ''cpop''), (4, ''sext.b''), (5, ''sext.h'')]"

definition dis_sha :: "(int \<times> string) list" where
  "dis_sha = [(0x100, ''sha256sum0''), (0x101, ''sha256sum1''), (0x102, ''sha256sig0''), (0x103, ''sha256sig1''),
     (0x104, ''sha512sum0''), (0x105, ''sha512sum1''), (0x106, ''sha512sig0''), (0x107, ''sha512sig1'')]"

definition dis_imm_names :: "(int \<times> string) list" where
  "dis_imm_names = [(0, ''addi''), (2, ''slti''), (3, ''sltiu''), (4, ''xori''), (6, ''ori''), (7, ''andi'')]"

definition disasm_shift :: "int \<Rightarrow> nat \<Rightarrow> string" where
  \<comment> \<open>\<open>if f3 in (1, 5)\<close>: the plain shifts\<close>
  "disasm_shift word xl =
     (let ops = [xr (dec_rd word), xr (dec_rs1 word)] in
      if xl \<ge> 64 then
        asm_text (if dec_f3 word = 1 then ''slli'' else if dec_f6 word = 0b010000 then ''srai'' else ''srli'')
          (ops @ [py_str (drop_bit 20 word AND 0x3F)])
      else
        asm_text (if dec_f3 word = 1 then ''slli'' else if dec_f7 word = 0b0100000 then ''srai'' else ''srli'')
          (ops @ [py_str (drop_bit 20 word AND 0x1F)]))"

definition disasm_i :: "int \<Rightarrow> nat \<Rightarrow> string" where
  "disasm_i word xl =
     (let imm12 = dec_imm12 word; f6 = dec_f6 word; f3 = dec_f3 word;
          ops = [xr (dec_rd word), xr (dec_rs1 word)] in
      if f3 = 1 \<and> f6 = 0b010010 then asm_text ''bclri'' (ops @ [py_str (imm12 AND 0x3F)])
      else if f3 = 5 \<and> f6 = 0b010010 then asm_text ''bexti'' (ops @ [py_str (imm12 AND 0x3F)])
      else if f3 = 1 \<and> f6 = 0b011010 then asm_text ''binvi'' (ops @ [py_str (imm12 AND 0x3F)])
      else if f3 = 1 \<and> f6 = 0b001010 then asm_text ''bseti'' (ops @ [py_str (imm12 AND 0x3F)])
      else if f3 = 1 \<and> f6 = 0b011000 \<and> map_of dis_sub (imm12 AND 0x1F) \<noteq> None
      then asm_text (get_or dis_sub (imm12 AND 0x1F) []) ops
      else if f3 = 5 \<and> f6 = 0b011000 then asm_text ''rori'' (ops @ [py_str (imm12 AND 0x3F)])
      else if f3 = 5 \<and> imm12 = 0x287 then asm_text ''orc.b'' ops
      else if f3 = 5 \<and> (imm12 = 0x698 \<or> imm12 = 0x6B8) then asm_text ''rev8'' ops
      else if f3 = 5 \<and> imm12 = 0x687 then asm_text ''brev8'' ops
      else if f3 = 1 \<and> map_of dis_sha imm12 \<noteq> None then asm_text (get_or dis_sha imm12 []) ops
      else if f3 = 1 \<and> f6 = 0b001100 then
        (if dec_rs2 word = 0 then asm_text ''aes64im'' ops
         else asm_text ''aes64ks1i'' (ops @ [py_str (dec_rs2 word AND 0xF)]))
      else if f3 = 1 \<or> f3 = 5 then disasm_shift word xl
      else asm_text (get_or dis_imm_names f3 ''i-type?'') (ops @ [py_str (dis_imm_i word)]))"

definition dis_w_sub :: "(int \<times> string) list" where
  "dis_w_sub = [(0, ''clzw''), (1, ''ctzw''), (2, ''cpopw'')]"

definition disasm_op_imm_32 :: "int \<Rightarrow> string" where
  "disasm_op_imm_32 word =
     (let imm12 = dec_imm12 word; f6 = dec_f6 word; f3 = dec_f3 word; f7 = dec_f7 word;
          ops = [xr (dec_rd word), xr (dec_rs1 word)] in
      if f3 = 1 \<and> f7 = 0b0110000 \<and> map_of dis_w_sub (imm12 AND 0x1F) \<noteq> None
      then asm_text (get_or dis_w_sub (imm12 AND 0x1F) []) ops
      else if f3 = 5 \<and> f7 = 0b0110000 then asm_text ''roriw'' (ops @ [py_str (imm12 AND 0x1F)])
      else if f3 = 1 \<and> f6 = 0b000010 then asm_text ''slli.uw'' (ops @ [py_str (imm12 AND 0x3F)])
      else if f3 = 1 \<or> f3 = 5 then
        asm_text (if f3 = 1 then ''slliw'' else if f7 = 0b0100000 then ''sraiw'' else ''srliw'')
          (ops @ [py_str (drop_bit 20 word AND 0x1F)])
      else asm_text (get_or [(0, ''addiw'')] f3 ''opimm32?'') (ops @ [py_str (dis_imm_i word)]))"

section \<open>Memory, control transfer and SYSTEM\<close>

definition dis_load :: "(int \<times> string) list" where
  "dis_load = [(0, ''lb''), (1, ''lh''), (2, ''lw''), (3, ''ld''), (4, ''lbu''), (5, ''lhu''), (6, ''lwu'')]"

definition dis_store :: "(int \<times> string) list" where
  "dis_store = [(0, ''sb''), (1, ''sh''), (2, ''sw''), (3, ''sd'')]"

definition dis_branch :: "(int \<times> string) list" where
  "dis_branch = [(0, ''beq''), (1, ''bne''), (2, ''ble''), (3, ''bgt''), (4, ''blt''), (5, ''bge''), (6, ''bltu''), (7, ''bgeu'')]"

definition disasm_load :: "int \<Rightarrow> string" where
  "disasm_load word =
     asm_text (get_or dis_load (dec_f3 word) ''load?'') [xr (dec_rd word), mem_text (dis_imm_i word) (dec_rs1 word)]"

definition disasm_store :: "int \<Rightarrow> string" where
  "disasm_store word =
     asm_text (get_or dis_store (dec_f3 word) ''store?'') [xr (dec_rs2 word), mem_text (dis_imm_s word) (dec_rs1 word)]"

definition disasm_branch :: "int \<Rightarrow> string" where
  "disasm_branch word =
     asm_text (get_or dis_branch (dec_f3 word) ''branch?'')
       [xr (dec_rs1 word), xr (dec_rs2 word), py_plus_d (dis_imm_b word)]"

definition dis_system :: "(int \<times> string) list" where
  "dis_system = [(0x000, ''ecall''), (0x001, ''ebreak''), (0x302, ''mret'')]"

definition dis_csr :: "(int \<times> string) list" where
  "dis_csr = [(0b001, ''csrrw''), (0b010, ''csrrs''), (0b011, ''csrrc''),
     (0b101, ''csrrwi''), (0b110, ''csrrsi''), (0b111, ''csrrci'')]"

definition disasm_system :: "int \<Rightarrow> string" where
  "disasm_system word =
     (let csr_addr = drop_bit 20 word AND 0xFFF; f3 = dec_f3 word in
      if f3 = 0 then get_or dis_system csr_addr (''system?(imm12=0x'' @ py_hex csr_addr @ '')'')
      else let mn = get_or dis_csr f3 ''csr?'' in
        if f3 AND 0b100 \<noteq> 0
        then asm_text mn [xr (dec_rd word), csr_name csr_addr, py_str (dec_rs1 word)]
        else asm_text mn [xr (dec_rd word), csr_name csr_addr, xr (dec_rs1 word)])"

section \<open>Floating point\<close>

definition dis_fp_arith :: "(int \<times> string) list" where
  "dis_fp_arith = [(0b00000, ''fadd.s''), (0b00001, ''fsub.s''), (0b00010, ''fmul.s''), (0b00011, ''fdiv.s'')]"

definition disasm_madd :: "int \<Rightarrow> string" where
  "disasm_madd word =
     asm_text (get_or MADD_NAMES (dec_op word) [])
       [fr (dec_rd word), fr (dec_rs1 word), fr (dec_rs2 word), fr (drop_bit 27 word AND 0x1F), rm_name (dec_f3 word)]"

definition disasm_fp :: "int \<Rightarrow> string" where
  "disasm_fp word =
     (let funct5 = drop_bit 27 word AND 0x1F; f3 = dec_f3 word; rs2 = dec_rs2 word;
          frd = fr (dec_rd word); xrd = xr (dec_rd word); fa = fr (dec_rs1 word); xa = xr (dec_rs1 word); fb = fr rs2 in
      if map_of dis_fp_arith funct5 \<noteq> None
      then asm_text (get_or dis_fp_arith funct5 []) [frd, fa, fb, rm_name f3]
      else if funct5 = 0b01011 then asm_text ''fsqrt.s'' [frd, fa, rm_name f3]
      else if funct5 = 0b00100 then
        asm_text (get_or [(0b000, ''fsgnj.s''), (0b001, ''fsgnjn.s''), (0b010, ''fsgnjx.s'')] f3 ''fsgnj?'') [frd, fa, fb]
      else if funct5 = 0b00101 then
        asm_text (get_or [(0b000, ''fmin.s''), (0b001, ''fmax.s'')] f3 ''fminmax?'') [frd, fa, fb]
      else if funct5 = 0b10100 then
        asm_text (get_or [(0b000, ''fle.s''), (0b001, ''flt.s''), (0b010, ''feq.s'')] f3 ''fcmp?'') [xrd, fa, fb]
      else if funct5 = 0b11000 then
        asm_text (if rs2 = 0b00001 then ''fcvt.wu.s'' else ''fcvt.w.s'') [xrd, fa, rm_name f3]
      else if funct5 = 0b11010 then
        asm_text (if rs2 = 0b00001 then ''fcvt.s.wu'' else ''fcvt.s.w'') [frd, xa, rm_name f3]
      else if funct5 = 0b11100 then asm_text (if f3 = 0b001 then ''fclass.s'' else ''fmv.x.w'') [xrd, fa]
      else if funct5 = 0b11110 then asm_text ''fmv.w.x'' [frd, xa]
      else ''op-fp?(funct5=0b'' @ pad0 5 (digits 2 (nat funct5)) @ '')'')"

section \<open>The dispatch\<close>

definition disasm :: "int \<Rightarrow> nat \<Rightarrow> string" where
  "disasm word xl =
     (if word = 0x00000013 then ''nop''
      else if word = 0 then [CHR 0xE2, CHR 0x80, CHR 0x94]
      else let op = dec_op word; rd = dec_rd word in
      if op = 0b0110011 then disasm_r word
      else if op = 0b0010011 then disasm_i word xl
      else if op = 0b0111011 then disasm_op_32 word
      else if op = 0b0011011 then disasm_op_imm_32 word
      else if op = 0b0000011 then disasm_load word
      else if op = 0b0100011 then disasm_store word
      else if op = 0b1100011 then disasm_branch word
      else if op = 0b1101111 then asm_text ''jal'' [xr rd, py_plus_d (dis_imm_j word)]
      else if op = 0b1100111 then asm_text ''jalr'' [xr rd, mem_text (dis_imm_i word) (dec_rs1 word)]
      else if op = 0b0110111 then asm_text ''lui'' [xr rd, ''0x'' @ py_hex (drop_bit 12 word AND 0xFFFFF)]
      else if op = 0b0010111 then asm_text ''auipc'' [xr rd, ''0x'' @ py_hex (drop_bit 12 word AND 0xFFFFF)]
      else if op = 0b1110011 then disasm_system word
      else if op = 0b0000111 then asm_text ''flw'' [fr rd, mem_text (dis_imm_i word) (dec_rs1 word)]
      else if op = 0b0100111 then asm_text ''fsw'' [fr (dec_rs2 word), mem_text (dis_imm_s word) (dec_rs1 word)]
      else if map_of MADD_NAMES op \<noteq> None then disasm_madd word
      else if op = 0b1010011 then disasm_fp word
      else ''0x'' @ pad0 8 (py_hex word) @ ''?'')"

end
