(* ===== verification/Disasm_Int.thy ===== *)
theory Disasm_Int
  imports Asm_Props Disasm
begin

text \<open>
  The disassembler against the assembler, first part: integer, memory, control-transfer and
  SYSTEM instructions. The two sides meet in the formats of \<open>Insn_Format\<close>: an assembled word is a
  format's encoding, whose fields the disassembler reads, and the assembler takes the printed
  text apart into the same fields. The facts of the form \<open>reads_back xl w\<close> say that assembling what
  the disassembler prints for \<open>w\<close> gives \<open>w\<close>.
\<close>

section \<open>Printed operands\<close>

lemma dis_sext_eq [simp]: "dis_sext = sext"
  by (intro ext) (simp add: dis_sext_def sext_def)

lemma dis_imm_eq [simp]: "dis_imm_i w = dec_imm_i w" "dis_imm_s w = dec_imm_s w" "dis_imm_b w = dec_imm_b w"
    "dis_imm_j w = dec_imm_j w"
  by (simp_all add: dis_imm_i_def dis_imm_s_def dis_imm_b_def dis_imm_j_def dec_imm_i_def dec_imm_s_def dec_imm_b_def
      dec_imm_j_def mask_simps sext_take_bit)

lemma xr_reg [simp]: "fits 5 n \<Longrightarrow> reg (xr n) = Inr n" "fits 5 n \<Longrightarrow> freg (fr n) = Inr n"
  by (simp_all add: xr_def fr_def)

lemma token_regs [simp]: "0 \<le> n \<Longrightarrow> token (xr n)" "0 \<le> n \<Longrightarrow> token (fr n)"
  by (simp_all add: xr_def fr_def token_str)

lemma digits_token: "1 < b \<Longrightarrow> b \<le> 16 \<Longrightarrow> c \<in> set (digits b n) \<Longrightarrow> \<not> is_sep c \<and> c \<noteq> CHR ''#'' \<and> c \<noteq> CHR '':''"
  using digits_no_space [of b c n] by (auto simp: is_sep_def is_word_char_def py_isdigit_def is_lower_def is_upper_def)

lemma token_num [simp]: "token (py_str n)" "token (py_plus_d n)" "token (''0x'' @ py_hex n)"
  using digits_token [of 10] digits_token [of 16]
  by (auto simp: token_def list_all_iff py_str_def py_plus_d_def py_hex_def is_sep_def py_isspace_def)

lemma strip_num [simp]: "py_strip (py_str n) = py_str n" "py_strip (py_plus_d n) = py_plus_d n"
    "py_strip (''0x'' @ py_hex n) = ''0x'' @ py_hex n"
  by (rule strip_id; use token_num [of n] in \<open>auto simp: token_def list_all_iff is_sep_def\<close>)+

lemma operand_num [simp]: "operand_value (Tok (py_str n)) = Inr n" "operand_value (Num n) = Inr n"
  by (simp_all add: operand_value_def)

lemma operand_hex [simp]: "0 \<le> n \<Longrightarrow> operand_value (Tok (''0x'' @ py_hex n)) = Inr n"
  using py_int0_hex [of n] strip_num(3) [of n] by (simp only: operand_value_def operand.case)

lemma resolve_num [simp]: "resolve Map.empty (py_plus_d n) a = Inr n"
  by (simp add: resolve_def)

section \<open>Memory operands\<close>

lemma takeWhile_append_stop: "list_all P xs \<Longrightarrow> \<not> P c \<Longrightarrow> takeWhile P (xs @ c # ys) = xs \<and> dropWhile P (xs @ c # ys) = c # ys"
  by (simp add: list_all_iff takeWhile_append dropWhile_append)

lemma digits_list_all: "list_all is_word_char (digits 10 n)" "list_all py_isdigit (digits 10 n)"
  using digits_no_space [of 10] digits_dec by (auto simp: list_all_iff)

lemma mem_operand_text [simp]:
  assumes "0 \<le> r"
  shows "mem_operand (mem_text v r) = Inr (py_str v, xr r)"
proof -
  have p: "\<not> is_word_char CHR ''(''" "\<not> py_isdigit CHR '')''" by code_simp+
  have "\<exists>sg n. py_str v = sg @ digits 10 n \<and> (sg = [] \<or> sg = ''-'')"
    by (intro exI [of _ "if v < 0 then ''-'' else []"] exI [of _ "nat \<bar>v\<bar>"]) (simp add: py_str_def)
  then obtain sg n where s: "py_str v = sg @ digits 10 n" "sg = [] \<or> sg = ''-''" by blast
  have h: "takeWhile (\<lambda>c. c = CHR ''-'') (take 1 (sg @ digits 10 n @ t)) = sg" for t
    using s(2) digits_first [of 10 n] by (cases "digits 10 n") auto
  note w = takeWhile_append_stop [OF digits_list_all(1) p(1), of n "CHR ''x'' # digits 10 (nat r) @ '')''"]
  note d = takeWhile_append_stop [OF digits_list_all(2) p(2), of "nat r" "[]"]
  show ?thesis
    using assms w d h [of "''(x'' @ digits 10 (nat r) @ '')''"] s
    by (simp add: mem_operand_def mem_text_def xr_def py_str_nonneg Let_def)
qed

lemma token_mem [simp]: "0 \<le> r \<Longrightarrow> token (mem_text v r)"
  using token_num(1) [of v] token_regs(1) [of r]
  by (auto simp: mem_text_def token_def is_sep_def py_isspace_def)

lemma with_mem_text [simp]: "fits 5 r \<Longrightarrow> with_mem [a, mem_text v r] k = k (Tok (py_str v)) r"
  by (simp add: with_mem_def arg_def fitsD)


section \<open>Assembling a printed instruction\<close>

definition reads_back :: "nat \<Rightarrow> int \<Rightarrow> bool" where
  "reads_back xl w \<longleftrightarrow> assemble [disasm w xl] xl = Inr [w]"

definition plain_name :: "string \<Rightarrow> bool" where
  "plain_name mn \<longleftrightarrow> token mn \<and> py_lower mn = mn"

lemma reads_backI:
  assumes "disasm w xl = asm_text mn ts" "plain_name mn" "list_all token ts" "asm_insn Map.empty xl 0 mn ts = Inr w"
  shows "reads_back xl w"
  using assms by (simp add: reads_back_def plain_name_def assemble_text)

lemma table_entry: "py_get t k = Inr v \<Longrightarrow> list_all P t \<Longrightarrow> P (k, v)"
  by (auto simp: py_get_def list_all_iff split: option.splits dest: map_of_SomeD)

lemma asm_none:
  "asm_alu xl mn args = None \<longleftrightarrow> asm_alu 0 mn [] = None"
  "asm_mem labels a mn args = None \<longleftrightarrow> asm_mem Map.empty 0 mn [] = None"
  "asm_sys mn args = None \<longleftrightarrow> asm_sys mn [] = None"
  by (simp_all add: asm_alu_def asm_mem_def asm_sys_def)

lemma asm_insn_group:
  "asm_alu xl mn args = Some r \<Longrightarrow> asm_insn labels xl a mn args = r"
  "asm_alu 0 mn [] = None \<Longrightarrow> asm_mem labels a mn args = Some r \<Longrightarrow> asm_insn labels xl a mn args = r"
  "asm_alu 0 mn [] = None \<Longrightarrow> asm_mem Map.empty 0 mn [] = None \<Longrightarrow> asm_sys mn args = Some r \<Longrightarrow>
     asm_insn labels xl a mn args = r"
  "asm_alu 0 mn [] = None \<Longrightarrow> asm_mem Map.empty 0 mn [] = None \<Longrightarrow> asm_sys mn [] = None \<Longrightarrow> asm_fp mn args = Some r \<Longrightarrow>
     asm_insn labels xl a mn args = r"
  using asm_none(1) [of xl mn args] asm_none(2) [of labels a mn args] asm_none(3) [of mn args]
  by (simp_all add: asm_insn_def)

lemma disasm_by_opcode:
  "dec_op w = OP_R \<Longrightarrow> disasm w xl = disasm_r w"
  "dec_op w = OP_I \<Longrightarrow> w \<noteq> 0x13 \<Longrightarrow> disasm w xl = disasm_i w xl"
  "dec_op w = OP_32 \<Longrightarrow> disasm w xl = disasm_op_32 w"
  "dec_op w = OP_IMM_32 \<Longrightarrow> disasm w xl = disasm_op_imm_32 w"
  "dec_op w = OP_LOAD \<Longrightarrow> disasm w xl = disasm_load w"
  "dec_op w = OP_STORE \<Longrightarrow> disasm w xl = disasm_store w"
  "dec_op w = OP_BRANCH \<Longrightarrow> disasm w xl = disasm_branch w"
  "dec_op w = OP_JAL \<Longrightarrow> disasm w xl = asm_text ''jal'' [xr (dec_rd w), py_plus_d (dec_imm_j w)]"
  "dec_op w = OP_JALR \<Longrightarrow> disasm w xl = asm_text ''jalr'' [xr (dec_rd w), mem_text (dec_imm_i w) (dec_rs1 w)]"
  "dec_op w = OP_LUI \<Longrightarrow> disasm w xl = asm_text ''lui'' [xr (dec_rd w), ''0x'' @ py_hex (drop_bit 12 w AND 0xFFFFF)]"
  "dec_op w = OP_AUIPC \<Longrightarrow> disasm w xl = asm_text ''auipc'' [xr (dec_rd w), ''0x'' @ py_hex (drop_bit 12 w AND 0xFFFFF)]"
  "dec_op w = OP_SYSTEM \<Longrightarrow> disasm w xl = disasm_system w"
  "dec_op w = OP_LOAD_FP \<Longrightarrow> disasm w xl = asm_text ''flw'' [fr (dec_rd w), mem_text (dec_imm_i w) (dec_rs1 w)]"
  "dec_op w = OP_STORE_FP \<Longrightarrow> disasm w xl = asm_text ''fsw'' [fr (dec_rs2 w), mem_text (dec_imm_s w) (dec_rs1 w)]"
  "dec_op w \<in> {0b1000011, 0b1000111, 0b1001011, 0b1001111} \<Longrightarrow> disasm w xl = disasm_madd w"
  "dec_op w = OP_FP \<Longrightarrow> disasm w xl = disasm_fp w"
  by (auto simp: disasm_def MADD_NAMES_def dec_op_def)

section \<open>Register instructions\<close>

lemma R_TYPE_names:
  "list_all (\<lambda>(mn, f7, f3). r_mnemonic f7 f3 = mn \<and> plain_name mn \<and> mn \<noteq> ''nop'') R_TYPE"
  by code_simp

lemma R_TYPE_W_names:
  "list_all (\<lambda>(mn, f7, f3). op_32_mnemonic f7 f3 = mn \<and> plain_name mn \<and> \<not> has_key R_TYPE mn \<and> \<not> has_key I_TYPE mn \<and>
     \<not> has_key I_TYPE_BEXT_SHAMT mn \<and> \<not> has_key I_TYPE_BEXT_FIXED mn \<and> mn \<notin> {''nop'', ''rev8'', ''zext.w''}) R_TYPE_W"
  by code_simp

lemma reads_back_r:
  assumes "py_get R_TYPE mn = Inr (f7, f3)" "fits 5 rd" "fits 5 rs1" "fits 5 rs2"
  shows "reads_back xl (enc_r (f7, rs2, rs1, f3, rd, OP_R))"
proof -
  note t = table_entry [OF assms(1) R_TYPE_names, simplified]
  have f: "fits 7 f7" "fits 3 f3" using funct7_tables [OF assms(1)] by simp_all
  note d = r_fields [OF f(1) assms(4,3) f(2) assms(2) fits_opcodes(1)]
  show ?thesis
    using t assms fitsD(1) asm_r_insn [OF assms(1)]
    by (intro reads_backI [where mn = mn and ts = "[xr rd, xr rs1, xr rs2]"])
      (simp_all add: disasm_by_opcode(1) disasm_r_def d del: OP_R_def)
qed

lemma reads_back_r_w:
  assumes "py_get R_TYPE_W mn = Inr (f7, f3)" "fits 5 rd" "fits 5 rs1" "fits 5 rs2"
  shows "reads_back xl (enc_r (f7, rs2, rs1, f3, rd, OP_32))"
proof -
  note t = table_entry [OF assms(1) R_TYPE_W_names, simplified]
  have f: "fits 7 f7" "fits 3 f3" using funct7_tables [OF assms(1)] by simp_all
  note d = r_fields [OF f(1) assms(4,3) f(2) assms(2) fits_opcodes(11)]
  show ?thesis
    using t assms fitsD(1)
    by (intro reads_backI [where mn = mn and ts = "[xr rd, xr rs1, xr rs2]"])
      (simp_all add: disasm_by_opcode(3) disasm_op_32_def d asm_insn_def asm_alu_def has_key_get reg_arg_def arg_def r_type_enc
        del: OP_32_def)
qed


section \<open>Immediate instructions\<close>

lemma i_subfields:
  assumes "fits 12 i" "fits 5 rs1" "fits 3 f3" "fits 5 rd" "fits 7 opc"
  shows "dec_f6 (enc_i (i, rs1, f3, rd, opc)) = drop_bit 6 i" "dec_f7 (enc_i (i, rs1, f3, rd, opc)) = drop_bit 5 i"
    "dec_rs2 (enc_i (i, rs1, f3, rd, opc)) = take_bit 5 i" "drop_bit 20 (enc_i (i, rs1, f3, rd, opc)) = i"
proof -
  show d: "drop_bit 20 (enc_i (i, rs1, f3, rd, opc)) = i"
    using assms by (simp add: enc_i_def field_rules)
  have e: "dec_f6 w = take_bit 6 (drop_bit 6 (drop_bit 20 w))" "dec_f7 w = take_bit 7 (drop_bit 5 (drop_bit 20 w))"
    "dec_rs2 w = take_bit 5 (drop_bit 20 w)" for w
    by (simp_all add: dec_f6_def dec_f7_def dec_rs2_def mask_simps)
  show "dec_f6 (enc_i (i, rs1, f3, rd, opc)) = drop_bit 6 i" "dec_f7 (enc_i (i, rs1, f3, rd, opc)) = drop_bit 5 i"
    "dec_rs2 (enc_i (i, rs1, f3, rd, opc)) = take_bit 5 i"
    using assms(1) unfolding e d by (simp_all add: take_bit_drop_bit fits_take_self)
qed

text \<open>What the disassembler tests on an immediate, from its upper six bits.\<close>

lemma imm12_tests:
  assumes "drop_bit 6 i = (k::int)"
  shows "k \<noteq> 4 \<Longrightarrow> map_of dis_sha i = None" "k \<noteq> 10 \<Longrightarrow> i \<noteq> 0x287" "k \<noteq> 26 \<Longrightarrow> i \<noteq> 0x698 \<and> i \<noteq> 0x6B8 \<and> i \<noteq> 0x687"
    "k \<noteq> 24 \<Longrightarrow> drop_bit 5 i \<noteq> 48"
proof -
  have c: "drop_bit 6 i = drop_bit 1 (drop_bit 5 i)" by simp
  show "drop_bit 5 i \<noteq> 48" if "k \<noteq> 24"
  proof
    assume "drop_bit 5 i = 48"
    then have "drop_bit 6 i = drop_bit 1 48" by (simp only: c)
    then show False using assms that by simp
  qed
qed (use assms in \<open>auto simp: dis_sha_def\<close>)

lemma i_type_plain:
  assumes "py_get I_TYPE mn = Inr f3" "mn \<notin> {''slli'', ''srli'', ''srai''}"
  shows "i_type mn rd rs1 t xl = signed_imm 12 t (\<lambda>v. Inr (enc_i (take_bit 12 v, rs1, f3, rd, OP_I)))"
  using assms by (simp add: i_type_def imm_signed_bind u_bits_take enc_i_def del: OP_I_def)

lemma i_type_shift:
  assumes "py_get I_TYPE mn = Inr f3" "mn \<in> {''slli'', ''srli'', ''srai''}"
  shows "i_type mn rd rs1 t xl = rbind (operand_value t) (\<lambda>v. if fits (if xl \<ge> 64 then 6 else 5) v
    then Inr (enc_i ((if mn = ''srai'' then 0x400 else 0) OR v, rs1, f3, rd, OP_I)) else Inl ValueError)"
proof (cases "operand_value t")
  case (Inr v)
  have "take_bit 12 v = v" if "fits 6 v" using that by (rule fits_take_self) simp
  then show ?thesis
    using assms Inr imm_value [of t 5 False] imm_value [of t 6 False] fits_mono [of 5 v 6]
    by (auto simp: i_type_def imm_num_unsigned Let_def u_bits_take enc_i_def)
qed (use assms imm_value [of t 5 False] imm_value [of t 6 False] in \<open>auto simp: i_type_def\<close>)


lemma I_TYPE_names:
  "list_all (\<lambda>(mn, f3). plain_name mn \<and> \<not> has_key R_TYPE mn \<and> mn \<noteq> ''nop'' \<and>
     (if mn \<in> {''slli'', ''srli'', ''srai''} then f3 = (if mn = ''slli'' then 1 else 5)
      else f3 \<noteq> 1 \<and> f3 \<noteq> 5 \<and> get_or dis_imm_names f3 ''i-type?'' = mn)) I_TYPE"
  by code_simp

lemma asm_i_insn:
  assumes "py_get I_TYPE mn = Inr f3" "fits 5 rd" "fits 5 rs1"
  shows "asm_insn Map.empty xl 0 mn [xr rd, xr rs1, t] = i_type mn rd rs1 (Tok t) xl"
  using table_entry [OF assms(1) I_TYPE_names] assms
  by (intro asm_insn_group) (simp add: asm_alu_def has_key_get reg_arg_def tok_arg_def arg_def)

lemma reads_back_nop: "reads_back xl 0x13"
proof -
  have n: "token ''nop''" "py_lower ''nop'' = ''nop''" by code_simp+
  have "disasm 0x13 xl = asm_text ''nop'' []" by (simp add: disasm_def asm_text_def)
  moreover have "asm_insn Map.empty xl 0 ''nop'' [] = Inr 0x13"
    by (simp add: asm_insn_def asm_alu_def i_type_def I_TYPE_def py_get_def imm_def u_bits_def)
  ultimately show ?thesis using n by (intro reads_backI) (simp_all add: plain_name_def)
qed

lemma reads_back_i_plain:
  assumes "py_get I_TYPE mn = Inr f3" "mn \<notin> {''slli'', ''srli'', ''srai''}" "fits 5 rd" "fits 5 rs1" "signed_in 12 v"
  shows "reads_back xl (enc_i (take_bit 12 v, rs1, f3, rd, OP_I))" (is "reads_back xl ?w")
proof (cases "?w = 0x13")
  case False
  note t = table_entry [OF assms(1) I_TYPE_names]
  have f: "fits 3 f3" using funct3_tables [OF assms(1)] by simp
  note d = i_fields [OF fits_take_bit assms(4) f assms(3) fits_opcodes(2), of v]
    imm_i_enc [OF assms(5,4) f assms(3) fits_opcodes(2)]
  show ?thesis
    using t assms fitsD(1) False
    by (intro reads_backI [where mn = mn and ts = "[xr rd, xr rs1, py_str v]"])
      (simp_all add: disasm_by_opcode(2) disasm_i_def d asm_i_insn i_type_plain signed_imm_def del: OP_I_def)
qed (use reads_back_nop in simp)

lemma enc_i_not_nop: "fits 12 i \<Longrightarrow> fits 5 rs1 \<Longrightarrow> fits 3 f3 \<Longrightarrow> fits 5 rd \<Longrightarrow> f3 \<noteq> 0 \<Longrightarrow> enc_i (i, rs1, f3, rd, OP_I) \<noteq> 0x13"
  using i_fields(3) [of i rs1 f3 rd OP_I] fits_opcodes(2) by (auto simp: dec_f3_def simp del: OP_I_def)

lemma shift_fields:
  fixes xl :: nat
  assumes "fits (if xl \<ge> 64 then 6 else 5) v" "i = (if sra then 0x400 else 0) OR v"
  shows "fits 12 i" "drop_bit 6 i = (if sra then 16 else 0)" "xl < 64 \<Longrightarrow> drop_bit 5 i = (if sra then 32 else 0)"
    "take_bit (if xl \<ge> 64 then 6 else 5) i = v"
proof -
  have "fits 6 v" using assms(1) fits_mono [of 5 v 6] by (auto split: if_splits)
  then show "fits 12 i" "drop_bit 6 i = (if sra then 16 else 0)" "xl < 64 \<Longrightarrow> drop_bit 5 i = (if sra then 32 else 0)"
    "take_bit (if xl \<ge> 64 then 6 else 5) i = v"
    using assms fits_mono [of 6 v 12] by (auto simp: field_rules intro: fits_or)
qed

lemma disasm_shift_case:
  assumes "fits 12 i" "fits 5 rs1" "fits 5 rd" "f3 = 1 \<or> f3 = 5" "drop_bit 6 i = 0 \<or> drop_bit 6 i = 16"
  shows "disasm (enc_i (i, rs1, f3, rd, OP_I)) xl = disasm_shift (enc_i (i, rs1, f3, rd, OP_I)) xl"
proof -
  have f: "fits 3 f3" "f3 \<noteq> 0" using assms(4) by (auto simp: fits_def)
  note d = i_fields [OF assms(1,2) f(1) assms(3) fits_opcodes(2)] i_subfields [OF assms(1,2) f(1) assms(3) fits_opcodes(2)]
  note t = imm12_tests [OF refl, of i]
  have "disasm_i (enc_i (i, rs1, f3, rd, OP_I)) xl = disasm_shift (enc_i (i, rs1, f3, rd, OP_I)) xl"
    using assms(5)
  proof
    assume "drop_bit 6 i = 0"
    then show ?thesis using t assms(4) unfolding disasm_i_def Let_def d by simp
  next
    assume "drop_bit 6 i = 16"
    then show ?thesis using t assms(4) unfolding disasm_i_def Let_def d by simp
  qed
  then show ?thesis
    using enc_i_not_nop [OF assms(1,2) f(1) assms(3) f(2)] d(5) by (simp add: disasm_by_opcode(2) del: OP_I_def)
qed

lemma reads_back_shift:
  assumes "py_get I_TYPE mn = Inr f3" "mn \<in> {''slli'', ''srli'', ''srai''}" "fits 5 rd" "fits 5 rs1"
    "fits (if xl \<ge> 64 then 6 else 5) v"
  shows "reads_back xl (enc_i ((if mn = ''srai'' then 0x400 else 0) OR v, rs1, f3, rd, OP_I))"
proof -
  define i where "i = (if mn = ''srai'' then 0x400 else 0) OR v"
  note t = table_entry [OF assms(1) I_TYPE_names]
  have f: "fits 3 f3" "f3 = 1 \<or> f3 = 5" using funct3_tables [OF assms(1)] t assms(2) by auto
  note s = shift_fields [OF assms(5) i_def]
  note d = i_fields [OF s(1) assms(4) f(1) assms(3) fits_opcodes(2)] i_subfields [OF s(1) assms(4) f(1) assms(3) fits_opcodes(2)]
  have "disasm_shift (enc_i (i, rs1, f3, rd, OP_I)) xl = asm_text mn [xr rd, xr rs1, py_str v]"
  proof (cases "xl \<ge> 64")
    case True
    then show ?thesis using t assms(2) s(2,4) unfolding disasm_shift_def Let_def d by (auto simp: mask_simps)
  next
    case False
    then show ?thesis using t assms(2) s(3,4) unfolding disasm_shift_def Let_def d by (auto simp: mask_simps)
  qed
  moreover have "i_type mn rd rs1 (Tok (py_str v)) xl = Inr (enc_i (i, rs1, f3, rd, OP_I))"
    unfolding i_type_shift [OF assms(1,2)] using assms(5) by (simp add: i_def)
  moreover have "drop_bit 6 i = 0 \<or> drop_bit 6 i = 16" using s(2) by simp
  ultimately show ?thesis
    using t assms(3,4) fitsD(1) disasm_shift_case [OF s(1) assms(4,3) f(2)] asm_i_insn [OF assms(1,3,4)]
    unfolding i_def [symmetric] by (intro reads_backI [where mn = mn and ts = "[xr rd, xr rs1, py_str v]"]) simp_all
qed


lemma table_member: "py_get t k = Inr v \<Longrightarrow> (k, v) \<in> set t"
  by (auto simp: py_get_def split: option.splits dest: map_of_SomeD)

lemma imm_printed [simp]: "fits n v \<Longrightarrow> imm (Tok (py_str v)) n False = Inr v"
  by (simp add: imm_unsigned_iff)

lemma disasm_i_enc:
  assumes "fits 12 i" "fits 5 rs1" "fits 3 f3" "fits 5 rd" "f3 \<noteq> 0"
  shows "disasm (enc_i (i, rs1, f3, rd, OP_I)) xl = disasm_i (enc_i (i, rs1, f3, rd, OP_I)) xl"
  using enc_i_not_nop [OF assms] i_fields(5) [OF assms(1-4) fits_opcodes(2)] by (rule disasm_by_opcode(2) [rotated])

lemma BEXT_SHAMT_names:
  "list_all (\<lambda>(mn, f6, f3). plain_name mn \<and> \<not> has_key R_TYPE mn \<and> \<not> has_key I_TYPE mn \<and> mn \<noteq> ''nop'') I_TYPE_BEXT_SHAMT"
  by code_simp

lemma BEXT_FIXED_names:
  "list_all (\<lambda>(mn, i, f3). plain_name mn \<and> \<not> has_key R_TYPE mn \<and> \<not> has_key I_TYPE mn \<and> mn \<noteq> ''nop'' \<and>
     \<not> has_key I_TYPE_BEXT_SHAMT mn) I_TYPE_BEXT_FIXED"
  by code_simp

lemma reads_back_bext_shamt:
  assumes w: "i_type_bext_shamt mn rd rs1 t xl = Inr w" and r: "fits 5 rd" "fits 5 rs1"
  shows "reads_back xl w"
proof -
  obtain f6 f3 v where e: "py_get I_TYPE_BEXT_SHAMT mn = Inr (f6, f3)" "fits (if xl \<ge> 64 then 6 else 5) v"
      "w = i_type_raw (push_bit 6 f6 OR v) f3 rd rs1 OP_I"
    using w by (auto simp: i_type_bext_shamt_def imm_unsigned_iff split: prod.splits)
  define i where "i = push_bit 6 f6 OR v"
  have f: "fits 6 f6" "fits 3 f3" using imm12_tables(1) [OF e(1)] by auto
  have v: "fits 6 v" using e(2) fits_mono [of 5 v 6] by (auto split: if_splits)
  have i: "fits 12 i" "drop_bit 6 i = f6" "take_bit 6 i = v"
    using f(1) v fits_mono [of 6 v 12] by (auto simp: i_def field_rules intro!: fits_or fits_push_bit_le)
  have wi: "w = enc_i (i, rs1, f3, rd, OP_I)" using e(3) fits_take_self [OF i(1)] by (simp add: i_type_raw_enc i_def [symmetric] del: OP_I_def)
  have m: "(mn, f6, f3) \<in> set I_TYPE_BEXT_SHAMT" using e(1) by (rule table_member)
  then have n: "f3 \<noteq> 0" by (auto simp: I_TYPE_BEXT_SHAMT_def)
  note d = i_fields [OF i(1) r(2) f(2) r(1) fits_opcodes(2)] i_subfields [OF i(1) r(2) f(2) r(1) fits_opcodes(2)]
  have "disasm_i w xl = asm_text mn [xr rd, xr rs1, py_str v]"
    using m unfolding wi disasm_i_def Let_def d i(2) I_TYPE_BEXT_SHAMT_def list.set
    by (elim insertE emptyE; simp add: mask_simps i(3))
  moreover have "asm_insn Map.empty xl 0 mn [xr rd, xr rs1, py_str v] = Inr w"
    using table_entry [OF e(1) BEXT_SHAMT_names] e r
    by (intro asm_insn_group) (simp add: asm_alu_def has_key_get reg_arg_def tok_arg_def arg_def i_type_bext_shamt_def)
  ultimately show ?thesis
    using table_entry [OF e(1) BEXT_SHAMT_names] r fitsD(1) disasm_i_enc [OF i(1) r(2) f(2) r(1) n]
    unfolding wi by (intro reads_backI) simp_all
qed

lemma reads_back_bext_fixed:
  assumes w: "i_type_bext_fixed mn rd rs1 = Inr w" and r: "fits 5 rd" "fits 5 rs1"
  shows "reads_back xl w"
proof -
  obtain i f3 where e: "py_get I_TYPE_BEXT_FIXED mn = Inr (i, f3)" "w = i_type_raw i f3 rd rs1 OP_I"
    using w by (auto simp: i_type_bext_fixed_def split: prod.splits)
  have f: "fits 12 i" "fits 3 f3" using imm12_tables(2) [OF e(1)] by auto
  have wi: "w = enc_i (i, rs1, f3, rd, OP_I)" using e(2) fits_take_self [OF f(1)] by (simp add: i_type_raw_enc del: OP_I_def)
  have m: "(mn, i, f3) \<in> set I_TYPE_BEXT_FIXED" using e(1) by (rule table_member)
  then have n: "f3 \<noteq> 0" by (auto simp: I_TYPE_BEXT_FIXED_def)
  note d = i_fields [OF f(1) r(2) f(2) r(1) fits_opcodes(2)] i_subfields [OF f(1) r(2) f(2) r(1) fits_opcodes(2)]
  have "disasm_i w xl = asm_text mn [xr rd, xr rs1]"
    using m unfolding wi disasm_i_def Let_def d I_TYPE_BEXT_FIXED_def list.set
    by (elim insertE emptyE; simp add: mask_simps dis_sub_def dis_sha_def get_or_def)
  moreover have "asm_insn Map.empty xl 0 mn [xr rd, xr rs1] = Inr w"
    using table_entry [OF e(1) BEXT_FIXED_names] e r
    by (intro asm_insn_group) (simp add: asm_alu_def has_key_get reg_arg_def tok_arg_def arg_def i_type_bext_fixed_def)
  ultimately show ?thesis
    using table_entry [OF e(1) BEXT_FIXED_names] r fitsD(1) disasm_i_enc [OF f(1) r(2) f(2) r(1) n]
    unfolding wi by (intro reads_backI) simp_all
qed

lemma reads_back_i:
  assumes w: "i_type mn rd rs1 t xl = Inr w" and r: "fits 5 rd" "fits 5 rs1"
  shows "reads_back xl w"
proof -
  obtain f3 where f: "py_get I_TYPE mn = Inr f3" using w by (auto simp: i_type_def)
  show ?thesis
  proof (cases "mn \<in> {''slli'', ''srli'', ''srai''}")
    case True
    then show ?thesis
      using w reads_back_shift [OF f True r] unfolding i_type_shift [OF f True] by (auto split: if_splits)
  next
    case False
    then show ?thesis using w reads_back_i_plain [OF f False r] by (auto simp: i_type_plain [OF f False])
  qed
qed

lemma reads_back_rev8:
  assumes r: "fits 5 rd" "fits 5 rs1"
  shows "reads_back xl (asm_rev8 rd rs1 xl)"
proof -
  let ?i = "if xl = 32 then 0x698 else 0x6B8 :: int"
  have n: "plain_name ''rev8''" "asm_alu 0 ''rev8'' [] \<noteq> None" by code_simp+
  have f: "fits 12 ?i" "fits 3 (5::int)" by (simp_all add: fits_def)
  note d = i_fields [OF f(1) r(2) f(2) r(1) fits_opcodes(2)] i_subfields [OF f(1) r(2) f(2) r(1) fits_opcodes(2)]
  have wi: "asm_rev8 rd rs1 xl = enc_i (?i, rs1, 5, rd, OP_I)" by (simp add: asm_rev8_def i_type_raw_enc)
  have "disasm_i (asm_rev8 rd rs1 xl) xl = asm_text ''rev8'' [xr rd, xr rs1]"
    unfolding wi disasm_i_def Let_def d by simp
  moreover have "asm_insn Map.empty xl 0 ''rev8'' [xr rd, xr rs1] = Inr (asm_rev8 rd rs1 xl)"
    using r by (intro asm_insn_group) (simp add: asm_alu_def has_key_def R_TYPE_def I_TYPE_def I_TYPE_BEXT_SHAMT_def
        I_TYPE_BEXT_FIXED_def reg_arg_def arg_def)
  ultimately show ?thesis
    using r fitsD(1) n(1) disasm_i_enc [OF f(1) r(2) f(2) r(1)] unfolding wi by (intro reads_backI) simp_all
qed

lemma reads_back_aes64ks1i:
  assumes w: "asm_aes64ks1i rd rs1 t = Inr w" and r: "fits 5 rd" "fits 5 rs1"
  shows "reads_back xl w"
proof -
  have c: "0x300 OR 0x10 OR x = (0x310 OR x::int)" for x by (simp add: or.assoc [symmetric])
  obtain v where e: "fits 4 v" "w = i_type_raw (0x310 OR v) 1 rd rs1 OP_I"
    using w by (auto simp: asm_aes64ks1i_def imm_unsigned_iff c)
  have n: "plain_name ''aes64ks1i''" "asm_alu 0 ''aes64ks1i'' [] = None" "asm_mem Map.empty 0 ''aes64ks1i'' [] = None"
    "asm_sys ''aes64ks1i'' [] = None" by code_simp+
  have f: "fits 12 (0x310 OR v)" "fits 3 (1::int)" "drop_bit 6 (0x310 OR v) = 12" "take_bit 5 (0x310 OR v) = 16 OR v"
      "take_bit 4 (16 OR v) = v" "16 OR v \<noteq> 0"
    using e(1) fits_mono [of 4 v 12] by (auto simp: field_rules or_eq_0_iff intro!: fits_or)
  have wi: "w = enc_i (0x310 OR v, rs1, 1, rd, OP_I)"
    using e(2) fits_take_self [OF e(1), of 12] by (simp add: i_type_raw_enc take_bit_or del: OP_I_def)
  note d = i_fields [OF f(1) r(2) f(2) r(1) fits_opcodes(2)] i_subfields [OF f(1) r(2) f(2) r(1) fits_opcodes(2)]
  have "disasm_i w xl = asm_text ''aes64ks1i'' [xr rd, xr rs1, py_str v]"
    using imm12_tests(1) [OF f(3)] f unfolding wi disasm_i_def Let_def d by (simp add: mask_simps)
  moreover have "asm_insn Map.empty xl 0 ''aes64ks1i'' [xr rd, xr rs1, py_str v] = Inr w"
    using r e n by (intro asm_insn_group) (simp_all add: asm_fp_def has_key_def FP_ARITH_def FP_SGNJ_def FP_MINMAX_def FP_CMP_def
        MADD_OPCODES_def reg_arg_def tok_arg_def arg_def asm_aes64ks1i_def c)
  ultimately show ?thesis
    using r fitsD(1) n(1) disasm_i_enc [OF f(1) r(2) f(2) r(1)] unfolding wi by (intro reads_backI) simp_all
qed


section \<open>Word immediates\<close>

lemma i_type_w_cases:
  assumes "i_type_w mn rd rs1 t = Inr w"
  obtains (plain) v where "mn = ''addiw''" "signed_in 12 v" "w = enc_i (take_bit 12 v, rs1, 0, rd, OP_IMM_32)"
  | (shift) v where "mn \<in> {''slliw'', ''srliw'', ''sraiw''}" "fits 5 v"
      "w = enc_i ((if mn = ''sraiw'' then 0x400 else 0) OR v, rs1, if mn = ''slliw'' then 1 else 5, rd, OP_IMM_32)"
proof -
  obtain f3 where f: "py_get I_TYPE_W mn = Inr f3" using assms by (auto simp: i_type_w_def)
  have m: "(mn, f3) \<in> set I_TYPE_W" using f by (rule table_member)
  show thesis
  proof (cases "mn = ''addiw''")
    case True
    then show thesis using assms m plain f
      by (auto simp: I_TYPE_W_def i_type_w_def imm_signed_bind u_bits_take enc_i_def)
  next
    case False
    then have s: "mn \<in> {''slliw'', ''srliw'', ''sraiw''}" "f3 = (if mn = ''slliw'' then 1 else 5)"
      using m by (auto simp: I_TYPE_W_def)
    then obtain v where v: "fits 5 v" "w = enc_i (take_bit 12 ((if mn = ''sraiw'' then 0x400 else 0) OR v), rs1, f3, rd, OP_IMM_32)"
      using assms f by (auto simp: i_type_w_def imm_unsigned_iff Let_def u_bits_take enc_i_def)
    have "take_bit 12 ((if mn = ''sraiw'' then 0x400 else 0) OR v) = (if mn = ''sraiw'' then 0x400 else 0) OR v"
      using fits_take_self [OF v(1), of 12] by (simp add: take_bit_or)
    then show thesis using shift [OF s(1) v(1)] v(2) s(2) by simp
  qed
qed

lemma asm_w_insn:
  assumes "mn \<in> {''addiw'', ''slliw'', ''srliw'', ''sraiw''}" "fits 5 rd" "fits 5 rs1"
  shows "plain_name mn" "asm_insn Map.empty xl 0 mn [xr rd, xr rs1, s] = i_type_w mn rd rs1 (Tok s)"
proof -
  have "list_all (\<lambda>mn. plain_name mn \<and> \<not> has_key R_TYPE mn \<and> \<not> has_key I_TYPE mn \<and>
     \<not> has_key I_TYPE_BEXT_SHAMT mn \<and> \<not> has_key I_TYPE_BEXT_FIXED mn \<and> mn \<notin> {''nop'', ''rev8'', ''zext.w''} \<and>
     \<not> has_key R_TYPE_W mn \<and> has_key I_TYPE_W mn) [''addiw'', ''slliw'', ''srliw'', ''sraiw'']"
    by code_simp
  then have c: "plain_name mn" "\<not> has_key R_TYPE mn" "\<not> has_key I_TYPE mn" "\<not> has_key I_TYPE_BEXT_SHAMT mn"
     "\<not> has_key I_TYPE_BEXT_FIXED mn" "mn \<notin> {''nop'', ''rev8'', ''zext.w''}" "\<not> has_key R_TYPE_W mn" "has_key I_TYPE_W mn"
    using assms(1) by auto
  show "plain_name mn" by (rule c(1))
  show "asm_insn Map.empty xl 0 mn [xr rd, xr rs1, s] = i_type_w mn rd rs1 (Tok s)"
    using c assms(2,3) by (intro asm_insn_group) (simp add: asm_alu_def reg_arg_def tok_arg_def arg_def)
qed

lemma reads_back_i_w:
  assumes w: "i_type_w mn rd rs1 t = Inr w" and r: "fits 5 rd" "fits 5 rs1"
  shows "reads_back xl w"
  using w
proof (cases rule: i_type_w_cases)
  case (plain v)
  have f: "fits 3 (0::int)" by simp
  note d = i_fields [OF fits_take_bit r(2) f r(1) fits_opcodes(12), of v] imm_i_enc [OF plain(2) r(2) f r(1) fits_opcodes(12)]
  have "disasm w xl = asm_text mn [xr rd, xr rs1, py_str v]"
    unfolding plain(3) by (simp add: disasm_by_opcode(4) disasm_op_imm_32_def d get_or_def plain(1) del: OP_IMM_32_def)
  moreover have "i_type_w mn rd rs1 (Tok (py_str v)) = Inr w"
    unfolding plain(3) using plain(1,2)
    by (simp add: i_type_w_def imm_signed_bind u_bits_take enc_i_def I_TYPE_W_def py_get_def signed_imm_def)
  ultimately show ?thesis
    using plain(1) r fitsD(1) asm_w_insn [of mn rd rs1] by (intro reads_backI [where mn = mn and ts = "[xr rd, xr rs1, py_str v]"]) simp_all
next
  case (shift v)
  define i where "i = (if mn = ''sraiw'' then 0x400 else 0) OR v"
  define f3 :: int where "f3 = (if mn = ''slliw'' then 1 else 5)"
  have f: "fits 3 f3" by (simp add: f3_def fits_def)
  note s = shift_fields [where xl = 0, simplified, OF shift(2) i_def]
  note d = i_fields [OF s(1) r(2) f r(1) fits_opcodes(12)] i_subfields [OF s(1) r(2) f r(1) fits_opcodes(12)]
  have wi: "w = enc_i (i, rs1, f3, rd, OP_IMM_32)" using shift(3) by (simp add: i_def f3_def)
  have "disasm w xl = asm_text mn [xr rd, xr rs1, py_str v]"
    using d(5) shift(1) s(2-4) f3_def unfolding disasm_by_opcode(4) [OF d(5)] wi disasm_op_imm_32_def Let_def d
    by (auto simp: mask_simps)
  moreover have "i_type_w mn rd rs1 (Tok (py_str v)) = Inr w"
    using shift(1,2) fits_take_self [OF shift(2), of 12] unfolding wi
    by (auto simp: i_type_w_def Let_def u_bits_take enc_i_def I_TYPE_W_def py_get_def i_def f3_def)
  ultimately show ?thesis
    using shift(1) r fitsD(1) asm_w_insn [of mn rd rs1] by (intro reads_backI [where mn = mn and ts = "[xr rd, xr rs1, py_str v]"]) auto
qed


lemma W_names:
  "list_all (\<lambda>mn. plain_name mn \<and> \<not> has_key R_TYPE mn \<and> \<not> has_key I_TYPE mn \<and>
     \<not> has_key I_TYPE_BEXT_SHAMT mn \<and> \<not> has_key I_TYPE_BEXT_FIXED mn \<and> mn \<notin> {''nop'', ''rev8'', ''zext.w''} \<and>
     \<not> has_key R_TYPE_W mn \<and> \<not> has_key I_TYPE_W mn) [''clzw'', ''ctzw'', ''cpopw'', ''roriw'', ''slli.uw'']"
  by code_simp

lemma reads_back_w_fixed:
  assumes w: "i_type_w_bext_fixed mn rd rs1 = Inr w" and r: "fits 5 rd" "fits 5 rs1"
  shows "reads_back xl w"
proof -
  obtain i where e: "py_get I_TYPE_W_BEXT_FIXED mn = Inr i" "w = i_type_raw i 1 rd rs1 OP_IMM_32"
    using w by (auto simp: i_type_w_bext_fixed_def)
  have f: "fits 12 i" "fits 3 (1::int)" using other_tables(1) [OF e(1)] by simp_all
  have wi: "w = enc_i (i, rs1, 1, rd, OP_IMM_32)"
    using e(2) fits_take_self [OF f(1)] by (simp add: i_type_raw_enc del: OP_IMM_32_def)
  have m: "(mn, i) \<in> set I_TYPE_W_BEXT_FIXED" using e(1) by (rule table_member)
  then have n: "mn \<in> set [''clzw'', ''ctzw'', ''cpopw'', ''roriw'', ''slli.uw'']"
    by (auto simp: I_TYPE_W_BEXT_FIXED_def)
  note c = W_names [unfolded list_all_iff, rule_format, OF n]
  note d = i_fields [OF f(1) r(2) f(2) r(1) fits_opcodes(12)] i_subfields [OF f(1) r(2) f(2) r(1) fits_opcodes(12)]
  have "disasm w xl = asm_text mn [xr rd, xr rs1]"
    using m d(5) unfolding disasm_by_opcode(4) [OF d(5)] wi disasm_op_imm_32_def Let_def d
    by (auto simp: I_TYPE_W_BEXT_FIXED_def mask_simps dis_w_sub_def get_or_def)
  moreover have "asm_insn Map.empty xl 0 mn [xr rd, xr rs1] = Inr w"
    using c e r by (intro asm_insn_group)
      (simp add: asm_alu_def has_key_get [of I_TYPE_W_BEXT_FIXED] reg_arg_def arg_def i_type_w_bext_fixed_def)
  ultimately show ?thesis
    using c r fitsD(1) by (intro reads_backI [where mn = mn and ts = "[xr rd, xr rs1]"]) simp_all
qed

lemma reads_back_w_shamt:
  assumes m: "mn = ''roriw'' \<and> n = 5 \<and> f3 = 5 \<and> i = 0x600 OR v \<or> mn = ''slli.uw'' \<and> n = 6 \<and> f3 = 1 \<and> i = 0x80 OR v"
    and v: "fits n v" and r: "fits 5 rd" "fits 5 rs1"
  shows "reads_back xl (i_type_raw i f3 rd rs1 OP_IMM_32)"
proof -
  have v6: "fits 6 v" using m v fits_mono [of 5 v 6] by auto
  have f: "fits 12 i" "fits 3 f3" "take_bit 12 i = i" using m fits_mono [OF v6, of 12] by (auto simp: field_rules fits_def [of 3] intro!: fits_or)
  have p: "n = 5 \<Longrightarrow> drop_bit 5 i = 48 \<and> take_bit 5 i = v" "n = 6 \<Longrightarrow> drop_bit 6 i = 2 \<and> take_bit 6 i = v"
    using m v by (auto simp: field_rules)
  have t: "n = 6 \<Longrightarrow> drop_bit 5 i \<noteq> 48" using imm12_tests(4) p(2) by fastforce
  note d = i_fields [OF f(1) r(2) f(2) r(1) fits_opcodes(12)] i_subfields [OF f(1) r(2) f(2) r(1) fits_opcodes(12)]
  have "mn \<in> set [''clzw'', ''ctzw'', ''cpopw'', ''roriw'', ''slli.uw'']" using m by auto
  note c = W_names [unfolded list_all_iff, rule_format, OF this]
  have k: "\<not> has_key I_TYPE_W_BEXT_FIXED mn" using m by (auto simp: I_TYPE_W_BEXT_FIXED_def has_key_def)
  have "disasm (i_type_raw i f3 rd rs1 OP_IMM_32) xl = asm_text mn [xr rd, xr rs1, py_str v]"
    using m p t unfolding i_type_raw_enc f(3) disasm_by_opcode(4) [OF d(5)] disasm_op_imm_32_def Let_def d
    by (auto simp: mask_simps)
  moreover have "asm_alu xl mn [xr rd, xr rs1, py_str v] = Some (Inr (i_type_raw i f3 rd rs1 OP_IMM_32))"
    using m
  proof (elim disjE conjE)
    assume "mn = ''roriw''" "n = 5" "f3 = 5" "i = 0x600 OR v"
    then show ?thesis using c k v r by (simp add: asm_alu_def reg_arg_def tok_arg_def arg_def roriw_def)
  next
    assume "mn = ''slli.uw''" "n = 6" "f3 = 1" "i = 0x80 OR v"
    then show ?thesis using c k v r by (simp add: asm_alu_def reg_arg_def tok_arg_def arg_def slli_uw_def)
  qed
  note asm_insn_group(1) [OF this]
  ultimately show ?thesis
    using c r fitsD(1) by (intro reads_backI [where mn = mn and ts = "[xr rd, xr rs1, py_str v]"]) simp_all
qed

lemma reads_back_w_shifts:
  "roriw rd rs1 t = Inr w \<Longrightarrow> fits 5 rd \<Longrightarrow> fits 5 rs1 \<Longrightarrow> reads_back xl w"
  "slli_uw rd rs1 t = Inr w \<Longrightarrow> fits 5 rd \<Longrightarrow> fits 5 rs1 \<Longrightarrow> reads_back xl w"
  using reads_back_w_shamt [of "''roriw''" 5 5] reads_back_w_shamt [of "''slli.uw''" 6 1]
  by (auto simp: roriw_def slli_uw_def imm_unsigned_iff simp del: OP_IMM_32_def)

section \<open>Memory and control transfer\<close>

text \<open>Mnemonics of the second group of the assembler's chain.\<close>

definition mem_mnemonic :: "string \<Rightarrow> bool" where
  "mem_mnemonic mn \<longleftrightarrow> plain_name mn \<and> asm_alu 0 mn [] = None"

lemma LOAD_names: "list_all (\<lambda>(mn, f3). mem_mnemonic mn \<and> get_or dis_load f3 ''load?'' = mn) LOAD"
  by code_simp

lemma STORE_names: "list_all (\<lambda>(mn, f3). mem_mnemonic mn \<and> \<not> has_key LOAD mn \<and> get_or dis_store f3 ''store?'' = mn) STORE"
  by code_simp

lemma BRANCH_names:
  "list_all (\<lambda>(mn, f3). mem_mnemonic mn \<and> \<not> has_key LOAD mn \<and> \<not> has_key STORE mn \<and>
     get_or dis_branch f3 ''branch?'' = mn) BRANCH"
  by code_simp

lemma jump_names:
  "list_all (\<lambda>mn. mem_mnemonic mn \<and> \<not> has_key LOAD mn \<and> \<not> has_key STORE mn \<and> \<not> has_key BRANCH mn)
     [''jal'', ''jalr'', ''lui'', ''auipc'']"
  by code_simp

lemma reads_back_load:
  assumes w: "load mn rd t rs1 = Inr w" and r: "fits 5 rd" "fits 5 rs1"
  shows "reads_back xl w"
proof -
  obtain v f3 where e: "signed_in 12 v" "py_get LOAD mn = Inr f3" "w = enc_i (take_bit 12 v, rs1, f3, rd, OP_LOAD)"
    using w unfolding imm12_enc by auto
  have f: "fits 3 f3" using funct3_tables [OF e(2)] by simp
  note t = table_entry [OF e(2) LOAD_names, simplified]
  note d = i_fields [OF fits_take_bit r(2) f r(1) fits_opcodes(3), of v] imm_i_enc [OF e(1) r(2) f r(1) fits_opcodes(3)]
  have "disasm w xl = asm_text mn [xr rd, mem_text v rs1]"
    using t unfolding e(3) disasm_by_opcode(5) [OF d(5)] disasm_load_def d dis_imm_eq by simp
  moreover have "asm_insn Map.empty xl 0 mn [xr rd, mem_text v rs1] = Inr w"
    using t e r by (intro asm_insn_group(2))
      (auto simp: mem_mnemonic_def asm_mem_def has_key_get reg_arg_def arg_def imm12_enc signed_imm_def simp del: OP_LOAD_def)
  ultimately show ?thesis
    using t r fitsD(1) by (intro reads_backI [where mn = mn and ts = "[xr rd, mem_text v rs1]"]) (simp_all add: mem_mnemonic_def)
qed


lemma reads_back_store:
  assumes w: "store mn rs2 t rs1 = Inr w" and r: "fits 5 rs2" "fits 5 rs1"
  shows "reads_back xl w"
proof -
  obtain v f3 where e: "signed_in 12 v" "py_get STORE mn = Inr f3" "w = enc_s (v, rs2, rs1, f3, OP_STORE)"
    using w unfolding store_enc by auto
  have f: "fits 3 f3" using funct3_tables [OF e(2)] by simp
  note t = table_entry [OF e(2) STORE_names, simplified]
  note d = s_decode [OF e(1) r f fits_opcodes(4)]
  have "disasm w xl = asm_text mn [xr rs2, mem_text v rs1]"
    using t unfolding e(3) disasm_by_opcode(6) [OF d(5)] disasm_store_def d dis_imm_eq by simp
  moreover have "asm_insn Map.empty xl 0 mn [xr rs2, mem_text v rs1] = Inr w"
    using t e r by (intro asm_insn_group(2))
      (auto simp: mem_mnemonic_def asm_mem_def has_key_get [of STORE] reg_arg_def arg_def store_enc signed_imm_def simp del: OP_STORE_def)
  ultimately show ?thesis
    using t r fitsD(1) by (intro reads_backI [where mn = mn and ts = "[xr rs2, mem_text v rs1]"]) (simp_all add: mem_mnemonic_def)
qed

lemma reads_back_branch:
  assumes w: "branch mn rs1 rs2 t = Inr w" and r: "fits 5 rs1" "fits 5 rs2"
  shows "reads_back xl w"
proof -
  obtain v f3 where e: "signed_in 13 v" "even v" "py_get BRANCH mn = Inr f3" "w = enc_b (v, rs2, rs1, f3, OP_BRANCH)"
    using w unfolding branch_enc by (auto split: if_splits)
  have f: "fits 3 f3" using funct3_tables [OF e(3)] by simp
  note t = table_entry [OF e(3) BRANCH_names, simplified]
  note d = b_decode [OF e(1,2) r(2,1) f fits_opcodes(5)]
  have "disasm w xl = asm_text mn [xr rs1, xr rs2, py_plus_d v]"
    using t unfolding e(4) disasm_by_opcode(7) [OF d(5)] disasm_branch_def d dis_imm_eq by simp
  moreover have "asm_insn Map.empty xl 0 mn [xr rs1, xr rs2, py_plus_d v] = Inr w"
    using t e r by (intro asm_insn_group(2))
      (auto simp: mem_mnemonic_def asm_mem_def has_key_get [of BRANCH] reg_arg_def arg_def branch_enc signed_imm_def
        simp del: OP_BRANCH_def)
  ultimately show ?thesis
    using t r fitsD(1)
    by (intro reads_backI [where mn = mn and ts = "[xr rs1, xr rs2, py_plus_d v]"]) (simp_all add: mem_mnemonic_def)
qed

lemma reads_back_jal:
  assumes w: "jal rd t = Inr w" and r: "fits 5 rd"
  shows "reads_back xl w"
proof -
  obtain v where e: "signed_in 21 v" "even v" "w = enc_j (v, rd, OP_JAL)"
    using w unfolding jal_enc by (auto split: if_splits)
  note t = jump_names [simplified] and d = j_decode [OF e(1,2) r fits_opcodes(6)]
  have "disasm w xl = asm_text ''jal'' [xr rd, py_plus_d v]"
    unfolding e(3) disasm_by_opcode(8) [OF d(3)] d ..
  moreover have "asm_insn Map.empty xl 0 ''jal'' [xr rd, py_plus_d v] = Inr w"
    using t e r by (intro asm_insn_group(2))
      (auto simp: mem_mnemonic_def asm_mem_def reg_arg_def arg_def jal_enc signed_imm_def simp del: OP_JAL_def)
  ultimately show ?thesis
    using t r fitsD(1) by (intro reads_backI [where mn = "''jal''" and ts = "[xr rd, py_plus_d v]"]) (simp_all add: mem_mnemonic_def)
qed

lemma reads_back_jalr:
  assumes w: "jalr rd t rs1 = Inr w" and r: "fits 5 rd" "fits 5 rs1"
  shows "reads_back xl w"
proof -
  obtain v where e: "signed_in 12 v" "w = enc_i (take_bit 12 v, rs1, 0, rd, OP_JALR)"
    using w unfolding imm12_enc by auto
  have f: "fits 3 (0::int)" by simp
  note t = jump_names [simplified]
  note d = i_fields [OF fits_take_bit r(2) f r(1) fits_opcodes(7), of v] imm_i_enc [OF e(1) r(2) f r(1) fits_opcodes(7)]
  have "disasm w xl = asm_text ''jalr'' [xr rd, mem_text v rs1]"
    unfolding e(2) disasm_by_opcode(9) [OF d(5)] d ..
  moreover have "asm_insn Map.empty xl 0 ''jalr'' [xr rd, mem_text v rs1] = Inr w"
    using t e r by (intro asm_insn_group(2))
      (auto simp: mem_mnemonic_def asm_mem_def reg_arg_def arg_def imm12_enc signed_imm_def simp del: OP_JALR_def)
  ultimately show ?thesis
    using t r fitsD(1) by (intro reads_backI [where mn = "''jalr''" and ts = "[xr rd, mem_text v rs1]"]) (simp_all add: mem_mnemonic_def)
qed

lemma u_upper: "fits 20 v \<Longrightarrow> fits 5 rd \<Longrightarrow> fits 7 opc \<Longrightarrow> drop_bit 12 (enc_u (v, rd, opc)) AND 0xFFFFF = v"
  by (simp add: enc_u_def field_rules)

lemma reads_back_upper:
  assumes w: "u_type opc rd t = Inr w" and r: "fits 5 rd" and o: "mn = ''lui'' \<and> opc = OP_LUI \<or> mn = ''auipc'' \<and> opc = OP_AUIPC"
  shows "reads_back xl w"
proof -
  obtain v where e: "fits 20 v" "w = enc_u (v, rd, opc)" using w unfolding u_type_enc by (auto split: if_splits)
  have f: "fits 7 opc" using o fits_opcodes(8,9) by metis
  note t = jump_names [simplified] and d = u_decode [OF e(1) r f] u_upper [OF e(1) r f]
  have "disasm w xl = asm_text mn [xr rd, ''0x'' @ py_hex v]"
    using o disasm_by_opcode(10,11) [of w xl] d unfolding e(2) by (auto simp del: OP_LUI_def OP_AUIPC_def)
  moreover have "asm_mem Map.empty 0 mn [xr rd, ''0x'' @ py_hex v] = Some (u_type opc rd (Tok (''0x'' @ py_hex v)))"
    using t o r by (auto simp: asm_mem_def reg_arg_def tok_arg_def arg_def simp del: OP_LUI_def OP_AUIPC_def)
  moreover have "u_type opc rd (Tok (''0x'' @ py_hex v)) = Inr w"
    unfolding u_type_enc operand_hex [OF fitsD(1) [OF e(1)]] using e by simp
  moreover have "mem_mnemonic mn" using t o by auto
  ultimately show ?thesis
    using r fitsD(1) asm_insn_group(2) [of mn Map.empty 0] token_num(3) [of v]
    by (intro reads_backI [where mn = mn and ts = "[xr rd, ''0x'' @ py_hex v]"]) (simp_all add: mem_mnemonic_def)
qed


section \<open>SYSTEM\<close>

lemma digit_char_token:
  "d < 16 \<Longrightarrow> \<not> is_sep (digit_char d) \<and> digit_char d \<noteq> CHR ''#'' \<and> digit_char d \<noteq> CHR '':'' \<and> digit_char d \<noteq> CHR ''_''"
  by (drule digit_char_cases, elim insertE emptyE; hypsubst; code_simp)

lemma pad0_hex:
  assumes "0 \<le> n"
  shows "py_int0 (''0x'' @ pad0 k (py_hex n)) = Inr n" "token (''0x'' @ pad0 k (py_hex n))"
proof -
  let ?z = "replicate (k - length (py_hex n)) CHR ''0''"
  have "CHR ''0'' = digit_char 0" by code_simp
  then have zero: "\<exists>d<16. CHR ''0'' = digit_char d" by (intro exI [of _ 0]) simp
  have z: "\<forall>c \<in> set (?z @ digits 16 (nat n)). \<exists>d<16. c = digit_char d"
    using digits_set [of 16] zero by (auto simp del: digits.simps)
  have t: "\<not> is_sep c \<and> c \<noteq> CHR ''#'' \<and> c \<noteq> CHR '':'' \<and> c \<noteq> CHR ''_''" if "c \<in> set (?z @ digits 16 (nat n))" for c
  proof -
    obtain d where "d < 16" "c = digit_char d" using z \<open>c \<in> _\<close> by blast
    then show ?thesis using digit_char_token [of d] by simp
  qed
  then show k: "token (''0x'' @ pad0 k (py_hex n))"
    by (auto simp: token_def list_all_iff pad0_def py_hex_def is_sep_def py_isspace_def)
  have "foldl (\<lambda>v c. v * 16 + the (digit_val c)) 0 (replicate m CHR ''0'') = 0" for m
    by (induction m) (simp_all add: digit_val_def py_isdigit_def)
  then have v: "int_digits 16 0 False (?z @ digits 16 (nat n)) = Inr (nat n)"
    using int_digits_append [OF z, of 0 False "[]"] digits_value [of 16 "nat n"] by simp
  have u: "drop_underscore (?z @ digits 16 (nat n)) = ?z @ digits 16 (nat n)"
    using t by (cases "?z @ digits 16 (nat n)") (auto simp: drop_underscore_def)
  have "py_strip (''0x'' @ pad0 k (py_hex n)) = ''0x'' @ pad0 k (py_hex n)"
    by (rule strip_id) (use k in \<open>auto simp: token_def list_all_iff is_sep_def\<close>)
  then show "py_int0 (''0x'' @ pad0 k (py_hex n)) = Inr n"
    using assms v u by (simp add: py_int0_def int_unsigned_def pad0_def py_hex_def)
qed

lemma csr_name_reads:
  assumes "fits 12 a" "a \<notin> {1, 2, 3}"
  shows "csr_lookup (Tok (csr_name a)) = Inr a" "token (csr_name a)"
proof -
  have n: "list_all (\<lambda>(a, s). a \<in> {1, 2, 3} \<or> csr_lookup (Tok s) = Inr a \<and> token s) CSR_NAMES" by code_simp
  have h: "\<not> has_key CSR_ADDR (''0x'' @ s)" for s by (simp add: has_key_def CSR_ADDR_def)
  have "csr_lookup (Tok (csr_name a)) = Inr a \<and> token (csr_name a)"
  proof (cases "map_of CSR_NAMES a")
    case None
    then show ?thesis using pad0_hex [of a 3] fitsD(1) [OF assms(1)] h [of "pad0 3 (py_hex a)"]
      by (simp add: csr_name_def get_or_def csr_lookup_def)
  next
    case (Some s)
    then show ?thesis using n map_of_SomeD [OF Some] assms(2) by (auto simp: csr_name_def get_or_def list_all_iff)
  qed
  then show "csr_lookup (Tok (csr_name a)) = Inr a" "token (csr_name a)" by auto
qed

definition sys_mnemonic :: "string \<Rightarrow> bool" where
  "sys_mnemonic mn \<longleftrightarrow> plain_name mn \<and> asm_alu 0 mn [] = None \<and> asm_mem Map.empty 0 mn [] = None"

lemma CSR_OP_names:
  "list_all (\<lambda>(mn, f3). sys_mnemonic mn \<and> f3 \<noteq> 0 \<and> get_or dis_csr f3 ''csr?'' = mn \<and>
     (if f3 AND 4 \<noteq> 0 then mn \<in> {''csrrwi'', ''csrrsi'', ''csrrci''} \<and> mn \<notin> {''csrrw'', ''csrrs'', ''csrrc''}
      else mn \<in> {''csrrw'', ''csrrs'', ''csrrc''})) CSR_OP"
  by code_simp

lemma reads_back_csr:
  assumes o: "py_get CSR_OP mn = Inr f3" and f: "fits 12 a" "a \<notin> {1, 2, 3}" "fits 5 rd" "fits 5 z"
  shows "reads_back xl (enc_i (a, z, f3, rd, OP_SYSTEM))"
proof -
  note t = table_entry [OF o CSR_OP_names] and c = csr_name_reads [OF f(1,2)]
  have f3: "fits 3 f3" using funct3_tables [OF o] by simp
  note d = i_fields [OF f(1,4) f3 f(3) fits_opcodes(10)] i_subfields [OF f(1,4) f3 f(3) fits_opcodes(10)]
  have a: "a AND 0xFFF = a" using fits_take_self [OF f(1)] by (simp add: mask_simps)
  let ?w = "enc_i (a, z, f3, rd, OP_SYSTEM)" and ?x = "if f3 AND 4 \<noteq> 0 then py_str z else xr z"
  have "disasm ?w xl = asm_text mn [xr rd, csr_name a, ?x]"
    using t unfolding disasm_by_opcode(12) [OF d(5)] disasm_system_def Let_def d a by simp
  moreover have "asm_sys mn [xr rd, csr_name a, ?x] = Some (Inr ?w)"
  proof (cases "f3 AND 4 = 0")
    case True
    then show ?thesis using t o f c fits_take_self [OF f(1)]
      by (simp add: asm_sys_def reg_arg_def tok_arg_def arg_def system_enc del: OP_SYSTEM_def)
  next
    case False
    then show ?thesis using t o f c fits_take_self [OF f(1)]
      by (simp add: asm_sys_def reg_arg_def tok_arg_def arg_def system_enc del: OP_SYSTEM_def)
  qed
  ultimately show ?thesis
    using t f c fitsD(1) asm_insn_group(3) [of mn "[xr rd, csr_name a, ?x]" "Inr ?w"]
    by (intro reads_backI [where mn = mn and ts = "[xr rd, csr_name a, ?x]"]) (simp_all add: sys_mnemonic_def)
qed

lemma reads_back_system:
  assumes "system_noarg mn = Inr w" "mn \<noteq> ''sret''"
  shows "reads_back xl w"
proof -
  obtain i where e: "(mn, i) \<in> set SYSTEM_IMM12" "py_get SYSTEM_IMM12 mn = Inr i" "w = enc_i (i, 0, 0, 0, OP_SYSTEM)"
    using assms(1) table_member [of SYSTEM_IMM12 mn] unfolding system_enc by auto
  have n: "list_all (\<lambda>mn. sys_mnemonic mn \<and> mn \<notin> {''csrrw'', ''csrrs'', ''csrrc'', ''csrrwi'', ''csrrsi'', ''csrrci''})
      [''ecall'', ''ebreak'', ''mret'']" by code_simp
  have f: "fits 12 i" "fits 5 (0::int)" "fits 3 (0::int)" using other_tables(2) [OF e(2)] by simp_all
  note d = i_fields [OF f(1,2,3,2) fits_opcodes(10)] i_subfields [OF f(1,2,3,2) fits_opcodes(10)]
  have a: "i AND 0xFFF = i" using fits_take_self [OF f(1)] by (simp add: mask_simps)
  have "get_or dis_system i s = mn" for s using e(1) assms(2) by (auto simp: SYSTEM_IMM12_def dis_system_def get_or_def)
  then have "disasm w xl = asm_text mn []"
    unfolding e(3) disasm_by_opcode(12) [OF d(5)] disasm_system_def Let_def d a by (simp add: asm_text_def)
  moreover have m: "mn \<in> set [''ecall'', ''ebreak'', ''mret'']" using e(1) assms(2) by (auto simp: SYSTEM_IMM12_def)
  note c = n [unfolded list_all_iff, rule_format, OF m]
  have "asm_sys mn [] = Some (Inr w)"
    using m c assms(1) by (auto simp: asm_sys_def)
  ultimately show ?thesis
    using c asm_insn_group(3) [of mn "[]" "Inr w"]
    by (intro reads_backI [where mn = mn and ts = "[]"]) (simp_all add: sys_mnemonic_def)
qed

end
