(* ===== verification/Disasm_Props.thy ===== *)
theory Disasm_Props
  imports Disasm_Int
begin

text \<open>
  The disassembler against the assembler, second part: floating point, and the round trip of
  whole programs.
\<close>

section \<open>Floating point\<close>

definition fp_mnemonic :: "string \<Rightarrow> bool" where
  "fp_mnemonic mn \<longleftrightarrow> plain_name mn \<and> asm_alu 0 mn [] = None \<and> asm_mem Map.empty 0 mn [] = None \<and> asm_sys mn [] = None"

lemma FP_names:
  "list_all fp_mnemonic (map fst FP_ARITH @ map fst FP_SGNJ @ map fst FP_MINMAX @ map fst FP_CMP @ map fst MADD_OPCODES @
     [''flw'', ''fsw'', ''fsqrt.s'', ''fcvt.w.s'', ''fcvt.wu.s'', ''fcvt.s.w'', ''fcvt.s.wu'', ''fmv.x.w'', ''fclass.s'', ''fmv.w.x''])"
  by code_simp

lemma has_key_set: "has_key T mn \<Longrightarrow> mn \<in> set (map fst T)"
  by (auto simp: has_key_def dom_map_of_conv_image_fst [symmetric])

lemma fp_name:
  "has_key FP_ARITH mn \<or> has_key FP_SGNJ mn \<or> has_key FP_MINMAX mn \<or> has_key FP_CMP mn \<or> has_key MADD_OPCODES mn \<Longrightarrow> fp_mnemonic mn"
  using FP_names has_key_set [of FP_ARITH] has_key_set [of FP_SGNJ] has_key_set [of FP_MINMAX] has_key_set [of FP_CMP] has_key_set [of MADD_OPCODES]
  unfolding list_all_iff set_append by blast

lemma reads_back_fp_text:
  assumes "disasm w xl = asm_text mn ts" "fp_mnemonic mn" "list_all token ts" "asm_fp mn ts = Some (Inr w)"
  shows "reads_back xl w"
  using assms asm_insn_group(4) [of mn ts "Inr w"] by (intro reads_backI) (auto simp: fp_mnemonic_def)

lemma rm_printed:
  assumes "parse_rm args i = Inr rm"
  shows "token (rm_name rm)" "k < length ts \<Longrightarrow> ts ! k = rm_name rm \<Longrightarrow> parse_rm ts k = Inr rm"
proof -
  have n: "list_all (\<lambda>(s, rm). rm_name rm = s \<and> token s \<and> py_strip s = s \<and> s \<noteq> [] \<and> py_lower s = s \<and> py_get RM_NAMES s = Inr rm) RM_NAMES"
    by code_simp
  obtain s where "py_get RM_NAMES s = Inr rm" using assms by (auto simp: parse_rm_def Let_def split: if_splits)
  from table_entry [OF this n] show "token (rm_name rm)" "k < length ts \<Longrightarrow> ts ! k = rm_name rm \<Longrightarrow> parse_rm ts k = Inr rm"
    by (auto simp: parse_rm_def has_key_get)
qed

lemma fp_fields:
  assumes "fits 5 f5" "fits 5 rs2" "fits 5 rs1" "fits 3 f3" "fits 5 rd" "fits 7 opc"
  shows "drop_bit 27 (enc_r (push_bit 2 f5, rs2, rs1, f3, rd, opc)) AND 0x1F = f5"
  using assms by (simp add: enc_r_def field_rules)

lemma disasm_fp_enc:
  assumes "fits 5 f5" "fits 5 rs2" "fits 5 rs1" "fits 3 f3" "fits 5 rd"
  shows "disasm (enc_r (push_bit 2 f5, rs2, rs1, f3, rd, OP_FP)) xl = disasm_fp (enc_r (push_bit 2 f5, rs2, rs1, f3, rd, OP_FP))"
  using r_fields(6) [OF fits_push_2 [OF assms(1)] assms(2-5) fits_opcodes(13)] by (rule disasm_by_opcode(16))

lemma reads_back_flw:
  assumes w: "flw rd t rs1 = Inr w" and r: "fits 5 rd" "fits 5 rs1"
  shows "reads_back xl w"
proof -
  obtain v where e: "signed_in 12 v" "w = enc_i (take_bit 12 v, rs1, 2, rd, OP_LOAD_FP)" using w unfolding imm12_enc by auto
  have f: "fits 3 (2::int)" by (simp add: fits_def)
  note d = i_fields [OF fits_take_bit r(2) f r(1) fits_opcodes(14), of v] imm_i_enc [OF e(1) r(2) f r(1) fits_opcodes(14)]
  have "disasm w xl = asm_text ''flw'' [fr rd, mem_text v rs1]" unfolding e(2) disasm_by_opcode(13) [OF d(5)] d ..
  moreover have "asm_fp ''flw'' [fr rd, mem_text v rs1] = Some (Inr w)"
    using e r by (simp add: asm_fp_def freg_arg_def arg_def imm12_enc signed_imm_def del: OP_LOAD_FP_def)
  ultimately show ?thesis using FP_names r fitsD(1) by (intro reads_back_fp_text) simp_all
qed

lemma reads_back_fsw:
  assumes w: "fsw rs2 t rs1 = Inr w" and r: "fits 5 rs2" "fits 5 rs1"
  shows "reads_back xl w"
proof -
  obtain v where e: "signed_in 12 v" "w = enc_s (v, rs2, rs1, 2, OP_STORE_FP)" using w unfolding store_enc by auto
  have f: "fits 3 (2::int)" by (simp add: fits_def)
  note d = s_decode [OF e(1) r f fits_opcodes(15)]
  have "disasm w xl = asm_text ''fsw'' [fr rs2, mem_text v rs1]" unfolding e(2) disasm_by_opcode(14) [OF d(5)] d ..
  moreover have "asm_fp ''fsw'' [fr rs2, mem_text v rs1] = Some (Inr w)"
    using e r by (simp add: asm_fp_def freg_arg_def arg_def store_enc signed_imm_def del: OP_STORE_FP_def)
  ultimately show ?thesis using FP_names r fitsD(1) by (intro reads_back_fp_text) simp_all
qed


text \<open>The instructions of the OP-FP opcode, by the form of their text.\<close>



lemma reads_back_fp_arith:
  assumes "py_get FP_ARITH mn = Inr f5" "parse_rm args k = Inr rm" and r: "fits 5 rd" "fits 5 rs1" "fits 5 rs2"
  shows "reads_back xl (fp_r_type f5 rd rs1 rs2 rm)"
proof -
  have m: "(mn, f5) \<in> set FP_ARITH" using assms(1) by (rule table_member)
  have f: "fits 5 f5" "fits 3 rm" "fp_mnemonic mn"
    using other_tables(3) [OF assms(1)] parse_rm_range [OF assms(2)] assms(1) fp_name [of mn] by (auto simp: has_key_get)
  note d = r_fields [OF fits_push_2 [OF f(1)] r(3,2) f(2) r(1) fits_opcodes(13)] fp_fields [OF f(1) r(3,2) f(2) r(1) fits_opcodes(13)]
  note p = rm_printed [OF assms(2)]
  have "disasm (fp_r_type f5 rd rs1 rs2 rm) xl = asm_text mn [fr rd, fr rs1, fr rs2, rm_name rm]"
    using m unfolding fp_enc disasm_fp_enc [OF f(1) r(3,2) f(2) r(1)] disasm_fp_def Let_def d
      FP_ARITH_def list.set
    by (elim insertE emptyE; simp add: dis_fp_arith_def get_or_def)
  moreover have "asm_fp mn [fr rd, fr rs1, fr rs2, rm_name rm] = Some (Inr (fp_r_type f5 rd rs1 rs2 rm))"
    using m r p(2) [of 3 "[fr rd, fr rs1, fr rs2, rm_name rm]"] unfolding FP_ARITH_def list.set
    by (elim insertE emptyE; simp add: FP_ARITH_def asm_fp_def freg_arg_def arg_def has_key_def py_get_def)
  ultimately show ?thesis using f(3) p(1) r fitsD(1)
    by (intro reads_back_fp_text [where mn = mn and ts = "[fr rd, fr rs1, fr rs2, rm_name rm]"]) simp_all
qed

lemma reads_back_fp_rm:
  assumes "parse_rm args k = Inr rm" and r: "fits 5 rd" "fits 5 rs1"
  shows "reads_back xl (fp_sqrt rd rs1 rm)" "reads_back xl (fp_cvt_w_s b rd rs1 rm)" "reads_back xl (fp_cvt_s_w b rd rs1 rm)"
proof -
  have f: "fits 3 rm" "fits 5 (0::int)" "fits 5 (of_bool b :: int)" "fits 5 FUNCT5_FSQRT" "fits 5 FUNCT5_FCVT_W_S" "fits 5 FUNCT5_FCVT_S_W"
    using parse_rm_range [OF assms(1)] by (simp_all add: fits_def)
  note p = rm_printed [OF assms(1)]
  note ds = r_fields [OF fits_push_2 [OF f(4)] f(2) r(2) f(1) r(1) fits_opcodes(13)] fp_fields [OF f(4,2) r(2) f(1) r(1) fits_opcodes(13)]
  note dw = r_fields [OF fits_push_2 [OF f(5)] f(3) r(2) f(1) r(1) fits_opcodes(13)] fp_fields [OF f(5,3) r(2) f(1) r(1) fits_opcodes(13)]
  note dx = r_fields [OF fits_push_2 [OF f(6)] f(3) r(2) f(1) r(1) fits_opcodes(13)] fp_fields [OF f(6,3) r(2) f(1) r(1) fits_opcodes(13)]
  let ?w = "if b then ''fcvt.wu.s'' else ''fcvt.w.s''" and ?s = "if b then ''fcvt.s.wu'' else ''fcvt.s.w''"
  have "disasm (fp_sqrt rd rs1 rm) xl = asm_text ''fsqrt.s'' [fr rd, fr rs1, rm_name rm]"
    unfolding fp_enc disasm_fp_enc [OF f(4,2) r(2) f(1) r(1)] disasm_fp_def Let_def ds by (simp add: dis_fp_arith_def)
  moreover have "asm_fp ''fsqrt.s'' [fr rd, fr rs1, rm_name rm] = Some (Inr (fp_sqrt rd rs1 rm))"
    using r p(2) [of 2 "[fr rd, fr rs1, rm_name rm]"]
    by (simp add: asm_fp_def freg_arg_def arg_def has_key_def FP_ARITH_def)
  ultimately show "reads_back xl (fp_sqrt rd rs1 rm)"
    using FP_names p(1) r fitsD(1) by (intro reads_back_fp_text) simp_all
  have "disasm (fp_cvt_w_s b rd rs1 rm) xl = asm_text ?w [xr rd, fr rs1, rm_name rm]"
    unfolding fp_enc disasm_fp_enc [OF f(5,3) r(2) f(1) r(1)] disasm_fp_def Let_def dw by (simp add: dis_fp_arith_def)
  moreover have "asm_fp ?w [xr rd, fr rs1, rm_name rm] = Some (Inr (fp_cvt_w_s b rd rs1 rm))"
    using r p(2) [of 2 "[xr rd, fr rs1, rm_name rm]"]
    by (simp add: asm_fp_def reg_arg_def freg_arg_def arg_def has_key_def FP_ARITH_def FP_SGNJ_def FP_MINMAX_def FP_CMP_def)
  ultimately show "reads_back xl (fp_cvt_w_s b rd rs1 rm)"
    using FP_names p(1) r fitsD(1) by (intro reads_back_fp_text) simp_all
  have "disasm (fp_cvt_s_w b rd rs1 rm) xl = asm_text ?s [fr rd, xr rs1, rm_name rm]"
    unfolding fp_enc disasm_fp_enc [OF f(6,3) r(2) f(1) r(1)] disasm_fp_def Let_def dx by (simp add: dis_fp_arith_def)
  moreover have "asm_fp ?s [fr rd, xr rs1, rm_name rm] = Some (Inr (fp_cvt_s_w b rd rs1 rm))"
    using r p(2) [of 2 "[fr rd, xr rs1, rm_name rm]"]
    by (simp add: asm_fp_def reg_arg_def freg_arg_def arg_def has_key_def FP_ARITH_def FP_SGNJ_def FP_MINMAX_def FP_CMP_def)
  ultimately show "reads_back xl (fp_cvt_s_w b rd rs1 rm)"
    using FP_names p(1) r fitsD(1) by (intro reads_back_fp_text) simp_all
qed

lemma reads_back_fp_table:
  assumes w: "fp_sgnj mn rd rs1 rs2 = Inr w \<or> fp_minmax mn rd rs1 rs2 = Inr w" and r: "fits 5 rd" "fits 5 rs1" "fits 5 rs2"
  shows "reads_back xl w"
proof -
  obtain t f5 f3 where e: "py_get t mn = Inr f3" "w = enc_r (push_bit 2 f5, rs2, rs1, f3, rd, OP_FP)"
      "t = FP_SGNJ \<and> f5 = FUNCT5_FSGNJ \<or> t = FP_MINMAX \<and> f5 = FUNCT5_FMINMAX"
    using w unfolding fp_enc by (auto simp del: FUNCT5_FSGNJ_def FUNCT5_FMINMAX_def OP_FP_def)
  have f: "fits 5 f5" "fits 3 f3" "fp_mnemonic mn"
    using e(1,3) funct3_tables [OF e(1)] fp_name [of mn] by (auto simp: fits_def [of 5] has_key_get)
  note d = r_fields [OF fits_push_2 [OF f(1)] r(3,2) f(2) r(1) fits_opcodes(13)] fp_fields [OF f(1) r(3,2) f(2) r(1) fits_opcodes(13)]
  have m: "(mn, f5, f3) \<in> set (map (\<lambda>(mn, f3). (mn, FUNCT5_FSGNJ, f3)) FP_SGNJ @ map (\<lambda>(mn, f3). (mn, FUNCT5_FMINMAX, f3)) FP_MINMAX)"
    using e(1,3) table_member [OF e(1)] by auto
  have "disasm w xl = asm_text mn [fr rd, fr rs1, fr rs2]"
    using m unfolding e(2) disasm_fp_enc [OF f(1) r(3,2) f(2) r(1)] disasm_fp_def Let_def d FP_SGNJ_def FP_MINMAX_def
      list.map append.simps list.set prod.case
    by (elim insertE emptyE; simp add: dis_fp_arith_def get_or_def)
  moreover have "asm_fp mn [fr rd, fr rs1, fr rs2] = Some (Inr w)"
    using m r unfolding e(2) FP_SGNJ_def FP_MINMAX_def list.map append.simps list.set prod.case
    by (elim insertE emptyE; simp add: asm_fp_def freg_arg_def arg_def has_key_def py_get_def fp_enc
        FP_ARITH_def FP_SGNJ_def FP_MINMAX_def del: OP_FP_def)
  ultimately show ?thesis using f(3) r fitsD(1)
    by (intro reads_back_fp_text [where mn = mn and ts = "[fr rd, fr rs1, fr rs2]"]) simp_all
qed

lemma reads_back_fp_cmp:
  assumes w: "fp_cmp mn rd rs1 rs2 = Inr w" and r: "fits 5 rd" "fits 5 rs1" "fits 5 rs2"
  shows "reads_back xl w"
proof -
  obtain f3 where e: "py_get FP_CMP mn = Inr f3" "w = enc_r (push_bit 2 FUNCT5_FCMP, rs2, rs1, f3, rd, OP_FP)"
    using w unfolding fp_enc by auto
  have f: "fits 5 FUNCT5_FCMP" "fits 3 f3" "fp_mnemonic mn"
    using funct3_tables [OF e(1)] fp_name [of mn] e(1) by (auto simp: fits_def [of 5] has_key_get)
  note d = r_fields [OF fits_push_2 [OF f(1)] r(3,2) f(2) r(1) fits_opcodes(13)] fp_fields [OF f(1) r(3,2) f(2) r(1) fits_opcodes(13)]
  have m: "(mn, f3) \<in> set FP_CMP" using e(1) by (rule table_member)
  have "disasm w xl = asm_text mn [xr rd, fr rs1, fr rs2]"
    using m unfolding e(2) disasm_fp_enc [OF f(1) r(3,2) f(2) r(1)] disasm_fp_def Let_def d FP_CMP_def list.set
    by (elim insertE emptyE; simp add: dis_fp_arith_def get_or_def)
  moreover have "asm_fp mn [xr rd, fr rs1, fr rs2] = Some (Inr w)"
    using m r unfolding e(2) FP_CMP_def list.set
    by (elim insertE emptyE; simp add: asm_fp_def reg_arg_def freg_arg_def arg_def has_key_def py_get_def fp_enc
        FP_ARITH_def FP_SGNJ_def FP_MINMAX_def FP_CMP_def del: OP_FP_def)
  ultimately show ?thesis using f(3) r fitsD(1)
    by (intro reads_back_fp_text [where mn = mn and ts = "[xr rd, fr rs1, fr rs2]"]) simp_all
qed

lemma reads_back_fp_move:
  assumes r: "fits 5 rd" "fits 5 rs1"
  shows "reads_back xl (fp_mv_x_w rd rs1)" "reads_back xl (fp_class rd rs1)" "reads_back xl (fp_mv_w_x rd rs1)"
proof -
  have f: "fits 3 (0::int)" "fits 3 (1::int)" "fits 5 (0::int)" "fits 5 FUNCT5_FMV_X_W_FCLASS" "fits 5 FUNCT5_FMV_W_X"
    by (simp_all add: fits_def)
  note k = fits_opcodes(13)
  note dx = r_fields [OF fits_push_2 [OF f(4)] f(3) r(2) f(1) r(1) k] fp_fields [OF f(4,3) r(2) f(1) r(1) k]
  note dc = r_fields [OF fits_push_2 [OF f(4)] f(3) r(2) f(2) r(1) k] fp_fields [OF f(4,3) r(2) f(2) r(1) k]
  note dw = r_fields [OF fits_push_2 [OF f(5)] f(3) r(2) f(1) r(1) k] fp_fields [OF f(5,3) r(2) f(1) r(1) k]
  note defs = asm_fp_def reg_arg_def freg_arg_def arg_def has_key_def FP_ARITH_def FP_SGNJ_def FP_MINMAX_def FP_CMP_def
  have "disasm (fp_mv_x_w rd rs1) xl = asm_text ''fmv.x.w'' [xr rd, fr rs1]"
    unfolding fp_enc disasm_fp_enc [OF f(4,3) r(2) f(1) r(1)] disasm_fp_def Let_def dx by (simp add: dis_fp_arith_def)
  moreover have "asm_fp ''fmv.x.w'' [xr rd, fr rs1] = Some (Inr (fp_mv_x_w rd rs1))" using r by (simp add: defs)
  ultimately show "reads_back xl (fp_mv_x_w rd rs1)" using FP_names r fitsD(1) by (intro reads_back_fp_text) simp_all
  have "disasm (fp_class rd rs1) xl = asm_text ''fclass.s'' [xr rd, fr rs1]"
    unfolding fp_enc disasm_fp_enc [OF f(4,3) r(2) f(2) r(1)] disasm_fp_def Let_def dc by (simp add: dis_fp_arith_def)
  moreover have "asm_fp ''fclass.s'' [xr rd, fr rs1] = Some (Inr (fp_class rd rs1))" using r by (simp add: defs)
  ultimately show "reads_back xl (fp_class rd rs1)" using FP_names r fitsD(1) by (intro reads_back_fp_text) simp_all
  have "disasm (fp_mv_w_x rd rs1) xl = asm_text ''fmv.w.x'' [fr rd, xr rs1]"
    unfolding fp_enc disasm_fp_enc [OF f(5,3) r(2) f(1) r(1)] disasm_fp_def Let_def dw by (simp add: dis_fp_arith_def)
  moreover have "asm_fp ''fmv.w.x'' [fr rd, xr rs1] = Some (Inr (fp_mv_w_x rd rs1))" using r by (simp add: defs)
  ultimately show "reads_back xl (fp_mv_w_x rd rs1)" using FP_names r fitsD(1) by (intro reads_back_fp_text) simp_all
qed

lemma reads_back_madd:
  assumes o: "py_get MADD_OPCODES mn = Inr opc" "parse_rm args k = Inr rm"
    and r: "fits 5 rd" "fits 5 rs1" "fits 5 rs2" "fits 5 rs3"
  shows "reads_back xl (fp_r4_type opc rd rs1 rs2 rs3 rm)"
proof -
  have m: "(mn, opc) \<in> set MADD_OPCODES" using o(1) by (rule table_member)
  have f: "fits 7 opc" "fits 3 rm" "fp_mnemonic mn"
    using other_tables(4) [OF o(1)] parse_rm_range [OF o(2)] fp_name [of mn] o(1) by (auto simp: has_key_get)
  note d = r_fields [OF fits_push_2 [OF r(4)] r(3,2) f(2) r(1) f(1)] fp_fields [OF r(4,3,2) f(2) r(1) f(1)]
  note p = rm_printed [OF o(2)]
  have g: "get_or MADD_NAMES opc [] = mn" "opc \<in> {0b1000011, 0b1000111, 0b1001011, 0b1001111}"
    using m by (auto simp: MADD_OPCODES_def MADD_NAMES_def get_or_def)
  have "disasm (fp_r4_type opc rd rs1 rs2 rs3 rm) xl = asm_text mn [fr rd, fr rs1, fr rs2, fr rs3, rm_name rm]"
  proof -
    have "dec_op (enc_r (push_bit 2 rs3, rs2, rs1, rm, rd, opc)) \<in> {0b1000011, 0b1000111, 0b1001011, 0b1001111}"
      using g(2) d(6) by simp
    from disasm_by_opcode(15) [OF this] show ?thesis unfolding fp_enc by (simp only: disasm_madd_def d g(1))
  qed
  moreover have "asm_fp mn [fr rd, fr rs1, fr rs2, fr rs3, rm_name rm] = Some (Inr (fp_r4_type opc rd rs1 rs2 rs3 rm))"
    using m r p(2) [of 4 "[fr rd, fr rs1, fr rs2, fr rs3, rm_name rm]"] unfolding MADD_OPCODES_def list.set
    by (elim insertE emptyE; simp add: asm_fp_def freg_arg_def arg_def has_key_def py_get_def
        FP_ARITH_def FP_SGNJ_def FP_MINMAX_def FP_CMP_def MADD_OPCODES_def)
  ultimately show ?thesis using f(3) p(1) r fitsD(1)
    by (intro reads_back_fp_text [where mn = mn and ts = "[fr rd, fr rs1, fr rs2, fr rs3, rm_name rm]"]) simp_all
qed


section \<open>Every assembled word\<close>

text \<open>The words the assembler produces, by group of its chain of tests.\<close>

lemma nop_word: "i_type ''addi'' 0 0 (Num 0) 32 = Inr 0x13"
  by (simp add: i_type_def I_TYPE_def py_get_def imm_def u_bits_def)

lemma alu_reads_back: "asm_alu xl mn args = Some (Inr w) \<Longrightarrow> reads_back xl w"
  unfolding asm_alu_def
  by (elim chainE) (auto simp: r_type_enc nop_word reads_back_nop simp del: OP_R_def OP_32_def
      intro: reads_back_r reads_back_r_w reads_back_i reads_back_bext_shamt reads_back_bext_fixed reads_back_rev8 reads_back_i_w
        reads_back_w_fixed reads_back_w_shifts
      dest!: reg_arg_range)

lemma mem_reads_back: "asm_mem labels a mn args = Some (Inr w) \<Longrightarrow> reads_back xl w"
  unfolding asm_mem_def with_mem_def
  by (elim chainE) (auto simp del: OP_LUI_def OP_AUIPC_def
      intro: reads_back_load reads_back_store reads_back_branch reads_back_jal reads_back_jalr
        reads_back_upper [of OP_LUI _ _ _ "''lui''"] reads_back_upper [of OP_AUIPC _ _ _ "''auipc''"]
      dest!: reg_arg_range reg_range)

definition fcsr_access :: "int \<Rightarrow> bool" where
  \<comment> \<open>a CSR instruction on \<open>fflags\<close>, \<open>frm\<close> or \<open>fcsr\<close>\<close>
  "fcsr_access w \<longleftrightarrow> dec_op w = OP_SYSTEM \<and> dec_f3 w \<noteq> 0 \<and> dec_imm12 w \<in> {1, 2, 3}"

lemma csr_reads_back:
  assumes "py_get CSR_OP mn = Inr f3" "fits 5 rd" "fits 5 z" "\<not> fcsr_access (enc_i (take_bit 12 a, z, f3, rd, OP_SYSTEM))"
  shows "reads_back xl (enc_i (take_bit 12 a, z, f3, rd, OP_SYSTEM))"
proof (rule reads_back_csr [OF assms(1) fits_take_bit _ assms(2,3)])
  have "fits 3 f3" "f3 \<noteq> 0" using funct3_tables [OF assms(1)] table_entry [OF assms(1) CSR_OP_names] by auto
  then show "take_bit 12 a \<notin> {1, 2, 3}"
    using assms(4) i_fields [OF fits_take_bit assms(3) _ assms(2) fits_opcodes(10)] by (simp add: fcsr_access_def del: OP_SYSTEM_def)
qed

lemma sys_reads_back:
  assumes a: "asm_sys mn args = Some (Inr w)" and "\<not> fcsr_access w" "mn \<noteq> ''sret''"
    and n: "(mn = ''sfence.vma'') = False" "(mn = ''fence'') = False" "(mn = ''word'') = False"
  shows "reads_back xl w"
  using a assms(2) unfolding asm_sys_def n if_False
  by (elim chainE) (auto simp: system_enc(1,2) imm_unsigned_iff simp del: OP_SYSTEM_def
      intro: csr_reads_back reads_back_system [OF _ assms(3)] dest!: reg_arg_range)

lemma fp_reads_back:
  assumes a: "asm_fp mn args = Some (Inr w)" and n: "(mn = ''.word'') = False"
  shows "reads_back xl w"
  using a unfolding asm_fp_def with_mem_def n if_False
  by (elim chainE) (auto
      intro: reads_back_flw reads_back_fsw reads_back_fp_arith reads_back_fp_rm reads_back_fp_table reads_back_fp_cmp
        reads_back_fp_move reads_back_madd reads_back_aes64ks1i
      dest!: reg_arg_range reg_range)

lemma insn_reads_back:
  assumes "asm_insn labels xl a mn args = Inr w" "\<not> fcsr_access w"
    "mn \<notin> {''word'', ''.word'', ''sret'', ''sfence.vma'', ''fence''}"
  shows "reads_back xl w"
  using assms(1) alu_reads_back [of xl mn args w] mem_reads_back [of labels a mn args w xl]
    sys_reads_back [of mn args w xl, OF _ assms(2)] fp_reads_back [of mn args w xl] assms(3)
  by (auto simp: asm_insn_def split: option.splits)

section \<open>Properties\<close>

definition mnemonic_of :: "string \<Rightarrow> string" where
  "mnemonic_of stmt = py_lower (hd (re_split is_sep stmt))"

text \<open>C11. The disassembler is faithful on assembled code: assembling the text it prints for a word of an
  assembled program gives the same word, at any register width, labels and all. Outside the
  claim are the raw words, the instructions the disassembler has no mnemonic for (\<open>sret\<close>,
  \<open>sfence.vma\<close>, \<open>fence\<close>), and accesses to the three floating-point CSRs.\<close>

theorem disasm_reassembles:
  assumes "assemble lines xl = Inr ws" "i < length ws" "\<not> fcsr_access (ws ! i)"
    "mnemonic_of (statements lines ! i) \<notin> {''word'', ''.word'', ''sret'', ''sfence.vma'', ''fence''}"
  shows "assemble [disasm (ws ! i) xl] xl = Inr [ws ! i]"
proof -
  have l: "length ws = length (statements lines)" using assms(1) by (simp add: assemble_unfold asm_stmts_Inr)
  have "statements lines ! i \<in> set (map clean lines)"
    using nth_mem [of i "statements lines"] assms(2) l unfolding statements_def by auto
  then have "py_strip (statements lines ! i) = statements lines ! i" by auto
  then have "\<exists>args. asm_insn (snd (pass1 lines 0 [] Map.empty)) xl (4 * int i) (mnemonic_of (statements lines ! i)) args = Inr (ws ! i)"
    using assemble_nth [OF assms(1), of i] assms(2) l by (auto simp: asm_stmt_def mnemonic_of_def Let_def)
  then show ?thesis using insn_reads_back [OF _ assms(3,4)] by (auto simp: reads_back_def)
qed

theorem disasm_reassembles_witness:
  "assemble [''top:'', ''addi x1, x0, 5'', ''bne x1,x2,top''] 32 = Inr [0x00500093, 0xFE209EE3] \<and>
   assemble [disasm 0xFE209EE3 32] 32 = Inr [0xFE209EE3]"
proof -
  have a: "assemble [''top:'', ''addi x1, x0, 5'', ''bne x1,x2,top''] 32 = Inr [0x00500093, 0xFE209EE3]" by code_simp
  have "statements [''top:'', ''addi x1, x0, 5'', ''bne x1,x2,top''] ! 1 = ''bne x1,x2,top''" "\<not> fcsr_access 0xFE209EE3"
    "mnemonic_of ''bne x1,x2,top'' = ''bne''" by code_simp+
  then show ?thesis using a disasm_reassembles [OF a, of 1] by simp
qed

lemma dis_fence: "disasm 0x0FF0000F 32 = ''0x0ff0000f?''"
  by (simp add: disasm_def dec_op_def MADD_NAMES_def pad0_def py_hex_def digits.simps digit_char_def char_of_def bit_0)

text \<open>The exceptions are real: \<open>sret\<close>, \<open>fence\<close>, \<open>sfence.vma\<close> and an access to \<open>fcsr\<close> assemble, but
  what the disassembler prints for them is rejected by the assembler.\<close>

theorem disasm_gaps:
  "assemble [''sret''] 32 = Inr [0x10200073] \<and> assemble [disasm 0x10200073 32] 32 = Inl ValueError \<and>
   assemble [''fence''] 32 = Inr [0x0FF0000F] \<and> assemble [disasm 0x0FF0000F 32] 32 = Inl ValueError \<and>
   assemble [''sfence.vma x1, x2''] 32 = Inr [0x12208073] \<and> assemble [disasm 0x12208073 32] 32 = Inl ValueError \<and>
   assemble [''csrrs x5, 3, x0''] 32 = Inr [0x003022F3] \<and> assemble [disasm 0x003022F3 32] 32 = Inl ValueError"
  unfolding dis_fence by (intro conjI; code_simp)

end
