(* ===== verification/Debugger.thy ===== *)
theory Debugger
  imports Iss_Step Py_Text
begin

text \<open>
  The step debugger of \<open>sim/tools/debugger.py\<close>: \<open>load_words\<close>, the class \<open>Debugger\<close> with its
  stepping and running, and the effect of one command line of \<open>repl\<close> on the debugger. What the
  commands print is not modelled; an exception a command raises is.
\<close>

section \<open>Reading a memory image\<close>

text \<open>\<open>load_words\<close> reads text lines of binary digits, four bytes per word, low byte first; a
  trailing group of fewer than four lines is dropped. The two other tools that read memory
  images have the same function.\<close>

fun group_words :: "string list \<Rightarrow> int list result" where
  "group_words (b0 # b1 # b2 # b3 # rest) =
     rbind (py_int2 (b3 @ b2 @ b1 @ b0)) (\<lambda>w. rbind (group_words rest) (\<lambda>ws. Inr (w # ws)))"
| "group_words _ = Inr []"

definition load_words :: "string \<Rightarrow> int list result" where
  "load_words file = group_words (filter (\<lambda>l. l \<noteq> []) (map py_strip (text_lines file)))"

section \<open>The debugger object\<close>

record debugger =
  words :: "int list"
  mem_size :: int
  dbg_xlen :: nat
  breakpoints :: "int set"
  history :: "(int \<times> int) list"
  dbg_iss :: iss

definition dbg_reset :: "debugger \<Rightarrow> debugger" where
  "dbg_reset d = d\<lparr>dbg_iss := iss_init (mem_size d) (dbg_xlen d), history := []\<rparr>"

definition dbg_init :: "int list \<Rightarrow> int \<Rightarrow> nat \<Rightarrow> debugger" where
  "dbg_init ws msize xl =
     dbg_reset \<lparr>words = ws, mem_size = msize, dbg_xlen = xl, breakpoints = {}, history = [],
                dbg_iss = iss_init msize xl\<rparr>"

definition word_at :: "debugger \<Rightarrow> int \<Rightarrow> int" where
  "word_at d p =
     (let idx = p div 4 in if 0 \<le> idx \<and> idx < int (length (words d)) then words d ! nat idx else 0)"

definition at_end :: "debugger \<Rightarrow> bool" where
  "at_end d \<longleftrightarrow> pc (dbg_iss d) \<ge> int (length (words d)) * 4"

definition step_one :: "debugger \<Rightarrow> (debugger \<times> bool) result" where
  "step_one d =
     (if at_end d then Inr (d, False)
      else let word = word_at d (pc (dbg_iss d));
               d = d\<lparr>history := history d @ [(pc (dbg_iss d), word)]\<rparr>
           in rbind (step (dbg_iss d) word) (\<lambda>s. Inr (d\<lparr>dbg_iss := s\<rparr>, True)))"

definition dbg_self_loop :: "int \<Rightarrow> bool" where
  "dbg_self_loop word \<longleftrightarrow>
     word AND 0x7F = 0b1101111 \<and>
     (let b20 = drop_bit 31 word AND 1; b19_12 = drop_bit 12 word AND 0xFF;
          b11 = drop_bit 20 word AND 1; b10_1 = drop_bit 21 word AND 0x3FF;
          off = push_bit 20 b20 OR push_bit 12 b19_12 OR push_bit 11 b11 OR push_bit 1 b10_1;
          off = (if off AND 2 ^ 20 \<noteq> 0 then off - 2 ^ 21 else off)
      in off = 0)"

datatype run_status = End_of_program | Halted | Breakpoint_hit int | Exceeded

function run_until_loop :: "int \<Rightarrow> debugger \<Rightarrow> int \<Rightarrow> (debugger \<times> run_status) result" where
  "run_until_loop max_steps d steps =
     (if steps < max_steps then
        if at_end d then Inr (d, End_of_program)
        else if dbg_self_loop (word_at d (pc (dbg_iss d))) then Inr (d, Halted)
        else if pc (dbg_iss d) \<in> breakpoints d \<and> steps > 0 then Inr (d, Breakpoint_hit (pc (dbg_iss d)))
        else rbind (step_one d) (\<lambda>(d', _). run_until_loop max_steps d' (steps + 1))
      else Inr (d, Exceeded))"
  by pat_completeness auto
termination
  by (relation "measure (\<lambda>(max_steps, d, steps). nat (max_steps - steps))") auto

declare run_until_loop.simps [simp del]

definition run_until :: "debugger \<Rightarrow> int \<Rightarrow> (debugger \<times> run_status) result" where
  "run_until d max_steps = run_until_loop max_steps d 0"

section \<open>Commands\<close>

fun step_many :: "nat \<Rightarrow> debugger \<Rightarrow> debugger result" where
  \<comment> \<open>\<open>for _ in range(n): if not dbg.step_one(): break\<close>\<close>
  "step_many 0 d = Inr d"
| "step_many (Suc n) d = rbind (step_one d) (\<lambda>(d', more). if more then step_many n d' else Inr d')"

definition opt_int :: "string list \<Rightarrow> int \<Rightarrow> int result" where
  \<comment> \<open>\<open>int(args[0]) if args else dflt\<close>\<close>
  "opt_int args dflt = (case args of [] \<Rightarrow> Inr dflt | a # _ \<Rightarrow> py_int10 a)"

datatype repl_result = Running debugger | Quit

definition repl_step :: "debugger \<Rightarrow> string \<Rightarrow> repl_result result" where
  \<comment> \<open>one iteration of the loop, given the line that was read\<close>
  "repl_step d line =
     (case py_split (py_strip line) of
        [] \<Rightarrow> Inr (Running d)
      | cmd # args \<Rightarrow>
          if cmd \<in> {''q'', ''quit'', ''exit''} then Inr Quit
          else if cmd \<in> {''h'', ''help''} then Inr (Running d)
          else if cmd \<in> {''s'', ''step''} then
            rbind (opt_int args 1) (\<lambda>n. rbind (step_many (nat n) d) (\<lambda>d'. Inr (Running d')))
          else if cmd \<in> {''c'', ''continue''} then
            rbind (run_until d 200000) (\<lambda>(d', _). Inr (Running d'))
          else if cmd = ''break'' then
            (if args = [] then Inr (Running d)
             else rbind (py_int0 (hd args)) (\<lambda>a. Inr (Running (d\<lparr>breakpoints := insert a (breakpoints d)\<rparr>))))
          else if cmd = ''delete'' then
            (if args = [] then Inr (Running d)
             else rbind (py_int0 (hd args)) (\<lambda>a. Inr (Running (d\<lparr>breakpoints := breakpoints d - {a}\<rparr>))))
          else if cmd \<in> {''breakpoints'', ''r'', ''regs'', ''csr'', ''pc''} then Inr (Running d)
          else if cmd = ''reg'' then
            (if args = [] then Inr (Running d)
             else rbind (py_int10 (hd args)) (\<lambda>n. if -32 \<le> n \<and> n < 32 then Inr (Running d) else Inl IndexError))
          else if cmd = ''mem'' then
            (if args = [] then Inr (Running d)
             else rbind (py_int0 (hd args)) (\<lambda>_. rbind (opt_int (tl args) 16) (\<lambda>_. Inr (Running d))))
          else if cmd = ''disas'' then rbind (opt_int args 5) (\<lambda>_. Inr (Running d))
          else if cmd = ''restart'' then Inr (Running (dbg_reset d))
          else if cmd = ''history'' then rbind (opt_int args 10) (\<lambda>_. Inr (Running d))
          else Inr (Running d))"

end
