(* ===== verification/Debugger_Props.thy ===== *)
theory Debugger_Props
  imports Iss_Step_Props Asm_Props Debugger
begin

text \<open>
  The debugger: a memory image written by the assembler is read back as the program, and
  running under the debugger is running the simulator.
\<close>

section \<open>Memory images\<close>

definition word_bytes :: "int \<Rightarrow> int list" where
  "word_bytes w = [w AND 0xFF, drop_bit 8 w AND 0xFF, drop_bit 16 w AND 0xFF, drop_bit 24 w AND 0xFF]"

lemma word_bytes_length [simp]: "length (word_bytes w) = 4"
  by (simp add: word_bytes_def)

lemma concat_word_bytes_length [simp]: "length (concat (map word_bytes ws)) = 4 * length ws"
  by (induction ws) auto

lemma update_four:
  assumes "off + 4 \<le> length xs"
  shows "xs[off := a, off + 1 := b, off + 2 := c, off + 3 := d] = take off xs @ [a, b, c, d] @ drop (off + 4) xs"
  using assms by (intro nth_equalityI) (auto simp: nth_append nth_list_update nth_Cons' min_def)

lemma fill_mem_result:
  assumes "length data = sz"
  shows "fill_mem sz i data ws = (if 4 * (i + length ws) \<le> sz \<or> ws = []
     then Inr (take (4 * i) data @ concat (map word_bytes ws) @ drop (4 * (i + length ws)) data) else Inl ValueError)"
  using assms
proof (induction ws arbitrary: i data)
  case (Cons w ws)
  show ?case
  proof (cases "i * 4 + 4 \<le> sz")
    case True
    let ?d = "data[i * 4 := w AND 0xFF, i * 4 + 1 := drop_bit 8 w AND 0xFF, i * 4 + 2 := drop_bit 16 w AND 0xFF,
      i * 4 + 3 := drop_bit 24 w AND 0xFF]"
    have d: "?d = take (i * 4) data @ word_bytes w @ drop (i * 4 + 4) data"
      unfolding word_bytes_def by (rule update_four) (use True Cons.prems in simp)
    have "fill_mem sz i data (w # ws) = fill_mem sz (i + 1) ?d ws" using True by (simp add: Let_def)
    also have "\<dots> = (if 4 * (i + 1 + length ws) \<le> sz \<or> ws = []
       then Inr (take (4 * (i + 1)) ?d @ concat (map word_bytes ws) @ drop (4 * (i + 1 + length ws)) ?d) else Inl ValueError)"
      using Cons.prems by (intro Cons.IH) simp
    also have "\<dots> = (if 4 * (i + length (w # ws)) \<le> sz \<or> w # ws = []
       then Inr (take (4 * i) data @ concat (map word_bytes (w # ws)) @ drop (4 * (i + length (w # ws))) data) else Inl ValueError)"
      unfolding d using True Cons.prems by (auto simp: min_def algebra_simps)
    finally show ?thesis .
  qed (auto simp: Let_def)
qed simp

lemma text_lines_append: "CHR 0x0A \<notin> set l \<Longrightarrow> text_lines (l @ CHR 0x0A # rest) = l # text_lines rest"
  by (induction l) auto

lemma text_lines_concat:
  "\<forall>l \<in> set ls. CHR 0x0A \<notin> set l \<Longrightarrow> text_lines (concat (map (\<lambda>l. l @ [CHR 0x0A]) ls)) = ls"
  by (induction ls) (auto simp: text_lines_append)

section \<open>Binary digits\<close>

lemma int_digits_binary:
  "set s \<subseteq> {CHR ''0'', CHR ''1''} \<Longrightarrow>
    int_digits 2 acc p s = (if p \<or> s \<noteq> [] then Inr (nat (foldl (\<lambda>v c. 2 * v + (if c = CHR ''1'' then 1 else 0)) (int acc) s))
      else Inl ValueError)"
proof (induction s arbitrary: acc p)
  case (Cons c s)
  have d: "digit_val CHR ''0'' = Some 0" "digit_val CHR ''1'' = Some 1" by code_simp+
  from Cons show ?case by (auto simp: d algebra_simps)
qed simp

lemma int_signed_plain:
  assumes "s = c # r" "c \<noteq> CHR ''-''" "c \<noteq> CHR ''+''" "py_strip s = s"
  shows "int_signed b f s = rbind (int_digits b 0 False (f s)) (\<lambda>v. Inr (int v))"
  using assms by (simp add: int_signed_def)

lemma py_int2_binary:
  assumes "set s \<subseteq> {CHR ''0'', CHR ''1''}" "s \<noteq> []"
  shows "py_int2 s = Inr (bin_val s)"
proof -
  have n: "0 \<le> bin_val s"
  proof -
    have "0 \<le> v \<Longrightarrow> 0 \<le> foldl (\<lambda>v c. 2 * v + (if c = CHR ''1'' then 1 else 0)) (v::int) t" for v t
      by (induction t arbitrary: v) auto
    then show ?thesis by (simp add: bin_val_def)
  qed
  have st: "py_strip s = s" by (rule strip_id) (use assms(1) in \<open>auto simp: py_isspace_def\<close>)
  obtain c r where s: "s = c # r" "c \<noteq> CHR ''-''" "c \<noteq> CHR ''+''" using assms by (cases s) auto
  have "py_int2 s = rbind (int_digits 2 0 False s) (\<lambda>v. Inr (int v))"
    unfolding py_int2_def int_signed_plain [OF s st] using assms(1) by (auto split: list.split)
  then show ?thesis using int_digits_binary [OF assms(1), of 0 False] assms(2) n by (simp add: bin_val_def)
qed

lemma bin_val_append: "bin_val (s @ t) = bin_val s * 2 ^ length t + bin_val t"
proof -
  define f where "f v c = 2 * v + (if c = CHR ''1'' then 1 else 0 :: int)" for v and c :: char
  have f: "f a c = 2 * a + f 0 c" for a c by (simp add: f_def)
  have k: "foldl f a t = a * 2 ^ length t + foldl f 0 t" for a
  proof (induction t arbitrary: a)
    case (Cons c t)
    have "foldl f a (c # t) = f a c * 2 ^ length t + foldl f 0 t" by (simp only: foldl_Cons Cons [of "f a c"])
    also have "\<dots> = a * 2 ^ length (c # t) + (f 0 c * 2 ^ length t + foldl f 0 t)"
      unfolding f [of a c] by (simp add: algebra_simps)
    also have "f 0 c * 2 ^ length t + foldl f 0 t = foldl f 0 (c # t)" by (simp only: foldl_Cons Cons [of "f 0 c"])
    finally show ?case .
  qed simp
  have b: "bin_val u = foldl f 0 u" for u by (simp add: bin_val_def f_def [abs_def])
  show ?thesis unfolding b foldl_append by (rule k)
qed

lemma word_of_bytes:
  assumes "fits 32 w"
  shows "(((drop_bit 24 w AND 0xFF) * 2 ^ 8 + (drop_bit 16 w AND 0xFF)) * 2 ^ 8 + (drop_bit 8 w AND 0xFF)) * 2 ^ 8 + (w AND 0xFF) = (w::int)"
proof -
  have "drop_bit n w * 2 ^ 8 + take_bit 8 v = v" if "v = drop_bit m w" "n = m + 8" for n m v
    using that bits_ident [of 8 v] by (simp add: drop_bit_drop_bit push_bit_eq_mult add.commute)
  note r = this [of "drop_bit 16 w" 16 24] this [of "drop_bit 8 w" 8 16] this [of w 0 8]
  have "drop_bit 24 w AND 0xFF = drop_bit 24 w" using fits_drop_bit_minus [OF assms, of 24] by (simp add: mask_simps)
  then show ?thesis using r by (simp add: mask_simps)
qed

lemma group_words_bytes:
  assumes "all_fit 32 ws"
  shows "group_words (map (format_b 8) (concat (map word_bytes ws)) @ rest) = rbind (group_words rest) (\<lambda>ys. Inr (ws @ ys))"
  using assms
proof (induction ws)
  case (Cons w ws)
  let ?b = "\<lambda>n. drop_bit n w AND 0xFF"
  have f: "fits 8 (?b n)" "0 \<le> ?b n" "length (format_b 8 (?b n)) = 8" for n
    by (simp_all add: mask_simps format_b_length)
  have w: "fits 32 w" "all_fit 32 ws" using Cons.prems by (simp_all add: all_fit_def)
  have "py_int2 (format_b 8 (?b 24) @ format_b 8 (?b 16) @ format_b 8 (?b 8) @ format_b 8 (?b 0)) = Inr w"
    using format_b_binary [of 8] f word_of_bytes [OF w(1)] f(3) [of 0]
    by (subst py_int2_binary) (auto simp: bin_val_append bin_val_format_b)
  then show ?case using Cons.IH [OF w(2)] by (cases "group_words rest") (simp_all add: word_bytes_def)
qed (cases "group_words rest", simp_all)

lemma group_words_short: "length l < 4 \<Longrightarrow> group_words l = Inr []"
  by (cases l rule: group_words.cases) auto

lemma group_words_zeros: "group_words (replicate n (format_b 8 0)) = Inr (replicate (n div 4) 0)"
proof (induction n rule: less_induct)
  case (less n)
  have z: "py_int2 (format_b 8 0 @ format_b 8 0 @ format_b 8 0 @ format_b 8 0) = Inr 0" by code_simp
  show ?case
  proof (cases "n < 4")
    case True
    then show ?thesis using group_words_short [of "replicate n (format_b 8 0)"] by simp
  next
    case False
    then obtain m where m: "n = 4 + m" using le_Suc_ex [of 4 n] by auto
    then have "replicate n (format_b 8 0) =
        format_b 8 0 # format_b 8 0 # format_b 8 0 # format_b 8 0 # replicate m (format_b 8 0)"
      by (simp add: numeral_eq_Suc)
    moreover have "replicate (n div 4) (0::int) = 0 # replicate (m div 4) 0" using m by simp
    ultimately show ?thesis using less [of m] z m by simp
  qed
qed


lemma div_diff_four: "(sz - 4 * k) div 4 = sz div 4 - (k::nat)"
proof (cases "4 * k \<le> sz")
  case True
  then obtain r where "sz = 4 * k + r" using le_Suc_ex by blast
  then show ?thesis by simp
qed auto

lemma load_written:
  assumes "all_fit 32 ws" "4 * length ws \<le> sz"
  shows "\<exists>file. write_mem ws sz = Inr file \<and> load_words file = Inr (ws @ replicate (sz div 4 - length ws) 0)"
proof -
  let ?data = "concat (map word_bytes ws) @ replicate (sz - 4 * length ws) 0"
  let ?file = "concat (map (\<lambda>b. format_b 8 b @ [CHR 0x0A]) ?data)"
  have w: "write_mem ws sz = Inr ?file"
    using assms(2) fill_mem_result [of "replicate sz 0" sz 0 ws] by (simp add: write_mem_def)
  have n: "\<forall>l \<in> set (map (format_b 8) ?data). CHR 0x0A \<notin> set l" using format_b_binary [of 8] by fastforce
  have t: "text_lines ?file = map (format_b 8) ?data"
    using text_lines_concat [OF n] by (simp only: map_map comp_def)
  have e: "py_strip (format_b 8 b) = format_b 8 b" for b
    by (rule strip_id) (use format_b_binary [of 8 b] in \<open>auto simp: py_isspace_def\<close>)
  have ne: "format_b 8 b \<noteq> []" for b using bin_digits_nonempty by (simp add: format_b_def Let_def)
  have "load_words ?file = group_words (map (format_b 8) ?data)"
    unfolding load_words_def t map_map comp_def e by (simp add: ne filter_id_conv)
  also have "\<dots> = Inr (ws @ replicate ((sz - 4 * length ws) div 4) 0)"
    using group_words_bytes [OF assms(1), of "map (format_b 8) (replicate (sz - 4 * length ws) 0)"]
      group_words_zeros [of "sz - 4 * length ws"] by (simp add: map_replicate)
  also have "(sz - 4 * length ws) div 4 = sz div 4 - length ws" by (rule div_diff_four)
  finally show ?thesis using w by blast
qed

section \<open>Where a step leaves the program counter\<close>

text \<open>The program counter and the two exception program counters stay within the register width,
  as long as the program is shorter than the address space.\<close>

definition pcs_ok :: "iss \<Rightarrow> bool" where
  "pcs_ok s \<longleftrightarrow> fits (xlen s) (pc s) \<and> fits (xlen s) (csr_at s CSR_MEPC) \<and> fits (xlen s) (csr_at s CSR_SEPC)"

definition advances :: "iss \<Rightarrow> iss result \<Rightarrow> bool" where
  "advances s r \<longleftrightarrow> (\<forall>s'. r = Inr s' \<longrightarrow> (pc s' = pc s + 4 \<or> fits (xlen s) (pc s')) \<and>
     pending_interrupt s' = pending_interrupt s)"

lemma advances_simps [simp]:
  "advances s (Inr s') \<longleftrightarrow> (pc s' = pc s + 4 \<or> fits (xlen s) (pc s')) \<and> pending_interrupt s' = pending_interrupt s"
  "advances s (Inl e)"
  by (simp_all add: advances_def)

lemma advances_if: "(b \<Longrightarrow> advances s x) \<Longrightarrow> (\<not> b \<Longrightarrow> advances s y) \<Longrightarrow> advances s (if b then x else y)"
  by simp

lemma advances_rbind: "(\<And>v. r = Inr v \<Longrightarrow> advances s (f v)) \<Longrightarrow> advances s (rbind r f)"
  by (cases r) auto

lemma pending_frame [simp]:
  "pending_interrupt (wr s rd v) = pending_interrupt s" "pending_interrupt (wr_f s rd v) = pending_interrupt s"
  "pending_interrupt (set_fflags s f) = pending_interrupt s" "pending_interrupt (store_mem_byte s a v) = pending_interrupt s"
  "pending_interrupt (csr_write s a v) = pending_interrupt s" "pending_interrupt (trap s c t) = pending_interrupt s"
  "pending_interrupt (mret s) = pending_interrupt s" "pending_interrupt (sret s) = pending_interrupt s"
  "pending_interrupt (wr_next s rd v) = pending_interrupt s" "pending_interrupt (put_f s rd r) = pending_interrupt s"
  "pending_interrupt (put_x s rd r) = pending_interrupt s"
  by (simp_all add: wr_def wr_f_def set_fflags_def store_mem_byte_def csr_write_def csr_store_def csr_set_def trap_def mret_def
      sret_def wr_next_def put_f_def put_x_def Let_def)

lemma pending_store_bytes [simp]: "pending_interrupt (store_bytes s a v n) = pending_interrupt s"
  unfolding store_bytes_def by (induction n) auto

lemma pc_wr_next [simp]: "pc (wr_next s rd v) = pc s + 4"
  by (simp add: wr_next_def next_pc_def)

lemma trap_pc_fits: "wf_iss s \<Longrightarrow> fits (xlen s) (pc (trap s c t))"
  using trap_vectors [of s c] wf_csr_at(2) [OF wf_issD(6), of s CSR_STVEC] wf_csr_at(2) [OF wf_issD(6), of s CSR_MTVEC]
    wf_issD(1) [of s] fits_mono [of 32 _ "xlen s"] by (cases "trap_to_s s c") auto

lemma advances_translated:
  assumes "wf_iss s" "\<And>pa. advances s (f s (Some pa))" "\<And>s'. f s' None = Inr s'"
  shows "advances s (case translate s va ac of (s', r) \<Rightarrow> f s' r)"
proof -
  obtain s' r where t: "translate s va ac = (s', r)" by fastforce
  then show ?thesis
    using assms mmu.hit [of s va ac s'] mmu.miss [of s va ac s'] trap_pc_fits by (cases r) auto
qed

lemma advances_memory: "wf_iss s \<Longrightarrow> advances s (step_load s w)" "wf_iss s \<Longrightarrow> advances s (step_store s w)"
    "wf_iss s \<Longrightarrow> advances s (step_flw s w)" "wf_iss s \<Longrightarrow> advances s (step_fsw s w)"
  unfolding step_load_def step_store_def step_flw_def step_fsw_def
  by (rule advances_translated; auto intro!: advances_rbind simp: store_value_def next_pc_def split: if_splits)+

lemma advances_system:
  assumes "wf_iss s" "pcs_ok s"
  shows "advances s (step_system s w)"
  using assms trap_pc_fits [OF assms(1)]
  by (auto simp: step_system_def step_priv_def step_csr_def Let_def next_pc_def mret_def sret_def pcs_ok_def)

lemma advances_op_fp: "advances s (step_op_fp s w)"
  unfolding step_op_fp_def
proof (rule advances_rbind)
  fix s' assume "op_fp s w = Inr s'"
  then have "pending_interrupt s' = pending_interrupt s" unfolding op_fp_def Let_def by (auto split: if_splits)
  then show "advances s (Inr (s'\<lparr>pc := next_pc s\<rparr>))" by (simp add: next_pc_def)
qed

lemma advances_step:
  assumes "wf_iss s" "pcs_ok s"
  shows "advances s (step s w)"
  using assms trap_pc_fits [OF assms(1)] unfolding step_def Let_def
  by (intro advances_if advances_memory advances_system advances_op_fp)
    (auto intro!: advances_rbind simp: step_op_def step_op_32_def step_op_imm_def step_op_imm_32_def
      step_branch_def step_jal_def step_jalr_def step_lui_def step_auipc_def step_madd_def Let_def next_pc_def)

lemma csr_write_epc:
  assumes "wf_iss s" "k = CSR_MEPC \<or> k = CSR_SEPC"
  shows "csr_at (csr_write s a v) k = csr_at s k \<or> fits 32 (csr_at (csr_write s a v) k)"
  using assms(2) by (auto simp: csr_write_def csr_store_def csr_set_def Let_def csr_at_def fits_u32)

lemma move_epc:
  assumes "priv_move s s'" "wf_iss s" "pcs_ok s" "k = CSR_MEPC \<or> k = CSR_SEPC"
  shows "fits (xlen s) (csr_at s' k)"
proof -
  have x: "fits 32 v \<Longrightarrow> fits (xlen s) v" for v using wf_issD(1) [OF assms(2)] fits_mono [of 32 v] by auto
  have o: "fits (xlen s) (csr_at s k)" "fits (xlen s) (pc s)" using assms(3,4) by (auto simp: pcs_ok_def)
  have p: "csr_at t k = csr_at t' k" if "plain t t'" for t t' using that by (simp add: plain_def csr_at_def)
  from assms(1) show ?thesis
  proof cases
    case (csr_move a v)
    then show ?thesis using csr_write_epc [OF assms(2,4), of a v] p [of "csr_write s a v" s'] o x by auto
  qed (use o p [of s s'] assms(4) in \<open>auto simp: trap_def mret_def sret_def Let_def\<close>)
qed

lemma step_pcs_ok:
  assumes "step s w = Inr s'" "wf_iss s" "pcs_ok s" "pc s + 4 < 2 ^ xlen s"
  shows "pcs_ok s'"
proof -
  have "xlen s' = xlen s" using step_config [OF assms(1)] by simp
  moreover have "fits (xlen s) (pc s')"
    using advances_step [OF assms(2,3), of w] assms(1,4) wf_issD(7) [OF assms(2)] by (auto simp: fits_def)
  ultimately show ?thesis using move_epc [OF step_move [OF assms(1)] assms(2,3)] by (simp add: pcs_ok_def)
qed

section \<open>Running under the debugger\<close>

inductive prog_exec :: "int list \<Rightarrow> iss \<Rightarrow> iss \<Rightarrow> bool" for ws where
  prog_refl: "prog_exec ws s s"
| prog_step: "0 \<le> pc s \<Longrightarrow> pc s < 4 * int (length ws) \<Longrightarrow> step s (ws ! nat (pc s div 4)) = Inr s' \<Longrightarrow>
    prog_exec ws s' s'' \<Longrightarrow> prog_exec ws s s''"

definition unpaged :: "iss \<Rightarrow> bool" where
  "unpaged s \<longleftrightarrow> xlen s = 64 \<or> priv_mode s = PRIV_M \<or> \<not> bit (csr_at s CSR_SATP) 31"

lemma translate_unpaged: "wf_iss s \<Longrightarrow> unpaged s \<Longrightarrow> translate s va ac = (s, Some (uxlen s va))"
  using translate_rv64_bare [of s va ac] wf_issD(1) [of s]
  by (auto simp: unpaged_def translate_def Let_def and_one_eq bit_iff_odd_drop_bit odd_iff_mod_2_eq_one)

lemma fits_and_mask: "fits n x \<Longrightarrow> x AND (2 ^ n - 1) = (x::int)"
  by (simp add: fits_take_bit_eq take_bit_eq_mask mask_eq_exp_minus_1)

lemma sext_fits: "fits n v \<Longrightarrow> sext v n = (if v AND 2 ^ (n - 1) \<noteq> 0 then v - 2 ^ n else v)"
  by (simp add: sext_def fits_and_mask)

lemma dbg_self_loop_eq: "dbg_self_loop w = self_loop w"
proof -
  let ?o = "push_bit 20 (drop_bit 31 w AND 1) OR push_bit 12 (drop_bit 12 w AND 0xFF) OR
    push_bit 11 (drop_bit 20 w AND 1) OR push_bit 1 (drop_bit 21 w AND 0x3FF)"
  have m: "fits 1 (x AND 1)" "fits 8 (x AND 0xFF)" "fits 10 (x AND 0x3FF)" for x :: int
    by (simp_all add: mask_simps and_1_take_bit)
  have "fits 21 ?o"
    by (intro fits_or fits_push_bit_le [OF m(1)] fits_push_bit_le [OF m(2)] fits_push_bit_le [OF m(3)]) simp_all
  from sext_fits [OF this] show ?thesis
    unfolding dbg_self_loop_def self_loop_def dec_imm_j_def Let_def by (simp only:) simp
qed

lemma word_at_pc: "0 \<le> p \<Longrightarrow> p < 4 * int (length (words d)) \<Longrightarrow> word_at d p = words d ! nat (p div 4)"
  by (auto simp: word_at_def Let_def)

definition run_answer :: "debugger \<Rightarrow> (debugger \<times> run_status) result \<Rightarrow> (iss \<times> int) result" where
  \<comment> \<open>what \<open>ISS.run\<close> answers when the debugger's run answers \<open>r\<close>: the step count is the growth of the history\<close>
  "run_answer d r = (case r of Inl e \<Rightarrow> Inl e
     | Inr (d', st) \<Rightarrow> if st = Exceeded then Inl RuntimeError
        else Inr (dbg_iss d', int (length (history d')) - int (length (history d))))"


lemma run_loop_debugger:
  assumes "wf_iss (dbg_iss d)" "pcs_ok (dbg_iss d)" "pending_interrupt (dbg_iss d) = None" "breakpoints d = {}"
    "4 * int (length (words d)) + 4 \<le> 2 ^ xlen (dbg_iss d)" "\<And>s. prog_exec (words d) (dbg_iss d) s \<Longrightarrow> unpaged s"
  shows "run_loop (words d) max_steps (dbg_iss d) steps =
    Some (case run_until_loop max_steps d steps of Inl e \<Rightarrow> Inl e
      | Inr (d', st) \<Rightarrow> if st = Exceeded then Inl RuntimeError
         else Inr (dbg_iss d', steps + int (length (history d')) - int (length (history d))))"
  using assms
proof (induction max_steps d steps rule: run_until_loop.induct)
  case (1 max_steps d steps)
  let ?s = "dbg_iss d" and ?ws = "words d"
  have up: "unpaged ?s" using 1(7) prog_refl by blast
  have p: "0 \<le> pc ?s" "uxlen ?s (pc ?s) = pc ?s"
    using wf_issD(7) [OF 1(2)] 1(3) by (simp_all add: pcs_ok_def uxlen_def uXLEN_take_bit)
  show ?case
  proof (cases "steps < max_steps \<and> \<not> at_end d \<and> \<not> self_loop (?ws ! nat (pc ?s div 4))")
    case False
    have "\<not> interrupt_due ?s steps" using 1(4) by (simp add: interrupt_due_def)
    show ?thesis
    proof (cases "steps < max_steps")
      case True
      have w: "\<not> at_end d \<Longrightarrow> word_at d (pc ?s) = ?ws ! nat (pc ?s div 4)"
        using word_at_pc [OF p(1), of d] by (simp add: at_end_def mult.commute)
      show ?thesis
        using False True w run_loop_fetch [OF True \<open>\<not> interrupt_due ?s steps\<close>, of "pc ?s" ?ws]
          translate_unpaged [OF 1(2) up, of "pc ?s" Fetch] p(2)
        by (subst run_until_loop.simps) (auto simp: at_end_def dbg_self_loop_eq mult.commute)
    next
      case False
      then show ?thesis by (subst run_until_loop.simps, subst run_loop.simps) simp
    qed
  next
    case True
    then have t: "steps < max_steps" "\<not> at_end d" "\<not> self_loop (?ws ! nat (pc ?s div 4))" by auto
    have b: "pc ?s < 4 * int (length ?ws)" using t(2) by (simp add: at_end_def mult.commute)
    have w: "word_at d (pc ?s) = ?ws ! nat (pc ?s div 4)" by (rule word_at_pc [OF p(1) b])
    have i: "\<not> interrupt_due ?s steps" using 1(4) by (simp add: interrupt_due_def)
    have r: "run_loop ?ws max_steps ?s steps = (case step ?s (?ws ! nat (pc ?s div 4)) of Inl e \<Rightarrow> Some (Inl e)
        | Inr s' \<Rightarrow> run_loop ?ws max_steps s' (steps + 1))"
      using run_loop_fetch [OF t(1) i, of "pc ?s" ?ws] translate_unpaged [OF 1(2) up, of "pc ?s" Fetch] p(2) b t(3)
      by (simp add: mult.commute)
    have u: "run_until_loop max_steps d steps = rbind (step_one d) (\<lambda>(d', _). run_until_loop max_steps d' (steps + 1))"
      using t w 1(5) by (subst run_until_loop.simps) (simp add: dbg_self_loop_eq)
    show ?thesis
    proof (cases "step ?s (?ws ! nat (pc ?s div 4))")
      case (Inl e)
      then show ?thesis unfolding r u using t(2) w by (simp add: step_one_def Let_def)
    next
      case (Inr s')
      define d' where "d' = d\<lparr>history := history d @ [(pc ?s, ?ws ! nat (pc ?s div 4))], dbg_iss := s'\<rparr>"
      have so: "step_one d = Inr (d', True)" using Inr t(2) w by (simp add: step_one_def Let_def d'_def)
      have f: "dbg_iss d' = s'" "words d' = ?ws" "breakpoints d' = breakpoints d" "length (history d') = length (history d) + 1"
        by (simp_all add: d'_def)
      have pc4: "pc ?s + 4 < 2 ^ xlen ?s" using b 1(6) by linarith
      have "xlen s' = xlen ?s" using step_config [OF Inr] by simp
      moreover have "pending_interrupt s' = None" using advances_step [OF 1(2,3), of "?ws ! nat (pc ?s div 4)"] Inr 1(4) by simp
      moreover have "prog_exec ?ws s' t \<Longrightarrow> unpaged t" for t using 1(7) prog_step [OF p(1) b Inr] by blast
      ultimately have "run_loop (words d') max_steps (dbg_iss d') (steps + 1) =
        Some (case run_until_loop max_steps d' (steps + 1) of Inl e \<Rightarrow> Inl e
          | Inr (d'', st) \<Rightarrow> if st = Exceeded then Inl RuntimeError
             else Inr (dbg_iss d'', steps + 1 + int (length (history d'')) - int (length (history d'))))"
        using t w step_wf [OF 1(2) Inr] step_pcs_ok [OF Inr 1(2,3) pc4] 1(5,6) f
        by (intro 1(1)) (simp_all add: so dbg_self_loop_eq)
      then show ?thesis unfolding r u using Inr f so 
        by (cases "run_until_loop max_steps d' (steps + 1)") auto
    qed
  qed
qed

lemma prog_exec_xlen: "prog_exec ws s t \<Longrightarrow> xlen t = xlen s"
  by (induction rule: prog_exec.induct) (auto dest: step_config)

section \<open>Properties\<close>

text \<open>C33. A memory image round trip: the image the assembler writes for a program of 32-bit words is
  read back by \<open>load_words\<close> as the program followed by zero words up to the image's size, and
  writing fails, with a \<open>ValueError\<close>, exactly when the program does not fit.\<close>

theorem image_round_trip:
  assumes "all_fit 32 ws"
  shows "case write_mem ws sz of
      Inr file \<Rightarrow> 4 * length ws \<le> sz \<and> load_words file = Inr (ws @ replicate (sz div 4 - length ws) 0)
    | Inl e \<Rightarrow> sz < 4 * length ws \<and> e = ValueError"
proof (cases "4 * length ws \<le> sz")
  case True
  then show ?thesis using load_written [OF assms True] by auto
next
  case False
  then show ?thesis using fill_mem_result [of "replicate sz 0" sz 0 ws] by (auto simp: write_mem_def)
qed

theorem image_round_trip_witness:
  "\<exists>file. write_mem [0x13, 0xFFFFFFFF] 14 = Inr file \<and> load_words file = Inr [0x13, 0xFFFFFFFF, 0]"
  using image_round_trip [of "[0x13, 0xFFFFFFFF]" 14]
  by (cases "write_mem [0x13, 0xFFFFFFFF] 14") (auto simp: all_fit_def fits_def)

text \<open>C12. Running a program to its end under the debugger is running the simulator: from a
  well-formed state whose \<open>pc\<close> and exception program counters are within the address width, with no
  breakpoint, no pending interrupt and a program below the address space, \<open>continue\<close> answers what \<open>ISS.run\<close> answers: the same final state, the
  same number of steps (the growth of the history), the same exception, and the step limit where
  the debugger reports it exceeded. On RV32 the program must not switch paging on, since the
  debugger fetches without translation.\<close>

theorem debugger_runs_iss:
  assumes "wf_iss (dbg_iss d)" "pcs_ok (dbg_iss d)" "pending_interrupt (dbg_iss d) = None" "breakpoints d = {}"
    "4 * int (length (words d)) + 4 \<le> 2 ^ xlen (dbg_iss d)"
    "xlen (dbg_iss d) = 64 \<or>
      (\<forall>s. prog_exec (words d) (dbg_iss d) s \<longrightarrow> priv_mode s = PRIV_M \<or> \<not> bit (csr_at s CSR_SATP) 31)"
  shows "run (dbg_iss d) (words d) max_steps = Some (run_answer d (run_until d max_steps))"
proof -
  have "unpaged s" if "prog_exec (words d) (dbg_iss d) s" for s
    using assms(6) that prog_exec_xlen [OF that] by (auto simp: unpaged_def)
  from run_loop_debugger [OF assms(1-5) this, of max_steps 0] show ?thesis
    by (cases "run_until_loop max_steps d 0") (auto simp: run_def run_until_def run_answer_def)
qed

theorem debugger_runs_iss_witness:
  "run (iss_init (2 ^ 12) 64) [0x00100093, 0x6F] 100 =
     Some (run_answer (dbg_init [0x00100093, 0x6F] (2 ^ 12) 64) (run_until (dbg_init [0x00100093, 0x6F] (2 ^ 12) 64) 100))"
proof -
  let ?d = "dbg_init [0x00100093, 0x6F] (2 ^ 12) 64"
  have i: "dbg_iss ?d = iss_init (2 ^ 12) 64" "words ?d = [0x00100093, 0x6F]" "breakpoints ?d = {}"
    by (simp_all add: dbg_init_def dbg_reset_def)
  have "pcs_ok (iss_init (2 ^ 12) 64)" by (simp add: pcs_ok_def iss_init_def csr_at_def)
  then show ?thesis
    using debugger_runs_iss [of ?d 100] wf_iss_init [of 12 64] unfolding i by (simp add: iss_init_def)
qed

end
