(* ===== verification/Gen_Dtb.thy ===== *)
theory Gen_Dtb
  imports Prelude
begin

text \<open>
  The device-tree emitter of \<open>sim/tools/gen_dtb.py\<close>: the class \<open>FdtBuilder\<close>, the description of this
  core's hardware, and the self-check \<open>parse_and_validate\<close>. Byte strings are lists of integers
  below 256. \<open>struct.pack\<close> raises \<open>StructError\<close> on a value out of range and \<open>struct.unpack\<close> on a slice of
  the wrong length; encoding a string that is not ASCII raises a \<open>UnicodeEncodeError\<close>, a \<open>ValueError\<close>.
\<close>

section \<open>Byte strings\<close>

definition be_bytes :: "nat \<Rightarrow> int \<Rightarrow> int list" where
  "be_bytes n v = rev (map (\<lambda>i. take_bit 8 (drop_bit (8 * i) v)) [0..<n])"

definition be_value :: "int list \<Rightarrow> int" where
  "be_value bs = foldl (\<lambda>v b. 256 * v + b) 0 bs"

definition pack_I :: "int \<Rightarrow> int list result" where
  \<comment> \<open>\<open>struct.pack(">I", v)\<close>\<close>
  "pack_I v = (if 0 \<le> v \<and> v < 2 ^ 32 then Inr (be_bytes 4 v) else Inl StructError)"

definition pack_Q :: "int \<Rightarrow> int list result" where
  \<comment> \<open>\<open>struct.pack(">Q", v)\<close>\<close>
  "pack_Q v = (if 0 \<le> v \<and> v < 2 ^ 64 then Inr (be_bytes 8 v) else Inl StructError)"

fun pack_all :: "int list \<Rightarrow> int list result" where
  \<comment> \<open>several \<open>I\<close> fields in a row\<close>
  "pack_all [] = Inr []"
| "pack_all (v # vs) = rbind (pack_I v) (\<lambda>b. rbind (pack_all vs) (\<lambda>bs. Inr (b @ bs)))"

definition encode_ascii :: "string \<Rightarrow> int list result" where
  "encode_ascii s = (if list_all (\<lambda>c. (of_char c :: nat) < 128) s then Inr (map of_char s) else Inl ValueError)"

definition slice :: "int list \<Rightarrow> nat \<Rightarrow> nat \<Rightarrow> int list" where
  \<comment> \<open>\<open>data[i:i + n]\<close>\<close>
  "slice data i n = take n (drop i data)"

definition unpack_I :: "int list \<Rightarrow> int result" where
  "unpack_I bs = (if length bs = 4 then Inr (be_value bs) else Inl StructError)"

section \<open>The builder\<close>

definition FDT_MAGIC :: int where [simp]: "FDT_MAGIC = 0xd00dfeed"
definition FDT_VERSION :: int where [simp]: "FDT_VERSION = 17"
definition FDT_LAST_COMP_VERSION :: int where [simp]: "FDT_LAST_COMP_VERSION = 16"
definition FDT_BEGIN_NODE :: int where [simp]: "FDT_BEGIN_NODE = 1"
definition FDT_END_NODE :: int where [simp]: "FDT_END_NODE = 2"
definition FDT_PROP :: int where [simp]: "FDT_PROP = 3"
definition FDT_END :: int where [simp]: "FDT_END = 9"

definition align4 :: "int list \<Rightarrow> int list" where
  "align4 data = data @ replicate (nat ((- int (length data)) mod 4)) 0"

record fdt =
  fdt_struct :: "int list"
  fdt_strings :: "int list"
  string_offsets :: "string \<rightharpoonup> nat"

definition fdt_init :: fdt where
  "fdt_init = \<lparr>fdt_struct = [], fdt_strings = [], string_offsets = Map.empty\<rparr>"

definition string_off :: "fdt \<Rightarrow> string \<Rightarrow> (fdt \<times> nat) result" where
  "string_off f name =
     (case string_offsets f name of
        Some off \<Rightarrow> Inr (f, off)
      | None \<Rightarrow> rbind (encode_ascii name) (\<lambda>b.
          let off = length (fdt_strings f)
          in Inr (f\<lparr>string_offsets := (string_offsets f)(name \<mapsto> off), fdt_strings := fdt_strings f @ b @ [0]\<rparr>, off)))"

definition emit :: "fdt \<Rightarrow> int list \<Rightarrow> fdt" where
  \<comment> \<open>\<open>self._struct += data\<close>\<close>
  "emit f data = f\<lparr>fdt_struct := fdt_struct f @ data\<rparr>"

definition begin_node :: "fdt \<Rightarrow> string \<Rightarrow> fdt result" where
  "begin_node f name =
     rbind (pack_I FDT_BEGIN_NODE) (\<lambda>t. rbind (encode_ascii name) (\<lambda>b. Inr (emit (emit f t) (align4 (b @ [0])))))"

definition end_node :: "fdt \<Rightarrow> fdt result" where
  "end_node f = rbind (pack_I FDT_END_NODE) (\<lambda>t. Inr (emit f t))"

definition prop_raw :: "fdt \<Rightarrow> string \<Rightarrow> int list \<Rightarrow> fdt result" where
  "prop_raw f name val =
     rbind (string_off f name) (\<lambda>(f, off).
     rbind (pack_I FDT_PROP) (\<lambda>t.
     rbind (pack_all [int (length val), int off]) (\<lambda>h.
       Inr (emit (emit (emit f t) h) (align4 val)))))"

definition prop_empty :: "fdt \<Rightarrow> string \<Rightarrow> fdt result" where
  "prop_empty f name = prop_raw f name []"

definition prop_u32 :: "fdt \<Rightarrow> string \<Rightarrow> int \<Rightarrow> fdt result" where
  "prop_u32 f name v = rbind (pack_I (v AND 0xFFFFFFFF)) (\<lambda>b. prop_raw f name b)"

definition prop_u64 :: "fdt \<Rightarrow> string \<Rightarrow> int \<Rightarrow> fdt result" where
  "prop_u64 f name v = rbind (pack_Q (v AND 0xFFFFFFFFFFFFFFFF)) (\<lambda>b. prop_raw f name b)"

definition prop_cells :: "fdt \<Rightarrow> string \<Rightarrow> int list \<Rightarrow> fdt result" where
  "prop_cells f name cells = rbind (pack_all (map (\<lambda>c. c AND 0xFFFFFFFF) cells)) (\<lambda>b. prop_raw f name b)"

definition prop_str :: "fdt \<Rightarrow> string \<Rightarrow> string \<Rightarrow> fdt result" where
  "prop_str f name v = rbind (encode_ascii v) (\<lambda>b. prop_raw f name (b @ [0]))"

fun encode_all :: "string list \<Rightarrow> int list result" where
  "encode_all [] = Inr []"
| "encode_all (v # vs) = rbind (encode_ascii v) (\<lambda>b. rbind (encode_all vs) (\<lambda>bs. Inr (b @ [0] @ bs)))"

definition prop_strlist :: "fdt \<Rightarrow> string \<Rightarrow> string list \<Rightarrow> fdt result" where
  "prop_strlist f name vs = rbind (encode_all vs) (\<lambda>b. prop_raw f name b)"

definition build :: "fdt \<Rightarrow> int list result" where
  "build f =
     rbind (pack_I FDT_END) (\<lambda>t.
     let f = emit f t in
     rbind (pack_Q 0) (\<lambda>q.
     let rsvmap = q @ q;
         off_mem_rsvmap = 40;
         off_dt_struct = off_mem_rsvmap + int (length rsvmap);
         off_dt_strings = off_dt_struct + int (length (fdt_struct f));
         totalsize = off_dt_strings + int (length (fdt_strings f)) in
     rbind (pack_all [FDT_MAGIC, totalsize, off_dt_struct, off_dt_strings, off_mem_rsvmap, FDT_VERSION,
              FDT_LAST_COMP_VERSION, 0, int (length (fdt_strings f)), int (length (fdt_struct f))]) (\<lambda>header.
       Inr (header @ rsvmap @ fdt_struct f @ fdt_strings f))))"

section \<open>The tree of this core\<close>

text \<open>A straight line of builder calls is a list of calls, executed in order.\<close>

datatype fdt_call =
    Begin_node string
  | End_node
  | Prop_empty string
  | Prop_u32 string int
  | Prop_u64 string int
  | Prop_cells string "int list"
  | Prop_str string string
  | Prop_strlist string "string list"

fun do_call :: "fdt \<Rightarrow> fdt_call \<Rightarrow> fdt result" where
  "do_call f (Begin_node n) = begin_node f n"
| "do_call f End_node = end_node f"
| "do_call f (Prop_empty n) = prop_empty f n"
| "do_call f (Prop_u32 n v) = prop_u32 f n v"
| "do_call f (Prop_u64 n v) = prop_u64 f n v"
| "do_call f (Prop_cells n vs) = prop_cells f n vs"
| "do_call f (Prop_str n v) = prop_str f n v"
| "do_call f (Prop_strlist n vs) = prop_strlist f n vs"

fun fdt_calls :: "fdt \<Rightarrow> fdt_call list \<Rightarrow> fdt result" where
  "fdt_calls f [] = Inr f"
| "fdt_calls f (c # cs) = rbind (do_call f c) (\<lambda>f. fdt_calls f cs)"

definition cpu_calls :: "int \<Rightarrow> fdt_call list" where
  "cpu_calls timebase_freq = [
     Begin_node ''cpus'',
     Prop_u32 ''#address-cells'' 1,
     Prop_u32 ''#size-cells'' 0,
     Prop_u32 ''timebase-frequency'' timebase_freq,
     Begin_node ''cpu@0'',
     Prop_u32 ''phandle'' 1,
     Prop_str ''device_type'' ''cpu'',
     Prop_u32 ''reg'' 0,
     Prop_str ''status'' ''okay'',
     Prop_str ''compatible'' ''riscv'',
     Prop_str ''riscv,isa'' ''rv64imafd'',
     Prop_str ''mmu-type'' ''riscv,sv39'',
     Begin_node ''interrupt-controller'',
     Prop_u32 ''#interrupt-cells'' 1,
     Prop_empty ''interrupt-controller'',
     Prop_str ''compatible'' ''riscv,cpu-intc'',
     Prop_u32 ''phandle'' 2,
     End_node,
     End_node,
     End_node]"

definition soc_calls :: "int \<Rightarrow> fdt_call list" where
  "soc_calls uart_clock_freq = [
     Begin_node ''soc'',
     Prop_u32 ''#address-cells'' 2,
     Prop_u32 ''#size-cells'' 2,
     Prop_str ''compatible'' ''simple-bus'',
     Prop_empty ''ranges'',
     Begin_node ''uart@10000000'',
     Prop_str ''compatible'' ''ns16550a'',
     Prop_cells ''reg'' [0, 0x10000000, 0, 0x20],
     Prop_u32 ''clock-frequency'' uart_clock_freq,
     Prop_u32 ''reg-shift'' 2,
     Prop_u32 ''reg-io-width'' 4,
     End_node,
     Begin_node ''clint@10100000'',
     Prop_str ''compatible'' ''riscv,clint0'',
     Prop_cells ''reg'' [0, 0x10100000, 0, 0x10000],
     Prop_cells ''interrupts-extended'' [2, 3, 2, 7],
     End_node,
     End_node]"

definition chosen_calls :: "string \<Rightarrow> int option \<Rightarrow> int option \<Rightarrow> fdt_call list" where
  "chosen_calls bootargs initrd_start initrd_end =
     [Begin_node ''chosen'',
      Prop_str ''bootargs'' bootargs,
      Prop_str ''stdout-path'' ''/soc/uart@10000000''] @
     (case (initrd_start, initrd_end) of
        (Some a, Some e) \<Rightarrow>
          [Prop_cells ''linux,initrd-start'' [drop_bit 32 a, a AND 0xFFFFFFFF],
           Prop_cells ''linux,initrd-end'' [drop_bit 32 e, e AND 0xFFFFFFFF]]
      | _ \<Rightarrow> []) @
     [End_node]"

definition core_calls :: "int \<Rightarrow> int \<Rightarrow> int \<Rightarrow> string \<Rightarrow> int option \<Rightarrow> int option \<Rightarrow> fdt_call list" where
  "core_calls mem_size_bytes timebase_freq uart_clock_freq bootargs initrd_start initrd_end =
     [Begin_node '''',
      Prop_u32 ''#address-cells'' 2,
      Prop_u32 ''#size-cells'' 2,
      Prop_str ''compatible'' ''5-stage-pipelined-processor'',
      Prop_str ''model'' ''5-stage-pipelined-processor,rv64''] @
     cpu_calls timebase_freq @
     [Begin_node ''memory@0'',
      Prop_str ''device_type'' ''memory'',
      Prop_cells ''reg'' [0, 0, 0, mem_size_bytes],
      End_node] @
     soc_calls uart_clock_freq @
     chosen_calls bootargs initrd_start initrd_end @
     [End_node]"

definition build_this_core_dtb :: "int \<Rightarrow> int \<Rightarrow> int \<Rightarrow> string \<Rightarrow> int option \<Rightarrow> int option \<Rightarrow> int list result" where
  "build_this_core_dtb mem_size_bytes timebase_freq uart_clock_freq bootargs initrd_start initrd_end =
     rbind (fdt_calls fdt_init (core_calls mem_size_bytes timebase_freq uart_clock_freq bootargs initrd_start initrd_end)) build"

section \<open>The self-check\<close>

record fdt_info =
  max_depth :: int
  prop_count :: int
  totalsize :: int

definition assert_that :: "bool \<Rightarrow> 'a result \<Rightarrow> 'a result" where
  "assert_that b r = (if b then r else Inl AssertionError)"

definition index_nul :: "int list \<Rightarrow> nat \<Rightarrow> nat result" where
  \<comment> \<open>\<open>data.index(b"\x00", i)\<close>\<close>
  "index_nul data i =
     (if 0 \<in> set (drop i data) then Inr (i + length (takeWhile (\<lambda>b. b \<noteq> 0) (drop i data))) else Inl ValueError)"

definition round_up4 :: "int \<Rightarrow> int" where
  \<comment> \<open>\<open>(n + 3) & ~3\<close>\<close>
  "round_up4 n = (n + 3) AND NOT 3"

function parse_loop :: "int list \<Rightarrow> int list \<Rightarrow> nat \<Rightarrow> int \<Rightarrow> int \<Rightarrow> int \<Rightarrow> (int \<times> int \<times> int \<times> bool) result" where
  \<comment> \<open>depth, maximal depth, property count and whether \<open>FDT_END\<close> was seen, when the loop ends\<close>
  "parse_loop sb strs i depth mx props =
     (if i < length sb then
        case unpack_I (slice sb i 4) of
          Inl e \<Rightarrow> Inl e
        | Inr tok \<Rightarrow>
            if tok = FDT_BEGIN_NODE then
              (case index_nul sb (i + 4) of
                 Inl e \<Rightarrow> Inl e
               | Inr en \<Rightarrow>
                   parse_loop sb strs (i + 4 + nat (round_up4 (int en - int (i + 4) + 1))) (depth + 1) (max mx (depth + 1)) props)
            else if tok = FDT_END_NODE then
              (if depth - 1 \<ge> 0 then parse_loop sb strs (i + 4) (depth - 1) mx props else Inl AssertionError)
            else if tok = FDT_PROP then
              (case unpack_I (slice sb (i + 4) 4) of
                 Inl e \<Rightarrow> Inl e
               | Inr plen \<Rightarrow>
                   (case unpack_I (slice sb (i + 8) 4) of
                      Inl e \<Rightarrow> Inl e
                    | Inr nameoff \<Rightarrow>
                        if nameoff < int (length strs)
                        then parse_loop sb strs (i + 12 + nat (round_up4 plen)) depth mx (props + 1)
                        else Inl AssertionError))
            else if tok = FDT_END then Inr (depth, mx, props, True)
            else Inl AssertionError
      else Inr (depth, mx, props, False))"
  by pat_completeness auto
termination
  by (relation "measure (\<lambda>(sb, strs, i, depth, mx, props). length sb - i)") auto

declare parse_loop.simps [simp del]

definition be32 :: "int list \<Rightarrow> nat \<Rightarrow> int" where
  \<comment> \<open>a field of the header\<close>
  "be32 blob k = be_value (slice blob (4 * k) 4)"

definition parse_and_validate :: "int list \<Rightarrow> fdt_info result" where
  "parse_and_validate blob =
     (if length blob < 40 then Inl StructError
      else let magic = be32 blob 0; total = be32 blob 1; off_struct = be32 blob 2; off_strings = be32 blob 3;
               off_rsvmap = be32 blob 4; size_strings = be32 blob 8; size_struct = be32 blob 9 in
      assert_that (magic = FDT_MAGIC) (
      assert_that (total = int (length blob)) (
      assert_that (off_rsvmap = 40) (
      assert_that (off_struct = off_rsvmap + 16) (
      assert_that (off_strings = off_struct + size_struct) (
      assert_that (off_strings + size_strings = total) (
        let rsv = slice blob (nat off_rsvmap) 16 in
        if length rsv \<noteq> 16 then Inl StructError
        else assert_that (be_value (take 8 rsv) = 0 \<and> be_value (drop 8 rsv) = 0) (
          rbind (parse_loop (slice blob (nat off_struct) (nat size_struct)) (slice blob (nat off_strings) (nat size_strings)) 0 0 0 0)
            (\<lambda>(depth, mx, props, saw_end).
               assert_that (depth = 0) (
               assert_that saw_end (
               assert_that (mx \<ge> 2) (
               assert_that (props > 0) (
                 Inr \<lparr>max_depth = mx, prop_count = props, totalsize = total\<rparr>)))))))))))))"

end
