(* ===== verification/Gen_Dtb_Props.thy ===== *)
theory Gen_Dtb_Props
  imports Gen_Dtb
begin

text \<open>
  The device-tree emitter is correct: a list of builder calls with balanced nodes, ASCII names and a
  bounded total size always builds, the blob passes the source's own \<open>parse_and_validate\<close> with exactly the
  depth and property count of the calls, and reading the structure and strings blocks back with an
  independent reader gives the nodes, property names and property values that were passed in.
\<close>

section \<open>Big-endian fields and padding\<close>

lemma length_be_bytes [simp]: "length (be_bytes n v) = n"
  by (simp add: be_bytes_def)

lemma be_bytes_Suc: "be_bytes (Suc n) v = take_bit 8 (drop_bit (8 * n) v) # be_bytes n v"
  by (simp add: be_bytes_def)

lemma be_fold: "foldl (\<lambda>v b. 256 * v + b) a (be_bytes n v) = a * 2 ^ (8 * n) + take_bit (8 * n) v"
proof (induction n arbitrary: a)
  case (Suc n)
  have "take_bit (8 * Suc n) v = take_bit 8 (drop_bit (8 * n) v) * 2 ^ (8 * n) + take_bit (8 * n) v"
    using zmod_zmult2_eq [of 256 v "2 ^ (8 * n)"]
    by (simp add: take_bit_eq_mod drop_bit_eq_div power_add mult.commute)
  then show ?case by (simp add: be_bytes_Suc Suc) (simp add: algebra_simps power_add)
qed (simp add: be_bytes_def)

lemma be_value_be_bytes: "be_value (be_bytes n v) = take_bit (8 * n) v"
  by (simp add: be_value_def be_fold)

lemma be_value_be_bytes_4 [simp]: "0 \<le> v \<Longrightarrow> v < 2 ^ 32 \<Longrightarrow> be_value (be_bytes 4 v) = v"
  by (simp add: be_value_be_bytes take_bit_int_eq_self)

lemma pack_I_ok [simp]: "0 \<le> v \<Longrightarrow> v < 2 ^ 32 \<Longrightarrow> pack_I v = Inr (be_bytes 4 v)"
  by (simp add: pack_I_def)

lemma pack_all_ok: "\<forall>v \<in> set vs. 0 \<le> v \<and> v < 2 ^ 32 \<Longrightarrow> pack_all vs = Inr (concat (map (be_bytes 4) vs))"
  by (induction vs) auto

lemma and_u32: "(v::int) AND 0xFFFFFFFF = take_bit 32 v"
  by (simp add: take_bit_eq_mask mask_eq_exp_minus_1)

lemma u32_range [simp]: "take_bit 32 (v::int) < 4294967296"
  using take_bit_int_less_exp [of 32 v] by simp

lemma round_up4_eq: "round_up4 n = 4 * ((n + 3) div 4)"
proof -
  have "x AND NOT (mask 2) = push_bit 2 (drop_bit 2 x)" for x :: int
    by (rule bit_eqI) (auto simp: bit_simps simp flip: numeral_2_eq_2 add_2_eq_Suc)
  from this [of "n + 3"] show ?thesis
    by (simp add: round_up4_def mask_eq_exp_minus_1 push_bit_eq_mult drop_bit_eq_div)
qed

lemma length_align4: "int (length (align4 d)) = round_up4 (int (length d))"
proof -
  have "(- x) mod 4 = 4 * ((x + 3) div 4) - x" "x \<le> 4 * ((x + 3) div 4)" for x :: int by presburger+
  then show ?thesis by (simp add: align4_def round_up4_eq)
qed

lemma length_align4_nat: "nat (round_up4 (int (length d))) = length (align4 d)"
  by (simp flip: length_align4)

lemma length_align4_le: "length d \<le> length (align4 d)" "length (align4 d) \<le> length d + 3"
proof -
  show "length d \<le> length (align4 d)" by (simp add: align4_def)
  have "(- int (length d)) mod 4 < 4" by simp
  then show "length (align4 d) \<le> length d + 3" by (simp add: align4_def nat_le_iff)
qed

lemma slice_at [simp]: "n = length x \<Longrightarrow> slice (pre @ x @ rest) (length pre) n = x"
  by (simp add: slice_def)

lemma slice_at_end [simp]: "n = length x \<Longrightarrow> slice (pre @ x) (length pre) n = x"
  by (simp add: slice_def)

lemma drop_at [simp]: "drop (length pre + n) (pre @ x) = drop n x"
  by simp

section \<open>What a call means\<close>

fun call_name :: "fdt_call \<Rightarrow> string" where
  "call_name (Begin_node n) = n"
| "call_name End_node = []"
| "call_name (Prop_empty n) = n"
| "call_name (Prop_u32 n v) = n"
| "call_name (Prop_u64 n v) = n"
| "call_name (Prop_cells n vs) = n"
| "call_name (Prop_str n v) = n"
| "call_name (Prop_strlist n vs) = n"

fun call_value :: "fdt_call \<Rightarrow> int list" where
  "call_value (Prop_u32 n v) = be_bytes 4 (take_bit 32 v)"
| "call_value (Prop_u64 n v) = be_bytes 8 (take_bit 64 v)"
| "call_value (Prop_cells n vs) = concat (map (\<lambda>v. be_bytes 4 (take_bit 32 v)) vs)"
| "call_value (Prop_str n v) = map of_char v @ [0]"
| "call_value (Prop_strlist n vs) = concat (map (\<lambda>v. map of_char v @ [0]) vs)"
| "call_value c = []"

fun is_prop :: "fdt_call \<Rightarrow> bool" where
  "is_prop (Begin_node n) = False"
| "is_prop End_node = False"
| "is_prop c = True"

definition ascii :: "string \<Rightarrow> bool" where
  "ascii s \<longleftrightarrow> list_all (\<lambda>c. (of_char c :: nat) < 128) s"

definition node_name :: "string \<Rightarrow> bool" where
  "node_name s \<longleftrightarrow> ascii s \<and> CHR 0x00 \<notin> set s"

fun call_ok :: "fdt_call \<Rightarrow> bool" where
  "call_ok (Prop_str n v) = (node_name n \<and> ascii v)"
| "call_ok (Prop_strlist n vs) = (node_name n \<and> list_all ascii vs)"
| "call_ok c = node_name (call_name c)"

definition call_size :: "fdt_call \<Rightarrow> nat" where
  \<comment> \<open>a bound on the bytes a call adds to the two blocks\<close>
  "call_size c = 19 + 2 * length (call_name c) + length (call_value c)"

fun calls_shape :: "int \<times> int \<times> int \<Rightarrow> fdt_call list \<Rightarrow> (int \<times> int \<times> int) option" where
  \<comment> \<open>depth, maximal depth and number of properties after the calls, if no node is closed twice\<close>
  "calls_shape (d, mx, p) [] = Some (d, mx, p)"
| "calls_shape (d, mx, p) (Begin_node n # cs) = calls_shape (d + 1, max mx (d + 1), p) cs"
| "calls_shape (d, mx, p) (End_node # cs) = (if d > 0 then calls_shape (d - 1, mx, p) cs else None)"
| "calls_shape (d, mx, p) (c # cs) = calls_shape (d, mx, p + 1) cs"

definition name_bytes :: "string \<Rightarrow> int list" where
  "name_bytes s = map of_char s"

lemma length_name_bytes [simp]: "length (name_bytes s) = length s"
  by (simp add: name_bytes_def)

lemma name_bytes_nul: "node_name s \<Longrightarrow> 0 \<notin> set (name_bytes s)"
proof -
  have "c = CHR 0x00" if "(of_char c :: int) = 0" for c
    by (rule of_char_eqI) (use that in simp)
  then show "node_name s \<Longrightarrow> 0 \<notin> set (name_bytes s)" by (force simp: node_name_def name_bytes_def)
qed

lemma encode_ascii_ok: "ascii s \<Longrightarrow> encode_ascii s = Inr (name_bytes s)"
  by (simp add: encode_ascii_def ascii_def name_bytes_def)

section \<open>What a call does\<close>

lemma encode_all_ok: "list_all ascii vs \<Longrightarrow> encode_all vs = Inr (concat (map (\<lambda>v. map of_char v @ [0]) vs))"
  by (induction vs) (simp_all add: encode_ascii_ok name_bytes_def)

lemma pack_Q_masked: "pack_Q (v AND 0xFFFFFFFFFFFFFFFF) = Inr (be_bytes 8 (take_bit 64 v))"
proof -
  have "v AND 0xFFFFFFFFFFFFFFFF = take_bit 64 v" by (simp add: take_bit_eq_mask mask_eq_exp_minus_1)
  then show ?thesis using take_bit_int_less_exp [of 64 v] by (simp add: pack_Q_def)
qed

lemma do_prop: "is_prop c \<Longrightarrow> call_ok c \<Longrightarrow> do_call f c = prop_raw f (call_name c) (call_value c)"
  by (cases c)
    (auto simp: prop_empty_def prop_u32_def prop_u64_def prop_cells_def prop_str_def prop_strlist_def and_u32 pack_all_ok comp_def
      encode_ascii_ok encode_all_ok pack_Q_masked name_bytes_def)

lemma call_ok_name: "call_ok c \<Longrightarrow> node_name (call_name c)"
  by (cases c) auto

lemma node_nameD: "node_name s \<Longrightarrow> ascii s"
  by (simp add: node_name_def)

definition name_here :: "int list \<Rightarrow> string \<Rightarrow> nat \<Rightarrow> bool" where
  \<comment> \<open>a name and its terminator stand at an offset of the strings block\<close>
  "name_here strs n off \<longleftrightarrow> (\<exists>a b. strs = a @ name_bytes n @ [0] @ b \<and> length a = off)"

definition names_at :: "fdt \<Rightarrow> bool" where
  \<comment> \<open>every interned name is in the strings block at its offset\<close>
  "names_at f \<longleftrightarrow> (\<forall>n off. string_offsets f n = Some off \<longrightarrow> name_here (fdt_strings f) n off)"

lemma name_here_extend: "name_here strs n off \<Longrightarrow> name_here (strs @ e) n off"
  unfolding name_here_def by (metis append.assoc)

lemma name_here_new: "name_here (strs @ name_bytes n @ [0]) n (length strs)"
  unfolding name_here_def by (intro exI [of _ strs] exI [of _ "[]"]) simp

lemma name_here_less: "name_here strs n off \<Longrightarrow> off + length n < length strs"
  by (auto simp: name_here_def)

lemma names_at_init: "names_at fdt_init"
  by (simp add: names_at_def fdt_init_def)

lemma names_at_emit [simp]: "names_at (emit f d) = names_at f"
  by (simp add: names_at_def emit_def)

lemma names_at_intern:
  "names_at f \<Longrightarrow> names_at (f\<lparr>string_offsets := (string_offsets f)(n \<mapsto> length (fdt_strings f)),
     fdt_strings := fdt_strings f @ name_bytes n @ [0]\<rparr>)"
  by (simp add: names_at_def name_here_new name_here_extend)

lemma string_off_ok:
  assumes "names_at f" "node_name n"
  obtains f' off e where "string_off f n = Inr (f', off)" "names_at f'" "fdt_struct f' = fdt_struct f"
    "name_here (fdt_strings f') n off" "fdt_strings f' = fdt_strings f @ e" "length e \<le> length n + 1"
proof (cases "string_offsets f n")
  case None
  let ?f = "f\<lparr>string_offsets := (string_offsets f)(n \<mapsto> length (fdt_strings f)),
    fdt_strings := fdt_strings f @ name_bytes n @ [0]\<rparr>"
  show ?thesis
    by (rule that [of ?f "length (fdt_strings f)" "name_bytes n @ [0]"])
      (use None assms names_at_intern [of f n] name_here_new [of "fdt_strings f" n]
        in \<open>simp_all add: string_off_def encode_ascii_ok node_nameD Let_def\<close>)
next
  case (Some off)
  then show ?thesis
    by (intro that [of f off "[]"]) (use assms(1) in \<open>simp_all add: string_off_def names_at_def\<close>)
qed

fun chunk :: "fdt_call \<Rightarrow> nat \<Rightarrow> int list" where
  \<comment> \<open>the tokens of a call, its name being at an offset of the strings block\<close>
  "chunk (Begin_node n) off = be_bytes 4 FDT_BEGIN_NODE @ align4 (name_bytes n @ [0])"
| "chunk End_node off = be_bytes 4 FDT_END_NODE"
| "chunk c off = be_bytes 4 FDT_PROP @ be_bytes 4 (int (length (call_value c))) @ be_bytes 4 (int off) @ align4 (call_value c)"

definition encodes :: "int list \<Rightarrow> fdt_call \<Rightarrow> int list \<Rightarrow> bool" where
  "encodes strs c bs \<longleftrightarrow> call_ok c \<and> (\<exists>off. bs = chunk c off \<and>
     (is_prop c \<longrightarrow> name_here strs (call_name c) off \<and> off < 2 ^ 32 \<and> length (call_value c) < 2 ^ 32))"

lemma chunk_prop: "is_prop c \<Longrightarrow> chunk c off =
    be_bytes 4 FDT_PROP @ be_bytes 4 (int (length (call_value c))) @ be_bytes 4 (int off) @ align4 (call_value c)"
  by (cases c) simp_all

lemma encodes_extend: "encodes strs c bs \<Longrightarrow> encodes (strs @ e) c bs"
  unfolding encodes_def using name_here_extend by blast

lemma prop_raw_ok:
  assumes "names_at f" "node_name n" "length (fdt_strings f) + length n + length v + 1 < 2 ^ 32"
  obtains f' off e where "prop_raw f n v = Inr f'" "names_at f'" "fdt_strings f' = fdt_strings f @ e"
    "length e \<le> length n + 1" "name_here (fdt_strings f') n off" "off < 2 ^ 32"
    "fdt_struct f' = fdt_struct f @ be_bytes 4 FDT_PROP @ be_bytes 4 (int (length v)) @ be_bytes 4 (int off) @ align4 v"
proof -
  obtain f1 off e where 1: "string_off f n = Inr (f1, off)" "names_at f1" "fdt_struct f1 = fdt_struct f"
    "name_here (fdt_strings f1) n off" "fdt_strings f1 = fdt_strings f @ e" "length e \<le> length n + 1"
    by (rule string_off_ok [OF assms(1,2)])
  have off: "off < 2 ^ 32" using name_here_less [OF 1(4)] 1(5,6) assms(3) by simp
  let ?f = "emit (emit (emit f1 (be_bytes 4 FDT_PROP)) (be_bytes 4 (int (length v)) @ be_bytes 4 (int off))) (align4 v)"
  have "prop_raw f n v = Inr ?f" using 1(1) off assms(3) by (simp add: prop_raw_def)
  then show ?thesis using 1 off by (intro that [of ?f e off]) (simp_all add: emit_def names_at_def)
qed

lemma begin_end_ok:
  "node_name n \<Longrightarrow> do_call f (Begin_node n) = Inr (emit f (chunk (Begin_node n) off))"
  "do_call f End_node = Inr (emit f (chunk End_node off))"
  by (simp_all add: begin_node_def end_node_def emit_def encode_ascii_ok node_nameD)

lemma call_effect:
  assumes "names_at f" "call_ok c" "length (fdt_strings f) + call_size c < 2 ^ 32"
  shows "\<exists>f' bs e. do_call f c = Inr f' \<and> names_at f' \<and> fdt_strings f' = fdt_strings f @ e \<and>
    fdt_struct f' = fdt_struct f @ bs \<and> encodes (fdt_strings f') c bs \<and> length bs + length e \<le> call_size c"
proof (cases "is_prop c")
  case True
  have n: "node_name (call_name c)" by (rule call_ok_name [OF assms(2)])
  obtain f' off e where e: "prop_raw f (call_name c) (call_value c) = Inr f'" "names_at f'"
    "fdt_strings f' = fdt_strings f @ e" "length e \<le> length (call_name c) + 1"
    "name_here (fdt_strings f') (call_name c) off" "off < 2 ^ 32" "fdt_struct f' = fdt_struct f @ chunk c off"
    by (rule prop_raw_ok [OF assms(1) n, of "call_value c"])
      (use assms(3) True in \<open>auto simp: call_size_def chunk_prop\<close>)
  have "encodes (fdt_strings f') c (chunk c off)"
    using e(5,6) assms(2,3) by (auto simp: encodes_def call_size_def)
  moreover have "length (chunk c off) + length e \<le> call_size c"
    using True e(4) length_align4_le(2) [of "call_value c"] by (simp add: chunk_prop call_size_def)
  ultimately show ?thesis using e do_prop [OF True assms(2), of f] by auto
next
  case False
  then have "do_call f c = Inr (emit f (chunk c 0))"
    using assms(2) begin_end_ok(1) [of _ f 0] begin_end_ok(2) [of f 0] by (cases c) (auto simp del: do_call.simps chunk.simps)
  moreover have "encodes (fdt_strings f) c (chunk c 0)"
    unfolding encodes_def using False assms(2) by blast
  moreover have "length (chunk c 0) \<le> call_size c"
    using False length_align4_le(2) [of "name_bytes (call_name c) @ [0]"] by (cases c) (auto simp: call_size_def)
  ultimately show ?thesis using assms(1) by (auto simp: emit_def names_at_def)
qed

lemma calls_effect:
  "names_at f \<Longrightarrow> list_all call_ok cs \<Longrightarrow> length (fdt_strings f) + sum_list (map call_size cs) < 2 ^ 32 \<Longrightarrow>
   \<exists>f' bss e. fdt_calls f cs = Inr f' \<and> names_at f' \<and> fdt_strings f' = fdt_strings f @ e \<and>
     fdt_struct f' = fdt_struct f @ concat bss \<and> list_all2 (encodes (fdt_strings f')) cs bss \<and>
     length (concat bss) + length e \<le> sum_list (map call_size cs)"
proof (induction cs arbitrary: f)
  case (Cons c cs)
  obtain f1 bs e where 1: "do_call f c = Inr f1" "names_at f1" "fdt_strings f1 = fdt_strings f @ e"
    "fdt_struct f1 = fdt_struct f @ bs" "encodes (fdt_strings f1) c bs" "length bs + length e \<le> call_size c"
    using call_effect [of f c] Cons.prems by auto
  obtain f2 bss e' where 2: "fdt_calls f1 cs = Inr f2" "names_at f2" "fdt_strings f2 = fdt_strings f1 @ e'"
    "fdt_struct f2 = fdt_struct f1 @ concat bss" "list_all2 (encodes (fdt_strings f2)) cs bss"
    "length (concat bss) + length e' \<le> sum_list (map call_size cs)"
    using Cons.IH [of f1] 1 Cons.prems by auto
  show ?case
    by (intro exI [of _ f2] exI [of _ "bs # bss"] exI [of _ "e @ e'"])
      (use 1 2 encodes_extend [OF 1(5), of e'] in auto)
qed auto

section \<open>Reading the blob\<close>

lemma takeWhile_nul [simp]: "0 \<notin> set nm \<Longrightarrow> takeWhile (\<lambda>b. b \<noteq> 0) (nm @ 0 # r) = nm"
  by (induction nm) auto

lemma index_nul_name:
  "0 \<notin> set nm \<Longrightarrow> index_nul (pre @ align4 (nm @ [0]) @ rest) (length pre) = Inr (length pre + length nm)"
  by (simp add: index_nul_def align4_def)

lemma unpack_field [simp]: "unpack_I (be_bytes 4 v) = Inr (be_value (be_bytes 4 v))"
  by (simp add: unpack_I_def)

lemma parse_begin:
  assumes "0 \<notin> set nm"
  shows "parse_loop (pre @ be_bytes 4 FDT_BEGIN_NODE @ align4 (nm @ [0]) @ rest) strs (length pre) d mx p =
    parse_loop (pre @ be_bytes 4 FDT_BEGIN_NODE @ align4 (nm @ [0]) @ rest) strs
      (length (pre @ be_bytes 4 FDT_BEGIN_NODE @ align4 (nm @ [0]))) (d + 1) (max mx (d + 1)) p"
    (is "parse_loop ?sb _ _ _ _ _ = _")
proof -
  have "slice ?sb (length pre) 4 = be_bytes 4 FDT_BEGIN_NODE" by (rule slice_at) simp
  moreover have "index_nul ?sb (length pre + 4) = Inr (length pre + 4 + length nm)"
    using index_nul_name [OF assms, of "pre @ be_bytes 4 FDT_BEGIN_NODE" rest] by simp
  moreover have "nat (round_up4 (int (length nm) + 1)) = length (align4 (nm @ [0]))"
    using length_align4_nat [of "nm @ [0]"] by (simp add: add.commute)
  ultimately show ?thesis by (subst parse_loop.simps) (simp add: algebra_simps)
qed

lemma parse_end:
  assumes "d > 0"
  shows "parse_loop (pre @ be_bytes 4 FDT_END_NODE @ rest) strs (length pre) d mx p =
    parse_loop (pre @ be_bytes 4 FDT_END_NODE @ rest) strs (length (pre @ be_bytes 4 FDT_END_NODE)) (d - 1) mx p"
  using assms by (subst parse_loop.simps) simp

lemma prop_fields:
  fixes pre v rest :: "int list" and off
  defines "sb \<equiv> pre @ (be_bytes 4 FDT_PROP @ be_bytes 4 (int (length v)) @ be_bytes 4 (int off) @ align4 v) @ rest"
  shows "slice sb (length pre) 4 = be_bytes 4 FDT_PROP"
    and "slice sb (length pre + 4) 4 = be_bytes 4 (int (length v))"
    and "slice sb (length pre + 8) 4 = be_bytes 4 (int off)"
  by (simp_all add: slice_def sb_def)

lemma parse_prop:
  fixes v :: "int list"
  assumes "off < length strs" "off < 2 ^ 32" "length v < 2 ^ 32"
  shows "parse_loop (pre @ (be_bytes 4 FDT_PROP @ be_bytes 4 (int (length v)) @ be_bytes 4 (int off) @ align4 v) @ rest) strs (length pre) d mx p =
    parse_loop (pre @ (be_bytes 4 FDT_PROP @ be_bytes 4 (int (length v)) @ be_bytes 4 (int off) @ align4 v) @ rest) strs
      (length (pre @ be_bytes 4 FDT_PROP @ be_bytes 4 (int (length v)) @ be_bytes 4 (int off) @ align4 v)) d mx (p + 1)"
  using assms prop_fields [of pre v off rest]
  by (subst parse_loop.simps) (simp add: length_align4_nat algebra_simps)

lemma parse_chunk:
  assumes "encodes strs c bs" "calls_shape (d, mx, p) [c] = Some (d', mx', p')"
  shows "parse_loop (pre @ bs @ rest) strs (length pre) d mx p =
    parse_loop (pre @ bs @ rest) strs (length (pre @ bs)) d' mx' p'"
proof (cases "is_prop c")
  case True
  then obtain off where "bs = chunk c off" "off < length strs" "off < 2 ^ 32" "length (call_value c) < 2 ^ 32"
    using assms(1) by (auto simp: encodes_def dest: name_here_less)
  moreover have "d' = d" "mx' = mx" "p' = p + 1" using assms(2) True by (cases c; simp)+
  ultimately show ?thesis using parse_prop [of off strs "call_value c"] True by (simp add: chunk_prop)
next
  case False
  then show ?thesis
    using assms parse_begin name_bytes_nul parse_end by (cases c) (auto simp: encodes_def split: if_splits)
qed

lemma calls_shape_Cons:
  "calls_shape s (c # cs) = (case calls_shape s [c] of None \<Rightarrow> None | Some s' \<Rightarrow> calls_shape s' cs)"
  by (cases s; cases c) auto

lemma parse_chunks:
  "list_all2 (encodes strs) cs bss \<Longrightarrow> calls_shape (d, mx, p) cs = Some (d', mx', p') \<Longrightarrow>
   parse_loop (pre @ concat bss @ rest) strs (length pre) d mx p =
   parse_loop (pre @ concat bss @ rest) strs (length (pre @ concat bss)) d' mx' p'"
proof (induction arbitrary: pre d mx p rule: list_all2_induct)
  case (Cons c cs bs bss)
  then obtain d1 m1 p1 where 1: "calls_shape (d, mx, p) [c] = Some (d1, m1, p1)" "calls_shape (d1, m1, p1) cs = Some (d', mx', p')"
    by (subst (asm) calls_shape_Cons) (auto split: option.splits)
  show ?case
    using parse_chunk [OF Cons(1) 1(1), of pre "concat bss @ rest"] Cons(3) [OF 1(2), of "pre @ bs"] by simp
qed simp

section \<open>An independent reader\<close>

text \<open>
  The events of the structure block as the devicetree format defines them, with property names resolved in the strings
  block: the meaning of a blob, against which the builder is judged.
\<close>

datatype fdt_event = Node_start "int list" | Node_stop | Property "int list" "int list"

fun call_event :: "fdt_call \<Rightarrow> fdt_event" where
  "call_event (Begin_node n) = Node_start (name_bytes n)"
| "call_event End_node = Node_stop"
| "call_event c = Property (name_bytes (call_name c)) (call_value c)"

definition nul_string :: "int list \<Rightarrow> nat \<Rightarrow> int list" where
  "nul_string bs i = takeWhile (\<lambda>b. b \<noteq> 0) (drop i bs)"

function read_events :: "int list \<Rightarrow> int list \<Rightarrow> nat \<Rightarrow> fdt_event list option" where
  "read_events sb strs i =
     (if i < length sb then
        let tok = be_value (slice sb i 4) in
        if tok = FDT_BEGIN_NODE then
          map_option ((#) (Node_start (nul_string sb (i + 4))))
            (read_events sb strs (i + 4 + length (align4 (nul_string sb (i + 4) @ [0]))))
        else if tok = FDT_END_NODE then map_option ((#) Node_stop) (read_events sb strs (i + 4))
        else if tok = FDT_PROP then
          let val = slice sb (i + 12) (nat (be_value (slice sb (i + 4) 4)));
              name = nul_string strs (nat (be_value (slice sb (i + 8) 4))) in
          map_option ((#) (Property name val)) (read_events sb strs (i + 12 + length (align4 val)))
        else if tok = FDT_END then Some []
        else None
      else None)"
  by pat_completeness auto
termination
  by (relation "measure (\<lambda>(sb, strs, i). length sb - i)") auto

declare read_events.simps [simp del]

definition blob_events :: "int list \<Rightarrow> fdt_event list option" where
  "blob_events blob =
     read_events (slice blob (nat (be32 blob 2)) (nat (be32 blob 9))) (slice blob (nat (be32 blob 3)) (nat (be32 blob 8))) 0"

lemma nul_string_name: "0 \<notin> set nm \<Longrightarrow> nul_string (pre @ align4 (nm @ [0]) @ rest) (length pre) = nm"
  by (simp add: nul_string_def align4_def)

lemma nul_string_here: "name_here strs n off \<Longrightarrow> node_name n \<Longrightarrow> nul_string strs off = name_bytes n"
  by (auto simp: name_here_def nul_string_def name_bytes_nul)

lemma read_begin:
  assumes "0 \<notin> set nm"
  shows "read_events (pre @ (be_bytes 4 FDT_BEGIN_NODE @ align4 (nm @ [0])) @ rest) strs (length pre) =
    map_option ((#) (Node_start nm)) (read_events (pre @ (be_bytes 4 FDT_BEGIN_NODE @ align4 (nm @ [0])) @ rest) strs
      (length (pre @ be_bytes 4 FDT_BEGIN_NODE @ align4 (nm @ [0]))))"
    (is "read_events ?sb _ _ = _")
proof -
  have "nul_string ?sb (length pre + 4) = nm"
    using nul_string_name [OF assms, of "pre @ be_bytes 4 FDT_BEGIN_NODE" rest] by simp
  then show ?thesis by (subst read_events.simps) (simp add: algebra_simps)
qed

lemma read_end:
  "read_events (pre @ be_bytes 4 FDT_END_NODE @ rest) strs (length pre) =
    map_option ((#) Node_stop) (read_events (pre @ be_bytes 4 FDT_END_NODE @ rest) strs (length (pre @ be_bytes 4 FDT_END_NODE)))"
  by (subst read_events.simps) simp

lemma slice_align: "slice (pre @ align4 v @ rest) (length pre) (length v) = v"
  by (simp add: slice_def align4_def)

lemma read_prop:
  fixes v :: "int list"
  assumes "name_here strs n off" "node_name n" "off < 2 ^ 32" "length v < 2 ^ 32"
  shows "read_events (pre @ (be_bytes 4 FDT_PROP @ be_bytes 4 (int (length v)) @ be_bytes 4 (int off) @ align4 v) @ rest) strs (length pre) =
    map_option ((#) (Property (name_bytes n) v))
      (read_events (pre @ (be_bytes 4 FDT_PROP @ be_bytes 4 (int (length v)) @ be_bytes 4 (int off) @ align4 v) @ rest) strs
        (length (pre @ be_bytes 4 FDT_PROP @ be_bytes 4 (int (length v)) @ be_bytes 4 (int off) @ align4 v)))"
    (is "read_events ?sb _ _ = _")
proof -
  have "slice ?sb (length pre + 12) (length v) = v"
    using slice_align [of "pre @ be_bytes 4 FDT_PROP @ be_bytes 4 (int (length v)) @ be_bytes 4 (int off)" v rest] by simp
  then show ?thesis
    using assms prop_fields [of pre v off rest]
    by (subst read_events.simps) (simp add: Let_def nul_string_here algebra_simps)
qed

lemma read_chunk:
  assumes "encodes strs c bs"
  shows "read_events (pre @ bs @ rest) strs (length pre) =
    map_option ((#) (call_event c)) (read_events (pre @ bs @ rest) strs (length (pre @ bs)))"
proof (cases "is_prop c")
  case True
  then obtain off where "bs = chunk c off" "name_here strs (call_name c) off" "off < 2 ^ 32" "length (call_value c) < 2 ^ 32"
    "node_name (call_name c)"
    using assms by (auto simp: encodes_def call_ok_name)
  moreover have "call_event c = Property (name_bytes (call_name c)) (call_value c)" using True by (cases c) auto
  ultimately show ?thesis using read_prop [of strs "call_name c" off "call_value c"] True by (simp add: chunk_prop)
next
  case False
  then show ?thesis
    using assms read_begin [OF name_bytes_nul] read_end by (cases c) (auto simp: encodes_def)
qed

lemma read_chunks:
  "list_all2 (encodes strs) cs bss \<Longrightarrow>
   read_events (pre @ concat bss @ rest) strs (length pre) =
   map_option ((@) (map call_event cs)) (read_events (pre @ concat bss @ rest) strs (length (pre @ concat bss)))"
proof (induction arbitrary: pre rule: list_all2_induct)
  case (Cons c cs bs bss)
  show ?case
    using read_chunk [OF Cons(1), of pre "concat bss @ rest"] Cons(3) [of "pre @ bs"]
    by (simp add: option.map_comp comp_def)
qed (simp add: option.map_ident_strong)

section \<open>The whole blob\<close>

lemma slice_words: "k < length vs \<Longrightarrow> slice (concat (map (be_bytes 4) vs) @ rest) (4 * k) 4 = be_bytes 4 (vs ! k)"
proof (induction vs arbitrary: k)
  case (Cons v vs)
  then show ?case by (cases k) (simp_all add: slice_def)
qed simp

definition fdt_header :: "nat \<Rightarrow> nat \<Rightarrow> int list" where
  \<comment> \<open>the header words for a structure block (with its end token) and a strings block of these lengths\<close>
  "fdt_header n m = [FDT_MAGIC, 56 + int n + int m, 56, 56 + int n, 40, FDT_VERSION, FDT_LAST_COMP_VERSION, 0, int m, int n]"

definition blob_of :: "int list \<Rightarrow> int list \<Rightarrow> int list" where
  "blob_of sb strs = concat (map (be_bytes 4) (fdt_header (length sb) (length strs))) @ be_bytes 8 0 @ be_bytes 8 0 @ sb @ strs"

lemma build_ok:
  assumes "length (fdt_struct f) + length (fdt_strings f) + 60 < 2 ^ 32"
  shows "build f = Inr (blob_of (fdt_struct f @ be_bytes 4 FDT_END) (fdt_strings f))"
  using assms
  by (simp add: build_def pack_Q_def emit_def pack_all_ok blob_of_def fdt_header_def Let_def del: pack_all.simps)

lemma blob_word:
  assumes "length sb + length strs + 56 < 2 ^ 32" "k < 10"
  shows "be32 (blob_of sb strs) k = fdt_header (length sb) (length strs) ! k"
proof -
  have r: "\<forall>v \<in> set (fdt_header (length sb) (length strs)). 0 \<le> v \<and> v < 2 ^ 32"
    using assms(1) by (simp add: fdt_header_def)
  have "k < length (fdt_header (length sb) (length strs))" using assms(2) by (simp add: fdt_header_def)
  with r show ?thesis by (simp add: be32_def blob_of_def slice_words)
qed

lemma blob_blocks:
  "length (blob_of sb strs) = 56 + length sb + length strs"
  "slice (blob_of sb strs) 40 16 = be_bytes 8 0 @ be_bytes 8 0"
  "slice (blob_of sb strs) 56 (length sb) = sb"
  "slice (blob_of sb strs) (56 + length sb) (length strs) = strs"
proof -
  let ?h = "concat (map (be_bytes 4) (fdt_header (length sb) (length strs)))"
  have h: "length ?h = 40" by (simp add: fdt_header_def)
  show "length (blob_of sb strs) = 56 + length sb + length strs" using h by (simp add: blob_of_def)
  show "slice (blob_of sb strs) 40 16 = be_bytes 8 0 @ be_bytes 8 0"
    using h slice_at [of 16 "be_bytes 8 0 @ be_bytes 8 0" ?h "sb @ strs"] by (simp add: blob_of_def)
  show "slice (blob_of sb strs) 56 (length sb) = sb"
    using h slice_at [of _ sb "?h @ be_bytes 8 0 @ be_bytes 8 0" strs] by (simp add: blob_of_def)
  show "slice (blob_of sb strs) (56 + length sb) (length strs) = strs"
    using h slice_at_end [of _ strs "?h @ be_bytes 8 0 @ be_bytes 8 0 @ sb"] by (simp add: blob_of_def)
qed

lemma validate_blob:
  assumes "length sb + length strs + 56 < 2 ^ 32"
    "parse_loop sb strs 0 0 0 0 = Inr (0, mx, p, True)" "mx \<ge> 2" "p > 0"
  shows "parse_and_validate (blob_of sb strs) =
    Inr \<lparr>max_depth = mx, prop_count = p, totalsize = int (length (blob_of sb strs))\<rparr>"
proof -
  note w = blob_word [OF assms(1)]
  have "be_value (be_bytes 8 0) = 0" by (simp add: be_value_be_bytes)
  then show ?thesis
    using assms(2-) by (simp add: parse_and_validate_def w fdt_header_def blob_blocks assert_that_def Let_def nat_add_distrib)
qed

lemma events_blob:
  assumes "length sb + length strs + 56 < 2 ^ 32"
  shows "blob_events (blob_of sb strs) = read_events sb strs 0"
  using blob_word [OF assms] by (simp add: blob_events_def fdt_header_def blob_blocks nat_add_distrib)

lemma final_token:
  "parse_loop (sb @ be_bytes 4 FDT_END) strs (length sb) d mx p = Inr (d, mx, p, True)"
  "read_events (sb @ be_bytes 4 FDT_END) strs (length sb) = Some []"
  by (subst parse_loop.simps, simp) (subst read_events.simps, simp)

lemma calls_build:
  assumes "list_all call_ok cs" "calls_shape (0, 0, 0) cs = Some (0, mx, p)" "2 \<le> mx" "0 < p"
    "sum_list (map call_size cs) + 60 < 2 ^ 32"
  shows "\<exists>blob. rbind (fdt_calls fdt_init cs) build = Inr blob \<and>
    parse_and_validate blob = Inr \<lparr>max_depth = mx, prop_count = p, totalsize = int (length blob)\<rparr> \<and>
    blob_events blob = Some (map call_event cs)"
proof -
  obtain f bss where f: "fdt_calls fdt_init cs = Inr f" "fdt_struct f = concat bss"
    "list_all2 (encodes (fdt_strings f)) cs bss" "length (concat bss) + length (fdt_strings f) \<le> sum_list (map call_size cs)"
    using calls_effect [OF names_at_init assms(1)] assms(5) by (auto simp: fdt_init_def)
  let ?sb = "concat bss @ be_bytes 4 FDT_END"
  have small: "length ?sb + length (fdt_strings f) + 56 < 2 ^ 32" using f(4) assms(5) by simp
  have "build f = Inr (blob_of ?sb (fdt_strings f))" using f(2,4) assms(5) build_ok [of f] by simp
  moreover have "parse_loop ?sb (fdt_strings f) 0 0 0 0 = Inr (0, mx, p, True)"
    using parse_chunks [OF f(3) assms(2), of "[]"] by (simp add: final_token del: FDT_END_def)
  moreover have "read_events ?sb (fdt_strings f) 0 = Some (map call_event cs)"
    using read_chunks [OF f(3), of "[]"] by (simp add: final_token del: FDT_END_def)
  ultimately show ?thesis
    using f(1) validate_blob [OF small _ assms(3,4)] events_blob [OF small] by simp
qed

lemma core_calls_ok:
  "ascii bootargs \<Longrightarrow> list_all call_ok (core_calls m t u bootargs a e)"
  by (simp add: core_calls_def cpu_calls_def soc_calls_def chosen_calls_def node_name_def ascii_def split: option.split)

lemma core_calls_shape:
  "calls_shape (0, 0, 0) (core_calls m t u bootargs a e) = Some (0, 4, if a \<noteq> None \<and> e \<noteq> None then 36 else 34)"
  by (auto simp: core_calls_def cpu_calls_def soc_calls_def chosen_calls_def split: option.split)

lemma core_calls_size: "sum_list (map call_size (core_calls m t u bootargs a e)) \<le> 4000 + length bootargs"
  by (auto simp: core_calls_def cpu_calls_def soc_calls_def chosen_calls_def call_size_def split: option.split)

lemma fdt_calls_append: "fdt_calls f (cs @ cs') = rbind (fdt_calls f cs) (\<lambda>f. fdt_calls f cs')"
  by (induction cs arbitrary: f) (auto simp: rbind_def split: sum.splits)

lemma core_dtb_built:
  assumes "ascii bootargs" "length bootargs \<le> 2 ^ 30"
  shows "\<exists>blob. build_this_core_dtb m t uclk bootargs a e = Inr blob \<and>
    parse_and_validate blob =
      Inr \<lparr>max_depth = 4, prop_count = (if a \<noteq> None \<and> e \<noteq> None then 36 else 34), totalsize = int (length blob)\<rparr> \<and>
    blob_events blob = Some (map call_event (core_calls m t uclk bootargs a e))"
proof -
  have "sum_list (map call_size (core_calls m t uclk bootargs a e)) + 60 < 2 ^ 32"
    using core_calls_size [of m t uclk bootargs a e] assms(2) by simp
  then show ?thesis
    unfolding build_this_core_dtb_def by (intro calls_build core_calls_ok core_calls_shape assms(1)) auto
qed

section \<open>Properties\<close>

text \<open>C35. Whatever tree a client of the builder describes, with balanced nodes two deep or more, at least one property,
  names and strings in ASCII, names without NUL bytes, and blocks below 4 GiB: the calls and \<open>build\<close> raise nothing;
  \<open>parse_and_validate\<close> accepts the blob and reports the depth and the number of properties of the calls; and the
  blob decodes to the same nodes and properties, names resolved through the strings block, values to the byte.\<close>

theorem dtb_round_trip:
  assumes "list_all call_ok cs" "calls_shape (0, 0, 0) cs = Some (0, mx, p)" "2 \<le> mx" "0 < p"
    "sum_list (map call_size cs) + 60 < 2 ^ 32"
  shows "\<exists>blob. rbind (fdt_calls fdt_init cs) build = Inr blob \<and>
    parse_and_validate blob = Inr \<lparr>max_depth = mx, prop_count = p, totalsize = int (length blob)\<rparr> \<and>
    blob_events blob = Some (map call_event cs)"
  by (rule calls_build [OF assms])

theorem dtb_round_trip_witness:
  "\<exists>blob. rbind (fdt_calls fdt_init [Begin_node [], Begin_node ''cpus'', Prop_u32 ''reg'' 5, End_node, End_node]) build = Inr blob \<and>
    parse_and_validate blob = Inr \<lparr>max_depth = 2, prop_count = 1, totalsize = int (length blob)\<rparr> \<and>
    blob_events blob = Some [Node_start [], Node_start [99, 112, 117, 115], Property [114, 101, 103] [0, 0, 0, 5], Node_stop, Node_stop]"
  using dtb_round_trip [of "[Begin_node [], Begin_node ''cpus'', Prop_u32 ''reg'' 5, End_node, End_node]" 2 1]
  by (simp add: node_name_def ascii_def call_size_def name_bytes_def be_bytes_def upt_rec)

text \<open>C36. The device tree of this core is always emitted and always passes the source's self-check, for every memory
  size, every clock, every ASCII boot argument string of up to 1 GiB and with or without an initial ramdisk; and it decodes to the
  tree the source writes down.\<close>

theorem core_dtb_valid:
  assumes "ascii bootargs" "length bootargs \<le> 2 ^ 30"
  shows "\<exists>blob. build_this_core_dtb m t uclk bootargs a e = Inr blob \<and>
    parse_and_validate blob =
      Inr \<lparr>max_depth = 4, prop_count = (if a \<noteq> None \<and> e \<noteq> None then 36 else 34), totalsize = int (length blob)\<rparr> \<and>
    blob_events blob = Some (map call_event (core_calls m t uclk bootargs a e))"
  using assms by (rule core_dtb_built)

theorem core_dtb_valid_witness:
  "\<exists>blob. build_this_core_dtb 0x2000000 1000000 1843200 ''console=ttyS0 earlycon'' None None = Inr blob \<and>
    parse_and_validate blob = Inr \<lparr>max_depth = 4, prop_count = 34, totalsize = int (length blob)\<rparr>"
  using core_dtb_valid [of "''console=ttyS0 earlycon''" "0x2000000" 1000000 1843200 None None] by (auto simp: ascii_def)

text \<open>The memory node describes the memory size modulo 4 GiB: the size cell is masked and its high cell is always zero.\<close>

lemma memory_size_truncated:
  "build_this_core_dtb m t uclk bootargs a e = build_this_core_dtb (m mod 2 ^ 32) t uclk bootargs a e"
proof -
  have "do_call f (Prop_cells n [0, 0, 0, m]) = do_call f (Prop_cells n [0, 0, 0, m mod 2 ^ 32])" for f n
    by (simp add: prop_cells_def and_u32 take_bit_eq_mod)
  then show ?thesis
    by (simp add: build_this_core_dtb_def core_calls_def fdt_calls_append del: do_call.simps)
qed

end
