(* ===== verification/Random_Gen.thy ===== *)
theory Random_Gen
  imports Py_Text "HOL-Library.State_Monad"
begin

text \<open>
  The constrained-random program generator of \<open>sim/tools/random_gen.py\<close>: the constant builders with their self-checks,
  and \<open>gen_program\<close> with its instruction mix, forward-only label resolution, trailer, and the prefixes of the translation
  and interrupt modes.

  The generator draws from \<open>random.Random(seed)\<close>. Here the source of randomness is a list of natural numbers, read from the
  front and continued by zeros; a draw from a range reduces the next number to the range. Every sequence of
  results the Python object could return is the sequence of some list, so a statement about all lists
  is a statement about all seeds. The computation is in the state monad over that list.
\<close>

section \<open>Draws\<close>

type_synonym 'a gen = "(nat list, 'a) state"

definition draw :: "nat gen" where
  "draw = State (\<lambda>r. case r of [] \<Rightarrow> (0, []) | d # ds \<Rightarrow> (d, ds))"

definition choice :: "'a list \<Rightarrow> 'a gen" where
  \<comment> \<open>\<open>rnd.choice(xs)\<close> on a nonempty list\<close>
  "choice xs = do { d \<leftarrow> draw; State_Monad.return (xs ! (d mod length xs)) }"

definition randint :: "int \<Rightarrow> int \<Rightarrow> int gen" where
  \<comment> \<open>\<open>rnd.randint(a, b)\<close> for \<open>a \<le> b\<close>\<close>
  "randint a b = do { d \<leftarrow> draw; State_Monad.return (a + int d mod (b - a + 1)) }"

definition randrange :: "int \<Rightarrow> int \<Rightarrow> int gen" where
  \<comment> \<open>\<open>rnd.randrange(0, stop, step)\<close> for positive arguments\<close>
  "randrange stop step = do { d \<leftarrow> draw; State_Monad.return (step * (int d mod ((stop + step - 1) div step))) }"

definition coin :: "bool gen" where
  \<comment> \<open>\<open>rnd.random() < 0.5\<close>\<close>
  "coin = do { d \<leftarrow> draw; State_Monad.return (even d) }"

fun pick_weighted :: "nat \<Rightarrow> ('a \<times> nat) list \<Rightarrow> 'a" where
  "pick_weighted d ((x, w) # r) = (if d < w \<or> r = [] then x else pick_weighted (d - w) r)"

definition choices :: "('a \<times> nat) list \<Rightarrow> 'a gen" where
  \<comment> \<open>\<open>rnd.choices(names, weights=weights)[0]\<close>; an entry of weight zero is never chosen\<close>
  "choices pool = do { d \<leftarrow> draw; State_Monad.return (pick_weighted (d mod sum_list (map snd pool)) pool) }"

section \<open>Pools\<close>

definition GEN_R_TYPE :: "string list" where
  "GEN_R_TYPE = [''add'', ''sub'', ''sll'', ''slt'', ''sltu'', ''xor'', ''srl'', ''sra'', ''or'', ''and'',
     ''mul'', ''mulh'', ''mulhsu'', ''mulhu'', ''div'', ''divu'', ''rem'', ''remu'']"
definition GEN_I_TYPE :: "string list" where
  "GEN_I_TYPE = [''addi'', ''slti'', ''sltiu'', ''xori'', ''ori'', ''andi'']"
definition SHIFT_I :: "string list" where
  "SHIFT_I = [''slli'', ''srli'', ''srai'']"
definition GEN_BRANCH :: "string list" where
  "GEN_BRANCH = [''beq'', ''bne'', ''blt'', ''bge'', ''ble'', ''bgt'', ''bltu'', ''bgeu'']"
definition CSR_REG_OP :: "string list" where
  "CSR_REG_OP = [''csrrw'', ''csrrs'', ''csrrc'']"
definition CSR_IMM_OP :: "string list" where
  "CSR_IMM_OP = [''csrrwi'', ''csrrsi'', ''csrrci'']"
definition GEN_CSR_NAMES :: "string list" where
  "GEN_CSR_NAMES = [''mstatus'', ''mtvec'', ''mscratch'', ''mepc'', ''mcause'']"
definition BASE_REG :: int where
  "BASE_REG = 31"
definition GP_REGS :: "int list" where
  "GP_REGS = [1..30]"
definition FREGS :: "int list" where
  "FREGS = [0..31]"
definition GEN_FP_ARITH :: "string list" where
  "GEN_FP_ARITH = [''fadd.s'', ''fsub.s'', ''fmul.s'', ''fdiv.s'']"
definition GEN_FP_SGNJ :: "string list" where
  "GEN_FP_SGNJ = [''fsgnj.s'', ''fsgnjn.s'', ''fsgnjx.s'']"
definition GEN_FP_MINMAX :: "string list" where
  "GEN_FP_MINMAX = [''fmin.s'', ''fmax.s'']"
definition GEN_FP_CMP :: "string list" where
  "GEN_FP_CMP = [''feq.s'', ''flt.s'', ''fle.s'']"
definition FP_CVT_TO_INT :: "string list" where
  "FP_CVT_TO_INT = [''fcvt.w.s'', ''fcvt.wu.s'']"
definition FP_CVT_FROM_INT :: "string list" where
  "FP_CVT_FROM_INT = [''fcvt.s.w'', ''fcvt.s.wu'']"
definition FMADD_FAMILY :: "string list" where
  "FMADD_FAMILY = [''fmadd.s'', ''fmsub.s'', ''fnmsub.s'', ''fnmadd.s'']"
definition GEN_RM_NAMES :: "string list" where
  "GEN_RM_NAMES = [''rne'', ''rtz'', ''rdn'', ''rup'', ''rmm'', ''dyn'']"
definition FCSR_ADDR :: "string list" where
  \<comment> \<open>\<open>FCSR_ADDR[name] for name in FCSR_NAMES\<close>\<close>
  "FCSR_ADDR = [''0x1'', ''0x2'', ''0x3'']"
definition OOO_TRAILER_NOP_COUNT :: int where
  "OOO_TRAILER_NOP_COUNT = 1"
definition FLOAT_SEED_BITS :: "int list" where
  "FLOAT_SEED_BITS = [0x00000000, 0x3F800000, 0xBF800000, 0x7F800000, 0x7FC00000, 0x00400000]"
definition GEN_R_TYPE_W :: "string list" where
  "GEN_R_TYPE_W = [''addw'', ''subw'', ''sllw'', ''srlw'', ''sraw'', ''mulw'', ''divw'', ''divuw'', ''remw'', ''remuw'']"
definition GEN_I_TYPE_W :: "string list" where
  "GEN_I_TYPE_W = [''addiw'', ''slliw'', ''srliw'', ''sraiw'']"
definition B_R_TYPE :: "string list" where
  "B_R_TYPE = [''andn'', ''orn'', ''xnor'', ''min'', ''minu'', ''max'', ''maxu'', ''rol'', ''ror'',
     ''sh1add'', ''sh2add'', ''sh3add'', ''bclr'', ''bext'', ''binv'', ''bset'']"
definition B_SHAMT :: "string list" where
  "B_SHAMT = [''bclri'', ''bexti'', ''binvi'', ''bseti'', ''rori'']"
definition B_FIXED :: "string list" where
  "B_FIXED = [''clz'', ''ctz'', ''cpop'', ''sext.b'', ''sext.h'', ''orc.b'', ''rev8'']"
definition B_R_TYPE_W :: "string list" where
  "B_R_TYPE_W = [''rolw'', ''rorw'', ''add.uw'', ''sh1add.uw'', ''sh2add.uw'', ''sh3add.uw'']"
definition B_FIXED_W :: "string list" where
  "B_FIXED_W = [''clzw'', ''ctzw'', ''cpopw'']"
definition B_SHAMT_W :: "string list" where
  "B_SHAMT_W = [''roriw'', ''slli.uw'']"
definition K_R_TYPE :: "string list" where
  "K_R_TYPE = [''clmul'', ''clmulh'', ''pack'', ''packh'', ''xperm4'', ''xperm8'',
     ''aes64esm'', ''aes64es'', ''aes64dsm'', ''aes64ds'', ''aes64ks2'']"
definition K_FIXED :: "string list" where
  "K_FIXED = [''brev8'', ''sha256sum0'', ''sha256sum1'', ''sha256sig0'', ''sha256sig1'',
     ''sha512sum0'', ''sha512sum1'', ''sha512sig0'', ''sha512sig1'', ''aes64im'']"
definition K_R_TYPE_W :: "string list" where
  "K_R_TYPE_W = [''packw'']"

section \<open>Constants in registers\<close>

definition hex_text :: "int \<Rightarrow> string" where
  \<comment> \<open>\<open>f"{n:#x}"\<close> for a nonnegative number\<close>
  "hex_text n = ''0x'' @ py_hex n"

definition const_chunks :: "int \<Rightarrow> int list" where
  "const_chunks bits32 =
     (let bits32 = bits32 AND 0xFFFFFFFF in map (\<lambda>i. drop_bit (22 - i * 11) bits32 AND (2 ^ 11 - 1)) [0, 1, 2])"

definition const_to_reg_instrs :: "int \<Rightarrow> int \<Rightarrow> bool \<Rightarrow> string list" where
  "const_to_reg_instrs rd bits32 no_lui =
     (if no_lui then
        let chunks = const_chunks bits32 in
        asm_line ''addi'' [xr rd, ''x0'', py_str (chunks ! 0)] #
        concat (map (\<lambda>c. asm_line ''slli'' [xr rd, xr rd, py_str 11] #
                         (if c \<noteq> 0 then [asm_line ''addi'' [xr rd, xr rd, py_str c]] else [])) (tl chunks))
      else
        let lo = bits32 AND 0xFFF; hi = drop_bit 12 bits32 AND 0xFFFFF;
            hi = (if lo AND 0x800 \<noteq> 0 then (hi + 1) AND 0xFFFFF else hi) in
        asm_line ''lui'' [xr rd, hex_text hi] #
        (if lo \<noteq> 0 then [asm_line ''addi'' [xr rd, xr rd, py_str (if lo AND 0x800 \<noteq> 0 then lo - 0x1000 else lo)]]
         else []))"

definition const64_to_reg_instrs :: "int \<Rightarrow> int \<Rightarrow> int \<Rightarrow> bool \<Rightarrow> string list" where
  "const64_to_reg_instrs rd rd_scratch bits64 no_lui =
     (let hi32 = drop_bit 32 bits64 AND 0xFFFFFFFF; lo32 = bits64 AND 0xFFFFFFFF in
      const_to_reg_instrs rd hi32 no_lui @
      [asm_line ''slli'' [xr rd, xr rd, ''32'']] @
      const_to_reg_instrs rd_scratch lo32 no_lui @
      [asm_line ''slli'' [xr rd_scratch, xr rd_scratch, ''32''],
       asm_line ''srli'' [xr rd_scratch, xr rd_scratch, ''32''],
       asm_line ''or'' [xr rd, xr rd, xr rd_scratch]])"

definition gen_sext32 :: "int \<Rightarrow> int" where
  "gen_sext32 v = (let v = v AND 0xFFFFFFFF in if v AND 0x80000000 \<noteq> 0 then v - push_bit 32 1 else v)"

definition self_check_const64 :: "int \<Rightarrow> unit result" where
  "self_check_const64 bits64 =
     (let hi32 = drop_bit 32 bits64 AND 0xFFFFFFFF; lo32 = bits64 AND 0xFFFFFFFF; MASK64 = push_bit 64 1 - 1;
          rd = gen_sext32 hi32 AND MASK64;
          rd = push_bit 32 rd AND MASK64;
          scratch = gen_sext32 lo32 AND MASK64;
          scratch = push_bit 32 scratch AND MASK64;
          scratch = drop_bit 32 scratch;
          rd = (rd OR scratch) AND MASK64
      in if rd = bits64 AND MASK64 then Inr () else Inl AssertionError)"

definition after_comma :: "string \<Rightarrow> string" where
  \<comment> \<open>\<open>raw.rsplit(",", 1)[1]\<close> for a line with a comma\<close>
  "after_comma raw = rev (takeWhile (\<lambda>c. c \<noteq> CHR '','') (rev raw))"

fun replay_no_lui :: "int \<Rightarrow> string list \<Rightarrow> int result" where
  "replay_no_lui v [] = Inr v"
| "replay_no_lui v (raw # raws) =
     (if take 4 (py_strip raw) = ''slli'' then replay_no_lui (push_bit 11 v AND (push_bit 32 1 - 1)) raws
      else rbind (py_int10 (after_comma raw)) (\<lambda>c. replay_no_lui ((v + c) AND (push_bit 32 1 - 1)) raws))"

definition self_check_const32_no_lui :: "int \<Rightarrow> unit result" where
  "self_check_const32_no_lui bits32 =
     (let lines = const_to_reg_instrs 0 bits32 True in
      rbind (py_int10 (after_comma (hd lines))) (\<lambda>c0.
      rbind (replay_no_lui (gen_sext32 c0) (tl lines)) (\<lambda>v.
        if v = bits32 AND (push_bit 32 1 - 1) then Inr () else Inl AssertionError)))"

section \<open>Items\<close>

text \<open>An element of \<open>instrs\<close>: a finished line, or a branch or jump whose target is chosen later.\<close>

datatype gen_item = Line string | Branch string int int | Jal int

definition gen_rrr :: "string list \<Rightarrow> string gen" where
  \<comment> \<open>mnemonic, then three registers\<close>
  "gen_rrr mns = do { mn \<leftarrow> choice mns; rd \<leftarrow> choice GP_REGS; rs1 \<leftarrow> choice GP_REGS; rs2 \<leftarrow> choice GP_REGS;
     State_Monad.return (asm_line mn [xr rd, xr rs1, xr rs2]) }"

definition gen_i :: "string gen" where
  "gen_i = do { mn \<leftarrow> choice GEN_I_TYPE; rd \<leftarrow> choice GP_REGS; rs1 \<leftarrow> choice GP_REGS; v \<leftarrow> randint (- 2048) 2047;
     State_Monad.return (asm_line mn [xr rd, xr rs1, py_str v]) }"

definition gen_iw :: "string gen" where
  "gen_iw = do { mn \<leftarrow> choice GEN_I_TYPE_W; rd \<leftarrow> choice GP_REGS; rs1 \<leftarrow> choice GP_REGS;
     v \<leftarrow> (if mn = ''addiw'' then randint (- 2048) 2047 else randint 0 31);
     State_Monad.return (asm_line mn [xr rd, xr rs1, py_str v]) }"

definition shamt_draw :: "nat \<Rightarrow> int gen" where
  "shamt_draw xl = (if xl \<ge> 64 then randint 0 63 else randint 0 31)"

definition gen_shift :: "nat \<Rightarrow> string gen" where
  "gen_shift xl = do { mn \<leftarrow> choice SHIFT_I; rd \<leftarrow> choice GP_REGS; rs1 \<leftarrow> choice GP_REGS; v \<leftarrow> shamt_draw xl;
     State_Monad.return (asm_line mn [xr rd, xr rs1, py_str v]) }"

definition gen_b_ext :: "nat \<Rightarrow> string gen" where
  "gen_b_ext xl = do { sub \<leftarrow> choice [''r'', ''shamt'', ''fixed'']; rd \<leftarrow> choice GP_REGS; rs1 \<leftarrow> choice GP_REGS;
     if sub = ''r'' then do { mn \<leftarrow> choice B_R_TYPE; rs2 \<leftarrow> choice GP_REGS; State_Monad.return (asm_line mn [xr rd, xr rs1, xr rs2]) }
     else if sub = ''shamt'' then do { mn \<leftarrow> choice B_SHAMT; v \<leftarrow> shamt_draw xl; State_Monad.return (asm_line mn [xr rd, xr rs1, py_str v]) }
     else do { mn \<leftarrow> choice B_FIXED; State_Monad.return (asm_line mn [xr rd, xr rs1]) } }"

definition gen_b_ext_w :: "string gen" where
  "gen_b_ext_w = do { sub \<leftarrow> choice [''r'', ''shamt'', ''fixed'']; rd \<leftarrow> choice GP_REGS; rs1 \<leftarrow> choice GP_REGS;
     if sub = ''r'' then do { mn \<leftarrow> choice B_R_TYPE_W; rs2 \<leftarrow> choice GP_REGS; State_Monad.return (asm_line mn [xr rd, xr rs1, xr rs2]) }
     else if sub = ''shamt'' then do { mn \<leftarrow> choice B_SHAMT_W; v \<leftarrow> (if mn = ''roriw'' then randint 0 31 else randint 0 63);
       State_Monad.return (asm_line mn [xr rd, xr rs1, py_str v]) }
     else do { mn \<leftarrow> choice B_FIXED_W; State_Monad.return (asm_line mn [xr rd, xr rs1]) } }"

definition gen_k_ext :: "string gen" where
  "gen_k_ext = do { sub \<leftarrow> choice [''r'', ''fixed'', ''ks1i'']; rd \<leftarrow> choice GP_REGS; rs1 \<leftarrow> choice GP_REGS;
     if sub = ''r'' then do { mn \<leftarrow> choice K_R_TYPE; rs2 \<leftarrow> choice GP_REGS; State_Monad.return (asm_line mn [xr rd, xr rs1, xr rs2]) }
     else if sub = ''fixed'' then do { mn \<leftarrow> choice K_FIXED; State_Monad.return (asm_line mn [xr rd, xr rs1]) }
     else do { v \<leftarrow> randint 0 10; State_Monad.return (asm_line ''aes64ks1i'' [xr rd, xr rs1, py_str v]) } }"

definition load_mnemonics :: "nat \<Rightarrow> string list" where
  "load_mnemonics xl = [''lb'', ''lh'', ''lw'', ''lbu'', ''lhu''] @ (if xl \<ge> 64 then [''ld'', ''lwu''] else [])"

definition store_mnemonics :: "nat \<Rightarrow> string list" where
  "store_mnemonics xl = [''sb'', ''sh'', ''sw''] @ (if xl \<ge> 64 then [''sd''] else [])"

definition load_width :: "string \<Rightarrow> int" where
  "load_width mn =
     (if mn = ''lb'' \<or> mn = ''lbu'' then 1 else if mn = ''lh'' \<or> mn = ''lhu'' then 2
      else if mn = ''lw'' \<or> mn = ''lwu'' then 4 else 8)"

definition store_width :: "string \<Rightarrow> int" where
  "store_width mn = (if mn = ''sb'' then 1 else if mn = ''sh'' then 2 else if mn = ''sw'' then 4 else 8)"

definition gen_offset :: "int \<Rightarrow> int \<Rightarrow> int \<Rightarrow> int gen" where
  "gen_offset addr_space base_addr width =
     (let max_off = min (addr_space - base_addr - width) 2047
      in if max_off \<ge> 0 then randrange (max_off + 1) width else State_Monad.return 0)"

definition gen_load :: "nat \<Rightarrow> int \<Rightarrow> int \<Rightarrow> string gen" where
  "gen_load xl addr_space base_addr = do { mn \<leftarrow> choice (load_mnemonics xl); rd \<leftarrow> choice GP_REGS;
     off \<leftarrow> gen_offset addr_space base_addr (load_width mn); State_Monad.return (asm_line mn [xr rd, mem_text off BASE_REG]) }"

definition gen_store :: "nat \<Rightarrow> int \<Rightarrow> int \<Rightarrow> string gen" where
  "gen_store xl addr_space base_addr = do { mn \<leftarrow> choice (store_mnemonics xl); rs2 \<leftarrow> choice GP_REGS;
     off \<leftarrow> gen_offset addr_space base_addr (store_width mn); State_Monad.return (asm_line mn [xr rs2, mem_text off BASE_REG]) }"

definition gen_csr :: "string list \<Rightarrow> string gen" where
  "gen_csr pool = do { csr \<leftarrow> choice pool; rd \<leftarrow> choice GP_REGS; b \<leftarrow> coin;
     if b then do { mn \<leftarrow> choice CSR_REG_OP; rs1 \<leftarrow> choice GP_REGS; State_Monad.return (asm_line mn [xr rd, csr, xr rs1]) }
     else do { mn \<leftarrow> choice CSR_IMM_OP; v \<leftarrow> randint 0 31; State_Monad.return (asm_line mn [xr rd, csr, py_str v]) } }"

definition gen_fp_arith :: "string gen" where
  "gen_fp_arith = do { mn \<leftarrow> choice GEN_FP_ARITH; rd \<leftarrow> choice FREGS; rs1 \<leftarrow> choice FREGS; rs2 \<leftarrow> choice FREGS; rm \<leftarrow> choice GEN_RM_NAMES;
     State_Monad.return (asm_line mn [fr rd, fr rs1, fr rs2, rm]) }"

definition gen_fp_sqrt :: "string gen" where
  "gen_fp_sqrt = do { rd \<leftarrow> choice FREGS; rs1 \<leftarrow> choice FREGS; rm \<leftarrow> choice GEN_RM_NAMES;
     State_Monad.return (asm_line ''fsqrt.s'' [fr rd, fr rs1, rm]) }"

definition gen_fff :: "string list \<Rightarrow> string gen" where
  "gen_fff mns = do { mn \<leftarrow> choice mns; rd \<leftarrow> choice FREGS; rs1 \<leftarrow> choice FREGS; rs2 \<leftarrow> choice FREGS;
     State_Monad.return (asm_line mn [fr rd, fr rs1, fr rs2]) }"

definition gen_fp_cmp :: "string gen" where
  "gen_fp_cmp = do { mn \<leftarrow> choice GEN_FP_CMP; rd \<leftarrow> choice GP_REGS; rs1 \<leftarrow> choice FREGS; rs2 \<leftarrow> choice FREGS;
     State_Monad.return (asm_line mn [xr rd, fr rs1, fr rs2]) }"

definition gen_fp_cvt_to_int :: "string gen" where
  "gen_fp_cvt_to_int = do { mn \<leftarrow> choice FP_CVT_TO_INT; rd \<leftarrow> choice GP_REGS; rs1 \<leftarrow> choice FREGS; rm \<leftarrow> choice GEN_RM_NAMES;
     State_Monad.return (asm_line mn [xr rd, fr rs1, rm]) }"

definition gen_fp_cvt_from_int :: "string gen" where
  "gen_fp_cvt_from_int = do { mn \<leftarrow> choice FP_CVT_FROM_INT; rd \<leftarrow> choice FREGS; rs1 \<leftarrow> choice GP_REGS; rm \<leftarrow> choice GEN_RM_NAMES;
     State_Monad.return (asm_line mn [fr rd, xr rs1, rm]) }"

definition gen_fp_madd :: "string gen" where
  "gen_fp_madd = do { mn \<leftarrow> choice FMADD_FAMILY; rd \<leftarrow> choice FREGS; rs1 \<leftarrow> choice FREGS; rs2 \<leftarrow> choice FREGS; rs3 \<leftarrow> choice FREGS;
     rm \<leftarrow> choice GEN_RM_NAMES; State_Monad.return (asm_line mn [fr rd, fr rs1, fr rs2, fr rs3, rm]) }"

definition gen_fmem :: "string \<Rightarrow> int \<Rightarrow> int \<Rightarrow> string gen" where
  \<comment> \<open>\<open>fload\<close> and \<open>fstore\<close>\<close>
  "gen_fmem mn addr_space base_addr = do { r \<leftarrow> choice FREGS; off \<leftarrow> gen_offset addr_space base_addr 4;
     State_Monad.return (asm_line mn [fr r, mem_text off BASE_REG]) }"

definition gen_branch :: "gen_item gen" where
  "gen_branch = do { mn \<leftarrow> choice GEN_BRANCH; rs1 \<leftarrow> choice GP_REGS; rs2 \<leftarrow> choice GP_REGS; State_Monad.return (Branch mn rs1 rs2) }"

definition gen_jal :: "gen_item gen" where
  "gen_jal = do { rd \<leftarrow> choice GP_REGS; State_Monad.return (Jal rd) }"

definition line_item :: "string gen \<Rightarrow> gen_item gen" where
  \<comment> \<open>\<open>instrs.append(text)\<close>\<close>
  "line_item g = do { l \<leftarrow> g; State_Monad.return (Line l) }"

definition gen_kind :: "nat \<Rightarrow> int \<Rightarrow> int \<Rightarrow> string list \<Rightarrow> string \<Rightarrow> gen_item gen" where
  \<comment> \<open>the chain of tests on \<open>kind\<close>; every kind of the pools is one of the cases\<close>
  "gen_kind xl addr_space base_addr csr_pool kind =
     (if kind = ''r'' then line_item (gen_rrr GEN_R_TYPE)
      else if kind = ''rw'' then line_item (gen_rrr GEN_R_TYPE_W)
      else if kind = ''i'' then line_item gen_i
      else if kind = ''iw'' then line_item gen_iw
      else if kind = ''shift'' then line_item (gen_shift xl)
      else if kind = ''b_ext'' then line_item (gen_b_ext xl)
      else if kind = ''b_ext_w'' then line_item gen_b_ext_w
      else if kind = ''k_ext'' then line_item gen_k_ext
      else if kind = ''k_ext_w'' then line_item (gen_rrr K_R_TYPE_W)
      else if kind = ''load'' then line_item (gen_load xl addr_space base_addr)
      else if kind = ''store'' then line_item (gen_store xl addr_space base_addr)
      else if kind = ''branch'' then gen_branch
      else if kind = ''csr'' then line_item (gen_csr csr_pool)
      else if kind = ''jal'' then gen_jal
      else if kind = ''fp_arith'' then line_item gen_fp_arith
      else if kind = ''fp_sqrt'' then line_item gen_fp_sqrt
      else if kind = ''fp_sgnj'' then line_item (gen_fff GEN_FP_SGNJ)
      else if kind = ''fp_minmax'' then line_item (gen_fff GEN_FP_MINMAX)
      else if kind = ''fp_cmp'' then line_item gen_fp_cmp
      else if kind = ''fp_cvt_to_int'' then line_item gen_fp_cvt_to_int
      else if kind = ''fp_cvt_from_int'' then line_item gen_fp_cvt_from_int
      else if kind = ''fp_madd'' then line_item gen_fp_madd
      else if kind = ''fload'' then line_item (gen_fmem ''flw'' addr_space base_addr)
      else if kind = ''fstore'' then line_item (gen_fmem ''fsw'' addr_space base_addr)
      else line_item (gen_csr FCSR_ADDR))"

definition kind_pool :: "bool \<Rightarrow> nat \<Rightarrow> bool \<Rightarrow> (string \<times> nat) list" where
  \<comment> \<open>\<open>zip(kind_names, kind_weights)\<close>\<close>
  "kind_pool mmu xl ooo =
     (let csr_weight = (if mmu then 0 else 6) in
      if ooo then
        [(''r'', 24), (''i'', 16), (''shift'', 8), (''load'', 10), (''store'', 10), (''branch'', 8), (''jal'', 5), (''csr'', csr_weight),
         (''fp_arith'', 10), (''fp_sqrt'', 4), (''fp_sgnj'', 4), (''fp_minmax'', 4), (''b_ext'', 16)] @
        (if xl \<ge> 64 then [(''k_ext'', 16)] else [])
      else
        [(''r'', 24), (''i'', 16), (''shift'', 8), (''load'', 10), (''store'', 10), (''branch'', 8), (''jal'', 5), (''csr'', csr_weight),
         (''fp_arith'', 10), (''fp_sqrt'', 4), (''fp_sgnj'', 4), (''fp_minmax'', 4), (''fp_cmp'', 4),
         (''fp_cvt_to_int'', 4), (''fp_cvt_from_int'', 4), (''fp_madd'', 6), (''fload'', 6), (''fstore'', 6), (''fcsr'', 4), (''b_ext'', 16)] @
        (if xl \<ge> 64 then [(''rw'', 12), (''iw'', 8), (''b_ext_w'', 8), (''k_ext'', 16), (''k_ext_w'', 4)] else []))"

definition csr_names_pool :: "string option \<Rightarrow> bool \<Rightarrow> string list" where
  "csr_names_pool interrupt ooo =
     (if interrupt = None \<and> \<not> ooo then GEN_CSR_NAMES
      else filter (\<lambda>n. n \<notin> {''mstatus'', ''mepc'', ''mcause'', ''mtvec''}) GEN_CSR_NAMES)"

definition gen_instr :: "nat \<Rightarrow> int \<Rightarrow> int \<Rightarrow> string option \<Rightarrow> bool \<Rightarrow> bool \<Rightarrow> gen_item gen" where
  \<comment> \<open>one round of the loop that fills \<open>instrs\<close>\<close>
  "gen_instr xl addr_space base_addr interrupt mmu ooo =
     do { kind \<leftarrow> choices (kind_pool mmu xl ooo); gen_kind xl addr_space base_addr (csr_names_pool interrupt ooo) kind }"

section \<open>Targets\<close>

definition label_text :: "nat \<Rightarrow> string" where
  \<comment> \<open>\<open>f"__L{target_idx}"\<close>\<close>
  "label_text t = ''__L'' @ py_str (int t)"

definition target_draw :: "nat \<Rightarrow> nat \<Rightarrow> nat gen" where
  "target_draw n cur_idx = do { t \<leftarrow> randint (min (int cur_idx + 1) (int n)) (int n); State_Monad.return (nat t) }"

text \<open>
  The second pass. \<open>labels_at\<close> is the set of indices that have a label (the label's text is determined by the
  index). The arguments are the number of instructions, the index \<open>cur_idx\<close> of the first item, and the items left; the result is
  what is appended to \<open>out\<close>, with the final \<open>labels_at\<close>.
\<close>

fun place_items :: "nat \<Rightarrow> nat \<Rightarrow> gen_item list \<Rightarrow> nat set \<Rightarrow> (string list \<times> nat set) gen" where
  "place_items n cur_idx [] labels_at = State_Monad.return ([], labels_at)"
| "place_items n cur_idx (item # items) labels_at = do {
     (l, labels_at) \<leftarrow>
       (case item of
          Branch mn rs1 rs2 \<Rightarrow> do { t \<leftarrow> target_draw n cur_idx;
            State_Monad.return (asm_line mn [xr rs1, xr rs2, label_text t], insert t labels_at) }
        | Jal rd \<Rightarrow> do { t \<leftarrow> target_draw n cur_idx;
            State_Monad.return (asm_line ''jal'' [xr rd, label_text t], insert t labels_at) }
        | Line l \<Rightarrow> State_Monad.return (l, labels_at));
     (ls, labels_at') \<leftarrow> place_items n (cur_idx + 1) items labels_at;
     State_Monad.return
       (l # (if cur_idx + 1 \<in> labels_at then [label_text (cur_idx + 1) @ '':''] else []) @ ls, labels_at') }"

section \<open>The program\<close>

definition float_seed_lines :: "bool \<Rightarrow> string list" where
  "float_seed_lines ooo =
     concat (map (\<lambda>(i, bits). const_to_reg_instrs 30 bits ooo @ [asm_line ''fmv.w.x'' [fr (int i + 1), ''x30'']])
       (enumerate 0 FLOAT_SEED_BITS))"

definition seed_lines :: "nat \<Rightarrow> bool \<Rightarrow> string list" where
  "seed_lines xl ooo =
     float_seed_lines ooo @ (if xl \<ge> 64 then const64_to_reg_instrs 29 30 0xDEADBEEF12345678 ooo else [])"

definition trailer :: "bool \<Rightarrow> string list" where
  "trailer ooo = (if ooo then [''__ooo_halt:'', ''jal x0, __ooo_halt''] else [''fence'', ''__halt:'', ''jal x0, __halt''])"

definition gen_body :: "nat \<Rightarrow> nat \<Rightarrow> int \<Rightarrow> int \<Rightarrow> string option \<Rightarrow> bool \<Rightarrow> bool \<Rightarrow> string list gen" where
  \<comment> \<open>the list \<open>out\<close>: base pointer, seeds, random instructions with their labels, trailer\<close>
  "gen_body n xl addr_space base_addr interrupt mmu ooo = do {
     instrs \<leftarrow> State_Monad.traverse_list (\<lambda>_. gen_instr xl addr_space base_addr interrupt mmu ooo) [0..<n];
     (ls, labels_at) \<leftarrow> place_items (length instrs) 1 instrs {};
     State_Monad.return
       ([asm_line ''addi'' [xr BASE_REG, ''x0'', py_str base_addr]] @ seed_lines xl ooo @ ls @
        (if length instrs \<in> labels_at then [label_text (length instrs) @ '':''] else []) @ trailer ooo) }"

definition instr_count :: "string list \<Rightarrow> nat" where
  \<comment> \<open>\<open>sum(1 for l in lines if not l.rstrip().endswith(":"))\<close>\<close>
  "instr_count ls = length (filter (\<lambda>l. py_rstrip l = [] \<or> last (py_rstrip l) \<noteq> CHR '':'') ls)"

definition patch_address :: "string \<Rightarrow> int \<Rightarrow> string list \<Rightarrow> string list" where
  "patch_address placeholder target ls = map (py_replace placeholder (py_str target)) ls"

definition sv39_prefix :: "string list" where
  "sv39_prefix =
     const_to_reg_instrs 1 0x401 False @ [''sw x1, 0(x0)''] @
     [''lui x4, 0x1''] @ const_to_reg_instrs 2 0x801 False @ [''sw x2, 0(x4)''] @
     [''lui x5, 0x2''] @ const_to_reg_instrs 3 0x1F False @ [''sw x3, 0(x5)''] @
     [''fence''] @
     const64_to_reg_instrs 1 6 (push_bit 60 8) False @ [''csrrw x0, 0x180, x1''] @
     [''addi x1, x0, __MEPC_PLACEHOLDER__'', ''csrrw x0, mepc, x1'', ''mret'']"

definition sv32_prefix :: "string list" where
  "sv32_prefix =
     const_to_reg_instrs 1 0x401 False @ [''sw x1, 0(x0)''] @
     [''lui x3, 0x1''] @ const_to_reg_instrs 2 0x1F False @ [''sw x2, 0(x3)''] @
     [''fence''] @
     const_to_reg_instrs 1 0x80000000 False @ [''csrrw x0, 0x180, x1''] @
     [''addi x1, x0, __MEPC_PLACEHOLDER__'', ''csrrw x0, mepc, x1'', ''mret'']"

definition with_mmu_prefix :: "string list \<Rightarrow> string list \<Rightarrow> string list" where
  "with_mmu_prefix prefix out =
     patch_address ''__MEPC_PLACEHOLDER__'' (int (instr_count prefix) * 4) prefix @ out"

definition interrupt_prefix :: "string \<Rightarrow> int \<Rightarrow> (string list \<times> int) result" where
  \<comment> \<open>the lines that arm the source, and the cause; other names never get here, see \<open>source_cost\<close>\<close>
  "interrupt_prefix source interrupt_k =
     (let mtimecmp_est = 100 + interrupt_k * 10 in
      if source = ''timer'' then
        Inr ([''lui   x2, 0x10104'', ''addi  x5, x0, __MTVEC_PLACEHOLDER__'', ''csrrw x0, mtvec, x5'',
              ''addi  x6, x0, 128'', ''csrrw x0, mie, x6''] @
             const_to_reg_instrs 7 mtimecmp_est False @ [''sw    x7, 0(x2)'', ''csrrsi x0, mstatus, 8''], 0x80000007)
      else if source = ''uart'' then
        Inr ([''lui   x1, 0x10000'', ''addi  x5, x0, __MTVEC_PLACEHOLDER__'', ''csrrw x0, mtvec, x5'',
              ''addi  x6, x0, -2048'', ''csrrw x0, mie, x6'', ''addi  x8, x0, 1'', ''sw    x8, 4(x1)'',
              ''csrrsi x0, mstatus, 8''], 0x8000000B)
      else if source = ''msi'' then
        Inr ([''lui   x2, 0x10100'', ''addi  x5, x0, __MTVEC_PLACEHOLDER__'', ''csrrw x0, mtvec, x5'',
              ''addi  x6, x0, 8'', ''csrrw x0, mie, x6'', ''addi  x7, x0, 1'', ''sw    x7, 0(x2)'',
              ''csrrsi x0, mstatus, 8''], 0x80000003)
      else if source = ''both'' then
        Inr ([''lui   x1, 0x10000'', ''lui   x2, 0x10104'', ''addi  x5, x0, __MTVEC_PLACEHOLDER__'', ''csrrw x0, mtvec, x5'',
              ''addi  x6, x0, -1920'', ''csrrw x0, mie, x6''] @
             const_to_reg_instrs 7 mtimecmp_est False @
             [''sw    x7, 0(x2)'', ''addi  x8, x0, 1'', ''sw    x8, 4(x1)'', ''csrrsi x0, mstatus, 8''], 0x8000000B)
      else Inl ValueError)"

definition with_interrupt :: "string \<Rightarrow> int \<Rightarrow> string list \<Rightarrow> (string list \<times> int) result" where
  "with_interrupt source interrupt_k out =
     rbind (interrupt_prefix source interrupt_k) (\<lambda>(prefix, cause).
       let handler_addr = (int (instr_count prefix) + int (instr_count out)) * 4 in
       Inr (patch_address ''__MTVEC_PLACEHOLDER__'' handler_addr prefix @ out @
              [''handler:'', ''csrrw x0, mie, x0'', ''mret''], cause))"

definition source_cost :: "string \<Rightarrow> int result" where
  "source_cost s =
     (if s = ''timer'' then Inr 4 else if s = ''uart'' then Inr 3 else if s = ''msi'' then Inr 3
      else if s = ''both'' then Inr 7 else Inl KeyError)"

definition gen_budget :: "int \<Rightarrow> string option \<Rightarrow> bool \<Rightarrow> nat \<Rightarrow> bool \<Rightarrow> int result" where
  "gen_budget n_instrs interrupt mmu xl ooo =
     rbind (case interrupt of None \<Rightarrow> Inr 0 | Some src \<Rightarrow> rbind (source_cost src) (\<lambda>c. Inr (5 + c + 2))) (\<lambda>interrupt_prefix_cost.
       let mmu_prefix_cost = (if mmu then (if xl \<ge> 64 then 24 else 13) else 0);
           xlen64_seed_cost = (if xl \<ge> 64 then (if ooo then 20 else 8) else 0);
           trailer_cost = (if ooo then OOO_TRAILER_NOP_COUNT else 1)
       in Inr (1 + (if ooo then 6 else 2) * int (length FLOAT_SEED_BITS) + xlen64_seed_cost + n_instrs + trailer_cost +
               interrupt_prefix_cost + mmu_prefix_cost))"

definition gen_program :: "nat list \<Rightarrow> int \<Rightarrow> int \<Rightarrow> int \<Rightarrow> string option \<Rightarrow> bool \<Rightarrow> nat \<Rightarrow> bool
    \<Rightarrow> (string \<times> (int \<times> int) option) result" where
  "gen_program seed n_instrs base_addr mem_size interrupt mmu xl ooo =
     (if interrupt \<noteq> None \<and> mmu then Inl ValueError
      else if ooo \<and> (interrupt \<noteq> None \<or> mmu) then Inl ValueError
      else let addr_space = (if mmu then min mem_size 4096 else mem_size) in
      rbind (gen_budget n_instrs interrupt mmu xl ooo) (\<lambda>budget.
        if budget > mem_size div 4 then Inl ValueError
        else if interrupt \<noteq> None \<and> n_instrs < 1 then Inl ValueError \<comment> \<open>\<open>rnd.randint(1, n_instrs)\<close>\<close>
        else let (interrupt_k, out) = fst (run_state (do {
                   k \<leftarrow> (if interrupt \<noteq> None then randint 1 n_instrs else State_Monad.return 0);
                   out \<leftarrow> gen_body (nat n_instrs) xl addr_space base_addr interrupt mmu ooo;
                   State_Monad.return (k, out) }) seed)
          in if mmu \<and> xl \<ge> 64 then Inr (join_lines (with_mmu_prefix sv39_prefix out), None)
          else if mmu then Inr (join_lines (with_mmu_prefix sv32_prefix out), None)
          else case interrupt of
              None \<Rightarrow> Inr (join_lines out, None)
            | Some src \<Rightarrow> rbind (with_interrupt src interrupt_k out)
                (\<lambda>(ls, cause). Inr (join_lines ls, Some (interrupt_k, cause)))))"

end
