(* ===== verification/Sim_Run.thy ===== *)
theory Sim_Run
  imports Asm Debugger
begin

text \<open>
  What the test driver, the benchmark runner and the profiler share: they call \<open>asm.py\<close> as a command, fill a
  testbench template with the paths and parameters of a run, start an external Verilog compiler and simulator on it, and read a
  dump of decimal numbers back. The Verilog tools are a parameter: a function from the memory image and the testbench
  text to a \<open>sim_reply\<close>.
\<close>

section \<open>Results over lists\<close>

fun rtraverse :: "('a \<Rightarrow> 'b result) \<Rightarrow> 'a list \<Rightarrow> 'b list result" where
  \<comment> \<open>\<open>[f(x) for x in xs]\<close> where \<open>f\<close> may raise\<close>
  "rtraverse f [] = Inr []"
| "rtraverse f (x # xs) = rbind (f x) (\<lambda>y. rbind (rtraverse f xs) (\<lambda>ys. Inr (y # ys)))"

definition list_at :: "'a list \<Rightarrow> nat \<Rightarrow> 'a result" where
  \<comment> \<open>\<open>xs[i]\<close> for \<open>i >= 0\<close>\<close>
  "list_at xs i = (if i < length xs then Inr (xs ! i) else Inl IndexError)"

lemma list_at_Inr [simp]: "list_at xs i = Inr x \<longleftrightarrow> i < length xs \<and> xs ! i = x"
  by (auto simp: list_at_def)

lemma rtraverse_Inr: "rtraverse f xs = Inr ys \<longleftrightarrow> list_all2 (\<lambda>x y. f x = Inr y) xs ys"
  by (induction xs arbitrary: ys) (auto simp: list_all2_Cons1)

lemma rtraverse_map: "(\<And>x. x \<in> set xs \<Longrightarrow> f x = Inr (g x)) \<Longrightarrow> rtraverse f xs = Inr (map g xs)"
  by (induction xs) auto

lemma rtraverse_Inl: "rtraverse f xs = Inl e \<Longrightarrow> \<exists>x \<in> set xs. f x = Inl e"
  by (induction xs) (auto simp: rbind_eq_Inl)

section \<open>The assembler as a command\<close>

definition asm_main :: "string \<Rightarrow> string \<Rightarrow> string \<Rightarrow> int \<Rightarrow> nat \<Rightarrow> (string \<times> string) option" where
  \<comment> \<open>source path and text, output path, \<open>--size\<close>, \<open>--xlen\<close>; the standard output and the written image, or \<open>None\<close> for a nonzero
    exit status (an assembler error, or a traceback)\<close>
  "asm_main source txt output size_bytes xl =
     (case assemble (text_lines txt) xl of
        Inl e \<Rightarrow> None
      | Inr ws \<Rightarrow>
          if size_bytes < 0 then None
          else (case write_mem ws (nat size_bytes) of
              Inl e \<Rightarrow> None
            | Inr file \<Rightarrow>
                Some (source @ '': '' @ py_str (int (length ws)) @ '' instructions -> '' @ output @ [CHR 0x0A], file)))"

section \<open>The simulator\<close>

record sim_reply =
  compile_rc :: int
  sim_rc :: int
  sim_stdout :: string
  sim_out :: "string option"
    \<comment> \<open>the file at the output path after the run\<close>

record rtl_config =
  hazard_strategy :: int
  pipeline_profile :: int
  branch_predictor :: int
  cache_mode :: int
  replacement_policy :: int
  mem_latency_i :: int
  mem_latency_d :: int
  victim_entries :: int
  burst_enable :: int
  mem_latency_d_burst :: int
  mshr_entries :: int
  l2_size :: int
  prefetch_mode :: int
  l2_ways :: int
  l2_replacement :: int

definition default_config :: rtl_config where
  "default_config =
     \<lparr>hazard_strategy = 0, pipeline_profile = 0, branch_predictor = 0, cache_mode = 0, replacement_policy = 0,
      mem_latency_i = 0, mem_latency_d = 0, victim_entries = 0, burst_enable = 0, mem_latency_d_burst = 0,
      mshr_entries = 1, l2_size = 0, prefetch_mode = 0, l2_ways = 4, l2_replacement = 0\<rparr>"

definition fill_template :: "(string \<times> string) list \<Rightarrow> string \<Rightarrow> string" where
  \<comment> \<open>\<open>tpl.replace(k1, v1).replace(k2, v2)...\<close>\<close>
  "fill_template holes tpl = foldl (\<lambda>t (k, v). py_replace k v t) tpl holes"

fun py_in :: "string \<Rightarrow> string \<Rightarrow> bool" where
  \<comment> \<open>\<open>p in s\<close>\<close>
  "py_in p [] \<longleftrightarrow> p = []"
| "py_in p (c # cs) \<longleftrightarrow> take (length p) (c # cs) = p \<or> py_in p cs"

definition read_ints :: "(int \<Rightarrow> int) \<Rightarrow> string \<Rightarrow> int list result" where
  \<comment> \<open>\<open>[f(int(l.strip())) for l in file if l.strip()]\<close>\<close>
  "read_ints f file =
     rtraverse (\<lambda>l. rbind (py_int10 l) (\<lambda>v. Inr (f v))) (filter (\<lambda>l. l \<noteq> []) (map py_strip (text_lines file)))"

end
