(* ===== verification/Random_Tests.thy ===== *)
theory Random_Tests
  imports Random_Gen Sim_Run
begin

text \<open>
  The random cross-check driver \<open>sim/tools/run_random_tests.py\<close>: generate a program, assemble it, run it on the reference simulator
  and on the RTL, and compare the final states. The Verilog tools, the template's text and the paths are parameters
  (record \<open>rig\<close>); \<open>random.Random(seed)\<close> is the list of naturals it delivers. A verdict keeps the class of a failure and, for
  a mismatch, the message; a result \<open>Inl\<close> is an exception the driver does not catch, and \<open>None\<close> a reference run that does not end.
\<close>

section \<open>The parts of a run\<close>

record rig =
  simulate :: "string \<Rightarrow> string \<Rightarrow> sim_reply"
    \<comment> \<open>from the memory image and the testbench\<close>
  template_text :: string
  window_template :: bool
    \<comment> \<open>whether the template is \<open>dump_regs_interrupt_template.v\<close>\<close>
  prog_s :: string
  prog_mem :: string
  init_file_rel :: string
  out_path :: string

datatype verdict =
    Pass
  | Assembler_error
  | No_count
  | Too_short
  | Iss_error py_error
  | Compile_error
  | Simulation_error
  | Timeout
  | Mismatch string

definition SCALEUP_WINDOW_BYTES :: int where
  "SCALEUP_WINDOW_BYTES = 65536"

definition match_count :: "string \<Rightarrow> int option" where
  \<comment> \<open>the pattern \<open>:\s*(\d+)\s+instructions\<close> at the head of the text\<close>
  "match_count s =
     (case s of
        [] \<Rightarrow> None
      | c # cs \<Rightarrow>
          let t = dropWhile py_isspace cs; r = dropWhile py_isdigit t in
          if c = CHR '':'' \<and> takeWhile py_isdigit t \<noteq> [] \<and> takeWhile py_isspace r \<noteq> [] \<and>
             take 12 (dropWhile py_isspace r) = ''instructions''
          then Some (int_dec (takeWhile py_isdigit t)) else None)"

fun search_count :: "string \<Rightarrow> int option" where
  \<comment> \<open>\<open>re.search\<close>\<close>
  "search_count [] = None"
| "search_count (c # cs) = (case match_count (c # cs) of Some n \<Rightarrow> Some n | None \<Rightarrow> search_count cs)"

definition hex8 :: "int \<Rightarrow> string" where
  \<comment> \<open>\<open>f"{v:#010x}"\<close>\<close>
  "hex8 v = ''0x'' @ pad0 8 (py_hex v)"

definition diff_line :: "string \<Rightarrow> (int \<Rightarrow> string) \<Rightarrow> int \<Rightarrow> int \<Rightarrow> string list" where
  \<comment> \<open>one comparison: nothing, or \<open>f"{name}: RTL={..} ISS={..}"\<close>\<close>
  "diff_line name fmt rtl ref = (if rtl \<noteq> ref then [name @ '': RTL='' @ fmt rtl @ '' ISS='' @ fmt ref] else [])"

definition diffs :: "(nat \<Rightarrow> string) \<Rightarrow> (int \<Rightarrow> string) \<Rightarrow> nat \<Rightarrow> int list \<Rightarrow> int list \<Rightarrow> string list result" where
  \<comment> \<open>\<open>for i in range(n): if rtl[i] != ref[i]: ...\<close>\<close>
  "diffs name fmt n rtl ref =
     rbind (rtraverse (\<lambda>i. rbind (list_at rtl i) (\<lambda>a. rbind (list_at ref i) (\<lambda>b. Inr (diff_line (name i) fmt a b)))) [0..<n])
       (\<lambda>ds. Inr (concat ds))"

fun join_semicolon :: "string list \<Rightarrow> string" where
  "join_semicolon [] = []"
| "join_semicolon (t # ts) = (if ts = [] then t else t @ ''; '' @ join_semicolon ts)"

definition judge :: "string list \<Rightarrow> verdict" where
  "judge mismatches =
     (if mismatches \<noteq> []
      then Mismatch (join_semicolon (take 8 mismatches) @ (if length mismatches > 8 then '' ...'' else ''''))
      else Pass)"

section \<open>The out-of-order core\<close>

definition compare_ooo :: "nat \<Rightarrow> nat \<Rightarrow> iss \<Rightarrow> string \<Rightarrow> verdict result" where
  \<comment> \<open>the dump file against the reference state\<close>
  "compare_ooo xl msize s file =
     (let reg_mask = 2 ^ xl - 1 in
      rbind (read_ints (\<lambda>v. v AND reg_mask) file) (\<lambda>vals.
        let rtl_regs = take 32 vals; rtl_mem = take msize (drop 32 vals); rtl_fregs = take 32 (drop (32 + msize) vals) in
        rbind (diffs (\<lambda>i. xr (int i)) hex_text 32 rtl_regs (regs s)) (\<lambda>d1.
        rbind (diffs (\<lambda>i. ''mem['' @ py_str (int i) @ '']'') hex_text msize rtl_mem (mem s)) (\<lambda>d2.
        rbind (diffs (\<lambda>i. fr (int i)) hex8 32 rtl_fregs (fregs s)) (\<lambda>d3.
        Inr (judge (d1 @ d2 @ d3)))))))"

definition ooo_testbench :: "rig \<Rightarrow> int \<Rightarrow> int \<Rightarrow> nat \<Rightarrow> string" where
  "ooo_testbench rg real_n_instrs msize xl =
     (let max_time = (real_n_instrs * 70 + 200) * 10 in
      fill_template
        [(''__INIT_FILE__'', init_file_rel rg), (''__MAX_TIME__'', py_str max_time), (''__OUT_FILE__'', out_path rg),
         (''__MEM_SIZE__'', py_str msize), (''__XLEN__'', py_str (int xl)),
         (''__TARGET_RETIRED__'', py_str (real_n_instrs - OOO_TRAILER_NOP_COUNT))] (template_text rg))"

definition judge_reply_ooo :: "nat \<Rightarrow> int \<Rightarrow> iss \<Rightarrow> sim_reply \<Rightarrow> verdict result" where
  "judge_reply_ooo xl msize s r =
     (if compile_rc r \<noteq> 0 then Inr Compile_error
      else case sim_out r of
        None \<Rightarrow> Inr Simulation_error
      | Some file \<Rightarrow>
          if sim_rc r \<noteq> 0 then Inr Simulation_error
          else if py_in ''TIMEOUT'' (sim_stdout r) then Inr Timeout
          else compare_ooo xl (nat msize) s file)"

definition run_one_ooo :: "rig \<Rightarrow> nat list \<Rightarrow> int \<Rightarrow> int \<Rightarrow> nat \<Rightarrow> verdict result option" where
  "run_one_ooo rg seed n_instrs msize xl =
     (case gen_program seed n_instrs 32 msize None False xl True of
        Inl e \<Rightarrow> Some (Inl e)
      | Inr (txt, irq) \<Rightarrow>
      case asm_main (prog_s rg) txt (prog_mem rg) msize xl of
        None \<Rightarrow> Some (Inr Assembler_error)
      | Some (stdout, img) \<Rightarrow>
      case search_count stdout of
        None \<Rightarrow> Some (Inr No_count)
      | Some real_n_instrs \<Rightarrow>
      if real_n_instrs - OOO_TRAILER_NOP_COUNT \<le> 0 then Some (Inr Too_short)
      else case load_words img of
        Inl e \<Rightarrow> Some (Inl e)
      | Inr ws \<Rightarrow>
      case run (iss_init msize xl) ws 5000 of
        None \<Rightarrow> None
      | Some (Inl e) \<Rightarrow> Some (Inr (Iss_error e))
      | Some (Inr (s, steps)) \<Rightarrow>
          Some (judge_reply_ooo xl msize s (simulate rg img (ooo_testbench rg real_n_instrs msize xl))))"

section \<open>The pipelined core\<close>

definition compare_state :: "nat \<Rightarrow> nat \<Rightarrow> iss \<Rightarrow> string \<Rightarrow> verdict result" where
  "compare_state xl mem_window s file =
     (let reg_mask = 2 ^ xl - 1 in
      rbind (read_ints (\<lambda>v. v AND reg_mask) file) (\<lambda>vals.
        let rtl_regs = take 32 vals; rtl_mem = take mem_window (drop 32 vals); rtl_fregs = take 32 (drop (32 + mem_window) vals) in
        rbind (list_at vals (32 + mem_window + 32)) (\<lambda>rtl_fflags.
        rbind (list_at vals (32 + mem_window + 33)) (\<lambda>rtl_frm.
        rbind (diffs (\<lambda>i. xr (int i)) hex_text 32 rtl_regs (regs s)) (\<lambda>d1.
        rbind (diffs (\<lambda>i. ''mem['' @ py_str (int i) @ '']'') hex_text mem_window rtl_mem (mem s)) (\<lambda>d2.
        rbind (diffs (\<lambda>i. fr (int i)) hex8 32 rtl_fregs (fregs s)) (\<lambda>d3.
        Inr (judge (d1 @ d2 @ d3 @ diff_line ''fflags'' hex_text rtl_fflags (fflags s) @
               diff_line ''frm'' hex_text rtl_frm (frm s))))))))))"

definition uart_stimulus :: "string option \<Rightarrow> string" where
  "uart_stimulus interrupt =
     (if interrupt = Some ''uart'' \<or> interrupt = Some ''both''
      then ''repeat (5) @(posedge clk);'' @ [CHR 0x0A] @ ''        drive_rx_byte(8'' @ [CHR 0x27] @ ''hA5);'' else [])"

definition testbench :: "rig \<Rightarrow> rtl_config \<Rightarrow> string option \<Rightarrow> int \<Rightarrow> int \<Rightarrow> int \<Rightarrow> nat \<Rightarrow> string" where
  "testbench rg cfg interrupt real_n_instrs msize dump_window xl =
     (let max_time = (real_n_instrs * 70 + 200) * 10 + (if cache_mode cfg \<noteq> 0 then 4000 else 0) in
      fill_template
        [(''__INIT_FILE__'', init_file_rel rg), (''__MAX_TIME__'', py_str max_time), (''__OUT_FILE__'', out_path rg),
         (''__HAZARD_STRATEGY__'', py_str (hazard_strategy cfg)), (''__PIPELINE_PROFILE__'', py_str (pipeline_profile cfg)),
         (''__MEM_SIZE__'', py_str msize), (''__DUMP_WINDOW__'', py_str dump_window),
         (''__BRANCH_PREDICTOR__'', py_str (branch_predictor cfg)), (''__CACHE_MODE__'', py_str (cache_mode cfg)),
         (''__REPLACEMENT_POLICY__'', py_str (replacement_policy cfg)), (''__VICTIM_ENTRIES__'', py_str (victim_entries cfg)),
         (''__MSHR_ENTRIES__'', py_str (mshr_entries cfg)), (''__L2_SIZE_BYTES__'', py_str (l2_size cfg)),
         (''__L2_WAYS__'', py_str (l2_ways cfg)), (''__L2_REPLACEMENT_POLICY__'', py_str (l2_replacement cfg)),
         (''__BURST_ENABLE__'', py_str (burst_enable cfg)), (''__MEM_LATENCY_D_BURST__'', py_str (mem_latency_d_burst cfg)),
         (''__MEM_LATENCY_I__'', py_str (mem_latency_i cfg)), (''__MEM_LATENCY_D__'', py_str (mem_latency_d cfg)),
         (''__XLEN__'', py_str (int xl)), (''__PREFETCH_MODE__'', py_str (prefetch_mode cfg)),
         (''__UART_STIMULUS__'', uart_stimulus interrupt)] (template_text rg))"

definition judge_reply :: "nat \<Rightarrow> int \<Rightarrow> iss \<Rightarrow> sim_reply \<Rightarrow> verdict result" where
  "judge_reply xl mem_window s r =
     (if compile_rc r \<noteq> 0 then Inr Compile_error
      else case sim_out r of
        None \<Rightarrow> Inr Simulation_error
      | Some file \<Rightarrow> if sim_rc r \<noteq> 0 then Inr Simulation_error else compare_state xl (nat mem_window) s file)"

definition run_one :: "rig \<Rightarrow> rtl_config \<Rightarrow> nat list \<Rightarrow> int \<Rightarrow> int \<Rightarrow> string option \<Rightarrow> bool \<Rightarrow> nat \<Rightarrow> verdict result option" where
  "run_one rg cfg seed n_instrs msize interrupt mmu xl =
     (case gen_program seed n_instrs 32 msize interrupt mmu xl False of
        Inl e \<Rightarrow> Some (Inl e)
      | Inr (txt, interrupt_info) \<Rightarrow>
      let dump_window = min msize SCALEUP_WINDOW_BYTES in
      case asm_main (prog_s rg) txt (prog_mem rg) dump_window xl of
        None \<Rightarrow> Some (Inr Assembler_error)
      | Some (stdout, img) \<Rightarrow>
      let real_n_instrs = (case search_count stdout of Some m \<Rightarrow> m | None \<Rightarrow> n_instrs) in
      case load_words img of
        Inl e \<Rightarrow> Some (Inl e)
      | Inr ws \<Rightarrow>
      let reset = iss_init msize xl;
          iss = (case interrupt_info of Some (k, cause) \<Rightarrow> schedule_interrupt reset k cause | None \<Rightarrow> reset) in
      case run iss ws 5000 of
        None \<Rightarrow> None
      | Some (Inl e) \<Rightarrow> Some (Inr (Iss_error e))
      | Some (Inr (s, steps)) \<Rightarrow>
          let mem_window = (if window_template rg then dump_window else msize) in
          Some (judge_reply xl mem_window s (simulate rg img (testbench rg cfg interrupt real_n_instrs msize dump_window xl))))"

section \<open>The sweep\<close>

record sweep_args =
  arg_interrupt :: "string option"
  arg_mmu :: bool
  arg_ooo :: bool
  arg_mem_size :: "int option"
  arg_xlen :: nat

definition sweep_excluded :: "sweep_args \<Rightarrow> bool" where
  \<comment> \<open>the two checks that exit with status 2\<close>
  "sweep_excluded a \<longleftrightarrow>
     arg_ooo a \<and> (arg_interrupt a \<noteq> None \<or> arg_mmu a) \<or> arg_interrupt a \<noteq> None \<and> arg_mmu a"

definition sweep_mem_size :: "sweep_args \<Rightarrow> int" where
  "sweep_mem_size a =
     (case arg_mem_size a of
        Some m \<Rightarrow> m
      | None \<Rightarrow>
          if arg_ooo a then 512
          else if arg_mmu a then (if arg_xlen a = 64 then 16384 else 8192)
          else if arg_interrupt a \<noteq> None then 256 else 128)"

definition sweep_window_template :: "sweep_args \<Rightarrow> bool" where
  "sweep_window_template a \<longleftrightarrow>
     arg_interrupt a \<noteq> None \<or> arg_mmu a \<or> (case arg_mem_size a of Some m \<Rightarrow> m \<noteq> 128 | None \<Rightarrow> False)"

fun tally :: "(int \<Rightarrow> verdict result option) \<Rightarrow> int list \<Rightarrow> nat \<Rightarrow> nat \<Rightarrow> (nat \<times> nat) result option" where
  \<comment> \<open>the loop over the seeds: passed and failed\<close>
  "tally run1 [] passed failed = Some (Inr (passed, failed))"
| "tally run1 (seed # seeds) passed failed =
     (case run1 seed of
        None \<Rightarrow> None
      | Some (Inl e) \<Rightarrow> Some (Inl e)
      | Some (Inr v) \<Rightarrow> if v = Pass then tally run1 seeds (passed + 1) failed else tally run1 seeds passed (failed + 1))"

definition sweep :: "(int \<Rightarrow> rig) \<Rightarrow> (int \<Rightarrow> nat list) \<Rightarrow> rtl_config \<Rightarrow> sweep_args \<Rightarrow> int \<Rightarrow> int \<Rightarrow> nat \<Rightarrow> int result option" where
  \<comment> \<open>\<open>main\<close>: the exit status; \<open>rng\<close> is the random source of a seed and the rig has the paths of the seed\<close>
  "sweep rigs rng cfg a n_instrs seed_start count =
     (if sweep_excluded a then Some (Inr 2)
      else
        let msize = sweep_mem_size a;
            run1 = (\<lambda>seed.
              if arg_ooo a then run_one_ooo (rigs seed) (rng seed) n_instrs msize (arg_xlen a)
              else run_one (rigs seed\<lparr>window_template := sweep_window_template a\<rparr>) cfg (rng seed) n_instrs msize
                     (arg_interrupt a) (arg_mmu a) (arg_xlen a)) in
        (case tally run1 (map (\<lambda>i. seed_start + int i) [0..<count]) 0 0 of
           None \<Rightarrow> None
         | Some (Inl e) \<Rightarrow> Some (Inl e)
         | Some (Inr (passed, failed)) \<Rightarrow> Some (Inr (if failed = 0 then 0 else 1))))"

end
