(* ===== verification/Iss_Straight.thy ===== *)
theory Iss_Straight
  imports Iss_Step_Props Asm_Props
begin

text \<open>
  Straight-line execution in M-mode: for which instruction words \<open>step\<close> always succeeds and falls through to the next word, what
  such a step leaves alone, and that a program of straight-line words and forward jumps reaches its final
  self-loop under \<open>run\<close>.
\<close>

section \<open>Quiet changes\<close>

text \<open>
  A change that keeps the privilege mode, the scheduled interrupt, every integer register but one, and
  every memory cell outside a set.
\<close>

definition quiet :: "int \<Rightarrow> nat set \<Rightarrow> iss \<Rightarrow> iss \<Rightarrow> bool" where
  "quiet rd W s s' \<longleftrightarrow> priv_mode s' = priv_mode s \<and> pending_interrupt s' = pending_interrupt s \<and> mem_mask s' = mem_mask s \<and>
     (\<forall>r. r \<noteq> nat rd \<longrightarrow> regs s' ! r = regs s ! r) \<and> (\<forall>i. i \<notin> W \<longrightarrow> mem s' ! i = mem s ! i)"

named_theorems quiet_intros \<open>quiet changes of the state\<close>

lemma quiet_refl [quiet_intros]: "quiet rd W s s"
  by (simp add: quiet_def)

lemma quiet_pc [quiet_intros]: "quiet rd W s s' \<Longrightarrow> quiet rd W s (s'\<lparr>pc := p\<rparr>)"
  by (simp add: quiet_def)

lemma quiet_wr [quiet_intros]: "quiet rd W s s' \<Longrightarrow> quiet rd W s (wr s' rd v)"
  by (auto simp: quiet_def wr_def)

lemma quiet_fp [quiet_intros]:
  "quiet rd W s s' \<Longrightarrow> quiet rd W s (wr_f s' r v)"
  "quiet rd W s s' \<Longrightarrow> quiet rd W s (set_fflags s' f)"
  by (simp_all add: quiet_def wr_f_def set_fflags_def)

lemma quiet_put [quiet_intros]:
  "quiet rd W s s' \<Longrightarrow> quiet rd W s (put_f s' r x)"
  "quiet rd W s s' \<Longrightarrow> quiet rd W s (put_x s' rd x)"
  by (simp_all add: put_f_def put_x_def quiet_intros)

lemma quiet_csr_write [quiet_intros]: "quiet rd W s s' \<Longrightarrow> quiet rd W s (csr_write s' a v)"
  by (auto simp: quiet_def csr_write_def csr_store_def csr_set_def Let_def)

text \<open>The memory cells of \<open>n\<close> bytes from an address.\<close>

definition cells :: "iss \<Rightarrow> int \<Rightarrow> nat \<Rightarrow> nat set" where
  "cells s a n = (\<lambda>i. nat ((a + int i) AND mem_mask s)) ` {..<n}"

lemma quiet_store_byte: "quiet rd W s s' \<Longrightarrow> nat (a AND mem_mask s) \<in> W \<Longrightarrow> quiet rd W s (store_mem_byte s' a v)"
  by (auto simp: quiet_def store_mem_byte_def) (metis nth_list_update_neq)

lemma quiet_store_bytes: "cells s a n \<subseteq> W \<Longrightarrow> quiet rd W s (store_bytes s a v n)"
proof -
  assume W: "cells s a n \<subseteq> W"
  have "quiet rd W s (foldl (\<lambda>s i. store_mem_byte s (a + int i) (drop_bit (8 * i) v)) s [0..<m])" if "m \<le> n" for m
    using that
  proof (induction m)
    case (Suc m)
    then have "nat ((a + int m) AND mem_mask s) \<in> W" using W by (auto simp: cells_def)
    then show ?case using Suc by (simp add: quiet_store_byte)
  qed (simp add: quiet_intros)
  then show ?thesis unfolding store_bytes_def by blast
qed

definition falls_through :: "int \<Rightarrow> nat set \<Rightarrow> iss \<Rightarrow> iss result \<Rightarrow> bool" where
  "falls_through rd W s r \<longleftrightarrow> (\<exists>s'. r = Inr s' \<and> pc s' = pc s + 4 \<and> quiet rd W s s')"

lemma falls_throughI: "quiet rd W s s' \<Longrightarrow> falls_through rd W s (Inr (s'\<lparr>pc := next_pc s\<rparr>))"
  by (simp add: falls_through_def next_pc_def quiet_intros)

lemma falls_through_wr_next: "falls_through rd W s (Inr (wr_next s rd v))"
  unfolding wr_next_def by (intro falls_throughI quiet_intros)

lemma falls_through_result: "\<exists>v. r = Inr v \<Longrightarrow> falls_through rd W s (rbind r (\<lambda>v. Inr (wr_next s rd v)))"
  by (auto intro: falls_through_wr_next)

section \<open>Straight-line words\<close>

definition imm_ok :: "int \<Rightarrow> bool" where
  \<comment> \<open>an OP-IMM word is not one of the unused SHA-2 encodings\<close>
  "imm_ok w \<longleftrightarrow> \<not> (dec_f3 w = 1 \<and> dec_f6 w = 4 \<and> sha_fn (drop_bit 20 w AND 0x1F) = None)"

definition fp_funct5s :: "int set" where
  "fp_funct5s = {0, 1, 2, 3, 0b01011, 0b00100, 0b00101, 0b10100, 0b11000, 0b11010, 0b11100, 0b11110}"

definition straight :: "int \<Rightarrow> bool" where
  "straight w \<longleftrightarrow>
     dec_op w = OP_R \<and> (dec_f7 w, dec_f3 w) \<in> snd ` set R_TYPE \<or>
     dec_op w = OP_32 \<and> (dec_f7 w, dec_f3 w) \<in> snd ` set R_TYPE_W \<or>
     dec_op w = OP_I \<and> imm_ok w \<or>
     dec_op w = OP_IMM_32 \<and> dec_f3 w \<in> {0, 1, 5} \<or>
     dec_op w = OP_LOAD \<and> dec_f3 w \<in> snd ` set LOAD \<or>
     dec_op w = OP_STORE \<and> dec_f3 w \<in> snd ` set STORE \<or>
     dec_op w \<in> {OP_LUI, OP_AUIPC, OP_LOAD_FP, OP_STORE_FP, 0b1000011, 0b1000111, 0b1001011, 0b1001111} \<or>
     dec_op w = OP_SYSTEM \<and> dec_f3 w \<noteq> 0 \<or>
     dec_op w = OP_FP \<and> drop_bit 27 w AND 0x1F \<in> fp_funct5s \<or>
     dec_op w = OP_MISC_MEM \<and> dec_f3 w = 0"

definition x_dest :: "int \<Rightarrow> int" where
  \<comment> \<open>the integer register a straight-line word writes, 0 for none\<close>
  "x_dest w =
     (if dec_op w \<in> {OP_STORE, OP_STORE_FP, OP_LOAD_FP, OP_MISC_MEM, 0b1000011, 0b1000111, 0b1001011, 0b1001111} \<or>
         dec_op w = OP_FP \<and> drop_bit 27 w AND 0x1F \<notin> {0b10100, 0b11000, 0b11100}
      then 0 else dec_rd w)"

definition written :: "iss \<Rightarrow> int \<Rightarrow> nat set" where
  \<comment> \<open>the memory cells a straight-line word writes\<close>
  "written s w =
     (if dec_op w = OP_STORE then cells s (uxlen s (uxlen s (reg_A s w + dec_imm_s w))) (2 ^ nat (dec_f3 w))
      else if dec_op w = OP_STORE_FP then cells s (uxlen s (uxlen s (reg_A s w + dec_imm_s w))) 4 else {})"

lemma op_r_defined: "(f7, f3) \<in> snd ` set R_TYPE \<Longrightarrow> \<exists>v. op_r_result xl f7 f3 A B = Inr v"
  unfolding R_TYPE_def list.set image_insert image_empty
  by (elim insertE emptyE; simp add: op_r_result_def op_r_ext_def op_r_base_def Let_def)

lemma op_32_defined: "(f7, f3) \<in> snd ` set R_TYPE_W \<Longrightarrow> \<exists>v. op_32_result f7 f3 A B = Inr v"
  unfolding R_TYPE_W_def list.set image_insert image_empty
  by (elim insertE emptyE; simp add: op_32_result_def Let_def)

lemma chain_caseE:
  assumes "(if c then Some r else e) = Some x" and "c \<Longrightarrow> r = x \<Longrightarrow> P" and "e = Some x \<Longrightarrow> P"
  shows P
  using assms by (auto split: if_splits)

lemma op_imm_defined: "imm_ok w \<Longrightarrow> \<exists>v. op_imm_result xl w A = Inr v"
proof -
  assume ok: "imm_ok w"
  have f3: "fits 3 (dec_f3 w)" by (simp add: dec_f3_def mask_simps)
  then have "dec_f3 w \<in> {0, 1, 2, 3, 4, 5, 6, 7}" by (auto simp: fits_def)
  then have "\<exists>v. op_imm_base xl w A = Inr v"
    by (elim insertE emptyE) (simp_all add: op_imm_base_def Let_def split: prod.split)
  moreover have "\<exists>v. r = Inr v" if "op_imm_ext xl w A = Some r" for r
    using that ok unfolding op_imm_ext_def Let_def imm_ok_def
    by (elim chain_caseE) (auto split: option.splits)
  ultimately show ?thesis by (auto simp: op_imm_result_def split: option.split)
qed

lemma op_imm_32_defined: "dec_f3 w \<in> {0, 1, 5} \<Longrightarrow> \<exists>v. op_imm_32_result w A = Inr v"
  by (elim insertE emptyE) (simp_all add: op_imm_32_result_def Let_def)

lemma arith_falls_through:
  "(dec_f7 w, dec_f3 w) \<in> snd ` set R_TYPE \<Longrightarrow> falls_through (dec_rd w) W s (step_op s w)"
  "(dec_f7 w, dec_f3 w) \<in> snd ` set R_TYPE_W \<Longrightarrow> falls_through (dec_rd w) W s (step_op_32 s w)"
  "imm_ok w \<Longrightarrow> falls_through (dec_rd w) W s (step_op_imm s w)"
  "dec_f3 w \<in> {0, 1, 5} \<Longrightarrow> falls_through (dec_rd w) W s (step_op_imm_32 s w)"
  unfolding step_op_def step_op_32_def step_op_imm_def step_op_imm_32_def
  by (intro falls_through_result op_r_defined op_32_defined op_imm_defined op_imm_32_defined; assumption)+

lemma translate_M: "priv_mode s = PRIV_M \<Longrightarrow> translate s a ac = (s, Some (uxlen s a))"
  by (simp add: translate_def Let_def)

lemma load_falls_through:
  assumes "priv_mode s = PRIV_M" "dec_f3 w \<in> snd ` set LOAD"
  shows "falls_through (dec_rd w) W s (step_load s w)"
proof -
  have "\<exists>v. load_value s a (dec_f3 w) = Inr v" for a
    using assms(2) unfolding LOAD_def list.set image_insert image_empty
    by (elim insertE emptyE; simp add: load_value_def Let_def)
  then show ?thesis unfolding step_load_def translate_M [OF assms(1)] by (auto intro: falls_through_result)
qed

lemma store_as_bytes:
  "store_mem_byte (store_mem_byte s a v) (a + 1) (drop_bit 8 v) = store_bytes s a v 2"
  "store_mem_byte s a v = store_bytes s a v 1"
  by (simp_all add: store_bytes_def upt_rec numeral_eq_Suc)

lemma store_value_quiet:
  "f3 \<in> {0, 1, 2, 3} \<Longrightarrow> \<exists>s'. store_value s a f3 B = Inr s' \<and> quiet rd (cells s a (2 ^ nat f3)) s s'"
  using quiet_store_bytes [of s a _ _ rd B]
  by (elim insertE emptyE) (simp_all add: store_value_def store_as_bytes(1), simp add: store_as_bytes(2))

lemma store_falls_through:
  assumes "priv_mode s = PRIV_M" "dec_op w = OP_STORE" "dec_f3 w \<in> snd ` set STORE"
  shows "falls_through rd (written s w) s (step_store s w)"
proof -
  have "dec_f3 w \<in> {0, 1, 2, 3}" using assms(3) by (auto simp: STORE_def)
  from store_value_quiet [OF this, of s "uxlen s (uxlen s (reg_A s w + dec_imm_s w))" "reg_B s w" rd] show ?thesis
    using assms(2) unfolding step_store_def translate_M [OF assms(1)] written_def by (auto intro: falls_throughI)
qed

lemma fsw_falls_through:
  assumes "priv_mode s = PRIV_M" "dec_op w = OP_STORE_FP"
  shows "falls_through rd (written s w) s (step_fsw s w)"
  using assms(2) unfolding step_fsw_def translate_M [OF assms(1)] written_def
  by (auto intro!: falls_throughI quiet_store_bytes)

lemma fp_falls_through:
  assumes "wf_iss s" "drop_bit 27 w AND 0x1F \<in> fp_funct5s" "dec_op w = OP_FP"
  shows "falls_through (x_dest w) W s (step_op_fp s w)"
proof -
  have f: "fits 32 (fregs s ! nat (dec_rs1 w))" "fits 32 (fregs s ! nat (dec_rs2 w))"
    using assms(1) by (simp_all add: freg_fits)
  have "\<exists>s'. op_fp s w = Inr s' \<and> quiet (x_dest w) W s s'"
    using assms(2) f_add_ok [OF f] f_mul_ok f_div_ok f_sqrt_ok [OF f(1)] f_cvt_from_int_ok [OF fits_u32]
    unfolding fp_funct5s_def fp_result_ok_def
    by (elim insertE emptyE; simp add: op_fp_def Let_def x_dest_def assms(3))
      (metis rbind_simps(2) quiet_intros)+
  then show ?thesis unfolding step_op_fp_def by (auto intro: falls_throughI)
qed

lemma system_falls_through:
  assumes "wf_iss s" "priv_mode s = PRIV_M" "dec_f3 w \<noteq> 0"
  shows "falls_through (dec_rd w) W s (step_system s w)"
proof -
  have "\<not> priv_mode s < x AND 3" for x
    using assms(2) take_bit_int_less_exp [of 2 x] by (simp add: mask_simps)
  then show ?thesis
    using assms(3) unfolding step_system_def step_csr_def Let_def
    by (simp add: falls_throughI quiet_intros)
qed

lemma falls_fp: "r = Inr x \<Longrightarrow> falls_through rd W s (rbind r (\<lambda>r. Inr ((put_f s d r)\<lparr>pc := next_pc s\<rparr>)))"
  by (simp add: falls_throughI quiet_intros)

lemma other_falls_through:
  assumes "priv_mode s = PRIV_M"
  shows "falls_through (dec_rd w) W s (step_lui s w)" "falls_through (dec_rd w) W s (step_auipc s w)"
    "falls_through rd W s (step_flw s w)" "falls_through rd W s (step_madd s w)" "falls_through rd W s (Inr (s\<lparr>pc := next_pc s\<rparr>))"
proof -
  show "falls_through (dec_rd w) W s (step_lui s w)" "falls_through (dec_rd w) W s (step_auipc s w)"
    unfolding step_lui_def step_auipc_def by (rule falls_through_wr_next)+
  show "falls_through rd W s (step_flw s w)"
    unfolding step_flw_def translate_M [OF assms] by (simp add: falls_throughI quiet_intros)
  show "falls_through rd W s (step_madd s w)"
    using f_madd_ok unfolding step_madd_def Let_def fp_result_ok_def by (metis falls_fp)
  show "falls_through rd W s (Inr (s\<lparr>pc := next_pc s\<rparr>))" by (intro falls_throughI quiet_intros)
qed

lemma step_dispatch:
  "dec_op w = OP_I \<Longrightarrow> step s w = step_op_imm s w"
  "dec_op w = OP_IMM_32 \<Longrightarrow> step s w = step_op_imm_32 s w"
  "dec_op w = OP_AUIPC \<Longrightarrow> step s w = step_auipc s w"
  "dec_op w = OP_SYSTEM \<Longrightarrow> step s w = step_system s w"
  "dec_op w = OP_LOAD_FP \<Longrightarrow> step s w = step_flw s w"
  "dec_op w = OP_STORE_FP \<Longrightarrow> step s w = step_fsw s w"
  "dec_op w = OP_FP \<Longrightarrow> step s w = step_op_fp s w"
  "dec_op w \<in> {0b1000011, 0b1000111, 0b1001011, 0b1001111} \<Longrightarrow> step s w = step_madd s w"
  "dec_op w = OP_MISC_MEM \<Longrightarrow> dec_f3 w = 0 \<Longrightarrow> step s w = Inr (s\<lparr>pc := next_pc s\<rparr>)"
  by (auto simp: step_def dec_op_def)

lemma x_dest_eq:
  "dec_op w \<in> {OP_R, OP_32, OP_I, OP_IMM_32, OP_LOAD, OP_LUI, OP_AUIPC, OP_SYSTEM} \<Longrightarrow> x_dest w = dec_rd w"
  by (auto simp: x_dest_def)

lemma straight_falls_through:
  assumes "wf_iss s" "priv_mode s = PRIV_M" "straight w"
  shows "falls_through (x_dest w) (written s w) s (step s w)"
  using assms(3) unfolding straight_def
  by (elim disjE conjE insertE emptyE)
    (simp_all add: x_dest_eq step_dispatch step_by_opcode arith_falls_through load_falls_through store_falls_through
      fsw_falls_through system_falls_through other_falls_through fp_falls_through assms)

lemma straight_step:
  assumes "wf_iss s" "priv_mode s = PRIV_M" "straight w"
  obtains s' where "step s w = Inr s'" "wf_iss s'" "pc s' = pc s + 4" "quiet (x_dest w) (written s w) s s'" "xlen s' = xlen s"
proof -
  obtain s' where s': "step s w = Inr s'" "pc s' = pc s + 4" "quiet (x_dest w) (written s w) s s'"
    using straight_falls_through [OF assms] unfolding falls_through_def by blast
  moreover have "wf_iss s'" using ok_step [OF assms(1), of w] s'(1) by simp
  ultimately show thesis using step_config [OF s'(1)] that by blast
qed

lemma straight_not_loop: "straight w \<Longrightarrow> \<not> self_loop w"
  by (auto simp: straight_def self_loop_def dec_op_def)

section \<open>Forward programs halt\<close>

text \<open>
  The word at index \<open>i\<close> of a program is straight-line, or a branch or jump to a later index, not beyond \<open>n\<close>. It does not
  write the register \<open>x\<close>, and a store goes to one of the \<open>m\<close> bytes from the address in \<open>x\<close>.
\<close>

definition store_size :: "int \<Rightarrow> nat" where
  "store_size w = (if dec_op w = OP_STORE then 2 ^ nat (dec_f3 w) else 4)"

definition tame :: "int \<Rightarrow> int \<Rightarrow> int \<Rightarrow> bool" where
  "tame x m w \<longleftrightarrow> straight w \<and> x_dest w \<noteq> x \<and>
     (dec_op w \<in> {OP_STORE, OP_STORE_FP} \<longrightarrow> dec_rs1 w = x \<and> 0 \<le> dec_imm_s w \<and> dec_imm_s w + int (store_size w) \<le> m)"

definition moves_forward :: "int \<Rightarrow> int \<Rightarrow> nat \<Rightarrow> nat \<Rightarrow> int \<Rightarrow> bool" where
  "moves_forward x m n i w \<longleftrightarrow>
     tame x m w \<or>
     (\<exists>j>i. j \<le> n \<and> (dec_op w = OP_BRANCH \<and> dec_imm_b w = 4 * (int j - int i) \<or>
        dec_op w = OP_JAL \<and> dec_imm_j w = 4 * (int j - int i) \<and> dec_rd w \<noteq> x))"

lemma moves_forward_not_loop: "moves_forward x m n i w \<Longrightarrow> \<not> self_loop w"
  by (auto simp: moves_forward_def tame_def dest: straight_not_loop) (auto simp: self_loop_def dec_op_def)

lemma dec_rd_nonneg [simp]: "0 \<le> dec_rd w" "0 \<le> x_dest w"
  by (simp_all add: dec_rd_def x_dest_def)

lemma uxlen_small: "wf_iss s \<Longrightarrow> 0 \<le> a \<Longrightarrow> a < 2 ^ 32 \<Longrightarrow> uxlen s a = a"
  using wf_issD(1) [of s] by (auto simp: uxlen_def fits_def)

text \<open>What a run keeps: the mode, the absence of a scheduled interrupt, the register \<open>x\<close>, and memory outside its \<open>m\<close> bytes.\<close>

definition keeps :: "int \<Rightarrow> int \<Rightarrow> iss \<Rightarrow> iss \<Rightarrow> bool" where
  "keeps x m s s' \<longleftrightarrow> wf_iss s' \<and> priv_mode s' = priv_mode s \<and> pending_interrupt s' = pending_interrupt s \<and>
     mem_mask s' = mem_mask s \<and> regs s' ! nat x = regs s ! nat x \<and>
     (\<forall>i. int i < regs s ! nat x \<or> regs s ! nat x + m \<le> int i \<longrightarrow> mem s' ! i = mem s ! i)"

lemma keeps_trans: "keeps x m s s' \<Longrightarrow> keeps x m s' s'' \<Longrightarrow> keeps x m s s''"
  by (auto simp: keeps_def)

lemma quiet_keeps:
  assumes "quiet rd W s s'" "wf_iss s'" "rd \<noteq> x" "0 \<le> rd" "0 \<le> x"
    "\<forall>i \<in> W. regs s ! nat x \<le> int i \<and> int i < regs s ! nat x + m"
  shows "keeps x m s s'"
proof -
  have "nat x \<noteq> nat rd" using assms(3-5) by simp
  moreover have "i \<notin> W" if "int i < regs s ! nat x \<or> regs s ! nat x + m \<le> int i" for i using assms(6) that by fastforce
  ultimately show ?thesis using assms(1,2) by (simp add: quiet_def keeps_def)
qed

text \<open>The \<open>m\<close> bytes from the address in \<open>x\<close> lie in the memory.\<close>

definition window :: "int \<Rightarrow> int \<Rightarrow> iss \<Rightarrow> bool" where
  "window x m s \<longleftrightarrow> (\<exists>k\<le>32. mem_mask s = 2 ^ k - 1 \<and> 0 \<le> regs s ! nat x \<and> regs s ! nat x + m \<le> 2 ^ k)"

lemma tame_written:
  assumes "wf_iss s" "tame x m w" "window x m s" "i \<in> written s w"
  shows "regs s ! nat x \<le> int i \<and> int i < regs s ! nat x + m"
proof -
  obtain k where k: "k \<le> 32" "mem_mask s = 2 ^ k - 1" "0 \<le> regs s ! nat x" "regs s ! nat x + m \<le> 2 ^ k"
    using assms(3) by (auto simp: window_def)
  have w: "dec_rs1 w = x" "0 \<le> dec_imm_s w" "dec_imm_s w + int (store_size w) \<le> m" "dec_op w \<in> {OP_STORE, OP_STORE_FP}"
    using assms(2,4) by (auto simp: tame_def written_def split: if_splits)
  define a where "a = regs s ! nat x + dec_imm_s w"
  have p: "(2::int) ^ k \<le> 2 ^ 32" using k(1) by (intro power_increasing) auto
  have z: "0 < store_size w" by (simp add: store_size_def)
  then have a: "0 \<le> a" "a + int (store_size w) \<le> 2 ^ k" using w(2,3) k(3,4) by (auto simp: a_def)
  then have "a < 2 ^ 32" using p z by linarith
  then have "uxlen s (uxlen s (reg_A s w + dec_imm_s w)) = a" using a(1) assms(1) w(1) by (simp add: a_def reg_A_def uxlen_small)
  then obtain j where j: "j < store_size w" "i = nat ((a + int j) AND mem_mask s)"
    using assms(4) w(4) by (auto simp: written_def cells_def store_size_def split: if_splits)
  have "(a + int j) AND mem_mask s = a + int j"
    using a j(1) unfolding k(2) by (simp add: and_mask_power take_bit_int_eq_self)
  then have "int i = a + int j" using a(1) j(2) by simp
  then show ?thesis using w(2,3) j(1) by (auto simp: a_def)
qed

lemma forward_step:
  assumes "wf_iss s" "priv_mode s = PRIV_M" "pc s = 4 * int i" "moves_forward x m n i w" "i < n" "4 * n < 2 ^ 32" "0 \<le> x" "window x m s"
  obtains s' j where "step s w = Inr s'" "i < j" "j \<le> n" "pc s' = 4 * int j" "keeps x m s s'"
proof (cases "tame x m w")
  case True
  then have t: "straight w" "x_dest w \<noteq> x" by (simp_all add: tame_def)
  obtain s' where s': "step s w = Inr s'" "wf_iss s'" "pc s' = pc s + 4" "quiet (x_dest w) (written s w) s s'"
    using straight_step [OF assms(1,2) t(1)] by blast
  have "keeps x m s s'" using tame_written [OF assms(1) True assms(8)] t(2) assms(7) by (intro quiet_keeps [OF s'(4,2)]) auto
  then show ?thesis using s' assms(3,5) by (intro that [of s' "i + 1"]) auto
next
  case False
  then obtain j where j: "i < j" "j \<le> n" "dec_op w = OP_BRANCH \<and> dec_imm_b w = 4 * (int j - int i) \<or>
        dec_op w = OP_JAL \<and> dec_imm_j w = 4 * (int j - int i) \<and> dec_rd w \<noteq> x"
    using assms(4) by (auto simp: moves_forward_def)
  have u: "uxlen s (pc s + 4 * (int j - int i)) = 4 * int j"
    using j(2) assms(1,3,6) by (simp add: uxlen_small)
  have wf: "wf_iss s'" if "step s w = Inr s'" for s' using ok_step [OF assms(1), of w] that by simp
  from j(3) show ?thesis
  proof
    assume b: "dec_op w = OP_BRANCH \<and> dec_imm_b w = 4 * (int j - int i)"
    then show ?thesis
      using that [of _ j] that [of _ "i + 1"] wf j(1,2) u assms(2,3,5)
      by (cases "branch_taken s (dec_f3 w) (reg_A s w) (reg_B s w)") (auto simp: step_by_opcode step_branch_def next_pc_def keeps_def)
  next
    assume a: "dec_op w = OP_JAL \<and> dec_imm_j w = 4 * (int j - int i) \<and> dec_rd w \<noteq> x"
    let ?s = "(wr s (dec_rd w) (next_pc s))\<lparr>pc := 4 * int j\<rparr>"
    have "step s w = Inr ?s" using a u by (simp add: step_by_opcode step_jal_def)
    moreover have "quiet (dec_rd w) {} s ?s" by (intro quiet_intros)
    ultimately show ?thesis
      using j(1,2) wf a assms(2,7) quiet_keeps [of "dec_rd w" "{}" s ?s x m] by (intro that [of ?s j]) auto
  qed
qed

lemma keeps_window: "keeps x m s s' \<Longrightarrow> window x m s \<Longrightarrow> window x m s'"
  by (simp add: keeps_def window_def)

lemma forward_run:
  assumes "\<forall>i<n. lo \<le> i \<longrightarrow> moves_forward x m n i (ws ! i)" "n < length ws" "self_loop (ws ! n)" "4 * n < 2 ^ 32" "0 \<le> x"
    and "wf_iss s" "priv_mode s = PRIV_M" "pending_interrupt s = None" "window x m s"
    and "pc s = 4 * int i" "lo \<le> i" "i \<le> n" "steps + int (n - i) < max_steps"
  shows "\<exists>s' k. run_loop ws max_steps s steps = Some (Inr (s', k)) \<and> k \<le> steps + int (n - i) \<and> pc s' = 4 * int n \<and> keeps x m s s'"
  using assms(6-)
proof (induction "n - i" arbitrary: i s steps rule: less_induct)
  case less
  have f: "\<not> interrupt_due s steps" using less.prems(3) by (simp add: interrupt_due_def)
  have t: "translate s (pc s) Fetch = (s, Some (4 * int i))"
    using less.prems(1,5,7) assms(4) by (simp add: translate_M [OF less.prems(2)] uxlen_small)
  have "steps < max_steps" using less.prems(8) by simp
  note l = run_loop_fetch [OF this f t, of ws]
  show ?case
  proof (cases "i = n")
    case True
    then show ?thesis using less.prems assms(2,3) l by (auto simp: keeps_def)
  next
    case False
    then have i: "i < n" using less.prems(7) by simp
    obtain s' j where s': "step s (ws ! i) = Inr s'" "i < j" "j \<le> n" "pc s' = 4 * int j" "keeps x m s s'"
      using forward_step [OF less.prems(1,2,5) _ i assms(4,5) less.prems(4)] assms(1) i less.prems(6) by metis
    have "run_loop ws max_steps s steps = run_loop ws max_steps s' (steps + 1)"
      using l s'(1) i assms(1,2) less.prems(6) moves_forward_not_loop by auto
    moreover have d: "n - j < n - i" "(steps + 1) + int (n - j) \<le> steps + int (n - i)" using s'(2,3) by auto
    moreover have "wf_iss s'" "priv_mode s' = PRIV_M" "pending_interrupt s' = None" "(steps + 1) + int (n - j) < max_steps" "lo \<le> j"
      using s'(2,5) less.prems(2,3,6,8) d(2) by (auto simp: keeps_def)
    ultimately obtain s'' k where "run_loop ws max_steps s steps = Some (Inr (s'', k))" "k \<le> (steps + 1) + int (n - j)"
        "pc s'' = 4 * int n" "keeps x m s' s''"
      using less.hyps [OF d(1), of s' "steps + 1"] s'(3,4) keeps_window [OF s'(5) less.prems(4)] by metis
    then show ?thesis using d(2) keeps_trans [OF s'(5)] by (meson order_trans)
  qed
qed

end
