(* ===== verification/Random_Gen_Asm.thy ===== *)
theory Random_Gen_Asm
  imports Iss_Straight Disasm_Props Random_Gen
begin

text \<open>
  The lines the generator writes, through the assembler: each is taken apart into its mnemonic and operands, assembles wherever it
  stands in a program, and its word is straight-line and leaves the base register \<open>x31\<close> alone.
\<close>

section \<open>The text of a line\<close>

lemma re_split_seps:
  assumes "list_all (\<lambda>c. \<not> sep c) t" "sep d"
  shows "re_split sep (t @ d # rest) = t # re_split sep (dropWhile sep rest)"
  using assms by (subst re_split.simps) (simp add: list_all_iff)

lemma join_space_hd:
  "ts \<noteq> [] \<Longrightarrow> list_all token ts \<Longrightarrow> join_comma_space ts \<noteq> [] \<and> hd (join_comma_space ts) = hd (hd ts)"
  by (cases ts) (auto dest: token_hd(2))

lemma join_space_last: "ts \<noteq> [] \<Longrightarrow> list_all token ts \<Longrightarrow> last (join_comma_space ts) = last (last ts)"
  by (induction ts) (auto simp: token_def dest: join_space_hd)

lemma join_space_set: "c \<in> set (join_comma_space ts) \<Longrightarrow> c = CHR '','' \<or> c = CHR '' '' \<or> (\<exists>t \<in> set ts. c \<in> set t)"
  by (induction ts) (auto split: if_splits)

lemma seps: "is_sep CHR '',''" "is_sep CHR '' ''" "\<not> is_sep CHR ''#''" "is_sep CHR 0x0A"
  by (simp_all add: is_sep_def py_isspace_def)

lemma split_join_space: "ts \<noteq> [] \<Longrightarrow> list_all token ts \<Longrightarrow> re_split is_sep (join_comma_space ts) = ts"
proof (induction ts)
  case (Cons t ts)
  show ?case
  proof (cases "ts = []")
    case False
    then have "hd (join_comma_space ts) = hd (hd ts)" "token (hd ts)"
      using Cons.prems join_space_hd [of ts] by (cases ts, auto)+
    then have "dropWhile is_sep (join_comma_space ts) = join_comma_space ts" using token_hd(1) by (intro dropWhile_hd) auto
    then show ?thesis
      using Cons False re_split_seps [OF token_no_sep seps(1), of t "CHR '' '' # join_comma_space ts"] seps by simp
  qed (use Cons re_split_token [OF token_no_sep] in auto)
qed simp

lemma split_line: "token mn \<Longrightarrow> list_all token ts \<Longrightarrow> re_split is_sep (asm_line mn ts) = mn # ts"
proof (cases "ts = []")
  case False
  assume a: "token mn" "list_all token ts"
  have "hd (join_comma_space ts) = hd (hd ts)" "token (hd ts)"
    using a False join_space_hd [of ts] by (cases ts, auto)+
  then show ?thesis
    using a False re_split_sep [OF token_no_sep seps(2), of mn "join_comma_space ts"] split_join_space [of ts] token_hd(1)
    by (simp add: asm_line_def)
qed (simp add: asm_line_def re_split_token token_no_sep)

lemma asm_line_chars:
  assumes "token mn" "list_all token ts" "c \<in> set (asm_line mn ts)"
  shows "c \<noteq> CHR ''#'' \<and> c \<noteq> CHR '':'' \<and> (is_sep c \<longrightarrow> c = CHR '','' \<or> c = CHR '' '')"
  using assms join_space_set [of c ts] by (auto simp: asm_line_def token_def list_all_iff split: if_splits)

lemma asm_line_ends:
  assumes "token mn" "list_all token ts"
  shows "asm_line mn ts \<noteq> []" "\<not> is_sep (hd (asm_line mn ts))" "\<not> is_sep (last (asm_line mn ts))"
    "\<not> is_label (asm_line mn ts)"
proof -
  have l: "last (asm_line mn ts) = last (if ts = [] then mn else last ts)"
    using assms join_space_last [of ts] join_space_hd [of ts] by (simp add: asm_line_def)
  have t: "token (if ts = [] then mn else last ts)" using assms by (auto simp: list_all_iff)
  then have "\<not> is_sep (last (asm_line mn ts))" "last (asm_line mn ts) \<noteq> CHR '':''"
    unfolding l token_def list_all_iff using last_in_set by blast+
  then show "\<not> is_sep (last (asm_line mn ts))" "\<not> is_label (asm_line mn ts)" by (simp_all add: is_label_def)
  show "asm_line mn ts \<noteq> []" "\<not> is_sep (hd (asm_line mn ts))"
    using assms token_hd [of mn] by (auto simp: asm_line_def)
qed

lemma clean_line:
  assumes "token mn" "list_all token ts"
  shows "clean (asm_line mn ts) = asm_line mn ts"
proof -
  have "split_first CHR ''#'' (asm_line mn ts) = asm_line mn ts"
    using asm_line_chars [OF assms] by (auto simp: split_first_def takeWhile_eq_all_conv)
  then show ?thesis using asm_line_ends [OF assms] by (auto simp: clean_def is_sep_def intro!: strip_ends)
qed

lemma asm_stmt_line:
  assumes "plain_name mn" "list_all token ts"
  shows "asm_stmt labels xl (a, asm_line mn ts) = asm_insn labels xl a mn ts"
proof -
  have t: "token mn" using assms(1) by (simp add: plain_name_def)
  have "py_strip (asm_line mn ts) = asm_line mn ts"
    using asm_line_ends [OF t assms(2)] by (auto simp: is_sep_def intro!: strip_ends)
  then show ?thesis using split_line [OF t assms(2)] assms(1) by (simp add: asm_stmt_def plain_name_def)
qed

section \<open>Good lines\<close>

text \<open>
  The line assembles, anywhere, to one straight-line word that does not write the base register and stores, if it does, to one of the
  \<open>m\<close> bytes from the base address.
\<close>

definition good_line :: "nat \<Rightarrow> int \<Rightarrow> string \<Rightarrow> bool" where
  "good_line xl m l \<longleftrightarrow> (\<exists>mn ts w. l = asm_line mn ts \<and> plain_name mn \<and> list_all token ts \<and>
     (\<forall>labels a. asm_insn labels xl a mn ts = Inr w) \<and> tame BASE_REG m w)"

lemma good_lineI:
  assumes "plain_name mn" "list_all token ts" "\<And>labels a. asm_insn labels xl a mn ts = Inr w" "tame BASE_REG m w"
  shows "good_line xl m (asm_line mn ts)"
  using assms unfolding good_line_def by blast

lemma tameI: "straight w \<Longrightarrow> x_dest w \<noteq> x \<Longrightarrow> dec_op w \<noteq> OP_STORE \<Longrightarrow> dec_op w \<noteq> OP_STORE_FP \<Longrightarrow> tame x m w"
  by (simp add: tame_def)

definition xreg :: "int \<Rightarrow> bool" where
  "xreg r \<longleftrightarrow> fits 5 r \<and> r \<noteq> BASE_REG"

lemma xregD: "xreg r \<Longrightarrow> fits 5 r" "xreg r \<Longrightarrow> 0 \<le> r" "xreg r \<Longrightarrow> r \<noteq> BASE_REG"
  by (auto simp: xreg_def dest: fitsD(1))

lemma reg_pools: "r \<in> set GP_REGS \<Longrightarrow> xreg r" "r \<in> set FREGS \<Longrightarrow> fits 5 r" "fits 5 BASE_REG"
  by (auto simp: GP_REGS_def FREGS_def xreg_def fits_def BASE_REG_def)

subsection \<open>Integer registers\<close>

lemma good_r:
  assumes "has_key R_TYPE mn" "xreg rd" "fits 5 rs1" "fits 5 rs2"
  shows "good_line xl m (asm_line mn [xr rd, xr rs1, xr rs2])"
proof -
  obtain f7 f3 where e: "py_get R_TYPE mn = Inr (f7, f3)" using assms(1) by (auto simp: has_key_get)
  have f: "fits 7 f7" "fits 3 f3" using funct7_tables [OF e] by simp_all
  note t = table_entry [OF e R_TYPE_names, simplified]
  note d = r_fields [OF f(1) assms(4,3) f(2) xregD(1) [OF assms(2)] fits_opcodes(1)]
  let ?w = "enc_r (f7, rs2, rs1, f3, rd, OP_R)"
  have "(f7, f3) \<in> snd ` set R_TYPE" using table_member [OF e] by force
  then have "straight ?w" unfolding straight_def d by simp
  then have "tame BASE_REG m ?w" using d(5,6) xregD(3) [OF assms(2)] by (intro tameI) (simp_all add: x_dest_eq)
  moreover have "asm_insn labels xl a mn [xr rd, xr rs1, xr rs2] = Inr ?w" for labels a
    using t assms xregD(1) [OF assms(2)] by (intro asm_r_insn e) simp_all
  ultimately show ?thesis using t assms fitsD(1) xregD(2) by (intro good_lineI) simp_all
qed

lemma good_r_w:
  assumes "has_key R_TYPE_W mn" "xreg rd" "fits 5 rs1" "fits 5 rs2"
  shows "good_line xl m (asm_line mn [xr rd, xr rs1, xr rs2])"
proof -
  obtain f7 f3 where e: "py_get R_TYPE_W mn = Inr (f7, f3)" using assms(1) by (auto simp: has_key_get)
  have f: "fits 7 f7" "fits 3 f3" using funct7_tables [OF e] by simp_all
  note t = table_entry [OF e R_TYPE_W_names, simplified]
  note d = r_fields [OF f(1) assms(4,3) f(2) xregD(1) [OF assms(2)] fits_opcodes(11)]
  let ?w = "enc_r (f7, rs2, rs1, f3, rd, OP_32)"
  have "(f7, f3) \<in> snd ` set R_TYPE_W" using table_member [OF e] by force
  then have "straight ?w" unfolding straight_def d by simp
  then have "tame BASE_REG m ?w" using d(5,6) xregD(3) [OF assms(2)] by (intro tameI) (simp_all add: x_dest_eq)
  moreover have "asm_insn labels xl a mn [xr rd, xr rs1, xr rs2] = Inr ?w" for labels a
    using t assms e xregD(1) [OF assms(2)]
    by (intro asm_insn_group) (simp add: asm_alu_def has_key_get [of R_TYPE_W] reg_arg_def arg_def r_type_enc del: OP_32_def)
  ultimately show ?thesis using t assms fitsD(1) xregD(2) by (intro good_lineI) simp_all
qed

subsection \<open>Integer immediates\<close>

lemma i_word:
  assumes "fits 12 i" "fits 5 rs1" "fits 3 f3" "xreg rd" "\<not> (f3 = 1 \<and> drop_bit 6 i = 4 \<and> sha_fn (take_bit 5 i) = None)"
  shows "tame BASE_REG m (enc_i (i, rs1, f3, rd, OP_I))"
proof -
  note d = i_fields [OF assms(1,2,3) xregD(1) [OF assms(4)] fits_opcodes(2)]
    i_subfields [OF assms(1,2,3) xregD(1) [OF assms(4)] fits_opcodes(2)]
  have "drop_bit 20 w AND 0x1F = dec_rs2 w" for w by (simp add: dec_rs2_def)
  then have "straight (enc_i (i, rs1, f3, rd, OP_I))"
    using assms(5) unfolding straight_def imm_ok_def d by (simp add: d mask_simps)
  then show ?thesis using d(4,5) xregD(3) [OF assms(4)] by (intro tameI) (simp_all add: x_dest_eq)
qed

lemma i_w_word:
  assumes "fits 12 i" "fits 5 rs1" "f3 \<in> {0, 1, 5}" "xreg rd"
  shows "tame BASE_REG m (enc_i (i, rs1, f3, rd, OP_IMM_32))"
proof -
  have f3: "fits 3 f3" using assms(3) by (auto simp: fits_def)
  note d = i_fields [OF assms(1,2) f3 xregD(1) [OF assms(4)] fits_opcodes(12)]
  have "straight (enc_i (i, rs1, f3, rd, OP_IMM_32))" using assms(3) unfolding straight_def d by simp
  then show ?thesis using d(4,5) xregD(3) [OF assms(4)] by (intro tameI) (simp_all add: x_dest_eq)
qed

lemma asm_i_any:
  assumes "py_get I_TYPE mn = Inr f3" "fits 5 rd" "fits 5 rs1" "reg t1 = Inr rs1"
  shows "plain_name mn" "asm_insn labels xl a mn [xr rd, t1, t] = i_type mn rd rs1 (Tok t) xl"
  using table_entry [OF assms(1) I_TYPE_names] assms
  by (simp, intro asm_insn_group) (simp add: asm_alu_def has_key_get reg_arg_def tok_arg_def arg_def)

lemma good_i:
  assumes "mn \<in> set GEN_I_TYPE" "xreg rd" "fits 5 rs1" "reg t1 = Inr rs1" "token t1" "signed_in 12 v"
  shows "good_line xl m (asm_line mn [xr rd, t1, py_str v])"
proof -
  have "list_all (\<lambda>mn. has_key I_TYPE mn \<and> mn \<notin> {''slli'', ''srli'', ''srai''} \<and> py_get I_TYPE mn \<noteq> Inr 1) GEN_I_TYPE" by code_simp
  then obtain f3 where e: "py_get I_TYPE mn = Inr f3" "mn \<notin> {''slli'', ''srli'', ''srai''}" "f3 \<noteq> 1"
    using assms(1) by (auto simp: list_all_iff has_key_get)
  have f: "fits 3 f3" using funct3_tables [OF e(1)] by simp
  have "i_type mn rd rs1 (Tok (py_str v)) xl = Inr (enc_i (take_bit 12 v, rs1, f3, rd, OP_I))"
    using assms(6) by (simp add: i_type_plain [OF e(1,2)] signed_imm_def)
  then show ?thesis
    using asm_i_any [OF e(1) xregD(1) [OF assms(2)] assms(3,4)] xregD(2) [OF assms(2)] assms(5)
      i_word [OF fits_take_bit assms(3) f assms(2), of v] e(3)
    by (intro good_lineI) simp_all
qed

lemma drop_6_small: "fits 6 v \<Longrightarrow> drop_bit 6 (v::int) = 0"
  by (simp add: fits_drop_0)

lemma shamt_fits: "fits (if xl \<ge> 64 then 6 else 5) v \<Longrightarrow> fits 6 (v::int)" for xl :: nat
  by (cases "xl \<ge> 64") (auto intro: fits_mono)

lemma good_shift:
  assumes "mn \<in> set SHIFT_I" "xreg rd" "fits 5 rs1" "fits (if xl \<ge> 64 then 6 else 5) v"
  shows "good_line xl m (asm_line mn [xr rd, xr rs1, py_str v])"
proof -
  have "list_all (\<lambda>mn. has_key I_TYPE mn \<and> mn \<in> {''slli'', ''srli'', ''srai''} \<and> (mn = ''srai'' \<longrightarrow> py_get I_TYPE mn = Inr 5)) SHIFT_I"
    by code_simp
  then have "has_key I_TYPE mn" "mn \<in> {''slli'', ''srli'', ''srai''}" "mn = ''srai'' \<longrightarrow> py_get I_TYPE mn = Inr 5"
    using assms(1) unfolding list_all_iff by blast+
  then obtain f3 where e: "py_get I_TYPE mn = Inr f3" "mn \<in> {''slli'', ''srli'', ''srai''}" "mn = ''srai'' \<longrightarrow> f3 = 5"
    unfolding has_key_get by (metis sum.inject(2))
  have f: "fits 3 f3" "fits 6 v" "fits 12 v" "fits 12 (0x400::int)"
    using funct3_tables [OF e(1)] shamt_fits [OF assms(4)] fits_mono [OF shamt_fits [OF assms(4)], of 12]
    by (simp_all add: fits_def [of _ "0x400"])
  let ?i = "(if mn = ''srai'' then 0x400 else 0) OR v"
  have "i_type mn rd rs1 (Tok (py_str v)) xl = Inr (enc_i (?i, rs1, f3, rd, OP_I))"
    using assms(4) by (simp add: i_type_shift [OF e(1,2)] del: OP_I_def)
  moreover have "fits 12 ?i" using f by (simp add: fits_or)
  moreover have "\<not> (f3 = 1 \<and> drop_bit 6 ?i = 4 \<and> sha_fn (take_bit 5 ?i) = None)" using e(3) drop_6_small [OF f(2)] by auto
  ultimately show ?thesis
    using asm_i_any [OF e(1) xregD(1) [OF assms(2)] assms(3) xr_reg(1) [OF assms(3)]] xregD(2) [OF assms(2)] assms(3) fitsD(1)
      i_word [OF _ assms(3) f(1) assms(2), of ?i]
    by (intro good_lineI) simp_all
qed

lemma good_b_shamt:
  assumes "mn \<in> set B_SHAMT" "xreg rd" "fits 5 rs1" "fits (if xl \<ge> 64 then 6 else 5) v"
  shows "good_line xl m (asm_line mn [xr rd, xr rs1, py_str v])"
proof -
  have "list_all (has_key I_TYPE_BEXT_SHAMT) B_SHAMT" by code_simp
  then obtain f6 f3 where e: "py_get I_TYPE_BEXT_SHAMT mn = Inr (f6, f3)"
    using assms(1) by (auto simp: list_all_iff has_key_get)
  have "list_all (\<lambda>(mn, f6, f3). 0 \<le> f6 \<and> f6 < 2 ^ 6 \<and> f6 \<noteq> 4 \<and> 0 \<le> f3 \<and> f3 < 2 ^ 3) I_TYPE_BEXT_SHAMT" by code_simp
  from table_entry [OF e this] have f: "fits 6 f6" "f6 \<noteq> 4" "fits 3 f3" by (auto simp: fits_def)
  note t = table_entry [OF e BEXT_SHAMT_names, simplified] and v = shamt_fits [OF assms(4)]
  let ?i = "push_bit 6 f6 OR v"
  have i: "fits 12 ?i" "drop_bit 6 ?i = f6"
    using f(1) v fits_mono [OF v, of 12] by (auto intro!: fits_or fits_push_bit_le simp: drop_bit_or drop_6_small drop_push_bit)
  have "i_type_bext_shamt mn rd rs1 (Tok (py_str v)) xl = Inr (enc_i (?i, rs1, f3, rd, OP_I))"
    using assms(4) e fits_take_self [OF i(1)]
    by (simp add: i_type_bext_shamt_def i_type_raw_enc del: OP_I_def take_bit_or split del: if_split)
  then have "asm_insn labels xl a mn [xr rd, xr rs1, py_str v] = Inr (enc_i (?i, rs1, f3, rd, OP_I))" for labels a
    using t e assms xregD(1) [OF assms(2)]
    by (intro asm_insn_group) (simp add: asm_alu_def has_key_get [of I_TYPE_BEXT_SHAMT] reg_arg_def tok_arg_def arg_def del: OP_I_def)
  then show ?thesis
    using t assms fitsD(1) xregD(2) i_word [OF i(1) assms(3) f(3) assms(2)] i(2) f(2)
    by (intro good_lineI) simp_all
qed

lemma good_b_fixed:
  assumes "has_key I_TYPE_BEXT_FIXED mn" "xreg rd" "fits 5 rs1"
  shows "good_line xl m (asm_line mn [xr rd, xr rs1])"
proof -
  obtain i f3 where e: "py_get I_TYPE_BEXT_FIXED mn = Inr (i, f3)" using assms(1) by (auto simp: has_key_get)
  have "list_all (\<lambda>(mn, i, f3). 0 \<le> i \<and> i < 2 ^ 12 \<and> 0 \<le> f3 \<and> f3 < 2 ^ 3 \<and> (drop_bit 6 i \<noteq> 4 \<or> take_bit 5 i < 8)) I_TYPE_BEXT_FIXED"
    by code_simp
  from table_entry [OF e this] have f: "fits 12 i" "fits 3 f3" "drop_bit 6 i = 4 \<longrightarrow> take_bit 5 i < 8" by (auto simp: fits_def)
  have "sha_fn z \<noteq> None" if "0 \<le> z" "z < 8" for z
    using that by (simp add: sha_fn_def)
  then have s: "\<not> (f3 = 1 \<and> drop_bit 6 i = 4 \<and> sha_fn (take_bit 5 i) = None)" using f(3) by auto
  note t = table_entry [OF e BEXT_FIXED_names, simplified]
  have "asm_insn labels xl a mn [xr rd, xr rs1] = Inr (enc_i (i, rs1, f3, rd, OP_I))" for labels a
    using t e assms xregD(1) [OF assms(2)] fits_take_self [OF f(1)]
    by (intro asm_insn_group)
      (simp add: asm_alu_def has_key_get [of I_TYPE_BEXT_FIXED] reg_arg_def arg_def i_type_bext_fixed_def i_type_raw_enc del: OP_I_def)
  then show ?thesis
    using t assms fitsD(1) xregD(2) i_word [OF f(1) assms(3) f(2) assms(2) s] by (intro good_lineI) simp_all
qed

lemma good_rev8:
  assumes "xreg rd" "fits 5 rs1"
  shows "good_line xl m (asm_line ''rev8'' [xr rd, xr rs1])"
proof -
  have n: "plain_name ''rev8''" "\<not> has_key R_TYPE ''rev8''" "\<not> has_key I_TYPE ''rev8''" "\<not> has_key I_TYPE_BEXT_SHAMT ''rev8''"
    "\<not> has_key I_TYPE_BEXT_FIXED ''rev8''" by code_simp+
  have i: "fits 12 (if xl = 32 then 0x698 else 0x6B8 :: int)" "fits 3 (5::int)" by (simp_all add: fits_def)
  have "asm_insn labels xl a ''rev8'' [xr rd, xr rs1] = Inr (enc_i (if xl = 32 then 0x698 else 0x6B8, rs1, 5, rd, OP_I))" for labels a
    using n assms xregD(1) [OF assms(1)] fits_take_self [OF i(1)]
    by (intro asm_insn_group) (simp add: asm_alu_def reg_arg_def arg_def asm_rev8_def i_type_raw_enc del: OP_I_def)
  then show ?thesis
    using n(1) assms fitsD(1) xregD(2) i_word [OF i(1) assms(2) i(2) assms(1)] by (intro good_lineI) simp_all
qed

lemma good_aes64ks1i:
  assumes "xreg rd" "fits 5 rs1" "fits 4 v"
  shows "good_line xl m (asm_line ''aes64ks1i'' [xr rd, xr rs1, py_str v])"
proof -
  have n: "fp_mnemonic ''aes64ks1i''" by code_simp
  let ?i = "push_bit 5 0b0011000 OR 0b10000 OR v"
  have c: "fits 12 (push_bit 5 0b0011000 :: int)" "fits 12 v" "fits 3 (1::int)" "drop_bit 6 v = 0" "fits 12 (0b10000 :: int)"
    using fits_mono [OF assms(3), of 12] fits_drop_0 [OF assms(3), of 6] by (simp_all add: fits_def)
  have i: "fits 12 ?i" "drop_bit 6 ?i = 12"
    using fits_or [OF c(1) fits_or [OF c(5,2)]] c(4) by (simp_all add: drop_bit_or)
  have "asm_fp ''aes64ks1i'' [xr rd, xr rs1, py_str v] = Some (Inr (enc_i (?i, rs1, 1, rd, OP_I)))"
    using assms xregD(1) [OF assms(1)] fits_take_self [OF i(1)]
    by (simp add: asm_fp_def has_key_def FP_ARITH_def FP_SGNJ_def FP_MINMAX_def FP_CMP_def MADD_OPCODES_def
        reg_arg_def tok_arg_def arg_def asm_aes64ks1i_def i_type_raw_enc del: OP_I_def take_bit_or)
  then have "asm_insn labels xl a ''aes64ks1i'' [xr rd, xr rs1, py_str v] = Inr (enc_i (?i, rs1, 1, rd, OP_I))" for labels a
    using n by (intro asm_insn_group(4)) (simp_all add: fp_mnemonic_def)
  then show ?thesis
    using n assms fitsD(1) xregD(2) i_word [OF i(1) assms(2) c(3) assms(1)] i(2)
    by (intro good_lineI) (simp_all add: fp_mnemonic_def)
qed

subsection \<open>Word immediates\<close>

lemma asm_w_any:
  assumes "mn \<in> {''addiw'', ''slliw'', ''srliw'', ''sraiw''}" "fits 5 rd" "fits 5 rs1"
  shows "asm_insn labels xl a mn [xr rd, xr rs1, t] = i_type_w mn rd rs1 (Tok t)"
proof -
  have "list_all (\<lambda>mn. \<not> has_key R_TYPE mn \<and> \<not> has_key I_TYPE mn \<and> \<not> has_key I_TYPE_BEXT_SHAMT mn \<and>
     \<not> has_key I_TYPE_BEXT_FIXED mn \<and> mn \<notin> {''nop'', ''rev8'', ''zext.w''} \<and> \<not> has_key R_TYPE_W mn \<and> has_key I_TYPE_W mn)
       [''addiw'', ''slliw'', ''srliw'', ''sraiw'']"
    by code_simp
  then have "\<not> has_key R_TYPE mn \<and> \<not> has_key I_TYPE mn \<and> \<not> has_key I_TYPE_BEXT_SHAMT mn \<and>
     \<not> has_key I_TYPE_BEXT_FIXED mn \<and> mn \<notin> {''nop'', ''rev8'', ''zext.w''} \<and> \<not> has_key R_TYPE_W mn \<and> has_key I_TYPE_W mn"
    using assms(1) unfolding list_all_iff by (simp only: list.set) blast
  then show ?thesis
    using assms(2,3) by (intro asm_insn_group) (simp add: asm_alu_def reg_arg_def tok_arg_def arg_def)
qed

lemma good_iw:
  assumes "mn \<in> set GEN_I_TYPE_W" "xreg rd" "fits 5 rs1" "if mn = ''addiw'' then signed_in 12 v else fits 5 v"
  shows "good_line xl m (asm_line mn [xr rd, xr rs1, py_str v])"
proof -
  have m: "mn \<in> {''addiw'', ''slliw'', ''srliw'', ''sraiw''}" using assms(1) by (simp add: GEN_I_TYPE_W_def)
  note p = asm_w_insn(1) [OF m xregD(1) [OF assms(2)] assms(3)] and a = asm_w_any [OF m xregD(1) [OF assms(2)] assms(3)]
  have i: "\<exists>w. i_type_w mn rd rs1 (Tok (py_str v)) = Inr w"
    using m assms(4) by (elim insertE emptyE)
      (simp_all add: i_type_w_def py_get_def I_TYPE_W_def imm_signed_iff [of 12 "Tok (py_str v)"] imm_signed_bind signed_imm_def)
  then obtain w where w: "i_type_w mn rd rs1 (Tok (py_str v)) = Inr w" by blast
  then have "tame BASE_REG m w"
  proof (cases rule: i_type_w_cases)
    case (plain v)
    then show ?thesis using i_w_word [OF fits_take_bit assms(3) _ assms(2), of 0 m v] by (simp del: OP_IMM_32_def)
  next
    case (shift v)
    have "fits 12 ((if mn = ''sraiw'' then 0x400 else 0) OR v)"
      using fits_mono [OF shift(2), of 12] by (intro fits_or) (simp_all add: fits_def)
    then show ?thesis using shift(3) i_w_word [OF _ assms(3) _ assms(2)] by (simp del: OP_IMM_32_def)
  qed
  then show ?thesis using p a w assms fitsD(1) xregD(2) by (intro good_lineI [where w = w]) simp_all
qed

lemma good_w_raw:
  assumes "mn \<in> set [''clzw'', ''ctzw'', ''cpopw'', ''roriw'', ''slli.uw'']" "list_all token ts"
    and "asm_alu xl mn ts = Some (Inr (i_type_raw i f3 rd rs1 OP_IMM_32))"
    and "fits 12 i" "f3 \<in> {1, 5}" "xreg rd" "fits 5 rs1"
  shows "good_line xl m (asm_line mn ts)"
proof -
  have w: "i_type_raw i f3 rd rs1 OP_IMM_32 = enc_i (i, rs1, f3, rd, OP_IMM_32)"
    using fits_take_self [OF assms(4)] by (simp add: i_type_raw_enc del: OP_IMM_32_def)
  have "plain_name mn" using W_names [unfolded list_all_iff, rule_format, OF assms(1)] by blast
  then show ?thesis
    using assms(2,5) i_w_word [OF assms(4,7) _ assms(6), of f3] asm_insn_group(1) [OF assms(3)]
    unfolding w by (intro good_lineI) auto
qed

lemma good_b_w:
  assumes "xreg rd" "fits 5 rs1"
  shows "mn \<in> set B_FIXED_W \<Longrightarrow> good_line xl m (asm_line mn [xr rd, xr rs1])"
    and "fits 5 v \<Longrightarrow> good_line xl m (asm_line ''roriw'' [xr rd, xr rs1, py_str v])"
    and "fits 6 u \<Longrightarrow> good_line xl m (asm_line ''slli.uw'' [xr rd, xr rs1, py_str u])"
proof -
  note r = xregD(1) [OF assms(1)]
  show "good_line xl m (asm_line mn [xr rd, xr rs1])" if b: "mn \<in> set B_FIXED_W"
  proof -
    have m: "mn \<in> set [''clzw'', ''ctzw'', ''cpopw'', ''roriw'', ''slli.uw'']" using b by (auto simp: B_FIXED_W_def)
    note n = W_names [unfolded list_all_iff, rule_format, OF m]
    have "list_all (has_key I_TYPE_W_BEXT_FIXED) B_FIXED_W" by code_simp
    then obtain i where e: "py_get I_TYPE_W_BEXT_FIXED mn = Inr i" using b by (auto simp: list_all_iff has_key_get)
    show ?thesis
      using n e r assms other_tables(1) [OF e] fitsD(1) xregD(2)
      by (intro good_w_raw [OF m _ _ _ _ assms, of _ _ i 1])
        (simp_all add: asm_alu_def has_key_get [of I_TYPE_W_BEXT_FIXED] reg_arg_def arg_def i_type_w_bext_fixed_def)
  qed
  show "good_line xl m (asm_line ''roriw'' [xr rd, xr rs1, py_str v])" if "fits 5 v"
  proof -
    have m: "''roriw'' \<in> set [''clzw'', ''ctzw'', ''cpopw'', ''roriw'', ''slli.uw'']" by simp
    have "\<not> has_key I_TYPE_W_BEXT_FIXED ''roriw''" by code_simp
    moreover have "fits 12 (push_bit 5 0b0110000 OR v)" using fits_mono [OF that, of 12] by (intro fits_or) (simp_all add: fits_def)
    ultimately show ?thesis
      using W_names [unfolded list_all_iff, rule_format, OF m] that r assms fitsD(1) xregD(2)
      by (intro good_w_raw [OF m _ _ _ _ assms, of _ _ "push_bit 5 0b0110000 OR v" 5])
        (simp_all add: asm_alu_def reg_arg_def tok_arg_def arg_def roriw_def)
  qed
  show "good_line xl m (asm_line ''slli.uw'' [xr rd, xr rs1, py_str u])" if "fits 6 u"
  proof -
    have m: "''slli.uw'' \<in> set [''clzw'', ''ctzw'', ''cpopw'', ''roriw'', ''slli.uw'']" by simp
    have "\<not> has_key I_TYPE_W_BEXT_FIXED ''slli.uw''" by code_simp
    moreover have "fits 12 (push_bit 6 0b000010 OR u)" using fits_mono [OF that, of 12] by (intro fits_or) (simp_all add: fits_def)
    ultimately show ?thesis
      using W_names [unfolded list_all_iff, rule_format, OF m] that r assms fitsD(1) xregD(2)
      by (intro good_w_raw [OF m _ _ _ _ assms, of _ _ "push_bit 6 0b000010 OR u" 1])
        (simp_all add: asm_alu_def reg_arg_def tok_arg_def arg_def slli_uw_def)
  qed
qed

subsection \<open>Memory and system\<close>

lemma good_load:
  assumes "has_key LOAD mn" "xreg rd" "fits 5 rs1" "signed_in 12 v"
  shows "good_line xl m (asm_line mn [xr rd, mem_text v rs1])"
proof -
  obtain f3 where e: "py_get LOAD mn = Inr f3" using assms(1) by (auto simp: has_key_get)
  have f: "fits 3 f3" using funct3_tables [OF e] by simp
  note t = table_entry [OF e LOAD_names, simplified] and r = xregD(1) [OF assms(2)]
  let ?w = "enc_i (take_bit 12 v, rs1, f3, rd, OP_LOAD)"
  note d = i_fields [OF fits_take_bit assms(3) f r fits_opcodes(3), of v]
  have "f3 \<in> snd ` set LOAD" using table_member [OF e] by force
  then have "straight ?w" unfolding straight_def d by simp
  then have "tame BASE_REG m ?w" using d(4,5) xregD(3) [OF assms(2)] by (intro tameI) (simp_all add: x_dest_eq)
  moreover have "asm_insn labels xl a mn [xr rd, mem_text v rs1] = Inr ?w" for labels a
    using t e r assms by (intro asm_insn_group(2))
      (auto simp: mem_mnemonic_def asm_mem_def reg_arg_def arg_def imm12_enc signed_imm_def simp del: OP_LOAD_def)
  ultimately show ?thesis
    using t r assms fitsD(1) by (intro good_lineI) (simp_all add: mem_mnemonic_def)
qed

lemma good_store:
  assumes "py_get STORE mn = Inr f3" "fits 5 rs2" "signed_in 12 v" "0 \<le> v" "v + 2 ^ nat f3 \<le> m"
  shows "good_line xl m (asm_line mn [xr rs2, mem_text v BASE_REG])"
proof -
  have f: "fits 3 f3" using funct3_tables [OF assms(1)] by simp
  note t = table_entry [OF assms(1) STORE_names, simplified]
  let ?w = "enc_s (v, rs2, BASE_REG, f3, OP_STORE)"
  note d = s_decode [OF assms(3,2) reg_pools(3) f fits_opcodes(4)]
  have "f3 \<in> snd ` set STORE" using table_member [OF assms(1)] by force
  then have "straight ?w" unfolding straight_def d by simp
  then have "tame BASE_REG m ?w" using assms(4,5) unfolding tame_def x_dest_def store_size_def d by (simp add: BASE_REG_def)
  moreover have "asm_insn labels xl a mn [xr rs2, mem_text v BASE_REG] = Inr ?w" for labels a
    using t assms reg_pools(3) by (intro asm_insn_group(2))
      (auto simp: mem_mnemonic_def asm_mem_def has_key_get [of STORE] reg_arg_def arg_def store_enc signed_imm_def simp del: OP_STORE_def)
  ultimately show ?thesis
    using t assms reg_pools(3) fitsD(1) by (intro good_lineI) (simp_all add: mem_mnemonic_def)
qed

lemma csr_word:
  assumes "fits 5 z" "fits 3 f3" "f3 \<noteq> 0" "xreg rd"
  shows "tame BASE_REG m (enc_i (take_bit 12 c, z, f3, rd, OP_SYSTEM))"
proof -
  note d = i_fields [OF fits_take_bit assms(1,2) xregD(1) [OF assms(4)] fits_opcodes(10), of c]
  have "straight (enc_i (take_bit 12 c, z, f3, rd, OP_SYSTEM))" using assms(3) unfolding straight_def d by simp
  then show ?thesis using d(4,5) xregD(3) [OF assms(4)] by (intro tameI) (simp_all add: x_dest_eq)
qed

lemma good_csr:
  assumes "csr_lookup (Tok c) = Inr addr" "token c" "xreg rd" "fits 5 z"
  shows "mn \<in> set CSR_REG_OP \<Longrightarrow> good_line xl m (asm_line mn [xr rd, c, xr z])"
    and "mn \<in> set CSR_IMM_OP \<Longrightarrow> good_line xl m (asm_line mn [xr rd, c, py_str z])"
proof -
  have k: "list_all (\<lambda>mn. has_key CSR_OP mn) (CSR_REG_OP @ CSR_IMM_OP)" by code_simp
  have e: "\<exists>f3. py_get CSR_OP mn = Inr f3 \<and> fits 3 f3 \<and> f3 \<noteq> 0 \<and> sys_mnemonic mn" if m: "mn \<in> set (CSR_REG_OP @ CSR_IMM_OP)"
  proof -
    obtain f3 where "py_get CSR_OP mn = Inr f3" using k m by (auto simp: list_all_iff has_key_get)
    then show ?thesis using funct3_tables [of CSR_OP mn f3] table_entry [OF _ CSR_OP_names, of mn f3] by simp
  qed
  note r = xregD(1) [OF assms(3)]
  show "good_line xl m (asm_line mn [xr rd, c, xr z])" if m: "mn \<in> set CSR_REG_OP"
  proof -
    obtain f3 where f: "py_get CSR_OP mn = Inr f3" "fits 3 f3" "f3 \<noteq> 0" "sys_mnemonic mn" using e m by auto
    have s: "mn \<in> {''csrrw'', ''csrrs'', ''csrrc''}" using m by (simp add: CSR_REG_OP_def)
    have "asm_insn labels xl a mn [xr rd, c, xr z] = Inr (enc_i (take_bit 12 addr, z, f3, rd, OP_SYSTEM))" for labels a
      using f s assms r by (intro asm_insn_group(3))
        (simp_all add: sys_mnemonic_def asm_sys_def reg_arg_def tok_arg_def arg_def system_enc del: OP_SYSTEM_def)
    then show ?thesis using f(4) assms r fitsD(1) csr_word [OF assms(4) f(2,3) assms(3)]
      by (intro good_lineI) (simp_all add: sys_mnemonic_def)
  qed
  show "good_line xl m (asm_line mn [xr rd, c, py_str z])" if m: "mn \<in> set CSR_IMM_OP"
  proof -
    obtain f3 where f: "py_get CSR_OP mn = Inr f3" "fits 3 f3" "f3 \<noteq> 0" "sys_mnemonic mn" using e m by auto
    have s: "mn \<in> {''csrrwi'', ''csrrsi'', ''csrrci''}" "mn \<notin> {''csrrw'', ''csrrs'', ''csrrc''}"
      using m by (auto simp: CSR_IMM_OP_def)
    have "asm_insn labels xl a mn [xr rd, c, py_str z] = Inr (enc_i (take_bit 12 addr, z, f3, rd, OP_SYSTEM))" for labels a
      using f s assms r by (intro asm_insn_group(3))
        (simp_all add: sys_mnemonic_def asm_sys_def reg_arg_def tok_arg_def arg_def system_enc del: OP_SYSTEM_def)
    then show ?thesis using f(4) assms r fitsD(1) csr_word [OF assms(4) f(2,3) assms(3)]
      by (intro good_lineI) (simp_all add: sys_mnemonic_def)
  qed
qed

subsection \<open>Floating point\<close>

lemma fp_line_word:
  assumes "fits 5 f5" "f5 \<in> fp_funct5s" "fits 5 rs2" "fits 5 rs1" "fits 3 f3" "fits 5 rd"
    "f5 \<in> {0b10100, 0b11000, 0b11100} \<Longrightarrow> rd \<noteq> BASE_REG"
  shows "tame BASE_REG m (enc_r (push_bit 2 f5, rs2, rs1, f3, rd, OP_FP))"
proof -
  note d = r_fields [OF fits_push_2 [OF assms(1)] assms(3-6) fits_opcodes(13)] fp_fields [OF assms(1,3-6) fits_opcodes(13)]
  have "straight (enc_r (push_bit 2 f5, rs2, rs1, f3, rd, OP_FP))" using assms(2) unfolding straight_def d by simp
  moreover have "x_dest (enc_r (push_bit 2 f5, rs2, rs1, f3, rd, OP_FP)) \<noteq> BASE_REG"
    using assms(7) unfolding x_dest_def d by (auto simp: BASE_REG_def)
  ultimately show ?thesis using d(6) by (intro tameI) simp_all
qed

lemma good_fp:
  assumes "fp_mnemonic mn" "list_all token ts" "asm_fp mn ts = Some (Inr w)" "tame BASE_REG m w"
  shows "good_line xl m (asm_line mn ts)"
  using assms asm_insn_group(4) [of mn ts "Inr w"] by (intro good_lineI) (auto simp: fp_mnemonic_def)

lemma rm_names:
  assumes "rm \<in> set GEN_RM_NAMES"
  obtains v where "fits 3 v" "token rm" "\<forall>args k. k < length args \<longrightarrow> args ! k = rm \<longrightarrow> parse_rm args k = Inr v"
proof -
  have "list_all (\<lambda>s. has_key RM_NAMES s \<and> token s \<and> py_strip s = s \<and> s \<noteq> [] \<and> py_lower s = s) GEN_RM_NAMES" by code_simp
  then have r: "has_key RM_NAMES rm" "token rm" "py_strip rm = rm" "rm \<noteq> []" "py_lower rm = rm"
    using assms unfolding list_all_iff by blast+
  then obtain v where v: "py_get RM_NAMES rm = Inr v" by (auto simp: has_key_get)
  show thesis using r v funct3_tables [OF v] by (intro that [of v]) (simp_all add: parse_rm_def)
qed

lemmas fp_chain = asm_fp_def reg_arg_def freg_arg_def arg_def has_key_def py_get_def FP_ARITH_def FP_SGNJ_def FP_MINMAX_def FP_CMP_def
  MADD_OPCODES_def fp_enc

lemma good_fp_arith:
  assumes "mn \<in> set GEN_FP_ARITH" "fits 5 rd" "fits 5 rs1" "fits 5 rs2" "rm \<in> set GEN_RM_NAMES"
  shows "good_line xl m (asm_line mn [fr rd, fr rs1, fr rs2, rm])"
proof -
  obtain v where v: "fits 3 v" "token rm" "\<forall>args k. k < length args \<longrightarrow> args ! k = rm \<longrightarrow> parse_rm args k = Inr v"
    by (rule rm_names [OF assms(5)])
  have k: "list_all (has_key FP_ARITH) GEN_FP_ARITH" by code_simp
  then obtain f5 where e: "py_get FP_ARITH mn = Inr f5" using assms(1) by (auto simp: list_all_iff has_key_get)
  have n: "fp_mnemonic mn" using fp_name [of mn] e by (auto simp: has_key_get)
  have f5: "f5 \<in> {0, 1, 2, 3}" using table_member [OF e] by (auto simp: FP_ARITH_def)
  have "list_all (\<lambda>mn. mn \<noteq> ''flw'' \<and> mn \<noteq> ''fsw'') GEN_FP_ARITH" by code_simp
  then have "mn \<noteq> ''flw'' \<and> mn \<noteq> ''fsw''" using assms(1) by (auto simp: list_all_iff)
  then have "asm_fp mn [fr rd, fr rs1, fr rs2, rm] = Some (Inr (enc_r (push_bit 2 f5, rs2, rs1, v, rd, OP_FP)))"
    using e v(3) [rule_format, of 3 "[fr rd, fr rs1, fr rs2, rm]"] assms
    by (simp add: asm_fp_def has_key_get freg_arg_def arg_def fp_enc del: OP_FP_def)
  then show ?thesis
    using n v(2) assms fitsD(1) f5 fp_line_word [OF _ _ assms(4,3) v(1) assms(2), of f5]
    by (intro good_fp) (auto simp: fp_funct5s_def fits_def)
qed

lemma good_fp_rm:
  assumes "fits 5 rs1" "rm \<in> set GEN_RM_NAMES"
  shows "fits 5 rd \<Longrightarrow> good_line xl m (asm_line ''fsqrt.s'' [fr rd, fr rs1, rm])"
    and "xreg rd \<Longrightarrow> mn \<in> set FP_CVT_TO_INT \<Longrightarrow> good_line xl m (asm_line mn [xr rd, fr rs1, rm])"
    and "fits 5 rd \<Longrightarrow> mn \<in> set FP_CVT_FROM_INT \<Longrightarrow> good_line xl m (asm_line mn [fr rd, xr rs1, rm])"
proof -
  obtain v where v: "fits 3 v" "token rm" "\<forall>args k. k < length args \<longrightarrow> args ! k = rm \<longrightarrow> parse_rm args k = Inr v"
    by (rule rm_names [OF assms(2)])
  have z: "fits 5 (0::int)" "fits 5 (of_bool b :: int)" for b by (simp_all add: fits_def)
  have s: "fits 5 FUNCT5_FSQRT" "fits 5 FUNCT5_FCVT_W_S" "fits 5 FUNCT5_FCVT_S_W" by (simp_all add: fits_def)
  show "good_line xl m (asm_line ''fsqrt.s'' [fr rd, fr rs1, rm])" if "fits 5 rd"
    using v(2) v(3) [rule_format, of 2 "[fr rd, fr rs1, rm]"] that assms(1) FP_names fitsD(1)
      fp_line_word [OF s(1) _ z(1) assms(1) v(1) that]
    by (intro good_fp [where w = "enc_r (push_bit 2 FUNCT5_FSQRT, 0, rs1, v, rd, OP_FP)"])
      (simp_all add: fp_chain fp_funct5s_def del: OP_FP_def)
  show "good_line xl m (asm_line mn [xr rd, fr rs1, rm])" if m: "xreg rd" "mn \<in> set FP_CVT_TO_INT"
  proof -
    have n: "mn = ''fcvt.w.s'' \<or> mn = ''fcvt.wu.s''" using m(2) by (simp add: FP_CVT_TO_INT_def)
    then have "asm_fp mn [xr rd, fr rs1, rm] = Some (Inr (enc_r (push_bit 2 FUNCT5_FCVT_W_S, of_bool (mn = ''fcvt.wu.s''), rs1, v, rd, OP_FP)))"
      using v(3) [rule_format, of 2 "[xr rd, fr rs1, rm]"] xregD(1) [OF m(1)] assms(1)
      by (elim disjE) (simp_all add: fp_chain del: OP_FP_def)
    moreover have "fp_mnemonic mn" using n FP_names by auto
    ultimately show ?thesis
      using v(2) assms(1) fitsD(1) xregD [OF m(1)] fp_line_word [OF s(2) _ z(2) assms(1) v(1) xregD(1) [OF m(1)]]
      by (intro good_fp) (simp_all add: fp_funct5s_def)
  qed
  show "good_line xl m (asm_line mn [fr rd, xr rs1, rm])" if m: "fits 5 rd" "mn \<in> set FP_CVT_FROM_INT"
  proof -
    have n: "mn = ''fcvt.s.w'' \<or> mn = ''fcvt.s.wu''" using m(2) by (simp add: FP_CVT_FROM_INT_def)
    then have "asm_fp mn [fr rd, xr rs1, rm] = Some (Inr (enc_r (push_bit 2 FUNCT5_FCVT_S_W, of_bool (mn = ''fcvt.s.wu''), rs1, v, rd, OP_FP)))"
      using v(3) [rule_format, of 2 "[fr rd, xr rs1, rm]"] m(1) assms(1)
      by (elim disjE) (simp_all add: fp_chain del: OP_FP_def)
    moreover have "fp_mnemonic mn" using n FP_names by auto
    ultimately show ?thesis
      using v(2) assms(1) fitsD(1) m(1) fp_line_word [OF s(3) _ z(2) assms(1) v(1) m(1)]
      by (intro good_fp) (simp_all add: fp_funct5s_def)
  qed
qed

lemma good_fff:
  assumes "mn \<in> set (GEN_FP_SGNJ @ GEN_FP_MINMAX)" "fits 5 rd" "fits 5 rs1" "fits 5 rs2"
  shows "good_line xl m (asm_line mn [fr rd, fr rs1, fr rs2])"
proof -
  have m: "mn \<in> {''fsgnj.s'', ''fsgnjn.s'', ''fsgnjx.s'', ''fmin.s'', ''fmax.s''}"
    using assms(1) by (auto simp: GEN_FP_SGNJ_def GEN_FP_MINMAX_def)
  define f5 where "f5 = (if mn \<in> {''fsgnj.s'', ''fsgnjn.s'', ''fsgnjx.s''} then FUNCT5_FSGNJ else FUNCT5_FMINMAX)"
  define f3 :: int where "f3 = (if mn \<in> {''fsgnjn.s'', ''fmax.s''} then 1 else if mn = ''fsgnjx.s'' then 2 else 0)"
  have s: "fits 5 f5" "fits 3 f3" "f5 \<in> fp_funct5s" "f5 \<notin> {0b10100, 0b11000, 0b11100}"
    by (simp_all add: fits_def f5_def f3_def fp_funct5s_def)
  have n: "fp_mnemonic mn" using m FP_names by (auto simp: FP_SGNJ_def FP_MINMAX_def)
  have "asm_fp mn [fr rd, fr rs1, fr rs2] = Some (Inr (enc_r (push_bit 2 f5, rs2, rs1, f3, rd, OP_FP)))"
    using m assms(2-4) unfolding f5_def f3_def
    by (elim insertE emptyE) (simp_all add: fp_chain del: OP_FP_def)
  then show ?thesis
    using n assms(2-4) fitsD(1) fp_line_word [OF s(1,3) assms(4,3) s(2) assms(2)] s(4)
    by (intro good_fp [OF n]) simp_all
qed

lemma good_fp_cmp:
  assumes "mn \<in> set GEN_FP_CMP" "xreg rd" "fits 5 rs1" "fits 5 rs2"
  shows "good_line xl m (asm_line mn [xr rd, fr rs1, fr rs2])"
proof -
  have m: "mn \<in> {''feq.s'', ''flt.s'', ''fle.s''}" using assms(1) by (simp add: GEN_FP_CMP_def)
  define f3 :: int where "f3 = (if mn = ''feq.s'' then 2 else if mn = ''flt.s'' then 1 else 0)"
  have s: "fits 5 FUNCT5_FCMP" "fits 3 f3" "FUNCT5_FCMP \<in> fp_funct5s" by (simp_all add: fits_def f3_def fp_funct5s_def)
  have n: "fp_mnemonic mn" using m FP_names by (auto simp: FP_CMP_def)
  have "asm_fp mn [xr rd, fr rs1, fr rs2] = Some (Inr (enc_r (push_bit 2 FUNCT5_FCMP, rs2, rs1, f3, rd, OP_FP)))"
    using m xregD(1) [OF assms(2)] assms(3,4) unfolding f3_def
    by (elim insertE emptyE) (simp_all add: fp_chain del: OP_FP_def)
  then show ?thesis
    using assms(3,4) xregD [OF assms(2)] fitsD(1) fp_line_word [OF s(1,3) assms(4,3) s(2) xregD(1) [OF assms(2)]]
    by (intro good_fp [OF n]) simp_all
qed

lemma good_fp_madd:
  assumes "mn \<in> set FMADD_FAMILY" "fits 5 rd" "fits 5 rs1" "fits 5 rs2" "fits 5 rs3" "rm \<in> set GEN_RM_NAMES"
  shows "good_line xl m (asm_line mn [fr rd, fr rs1, fr rs2, fr rs3, rm])"
proof -
  obtain v where v: "fits 3 v" "token rm" "\<forall>args k. k < length args \<longrightarrow> args ! k = rm \<longrightarrow> parse_rm args k = Inr v"
    by (rule rm_names [OF assms(6)])
  have m: "mn \<in> {''fmadd.s'', ''fmsub.s'', ''fnmsub.s'', ''fnmadd.s''}" using assms(1) by (simp add: FMADD_FAMILY_def)
  define opc :: int where "opc = (if mn = ''fmadd.s'' then 0b1000011 else if mn = ''fmsub.s'' then 0b1000111
    else if mn = ''fnmsub.s'' then 0b1001011 else 0b1001111)"
  have n: "fp_mnemonic mn" using m FP_names by (auto simp: MADD_OPCODES_def)
  let ?w = "fp_r4_type opc rd rs1 rs2 rs3 v"
  have e: "asm_fp mn [fr rd, fr rs1, fr rs2, fr rs3, rm] = Some (Inr ?w)"
    using m assms(2-5) v(3) [rule_format, of 4 "[fr rd, fr rs1, fr rs2, fr rs3, rm]"] unfolding opc_def
    by (elim insertE emptyE) (simp_all add: fp_chain)
  have "fits 7 opc" by (simp add: fits_def opc_def)
  then have d: "dec_op ?w = opc"
    using assms(2-5) v(1) by (simp add: fp_r4_type_def dec_op_def field_rules)
  have "opc \<in> {0b1000011, 0b1000111, 0b1001011, 0b1001111}" by (simp add: opc_def)
  then have "tame BASE_REG m ?w" unfolding tame_def straight_def x_dest_def d by (auto simp: BASE_REG_def)
  then show ?thesis using assms(2-5) v(2) fitsD(1) by (intro good_fp [OF n _ e]) simp_all
qed

lemma good_fmem:
  assumes "fits 5 r" "signed_in 12 v" "0 \<le> v" "v + 4 \<le> m"
  shows "good_line xl m (asm_line ''flw'' [fr r, mem_text v BASE_REG])" "good_line xl m (asm_line ''fsw'' [fr r, mem_text v BASE_REG])"
proof -
  have f: "fits 3 (2::int)" by (simp add: fits_def)
  note d = i_fields [OF fits_take_bit reg_pools(3) f assms(1) fits_opcodes(14), of v]
    and e = s_decode [OF assms(2,1) reg_pools(3) f fits_opcodes(15)]
  let ?l = "enc_i (take_bit 12 v, BASE_REG, 2, r, OP_LOAD_FP)" and ?s = "enc_s (v, r, BASE_REG, 2, OP_STORE_FP)"
  have "asm_fp ''flw'' [fr r, mem_text v BASE_REG] = Some (Inr ?l)" "asm_fp ''fsw'' [fr r, mem_text v BASE_REG] = Some (Inr ?s)"
    using assms reg_pools(3)
    by (simp_all add: asm_fp_def freg_arg_def arg_def imm12_enc store_enc signed_imm_def del: OP_LOAD_FP_def OP_STORE_FP_def)
  moreover have "tame BASE_REG m ?l" "tame BASE_REG m ?s"
    using assms(3,4) unfolding tame_def straight_def x_dest_def store_size_def d e by (simp_all add: BASE_REG_def)
  ultimately show "good_line xl m (asm_line ''flw'' [fr r, mem_text v BASE_REG])" "good_line xl m (asm_line ''fsw'' [fr r, mem_text v BASE_REG])"
    using FP_names assms fitsD(1) reg_pools(3) by (auto intro!: good_fp)
qed

lemma good_fmv:
  assumes "fits 5 rd" "fits 5 rs1" "reg t = Inr rs1" "token t"
  shows "good_line xl m (asm_line ''fmv.w.x'' [fr rd, t])"
proof -
  have s: "fits 5 FUNCT5_FMV_W_X" "fits 5 (0::int)" "fits 3 (0::int)" by (simp_all add: fits_def)
  have "asm_fp ''fmv.w.x'' [fr rd, t] = Some (Inr (enc_r (push_bit 2 FUNCT5_FMV_W_X, 0, rs1, 0, rd, OP_FP)))"
    using assms by (simp add: fp_chain del: OP_FP_def)
  then show ?thesis
    using FP_names assms fitsD(1) fp_line_word [OF s(1) _ s(2) assms(2) s(3) assms(1)]
    by (intro good_fp) (auto simp: fp_funct5s_def)
qed

subsection \<open>Fixed lines\<close>

lemma token_hex: "token (hex_text v)"
  unfolding hex_text_def by (rule token_num(3))

lemma good_lui:
  assumes "xreg rd" "fits 20 v"
  shows "good_line xl m (asm_line ''lui'' [xr rd, hex_text v])"
proof -
  note d = u_decode [OF assms(2) xregD(1) [OF assms(1)] fits_opcodes(8)]
  have n: "mem_mnemonic ''lui''" "\<not> has_key LOAD ''lui''" "\<not> has_key STORE ''lui''" "\<not> has_key BRANCH ''lui''" using jump_names by simp_all
  have "asm_insn labels xl a ''lui'' [xr rd, hex_text v] = Inr (enc_u (v, rd, OP_LUI))" for labels a
    using n assms xregD(1) [OF assms(1)] operand_hex [OF fitsD(1) [OF assms(2)]]
    by (intro asm_insn_group(2)) (simp_all add: mem_mnemonic_def asm_mem_def reg_arg_def tok_arg_def arg_def u_type_enc hex_text_def del: OP_LUI_def)
  moreover have "straight (enc_u (v, rd, OP_LUI))" unfolding straight_def d by simp
  then have "tame BASE_REG m (enc_u (v, rd, OP_LUI))" using d(2,3) xregD(3) [OF assms(1)] by (intro tameI) (simp_all add: x_dest_eq)
  ultimately show ?thesis
    using n(1) xregD(2) [OF assms(1)] token_hex
    by (intro good_lineI) (simp_all add: mem_mnemonic_def)
qed

lemma good_fence: "good_line xl m ''fence''"
proof -
  have n: "sys_mnemonic ''fence''" "token ''fence''" by code_simp+
  have "asm_insn labels xl a ''fence'' [] = Inr fence" for labels a
    using n(1) by (intro asm_insn_group(3)) (simp_all add: sys_mnemonic_def asm_sys_def)
  moreover have "tame BASE_REG m fence"
    by (simp add: tame_def straight_def x_dest_def fence_def dec_op_def dec_f3_def BASE_REG_def)
  ultimately have "good_line xl m (asm_line ''fence'' [])" using n by (intro good_lineI) (simp_all add: sys_mnemonic_def)
  then show ?thesis by (simp add: asm_line_def)
qed

end
