(* ===== verification/Random_Gen_Items.thy ===== *)
theory Random_Gen_Items
  imports Random_Gen_Asm
begin

text \<open>
  What a draw can return, and what the generator therefore writes: every random instruction is a line that assembles to a straight-line
  word, or a branch or jump whose target is still open.
\<close>

section \<open>Outcomes\<close>

text \<open>A property of the result of a draw, whatever the randomness.\<close>

definition outcome :: "('a \<Rightarrow> bool) \<Rightarrow> 'a gen \<Rightarrow> bool" where
  "outcome P g \<longleftrightarrow> (\<forall>r. P (fst (run_state g r)))"

named_theorems outcomes \<open>rules for the outcome of draws\<close>

lemma outcome_return [outcomes]: "P x \<Longrightarrow> outcome P (State_Monad.return x)"
  by (simp add: outcome_def)

lemma outcome_bind: "outcome P g \<Longrightarrow> (\<And>x. P x \<Longrightarrow> outcome Q (f x)) \<Longrightarrow> outcome Q (State_Monad.bind g f)"
  by (simp add: outcome_def split: prod.split) (metis fst_conv)

lemma outcome_mono: "outcome P g \<Longrightarrow> (\<And>x. P x \<Longrightarrow> Q x) \<Longrightarrow> outcome Q g"
  by (simp add: outcome_def)

lemma outcome_if [outcomes]: "(b \<Longrightarrow> outcome P g) \<Longrightarrow> (\<not> b \<Longrightarrow> outcome P h) \<Longrightarrow> outcome P (if b then g else h)"
  by simp

lemma outcome_draw: "(\<And>d. outcome Q (f d)) \<Longrightarrow> outcome Q (State_Monad.bind draw f)"
  by (rule outcome_bind [of "\<lambda>_. True"]) (simp_all add: outcome_def)

lemma outcome_choice: "xs \<noteq> [] \<Longrightarrow> outcome (\<lambda>x. x \<in> set xs) (choice xs)"
  unfolding choice_def by (intro outcome_draw outcome_return) simp

lemma outcome_choose: "xs \<noteq> [] \<Longrightarrow> (\<And>x. x \<in> set xs \<Longrightarrow> outcome Q (f x)) \<Longrightarrow> outcome Q (State_Monad.bind (choice xs) f)"
  by (rule outcome_bind [OF outcome_choice])

lemma outcome_randint: "a \<le> b \<Longrightarrow> outcome (\<lambda>v. a \<le> v \<and> v \<le> b) (randint a b)"
proof -
  assume "a \<le> b"
  then have "0 \<le> int d mod (b - a + 1) \<and> int d mod (b - a + 1) < b - a + 1" for d
    by (intro conjI pos_mod_sign pos_mod_bound) simp_all
  then show ?thesis unfolding randint_def by (intro outcome_draw outcome_return) (smt (verit))
qed

lemma outcome_randrange:
  assumes "0 < stop" "0 < w"
  shows "outcome (\<lambda>v. 0 \<le> v \<and> v < stop \<and> w dvd v) (randrange stop w)"
proof -
  let ?n = "(stop + w - 1) div w"
  have n: "0 < ?n" using assms by (simp add: pos_imp_zdiv_pos_iff)
  have "w * (int d mod ?n) < stop" for d
  proof -
    have "int d mod ?n \<le> ?n - 1" using n pos_mod_bound [of ?n "int d"] by simp
    then have "w * (int d mod ?n) \<le> w * (?n - 1)" using assms(2) by (intro mult_left_mono) simp_all
    also have "\<dots> = w * ?n - w" by (simp add: right_diff_distrib)
    also have "w * ?n \<le> stop + w - 1"
      using assms(2) pos_mod_sign [of w "stop + w - 1"] unfolding minus_mod_eq_mult_div [symmetric] by linarith
    finally show ?thesis by simp
  qed
  then show ?thesis unfolding randrange_def using assms n by (intro outcome_draw outcome_return) simp
qed

lemma pick_weighted_in: "pool \<noteq> [] \<Longrightarrow> pick_weighted d pool \<in> fst ` set pool"
  by (induction d pool rule: pick_weighted.induct) auto

lemma outcome_choices: "pool \<noteq> [] \<Longrightarrow> outcome (\<lambda>x. x \<in> fst ` set pool) (choices pool)"
  unfolding choices_def by (intro outcome_draw outcome_return pick_weighted_in)

lemma outcome_traverse:
  "outcome P g \<Longrightarrow> outcome (\<lambda>xs. length xs = length is \<and> list_all P xs) (State_Monad.traverse_list (\<lambda>_. g) is)"
proof (induction "is")
  case (Cons i "is")
  show ?case
    using Cons.IH [OF Cons.prems] by (auto intro!: outcome_return outcome_bind [OF Cons.prems] outcome_bind [OF Cons.IH [OF Cons.prems]])
qed (simp add: outcome_return)

section \<open>Random instructions\<close>

fun item_ok :: "nat \<Rightarrow> int \<Rightarrow> gen_item \<Rightarrow> bool" where
  "item_ok xl m (Line l) \<longleftrightarrow> good_line xl m l"
| "item_ok xl m (Branch mn rs1 rs2) \<longleftrightarrow> mn \<in> set GEN_BRANCH \<and> fits 5 rs1 \<and> fits 5 rs2"
| "item_ok xl m (Jal rd) \<longleftrightarrow> xreg rd"

lemma pools_nonempty [simp]:
  "GP_REGS \<noteq> []" "FREGS \<noteq> []" "GEN_R_TYPE \<noteq> []" "GEN_I_TYPE \<noteq> []" "SHIFT_I \<noteq> []" "GEN_BRANCH \<noteq> []" "CSR_REG_OP \<noteq> []"
  "CSR_IMM_OP \<noteq> []" "GEN_FP_ARITH \<noteq> []" "GEN_FP_SGNJ \<noteq> []" "GEN_FP_MINMAX \<noteq> []" "GEN_FP_CMP \<noteq> []" "FP_CVT_TO_INT \<noteq> []"
  "FP_CVT_FROM_INT \<noteq> []" "FMADD_FAMILY \<noteq> []" "GEN_RM_NAMES \<noteq> []" "FCSR_ADDR \<noteq> []" "GEN_R_TYPE_W \<noteq> []" "GEN_I_TYPE_W \<noteq> []"
  "B_R_TYPE \<noteq> []" "B_SHAMT \<noteq> []" "B_FIXED \<noteq> []" "B_R_TYPE_W \<noteq> []" "B_FIXED_W \<noteq> []" "B_SHAMT_W \<noteq> []" "K_R_TYPE \<noteq> []" "K_FIXED \<noteq> []"
  "K_R_TYPE_W \<noteq> []" "load_mnemonics xl \<noteq> []" "store_mnemonics xl \<noteq> []"
  by (simp_all add: GP_REGS_def FREGS_def GEN_R_TYPE_def GEN_I_TYPE_def SHIFT_I_def GEN_BRANCH_def CSR_REG_OP_def CSR_IMM_OP_def
      GEN_FP_ARITH_def GEN_FP_SGNJ_def GEN_FP_MINMAX_def GEN_FP_CMP_def FP_CVT_TO_INT_def FP_CVT_FROM_INT_def FMADD_FAMILY_def
      GEN_RM_NAMES_def FCSR_ADDR_def GEN_R_TYPE_W_def GEN_I_TYPE_W_def B_R_TYPE_def B_SHAMT_def B_FIXED_def B_R_TYPE_W_def B_FIXED_W_def
      B_SHAMT_W_def K_R_TYPE_def K_FIXED_def K_R_TYPE_W_def load_mnemonics_def store_mnemonics_def)

lemma r_pools:
  "list_all (has_key R_TYPE) (GEN_R_TYPE @ B_R_TYPE @ K_R_TYPE)" "list_all (has_key R_TYPE_W) (GEN_R_TYPE_W @ B_R_TYPE_W @ K_R_TYPE_W)"
  by code_simp+

lemma pool_regs [simp]: "r \<in> set GP_REGS \<Longrightarrow> xreg r" "r \<in> set GP_REGS \<Longrightarrow> fits 5 r" "r \<in> set FREGS \<Longrightarrow> fits 5 r"
    "r \<in> set GP_REGS \<Longrightarrow> token (xr r)" "fits 5 BASE_REG"
  using reg_pools xregD by auto

lemma good_rr:
  "has_key R_TYPE mn \<or> has_key R_TYPE_W mn \<Longrightarrow> xreg rd \<Longrightarrow> fits 5 rs1 \<Longrightarrow> fits 5 rs2 \<Longrightarrow> good_line xl m (asm_line mn [xr rd, xr rs1, xr rs2])"
  using good_r good_r_w by blast

lemma good_fixed:
  "has_key I_TYPE_BEXT_FIXED mn \<or> mn = ''rev8'' \<Longrightarrow> xreg rd \<Longrightarrow> fits 5 rs1 \<Longrightarrow> good_line xl m (asm_line mn [xr rd, xr rs1])"
  using good_b_fixed good_rev8 by blast

lemma outcome_rrr:
  "mns \<noteq> [] \<Longrightarrow> set mns \<subseteq> set (GEN_R_TYPE @ B_R_TYPE @ K_R_TYPE) \<or> set mns \<subseteq> set (GEN_R_TYPE_W @ B_R_TYPE_W @ K_R_TYPE_W) \<Longrightarrow>
     outcome (good_line xl m) (gen_rrr mns)"
  unfolding gen_rrr_def using r_pools unfolding list_all_iff
  by (intro outcome_choose outcome_return) (auto intro!: good_rr)

lemma outcome_imm12: "outcome (signed_in 12) (randint (- 2048) 2047)"
  by (rule outcome_mono [OF outcome_randint]) (auto simp: signed_in_def)

lemma outcome_imm5: "outcome (fits 5) (randint 0 31)" "outcome (fits 6) (randint 0 63)" "outcome (fits 4) (randint 0 10)"
  by (rule outcome_mono [OF outcome_randint]; simp add: fits_def)+

lemma outcome_shamt: "outcome (fits (if xl \<ge> 64 then 6 else 5)) (shamt_draw xl)"
  using outcome_imm5 by (simp add: shamt_draw_def)

lemma outcome_i: "outcome (good_line xl m) gen_i"
  unfolding gen_i_def
  by (intro outcome_choose outcome_return outcome_bind [OF outcome_imm12])
    (auto intro!: good_i)

lemma outcome_iw: "outcome (good_line xl m) gen_iw"
proof -
  have "outcome (\<lambda>v. if mn = ''addiw'' then signed_in 12 v else fits 5 v)
     (if mn = ''addiw'' then randint (- 2048) 2047 else randint 0 31)" for mn :: string
    using outcome_imm12 outcome_imm5 by simp
  note v = outcome_bind [OF this]
  show ?thesis unfolding gen_iw_def
    by (intro outcome_choose outcome_return v) (auto intro!: good_iw)
qed

lemma outcome_shift: "outcome (good_line xl m) (gen_shift xl)"
  unfolding gen_shift_def
  by (intro outcome_choose outcome_return outcome_bind [OF outcome_shamt]) (auto intro!: good_shift)

lemma outcome_b_ext: "outcome (good_line xl m) (gen_b_ext xl)"
proof -
  have f: "list_all (\<lambda>mn. has_key I_TYPE_BEXT_FIXED mn \<or> mn = ''rev8'') B_FIXED" by code_simp
  show ?thesis
    unfolding gen_b_ext_def using r_pools(1) f unfolding list_all_iff
    by (intro outcome_choose outcome_if outcome_return outcome_bind [OF outcome_shamt])
      (auto intro!: good_r good_b_shamt good_fixed)
qed

lemma outcome_b_ext_w: "outcome (good_line xl m) gen_b_ext_w"
proof -
  have "outcome (\<lambda>v. if mn = ''roriw'' then fits 5 v else fits 6 v) (if mn = ''roriw'' then randint 0 31 else randint 0 63)" for mn :: string
    using outcome_imm5 by simp
  note v = outcome_bind [OF this]
  show ?thesis
    unfolding gen_b_ext_w_def using r_pools(2) unfolding list_all_iff
    by (intro outcome_choose outcome_if outcome_return v)
      (auto intro!: good_r_w good_b_w simp: B_SHAMT_W_def)
qed

lemma outcome_k_ext: "outcome (good_line xl m) gen_k_ext"
proof -
  have f: "list_all (has_key I_TYPE_BEXT_FIXED) K_FIXED" by code_simp
  show ?thesis
    unfolding gen_k_ext_def using r_pools(1) f unfolding list_all_iff
    by (intro outcome_choose outcome_if outcome_return outcome_bind [OF outcome_imm5(3)])
      (auto intro!: good_r good_b_fixed good_aes64ks1i)
qed

lemma outcome_offset:
  assumes "0 < w" "w \<le> addr_space - base_addr"
  shows "outcome (\<lambda>v. signed_in 12 v \<and> 0 \<le> v \<and> v + w \<le> addr_space - base_addr \<and> w dvd v) (gen_offset addr_space base_addr w)"
  unfolding gen_offset_def Let_def
  by (intro outcome_if outcome_mono [OF outcome_randrange] outcome_return) (use assms in \<open>auto simp: signed_in_def\<close>)

lemma outcome_load:
  assumes "8 \<le> addr_space - base_addr"
  shows "outcome (good_line xl m) (gen_load xl addr_space base_addr)"
proof -
  have f: "list_all (has_key LOAD) ([''lb'', ''lh'', ''lw'', ''lbu'', ''lhu''] @ [''ld'', ''lwu''])" by code_simp
  have "0 < load_width mn \<and> load_width mn \<le> addr_space - base_addr" for mn using assms by (simp add: load_width_def)
  then show ?thesis unfolding gen_load_def
    by (intro outcome_choose outcome_return outcome_bind [OF outcome_offset])
      (use f in \<open>auto intro!: good_load simp: load_mnemonics_def split: if_splits\<close>)
qed

lemma good_store_pool:
  assumes "mn \<in> set (store_mnemonics xl)" "fits 5 rs2" "signed_in 12 v" "0 \<le> v" "v + store_width mn \<le> m"
  shows "good_line xl' m (asm_line mn [xr rs2, mem_text v BASE_REG])"
proof -
  obtain f3 where "py_get STORE mn = Inr f3" "2 ^ nat f3 = store_width mn"
    using assms(1) by (auto simp: store_mnemonics_def py_get_def STORE_def store_width_def split: if_splits)
  then show ?thesis using good_store [of mn f3] assms(2-) by simp
qed

lemma outcome_store:
  assumes "8 \<le> addr_space - base_addr"
  shows "outcome (good_line xl (addr_space - base_addr)) (gen_store xl addr_space base_addr)"
proof -
  have "0 < store_width mn \<and> store_width mn \<le> addr_space - base_addr" for mn using assms by (simp add: store_width_def)
  then show ?thesis unfolding gen_store_def
    by (intro outcome_choose outcome_return outcome_bind [OF outcome_offset]) (auto intro!: good_store_pool)
qed

lemma csr_pool:
  assumes "c \<in> set (GEN_CSR_NAMES @ FCSR_ADDR)"
  obtains a where "csr_lookup (Tok c) = Inr a" "token c"
proof -
  have "list_all (\<lambda>c. token c \<and> (case csr_lookup (Tok c) of Inr a \<Rightarrow> True | Inl e \<Rightarrow> False)) (GEN_CSR_NAMES @ FCSR_ADDR)" by code_simp
  then have "token c \<and> (case csr_lookup (Tok c) of Inr a \<Rightarrow> True | Inl e \<Rightarrow> False)" using assms unfolding list_all_iff by blast
  then show thesis using that by (cases "csr_lookup (Tok c)") auto
qed

lemma good_csr_pool:
  assumes "c \<in> set (GEN_CSR_NAMES @ FCSR_ADDR)" "xreg rd" "fits 5 z"
  shows "mn \<in> set CSR_REG_OP \<Longrightarrow> good_line xl m (asm_line mn [xr rd, c, xr z])"
    and "mn \<in> set CSR_IMM_OP \<Longrightarrow> good_line xl m (asm_line mn [xr rd, c, py_str z])"
  using csr_pool [OF assms(1)] good_csr [OF _ _ assms(2,3)] by metis+

lemma outcome_csr:
  assumes "pool \<noteq> []" "set pool \<subseteq> set (GEN_CSR_NAMES @ FCSR_ADDR)"
  shows "outcome (good_line xl m) (gen_csr pool)"
  unfolding gen_csr_def coin_def
  by (simp, intro outcome_choose outcome_draw outcome_if outcome_return outcome_bind [OF outcome_imm5(1)])
    (use assms in \<open>auto intro!: good_csr_pool\<close>)

lemma outcome_fp:
  "outcome (good_line xl m) gen_fp_arith" "outcome (good_line xl m) gen_fp_sqrt"
  "outcome (good_line xl m) (gen_fff GEN_FP_SGNJ)" "outcome (good_line xl m) (gen_fff GEN_FP_MINMAX)"
  "outcome (good_line xl m) gen_fp_cmp" "outcome (good_line xl m) gen_fp_cvt_to_int" "outcome (good_line xl m) gen_fp_cvt_from_int"
  "outcome (good_line xl m) gen_fp_madd"
  unfolding gen_fp_arith_def gen_fp_sqrt_def gen_fff_def gen_fp_cmp_def gen_fp_cvt_to_int_def gen_fp_cvt_from_int_def gen_fp_madd_def
  by (intro outcome_choose outcome_return; auto intro!: good_fp_arith good_fp_rm good_fff good_fp_cmp good_fp_madd)+

lemma outcome_fmem:
  assumes "8 \<le> addr_space - base_addr" "mn = ''flw'' \<or> mn = ''fsw''"
  shows "outcome (good_line xl (addr_space - base_addr)) (gen_fmem mn addr_space base_addr)"
  unfolding gen_fmem_def
  by (intro outcome_choose outcome_return outcome_bind [OF outcome_offset]) (use assms in \<open>auto intro!: good_fmem\<close>)

lemma outcome_control: "outcome (item_ok xl m) gen_branch" "outcome (item_ok xl m) gen_jal"
  unfolding gen_branch_def gen_jal_def by (intro outcome_choose outcome_return; simp)+

lemma outcome_line: "outcome (good_line xl m) g \<Longrightarrow> outcome (item_ok xl m) (line_item g)"
  unfolding line_item_def by (rule outcome_bind, assumption) (simp add: outcome_return)

lemma outcome_kind:
  assumes "8 \<le> addr_space - base_addr" "csr_pool' \<noteq> []" "set csr_pool' \<subseteq> set (GEN_CSR_NAMES @ FCSR_ADDR)"
  shows "outcome (item_ok xl (addr_space - base_addr)) (gen_kind xl addr_space base_addr csr_pool' kind)"
  unfolding gen_kind_def
  by (intro outcome_if outcome_line outcome_rrr outcome_i outcome_iw outcome_shift outcome_b_ext outcome_b_ext_w outcome_k_ext
      outcome_load outcome_store outcome_control outcome_csr outcome_fp outcome_fmem assms) auto

lemma csr_names_pool_ok: "csr_names_pool interrupt ooo \<noteq> []" "set (csr_names_pool interrupt ooo) \<subseteq> set (GEN_CSR_NAMES @ FCSR_ADDR)"
  by (simp_all add: csr_names_pool_def GEN_CSR_NAMES_def)

lemma outcome_instr:
  "8 \<le> addr_space - base_addr \<Longrightarrow>
     outcome (item_ok xl (addr_space - base_addr)) (gen_instr xl addr_space base_addr interrupt mmu ooo)"
  unfolding gen_instr_def
  by (intro outcome_bind [OF outcome_choices] outcome_kind csr_names_pool_ok) (simp_all add: kind_pool_def Let_def)

lemma outcome_instrs:
  "8 \<le> addr_space - base_addr \<Longrightarrow>
     outcome (\<lambda>items. length items = n \<and> list_all (item_ok xl (addr_space - base_addr)) items)
       (State_Monad.traverse_list (\<lambda>_. gen_instr xl addr_space base_addr interrupt mmu ooo) [0..<n])"
  using outcome_traverse [OF outcome_instr, of addr_space base_addr "[0..<n]" xl interrupt mmu ooo] by simp

end
