(* ===== verification/Random_Gen_Layout.thy ===== *)
theory Random_Gen_Layout
  imports Random_Gen_Items
begin

text \<open>
  The generator's second pass and the whole program: where the labels come to stand, that every branch and jump assembles to
  an offset to a later instruction, and that the program text assembles.
\<close>

section \<open>Seeds\<close>

lemma const_chunks_eq: "const_chunks b = [take_bit 10 (drop_bit 22 b), take_bit 11 (drop_bit 11 b), take_bit 11 b]"
  unfolding const_chunks_def Let_def and_mask_power by (simp add: mask_simps drop_bit_take_bit)

lemma chunk_fits: "c \<in> set (const_chunks b) \<Longrightarrow> fits 11 c"
  by (auto simp: const_chunks_eq intro: fits_take_bit_le)

lemma low_part:
  "(if (b AND 0xFFF) AND 0x800 \<noteq> 0 then (b AND 0xFFF) - 0x1000 else b AND 0xFFF) = signed_take_bit 11 (b::int)"
  using and_power_eq_0_iff [of "take_bit 12 b" 11]
  by (simp add: mask_simps signed_take_bit_eq_take_bit_minus bit_take_bit_iff)

lemma signed_in_signed: "signed_in 12 (signed_take_bit 11 (b::int))"
  using signed_take_bit_int_less_exp [of 11 b] signed_take_bit_int_greater_eq_minus_exp [of 11 b] by (simp add: signed_in_def)

lemma good_addi:
  assumes "xreg rd" "fits 11 v"
  shows "good_line xl m (asm_line ''addi'' [xr rd, xr rd, py_str v])" "good_line xl m (asm_line ''addi'' [xr rd, ''x0'', py_str v])"
proof -
  have a: "''addi'' \<in> set GEN_I_TYPE" "reg ''x0'' = Inr 0" "token ''x0''" by code_simp+
  have v: "signed_in 12 v" using assms(2) by (simp add: fits_def signed_in_def)
  show "good_line xl m (asm_line ''addi'' [xr rd, xr rd, py_str v])" "good_line xl m (asm_line ''addi'' [xr rd, ''x0'', py_str v])"
    using a v assms(1) xregD [OF assms(1)] good_i [OF a(1) assms(1) _ _ _ v, of rd "xr rd"] good_i [OF a(1) assms(1) _ a(2,3) v]
    by (auto simp: fits_def)
qed

lemma good_const:
  assumes "xreg rd"
  shows "list_all (good_line xl m) (const_to_reg_instrs rd b no_lui)"
proof (cases no_lui)
  case True
  have s: "''slli'' \<in> set SHIFT_I" "fits (if xl \<ge> 64 then 6 else 5) (11::int)" for xl :: nat by (simp_all add: SHIFT_I_def fits_def)
  have "const_chunks b \<noteq> []" by (simp add: const_chunks_def Let_def)
  then have c: "const_chunks b ! 0 \<in> set (const_chunks b)" "set (tl (const_chunks b)) \<subseteq> set (const_chunks b)"
    by (cases "const_chunks b"; auto)+
  have "good_line xl m (asm_line ''slli'' [xr rd, xr rd, py_str 11])"
    using s xregD [OF assms] by (intro good_shift assms) auto
  then show ?thesis
    using True c chunk_fits good_addi [OF assms] by (auto simp: const_to_reg_instrs_def Let_def list_all_iff)
next
  case False
  have a: "''addi'' \<in> set GEN_I_TYPE" by code_simp
  have "good_line xl m (asm_line ''addi'' [xr rd, xr rd, py_str (signed_take_bit 11 b)])"
    using a xregD [OF assms] assms signed_in_signed by (intro good_i) auto
  then show ?thesis
    using False good_lui [OF assms] by (auto simp: const_to_reg_instrs_def Let_def low_part simp: mask_simps(13))
qed

lemma const_length:
  "length (const_to_reg_instrs rd b False) = (if b AND 0xFFF = 0 then 1 else 2)" "length (const_to_reg_instrs rd b True) \<le> 5"
  by (simp_all add: const_to_reg_instrs_def const_chunks_eq Let_def)

lemma good_const64:
  assumes "xreg rd" "xreg sc" "xl \<ge> 64"
  shows "list_all (good_line xl m) (const64_to_reg_instrs rd sc b no_lui)"
proof -
  have n: "''slli'' \<in> set SHIFT_I" "''srli'' \<in> set SHIFT_I" "has_key R_TYPE ''or''" "''32'' = py_str 32" by code_simp+
  have s: "fits (if xl \<ge> 64 then 6 else 5) (32::int)" using assms(3) by (simp add: fits_def)
  have "good_line xl m (asm_line ''slli'' [xr rd, xr rd, ''32''])" "good_line xl m (asm_line ''slli'' [xr sc, xr sc, ''32''])"
    "good_line xl m (asm_line ''srli'' [xr sc, xr sc, ''32''])" "good_line xl m (asm_line ''or'' [xr rd, xr rd, xr sc])"
    unfolding n(4) using n(1-3) s assms xregD by (auto intro!: good_shift good_r)
  then show ?thesis using good_const [OF assms(1)] good_const [OF assms(2)] by (simp add: const64_to_reg_instrs_def Let_def)
qed

lemma good_seeds: "list_all (good_line xl m) (seed_lines xl ooo)"
proof -
  have x: "xreg 29" "xreg 30" "reg ''x30'' = Inr 30" "token ''x30''" by code_simp+
  have "good_line xl m (asm_line ''fmv.w.x'' [fr r, ''x30''])" if "0 \<le> r" "r < 32" for r
    using that x by (intro good_fmv [of _ 30]) (auto simp: fits_def)
  then have "list_all (good_line xl m) (float_seed_lines ooo)"
    using good_const [OF x(2)]
    by (auto simp: float_seed_lines_def FLOAT_SEED_BITS_def list_all_iff in_set_enumerate_eq)
  then show ?thesis using good_const64 [OF x(1,2)] by (simp add: seed_lines_def)
qed

section \<open>Second pass\<close>

fun item_line :: "gen_item \<Rightarrow> nat \<Rightarrow> string" where
  "item_line (Line l) t = l"
| "item_line (Branch mn rs1 rs2) t = asm_line mn [xr rs1, xr rs2, label_text t]"
| "item_line (Jal rd) t = asm_line ''jal'' [xr rd, label_text t]"

fun targets :: "gen_item \<Rightarrow> nat \<Rightarrow> nat set" where
  "targets (Line l) t = {}"
| "targets i t = {t}"

text \<open>The lines of items with chosen targets.\<close>

fun laid :: "nat \<Rightarrow> (gen_item \<times> nat) list \<Rightarrow> nat set \<Rightarrow> string list" where
  "laid c [] L = []"
| "laid c ((i, t) # its) L =
     (let L = targets i t \<union> L in
      item_line i t # (if c + 1 \<in> L then [label_text (c + 1) @ '':''] else []) @ laid (c + 1) its L)"

definition forward_targets :: "nat \<Rightarrow> nat \<Rightarrow> (gen_item \<times> nat) list \<Rightarrow> bool" where
  "forward_targets n c its \<longleftrightarrow> (\<forall>k<length its. min (c + k + 1) n \<le> snd (its ! k) \<and> snd (its ! k) \<le> n)"

lemma outcome_target: "1 \<le> n \<Longrightarrow> outcome (\<lambda>t. min (c + 1) n \<le> t \<and> t \<le> n) (target_draw n c)"
  unfolding target_draw_def
  by (intro outcome_bind [OF outcome_randint] outcome_return) (auto simp: min_def split: if_splits)

definition placed :: "nat \<Rightarrow> nat \<Rightarrow> gen_item list \<Rightarrow> nat set \<Rightarrow> string list \<times> nat set \<Rightarrow> bool" where
  "placed n c items L r \<longleftrightarrow> (\<exists>its. map fst its = items \<and> forward_targets n c its \<and>
     r = (laid c its L, L \<union> (\<Union>(i, t) \<in> set its. targets i t)))"

lemma outcome_place:
  assumes "1 \<le> n \<or> items = []"
  shows "outcome (placed n c items L) (place_items n c items L)"
  using assms
proof (induction items arbitrary: c L)
  case Nil
  show ?case by (simp, intro outcome_return) (simp add: placed_def forward_targets_def)
next
  case (Cons i items)
  have n: "1 \<le> n" using Cons.prems by simp
  let ?d = "case i of Branch mn rs1 rs2 \<Rightarrow> do { t \<leftarrow> target_draw n c;
            State_Monad.return (asm_line mn [xr rs1, xr rs2, label_text t], insert t L) }
        | Jal rd \<Rightarrow> do { t \<leftarrow> target_draw n c;
            State_Monad.return (asm_line ''jal'' [xr rd, label_text t], insert t L) }
        | Line l \<Rightarrow> State_Monad.return (l, L)"
  have d: "outcome (\<lambda>r. \<exists>t. min (c + 1) n \<le> t \<and> t \<le> n \<and> r = (item_line i t, targets i t \<union> L)) ?d"
    using n by (cases i) (auto intro!: outcome_return outcome_bind [OF outcome_target [OF n, of c]])
  have s: "placed n c (i # items) L (item_line i t # (if c + 1 \<in> targets i t \<union> L then [label_text (c + 1) @ '':''] else []) @ ls, L')"
    if a: "min (c + 1) n \<le> t" "t \<le> n" "placed n (c + 1) items (targets i t \<union> L) (ls, L')" for t ls L'
  proof -
    obtain its where i: "map fst its = items" "forward_targets n (c + 1) its" "ls = laid (c + 1) its (targets i t \<union> L)"
      "L' = targets i t \<union> L \<union> (\<Union>(i, t) \<in> set its. targets i t)"
      using a(3) by (auto simp: placed_def)
    have "forward_targets n c ((i, t) # its)" using i(2) a(1,2) by (auto simp: forward_targets_def All_less_Suc2)
    then show ?thesis unfolding placed_def i(3,4) by (intro exI [of _ "(i, t) # its"]) (auto simp: i(1))
  qed
  show ?case unfolding place_items.simps
  proof (rule outcome_bind [OF d])
    fix r assume "\<exists>t. min (c + 1) n \<le> t \<and> t \<le> n \<and> r = (item_line i t, targets i t \<union> L)"
    then obtain t where t: "min (c + 1) n \<le> t" "t \<le> n" "r = (item_line i t, targets i t \<union> L)" by blast
    have p: "1 \<le> n \<or> items = []" using n by simp
    show "outcome (placed n c (i # items) L) (case r of (l, labels_at) \<Rightarrow> State_Monad.bind (place_items n (c + 1) items labels_at)
       (\<lambda>(ls, labels_at'). State_Monad.return
         (l # (if c + 1 \<in> labels_at then [label_text (c + 1) @ '':''] else []) @ ls, labels_at')))"
      unfolding t(3) prod.case
      by (rule outcome_bind [OF Cons.IH [OF p]], clarify) (rule outcome_return, rule s [OF t(1,2)])
  qed
qed

section \<open>Where the labels are\<close>

lemma label_token: "token (label_text t)"
  using token_num(1) [of "int t"] by (auto simp: token_def label_text_def is_sep_def py_isspace_def)

lemma digits_inj: "py_str (int a) = py_str (int b) \<Longrightarrow> a = b"
  by (metis Inr_inject py_int0_str of_nat_eq_iff)

lemma label_inj [simp]: "label_text a = label_text b \<longleftrightarrow> a = b"
  using digits_inj by (auto simp: label_text_def)

definition plain_line :: "string \<Rightarrow> bool" where
  "plain_line l \<longleftrightarrow> l \<noteq> [] \<and> clean l = l \<and> \<not> is_label l \<and> CHR 0x0A \<notin> set l"

lemma plain_asm_line:
  assumes "token mn" "list_all token ts"
  shows "plain_line (asm_line mn ts)"
proof -
  have "CHR 0x0A \<notin> set (asm_line mn ts)" using asm_line_chars [OF assms, of "CHR 0x0A"] seps(4) by auto
  then show ?thesis using asm_line_ends [OF assms] clean_line [OF assms] by (simp add: plain_line_def)
qed

lemma good_plain: "good_line xl m l \<Longrightarrow> plain_line l"
  by (auto simp: good_line_def plain_name_def intro: plain_asm_line)

lemma branch_pool: "mn \<in> set GEN_BRANCH \<Longrightarrow> has_key BRANCH mn \<and> plain_name mn"
proof -
  have "list_all (\<lambda>mn. has_key BRANCH mn \<and> plain_name mn) GEN_BRANCH" by code_simp
  then show "mn \<in> set GEN_BRANCH \<Longrightarrow> has_key BRANCH mn \<and> plain_name mn" unfolding list_all_iff by blast
qed

lemma item_plain: "item_ok xl m i \<Longrightarrow> plain_line (item_line i t)"
proof (cases i)
  case (Branch mn rs1 rs2)
  assume "item_ok xl m i"
  then have "plain_name mn" "0 \<le> rs1" "0 \<le> rs2" using Branch branch_pool [of mn] fitsD(1) [of 5] by auto
  then show ?thesis unfolding Branch item_line.simps by (intro plain_asm_line) (simp_all add: plain_name_def label_token)
next
  case (Jal rd)
  have "token ''jal''" by code_simp
  moreover assume "item_ok xl m i"
  then have "0 \<le> rd" using Jal xregD(2) by simp
  ultimately show ?thesis unfolding Jal item_line.simps by (intro plain_asm_line) (simp_all add: label_token)
qed (auto intro: good_plain)

lemma token_label_line:
  assumes "token l"
  shows "clean (l @ '':'') = l @ '':''" "is_label (l @ '':'')" "label_name (l @ '':'') = Some l" "CHR 0x0A \<notin> set (l @ '':'')"
proof -
  have c: "\<forall>c \<in> set l. \<not> is_sep c \<and> c \<noteq> CHR ''#''" "l \<noteq> []" using assms by (auto simp: token_def list_all_iff)
  have "\<forall>c \<in> set (l @ '':''). c \<noteq> CHR ''#'' \<and> \<not> py_isspace c" using c by (simp add: is_sep_def py_isspace_def)
  then have "split_first CHR ''#'' (l @ '':'') = l @ '':''" "py_strip (l @ '':'') = l @ '':''"
    unfolding split_first_def takeWhile_eq_all_conv by (blast intro: strip_id)+
  moreover have "py_strip l = l" using c(1) by (intro strip_id) (simp add: is_sep_def)
  ultimately show "clean (l @ '':'') = l @ '':''" "is_label (l @ '':'')" "label_name (l @ '':'') = Some l"
    by (simp_all add: clean_def is_label_def label_name_def)
  show "CHR 0x0A \<notin> set (l @ '':'')" using c seps(4) by auto
qed

lemmas label_line = token_label_line [OF label_token]

lemma plain_no_label: "plain_line l \<Longrightarrow> label_name l = None"
  by (simp add: plain_line_def label_name_def)

lemma statements_plain: "list_all plain_line ls \<Longrightarrow> statements ls = ls"
  by (induction ls) (simp_all add: plain_line_def)

lemma laid_statements:
  "list_all (item_ok xl m) (map fst its) \<Longrightarrow> statements (laid c its L) = map (\<lambda>(i, t). item_line i t) its"
proof (induction c its L rule: laid.induct)
  case (2 c i t its L)
  have "plain_line (item_line i t)" using 2(2) item_plain by auto
  then show ?case using 2 by (simp add: Let_def plain_line_def label_line)
qed simp

lemma laid_labels:
  assumes "list_all (item_ok xl m) (map fst its)" "r \<in> set (laid c its L)" "label_name r = Some l"
  shows "\<exists>t>c. l = label_text t"
  using assms
proof (induction c its L rule: laid.induct)
  case (2 c i t its L)
  have "label_name (item_line i t) = None" using 2(2) item_plain plain_no_label by auto
  then show ?case using 2 label_line(3) by (fastforce simp: Let_def split: if_splits)
qed simp

lemma pass1_laid:
  assumes "list_all (item_ok xl m) (map fst its)" "c < t" "t \<le> c + length its"
    "t \<in> L \<or> (\<exists>k < t - c. t \<in> targets (fst (its ! k)) (snd (its ! k)))"
  shows "snd (pass1 (laid c its L) a st labels) (label_text t) = Some (a + 4 * int (t - c))"
  using assms
proof (induction c its L arbitrary: a st labels rule: laid.induct)
  case (2 c i u its L)
  have p: "clean (item_line i u) = item_line i u" "item_line i u \<noteq> []" "\<not> is_label (item_line i u)"
    using 2(2) item_plain [of xl m i u] by (auto simp: plain_line_def)
  let ?L = "targets i u \<union> L"
  show ?case
  proof (cases "t = c + 1")
    case True
    have "label_text t \<notin> {l. \<exists>raw \<in> set (laid (c + 1) its ?L). label_name raw = Some l}"
      using laid_labels [of xl m its] 2(2) True by fastforce
    moreover have "c + 1 \<in> ?L" using 2(5) True by auto
    ultimately show ?thesis
      using True p label_line [of t] by (simp add: Let_def clean_def [symmetric] pass1_other_label label_name_def)
  next
    case False
    have o: "t \<in> ?L \<or> (\<exists>k < t - (c + 1). t \<in> targets (fst (its ! k)) (snd (its ! k)))"
    proof (cases "t \<in> L")
      case False
      then obtain k where k: "k < t - c" "t \<in> targets (fst (((i, u) # its) ! k)) (snd (((i, u) # its) ! k))" using 2(5) by auto
      then show ?thesis by (cases k) auto
    qed simp
    have e: "a + 4 + 4 * int (t - (c + 1)) = a + 4 * int (t - c)" using False 2(3) by auto
    have "snd (pass1 (laid (c + 1) its ?L) (a + 4) st' labels') (label_text t) = Some (a + 4 * int (t - c))" for st' labels'
      unfolding e [symmetric] using 2(2-4) False o by (intro 2(1) refl) auto
    then show ?thesis using p label_line(1,2) by (simp add: Let_def clean_def [symmetric])
  qed
qed simp

section \<open>The program\<close>

definition halt_name :: "bool \<Rightarrow> string" where
  "halt_name ooo = (if ooo then ''__ooo_halt'' else ''__halt'')"

definition used_targets :: "(gen_item \<times> nat) list \<Rightarrow> nat set" where
  "used_targets its = (\<Union>(i, t) \<in> set its. targets i t)"

definition program :: "string list \<Rightarrow> (gen_item \<times> nat) list \<Rightarrow> bool \<Rightarrow> string list" where
  "program pre its ooo =
     pre @ laid 1 its {} @ (if length its \<in> used_targets its then [label_text (length its) @ '':''] else []) @ trailer ooo"

definition program_ok :: "nat \<Rightarrow> int \<Rightarrow> string list \<Rightarrow> (gen_item \<times> nat) list \<Rightarrow> bool" where
  "program_ok xl m pre its \<longleftrightarrow>
     list_all plain_line pre \<and> list_all (item_ok xl m) (map fst its) \<and> forward_targets (length its) 1 its"

definition halt_index :: "string list \<Rightarrow> (gen_item \<times> nat) list \<Rightarrow> bool \<Rightarrow> nat" where
  "halt_index pre its ooo = length pre + length its + (if ooo then 0 else 1)"

lemma halt_token: "token (halt_name ooo)" "label_text t \<noteq> halt_name ooo" "py_strip (halt_name ooo) = halt_name ooo"
proof -
  show "token (halt_name ooo)" by (simp add: halt_name_def token_def is_sep_def py_isspace_def)
  show "label_text t \<noteq> halt_name ooo" by (simp add: label_text_def halt_name_def)
  show "py_strip (halt_name ooo) = halt_name ooo" by (rule strip_id) (simp add: halt_name_def py_isspace_def)
qed

lemma trailer_eq:
  "trailer ooo = (if ooo then [] else [''fence'']) @ [halt_name ooo @ '':'', asm_line ''jal'' [''x0'', halt_name ooo]]"
  by (simp add: trailer_def halt_name_def asm_line_def)

lemma fixed_plain: "plain_line ''fence''" "plain_line (asm_line ''jal'' [''x0'', halt_name ooo])"
proof -
  have "token ''fence''" "token ''jal''" "token ''x0''" by code_simp+
  then show "plain_line ''fence''" "plain_line (asm_line ''jal'' [''x0'', halt_name ooo])"
    using plain_asm_line [of "''fence''" "[]"] plain_asm_line [of "''jal''" "[''x0'', halt_name ooo]"] halt_token(1)
    by (simp_all add: asm_line_def)
qed

lemma program_statements:
  assumes "program_ok xl m pre its"
  shows "statements (program pre its ooo) = pre @ map (\<lambda>(i, t). item_line i t) its @ (if ooo then [] else [''fence'']) @
     [asm_line ''jal'' [''x0'', halt_name ooo]]"
  using assms fixed_plain(1) fixed_plain(2) [of ooo] token_label_line [OF halt_token(1), of ooo] label_line
  by (auto simp: program_def trailer_eq statements_plain laid_statements [of xl m] program_ok_def plain_line_def)

lemma program_length:
  assumes "program_ok xl m pre its"
  shows "length (statements (program pre its ooo)) = halt_index pre its ooo + 1"
  unfolding program_statements [OF assms] by (simp add: halt_index_def)

lemma trailer_labels: "raw \<in> set (trailer ooo) \<Longrightarrow> label_name raw \<noteq> Some (label_text t)"
  using fixed_plain(1) fixed_plain(2) [of ooo] token_label_line(3) [OF halt_token(1), of ooo] halt_token(2) [of t ooo]
  by (auto simp: trailer_eq plain_no_label split: if_splits)

abbreviation program_labels :: "string list \<Rightarrow> labels" where
  "program_labels ls \<equiv> snd (pass1 ls 0 [] Map.empty)"

lemma halt_label:
  assumes "program_ok xl m pre its"
  shows "program_labels (program pre its ooo) (halt_name ooo) = Some (4 * int (halt_index pre its ooo))"
proof -
  let ?b = "pre @ laid 1 its {} @ (if length its \<in> used_targets its then [label_text (length its) @ '':''] else []) @ (if ooo then [] else [''fence''])"
  have p: "program pre its ooo = ?b @ (halt_name ooo @ '':'') # [asm_line ''jal'' [''x0'', halt_name ooo]]"
    by (simp add: program_def trailer_eq)
  have "length (statements ?b) = halt_index pre its ooo"
    using assms fixed_plain(1) label_line
    by (auto simp: statements_plain laid_statements [of xl m] program_ok_def plain_line_def halt_index_def)
  then show ?thesis
    unfolding p using pass1_label [of "halt_name ooo @ '':''" "halt_name ooo" "[asm_line ''jal'' [''x0'', halt_name ooo]]" ?b]
      token_label_line(3) [OF halt_token(1)] plain_no_label [OF fixed_plain(2)]
    by simp
qed

lemma target_label:
  assumes "program_ok xl m pre its" "k < length its" "t \<in> targets (fst (its ! k)) (snd (its ! k))"
  shows "\<exists>j > length pre + k. j \<le> length pre + length its \<and>
     program_labels (program pre its ooo) (label_text t) = Some (4 * int j)"
proof -
  let ?n = "length its" and ?p = "length pre"
  have t: "t = snd (its ! k)" using assms(3) by (cases "fst (its ! k)") auto
  then have b: "min (k + 2) ?n \<le> t" "t \<le> ?n" using assms(1,2) by (auto simp: program_ok_def forward_targets_def)
  have u: "t \<in> used_targets its" using assms(2,3) by (auto simp: used_targets_def split_beta intro!: bexI [of _ "its ! k"])
  have l: "length (statements pre) = ?p" "length (statements (laid 1 its {})) = ?n"
    using assms(1) by (auto simp: statements_plain laid_statements [of xl m] program_ok_def)
  show ?thesis
  proof (cases "t = ?n")
    case True
    have "program_labels ((pre @ laid 1 its {}) @ (label_text t @ '':'') # trailer ooo) (label_text t) =
        Some (4 * int (length (statements (pre @ laid 1 its {}))))"
      using trailer_labels by (intro pass1_label label_line) blast
    then show ?thesis using True u l assms(2) by (intro exI [of _ "?p + ?n"]) (auto simp: program_def)
  next
    case False
    let ?e = "(if ?n \<in> used_targets its then [label_text ?n @ '':''] else []) @ trailer ooo"
    have "label_text t \<notin> {l. \<exists>raw \<in> set ?e. label_name raw = Some l}"
      using False trailer_labels label_line(3) by (auto split: if_splits)
    then have "program_labels (program pre its ooo) (label_text t) =
        snd (pass1 (laid 1 its {}) (4 * int ?p) (fst (pass1 pre 0 [] Map.empty)) (program_labels pre)) (label_text t)"
      unfolding program_def pass1_append [of pre] pass1_append [of "laid 1 its {}"] by (simp add: pass1_other_label l)
    also have "\<dots> = Some (4 * int ?p + 4 * int (t - 1))"
      using assms b False by (intro pass1_laid [of xl m]) (auto simp: program_ok_def intro!: exI [of _ k])
    finally show ?thesis using b False assms(2) by (intro exI [of _ "?p + (t - 1)"]) auto
  qed
qed

section \<open>The program assembles\<close>

lemma asm_stmts_exist:
  assumes "\<forall>i < length stmts. \<exists>w. asm_stmt labels xl (stmts ! i) = Inr w \<and> P i w"
  shows "\<exists>ws. asm_stmts labels xl stmts = Inr ws \<and> length ws = length stmts \<and> (\<forall>i < length ws. P i (ws ! i))"
proof -
  obtain f where "\<forall>i < length stmts. asm_stmt labels xl (stmts ! i) = Inr (f i) \<and> P i (f i)" using assms by metis
  then show ?thesis by (intro exI [of _ "map f [0..<length stmts]"]) (simp add: asm_stmts_Inr)
qed

lemma asm_stmt_good:
  assumes "good_line xl m l"
  shows "\<exists>w. asm_stmt labels xl (a, l) = Inr w \<and> tame BASE_REG m w"
  using assms asm_stmt_line by (fastforce simp: good_line_def)

lemma resolve_label: "token l \<Longrightarrow> labels l = Some v \<Longrightarrow> resolve labels l a = Inr (v - a)"
proof -
  assume "token l" "labels l = Some v"
  moreover from this have "py_strip l = l" by (intro strip_id) (auto simp: token_def list_all_iff is_sep_def)
  ultimately show ?thesis by (simp add: resolve_def)
qed

lemma asm_branch_label:
  assumes "mn \<in> set GEN_BRANCH" "fits 5 rs1" "fits 5 rs2" "token l" "labels l = Some v" "signed_in 13 (v - a)" "even (v - a)"
  shows "\<exists>w. asm_stmt labels xl (a, asm_line mn [xr rs1, xr rs2, l]) = Inr w \<and> dec_op w = OP_BRANCH \<and> dec_imm_b w = v - a"
proof -
  have p: "has_key BRANCH mn" "plain_name mn" using branch_pool [OF assms(1)] by simp_all
  then obtain f3 where e: "py_get BRANCH mn = Inr f3" by (auto simp: has_key_get)
  note t = table_entry [OF e BRANCH_names, simplified]
  have f: "fits 3 f3" using e by (rule funct3_tables) simp
  have "asm_insn labels xl a mn [xr rs1, xr rs2, l] = Inr (enc_b (v - a, rs2, rs1, f3, OP_BRANCH))"
    using t e assms resolve_label [of l labels v a, OF assms(4,5)]
    by (intro asm_insn_group(2)) (auto simp: mem_mnemonic_def asm_mem_def has_key_get [of BRANCH] reg_arg_def arg_def branch_enc signed_imm_def
        simp del: OP_BRANCH_def)
  then show ?thesis
    using asm_stmt_line [OF p(2), of "[xr rs1, xr rs2, l]"] assms fitsD(1) b_decode [OF assms(6,7,3,2) f fits_opcodes(5)] by simp
qed

lemma asm_jal_label:
  assumes "reg r = Inr rd" "token r" "fits 5 rd" "token l" "labels l = Some v" "signed_in 21 (v - a)" "even (v - a)"
  shows "\<exists>w. asm_stmt labels xl (a, asm_line ''jal'' [r, l]) = Inr w \<and> dec_op w = OP_JAL \<and> dec_imm_j w = v - a \<and> dec_rd w = rd"
proof -
  note t = jump_names [simplified]
  have "asm_insn labels xl a ''jal'' [r, l] = Inr (enc_j (v - a, rd, OP_JAL))"
    using t assms resolve_label [of l labels v a, OF assms(4,5)]
    by (intro asm_insn_group(2)) (auto simp: mem_mnemonic_def asm_mem_def reg_arg_def arg_def jal_enc signed_imm_def simp del: OP_JAL_def)
  then show ?thesis
    using t asm_stmt_line [of "''jal''" "[r, l]"] assms j_decode [OF assms(6,7,3) fits_opcodes(6)] by (simp add: mem_mnemonic_def)
qed

lemma moves_forwardI:
  assumes "i < j" "j \<le> n"
  shows "dec_op w = OP_BRANCH \<Longrightarrow> dec_imm_b w = 4 * int j - 4 * int i \<Longrightarrow> moves_forward x m n i w"
    "dec_op w = OP_JAL \<Longrightarrow> dec_imm_j w = 4 * int j - 4 * int i \<Longrightarrow> dec_rd w \<noteq> x \<Longrightarrow> moves_forward x m n i w"
  unfolding moves_forward_def using assms by (intro disjI2 exI [of _ j]; simp add: right_diff_distrib)+

lemma item_word:
  assumes "program_ok xl m pre its" "k < length its" "length its \<le> 1023"
  shows "\<exists>w. asm_stmt (program_labels (program pre its ooo)) xl (4 * int (length pre + k), (\<lambda>(i, t). item_line i t) (its ! k)) = Inr w \<and>
    moves_forward BASE_REG m (halt_index pre its ooo) (length pre + k) w"
proof -
  let ?labels = "program_labels (program pre its ooo)" and ?a = "4 * int (length pre + k)"
  obtain i t where it: "its ! k = (i, t)" by (cases "its ! k")
  have ok: "item_ok xl m i" using assms(1,2) it by (auto simp: program_ok_def list_all_length)
  note l = target_label [OF assms(1,2), of t ooo, unfolded it]
  have j: "signed_in 13 (4 * int j - ?a) \<and> signed_in 21 (4 * int j - ?a) \<and> even (4 * int j - ?a) \<and> 4 * int j - ?a = 4 * (int j - int (length pre + k))"
    if "length pre + k < j" "j \<le> length pre + length its" for j
    using that assms(3) by (auto simp: signed_in_def)
  have h: "length pre + length its \<le> halt_index pre its ooo" by (simp add: halt_index_def)
  show ?thesis
  proof (cases i)
    case (Line s)
    then have "\<exists>w. asm_stmt ?labels xl (?a, s) = Inr w \<and> tame BASE_REG m w" using ok by (intro asm_stmt_good) simp
    then show ?thesis using it Line by (auto simp: moves_forward_def)
  next
    case (Branch mn rs1 rs2)
    then obtain j where "length pre + k < j" "j \<le> length pre + length its" "?labels (label_text t) = Some (4 * int j)" using l by auto
    then show ?thesis
      using asm_branch_label [OF _ _ _ label_token, of mn rs1 rs2 ?labels t "4 * int j" ?a xl] j [of j] ok Branch it h
      by (auto intro!: moves_forwardI(1) [of _ j] simp del: OP_BRANCH_def)
  next
    case (Jal rd)
    then obtain j where "length pre + k < j" "j \<le> length pre + length its" "?labels (label_text t) = Some (4 * int j)" using l by auto
    then show ?thesis
      using asm_jal_label [OF _ _ _ label_token, of "xr rd" rd ?labels t "4 * int j" ?a xl] j [of j] ok xregD [of rd] Jal it h
      by (auto intro!: moves_forwardI(2) [of _ j] simp del: OP_JAL_def)
  qed
qed

lemma halt_word:
  assumes "program_ok xl m pre its"
  shows "\<exists>w. asm_stmt (program_labels (program pre its ooo)) xl (4 * int (halt_index pre its ooo), asm_line ''jal'' [''x0'', halt_name ooo]) = Inr w \<and>
    self_loop w"
proof -
  have x: "reg ''x0'' = Inr 0" "token ''x0''" "fits 5 (0::int)" "signed_in 21 (0::int)" by (code_simp, code_simp, simp_all add: fits_def signed_in_def)
  show ?thesis
    using asm_jal_label [of "''x0''" 0 "halt_name ooo" "program_labels (program pre its ooo)" _ "4 * int (halt_index pre its ooo)" xl, OF x(1-3) halt_token(1) halt_label [OF assms]] x(4)
    by (auto simp: self_loop_def dec_op_def)
qed

end
