(* ===== verification/Random_Gen_Props.thy ===== *)
theory Random_Gen_Props
  imports Random_Gen_Layout
begin

text \<open>
  The generator's promises: every program of the plain mode assembles and halts on the simulator, in bounded time, without touching memory
  below its data area; the constants it builds are the requested ones.
\<close>

section \<open>The text\<close>

lemma text_lines_line: "CHR 0x0A \<notin> set l \<Longrightarrow> text_lines (l @ CHR 0x0A # r) = l # text_lines r"
  by (induction l) auto

lemma text_join: "\<forall>l \<in> set ls. CHR 0x0A \<notin> set l \<Longrightarrow> text_lines (join_lines ls) = ls"
  by (induction ls) (simp_all add: join_lines_def text_lines_line)

section \<open>The program\<close>

definition base_line :: "int \<Rightarrow> string" where
  "base_line base_addr = asm_line ''addi'' [xr BASE_REG, ''x0'', py_str base_addr]"

definition base_word :: "int \<Rightarrow> int" where
  "base_word base_addr = enc_i (take_bit 12 base_addr, 0, 0, BASE_REG, OP_I)"

lemma base_line_word:
  assumes "signed_in 12 b"
  shows "asm_stmt labels xl (a, base_line b) = Inr (base_word b)" "plain_line (base_line b)"
proof -
  have e: "py_get I_TYPE ''addi'' = Inr 0" "''addi'' \<notin> {''slli'', ''srli'', ''srai''}" "reg ''x0'' = Inr 0" "token ''x0''" "plain_name ''addi''"
    by code_simp+
  have r: "fits 5 (0::int)" "0 \<le> BASE_REG" by (simp_all add: fits_def BASE_REG_def)
  have "i_type ''addi'' BASE_REG 0 (Tok (py_str b)) xl = Inr (base_word b)"
    using assms by (simp add: i_type_plain [OF e(1,2)] signed_imm_def base_word_def)
  then show "asm_stmt labels xl (a, base_line b) = Inr (base_word b)" "plain_line (base_line b)"
    using asm_i_any [OF e(1) reg_pools(3) r(1) e(3)] asm_stmt_line [OF e(5), of "[xr BASE_REG, ''x0'', py_str b]"] e(4,5) r(2)
    by (auto simp: base_line_def plain_name_def intro!: plain_asm_line)
qed

lemma outcome_body:
  assumes "8 \<le> addr_space - base_addr" "signed_in 12 base_addr"
  shows "outcome (\<lambda>out. \<exists>its. out = program (base_line base_addr # seed_lines xl ooo) its ooo \<and> length its = n \<and>
    program_ok xl (addr_space - base_addr) (base_line base_addr # seed_lines xl ooo) its)
    (gen_body n xl addr_space base_addr interrupt mmu ooo)"
proof -
  let ?pre = "base_line base_addr # seed_lines xl ooo"
  have p: "list_all plain_line ?pre"
    using base_line_word(2) [OF assms(2)] good_seeds [of xl 0 ooo] good_plain by (auto simp: list_all_iff)
  show ?thesis unfolding gen_body_def
  proof (rule outcome_bind [OF outcome_instrs [OF assms(1)]])
    fix instrs assume i: "length instrs = n \<and> list_all (item_ok xl (addr_space - base_addr)) instrs"
    have n: "1 \<le> length instrs \<or> instrs = []" by (cases instrs) auto
    show "outcome (\<lambda>out. \<exists>its. out = program ?pre its ooo \<and> length its = n \<and> program_ok xl (addr_space - base_addr) ?pre its)
      (State_Monad.bind (place_items (length instrs) 1 instrs {}) (\<lambda>(ls, labels_at). State_Monad.return
         ([asm_line ''addi'' [xr BASE_REG, ''x0'', py_str base_addr]] @ seed_lines xl ooo @ ls @
          (if length instrs \<in> labels_at then [label_text (length instrs) @ '':''] else []) @ trailer ooo)))"
    proof (rule outcome_bind [OF outcome_place [OF n]])
      fix r assume "placed (length instrs) 1 instrs {} r"
      then obtain its where its: "map fst its = instrs" "forward_targets (length instrs) 1 its" "r = (laid 1 its {}, used_targets its)"
        by (auto simp: placed_def used_targets_def)
      have "length its = length instrs" using its(1) by auto
      then show "outcome (\<lambda>out. \<exists>its. out = program ?pre its ooo \<and> length its = n \<and> program_ok xl (addr_space - base_addr) ?pre its)
        (case r of (ls, labels_at) \<Rightarrow> State_Monad.return
         ([asm_line ''addi'' [xr BASE_REG, ''x0'', py_str base_addr]] @ seed_lines xl ooo @ ls @
          (if length instrs \<in> labels_at then [label_text (length instrs) @ '':''] else []) @ trailer ooo))"
        unfolding its(3) prod.case using i p its(1,2)
        by (intro outcome_return exI [of _ its]) (simp add: program_def program_ok_def base_line_def)
    qed
  qed
qed

lemma program_no_newline:
  assumes "program_ok xl m pre its"
  shows "\<forall>l \<in> set (program pre its ooo). CHR 0x0A \<notin> set l"
proof -
  have "\<forall>l \<in> set (laid c its L). CHR 0x0A \<notin> set l" if "list_all (item_ok xl m) (map fst its)" for c its L
    using that
  proof (induction c its L rule: laid.induct)
    case (2 c i t its L)
    have "CHR 0x0A \<notin> set (item_line i t)" using 2(2) item_plain [of xl m i t] by (simp add: plain_line_def)
    then show ?case using 2 label_line(4) by (auto simp: Let_def)
  qed simp
  moreover have "\<forall>l \<in> set (trailer ooo). CHR 0x0A \<notin> set l"
    using fixed_plain(1) fixed_plain(2) [of ooo] token_label_line(4) [OF halt_token(1), of ooo] by (auto simp: trailer_eq plain_line_def)
  ultimately show ?thesis
    using assms label_line(4) by (auto simp: program_def program_ok_def list_all_iff plain_line_def split: if_splits)
qed

lemma program_assembles:
  fixes ooo :: bool
  assumes "program_ok xl m (base_line b # seeds) its" "list_all (good_line xl m) seeds" "length its \<le> 1023" "signed_in 12 b"
  defines "h \<equiv> halt_index (base_line b # seeds) its ooo"
  shows "\<exists>ws. assemble (program (base_line b # seeds) its ooo) xl = Inr ws \<and> length ws = h + 1 \<and> ws ! 0 = base_word b \<and>
    (\<forall>i<h. 1 \<le> i \<longrightarrow> moves_forward BASE_REG m h i (ws ! i)) \<and> self_loop (ws ! h)"
proof -
  let ?pre = "base_line b # seeds" and ?q = "program (base_line b # seeds) its ooo"
  let ?st = "statements ?q" and ?labels = "program_labels ?q"
  define P where "P i w \<longleftrightarrow> (i = 0 \<longrightarrow> w = base_word b) \<and> (1 \<le> i \<and> i < h \<longrightarrow> moves_forward BASE_REG m h i w) \<and> (i = h \<longrightarrow> self_loop w)" for i w
  have st: "?st = ?pre @ map (\<lambda>(i, t). item_line i t) its @ (if ooo then [] else [''fence'']) @ [asm_line ''jal'' [''x0'', halt_name ooo]]"
    by (rule program_statements [OF assms(1)])
  have len: "length ?st = h + 1" unfolding h_def by (rule program_length [OF assms(1)])
  have good: "\<exists>w. asm_stmt ?labels xl (a, l) = Inr w \<and> P i w" if "good_line xl m l" "1 \<le> i" "i < h" for a l i
    using asm_stmt_good [OF that(1)] that(2,3) by (fastforce simp: P_def moves_forward_def)
  have "\<exists>w. asm_stmt ?labels xl (4 * int i, ?st ! i) = Inr w \<and> P i w" if "i < h + 1" for i
  proof -
    consider "i = 0" | "1 \<le> i" "i < length ?pre" | "length ?pre \<le> i" "i < length ?pre + length its" |
      "\<not> ooo" "i = length ?pre + length its" | "i = h"
      using \<open>i < h + 1\<close> by (fastforce simp: h_def halt_index_def split: if_splits)
    then show ?thesis
    proof cases
      case 1
      have "0 < h" by (simp add: h_def halt_index_def)
      then show ?thesis using 1 base_line_word(1) [OF assms(4)] by (simp add: st P_def)
    next
      case 2
      then have "?st ! i = seeds ! (i - 1)" by (cases i) (auto simp: st nth_append)
      moreover have "good_line xl m (seeds ! (i - 1))" using 2 assms(2) by (simp add: list_all_length)
      ultimately show ?thesis using 2 good by (simp add: h_def halt_index_def)
    next
      case 3
      then have "?st ! i = (\<lambda>(i, t). item_line i t) (its ! (i - length ?pre))" by (auto simp: st nth_append nth_Cons')
      then show ?thesis
        using 3 item_word [OF assms(1) _ assms(3), of "i - length ?pre" ooo] by (auto simp: P_def h_def halt_index_def split: if_splits)
    next
      case 4
      then have "?st ! i = ''fence''" unfolding st by (simp add: nth_append)
      then show ?thesis using 4 good [OF good_fence] by (simp add: h_def halt_index_def)
    next
      case 5
      then have "?st ! i = asm_line ''jal'' [''x0'', halt_name ooo]" by (simp add: st h_def halt_index_def nth_append)
      moreover have "0 < h" by (simp add: h_def halt_index_def)
      ultimately show ?thesis using 5 halt_word [OF assms(1), of ooo] by (auto simp: P_def h_def)
    qed
  qed
  then have "\<exists>ws. asm_stmts ?labels xl (addressed 0 ?st) = Inr ws \<and> length ws = length (addressed 0 ?st) \<and> (\<forall>i < length ws. P i (ws ! i))"
    by (intro asm_stmts_exist) (simp add: addressed_nth len)
  then show ?thesis unfolding assemble_unfold by (auto simp: len P_def)
qed

section \<open>It halts\<close>

lemma base_step:
  assumes "wf_iss s" "0 \<le> b" "b \<le> 2047"
  shows "step s (base_word b) = Inr (wr_next s BASE_REG b)" "\<not> self_loop (base_word b)"
proof -
  have b: "signed_in 12 b" "fits 12 b" "fits 5 (0::int)" "fits 3 (0::int)" "fits (xlen s) b"
    using assms wf_issD(1) [OF assms(1)] by (auto simp: signed_in_def fits_def)
  note d = i_fields [OF fits_take_bit b(3,4) reg_pools(3) fits_opcodes(2), of b, folded base_word_def]
    imm_i_enc [OF b(1,3,4) reg_pools(3) fits_opcodes(2), folded base_word_def]
  have "op_imm_result (xlen s) (base_word b) 0 = Inr b"
    using b(5) d by (simp add: op_imm_result_def op_imm_ext_def op_imm_base_def Let_def)
  moreover have "reg_A s (base_word b) = 0" using d(2) assms(1) by (simp add: reg_A_def wf_iss_def)
  ultimately show "step s (base_word b) = Inr (wr_next s BASE_REG b)"
    using d by (simp add: step_dispatch step_op_imm_def)
  show "\<not> self_loop (base_word b)" using d(5) by (simp add: self_loop_def dec_op_def)
qed

lemma forward_program_runs:
  assumes "h < length ws" "1 \<le> h" "ws ! 0 = base_word b" "\<forall>i<h. 1 \<le> i \<longrightarrow> moves_forward BASE_REG m h i (ws ! i)" "self_loop (ws ! h)"
    and "4 * h < 2 ^ 32" "wf_iss s" "priv_mode s = PRIV_M" "pending_interrupt s = None" "pc s = 0"
    and "mem_mask s = 2 ^ k - 1" "k \<le> 32" "0 \<le> b" "b \<le> 2047" "b + m \<le> 2 ^ k" "int h < max_steps"
  shows "\<exists>s' steps. run s ws max_steps = Some (Inr (s', steps)) \<and> steps \<le> int h \<and> pc s' = 4 * int h \<and>
    wf_iss s' \<and> mem_mask s' = mem_mask s \<and> regs s' ! 31 = b \<and> (\<forall>i. int i < b \<or> b + m \<le> int i \<longrightarrow> mem s' ! i = mem s ! i)"
proof -
  let ?s = "wr_next s BASE_REG b"
  note st = base_step [OF assms(7,13,14)]
  have wf: "wf_iss ?s" using ok_step [OF assms(7), of "base_word b"] st(1) by simp
  have f: "fits (xlen s) b" "length (regs s) = 32" using assms(13,14) wf_issD(1,2) [OF assms(7)] by (auto simp: fits_def)
  then have s: "regs ?s ! 31 = b" "pc ?s = 4 * int 1" "priv_mode ?s = PRIV_M" "pending_interrupt ?s = None" "mem_mask ?s = 2 ^ k - 1"
    "mem ?s = mem s"
    using assms(8-11) by (simp_all add: wr_next_def wr_def BASE_REG_def next_pc_def uxlen_def)
  have w: "window BASE_REG m ?s" using s(1,5) assms(12,13,15) by (auto simp: window_def BASE_REG_def)
  have "1 + int (h - 1) < max_steps" using assms(2,16) by auto
  then obtain s' n where r: "run_loop ws max_steps ?s 1 = Some (Inr (s', n))" "n \<le> 1 + int (h - 1)" "pc s' = 4 * int h" "keeps BASE_REG m ?s s'"
    using forward_run [OF assms(4) _ assms(5,6) _ wf s(3,4) w s(2), of 1 max_steps] assms(1,2) by (auto simp: BASE_REG_def)
  have "\<not> interrupt_due s 0" using assms(9) by (simp add: interrupt_due_def)
  moreover have "translate s (pc s) Fetch = (s, Some (4 * int 0))"
    using assms(7,10) by (simp add: translate_M [OF assms(8)] uxlen_small)
  ultimately have "run s ws max_steps = run_loop ws max_steps ?s 1"
    using run_loop_fetch [of 0 max_steps s "4 * int 0" ws] st assms(1,3,16) by (cases "ws = []") (simp_all add: run_def)
  then show ?thesis using r s(1,5,6) assms(2,11) by (auto simp: keeps_def BASE_REG_def)
qed

section \<open>How many words\<close>

lemma seed_length:
  "length (seed_lines xl False) = 12 + (if xl \<ge> 64 then 8 else 0)"
  "length (seed_lines xl True) \<le> 36 + (if xl \<ge> 64 then 20 else 0)"
proof -
  show "length (seed_lines xl False) = 12 + (if xl \<ge> 64 then 8 else 0)"
    by (simp add: seed_lines_def float_seed_lines_def FLOAT_SEED_BITS_def const64_to_reg_instrs_def const_length(1) Let_def)
  have "length (float_seed_lines True) \<le> 36"
    unfolding float_seed_lines_def FLOAT_SEED_BITS_def
    using const_length(2) [of 30 "0x00000000"] const_length(2) [of 30 "0x3F800000"] const_length(2) [of 30 "0xBF800000"]
      const_length(2) [of 30 "0x7F800000"] const_length(2) [of 30 "0x7FC00000"] const_length(2) [of 30 "0x00400000"]
    by (simp del: One_nat_def)
  moreover have "length (const64_to_reg_instrs 29 30 0xDEADBEEF12345678 True) \<le> 20"
    using const_length(2) [of 29 "drop_bit 32 0xDEADBEEF12345678 AND 0xFFFFFFFF"] const_length(2) [of 30 "0xDEADBEEF12345678 AND 0xFFFFFFFF"]
    by (simp add: const64_to_reg_instrs_def Let_def)
  ultimately show "length (seed_lines xl True) \<le> 36 + (if xl \<ge> 64 then 20 else 0)" by (simp add: seed_lines_def)
qed

lemma gen_program_plain:
  assumes "gen_program seed n base_addr mem_size None False xl ooo = Inr (text, irq)" "8 \<le> mem_size - base_addr" "signed_in 12 base_addr"
  obtains its where "text_lines text = program (base_line base_addr # seed_lines xl ooo) its ooo" "length its = nat n" "irq = None"
    "program_ok xl (mem_size - base_addr) (base_line base_addr # seed_lines xl ooo) its"
    "\<exists>budget. gen_budget n None False xl ooo = Inr budget \<and> budget \<le> mem_size div 4"
proof -
  let ?out = "fst (run_state (gen_body (nat n) xl mem_size base_addr None False ooo) seed)"
  obtain budget where b: "gen_budget n None False xl ooo = Inr budget" by (simp add: gen_budget_def)
  then have t: "text = join_lines ?out" "irq = None" "budget \<le> mem_size div 4"
    using assms(1) by (auto simp: gen_program_def Let_def split: prod.splits if_splits)
  obtain its where its: "?out = program (base_line base_addr # seed_lines xl ooo) its ooo" "length its = nat n"
      "program_ok xl (mem_size - base_addr) (base_line base_addr # seed_lines xl ooo) its"
    using outcome_body [OF assms(2,3), of xl ooo "nat n" None False] by (auto simp: outcome_def)
  then have "text_lines text = program (base_line base_addr # seed_lines xl ooo) its ooo"
    unfolding t(1) its(1) using program_no_newline [OF its(3)] by (intro text_join) blast
  then show thesis using its t b by (intro that) auto
qed

text \<open>A generated program, followed by any further words, runs to its halt instruction.\<close>

lemma generated_program_runs:
  assumes gen: "gen_program seed n base_addr (2 ^ k) None False xl ooo = Inr (text, irq)"
    and par: "n \<le> 1023" "0 \<le> base_addr" "base_addr \<le> 2047" "base_addr + 8 \<le> 2 ^ k" "k \<le> 32"
    and s: "wf_iss s" "priv_mode s = PRIV_M" "pending_interrupt s = None" "pc s = 0" "mem_mask s = 2 ^ k - 1"
  obtains ws h where "assemble (text_lines text) xl = Inr ws" "length ws = h + 1" "1 \<le> h"
    "\<And>zs max_steps. int h < max_steps \<Longrightarrow> \<exists>s' steps. run s (ws @ zs) max_steps = Some (Inr (s', steps)) \<and> steps \<le> int h \<and>
       pc s' = 4 * int h \<and> wf_iss s' \<and> mem_mask s' = mem_mask s \<and> regs s' ! 31 = base_addr \<and>
       (\<forall>i. int i < base_addr \<longrightarrow> mem s' ! i = mem s ! i)"
proof -
  have b: "8 \<le> 2 ^ k - base_addr" "signed_in 12 base_addr" using par by (auto simp: signed_in_def)
  obtain its where i: "text_lines text = program (base_line base_addr # seed_lines xl ooo) its ooo" "length its = nat n"
      "program_ok xl (2 ^ k - base_addr) (base_line base_addr # seed_lines xl ooo) its"
    using gen_program_plain [OF gen b] by metis
  define h where "h = halt_index (base_line base_addr # seed_lines xl ooo) its ooo"
  have n: "length its \<le> 1023" using par(1) i(2) by simp
  obtain ws where ws: "assemble (text_lines text) xl = Inr ws" "length ws = h + 1" "ws ! 0 = base_word base_addr"
      "\<forall>j<h. 1 \<le> j \<longrightarrow> moves_forward BASE_REG (2 ^ k - base_addr) h j (ws ! j)" "self_loop (ws ! h)"
    using program_assembles [OF i(3) good_seeds n b(2), of ooo] unfolding i(1) h_def by blast
  have "length (seed_lines xl ooo) \<le> 56" using seed_length [of xl] by (cases ooo; cases "64 \<le> xl") auto
  then have h: "1 \<le> h" "4 * h < 2 ^ 32" using n by (auto simp: h_def halt_index_def)
  show thesis
  proof (rule that [OF ws(1,2) h(1)])
    fix zs and max_steps :: int assume "int h < max_steps"
    moreover have "(ws @ zs) ! j = ws ! j" if "j \<le> h" for j using that ws(2) by (simp add: nth_append)
    ultimately show "\<exists>s' steps. run s (ws @ zs) max_steps = Some (Inr (s', steps)) \<and> steps \<le> int h \<and> pc s' = 4 * int h \<and>
        wf_iss s' \<and> mem_mask s' = mem_mask s \<and> regs s' ! 31 = base_addr \<and> (\<forall>i. int i < base_addr \<longrightarrow> mem s' ! i = mem s ! i)"
      using forward_program_runs [of h "ws @ zs" base_addr "2 ^ k - base_addr" s k max_steps] ws(2-5) h s par(2,3,5) by fastforce
  qed
qed

text \<open>C8. Every program of at most 1023 instructions (the reach of a branch) the generator writes without interrupts and translation, whatever the
  seed, with a base address from 0 to 2047 and eight bytes of data or more behind it, assembles, and the simulator
  runs it, from any M-mode state with its program counter at zero, to the final self-loop: no instruction raises, traps
  or loops, so the run takes fewer steps than the program has words. The base register still holds the base
  address, and memory below the data area is as it was.\<close>

theorem random_program_halts:
  assumes gen: "gen_program seed n base_addr (2 ^ k) None False xl ooo = Inr (text, irq)"
    and par: "n \<le> 1023" "0 \<le> base_addr" "base_addr \<le> 2047" "base_addr + 8 \<le> 2 ^ k" "k \<le> 32"
    and s: "wf_iss s" "priv_mode s = PRIV_M" "pending_interrupt s = None" "pc s = 0" "mem_mask s = 2 ^ k - 1"
  shows "\<exists>ws. assemble (text_lines text) xl = Inr ws \<and>
    (\<forall>max_steps \<ge> int (length ws). \<exists>s' steps. run s ws max_steps = Some (Inr (s', steps)) \<and> steps < int (length ws) \<and>
       pc s' = 4 * (int (length ws) - 1) \<and> regs s' ! 31 = base_addr \<and> (\<forall>i. int i < base_addr \<longrightarrow> mem s' ! i = mem s ! i))"
proof (rule generated_program_runs [OF gen par s])
  fix ws h
  assume w: "assemble (text_lines text) xl = Inr ws" "length ws = h + 1" "1 \<le> h"
    and r: "\<And>zs max_steps. int h < max_steps \<Longrightarrow> \<exists>s' steps. run s (ws @ zs) max_steps = Some (Inr (s', steps)) \<and> steps \<le> int h \<and>
       pc s' = 4 * int h \<and> wf_iss s' \<and> mem_mask s' = mem_mask s \<and> regs s' ! 31 = base_addr \<and>
       (\<forall>i. int i < base_addr \<longrightarrow> mem s' ! i = mem s ! i)"
  show ?thesis
  proof (intro exI [of _ ws] conjI allI impI w(1))
    fix max_steps assume "int (length ws) \<le> max_steps"
    then have "int h < max_steps" using w(2) by simp
    from r [OF this, of "[]"]
    show "\<exists>s' steps. run s ws max_steps = Some (Inr (s', steps)) \<and> steps < int (length ws) \<and> pc s' = 4 * (int (length ws) - 1) \<and>
        regs s' ! 31 = base_addr \<and> (\<forall>i. int i < base_addr \<longrightarrow> mem s' ! i = mem s ! i)"
      unfolding w(2) by fastforce
  qed
qed

lemma gen_program_succeeds:
  "gen_budget n None False xl ooo = Inr budget \<Longrightarrow> budget \<le> mem_size div 4 \<Longrightarrow> \<exists>text. gen_program seed n base_addr mem_size None False xl ooo = Inr (text, None)"
  by (auto simp: gen_program_def Let_def split: prod.split)

theorem random_program_halts_witness:
  "\<exists>tx ws s' steps. gen_program [3, 1, 4, 1, 5] 20 1024 4096 None False 64 False = Inr (tx, None) \<and>
     assemble (text_lines tx) 64 = Inr ws \<and> run (iss_init 4096 64) ws (int (length ws)) = Some (Inr (s', steps)) \<and>
     steps < int (length ws) \<and> regs s' ! 31 = 1024"
proof -
  obtain tx where t: "gen_program [3, 1, 4, 1, 5] 20 1024 (2 ^ 12) None False 64 False = Inr (tx, None)"
    using gen_program_succeeds [of 20 64 False 42 "2 ^ 12"] by (auto simp: gen_budget_def FLOAT_SEED_BITS_def)
  have "wf_iss (iss_init (2 ^ 12) 64)" by (rule wf_iss_init) simp_all
  from random_program_halts [OF t _ _ _ _ _ this] show ?thesis
    using t by (auto simp: iss_init_def)
qed

end
