(* ===== verification/Random_Gen_Const.thy ===== *)
theory Random_Gen_Const
  imports Random_Gen_Layout
begin

text \<open>
  The constant builders of the generator: what the lines of \<open>const_to_reg_instrs\<close> and \<open>const64_to_reg_instrs\<close> leave in the register
  when they are assembled and run, and that the self-checks that accompany them pass for every value.
\<close>

section \<open>Lines and their effects\<close>

text \<open>A line that writes a function of the registers to one register.\<close>

definition line_does :: "nat \<Rightarrow> string \<Rightarrow> int \<times> (int list \<Rightarrow> int) \<Rightarrow> bool" where
  "line_does xl l e \<longleftrightarrow> plain_line l \<and> 0 < fst e \<and> (\<exists>w. (\<forall>labels a. asm_stmt labels xl (a, l) = Inr w) \<and> \<not> self_loop w \<and>
     (\<forall>s. wf_iss s \<longrightarrow> xlen s = xl \<longrightarrow> step s w = Inr (wr_next s (fst e) (snd e (regs s)))))"

lemma line_doesI:
  assumes "plain_name mn" "list_all token ts" "\<And>labels a. asm_insn labels xl a mn ts = Inr w" "dec_op w \<noteq> OP_JAL" "0 < rd"
    "\<And>s. wf_iss s \<Longrightarrow> xlen s = xl \<Longrightarrow> step s w = Inr (wr_next s rd (g (regs s)))"
  shows "line_does xl (asm_line mn ts) (rd, g)"
proof -
  have "plain_line (asm_line mn ts)" using assms(1,2) by (auto simp: plain_name_def intro: plain_asm_line)
  moreover have "asm_stmt labels xl (a, asm_line mn ts) = Inr w" for labels a
    using asm_stmt_line [OF assms(1,2)] assms(3) by simp
  moreover have "\<not> self_loop w" using assms(4) by (auto simp: self_loop_def dec_op_def)
  ultimately show ?thesis unfolding line_does_def using assms(5,6) by auto
qed

fun effects :: "nat \<Rightarrow> (int \<times> (int list \<Rightarrow> int)) list \<Rightarrow> int list \<Rightarrow> int list" where
  "effects xl [] R = R"
| "effects xl ((rd, g) # es) R = effects xl es (R[nat rd := take_bit xl (g R)])"

lemma effects_append: "effects xl (es @ fs) R = effects xl fs (effects xl es R)"
  by (induction es arbitrary: R) auto

lemma wr_next_effect: "0 < rd \<Longrightarrow> regs (wr_next s rd v) = (regs s)[nat rd := take_bit (xlen s) v]"
  by (simp add: wr_next_def wr_def uxlen_def uXLEN_def and_mask_power)

lemma effects_run:
  assumes "list_all2 (\<lambda>w e. 0 < fst e \<and> \<not> self_loop w \<and>
      (\<forall>s. wf_iss s \<longrightarrow> xlen s = xl \<longrightarrow> step s w = Inr (wr_next s (fst e) (snd e (regs s))))) ws es" "length ws < 2 ^ 30"
    and "wf_iss s" "xlen s = xl" "priv_mode s = PRIV_M" "pending_interrupt s = None" "pc s = 4 * int i" "i \<le> length ws"
    "steps + int (length ws - i) < max_steps"
  shows "\<exists>s'. run_loop ws max_steps s steps = Some (Inr (s', steps + int (length ws - i))) \<and>
    regs s' = effects xl (drop i es) (regs s) \<and> mem s' = mem s"
  using assms(3-)
proof (induction "length ws - i" arbitrary: i s steps rule: less_induct)
  case less
  have f: "\<not> interrupt_due s steps" using less.prems(4) by (simp add: interrupt_due_def)
  have t: "translate s (pc s) Fetch = (s, Some (4 * int i))"
    using less.prems(1,5,6) assms(2) by (simp add: translate_M [OF less.prems(3)] uxlen_small)
  have "steps < max_steps" using less.prems(7) by simp
  note l = run_loop_fetch [OF this f t, of ws]
  have len: "length es = length ws" using list_all2_lengthD [OF assms(1)] by simp
  show ?case
  proof (cases "i = length ws")
    case True
    then show ?thesis using l len by simp
  next
    case False
    then have i: "i < length ws" using less.prems(6) by simp
    define e where "e = es ! i"
    have st: "0 < fst e" "\<not> self_loop (ws ! i)" "step s (ws ! i) = Inr (wr_next s (fst e) (snd e (regs s)))"
      using list_all2_nthD [OF assms(1) i] less.prems(1,2) by (auto simp: e_def)
    let ?s = "wr_next s (fst e) (snd e (regs s))"
    have wf: "wf_iss ?s" using ok_step [OF less.prems(1), of "ws ! i"] st(3) by simp
    have s: "xlen ?s = xl" "priv_mode ?s = PRIV_M" "pending_interrupt ?s = None" "pc ?s = 4 * int (i + 1)" "mem ?s = mem s"
      using less.prems(2-5) by (simp_all add: wr_next_def wr_def next_pc_def)
    have d: "length ws - (i + 1) < length ws - i" "i + 1 \<le> length ws" "steps + 1 + int (length ws - (i + 1)) = steps + int (length ws - i)"
      using i by auto
    have "run_loop ws max_steps s steps = run_loop ws max_steps ?s (steps + 1)" using l st i by auto
    moreover have "drop i es = e # drop (i + 1) es" using i len by (simp add: e_def Cons_nth_drop_Suc)
    ultimately show ?thesis
      using less.hyps [OF d(1) wf s(1-4) d(2), of "steps + 1"] less.prems(2,7) d(3) s(5) wr_next_effect [OF st(1), of s]
      by (cases e) auto
  qed
qed

lemma statements_lines: "list_all2 (line_does xl) ls es \<Longrightarrow> statements ls = ls"
  by (rule statements_plain) (auto simp: list_all2_conv_all_nth list_all_length line_does_def)

lemma lines_run:
  assumes "list_all2 (line_does xl) ls es" "length ls < 2 ^ 30"
    and "wf_iss s" "xlen s = xl" "priv_mode s = PRIV_M" "pending_interrupt s = None" "pc s = 0"
  shows "\<exists>ws. assemble ls xl = Inr ws \<and> (\<forall>max_steps > int (length ls). \<exists>s'. run s ws max_steps = Some (Inr (s', int (length ls))) \<and>
    regs s' = effects xl es (regs s) \<and> mem s' = mem s)"
proof -
  define P where "P i w \<longleftrightarrow> 0 < fst (es ! i) \<and> \<not> self_loop w \<and>
      (\<forall>s. wf_iss s \<longrightarrow> xlen s = xl \<longrightarrow> step s w = Inr (wr_next s (fst (es ! i)) (snd (es ! i) (regs s))))" for i w
  have d: "line_does xl (ls ! i) (es ! i)" if "i < length ls" for i using list_all2_nthD [OF assms(1) that] .
  have st: "statements ls = ls" by (rule statements_lines [OF assms(1)])
  have "\<exists>w. asm_stmt (program_labels ls) xl (addressed 0 ls ! i) = Inr w \<and> P i w" if "i < length (addressed 0 ls)" for i
    using d [of i] that by (auto simp: addressed_nth line_does_def P_def)
  then obtain ws where ws: "assemble ls xl = Inr ws" "length ws = length ls" "\<forall>i < length ws. P i (ws ! i)"
    using asm_stmts_exist [of "addressed 0 ls" "program_labels ls" xl P] by (auto simp: assemble_unfold st)
  have "list_all2 (\<lambda>w e. 0 < fst e \<and> \<not> self_loop w \<and>
      (\<forall>s. wf_iss s \<longrightarrow> xlen s = xl \<longrightarrow> step s w = Inr (wr_next s (fst e) (snd e (regs s))))) ws es"
    using ws list_all2_lengthD [OF assms(1)] unfolding list_all2_conv_all_nth P_def by simp
  from effects_run [OF this _ assms(3-6), of 0 0] show ?thesis
    using ws(1,2) assms(2,7) by (intro exI [of _ ws]) (simp add: run_def)
qed

section \<open>The instructions of the builders\<close>

lemma addi_does:
  assumes "0 < rd" "fits 5 rd" "fits 5 rs1" "reg t1 = Inr rs1" "token t1" "signed_in 12 v"
  shows "line_does xl (asm_line ''addi'' [xr rd, t1, py_str v]) (rd, \<lambda>R. R ! nat rs1 + v)"
proof -
  have e: "py_get I_TYPE ''addi'' = Inr 0" "''addi'' \<notin> {''slli'', ''srli'', ''srai''}" by code_simp+
  let ?w = "enc_i (take_bit 12 v, rs1, 0, rd, OP_I)"
  note d = i_fields [OF fits_take_bit assms(3) fits_0 assms(2) fits_opcodes(2), of v] imm_i_enc [OF assms(6,3) fits_0 assms(2) fits_opcodes(2)]
  have "i_type ''addi'' rd rs1 (Tok (py_str v)) xl = Inr ?w"
    using assms(6) by (simp add: i_type_plain [OF e] signed_imm_def)
  moreover have "step s ?w = Inr (wr_next s rd (regs s ! nat rs1 + v))" for s
    using d by (simp add: step_dispatch step_op_imm_def reg_A_def op_imm_result_def op_imm_ext_def op_imm_base_def Let_def)
      (simp add: wr_next_def wr_def uxlen_def uXLEN_def and_mask_power)
  ultimately show ?thesis
    using asm_i_any [OF e(1) assms(2-4)] assms(1,2,5) fitsD(1) d(5) by (intro line_doesI [where w = ?w]) auto
qed

lemma shift_does:
  assumes "0 < rd" "fits 5 rd" "fits (if xl \<ge> 64 then 6 else 5) v"
  shows "line_does xl (asm_line ''slli'' [xr rd, xr rd, py_str v]) (rd, \<lambda>R. push_bit (nat v) (R ! nat rd))"
    and "line_does xl (asm_line ''srli'' [xr rd, xr rd, py_str v]) (rd, \<lambda>R. drop_bit (nat v) (R ! nat rd))"
proof -
  have v: "fits 6 v" "fits 12 v" "drop_bit 6 v = 0" "v < 64"
    using shamt_fits [OF assms(3)] fits_mono [OF shamt_fits [OF assms(3)], of 12] drop_6_small by (auto simp: fits_def)
  have sh: "xl \<ge> 64 \<Longrightarrow> take_bit 6 v = v" "\<not> xl \<ge> 64 \<Longrightarrow> take_bit 5 v = v" using assms(3) by simp_all
  have f: "fits 3 (1::int)" "fits 3 (5::int)" by (simp_all add: fits_def)
  let ?w = "\<lambda>f3. enc_i (v, rd, f3, rd, OP_I)"
  note d1 = i_fields [OF v(2) assms(2) f(1) assms(2) fits_opcodes(2)] i_subfields [OF v(2) assms(2) f(1) assms(2) fits_opcodes(2)]
    and d5 = i_fields [OF v(2) assms(2) f(2) assms(2) fits_opcodes(2)] i_subfields [OF v(2) assms(2) f(2) assms(2) fits_opcodes(2)]
  show "line_does xl (asm_line ''slli'' [xr rd, xr rd, py_str v]) (rd, \<lambda>R. push_bit (nat v) (R ! nat rd))"
  proof -
    have e: "py_get I_TYPE ''slli'' = Inr 1" by code_simp
    have "i_type ''slli'' rd rd (Tok (py_str v)) xl = Inr (?w 1)" using assms(3) by (simp add: i_type_shift [OF e] del: OP_I_def)
    moreover have "step s (?w 1) = Inr (wr_next s rd (push_bit (nat v) (regs s ! nat rd)))" if "xlen s = xl" for s
      using d1 v(3) sh that
      by (simp add: step_dispatch step_op_imm_def reg_A_def op_imm_result_def op_imm_ext_def op_imm_base_def Let_def mask_simps)
        (simp add: wr_next_def wr_def uxlen_def uXLEN_def and_mask_power)
    ultimately show ?thesis
      using asm_i_any [OF e assms(2,2) xr_reg(1) [OF assms(2)]] assms(1,2) fitsD(1) d1(5) by (intro line_doesI [where w = "?w 1"]) auto
  qed
  show "line_does xl (asm_line ''srli'' [xr rd, xr rd, py_str v]) (rd, \<lambda>R. drop_bit (nat v) (R ! nat rd))"
  proof -
    have e: "py_get I_TYPE ''srli'' = Inr 5" by code_simp
    have "i_type ''srli'' rd rd (Tok (py_str v)) xl = Inr (?w 5)" using assms(3) by (simp add: i_type_shift [OF e] del: OP_I_def)
    moreover have "step s (?w 5) = Inr (wr_next s rd (drop_bit (nat v) (regs s ! nat rd)))" if a: "wf_iss s" "xlen s = xl" for s
    proof -
      have "fits xl (regs s ! nat rd)" using all_fit_nth [OF wf_issD(3) [OF a(1)], of "nat rd"] wf_issD(2) [OF a(1)] assms(2) a(2)
        by (auto simp: fits_def)
      moreover from this have "take_bit 32 (regs s ! nat rd) = regs s ! nat rd" if "xl = 32" using that by simp
      moreover have "drop_bit 5 v = 0" if "\<not> 64 \<le> xl" using fits_drop_0 [of 5 v 5] assms(3) that by simp
      ultimately show ?thesis
        using d5 v(3,4) sh a(2)
        by (simp add: step_dispatch step_op_imm_def reg_A_def op_imm_result_def op_imm_ext_def op_imm_base_def Let_def mask_simps uXLEN_def)
    qed
    ultimately show ?thesis
      using asm_i_any [OF e assms(2,2) xr_reg(1) [OF assms(2)]] assms(1,2) fitsD(1) d5(5) by (intro line_doesI [where w = "?w 5"]) auto
  qed
qed

lemma lui_does:
  assumes "0 < rd" "fits 5 rd" "fits 20 v"
  shows "line_does xl (asm_line ''lui'' [xr rd, hex_text v]) (rd, \<lambda>R. signed_take_bit 31 (push_bit 12 v))"
proof -
  note d = u_decode [OF assms(3,2) fits_opcodes(8)]
  have n: "mem_mnemonic ''lui''" "\<not> has_key LOAD ''lui''" "\<not> has_key STORE ''lui''" "\<not> has_key BRANCH ''lui''" using jump_names by simp_all
  have "asm_insn labels xl a ''lui'' [xr rd, hex_text v] = Inr (enc_u (v, rd, OP_LUI))" for labels a
    using n assms operand_hex [OF fitsD(1) [OF assms(3)]]
    by (intro asm_insn_group(2)) (simp_all add: mem_mnemonic_def asm_mem_def reg_arg_def tok_arg_def arg_def u_type_enc hex_text_def del: OP_LUI_def)
  moreover have "step s (enc_u (v, rd, OP_LUI)) = Inr (wr_next s rd (signed_take_bit 31 (push_bit 12 v)))" for s
    using d by (simp add: step_by_opcode step_lui_def s32_signed)
  ultimately show ?thesis
    using n(1) assms(1,2) fitsD(1) token_hex d(3) by (intro line_doesI) (auto simp: mem_mnemonic_def)
qed

lemma or_does:
  assumes "0 < rd" "fits 5 rd" "fits 5 rs1" "fits 5 rs2"
  shows "line_does xl (asm_line ''or'' [xr rd, xr rs1, xr rs2]) (rd, \<lambda>R. R ! nat rs1 OR R ! nat rs2)"
proof -
  have e: "py_get R_TYPE ''or'' = Inr (0, 6)" "plain_name ''or''" "''or'' \<noteq> ''nop''" by code_simp+
  have f: "fits 7 (0::int)" "fits 3 (6::int)" by (simp_all add: fits_def)
  note d = r_fields [OF f(1) assms(4,3) f(2) assms(2) fits_opcodes(1)]
  have "step s (enc_r (0, rs2, rs1, 6, rd, OP_R)) = Inr (wr_next s rd (regs s ! nat rs1 OR regs s ! nat rs2))" for s
    using d by (simp add: step_by_opcode step_op_def reg_A_def reg_B_def op_r_result_def op_r_ext_def op_r_base_def Let_def)
      (simp add: wr_next_def wr_def uxlen_def uXLEN_def and_mask_power)
  moreover have "asm_insn labels xl a ''or'' [xr rd, xr rs1, xr rs2] = Inr (enc_r (0, rs2, rs1, 6, rd, OP_R))" for labels a
    using assms by (intro asm_r_insn e) simp_all
  ultimately show ?thesis using e assms fitsD(1) d(6) by (intro line_doesI) auto
qed

section \<open>The value built\<close>

definition const_value :: "nat \<Rightarrow> int \<Rightarrow> bool \<Rightarrow> int" where
  "const_value xl b no_lui =
     (if no_lui then take_bit 32 b
      else take_bit xl (signed_take_bit 31 (b - signed_take_bit 11 b) + signed_take_bit 11 b))"

lemma upper_part:
  "signed_take_bit 31 (push_bit 12 (if (b AND 0xFFF) AND 0x800 \<noteq> 0 then (drop_bit 12 b AND 0xFFFFF) + 1 AND 0xFFFFF else drop_bit 12 b AND 0xFFFFF)) =
    signed_take_bit 31 (b - signed_take_bit 11 (b::int))"
proof -
  define c :: int where "c = of_bool (bit b 11)"
  have "(b AND 0xFFF) AND 0x800 \<noteq> 0 \<longleftrightarrow> bit b 11"
    using and_power_eq_0_iff [of "take_bit 12 b" 11] by (simp add: mask_simps bit_take_bit_iff)
  then have h: "(if (b AND 0xFFF) AND 0x800 \<noteq> 0 then (drop_bit 12 b AND 0xFFFFF) + 1 AND 0xFFFFF else drop_bit 12 b AND 0xFFFFF) =
      take_bit 20 (drop_bit 12 b + c)"
    by (simp add: c_def mask_simps take_bit_eq_mod mod_add_left_eq)
  have lo: "signed_take_bit 11 b = take_bit 12 b - 2 ^ 12 * c" by (simp add: c_def signed_take_bit_eq_take_bit_minus)
  have "push_bit 12 (drop_bit 12 b + c) = b - signed_take_bit 11 b"
    unfolding lo using bits_ident [of 12 b] by (simp add: push_bit_add push_bit_eq_mult)
  moreover have "take_bit 32 (push_bit 12 (take_bit 20 x)) = take_bit 32 (push_bit 12 x)" for x :: int
    by (simp add: take_bit_push_bit)
  ultimately show ?thesis unfolding h by (simp add: signed_take_bit_eq_iff_take_bit_eq)
qed

lemma effects_add:
  "fits xl v \<Longrightarrow> nat rd < length R \<Longrightarrow>
     effects xl ((if c \<noteq> 0 then [(rd, \<lambda>R. R ! nat rd + c)] else []) @ es) (R[nat rd := v]) = effects xl es (R[nat rd := take_bit xl (v + c)])"
  by simp

lemma chunks_value: "push_bit 11 (push_bit 11 (take_bit 10 (drop_bit 22 b)) + take_bit 11 (drop_bit 11 b)) + take_bit 11 b = take_bit 32 (b::int)"
proof -
  have c: "drop_bit 11 (take_bit 32 b) = take_bit 21 (drop_bit 11 b)" "drop_bit 11 (take_bit 21 (drop_bit 11 b)) = take_bit 10 (drop_bit 22 b)"
    "take_bit 11 (take_bit 32 b) = take_bit 11 b" "take_bit 11 (take_bit 21 (drop_bit 11 b)) = take_bit 11 (drop_bit 11 b)"
    by (simp_all add: drop_bit_take_bit)
  show ?thesis
    using bits_ident [of 11 "take_bit 32 b"] bits_ident [of 11 "take_bit 21 (drop_bit 11 b)"] unfolding c by simp
qed

lemma absorb:
  "take_bit n (push_bit m (take_bit n x)) = take_bit n (push_bit m (x::int))" "take_bit n (take_bit n x + y) = take_bit n (x + y)"
  by (simp_all add: take_bit_eq_mod push_bit_eq_mult mod_simps)

lemma no_lui_effects:
  assumes "0 < rd" "fits 5 rd" "xl = 32 \<or> xl = 64"
  shows "\<exists>es. list_all2 (line_does xl) (const_to_reg_instrs rd b True) es \<and>
    (\<forall>R. nat rd < length R \<longrightarrow> R ! 0 = 0 \<longrightarrow> effects xl es R = R[nat rd := const_value xl b True])"
proof -
  let ?c0 = "take_bit 10 (drop_bit 22 b)" and ?c1 = "take_bit 11 (drop_bit 11 b)" and ?c2 = "take_bit 11 b"
  let ?z = "(rd, \<lambda>R. R ! nat 0 + ?c0) :: int \<times> (int list \<Rightarrow> int)" and ?s = "(rd, \<lambda>R. push_bit (nat 11) (R ! nat rd)) :: int \<times> (int list \<Rightarrow> int)"
    and ?a = "\<lambda>c. if c \<noteq> 0 then [(rd, \<lambda>R. R ! nat rd + c)] else [] :: (int \<times> (int list \<Rightarrow> int)) list"
  have c: "signed_in 12 c" if "fits 11 c" for c using that by (simp add: fits_def signed_in_def)
  have f: "fits 11 ?c0" "fits 11 ?c1" "fits 11 ?c2" by (simp_all add: fits_take_bit_le)
  have x: "reg ''x0'' = Inr 0" "token ''x0''" "fits 5 (0::int)" by (code_simp, code_simp, simp)
  have s: "fits (if xl \<ge> 64 then 6 else 5) (11::int)" and m: "min xl 10 = 10" using assms(3) by (auto simp: fits_def)
  have "line_does xl (asm_line ''addi'' [xr rd, ''x0'', py_str ?c0]) ?z" by (rule addi_does [OF assms(1,2) x(3,1,2) c [OF f(1)]])
  moreover have "line_does xl (asm_line ''slli'' [xr rd, xr rd, py_str 11]) ?s" by (rule shift_does(1) [OF assms(1,2) s])
  moreover have "list_all2 (line_does xl) (if d \<noteq> 0 then [asm_line ''addi'' [xr rd, xr rd, py_str d]] else []) (?a d)" if "fits 11 d" for d
    using addi_does [OF assms(1,2,2) xr_reg(1) [OF assms(2)] _ c [OF that]] fitsD(1) [OF assms(2)] by simp
  ultimately have l: "list_all2 (line_does xl) (const_to_reg_instrs rd b True) (?z # (?s # ?a ?c1) @ ?s # ?a ?c2 @ [])"
    using f by (simp add: const_to_reg_instrs_def const_chunks_eq list_all2_appendI)
  have "effects xl (?z # (?s # ?a ?c1) @ ?s # ?a ?c2 @ []) R = R[nat rd := const_value xl b True]" if R: "nat rd < length R" "R ! 0 = 0" for R
  proof -
    have "effects xl (?z # (?s # ?a ?c1) @ ?s # ?a ?c2 @ []) R =
        effects xl (?a ?c1 @ ?s # ?a ?c2 @ []) (R[nat rd := take_bit xl (push_bit 11 ?c0)])"
      using R m by (simp add: absorb split del: if_split)
    also have "\<dots> = effects xl (?a ?c2 @ []) (R[nat rd := take_bit xl (push_bit 11 (push_bit 11 ?c0 + ?c1))])"
      using R by (subst effects_add) (simp_all add: absorb split del: if_split)
    also have "\<dots> = R[nat rd := take_bit xl (take_bit 32 b)]"
      unfolding chunks_value [symmetric, of b] using R by (subst effects_add) (simp_all add: absorb)
    also have "take_bit xl (take_bit 32 b) = const_value xl b True" using assms(3) by (auto simp: const_value_def)
    finally show ?thesis .
  qed
  with l show ?thesis by blast
qed

lemma lui_effects:
  assumes "0 < rd" "fits 5 rd" "xl = 32 \<or> xl = 64"
  shows "\<exists>es. list_all2 (line_does xl) (const_to_reg_instrs rd b False) es \<and>
    (\<forall>R. nat rd < length R \<longrightarrow> effects xl es R = R[nat rd := const_value xl b False])"
proof -
  let ?hi = "if (b AND 0xFFF) AND 0x800 \<noteq> 0 then (drop_bit 12 b AND 0xFFFFF) + 1 AND 0xFFFFF else drop_bit 12 b AND 0xFFFFF"
  let ?lo = "signed_take_bit 11 b"
  let ?u = "(rd, \<lambda>R. signed_take_bit 31 (b - ?lo)) :: int \<times> (int list \<Rightarrow> int)"
    and ?a = "if b AND 0xFFF \<noteq> 0 then [(rd, \<lambda>R. R ! nat rd + ?lo)] else [] :: (int \<times> (int list \<Rightarrow> int)) list"
  have "fits 20 ?hi" by (simp add: mask_simps)
  then have "line_does xl (asm_line ''lui'' [xr rd, hex_text ?hi]) ?u" using lui_does [OF assms(1,2), of ?hi xl] unfolding upper_part by simp
  moreover have "line_does xl (asm_line ''addi'' [xr rd, xr rd, py_str ?lo]) (rd, \<lambda>R. R ! nat rd + ?lo)"
    using addi_does [OF assms(1,2,2) xr_reg(1) [OF assms(2)] _ signed_in_signed] fitsD(1) [OF assms(2)] by simp
  ultimately have l: "list_all2 (line_does xl) (const_to_reg_instrs rd b False) (?u # ?a)"
    by (simp add: const_to_reg_instrs_def Let_def low_part)
  have z: "b AND 0xFFF = 0 \<longleftrightarrow> ?lo = 0" using signed_take_bit_eq_iff_take_bit_eq [of 11 b 0] by (simp add: mask_simps)
  have "effects xl (?u # ?a) R = R[nat rd := const_value xl b False]" if R: "nat rd < length R" for R
    using R by (simp add: const_value_def z absorb)
  with l show ?thesis by blast
qed

lemma const_effects:
  assumes "0 < rd" "fits 5 rd" "xl = 32 \<or> xl = 64"
  shows "\<exists>es. list_all2 (line_does xl) (const_to_reg_instrs rd b no_lui) es \<and>
    (\<forall>R. nat rd < length R \<longrightarrow> R ! 0 = 0 \<longrightarrow> effects xl es R = R[nat rd := const_value xl b no_lui])"
proof (cases no_lui)
  case True
  then show ?thesis using no_lui_effects [OF assms, of b] by simp
next
  case False
  then show ?thesis using lui_effects [OF assms, of b] by simp blast
qed

lemma const_low: "xl = 32 \<or> xl = 64 \<Longrightarrow> take_bit 32 (const_value xl b no_lui) = take_bit 32 b"
proof -
  assume "xl = 32 \<or> xl = 64"
  then have "min 32 xl = 32" by auto
  moreover have "take_bit 32 (signed_take_bit 31 x + y) = take_bit 32 (x + y)" for x y :: int
  proof -
    have "take_bit 32 (signed_take_bit 31 x) = take_bit 32 x" by (simp add: take_bit_signed_take_bit)
    then show ?thesis by (metis take_bit_add)
  qed
  ultimately show ?thesis by (simp add: const_value_def)
qed

lemma const64_effects:
  assumes "0 < rd" "fits 5 rd" "0 < sc" "fits 5 sc" "rd \<noteq> sc"
  shows "\<exists>es. list_all2 (line_does 64) (const64_to_reg_instrs rd sc b no_lui) es \<and>
    (\<forall>R. nat rd < length R \<longrightarrow> nat sc < length R \<longrightarrow> R ! 0 = 0 \<longrightarrow> effects 64 es R ! nat rd = take_bit 64 b)"
proof -
  let ?hi = "drop_bit 32 b AND 0xFFFFFFFF" and ?lo = "b AND 0xFFFFFFFF"
  let ?vh = "const_value 64 ?hi no_lui" and ?vl = "const_value 64 ?lo no_lui"
  have "xl = 64 \<Longrightarrow> xl = 32 \<or> xl = (64::nat)" for xl by simp
  then obtain eh el where eh: "list_all2 (line_does 64) (const_to_reg_instrs rd ?hi no_lui) eh"
      "\<forall>R. nat rd < length R \<longrightarrow> R ! 0 = 0 \<longrightarrow> effects 64 eh R = R[nat rd := ?vh]"
    and el: "list_all2 (line_does 64) (const_to_reg_instrs sc ?lo no_lui) el"
      "\<forall>R. nat sc < length R \<longrightarrow> R ! 0 = 0 \<longrightarrow> effects 64 el R = R[nat sc := ?vl]"
    using const_effects [OF assms(1,2), of 64 ?hi no_lui] const_effects [OF assms(3,4), of 64 ?lo no_lui] by auto
  have n: "''32'' = py_str 32" by code_simp
  have s: "fits (if (64::nat) \<ge> 64 then 6 else 5) (32::int)" by (simp add: fits_def)
  let ?es = "eh @ [(rd, \<lambda>R. push_bit (nat 32) (R ! nat rd))] @ el @ [(sc, \<lambda>R. push_bit (nat 32) (R ! nat sc)), (sc, \<lambda>R. drop_bit (nat 32) (R ! nat sc)),
     (rd, \<lambda>R. R ! nat rd OR R ! nat sc)]"
  have "list_all2 (line_does 64) (const64_to_reg_instrs rd sc b no_lui) ?es"
    using shift_does [OF assms(1,2) s] shift_does [OF assms(3,4) s] or_does [OF assms(1,2,2,4)] eh(1) el(1)
    unfolding const64_to_reg_instrs_def Let_def n by (intro list_all2_appendI) simp_all
  moreover have "effects 64 ?es R ! nat rd = take_bit 64 b" if R: "nat rd < length R" "nat sc < length R" "R ! 0 = 0" for R
  proof -
    have d: "nat rd \<noteq> nat sc" "nat rd \<noteq> 0" "nat sc \<noteq> 0" using assms(1,3,5) by auto
    have "effects 64 ?es R ! nat rd =
        take_bit 64 (take_bit 64 (push_bit 32 ?vh) OR take_bit 64 (drop_bit 32 (take_bit 64 (push_bit 32 ?vl))))"
      using R d eh(2) el(2) by (simp add: effects_append)
    also have "take_bit 64 (push_bit 32 ?vh) = push_bit 32 (take_bit 32 (drop_bit 32 b))"
      using const_low [of 64 ?hi no_lui] by (simp add: take_bit_push_bit mask_simps)
    also have "take_bit 64 (drop_bit 32 (take_bit 64 (push_bit 32 ?vl))) = take_bit 32 b"
      using const_low [of 64 ?lo no_lui] by (simp add: take_bit_push_bit mask_simps drop_push_bit)
    also have "take_bit 64 (push_bit 32 (take_bit 32 (drop_bit 32 b)) OR take_bit 32 b) = take_bit 64 b"
      by (rule bit_eqI) (auto simp: bit_simps)
    finally show ?thesis .
  qed
  ultimately show ?thesis by blast
qed

lemma gen_sext32_signed: "gen_sext32 v = signed_take_bit 31 v"
  by (simp add: s32_signed [symmetric] gen_sext32_def s32_def Let_def push_bit_eq_mult)

lemma const_value_64:
  assumes "0 \<le> b" "b < 2 ^ 32"
  shows "const_value 64 b False = (if 0x7FFFF800 \<le> b \<and> b < 2 ^ 31 then b + 2 ^ 64 - 2 ^ 32 else take_bit 64 (gen_sext32 b))"
proof -
  define x where "x = b - signed_take_bit 11 b"
  have x: "x = 4096 * ((b + 2048) div 4096)"
    unfolding x_def signed_take_bit_eq_take_bit_shift by (simp add: take_bit_eq_mod minus_mod_eq_mult_div [symmetric])
  have g: "gen_sext32 b = (if b < 2 ^ 31 then b else b - 2 ^ 32)"
    using assms mod_add_self2 [of "b - 2 ^ 31" "2 ^ 32"] unfolding gen_sext32_signed signed_take_bit_eq_take_bit_shift
    by (auto simp: take_bit_eq_mod add.commute)
  have v: "const_value 64 b False = take_bit 64 (signed_take_bit 31 x + (b - x))" by (simp add: const_value_def x_def)
  show ?thesis
  proof (cases "b < 0x7FFFF800")
    case True
    then have "0 \<le> x" "x < 2 ^ 31" using assms(1) unfolding x by auto
    then have "signed_take_bit 31 x = x" by (simp add: signed_take_bit_int_eq_self)
    then show ?thesis using True g v by simp
  next
    case False
    have "2 ^ 31 \<le> x" "x \<le> 2 ^ 32" using False assms unfolding x by auto
    then have "signed_take_bit 31 x = x - 2 ^ 32"
      using mod_add_self2 [of "x - 2 ^ 31" "2 ^ 32"] unfolding signed_take_bit_eq_take_bit_shift by (auto simp: take_bit_eq_mod add.commute)
    then have "const_value 64 b False = take_bit 64 (b - 2 ^ 32)" using v by simp
    moreover have "take_bit 64 (b - 2 ^ 32) = b + 2 ^ 64 - 2 ^ 32"
      using assms mod_add_self2 [of "b - 2 ^ 32" "2 ^ 64"] mod_pos_pos_trivial [of "b - 2 ^ 32 + 2 ^ 64" "2 ^ 64"]
      unfolding take_bit_eq_mod by simp
    ultimately show ?thesis using False g by auto
  qed
qed

lemma list_update_reg: "wf_iss s \<Longrightarrow> 0 < rd \<Longrightarrow> fits 5 rd \<Longrightarrow> nat rd < length (regs s) \<and> regs s ! 0 = 0"
  using wf_issD(2,11) [of s] by (auto simp: fits_def)

lemma lines_run_exact:
  assumes "list_all2 (line_does xl) ls es" "length ls < 2 ^ 30"
    and "wf_iss s" "xlen s = xl" "priv_mode s = PRIV_M" "pending_interrupt s = None" "pc s = 0"
  shows "\<exists>ws s'. assemble ls xl = Inr ws \<and> run s ws (int (length ws) + 1) = Some (Inr (s', int (length ws))) \<and>
    regs s' = effects xl es (regs s) \<and> mem s' = mem s"
proof -
  obtain ws where ws: "assemble ls xl = Inr ws" "\<forall>max_steps > int (length ls). \<exists>s'. run s ws max_steps = Some (Inr (s', int (length ls))) \<and>
      regs s' = effects xl es (regs s) \<and> mem s' = mem s"
    using lines_run [OF assms] by blast
  have "length ws = length ls" using assemble_outcome [of ls xl] ws(1) statements_lines [OF assms(1)] by simp
  with ws(2) [rule_format, of "int (length ls) + 1"] show ?thesis by (intro exI [of _ ws]) (auto simp: ws(1))
qed

text \<open>C26. The 32-bit constant builder, assembled and run: on RV32 the register holds the 32-bit constant, with \<open>lui\<close>/\<open>addi\<close> and with the
  \<open>addi\<close>/\<open>slli\<close> chunks alike. On RV64 the chunks give the zero-extended constant; \<open>lui\<close>/\<open>addi\<close> give the sign-extended one,
  except from \<open>0x7FFFF800\<close> to \<open>0x7FFFFFFF\<close>, where the incremented \<open>lui\<close> operand makes the result negative.
  No other register and no memory changes.\<close>

theorem const_to_reg_loads:
  assumes "1 \<le> rd" "rd \<le> 31" "0 \<le> b" "b < 2 ^ 32"
    and "wf_iss s" "xlen s = xl" "priv_mode s = PRIV_M" "pending_interrupt s = None" "pc s = 0"
  shows "\<exists>ws s'. assemble (const_to_reg_instrs rd b no_lui) xl = Inr ws \<and>
    run s ws (int (length ws) + 1) = Some (Inr (s', int (length ws))) \<and> mem s' = mem s \<and>
    regs s' = (regs s)[nat rd := (if xl = 32 \<or> no_lui then b
      else if 0x7FFFF800 \<le> b \<and> b < 2 ^ 31 then b + 2 ^ 64 - 2 ^ 32 else take_bit 64 (gen_sext32 b))]"
proof -
  have r: "0 < rd" "fits 5 rd" "xl = 32 \<or> xl = 64" using assms(1,2) wf_issD(1) [OF assms(5)] assms(6) by (auto simp: fits_def)
  obtain es where es: "list_all2 (line_does xl) (const_to_reg_instrs rd b no_lui) es"
      "\<forall>R. nat rd < length R \<longrightarrow> R ! 0 = 0 \<longrightarrow> effects xl es R = R[nat rd := const_value xl b no_lui]"
    using const_effects [OF r] by blast
  have len: "length (const_to_reg_instrs rd b no_lui) < 2 ^ 30" using const_length [of rd b] by (cases no_lui) auto
  have "effects xl es (regs s) = (regs s)[nat rd := const_value xl b no_lui]"
    using es(2) list_update_reg [OF assms(5) r(1,2)] by blast
  moreover have "const_value xl b no_lui = (if xl = 32 \<or> no_lui then b
      else if 0x7FFFF800 \<le> b \<and> b < 2 ^ 31 then b + 2 ^ 64 - 2 ^ 32 else take_bit 64 (gen_sext32 b))"
  proof (cases "xl = 32 \<or> no_lui")
    case True
    have "take_bit 32 b = b" using assms(3,4) by (simp add: take_bit_int_eq_self)
    then show ?thesis using True const_low [of 32 b no_lui] by (auto simp: const_value_def)
  qed (use const_value_64 [OF assms(3,4)] r(3) in auto)
  ultimately show ?thesis using lines_run_exact [OF es(1) len assms(5-9)] by auto
qed

theorem const_to_reg_loads_witness:
  "\<exists>ws s'. assemble (const_to_reg_instrs 5 0x7FFFFFFF False) 64 = Inr ws \<and>
     run (iss_init 4096 64) ws (int (length ws) + 1) = Some (Inr (s', int (length ws))) \<and> regs s' ! 5 = 0xFFFFFFFF7FFFFFFF"
proof -
  have "wf_iss (iss_init 4096 64)" using wf_iss_init [of 12 64] by simp
  from const_to_reg_loads [OF _ _ _ _ this, of 5 "0x7FFFFFFF" 64 False] show ?thesis
    by (auto simp: iss_init_def)
qed

text \<open>The 64-bit constant builder, assembled and run on RV64, leaves exactly the 64-bit constant in its register, for every constant,
  with \<open>lui\<close> and without: the shifts discard what the 32-bit halves leave in the upper bits.\<close>

theorem const64_to_reg_loads:
  assumes "1 \<le> rd" "rd \<le> 31" "1 \<le> sc" "sc \<le> 31" "rd \<noteq> sc"
    and "wf_iss s" "xlen s = 64" "priv_mode s = PRIV_M" "pending_interrupt s = None" "pc s = 0"
  shows "\<exists>ws s'. assemble (const64_to_reg_instrs rd sc b no_lui) 64 = Inr ws \<and>
    run s ws (int (length ws) + 1) = Some (Inr (s', int (length ws))) \<and> mem s' = mem s \<and> regs s' ! nat rd = take_bit 64 b"
proof -
  have r: "0 < rd" "fits 5 rd" "0 < sc" "fits 5 sc" using assms(1-4) by (auto simp: fits_def)
  obtain es where es: "list_all2 (line_does 64) (const64_to_reg_instrs rd sc b no_lui) es"
      "\<forall>R. nat rd < length R \<longrightarrow> nat sc < length R \<longrightarrow> R ! 0 = 0 \<longrightarrow> effects 64 es R ! nat rd = take_bit 64 b"
    using const64_effects [OF r assms(5)] by blast
  have "length (const_to_reg_instrs x y no_lui) \<le> 5" for x y using const_length [of x y] by (cases no_lui) auto
  from this [of rd "drop_bit 32 b AND 0xFFFFFFFF"] this [of sc "b AND 0xFFFFFFFF"]
  have "length (const64_to_reg_instrs rd sc b no_lui) < 2 ^ 30" unfolding const64_to_reg_instrs_def Let_def by simp
  then show ?thesis
    using lines_run_exact [OF es(1) _ assms(6-10)] es(2) list_update_reg [OF assms(6) r(1,2)] list_update_reg [OF assms(6) r(3,4)] by auto
qed

theorem const64_to_reg_loads_witness:
  "\<exists>ws s'. assemble (const64_to_reg_instrs 29 30 0xDEADBEEF12345678 False) 64 = Inr ws \<and>
     run (iss_init 4096 64) ws (int (length ws) + 1) = Some (Inr (s', int (length ws))) \<and> regs s' ! 29 = 0xDEADBEEF12345678"
proof -
  have "wf_iss (iss_init 4096 64)" using wf_iss_init [of 12 64] by simp
  from const64_to_reg_loads [OF _ _ _ _ _ this, of 29 30 "0xDEADBEEF12345678" False] show ?thesis
    by (auto simp: iss_init_def)
qed

section \<open>Self-checks\<close>

lemma self_check64: "self_check_const64 b = Inr ()"
proof -
  have m: "push_bit 64 1 - 1 = (2 ^ 64 - 1 :: int)" by (simp add: push_bit_eq_mult)
  have h: "take_bit 64 (push_bit 32 (take_bit 64 (signed_take_bit 31 (x AND 0xFFFFFFFF)))) = push_bit 32 (take_bit 32 x)" for x :: int
    by (simp add: take_bit_push_bit take_bit_signed_take_bit mask_simps)
  have "take_bit 64 (push_bit 32 (take_bit 32 (drop_bit 32 b)) OR take_bit 32 b) = take_bit 64 b"
    by (rule bit_eqI) (auto simp: bit_simps)
  then show ?thesis unfolding self_check_const64_def Let_def gen_sext32_signed m and_mask_power h by (simp add: drop_push_bit)
qed

lemma after_comma_last: "CHR '','' \<notin> set t \<Longrightarrow> after_comma (x @ CHR '','' # t) = t"
proof -
  assume "CHR '','' \<notin> set t"
  then have "list_all (\<lambda>c. c \<noteq> CHR '','') (rev t)" by (auto simp: list_all_iff)
  then have "takeWhile (\<lambda>c. c \<noteq> CHR '','') (rev t @ CHR '','' # rev x) = rev t"
    using takeWhile_append_stop [of "\<lambda>c. c \<noteq> CHR '',''" "rev t" "CHR '',''" "rev x"] by blast
  then show ?thesis by (simp add: after_comma_def)
qed

lemma py_str_chars: "c \<in> set (py_str n) \<Longrightarrow> \<not> py_isspace c \<and> c \<noteq> CHR '',''"
  using token_num(1) [of n] by (auto simp: token_def list_all_iff is_sep_def)

lemma after_comma_line: "after_comma (asm_line mn [a, b, py_str c]) = CHR '' '' # py_str c"
proof -
  have e: "asm_line mn [a, b, py_str c] = (mn @ '' '' @ a @ '', '' @ b) @ CHR '','' # (CHR '' '' # py_str c)" by (simp add: asm_line_def)
  have n: "CHR '','' \<notin> set (CHR '' '' # py_str c)" using py_str_chars [of _ c] by auto
  show ?thesis unfolding e by (rule after_comma_last [OF n])
qed

lemma py_int10_str: "py_int10 (CHR '' '' # py_str n) = Inr n"
proof -
  have s: "py_strip (CHR '' '' # py_str n) = py_str n"
    using strip_id [of "py_str n"] py_str_chars [of _ n] by (simp add: py_strip_def py_isspace_def)
  show ?thesis
  proof (cases "n < 0")
    case True
    then show ?thesis
      using s int_digits_digits [of 10 "nat (- n)"] by (simp add: py_int10_def int_signed_def py_str_def)
  next
    case False
    obtain c cs where e: "digits 10 (nat n) = c # cs" by (cases "digits 10 (nat n)") auto
    then show ?thesis
      using False s int_digits_digits [of 10 "nat n"] digits_first [of 10 "nat n" c cs] by (simp add: py_int10_def int_signed_def py_str_def)
  qed
qed

lemma strip_line:
  "take 4 (py_strip (asm_line ''addi'' [xr 0, xr 0, py_str c])) \<noteq> ''slli''"
  "take 4 (py_strip (asm_line ''slli'' [xr 0, xr 0, py_str c])) = ''slli''"
proof -
  have s: "py_strip (asm_line mn [xr 0, xr 0, py_str c]) = asm_line mn [xr 0, xr 0, py_str c]" if "token mn" for mn
    using asm_line_ends [OF that, of "[xr 0, xr 0, py_str c]"] by (auto simp: is_sep_def intro!: strip_ends)
  have "token ''addi''" "token ''slli''" by code_simp+
  note n = s [OF this(1)] s [OF this(2)]
  show "take 4 (py_strip (asm_line ''addi'' [xr 0, xr 0, py_str c])) \<noteq> ''slli''"
    "take 4 (py_strip (asm_line ''slli'' [xr 0, xr 0, py_str c])) = ''slli''"
    unfolding n by (simp_all add: asm_line_def)
qed

lemma replay_step:
  "replay_no_lui v (asm_line ''slli'' [xr 0, xr 0, py_str c] # ls) = replay_no_lui (take_bit 32 (push_bit 11 v)) ls"
  "replay_no_lui v (asm_line ''addi'' [xr 0, xr 0, py_str c] # ls) = replay_no_lui (take_bit 32 (v + c)) ls"
proof -
  have m: "x AND (push_bit 32 1 - 1) = take_bit 32 x" for x :: int by (simp add: push_bit_eq_mult mask_simps)
  show "replay_no_lui v (asm_line ''slli'' [xr 0, xr 0, py_str c] # ls) = replay_no_lui (take_bit 32 (push_bit 11 v)) ls"
    "replay_no_lui v (asm_line ''addi'' [xr 0, xr 0, py_str c] # ls) = replay_no_lui (take_bit 32 (v + c)) ls"
    using strip_line [of c] by (simp_all only: replay_no_lui.simps after_comma_line py_int10_str m if_True if_False rbind_simps simp_thms)
qed

declare replay_no_lui.simps(2) [simp del]

lemma replay_add:
  "fits 32 v \<Longrightarrow> replay_no_lui v ((if c \<noteq> 0 then [asm_line ''addi'' [xr 0, xr 0, py_str c]] else []) @ ls) = replay_no_lui (take_bit 32 (v + c)) ls"
  by (simp add: replay_step)

lemma self_check32: "self_check_const32_no_lui b = Inr ()"
proof -
  let ?c0 = "take_bit 10 (drop_bit 22 b)" and ?c1 = "take_bit 11 (drop_bit 11 b)" and ?c2 = "take_bit 11 b"
  have m: "x AND (push_bit 32 1 - 1) = take_bit 32 x" for x :: int by (simp add: push_bit_eq_mult mask_simps)
  let ?a = "\<lambda>c. if c \<noteq> 0 then [asm_line ''addi'' [xr 0, xr 0, py_str c]] else []"
  have l: "const_to_reg_instrs 0 b True = asm_line ''addi'' [xr 0, ''x0'', py_str ?c0] #
      asm_line ''slli'' [xr 0, xr 0, py_str 11] # ?a ?c1 @ asm_line ''slli'' [xr 0, xr 0, py_str 11] # ?a ?c2 @ []"
    by (simp add: const_to_reg_instrs_def const_chunks_eq)
  have "signed_take_bit 31 x = x" if "0 \<le> x" "x < 2 ^ 10" for x :: int using that by (intro signed_take_bit_int_eq_self) simp_all
  from this [OF take_bit_nonnegative take_bit_int_less_exp] have "gen_sext32 ?c0 = ?c0" by (simp only: gen_sext32_signed)
  moreover have "replay_no_lui ?c0 (tl (const_to_reg_instrs 0 b True)) = Inr (take_bit 32 (take_bit 32 b))"
    unfolding l chunks_value [symmetric, of b] by (simp only: list.sel replay_step(1) replay_add fits_take_bit absorb replay_no_lui.simps(1))
  ultimately show ?thesis unfolding self_check_const32_no_lui_def Let_def by (simp only: l list.sel after_comma_line py_int10_str m rbind_simps) simp
qed

text \<open>The assertions the module evaluates on import for eight sample values each hold for every value: the replayed arithmetic of both
  builders yields the constant, so importing the generator never raises.\<close>

theorem self_checks_pass: "self_check_const64 b64 = Inr () \<and> self_check_const32_no_lui b32 = Inr ()"
  using self_check64 self_check32 by blast

end
