(* ===== verification/Random_Gen_Modes.thy ===== *)
theory Random_Gen_Modes
  imports Random_Gen_Props Random_Gen_Const Debugger_Props
begin

text \<open>
  The generator's modes and limits: which arguments it refuses and how, whether its size estimate is right, and where the interrupt
  vector of an interrupt program points.
\<close>

section \<open>Outcomes\<close>

lemma source_cost_cases:
  "source_cost s = (if s \<in> {''timer'', ''uart'', ''msi'', ''both''} then Inr (if s = ''timer'' then 4 else if s = ''both'' then 7 else 3) else Inl KeyError)"
  by (simp add: source_cost_def)

lemma interrupt_prefix_known: "s \<in> {''timer'', ''uart'', ''msi'', ''both''} \<Longrightarrow> \<exists>r. interrupt_prefix s k = Inr r"
  by (auto simp: interrupt_prefix_def Let_def)

lemma with_interrupt_known: "s \<in> {''timer'', ''uart'', ''msi'', ''both''} \<Longrightarrow> \<exists>r. with_interrupt s k out = Inr r"
  using interrupt_prefix_known [of s k] by (auto simp: with_interrupt_def Let_def)

text \<open>C28. The generator fails exactly on bad arguments, whatever the seed: with \<open>ValueError\<close> for modes that exclude each other (interrupts with
  the MMU, out-of-order with either), else with \<open>KeyError\<close> for an interrupt source it does not know (the lookup of its cost comes before the
  test that would report it), else with \<open>ValueError\<close> for a program that exceeds the memory by its own estimate or an interrupt program without
  instructions. In every other case it returns a program, with an interrupt to schedule exactly in interrupt mode.\<close>

theorem gen_program_outcome:
  "if interrupt \<noteq> None \<and> mmu \<or> ooo \<and> (interrupt \<noteq> None \<or> mmu)
   then gen_program seed n base_addr msize interrupt mmu xl ooo = Inl ValueError
   else if \<exists>s. interrupt = Some s \<and> s \<notin> {''timer'', ''uart'', ''msi'', ''both''}
   then gen_program seed n base_addr msize interrupt mmu xl ooo = Inl KeyError
   else \<exists>budget. gen_budget n interrupt mmu xl ooo = Inr budget \<and>
     (if msize div 4 < budget \<or> interrupt \<noteq> None \<and> n < 1
      then gen_program seed n base_addr msize interrupt mmu xl ooo = Inl ValueError
      else \<exists>text irq. gen_program seed n base_addr msize interrupt mmu xl ooo = Inr (text, irq) \<and> (irq = None \<longleftrightarrow> interrupt = None))"
proof (cases interrupt)
  case None
  obtain budget where "gen_budget n None mmu xl ooo = Inr budget" by (simp add: gen_budget_def)
  then show ?thesis using None by (auto simp: gen_program_def Let_def split: prod.splits)
next
  case (Some s)
  show ?thesis
  proof (cases "s \<in> {''timer'', ''uart'', ''msi'', ''both''}")
    case True
    then obtain budget where "gen_budget n (Some s) mmu xl ooo = Inr budget" by (auto simp: gen_budget_def source_cost_def)
    moreover obtain w where "\<And>k out. with_interrupt s k out = Inr (w k out)" using with_interrupt_known [OF True] by metis
    ultimately show ?thesis
      unfolding Some gen_program_def Let_def using True by (cases "mmu \<or> ooo") (auto split: prod.split simp del: insert_iff)
  next
    case False
    then have "gen_budget n (Some s) mmu xl ooo = Inl KeyError" by (simp add: gen_budget_def source_cost_def)
    then show ?thesis using Some False by (auto simp: gen_program_def Let_def)
  qed
qed

theorem gen_program_outcome_witness:
  "gen_program [] 4 32 128 (Some ''spi'') False 32 False = Inl KeyError \<and> gen_program [] 4 32 128 None True 32 True = Inl ValueError"
  using gen_program_outcome [where interrupt = "Some ''spi''" and mmu = False and ooo = False and n = 4 and msize = 128
      and xl = 32 and base_addr = 32 and seed = "[]"]
    gen_program_outcome [where interrupt = None and mmu = True and ooo = True and n = 4 and msize = 128
      and xl = 32 and base_addr = 32 and seed = "[]"]
  by simp

section \<open>The size estimate\<close>

lemma budget_words:
  "gen_budget n None False xl False = Inr (int (13 + (if xl \<ge> 64 then 8 else 0)) + n + 1)"
  "gen_budget n None False xl True = Inr (int (37 + (if xl \<ge> 64 then 20 else 0)) + n + 1)"
  by (simp_all add: gen_budget_def FLOAT_SEED_BITS_def OOO_TRAILER_NOP_COUNT_def)

lemma plain_program_words:
  assumes "gen_program seed n base_addr msize None False xl ooo = Inr (text, irq)"
    and "0 \<le> n" "n \<le> 1023" "0 \<le> base_addr" "base_addr \<le> 2047" "base_addr + 8 \<le> msize"
    and "gen_budget n None False xl ooo = Inr budget"
  shows "\<exists>ws. assemble (text_lines text) xl = Inr ws \<and> budget \<le> msize div 4 \<and>
    (if ooo then int (length ws) \<le> budget else int (length ws) = budget + 1)"
proof -
  have b: "8 \<le> msize - base_addr" "signed_in 12 base_addr" using assms(4-6) by (auto simp: signed_in_def)
  obtain its where i: "text_lines text = program (base_line base_addr # seed_lines xl ooo) its ooo" "length its = nat n"
      "program_ok xl (msize - base_addr) (base_line base_addr # seed_lines xl ooo) its" "budget \<le> msize div 4"
    using gen_program_plain [OF assms(1) b] assms(7) by (metis sum.inject(2))
  have n: "length its \<le> 1023" using assms(3) i(2) by simp
  obtain ws where "assemble (text_lines text) xl = Inr ws" "length ws = halt_index (base_line base_addr # seed_lines xl ooo) its ooo + 1"
    using program_assembles [OF i(3) good_seeds n b(2), of ooo] unfolding i(1) by blast
  then show ?thesis
    using assms(2,7) i(2,4) seed_length [of xl] budget_words [of n xl] by (cases ooo; cases "64 \<le> xl") (auto simp: halt_index_def)
qed

lemma write_mem_fits:
  "write_mem ws sz = Inr file \<Longrightarrow> 4 * length ws \<le> sz" "write_mem ws sz = Inl e \<Longrightarrow> sz < 4 * length ws \<and> e = ValueError"
  using fill_mem_result [of "replicate sz 0" sz 0 ws] by (auto simp: write_mem_def split: if_splits)

text \<open>The size estimate of the plain mode is one word short: the trailer is \<open>fence\<close> and the self-loop, and the estimate counts one. A
  program whose estimate just fits passes the check, assembles, and is refused by \<open>write_mem\<close> with a \<open>ValueError\<close>; with
  a word to spare, and in out-of-order mode always, the image is written.\<close>

theorem size_estimate:
  assumes "gen_program seed n base_addr msize None False xl ooo = Inr (text, irq)"
    and "0 \<le> n" "n \<le> 1023" "0 \<le> base_addr" "base_addr \<le> 2047" "base_addr + 8 \<le> msize"
    and "gen_budget n None False xl ooo = Inr budget"
  shows "\<exists>ws. assemble (text_lines text) xl = Inr ws \<and>
    (case write_mem ws (nat msize) of
       Inr file \<Rightarrow> ooo \<or> budget < msize div 4
     | Inl e \<Rightarrow> e = ValueError \<and> \<not> ooo \<and> budget = msize div 4)"
proof -
  obtain ws where ws: "assemble (text_lines text) xl = Inr ws" "budget \<le> msize div 4"
      "if ooo then int (length ws) \<le> budget else int (length ws) = budget + 1"
    using plain_program_words [OF assms] by blast
  have "4 * length ws \<le> nat msize \<longleftrightarrow> int (length ws) \<le> msize div 4" using assms(4,6) by linarith
  then have "4 * length ws \<le> nat msize \<longleftrightarrow> ooo \<or> budget < msize div 4" using ws(2,3) by (cases ooo) auto
  then show ?thesis using ws write_mem_fits [of ws "nat msize"] by (cases "write_mem ws (nat msize)") (auto split: if_splits)
qed

theorem size_estimate_witness:
  "\<exists>tx ws. gen_program [3, 1, 4] 18 32 128 None False 32 False = Inr (tx, None) \<and> assemble (text_lines tx) 32 = Inr ws \<and>
     write_mem ws 128 = Inl ValueError"
proof -
  have b: "gen_budget 18 None False 32 False = Inr 32" by (simp add: budget_words)
  then obtain tx where t: "gen_program [3, 1, 4] 18 32 128 None False 32 False = Inr (tx, None)"
    using gen_program_succeeds [of 18 32 False 32 128] by auto
  obtain ws where ws: "assemble (text_lines tx) 32 = Inr ws"
      "case write_mem ws (nat 128) of Inr file \<Rightarrow> False \<or> 32 < (128::int) div 4 | Inl e \<Rightarrow> e = ValueError \<and> \<not> False \<and> 32 = (128::int) div 4"
    using size_estimate [OF t _ _ _ _ _ b] by auto
  then have "write_mem ws 128 = Inl ValueError" by (cases "write_mem ws 128") auto
  then show ?thesis using t ws(1) by blast
qed

section \<open>Placeholders\<close>

lemma replace_none: "old \<noteq> [] \<Longrightarrow> hd old \<notin> set s \<Longrightarrow> py_replace old new s = s"
proof (induction s)
  case (Cons c s)
  then have "take (length old) (c # s) \<noteq> old" by (cases old) auto
  then show ?case using Cons by (subst py_replace.simps) auto
qed (simp add: py_replace.simps)

lemma replace_at_end: "old \<noteq> [] \<Longrightarrow> hd old \<notin> set p \<Longrightarrow> py_replace old new (p @ old) = p @ new"
proof (induction p)
  case Nil
  then show ?case by (cases old) (simp_all add: py_replace.simps)
next
  case (Cons c p)
  then have "take (length old) (c # p @ old) \<noteq> old" by (cases old) auto
  then show ?case using Cons by (simp, subst py_replace.simps) auto
qed

lemma strip_rstrip: "py_strip s = s \<Longrightarrow> py_rstrip s = s"
proof -
  assume a: "py_strip s = s"
  have "length (py_strip s) \<le> length (dropWhile py_isspace s)"
    by (simp add: py_strip_def) (metis length_dropWhile_le length_rev)
  then have "length s \<le> length (dropWhile py_isspace s)" using a by simp
  then have "dropWhile py_isspace s = s"
    by (metis append_eq_append_conv append_self_conv2 length_dropWhile_le nle_le takeWhile_dropWhile_id)
  then show ?thesis using a by (simp add: py_strip_def py_rstrip_def)
qed

definition listed :: "string \<Rightarrow> bool" where
  \<comment> \<open>a statement or a label, as the generator writes them\<close>
  "listed l \<longleftrightarrow> l \<noteq> [] \<and> clean l = l"

lemma count_listed: "\<forall>l \<in> set ls. listed l \<Longrightarrow> instr_count ls = length (statements ls)"
proof -
  assume a: "\<forall>l \<in> set ls. listed l"
  then have "py_rstrip l = l" if "l \<in> set ls" for l using that clean_strip [of l] by (intro strip_rstrip) (simp add: listed_def)
  then have "filter (\<lambda>l. py_rstrip l = [] \<or> last (py_rstrip l) \<noteq> CHR '':'') ls = filter (\<lambda>l. clean l \<noteq> [] \<and> \<not> is_label (clean l)) ls"
    using a by (intro filter_cong) (auto simp: listed_def is_label_def)
  moreover have "statements ls = filter (\<lambda>l. clean l \<noteq> [] \<and> \<not> is_label (clean l)) ls"
    using a by (induction ls) (auto simp: listed_def)
  ultimately show ?thesis by (simp add: instr_count_def)
qed

lemma plain_listed: "plain_line l \<Longrightarrow> listed l"
  by (simp add: plain_line_def listed_def)

lemma program_listed:
  assumes "program_ok xl m pre its"
  shows "\<forall>l \<in> set (program pre its ooo). listed l" "\<forall>l \<in> set (program pre its ooo). label_name l \<noteq> Some ''handler''"
proof -
  have t: "listed (l @ '':'')" if "token l" for l using token_label_line(1) [OF that] by (simp add: listed_def)
  have n: "label_text t \<noteq> ''handler''" "halt_name ooo \<noteq> ''handler''" for t by (simp_all add: label_text_def halt_name_def)
  have "\<forall>l \<in> set (laid c its L). listed l \<and> label_name l \<noteq> Some ''handler''" if "list_all (item_ok xl m) (map fst its)" for c its L
    using that
  proof (induction c its L rule: laid.induct)
    case (2 c i u its L)
    have "plain_line (item_line i u)" using 2(2) item_plain [of xl m i u] by simp
    then show ?case using 2 t [OF label_token] n(1) label_line(3) plain_listed plain_no_label by (auto simp: Let_def)
  qed simp
  moreover have "\<forall>l \<in> set (trailer ooo). listed l \<and> label_name l \<noteq> Some ''handler''"
    using fixed_plain(1) fixed_plain(2) [of ooo] t [OF halt_token(1)] token_label_line(3) [OF halt_token(1), of ooo] n(2) plain_listed plain_no_label
    by (auto simp: trailer_eq split: if_splits)
  moreover have "\<forall>l \<in> set pre. listed l \<and> label_name l \<noteq> Some ''handler''"
    using assms plain_listed plain_no_label by (auto simp: program_ok_def list_all_iff)
  ultimately have "\<forall>l \<in> set (program pre its ooo). listed l \<and> label_name l \<noteq> Some ''handler''"
    using assms t [OF label_token] n(1) label_line(3) by (auto simp: program_def program_ok_def)
  then show "\<forall>l \<in> set (program pre its ooo). listed l" "\<forall>l \<in> set (program pre its ooo). label_name l \<noteq> Some ''handler''" by blast+
qed

definition mtvec_line :: string where
  "mtvec_line = ''addi  x5, x0, __MTVEC_PLACEHOLDER__''"

definition fixed_line :: "string \<Rightarrow> bool" where
  "fixed_line l \<longleftrightarrow> plain_line l \<and> CHR ''_'' \<notin> set l"

lemma digits_no_underscore: "1 < b \<Longrightarrow> b \<le> 16 \<Longrightarrow> CHR ''_'' \<notin> set (digits b n)"
  using digits_set [of b "CHR ''_''" n] digit_char_word by (metis insertI1 less_le_trans)

lemma const_fixed: "xreg rd \<Longrightarrow> l \<in> set (const_to_reg_instrs rd b False) \<Longrightarrow> fixed_line l"
proof -
  assume r: "xreg rd" and l: "l \<in> set (const_to_reg_instrs rd b False)"
  have "plain_line l" using good_const [OF r, of 32 0 b False] l good_plain unfolding list_all_iff by blast
  moreover have "CHR ''_'' \<notin> set (py_str n)" "CHR ''_'' \<notin> set (hex_text n)" for n
    using digits_no_underscore [of 10] digits_no_underscore [of 16] by (auto simp: py_str_def hex_text_def py_hex_def)
  then have "CHR ''_'' \<notin> set l" using l by (auto simp: const_to_reg_instrs_def Let_def asm_line_def xr_def split: if_splits)
  ultimately show ?thesis by (simp add: fixed_line_def)
qed

lemma prefix_shape:
  assumes "interrupt_prefix src k = Inr (prefix, cause)"
  shows "\<exists>a b. prefix = a @ mtvec_line # b \<and> list_all fixed_line (a @ b)"
proof -
  have x: "xreg 7" by code_simp
  have f: "list_all fixed_line [''lui   x2, 0x10104'', ''csrrw x0, mtvec, x5'', ''addi  x6, x0, 128'', ''csrrw x0, mie, x6'', ''sw    x7, 0(x2)'',
     ''csrrsi x0, mstatus, 8'', ''lui   x1, 0x10000'', ''addi  x6, x0, -2048'', ''addi  x8, x0, 1'', ''sw    x8, 4(x1)'', ''lui   x2, 0x10100'',
     ''addi  x6, x0, 8'', ''addi  x7, x0, 1'', ''addi  x6, x0, -1920'']" by code_simp
  have c: "list_all fixed_line (const_to_reg_instrs 7 b False)" for b using const_fixed [OF x] by (simp add: list_all_iff)
  have i: ?thesis if "prefix = a @ mtvec_line # b" "list_all fixed_line a" "list_all fixed_line b" for a b using that by auto
  consider "src = ''timer''" | "src = ''uart''" | "src = ''msi''" | "src = ''both''"
    using assms by (auto simp: interrupt_prefix_def Let_def split: if_splits)
  then show ?thesis
  proof cases
    case 1
    then have "prefix = [''lui   x2, 0x10104''] @ mtvec_line # ([''csrrw x0, mtvec, x5'', ''addi  x6, x0, 128'', ''csrrw x0, mie, x6''] @
        const_to_reg_instrs 7 (100 + k * 10) False @ [''sw    x7, 0(x2)'', ''csrrsi x0, mstatus, 8''])"
      using assms by (simp add: interrupt_prefix_def Let_def mtvec_line_def)
    then show ?thesis by (rule i) (use f c in simp_all)
  next
    case 2
    then have "prefix = [''lui   x1, 0x10000''] @ mtvec_line # [''csrrw x0, mtvec, x5'', ''addi  x6, x0, -2048'', ''csrrw x0, mie, x6'',
        ''addi  x8, x0, 1'', ''sw    x8, 4(x1)'', ''csrrsi x0, mstatus, 8'']"
      using assms by (simp add: interrupt_prefix_def Let_def mtvec_line_def)
    then show ?thesis by (rule i) (use f in simp_all)
  next
    case 3
    then have "prefix = [''lui   x2, 0x10100''] @ mtvec_line # [''csrrw x0, mtvec, x5'', ''addi  x6, x0, 8'', ''csrrw x0, mie, x6'',
        ''addi  x7, x0, 1'', ''sw    x7, 0(x2)'', ''csrrsi x0, mstatus, 8'']"
      using assms by (simp add: interrupt_prefix_def Let_def mtvec_line_def)
    then show ?thesis by (rule i) (use f in simp_all)
  next
    case 4
    then have "prefix = [''lui   x1, 0x10000'', ''lui   x2, 0x10104''] @ mtvec_line # ([''csrrw x0, mtvec, x5'', ''addi  x6, x0, -1920'',
        ''csrrw x0, mie, x6''] @ const_to_reg_instrs 7 (100 + k * 10) False @ [''sw    x7, 0(x2)'', ''addi  x8, x0, 1'', ''sw    x8, 4(x1)'',
        ''csrrsi x0, mstatus, 8''])"
      using assms by (simp add: interrupt_prefix_def Let_def mtvec_line_def)
    then show ?thesis by (rule i) (use f c in simp_all)
  qed
qed

definition vector_line :: "int \<Rightarrow> string" where
  "vector_line h = ''addi  x5, x0, '' @ py_str h"

lemma vector_line_plain: "plain_line (vector_line h)"
proof -
  have c: "\<not> py_isspace c \<and> c \<noteq> CHR ''#'' \<and> c \<noteq> CHR '':'' \<and> c \<noteq> CHR 0x0A" if "c \<in> set (py_str h)" for c
    using that token_num(1) [of h] seps(4) by (auto simp: token_def list_all_iff is_sep_def)
  have n: "py_str h \<noteq> []" by (simp add: py_str_def)
  have l: "last (vector_line h) = last (py_str h)" "last (py_str h) \<in> set (py_str h)" using n by (simp_all add: vector_line_def)
  have "split_first CHR ''#'' (vector_line h) = vector_line h"
    using c by (auto simp: split_first_def takeWhile_eq_all_conv vector_line_def)
  moreover have "py_strip (vector_line h) = vector_line h"
    using l c by (intro strip_ends) (simp_all add: vector_line_def py_isspace_def)
  moreover have "CHR 0x0A \<notin> set (vector_line h)" using c [of "CHR 0x0A"] by (auto simp: vector_line_def)
  ultimately show ?thesis using l c by (simp add: plain_line_def clean_def is_label_def vector_line_def)
qed

lemma patched_mtvec: "py_replace ''__MTVEC_PLACEHOLDER__'' (py_str h) mtvec_line = vector_line h"
proof -
  have e: "mtvec_line = ''addi  x5, x0, '' @ ''__MTVEC_PLACEHOLDER__''" by (simp add: mtvec_line_def)
  show ?thesis unfolding vector_line_def e by (rule replace_at_end) simp_all
qed

lemma patched_prefix:
  assumes "interrupt_prefix src k = Inr (prefix, cause)"
  shows "vector_line h \<in> set (patch_address ''__MTVEC_PLACEHOLDER__'' h prefix)"
    "list_all plain_line (patch_address ''__MTVEC_PLACEHOLDER__'' h prefix)"
    "instr_count prefix = length (patch_address ''__MTVEC_PLACEHOLDER__'' h prefix)"
proof -
  obtain a b where p: "prefix = a @ mtvec_line # b" "list_all fixed_line (a @ b)" using prefix_shape [OF assms] by blast
  have f: "\<forall>l \<in> set (a @ b). plain_line l \<and> CHR ''_'' \<notin> set l" using p(2) by (auto simp: list_all_iff fixed_line_def)
  then have "map (py_replace ''__MTVEC_PLACEHOLDER__'' (py_str h)) (a @ b) = a @ b" by (intro map_idI replace_none) auto
  then have e: "patch_address ''__MTVEC_PLACEHOLDER__'' h prefix = a @ vector_line h # b"
    by (simp add: patch_address_def p(1) patched_mtvec append_eq_append_conv)
  show "vector_line h \<in> set (patch_address ''__MTVEC_PLACEHOLDER__'' h prefix)" unfolding e by simp
  show "list_all plain_line (patch_address ''__MTVEC_PLACEHOLDER__'' h prefix)"
    unfolding e using f vector_line_plain by (auto simp: list_all_iff)
  have m: "plain_line mtvec_line" by code_simp
  then have "list_all plain_line prefix" using f by (auto simp: p(1) list_all_iff)
  then have "instr_count prefix = length prefix"
    using count_listed [of prefix] plain_listed statements_plain [of prefix] by (auto simp: list_all_iff)
  then show "instr_count prefix = length (patch_address ''__MTVEC_PLACEHOLDER__'' h prefix)" by (simp add: patch_address_def)
qed

lemma gen_program_interrupt:
  assumes "gen_program seed n base_addr msize (Some src) False xl False = Inr (text, irq)" "8 \<le> msize - base_addr" "signed_in 12 base_addr"
  obtains k ls cause its where "text = join_lines ls" "irq = Some (k, cause)" "1 \<le> k" "k \<le> n"
    "with_interrupt src k (program (base_line base_addr # seed_lines xl False) its False) = Inr (ls, cause)"
    "program_ok xl (msize - base_addr) (base_line base_addr # seed_lines xl False) its"
proof -
  let ?g = "do { k \<leftarrow> randint 1 n; out \<leftarrow> gen_body (nat n) xl msize base_addr (Some src) False False; State_Monad.return (k, out) }"
  let ?P = "\<lambda>(k, out). 1 \<le> k \<and> k \<le> n \<and> (\<exists>its. out = program (base_line base_addr # seed_lines xl False) its False \<and>
      program_ok xl (msize - base_addr) (base_line base_addr # seed_lines xl False) its)"
  obtain budget where b: "gen_budget n (Some src) False xl False = Inr budget"
    using assms(1) by (cases "gen_budget n (Some src) False xl False") (simp_all add: gen_program_def)
  have n: "1 \<le> n" using assms(1) b by (auto simp: gen_program_def Let_def split: if_splits)
  have "outcome ?P ?g"
    using outcome_body [OF assms(2,3), of xl False "nat n" "Some src" False]
    by (intro outcome_bind [OF outcome_randint [OF n]] outcome_bind [OF outcome_body [OF assms(2,3)]] outcome_return) auto
  then have P: "?P (fst (run_state ?g seed))" unfolding outcome_def by (rule spec)
  obtain k out where ko: "fst (run_state ?g seed) = (k, out)" by fastforce
  obtain r where r: "with_interrupt src k out = Inr r"
    using assms(1) b n ko by (cases "with_interrupt src k out") (auto simp: gen_program_def Let_def split: if_splits)
  then have "text = join_lines (fst r)" "irq = Some (k, snd r)"
    using assms(1) b n ko by (auto simp: gen_program_def Let_def split: if_splits prod.splits)
  moreover obtain its where "out = program (base_line base_addr # seed_lines xl False) its False" "1 \<le> k" "k \<le> n"
      "program_ok xl (msize - base_addr) (base_line base_addr # seed_lines xl False) its"
    using P unfolding ko by auto
  ultimately show thesis using r by (intro that [of "fst r" k "snd r" its]) simp_all
qed

text \<open>C27. In an interrupt program the trap vector points at the handler: the generator computes the handler's address by counting
  lines and writes it into the instruction that loads \<open>mtvec\<close>, and that number is the address the assembler gives the
  label \<open>handler\<close>, whatever labels and seeds the random part contains. The interrupt is scheduled
  after one of the program's random instructions.\<close>

theorem interrupt_vector:
  assumes "gen_program seed n base_addr msize (Some src) False xl False = Inr (text, irq)"
    and "0 \<le> base_addr" "base_addr \<le> 2047" "base_addr + 8 \<le> msize"
  shows "\<exists>h k cause. program_labels (text_lines text) ''handler'' = Some h \<and> vector_line h \<in> set (text_lines text) \<and>
    irq = Some (k, cause) \<and> 1 \<le> k \<and> k \<le> n"
proof -
  have b: "8 \<le> msize - base_addr" "signed_in 12 base_addr" using assms(2-4) by (auto simp: signed_in_def)
  obtain k ls cause its where g: "text = join_lines ls" "irq = Some (k, cause)" "1 \<le> k" "k \<le> n"
      "with_interrupt src k (program (base_line base_addr # seed_lines xl False) its False) = Inr (ls, cause)"
      "program_ok xl (msize - base_addr) (base_line base_addr # seed_lines xl False) its"
    by (rule gen_program_interrupt [OF assms(1) b])
  let ?out = "program (base_line base_addr # seed_lines xl False) its False" and ?fin = "[''csrrw x0, mie, x0'', ''mret'']"
  obtain prefix where p: "interrupt_prefix src k = Inr (prefix, cause)"
    using g(5) by (cases "interrupt_prefix src k") (auto simp: with_interrupt_def Let_def)
  define h where "h = (int (instr_count prefix) + int (instr_count ?out)) * 4"
  define pre where "pre = patch_address ''__MTVEC_PLACEHOLDER__'' h prefix"
  have ls: "ls = (pre @ ?out) @ ''handler:'' # ?fin" using g(5) p by (simp add: with_interrupt_def Let_def h_def pre_def)
  note pp = patched_prefix [OF p, of h, folded pre_def]
  have e: "list_all plain_line ?fin" "label_name ''handler:'' = Some ''handler''" "CHR 0x0A \<notin> set ''handler:''" by code_simp+
  have "\<forall>l \<in> set ls. CHR 0x0A \<notin> set l"
    using pp(2) e program_no_newline [OF g(6), of False] by (auto simp: ls list_all_iff plain_line_def)
  then have t: "text_lines text = ls" unfolding g(1) by (rule text_join)
  have "program_labels ls ''handler'' = Some (4 * int (length (statements (pre @ ?out))))"
    unfolding ls using e(1,2) plain_no_label by (intro pass1_label) (auto simp: list_all_iff)
  also have "4 * int (length (statements (pre @ ?out))) = h"
    using pp(2,3) count_listed [OF program_listed(1) [OF g(6)], of False] by (simp add: h_def statements_plain)
  finally show ?thesis using pp(1) g(2-4) unfolding t by (auto simp: ls)
qed

lemma gen_program_irq:
  assumes "s \<in> {''timer'', ''uart'', ''msi'', ''both''}" "gen_budget n (Some s) False xl False = Inr budget" "budget \<le> msize div 4" "1 \<le> n"
  shows "\<exists>r. gen_program seed n base_addr msize (Some s) False xl False = Inr r"
proof -
  obtain w where "\<And>k out. with_interrupt s k out = Inr (w k out)" using with_interrupt_known [OF assms(1)] by metis
  then show ?thesis using assms(2-4) by (auto simp: gen_program_def Let_def split: prod.split)
qed

theorem interrupt_vector_witness:
  "\<exists>tx k cause h. gen_program [] 4 32 256 (Some ''uart'') False 32 False = Inr (tx, Some (k, cause)) \<and>
     program_labels (text_lines tx) ''handler'' = Some h \<and> vector_line h \<in> set (text_lines tx) \<and> 1 \<le> k \<and> k \<le> 4"
proof -
  have "gen_budget 4 (Some ''uart'') False 32 False = Inr 28" by (simp add: gen_budget_def source_cost_def FLOAT_SEED_BITS_def)
  then obtain tx irq where t: "gen_program [] 4 32 256 (Some ''uart'') False 32 False = Inr (tx, irq)"
    using gen_program_irq [of "''uart''" 4 32 28 256 "[]" 32] by auto
  from interrupt_vector [OF this] t show ?thesis by auto
qed

end
