(* ===== verification/Random_Tests_Props.thy ===== *)
theory Random_Tests_Props
  imports Random_Tests Random_Gen_Modes
begin

text \<open>
  The cross-check decides what it should: for programs of the plain and the out-of-order mode, whatever the seed, nothing on the reference
  side fails, and the driver reports a pass exactly when the dump of the RTL run equals the reference state.
\<close>

section \<open>The instruction count\<close>

lemma match_count_other: "c \<noteq> CHR '':'' \<Longrightarrow> match_count (c # cs) = None"
  by (simp add: match_count_def Let_def)

text \<open>A path the pattern cannot match in: every colon is followed by a character that is neither a digit nor white space, as in \<open>C:\dir\<close>.\<close>

fun plain_colons :: "string \<Rightarrow> bool" where
  "plain_colons [] = True"
| "plain_colons [c] = (c \<noteq> CHR '':'')"
| "plain_colons (c # d # cs) = ((c = CHR '':'' \<longrightarrow> \<not> py_isspace d \<and> \<not> py_isdigit d) \<and> plain_colons (d # cs))"

lemma search_count_skip: "plain_colons s \<Longrightarrow> search_count (s @ t) = search_count t"
proof (induction s rule: plain_colons.induct)
  case (3 c d cs)
  have "match_count (c # d # cs @ t) = None"
    using 3 by (cases "c = CHR '':''") (auto simp: match_count_other match_count_def Let_def)
  then show ?case using 3 by simp
qed (auto simp: match_count_other)

lemma count_found:
  assumes "plain_colons source"
  shows "search_count (source @ '': '' @ py_str (int n) @ '' instructions -> '' @ rest) = Some (int n)"
proof -
  have d: "\<forall>c \<in> set (digits 10 n). py_isdigit c" using digits_dec by blast
  have i: "\<not> py_isdigit (CHR '' '')" "py_isspace (CHR '' '')" "\<not> py_isspace (CHR ''i'')" by code_simp+
  have sp: "\<not> py_isspace c" if "py_isdigit c" for c using that by (auto simp: py_isdigit_def py_isspace_def Let_def)
  let ?r = "CHR '' '' # ''instructions -> '' @ rest"
  obtain d0 ds where e: "digits 10 n = d0 # ds" using digits_nonempty [of 10 n] by (cases "digits 10 n") auto
  have s0: "dropWhile py_isspace (CHR '' '' # digits 10 n @ ?r) = digits 10 n @ ?r" using e d sp i(2) by auto
  have t: "takeWhile py_isdigit (digits 10 n @ ?r) = digits 10 n" "dropWhile py_isdigit (digits 10 n @ ?r) = ?r"
    using d i(1) by (simp_all add: takeWhile_append2 dropWhile_append2)
  have "match_count (CHR '':'' # CHR '' '' # digits 10 n @ ?r) = Some (int n)"
    unfolding match_count_def Let_def list.case s0 t using i by (simp add: int_dec_digits)
  then show ?thesis using search_count_skip [OF assms] by (simp add: py_str_nonneg)
qed

section \<open>Comparing\<close>

lemma diff_line_empty [simp]: "diff_line name fmt a b = [] \<longleftrightarrow> a = b"
  by (simp add: diff_line_def)

lemma judge_Pass [simp]: "judge ds = Pass \<longleftrightarrow> ds = []"
  by (simp add: judge_def)

lemma diffs_Inr:
  "diffs name fmt n rtl ref = Inr ds \<longleftrightarrow> (n = 0 \<or> n \<le> length rtl \<and> n \<le> length ref) \<and>
     ds = concat (map (\<lambda>i. diff_line (name i) fmt (rtl ! i) (ref ! i)) [0..<n])"
proof -
  have "rtraverse (\<lambda>i. rbind (list_at rtl i) (\<lambda>a. rbind (list_at ref i) (\<lambda>b. Inr (diff_line (name i) fmt a b)))) [0..<n] = Inr dss
      \<longleftrightarrow> (\<forall>i<n. i < length rtl \<and> i < length ref) \<and> dss = map (\<lambda>i. diff_line (name i) fmt (rtl ! i) (ref ! i)) [0..<n]" for dss
    by (auto simp: rtraverse_Inr list_all2_conv_all_nth intro!: nth_equalityI)
  moreover have "(\<forall>i<n. i < length rtl \<and> i < length ref) \<longleftrightarrow> n = 0 \<or> n \<le> length rtl \<and> n \<le> length ref"
    by (cases n) (auto simp: less_Suc_eq_le Suc_le_eq intro: le_less_trans)
  ultimately show ?thesis unfolding diffs_def by auto
qed

lemma diffs_empty:
  assumes "length ref = n"
  shows "diffs name fmt n (take n rtl) ref = Inr [] \<longleftrightarrow> take n rtl = ref"
proof
  assume "diffs name fmt n (take n rtl) ref = Inr []"
  then have "n = 0 \<or> n \<le> length rtl" "\<forall>i<n. take n rtl ! i = ref ! i" by (auto simp: diffs_Inr)
  then show "take n rtl = ref" using assms by (intro nth_equalityI) auto
next
  assume "take n rtl = ref"
  then show "diffs name fmt n (take n rtl) ref = Inr []" using assms by (simp add: diffs_Inr)
qed

lemma three_parts:
  assumes "length xs = a" "length ys = b" "length zs = c"
  shows "take a vals = xs \<and> take b (drop a vals) = ys \<and> take c (drop (a + b) vals) = zs \<longleftrightarrow> take (a + b + c) vals = xs @ ys @ zs"
proof -
  have "take (a + b + c) vals = take a vals @ take b (drop a vals) @ take c (drop (a + b) vals)"
    by (simp add: take_add add.assoc) (simp add: add.commute)
  then show ?thesis
  proof (intro iffI)
    assume t: "take (a + b + c) vals = xs @ ys @ zs"
    show "take a vals = xs \<and> take b (drop a vals) = ys \<and> take c (drop (a + b) vals) = zs"
      using arg_cong [OF t, of "take a"] arg_cong [OF t, of "\<lambda>l. take b (drop a l)"] arg_cong [OF t, of "\<lambda>l. take c (drop (a + b) l)"] assms
      by (simp add: take_drop min_def)
  qed simp
qed

lemma take_two: "take 2 (drop i xs) = [a, b] \<longleftrightarrow> i + 1 < length xs \<and> xs ! i = a \<and> xs ! (i + 1) = b"
proof (cases "i + 1 < length xs")
  case True
  then have "drop i xs = xs ! i # xs ! (i + 1) # drop (i + 2) xs" by (simp add: Cons_nth_drop_Suc)
  then show ?thesis using True by simp
next
  case False
  then show ?thesis by (auto dest: arg_cong [of _ _ length])
qed

lemma compare_ooo_Pass:
  assumes "wf_iss s" "length (mem s) = m"
  shows "compare_ooo xl m s file = Inr Pass \<longleftrightarrow>
    (\<exists>vals. read_ints (\<lambda>v. v AND (2 ^ xl - 1)) file = Inr vals \<and> take (64 + m) vals = regs s @ mem s @ fregs s)"
proof -
  have l: "length (regs s) = 32" "length (fregs s) = 32" using assms(1) by (simp_all add: wf_iss_def)
  have m: "32 + m + 32 = 64 + m" by simp
  have "compare_ooo xl m s file = Inr Pass \<longleftrightarrow> (\<exists>vals. read_ints (\<lambda>v. v AND (2 ^ xl - 1)) file = Inr vals \<and>
      take 32 vals = regs s \<and> take m (drop 32 vals) = mem s \<and> take 32 (drop (32 + m) vals) = fregs s)"
    unfolding compare_ooo_def Let_def rbind_eq_Inr
    by (auto simp: diffs_empty [OF l(1)] diffs_empty [OF l(2)] diffs_empty [OF assms(2)])
  then show ?thesis using three_parts [OF l(1) assms(2) l(2)] unfolding m by simp
qed

lemma compare_state_Pass:
  assumes "wf_iss s" "m \<le> length (mem s)"
  shows "compare_state xl m s file = Inr Pass \<longleftrightarrow>
    (\<exists>vals. read_ints (\<lambda>v. v AND (2 ^ xl - 1)) file = Inr vals \<and>
      take (66 + m) vals = regs s @ take m (mem s) @ fregs s @ [fflags s, frm s])"
proof -
  have l: "length (regs s) = 32" "length (fregs s) = 32" using assms(1) by (simp_all add: wf_iss_def)
  have d: "diffs name fmt m (take m rtl) (mem s) = Inr [] \<longleftrightarrow> take m rtl = take m (mem s)" for name fmt rtl
    using diffs_empty [of "take m (mem s)" m name fmt rtl] assms(2) by (simp add: diffs_Inr)
  have "compare_state xl m s file = Inr Pass \<longleftrightarrow> (\<exists>vals. read_ints (\<lambda>v. v AND (2 ^ xl - 1)) file = Inr vals \<and>
      (take 32 vals = regs s \<and> take m (drop 32 vals) = take m (mem s) \<and> take 32 (drop (32 + m) vals) = fregs s) \<and>
      32 + m + 33 < length vals \<and> vals ! (32 + m + 32) = fflags s \<and> vals ! (32 + m + 33) = frm s)"
    unfolding compare_state_def Let_def rbind_eq_Inr
    by (auto simp: diffs_empty [OF l(1)] diffs_empty [OF l(2)] d)
  also have "\<dots> \<longleftrightarrow> (\<exists>vals. read_ints (\<lambda>v. v AND (2 ^ xl - 1)) file = Inr vals \<and> take (32 + m + 32) vals = regs s @ take m (mem s) @ fregs s \<and>
      take 2 (drop (32 + m + 32) vals) = [fflags s, frm s])"
    using three_parts [OF l(1) _ l(2), of "take m (mem s)" m] assms(2) by (simp add: take_two)
  also have "\<dots> \<longleftrightarrow> (\<exists>vals. read_ints (\<lambda>v. v AND (2 ^ xl - 1)) file = Inr vals \<and>
      take (66 + m) vals = regs s @ take m (mem s) @ fregs s @ [fflags s, frm s])"
    using three_parts [of "regs s @ take m (mem s) @ fregs s" "32 + m + 32" "[fflags s, frm s]" 2 "[]" 0] l assms(2) by (simp add: add.commute)
  finally show ?thesis .
qed

lemma judge_reply_Pass:
  assumes "wf_iss s" "length (mem s) = nat m"
  shows "judge_reply_ooo xl m s r = Inr Pass \<longleftrightarrow> compile_rc r = 0 \<and> sim_rc r = 0 \<and> \<not> py_in ''TIMEOUT'' (sim_stdout r) \<and>
      (\<exists>file vals. sim_out r = Some file \<and> read_ints (\<lambda>v. v AND (2 ^ xl - 1)) file = Inr vals \<and>
        take (64 + nat m) vals = regs s @ mem s @ fregs s)"
    "nat w \<le> length (mem s) \<Longrightarrow> judge_reply xl w s r = Inr Pass \<longleftrightarrow> compile_rc r = 0 \<and> sim_rc r = 0 \<and>
      (\<exists>file vals. sim_out r = Some file \<and> read_ints (\<lambda>v. v AND (2 ^ xl - 1)) file = Inr vals \<and>
        take (66 + nat w) vals = regs s @ take (nat w) (mem s) @ fregs s @ [fflags s, frm s])"
  unfolding judge_reply_ooo_def judge_reply_def using compare_ooo_Pass [OF assms] compare_state_Pass [OF assms(1), of "nat w"]
  by (cases "sim_out r"; simp)+

section \<open>The verdicts\<close>

lemma words_fit:
  assumes "int l \<le> 2 ^ k div 4"
  shows "4 * l \<le> 2 ^ k"
proof -
  have "4 * int l \<le> 2 ^ k" using assms by linarith
  then have "int (4 * l) \<le> int (2 ^ k)" by simp
  then show ?thesis by (simp only: of_nat_le_iff)
qed

text \<open>Up to the call of the simulator: the reference side succeeds.\<close>

lemma generated_reference_run:
  assumes gen: "gen_program seed n 32 (2 ^ k) None False xl ooo = Inr (txt, irq)"
    and par: "0 \<le> n" "n \<le> 1023" "k \<le> 31" "xl = 32 \<or> xl = 64"
  obtains ws where "assemble (text_lines txt) xl = Inr ws" "2 \<le> length ws" "length ws \<le> 1100" "all_fit 32 ws" "irq = None"
    "\<And>budget. gen_budget n None False xl ooo = Inr budget \<Longrightarrow> budget \<le> 2 ^ k div 4 \<and> (if ooo then int (length ws) \<le> budget else int (length ws) = budget + 1)"
    "\<And>zs. \<exists>s steps. run (iss_init (2 ^ k) xl) (ws @ zs) 5000 = Some (Inr (s, steps)) \<and> steps < int (length ws) \<and>
       wf_iss s \<and> length (mem s) = 2 ^ k"
proof -
  obtain budget where b: "gen_budget n None False xl ooo = Inr budget" "14 \<le> budget" "budget \<le> 1081"
    using budget_words [of n xl] par(1,2) by (cases ooo) auto
  have "budget \<le> 2 ^ k div 4" using gen b(1) by (auto simp: gen_program_def Let_def split: prod.splits if_splits)
  then have k: "40 \<le> (2::int) ^ k" using b(2) by linarith
  let ?s = "iss_init (2 ^ k) xl"
  have s: "wf_iss ?s" "priv_mode ?s = PRIV_M" "pending_interrupt ?s = None" "pc ?s = 0" "mem_mask ?s = 2 ^ k - 1"
    using wf_iss_init [OF par(3,4)] by (simp_all add: iss_init_def)
  have k32: "k \<le> 32" "(32::int) \<le> 2047" "32 + 8 \<le> (2::int) ^ k" "(0::int) \<le> 32" using par(3) k by simp_all
  obtain ws h where w: "assemble (text_lines txt) xl = Inr ws" "length ws = h + 1" "1 \<le> h"
    "\<And>zs max_steps. int h < max_steps \<Longrightarrow> \<exists>s' steps. run ?s (ws @ zs) max_steps = Some (Inr (s', steps)) \<and> steps \<le> int h \<and>
       pc s' = 4 * int h \<and> wf_iss s' \<and> mem_mask s' = mem_mask ?s \<and> regs s' ! 31 = 32 \<and> (\<forall>i. int i < 32 \<longrightarrow> mem s' ! i = mem ?s ! i)"
    by (rule generated_program_runs [OF gen par(2) k32(4,2,3,1) s]) (use that in blast)
  have p: "budget \<le> 2 ^ k div 4 \<and> (if ooo then int (length ws) \<le> budget else int (length ws) = budget + 1)"
    using plain_program_words [OF gen par(1,2) _ k32(2,3) b(1)] w(1) by auto
  have h: "int h < 5000" "length ws \<le> 1100" using p b(3) w(2) by (auto split: if_splits)
  have r: "\<exists>s steps. run ?s (ws @ zs) 5000 = Some (Inr (s, steps)) \<and> steps < int (length ws) \<and> wf_iss s \<and> length (mem s) = 2 ^ k" for zs
  proof -
    obtain s' steps where "run ?s (ws @ zs) 5000 = Some (Inr (s', steps))" "steps \<le> int h" "wf_iss s'" "mem_mask s' = 2 ^ k - 1"
      using w(4) [OF h(1), of zs] s(5) by auto
    moreover have "length (mem s') = 2 ^ k" using calculation(3,4) by (simp add: wf_iss_def nat_power_eq)
    ultimately show ?thesis using w(2) by auto
  qed
  have i: "irq = None" using gen_program_plain [OF gen] k by (auto simp: signed_in_def)
  have f: "all_fit 32 ws" using w(1) unfolding assemble_def by (auto split: prod.splits intro: asm_stmts_fit)
  show thesis by (rule that [OF w(1) _ h(2) f i _ r]) (use w(2,3) p b(1) in auto)
qed

text \<open>C9. For the out-of-order core and every seed, with at most 1023 instructions and a program path the count pattern does not match in, the driver's verdict is decided by the RTL run alone: the generated program assembles, its
  length is read back from the assembler's output, and the reference simulator runs it to its end; the driver then
  reports a pass exactly when the Verilog tools succeed in time and the dump equals the reference state, register by register
  and byte by byte.\<close>

theorem ooo_cross_check:
  assumes "gen_program seed n 32 (2 ^ k) None False xl True = Inr (txt, irq)"
    and "0 \<le> n" "n \<le> 1023" "k \<le> 31" "xl = 32 \<or> xl = 64" "plain_colons (prog_s rg)"
  shows "\<exists>ws img s steps. assemble (text_lines txt) xl = Inr ws \<and> write_mem ws (2 ^ k) = Inr img \<and>
    run (iss_init (2 ^ k) xl) (ws @ replicate (2 ^ k div 4 - length ws) 0) 5000 = Some (Inr (s, steps)) \<and>
    (let r = simulate rg img (ooo_testbench rg (int (length ws)) (2 ^ k) xl) in
     run_one_ooo rg seed n (2 ^ k) xl = Some (judge_reply_ooo xl (2 ^ k) s r) \<and>
     (run_one_ooo rg seed n (2 ^ k) xl = Some (Inr Pass) \<longleftrightarrow>
        compile_rc r = 0 \<and> sim_rc r = 0 \<and> \<not> py_in ''TIMEOUT'' (sim_stdout r) \<and>
        (\<exists>file vals. sim_out r = Some file \<and> read_ints (\<lambda>v. v AND (2 ^ xl - 1)) file = Inr vals \<and>
          take (64 + 2 ^ k) vals = regs s @ mem s @ fregs s)))"
proof -
  obtain ws where ws: "assemble (text_lines txt) xl = Inr ws" "2 \<le> length ws" "all_fit 32 ws"
    and b: "\<And>budget. gen_budget n None False xl True = Inr budget \<Longrightarrow>
      budget \<le> 2 ^ k div 4 \<and> (if True then int (length ws) \<le> budget else int (length ws) = budget + 1)"
    and r: "\<And>zs. \<exists>s steps. run (iss_init (2 ^ k) xl) (ws @ zs) 5000 = Some (Inr (s, steps)) \<and> steps < int (length ws) \<and>
      wf_iss s \<and> length (mem s) = 2 ^ k"
    by (rule generated_reference_run [OF assms(1-5)]) (use that in blast)
  have "int (length ws) \<le> 2 ^ k div 4" using b budget_words(2) [of n xl] by fastforce
  then have "4 * length ws \<le> 2 ^ k" by (rule words_fit)
  then obtain img where img: "write_mem ws (2 ^ k) = Inr img" "load_words img = Inr (ws @ replicate (2 ^ k div 4 - length ws) 0)"
    using load_written [OF ws(3)] by metis
  obtain s steps where s: "run (iss_init (2 ^ k) xl) (ws @ replicate (2 ^ k div 4 - length ws) 0) 5000 = Some (Inr (s, steps))"
      "wf_iss s" "length (mem s) = nat (2 ^ k)"
    using r by (metis nat_power_eq nat_numeral zero_le_numeral)
  have a: "asm_main (prog_s rg) txt (prog_mem rg) (2 ^ k) xl =
      Some (prog_s rg @ '': '' @ py_str (int (length ws)) @ '' instructions -> '' @ prog_mem rg @ [CHR 0x0A], img)"
    using ws(1) img(1) by (simp add: asm_main_def nat_power_eq)
  have "run_one_ooo rg seed n (2 ^ k) xl = Some (judge_reply_ooo xl (2 ^ k) s (simulate rg img (ooo_testbench rg (int (length ws)) (2 ^ k) xl)))"
    unfolding run_one_ooo_def assms(1) sum.case prod.case a option.case count_found [OF assms(6)] img(2) s(1)
    using ws(2) by (simp add: OOO_TRAILER_NOP_COUNT_def)
  then show ?thesis
    using ws(1) img(1) s(1) judge_reply_Pass(1) [OF s(2,3), of xl] by (auto simp: Let_def nat_power_eq)
qed

definition sample_rig :: rig where
  "sample_rig = \<lparr>simulate = \<lambda>img tb. \<lparr>compile_rc = 1, sim_rc = 0, sim_stdout = [], sim_out = None\<rparr>, template_text = [],
     window_template = False, prog_s = ''t.s'', prog_mem = ''t.mem'', init_file_rel = ''t.mem'', out_path = ''t.out''\<rparr>"

theorem ooo_cross_check_witness: "run_one_ooo sample_rig [3, 1, 4] 20 512 64 = Some (Inr Compile_error)"
proof -
  have "gen_budget 20 None False 64 True = Inr 78" by (simp add: budget_words)
  then obtain tx where t: "gen_program [3, 1, 4] 20 32 (2 ^ 9) None False 64 True = Inr (tx, None)"
    using gen_program_succeeds [of 20 64 True 78 "2 ^ 9"] by auto
  have "plain_colons (prog_s sample_rig)" by (simp add: sample_rig_def)
  from ooo_cross_check [OF t _ _ _ _ this] obtain s r where
    "run_one_ooo sample_rig [3, 1, 4] 20 (2 ^ 9) 64 = Some (judge_reply_ooo 64 (2 ^ 9) s r)" "compile_rc r = 1"
    by (auto simp: Let_def sample_rig_def)
  then show ?thesis by (simp add: judge_reply_ooo_def)
qed

text \<open>C10. For the pipelined core without interrupts and translation, the same holds under the same bounds with the flag and rounding-mode registers compared as well, and
  with the memory compared up to the dump window, except for programs that just fit the generator's size estimate:
  those the driver reports as assembler errors, whatever the RTL does.\<close>

theorem plain_cross_check:
  assumes "gen_program seed n 32 (2 ^ k) None False xl False = Inr (txt, irq)"
    and "0 \<le> n" "n \<le> 1023" "k \<le> 31" "xl = 32 \<or> xl = 64" "plain_colons (prog_s rg)"
  defines "win \<equiv> min (2 ^ k) SCALEUP_WINDOW_BYTES"
  defines "m \<equiv> nat (if window_template rg then win else 2 ^ k)"
  shows "if gen_budget n None False xl False = Inr (2 ^ k div 4)
    then run_one rg cfg seed n (2 ^ k) None False xl = Some (Inr Assembler_error)
    else \<exists>ws img s steps. assemble (text_lines txt) xl = Inr ws \<and> write_mem ws (nat win) = Inr img \<and>
      run (iss_init (2 ^ k) xl) (ws @ replicate (nat win div 4 - length ws) 0) 5000 = Some (Inr (s, steps)) \<and>
      (let r = simulate rg img (testbench rg cfg None (int (length ws)) (2 ^ k) win xl) in
       run_one rg cfg seed n (2 ^ k) None False xl = Some (judge_reply xl (int m) s r) \<and>
       (run_one rg cfg seed n (2 ^ k) None False xl = Some (Inr Pass) \<longleftrightarrow>
          compile_rc r = 0 \<and> sim_rc r = 0 \<and>
          (\<exists>file vals. sim_out r = Some file \<and> read_ints (\<lambda>v. v AND (2 ^ xl - 1)) file = Inr vals \<and>
            take (66 + m) vals = regs s @ take m (mem s) @ fregs s @ [fflags s, frm s])))"
proof -
  obtain ws where ws: "assemble (text_lines txt) xl = Inr ws" "length ws \<le> 1100" "all_fit 32 ws" "irq = None"
    and b: "\<And>budget. gen_budget n None False xl False = Inr budget \<Longrightarrow>
      budget \<le> 2 ^ k div 4 \<and> (if False then int (length ws) \<le> budget else int (length ws) = budget + 1)"
    and r: "\<And>zs. \<exists>s steps. run (iss_init (2 ^ k) xl) (ws @ zs) 5000 = Some (Inr (s, steps)) \<and> steps < int (length ws) \<and>
      wf_iss s \<and> length (mem s) = 2 ^ k"
    by (rule generated_reference_run [OF assms(1-5)]) (use that in blast)
  obtain budget where bu: "gen_budget n None False xl False = Inr budget" using budget_words(1) by blast
  have le: "budget \<le> 2 ^ k div 4" "int (length ws) = budget + 1" using b [OF bu] by simp_all
  have w0: "0 \<le> win" "win \<le> 2 ^ k" by (simp_all add: win_def SCALEUP_WINDOW_BYTES_def)
  have div4: "4 * (b + 1) \<le> x \<longleftrightarrow> b \<noteq> x div 4" if "b \<le> x div 4" for b x :: int using that by presburger
  have "4 * int (length ws) \<le> win \<longleftrightarrow> budget \<noteq> 2 ^ k div 4"
  proof (cases "(2::int) ^ k \<le> 65536")
    case True
    then show ?thesis using div4 [OF le(1)] le(2) by (simp add: win_def SCALEUP_WINDOW_BYTES_def)
  next
    case False
    then have "65536 div 4 \<le> (2::int) ^ k div 4" by (intro zdiv_mono1) auto
    then show ?thesis using False le(2) ws(2) by (auto simp: win_def SCALEUP_WINDOW_BYTES_def)
  qed
  then have fit: "4 * length ws \<le> nat win \<longleftrightarrow> budget \<noteq> 2 ^ k div 4" using w0 by linarith
  show ?thesis
  proof (cases "budget = 2 ^ k div 4")
    case True
    then obtain e where "write_mem ws (nat win) = Inl e" using fit write_mem_fits(1) [of ws "nat win"] by (cases "write_mem ws (nat win)") auto
    then have "asm_main (prog_s rg) txt (prog_mem rg) win xl = None" using ws(1) by (simp add: asm_main_def)
    then show ?thesis using True bu assms(1) by (simp add: run_one_def win_def [symmetric] Let_def)
  next
    case False
    then have nb: "gen_budget n None False xl False \<noteq> Inr (2 ^ k div 4)" using bu by simp
    obtain img where img: "write_mem ws (nat win) = Inr img" "load_words img = Inr (ws @ replicate (nat win div 4 - length ws) 0)"
      using load_written [OF ws(3)] fit False by metis
    obtain s steps where s: "run (iss_init (2 ^ k) xl) (ws @ replicate (nat win div 4 - length ws) 0) 5000 = Some (Inr (s, steps))"
        "wf_iss s" "length (mem s) = nat (2 ^ k)"
      using r by (metis nat_power_eq nat_numeral zero_le_numeral)
    have a: "asm_main (prog_s rg) txt (prog_mem rg) win xl =
        Some (prog_s rg @ '': '' @ py_str (int (length ws)) @ '' instructions -> '' @ prog_mem rg @ [CHR 0x0A], img)"
      using ws(1) img(1) w0 by (simp add: asm_main_def)
    have im: "int m = (if window_template rg then win else 2 ^ k)" and m: "nat (int m) \<le> length (mem s)"
      using w0 s(3) by (auto simp: m_def)
    have "run_one rg cfg seed n (2 ^ k) None False xl =
        Some (judge_reply xl (int m) s (simulate rg img (testbench rg cfg None (int (length ws)) (2 ^ k) win xl)))"
      unfolding run_one_def assms(1) sum.case prod.case win_def [symmetric] Let_def a option.case count_found [OF assms(6)] img(2) ws(4) s(1) im ..
    moreover note judge_reply_Pass(2) [OF s(2,3) m, of xl, unfolded nat_int]
    ultimately show ?thesis
      unfolding Let_def if_not_P [OF nb] using ws(1) img(1) s(1) by (intro exI conjI) auto
  qed
qed

theorem plain_cross_check_witness:
  "run_one sample_rig default_config [3, 1, 4] 18 128 None False 32 = Some (Inr Assembler_error)"
proof -
  have b: "gen_budget 18 None False 32 False = Inr (2 ^ 7 div 4)" by (simp add: budget_words)
  then obtain tx where t: "gen_program [3, 1, 4] 18 32 (2 ^ 7) None False 32 False = Inr (tx, None)"
    using gen_program_succeeds [of 18 32 False "2 ^ 7 div 4" "2 ^ 7"] by auto
  have "plain_colons (prog_s sample_rig)" by (simp add: sample_rig_def)
  from plain_cross_check [OF t _ _ _ _ this, of default_config] b show ?thesis by simp
qed

section \<open>The sweep\<close>

lemma tally_ok:
  "tally run1 seeds p f = Some (Inr (p', f')) \<Longrightarrow> f \<le> f' \<and> (f' = f \<longleftrightarrow> (\<forall>seed \<in> set seeds. run1 seed = Some (Inr Pass)))"
proof (induction run1 seeds p f rule: tally.induct)
  case (2 run1 seed seeds p f)
  show ?case
  proof (cases "run1 seed = Some (Inr Pass)")
    case True
    then show ?thesis using 2 by simp
  next
    case False
    then obtain v where "run1 seed = Some (Inr v)" "v \<noteq> Pass" using 2(3) by (auto split: option.splits sum.splits)
    moreover from this have "tally run1 seeds p (f + 1) = Some (Inr (p', f'))" using 2(3) by simp
    moreover from calculation have "f + 1 \<le> f'" using 2(2) by simp
    ultimately show ?thesis by auto
  qed
qed simp

lemma tally_pass: "\<forall>seed \<in> set seeds. run1 seed = Some (Inr Pass) \<Longrightarrow> tally run1 seeds p f = Some (Inr (p + length seeds, f))"
  by (induction seeds arbitrary: p) auto

text \<open>The driver exits with status 0 exactly when the modes are compatible and the program of every requested seed passes; the count
  of the failing seeds starts at zero and no seed is skipped.\<close>

theorem sweep_status:
  "sweep rigs rng cfg a n_instrs seed_start count = Some (Inr 0) \<longleftrightarrow> \<not> sweep_excluded a \<and>
     (\<forall>i<count. (if arg_ooo a then run_one_ooo (rigs (seed_start + int i)) (rng (seed_start + int i)) n_instrs (sweep_mem_size a) (arg_xlen a)
       else run_one (rigs (seed_start + int i)\<lparr>window_template := sweep_window_template a\<rparr>) cfg (rng (seed_start + int i)) n_instrs
         (sweep_mem_size a) (arg_interrupt a) (arg_mmu a) (arg_xlen a)) = Some (Inr Pass))"
proof -
  define run1 where "run1 = (\<lambda>seed. if arg_ooo a then run_one_ooo (rigs seed) (rng seed) n_instrs (sweep_mem_size a) (arg_xlen a)
     else run_one (rigs seed\<lparr>window_template := sweep_window_template a\<rparr>) cfg (rng seed) n_instrs (sweep_mem_size a)
            (arg_interrupt a) (arg_mmu a) (arg_xlen a))"
  define seeds where "seeds = map (\<lambda>i. seed_start + int i) [0..<count]"
  have "sweep rigs rng cfg a n_instrs seed_start count = Some (Inr 0) \<longleftrightarrow> \<not> sweep_excluded a \<and> (\<exists>p. tally run1 seeds 0 0 = Some (Inr (p, 0)))"
    unfolding sweep_def Let_def run1_def [symmetric] seeds_def [symmetric] by (auto split: option.splits sum.splits)
  also have "(\<exists>p. tally run1 seeds 0 0 = Some (Inr (p, 0))) \<longleftrightarrow> (\<forall>seed \<in> set seeds. run1 seed = Some (Inr Pass))"
    using tally_ok [of run1 seeds 0 0] tally_pass [of seeds run1 0 0] by blast
  finally show ?thesis by (auto simp: seeds_def run1_def)
qed

theorem sweep_status_witness:
  "sweep (\<lambda>i. sample_rig) (\<lambda>i. []) default_config
     \<lparr>arg_interrupt = Some ''spi'', arg_mmu = False, arg_ooo = False, arg_mem_size = None, arg_xlen = 32\<rparr> 4 1 3 \<noteq> Some (Inr 0)"
proof -
  have "run_one rg cfg seed 4 256 (Some ''spi'') False 32 = Some (Inl KeyError)" for rg cfg seed
    by (simp add: run_one_def gen_program_def gen_budget_def source_cost_def Let_def)
  then show ?thesis
    unfolding sweep_status by (auto simp: sweep_excluded_def sweep_mem_size_def intro!: exI [of _ 0])
qed

end
