(* ===== verification/Elf2mem.thy ===== *)
theory Elf2mem
  imports Sim_Run
begin

text \<open>
  The image converter \<open>sim/tools/elf2mem.py\<close>: it extracts sections of an ELF file with \<open>objcopy\<close>, finds their addresses in the output of
  \<open>objdump -h\<close> and \<open>nm\<close>, places them in an instruction and a data image and writes both. The binary tools are parameters
  (record \<open>elf_tools\<close>); the parsing of their output, the placement and every error are modelled. Bytes are integers.
\<close>

section \<open>Text and byte strings\<close>

definition is_linebreak :: "char \<Rightarrow> bool" where
  "is_linebreak c \<longleftrightarrow> c \<in> {CHR 0x0A, CHR 0x0B, CHR 0x0C, CHR 0x0D, CHR 0x1C, CHR 0x1D, CHR 0x1E}"

fun py_splitlines :: "string \<Rightarrow> string list" where
  \<comment> \<open>\<open>s.splitlines()\<close>; a carriage return and a following newline are one break\<close>
  "py_splitlines [] = []"
| "py_splitlines (c # cs) =
     (if c = CHR 0x0D \<and> take 1 cs = [CHR 0x0A] then py_splitlines cs
      else if is_linebreak c then [] # py_splitlines cs
      else case py_splitlines cs of [] \<Rightarrow> [[c]] | l # ls \<Rightarrow> (c # l) # ls)"

fun split_on :: "char \<Rightarrow> string \<Rightarrow> string list" where
  \<comment> \<open>\<open>s.split(c)\<close>\<close>
  "split_on c [] = [[]]"
| "split_on c (d # ds) = (if d = c then [] # split_on c ds else case split_on c ds of [] \<Rightarrow> [[d]] | l # ls \<Rightarrow> (d # l) # ls)"

definition py_int16 :: "string \<Rightarrow> int result" where
  \<comment> \<open>\<open>int(s, 16)\<close>\<close>
  "py_int16 s = int_signed 16 (\<lambda>t. case t of
       a # p # r \<Rightarrow> if a = CHR ''0'' \<and> (p = CHR ''x'' \<or> p = CHR ''X'') then drop_underscore r else t
     | _ \<Rightarrow> t) s"

definition bytearray :: "int \<Rightarrow> int list result" where
  "bytearray n = (if n < 0 then Inl ValueError else Inr (replicate (nat n) 0))"

definition slice_set :: "'a list \<Rightarrow> int \<Rightarrow> int \<Rightarrow> 'a list \<Rightarrow> 'a list" where
  \<comment> \<open>\<open>xs[a:b] = ys\<close>\<close>
  "slice_set xs a b ys =
     (let n = int (length xs);
          lo = (if a < 0 then max 0 (a + n) else min a n);
          hi = (if b < 0 then max 0 (b + n) else min b n)
      in take (nat lo) xs @ ys @ drop (nat (max lo hi)) xs)"

section \<open>Reading the file\<close>

record elf_tools =
  objcopy :: "string \<Rightarrow> int list option"
    \<comment> \<open>the bytes of a section, \<open>None\<close> for a nonzero exit status\<close>
  objdump_h :: "string option"
  nm_out :: "string option"

definition extract_raw :: "elf_tools \<Rightarrow> string \<Rightarrow> int list result" where
  "extract_raw tools sec = (case objcopy tools sec of None \<Rightarrow> Inl RuntimeError | Some b \<Rightarrow> Inr b)"

definition extract_binary :: "elf_tools \<Rightarrow> string list \<Rightarrow> int \<Rightarrow> int list result" where
  "extract_binary tools sections size_bytes =
     rbind (rtraverse (extract_raw tools) sections) (\<lambda>ds.
       let data = concat ds in
       if int (length data) > size_bytes then Inl ValueError else Inr (data @ replicate (nat size_bytes - length data) 0))"

fun find_vma :: "string \<Rightarrow> string list \<Rightarrow> int option result" where
  "find_vma sec [] = Inr None"
| "find_vma sec (line # ls) =
     (let parts = py_split line in
      if length parts \<ge> 4 \<and> parts ! 1 = sec then rbind (py_int16 (parts ! 3)) (\<lambda>v. Inr (Some v)) else find_vma sec ls)"

definition get_section_vma :: "elf_tools \<Rightarrow> string \<Rightarrow> int option result" where
  "get_section_vma tools sec =
     (case objdump_h tools of None \<Rightarrow> Inl RuntimeError | Some out \<Rightarrow> find_vma sec (py_splitlines out))"

fun find_symbol :: "string \<Rightarrow> string list \<Rightarrow> int result" where
  "find_symbol name [] = Inl ValueError"
| "find_symbol name (line # ls) =
     (let parts = py_split line in
      if length parts \<ge> 3 \<and> last parts = name then py_int16 (parts ! 0) else find_symbol name ls)"

definition get_symbol :: "elf_tools \<Rightarrow> string \<Rightarrow> int result" where
  "get_symbol tools name = (case nm_out tools of None \<Rightarrow> Inl RuntimeError | Some out \<Rightarrow> find_symbol name (py_splitlines out))"

fun swap_words :: "int list \<Rightarrow> int list" where
  "swap_words (a # b # c # d # r) = d # c # b # a # swap_words r"
| "swap_words r = r"

definition swap_instruction_words :: "int list \<Rightarrow> int list result" where
  "swap_instruction_words data = (if length data mod 4 = 0 then Inr (swap_words data) else Inl AssertionError)"

section \<open>The images\<close>

definition mem_lines :: "int list \<Rightarrow> string" where
  \<comment> \<open>the text \<open>write_mem\<close> writes\<close>
  "mem_lines data = concat (map (\<lambda>b. format_b 8 b @ [CHR 0x0A]) data)"

fun place_sections :: "elf_tools \<Rightarrow> int \<Rightarrow> string list \<Rightarrow> int list \<Rightarrow> int list result" where
  "place_sections tools imem_size [] imem = Inr imem"
| "place_sections tools imem_size (sec # secs) imem =
     rbind (extract_raw tools sec) (\<lambda>raw.
       if raw = [] then place_sections tools imem_size secs imem
       else rbind (get_section_vma tools sec) (\<lambda>v.
         case v of
           None \<Rightarrow> Inl ValueError
         | Some vma \<Rightarrow>
             if vma + int (length raw) > imem_size then Inl ValueError
             else place_sections tools imem_size secs (slice_set imem vma (vma + int (length raw)) raw)))"

fun place_blobs :: "int \<Rightarrow> (int \<times> int list) list \<Rightarrow> int list \<Rightarrow> int list result" where
  "place_blobs dmem_size [] dmem = Inr dmem"
| "place_blobs dmem_size ((off, blob) # r) dmem =
     (if off + int (length blob) > dmem_size then Inl ValueError
      else place_blobs dmem_size r (slice_set dmem off (off + int (length blob)) blob))"

definition elf2mem :: "elf_tools \<Rightarrow> int \<Rightarrow> int \<Rightarrow> string \<Rightarrow> (string \<times> string) result" where
  \<comment> \<open>\<open>main\<close>: the two files it writes\<close>
  "elf2mem tools imem_size dmem_size imem_sections =
     rbind (bytearray imem_size) (\<lambda>zeros.
     rbind (place_sections tools imem_size (split_on (CHR '','') imem_sections) zeros) (\<lambda>imem.
     rbind (extract_raw tools ''.rodata'') (\<lambda>rodata_raw.
     rbind (extract_raw tools ''.data'') (\<lambda>data_raw.
     rbind (if rodata_raw \<noteq> [] then get_symbol tools ''_rodata_start'' else Inr 0) (\<lambda>rodata_off.
     rbind (if data_raw \<noteq> [] then get_symbol tools ''_data_start'' else Inr 0) (\<lambda>data_off.
     rbind (bytearray dmem_size) (\<lambda>zeros.
     rbind (place_blobs dmem_size [(rodata_off, rodata_raw), (data_off, data_raw)] zeros) (\<lambda>dmem.
     Inr (mem_lines imem, mem_lines dmem)))))))))"

section \<open>Splitting what was joined\<close>

lemma splitlines_line: "\<forall>c \<in> set l. \<not> is_linebreak c \<Longrightarrow> py_splitlines (l @ CHR 0x0A # cs) = l # py_splitlines cs"
proof (induction l)
  case (Cons c l)
  then have "\<not> is_linebreak c" "c \<noteq> CHR 0x0D" by (auto simp: is_linebreak_def)
  then show ?case using Cons by simp
qed (simp add: is_linebreak_def)

lemma splitlines_join: "\<forall>l \<in> set ls. \<forall>c \<in> set l. \<not> is_linebreak c \<Longrightarrow> py_splitlines (join_lines ls) = ls"
  by (induction ls) (simp_all add: join_lines_def splitlines_line)

end
