(* ===== verification/Elf_Listing.thy ===== *)
theory Elf_Listing
  imports Elf2mem Asm_Text
begin

text \<open>
  What the binary tools print for an ELF file, written from their documented formats and not from the code that reads them: \<open>objcopy
  --only-section\<close> gives the bytes of a section, \<open>objdump -h\<close> a table with index, name, size, VMA, LMA, file offset and alignment of each
  section and its flags on a second line, \<open>nm\<close> the value, type and name of each symbol. The readers of \<open>elf2mem.py\<close> are shown to find the
  VMA and the symbol's value in them.
\<close>

section \<open>The tools on an ELF file\<close>

record elf_section =
  sec_name :: string
  sec_bytes :: "int list"
  sec_size :: nat
  sec_vma :: nat
  sec_lma :: nat
  sec_off :: nat
  sec_align :: nat
  sec_flags :: "string list"

record elf_symbol =
  sym_value :: "nat option"
    \<comment> \<open>\<open>None\<close> for an undefined symbol\<close>
  sym_type :: char
  sym_name :: string

record elf_file =
  elf_digits :: nat
    \<comment> \<open>hexadecimal digits of an address: 8 or 16\<close>
  elf_heading :: "string list"
    \<comment> \<open>the lines before the table\<close>
  elf_sections :: "elf_section list"
  elf_symbols :: "elf_symbol list"

definition columns :: "(nat \<times> string) list \<Rightarrow> string" where
  \<comment> \<open>words, each after a number of blanks\<close>
  "columns ws = concat (map (\<lambda>(k, w). replicate k CHR '' '' @ w) ws)"

definition section_row :: "nat \<Rightarrow> nat \<times> elf_section \<Rightarrow> string" where
  "section_row w row =
     (case row of (i, s) \<Rightarrow>
        let idx = digits 10 i; hex = (\<lambda>n. pad0 w (digits 16 n)) in
        columns [(3 - length idx, idx), (1, sec_name s), (1 + (13 - length (sec_name s)), pad0 8 (digits 16 (sec_size s))),
          (2, hex (sec_vma s)), (2, hex (sec_lma s)), (2, pad0 8 (digits 16 (sec_off s))), (2, ''2**'' @ digits 10 (sec_align s))])"

fun flag_columns :: "nat \<Rightarrow> string list \<Rightarrow> (nat \<times> string) list" where
  "flag_columns k [] = []"
| "flag_columns k [f] = [(k, f)]"
| "flag_columns k (f # fs) = (k, f @ '','') # flag_columns 1 fs"

definition flags_row :: "elf_section \<Rightarrow> string" where
  "flags_row s = columns (flag_columns 18 (sec_flags s))"

definition section_table :: "elf_file \<Rightarrow> string list" where
  "section_table E = elf_heading E @ concat (map (\<lambda>row. [section_row (elf_digits E) row, flags_row (snd row)]) (enumerate 0 (elf_sections E)))"

definition symbol_row :: "nat \<Rightarrow> elf_symbol \<Rightarrow> string" where
  "symbol_row w s =
     (case sym_value s of
        None \<Rightarrow> columns [(w + 1, [sym_type s]), (1, sym_name s)]
      | Some v \<Rightarrow> columns [(0, pad0 w (digits 16 v)), (1, [sym_type s]), (1, sym_name s)])"

definition find_section :: "elf_file \<Rightarrow> string \<Rightarrow> elf_section option" where
  "find_section E sec = find (\<lambda>s. sec_name s = sec) (elf_sections E)"

definition section_content :: "elf_file \<Rightarrow> string \<Rightarrow> int list" where
  "section_content E sec = (case find_section E sec of None \<Rightarrow> [] | Some s \<Rightarrow> sec_bytes s)"

definition tools_of :: "elf_file \<Rightarrow> elf_tools" where
  "tools_of E = \<lparr>objcopy = (\<lambda>sec. Some (section_content E sec)), objdump_h = Some (join_lines (section_table E)),
     nm_out = Some (join_lines (map (symbol_row (elf_digits E)) (elf_symbols E)))\<rparr>"

section \<open>Files the tools can print\<close>

definition text_word :: "string \<Rightarrow> bool" where
  "text_word t \<longleftrightarrow> t \<noteq> [] \<and> list_all (\<lambda>c. \<not> py_isspace c) t"

definition no_row :: "string list \<Rightarrow> string \<Rightarrow> bool" where
  \<comment> \<open>a line that is not taken for the row of one of these sections\<close>
  "no_row secs l \<longleftrightarrow> list_all (\<lambda>c. \<not> is_linebreak c) l \<and> (length (py_split l) < 4 \<or> py_split l ! 1 \<notin> set secs)"

definition wf_elf :: "string list \<Rightarrow> elf_file \<Rightarrow> bool" where
  "wf_elf secs E \<longleftrightarrow> list_all (no_row secs) (elf_heading E) \<and> distinct (map sec_name (elf_sections E)) \<and>
     list_all (\<lambda>s. text_word (sec_name s) \<and> all_fit 8 (sec_bytes s) \<and> list_all text_word (sec_flags s)) (elf_sections E) \<and>
     list_all (\<lambda>s. text_word [sym_type s] \<and> text_word (sym_name s)) (elf_symbols E)"

section \<open>Columns\<close>

lemma linebreak_space: "is_linebreak c \<Longrightarrow> py_isspace c"
  by (auto simp: is_linebreak_def py_isspace_def)

lemma blank: "py_isspace CHR '' ''" "\<not> is_linebreak CHR '' ''"
  by (simp_all add: is_linebreak_def py_isspace_def)

lemma columns_simps [simp]: "columns [] = []" "columns ((k, w) # ws) = replicate k CHR '' '' @ w @ columns ws"
  by (simp_all add: columns_def)

lemma columns_no_break:
  "list_all (\<lambda>(k, w). text_word w) ws \<Longrightarrow> \<forall>c \<in> set (columns ws). \<not> is_linebreak c"
proof (induction ws)
  case (Cons v ws)
  then show ?case using blank(2) linebreak_space by (cases v) (fastforce simp: text_word_def list_all_iff)
qed simp

lemma re_split_blanks:
  assumes "list_all (\<lambda>c. \<not> py_isspace c) t" "rest = [] \<or> \<not> py_isspace (hd rest)"
  shows "re_split py_isspace (t @ CHR '' '' # replicate k CHR '' '' @ rest) = t # re_split py_isspace rest"
proof -
  have d: "dropWhile py_isspace (replicate k CHR '' '' @ rest) = rest"
    using assms(2) blank(1) by (induction k) (auto simp: neq_Nil_conv intro: dropWhile_eq_self_iff [THEN iffD2])
  show ?thesis
    using assms(1) blank(1) d by (subst re_split.simps) (simp add: list_all_iff)
qed

lemma text_word_hd: "text_word w \<Longrightarrow> w \<noteq> [] \<and> \<not> py_isspace (hd w)"
  by (auto simp: text_word_def list_all_iff)

lemma split_columns_tail:
  assumes "text_word w" "list_all (\<lambda>(k, w). 0 < k \<and> text_word w) ws"
  shows "re_split py_isspace (w @ columns ws) = w # map snd ws"
  using assms
proof (induction ws arbitrary: w)
  case Nil
  then show ?case by (simp add: re_split_token text_word_def)
next
  case (Cons v ws)
  obtain k u where v: "v = (k, u)" by fastforce
  obtain j where j: "k = Suc j" using Cons v by (cases k) auto
  have u: "text_word u" using Cons v by simp
  have "re_split py_isspace (w @ CHR '' '' # replicate j CHR '' '' @ (u @ columns ws)) = w # re_split py_isspace (u @ columns ws)"
    using Cons(2) text_word_hd [OF u] by (intro re_split_blanks) (auto simp: text_word_def)
  then show ?case using Cons u v j by simp
qed

lemma columns_last:
  "text_word w \<Longrightarrow> list_all (\<lambda>(k, w). 0 < k \<and> text_word w) ws \<Longrightarrow> \<not> py_isspace (last (w @ columns ws))"
proof (induction ws arbitrary: w)
  case (Cons v ws)
  obtain k u where v: "v = (k, u)" by fastforce
  then have "text_word u" "list_all (\<lambda>(k, w). 0 < k \<and> text_word w) ws" using Cons by auto
  then show ?case using Cons(1) [of u] v text_word_hd [of u] by simp
qed (auto simp: text_word_def list_all_iff)

lemma strip_blanks:
  assumes "s \<noteq> []" "\<not> py_isspace (hd s)" "\<not> py_isspace (last s)"
  shows "py_strip (replicate k CHR '' '' @ s) = s"
proof -
  have d: "dropWhile py_isspace (replicate k CHR '' '' @ s) = s"
    using assms(1,2) blank(1) by (induction k) (auto simp: dropWhile_eq_self_iff)
  have "dropWhile py_isspace (rev s) = rev s" using assms(1,3) by (simp add: dropWhile_eq_self_iff hd_rev)
  then show ?thesis unfolding py_strip_def d by simp
qed

lemma split_columns:
  assumes "text_word w" "list_all (\<lambda>(k, w). 0 < k \<and> text_word w) ws"
  shows "py_split (columns ((k, w) # ws)) = w # map snd ws"
proof -
  have "py_strip (columns ((k, w) # ws)) = w @ columns ws"
    using strip_blanks [of "w @ columns ws" k] columns_last [OF assms] text_word_hd [OF assms(1)] by simp
  then show ?thesis
    using split_columns_tail [OF assms] text_word_hd [OF assms(1)] by (simp add: py_split_def)
qed

section \<open>Numbers\<close>

lemma digits_word: "1 < b \<Longrightarrow> b \<le> 16 \<Longrightarrow> text_word (digits b n)"
  using digits_no_space [of b] by (auto simp: text_word_def list_all_iff)

lemma zero_char: "CHR ''0'' = digit_char 0" "\<not> py_isspace CHR ''0''"
  by (code_simp, simp add: py_isspace_def)

lemma pad0_word: "text_word (pad0 w (digits 16 n))"
  using digits_word [of 16 n] zero_char(2) by (auto simp: text_word_def list_all_iff pad0_def)

lemma align_word: "text_word (CHR ''2'' # CHR ''*'' # CHR ''*'' # digits 10 n)"
  using digits_word [of 10 n] by (simp add: text_word_def py_isspace_def)

lemma pad0_value: "py_int16 (pad0 w (digits 16 n)) = Inr (int n)"
proof -
  let ?s = "pad0 w (digits 16 n)"
  have ds: "\<forall>c \<in> set ?s. \<exists>d<16. c = digit_char d"
    using digits_set [of 16 _ n] zero_char(1) by (auto simp: pad0_def intro: exI [of _ 0])
  have z: "foldl (\<lambda>v c. v * 16 + the (digit_val c)) 0 (replicate m CHR ''0'') = 0" for m
    by (induction m) (simp_all add: zero_char(1))
  have v: "int_digits 16 0 False ?s = Inr n"
    using int_digits_append [OF ds, of 0 False "[]"] digits_value [of 16 n] z by (simp add: pad0_def)
  obtain c cs where s: "?s = c # cs" by (cases ?s) (auto simp: pad0_def)
  have x: "\<exists>d<16. x = digit_char d" if "x \<in> set (c # cs)" for x using ds that unfolding s by blast
  have c: "c \<noteq> CHR ''-''" "c \<noteq> CHR ''+''" using x [of c] digit_char_word by fastforce+
  have st: "py_strip ?s = ?s"
    by (rule strip_id) (use pad0_word [of w n] in \<open>simp add: text_word_def list_all_iff\<close>)
  have p: "\<not> (\<exists>p r. cs = p # r \<and> (p = CHR ''x'' \<or> p = CHR ''X''))"
  proof
    assume "\<exists>p r. cs = p # r \<and> (p = CHR ''x'' \<or> p = CHR ''X'')"
    then obtain p where "p \<in> set (c # cs)" "p = CHR ''x'' \<or> p = CHR ''X''" by (metis list.set_intros)
    then obtain d where d: "d < 16" "digit_char d = CHR ''x'' \<or> digit_char d = CHR ''X''" using x by metis
    then have "digit_val CHR ''x'' = Some d \<or> digit_val CHR ''X'' = Some d" using digit_char_val [OF d(1)] by metis
    then show False using d(1) by (auto simp: digit_val_def py_isdigit_def is_lower_def is_upper_def)
  qed
  have u: "(case cs of [] \<Rightarrow> c # cs | p # r \<Rightarrow> if c = CHR ''0'' \<and> (p = CHR ''x'' \<or> p = CHR ''X'') then drop_underscore r
      else c # cs) = c # cs"
    using p by (cases cs) auto
  show ?thesis
    unfolding py_int16_def int_signed_def st unfolding s list.case(2) [of _ _ c cs] if_not_P [OF c(1)] if_not_P [OF c(2)]
    by (simp add: u v [unfolded s] del: int_digits.simps)
qed

section \<open>The readers on the tools' output\<close>

lemma split_section_row:
  assumes "text_word (sec_name s)"
  shows "py_split (section_row w (i, s)) = [digits 10 i, sec_name s, pad0 8 (digits 16 (sec_size s)), pad0 w (digits 16 (sec_vma s)),
    pad0 w (digits 16 (sec_lma s)), pad0 8 (digits 16 (sec_off s)), ''2**'' @ digits 10 (sec_align s)]"
  unfolding section_row_def Let_def prod.case
  by (subst split_columns) (use assms in \<open>simp_all add: digits_word pad0_word align_word\<close>)

lemma section_row_no_break: "text_word (sec_name s) \<Longrightarrow> \<forall>c \<in> set (section_row w (i, s)). \<not> is_linebreak c"
  unfolding section_row_def Let_def prod.case
  by (rule columns_no_break) (simp add: digits_word pad0_word align_word)

lemma split_on_no_sep: "t \<in> set (split_on c s) \<Longrightarrow> c \<notin> set t"
proof (induction s arbitrary: t)
  case (Cons d ds)
  have "split_on c ds \<noteq> []" by (cases ds) (auto split: list.splits)
  then obtain l ls where "split_on c ds = l # ls" by (cases "split_on c ds") auto
  then show ?case using Cons by (auto split: if_splits)
qed simp

text \<open>A flags line has fewer than four words, or a comma in its second word.\<close>

lemma flag_columns_words:
  "list_all text_word fs \<Longrightarrow> 0 < k \<Longrightarrow> list_all (\<lambda>(k, w). 0 < k \<and> text_word w) (flag_columns k fs)"
  by (induction k fs rule: flag_columns.induct) (auto simp: text_word_def py_isspace_def)

lemma flag_columns_comma:
  assumes "4 \<le> length (flag_columns k fs)"
  shows "CHR '','' \<in> set (map snd (flag_columns k fs) ! 1)"
proof -
  have "length (flag_columns k fs) = length fs" by (induction k fs rule: flag_columns.induct) auto
  then have "4 \<le> length fs" using assms by simp
  then obtain a b c d where "fs = a # b # c # d" by (auto simp: Suc_le_length_iff eval_nat_numeral)
  then show ?thesis by simp
qed

lemma flags_no_row:
  assumes "list_all text_word (sec_flags s)" "\<forall>t \<in> set secs. CHR '','' \<notin> set t"
  shows "no_row secs (flags_row s)"
proof -
  let ?ws = "flag_columns 18 (sec_flags s)"
  have ws: "list_all (\<lambda>(k, w). 0 < k \<and> text_word w) ?ws" by (rule flag_columns_words [OF assms(1)]) simp
  then have "list_all (\<lambda>(k, w). text_word w) ?ws" by (auto simp: list_all_iff)
  then have b: "\<forall>c \<in> set (flags_row s). \<not> is_linebreak c" unfolding flags_row_def by (rule columns_no_break)
  have split: "py_split (flags_row s) = map snd ?ws"
  proof (cases ?ws)
    case Nil
    then show ?thesis by (simp add: flags_row_def py_split_def py_strip_def)
  next
    case (Cons v vs)
    then show ?thesis using split_columns [of "snd v" vs "fst v"] ws by (auto simp: flags_row_def split: prod.splits)
  qed
  show ?thesis using assms(2) b flag_columns_comma [of 18 "sec_flags s"] unfolding no_row_def list_all_iff split by (fastforce simp: not_less)
qed

lemma find_vma_skip: "no_row secs l \<Longrightarrow> sec \<in> set secs \<Longrightarrow> find_vma sec (l # ls) = find_vma sec ls"
  by (auto simp: no_row_def Let_def)

lemma find_vma_skips: "list_all (no_row secs) pre \<Longrightarrow> sec \<in> set secs \<Longrightarrow> find_vma sec (pre @ ls) = find_vma sec ls"
  by (induction pre) (auto simp: find_vma_skip simp del: find_vma.simps)

lemma find_vma_rows:
  assumes "sec \<in> set secs" "\<forall>t \<in> set secs. CHR '','' \<notin> set t"
    "list_all (\<lambda>s. text_word (sec_name s) \<and> list_all text_word (sec_flags s)) ss"
  shows "find_vma sec (concat (map (\<lambda>row. [section_row w row, flags_row (snd row)]) (enumerate i ss))) =
    Inr (map_option (int \<circ> sec_vma) (find (\<lambda>s. sec_name s = sec) ss))"
  using assms(3)
proof (induction ss arbitrary: i)
  case (Cons s ss)
  then have "no_row secs (flags_row s)" using flags_no_row [OF _ assms(2)] by simp
  then show ?case
    using Cons split_section_row [of s w i] find_vma_skip [OF _ assms(1)] pad0_value by (simp add: Let_def del: find_vma.simps(2)) (simp add: Let_def)
qed simp

lemma section_vma:
  assumes "wf_elf secs E" "sec \<in> set secs" "\<forall>t \<in> set secs. CHR '','' \<notin> set t"
  shows "get_section_vma (tools_of E) sec = Inr (map_option (int \<circ> sec_vma) (find_section E sec))"
proof -
  let ?ss = "elf_sections E"
  have ss: "list_all (\<lambda>s. text_word (sec_name s) \<and> list_all text_word (sec_flags s)) ?ss" and h: "list_all (no_row secs) (elf_heading E)"
    using assms(1) by (auto simp: wf_elf_def list_all_iff)
  have "\<forall>c \<in> set l. \<not> is_linebreak c" if l: "l \<in> set (section_table E)" for l
  proof -
    have "snd row \<in> set ?ss" if "row \<in> set (enumerate 0 ?ss)" for row
      using imageI [OF that, of snd] by (simp only: flip: set_map) (simp only: map_snd_enumerate)
    then consider "l \<in> set (elf_heading E)" | i s where "s \<in> set ?ss" "l = section_row (elf_digits E) (i, s) \<or> l = flags_row s"
      using l by (fastforce simp: section_table_def)
    then show ?thesis
    proof cases
      case 1
      then show ?thesis using h by (auto simp: no_row_def list_all_iff)
    next
      case (2 i s)
      then have "text_word (sec_name s)" "no_row secs (flags_row s)" using ss flags_no_row [OF _ assms(3)] by (auto simp: list_all_iff)
      then show ?thesis using 2 section_row_no_break by (auto simp: no_row_def list_all_iff)
    qed
  qed
  then have "py_splitlines (join_lines (section_table E)) = section_table E" by (intro splitlines_join) blast
  then show ?thesis
    using find_vma_skips [OF h assms(2)] find_vma_rows [OF assms(2,3) ss]
    by (simp add: get_section_vma_def tools_of_def find_section_def section_table_def)
qed

definition symbol_value :: "elf_file \<Rightarrow> string \<Rightarrow> nat option" where
  \<comment> \<open>the value of the first defined symbol of that name\<close>
  "symbol_value E name = map_of (List.map_filter (\<lambda>s. map_option (Pair (sym_name s)) (sym_value s)) (elf_symbols E)) name"

lemma split_symbol_row:
  assumes "text_word [sym_type s]" "text_word (sym_name s)"
  shows "py_split (symbol_row w s) =
    (case sym_value s of None \<Rightarrow> [] | Some v \<Rightarrow> [pad0 w (digits 16 v)]) @ [[sym_type s], sym_name s]"
proof (cases "sym_value s")
  case None
  then show ?thesis unfolding symbol_row_def by (simp only: option.case) (subst split_columns, use assms in simp_all)
next
  case (Some v)
  then show ?thesis unfolding symbol_row_def by (simp only: option.case) (subst split_columns, use assms in \<open>simp_all add: pad0_word\<close>)
qed

lemma symbol_row_no_break:
  assumes "text_word [sym_type s]" "text_word (sym_name s)"
  shows "\<forall>c \<in> set (symbol_row w s). \<not> is_linebreak c"
proof (cases "sym_value s")
  case None
  then show ?thesis unfolding symbol_row_def using assms by (simp only: option.case) (intro columns_no_break, simp)
next
  case (Some v)
  then show ?thesis unfolding symbol_row_def using assms pad0_word by (simp only: option.case) (intro columns_no_break, simp)
qed

lemma find_symbol_rows:
  "list_all (\<lambda>s. text_word [sym_type s] \<and> text_word (sym_name s)) ss \<Longrightarrow>
   find_symbol name (map (symbol_row w) ss) =
     (case map_of (List.map_filter (\<lambda>s. map_option (Pair (sym_name s)) (sym_value s)) ss) name of None \<Rightarrow> Inl ValueError | Some v \<Rightarrow> Inr (int v))"
proof (induction ss)
  case (Cons s ss)
  then show ?case
    using split_symbol_row [of s w] pad0_value by (cases "sym_value s") (auto simp: Let_def List.map_filter_def)
qed (simp add: List.map_filter_def)

lemma symbol_value_read:
  assumes "wf_elf secs E"
  shows "get_symbol (tools_of E) name = (case symbol_value E name of None \<Rightarrow> Inl ValueError | Some v \<Rightarrow> Inr (int v))"
proof -
  have s: "list_all (\<lambda>s. text_word [sym_type s] \<and> text_word (sym_name s)) (elf_symbols E)" using assms by (simp add: wf_elf_def)
  then have "py_splitlines (join_lines (map (symbol_row (elf_digits E)) (elf_symbols E))) = map (symbol_row (elf_digits E)) (elf_symbols E)"
    using symbol_row_no_break by (intro splitlines_join) (auto simp: list_all_iff)
  then show ?thesis using find_symbol_rows [OF s, of name] by (simp add: get_symbol_def tools_of_def symbol_value_def)
qed

end
