(* ===== verification/Elf2mem_Props.thy ===== *)
theory Elf2mem_Props
  imports Elf_Listing Debugger_Props
begin

text \<open>Every section ends up at its address, the images have the requested size, and they are read back byte for byte; every failure is the one
  of the first check that does not hold.\<close>

section \<open>Loads\<close>

text \<open>A load is an address with the bytes placed there.\<close>

definition load_range :: "int \<times> int list \<Rightarrow> int set" where
  "load_range l = {fst l ..< fst l + int (length (snd l))}"

definition put :: "int list \<Rightarrow> int \<times> int list \<Rightarrow> int list" where
  "put m l = slice_set m (fst l) (fst l + int (length (snd l))) (snd l)"

definition image_byte :: "(int \<times> int list) list \<Rightarrow> nat \<Rightarrow> int" where
  \<comment> \<open>the byte of the last load that covers the address, zero when there is none\<close>
  "image_byte ls i = (case find (\<lambda>l. fst l \<le> int i \<and> int i < fst l + int (length (snd l))) (rev ls) of
     None \<Rightarrow> 0 | Some l \<Rightarrow> snd l ! (i - nat (fst l)))"

definition load_image :: "int \<Rightarrow> (int \<times> int list) list \<Rightarrow> int list" where
  "load_image n ls = map (image_byte ls) [0 ..< nat n]"

definition section_loads :: "elf_tools \<Rightarrow> string list \<Rightarrow> (int \<times> int list) list result" where
  \<comment> \<open>the nonempty sections with their addresses\<close>
  "section_loads tools secs =
     rbind (rtraverse (\<lambda>sec. rbind (extract_raw tools sec) (\<lambda>raw.
         if raw = [] then Inr [] else rbind (get_section_vma tools sec) (\<lambda>v.
           case v of None \<Rightarrow> Inl ValueError | Some vma \<Rightarrow> Inr [(vma, raw)]))) secs) (\<lambda>ls. Inr (concat ls))"

lemma put_eq:
  assumes "0 \<le> fst l" "fst l + int (length (snd l)) \<le> int (length m)"
  shows "put m l = take (nat (fst l)) m @ snd l @ drop (nat (fst l) + length (snd l)) m"
  using assms by (simp add: put_def slice_set_def Let_def nat_add_distrib)

lemma length_put: "0 \<le> fst l \<Longrightarrow> fst l + int (length (snd l)) \<le> int (length m) \<Longrightarrow> length (put m l) = length m"
  by (simp add: put_eq)

lemma put_nth:
  assumes "0 \<le> fst l" "fst l + int (length (snd l)) \<le> int (length m)" "i < length m"
  shows "put m l ! i = (if int i \<in> load_range l then snd l ! (i - nat (fst l)) else m ! i)"
  using assms by (auto simp: put_eq load_range_def nth_append not_less)

lemma puts_image:
  "\<forall>l \<in> set ls. 0 \<le> fst l \<and> fst l + int (length (snd l)) \<le> n \<Longrightarrow> foldl put (replicate (nat n) 0) ls = load_image n ls"
proof (induction ls rule: rev_induct)
  case Nil
  show ?case by (rule nth_equalityI) (simp_all add: load_image_def image_byte_def)
next
  case (snoc l ls)
  let ?m = "load_image n ls"
  have l: "0 \<le> fst l" "fst l + int (length (snd l)) \<le> int (length ?m)" using snoc(2) by (auto simp: load_image_def)
  have "put ?m l = load_image n (ls @ [l])"
  proof (rule nth_equalityI)
    show "length (put ?m l) = length (load_image n (ls @ [l]))" using length_put [OF l] by (simp add: load_image_def)
    show "put ?m l ! i = load_image n (ls @ [l]) ! i" if "i < length (put ?m l)" for i
      using that put_nth [OF l, of i] length_put [OF l] by (auto simp: load_image_def image_byte_def load_range_def)
  qed
  then show ?case using snoc by simp
qed

section \<open>The converter\<close>

lemma place_sections_loads:
  "place_sections tools n secs m = Inr m' \<longleftrightarrow> (\<exists>ls. section_loads tools secs = Inr ls \<and>
     (\<forall>l \<in> set ls. fst l + int (length (snd l)) \<le> n) \<and> m' = foldl put m ls)"
proof (induction secs arbitrary: m)
  case (Cons sec secs)
  show ?case
  proof (cases "extract_raw tools sec")
    case (Inr raw)
    show ?thesis
    proof (cases "raw = []")
      case True
      then show ?thesis using Inr Cons by (auto simp: section_loads_def)
    next
      case False
      then show ?thesis using Inr Cons by (cases "get_section_vma tools sec") (force simp: section_loads_def put_def split: option.splits)+
    qed
  qed (simp add: section_loads_def)
qed (auto simp: section_loads_def)

lemma place_blobs_loads:
  "place_blobs n ls m = Inr m' \<longleftrightarrow> (\<forall>l \<in> set ls. fst l + int (length (snd l)) \<le> n) \<and> m' = foldl put m ls"
  by (induction n ls m rule: place_blobs.induct) (auto simp: put_def)

definition data_loads :: "elf_tools \<Rightarrow> (int \<times> int list) list result" where
  \<comment> \<open>the two data sections with the addresses of their symbols\<close>
  "data_loads tools =
     rbind (extract_raw tools ''.rodata'') (\<lambda>r. rbind (extract_raw tools ''.data'') (\<lambda>d.
     rbind (if r \<noteq> [] then get_symbol tools ''_rodata_start'' else Inr 0) (\<lambda>ro.
     rbind (if d \<noteq> [] then get_symbol tools ''_data_start'' else Inr 0) (\<lambda>do. Inr [(ro, r), (do, d)]))))"

lemma rbind_assoc: "rbind (rbind r f) g = rbind r (\<lambda>x. rbind (f x) g)"
  by (cases r) auto

lemma elf2mem_Inr:
  "elf2mem tools isize dsize secs = Inr (itext, dtext) \<longleftrightarrow>
     (\<exists>iloads dloads. 0 \<le> isize \<and> 0 \<le> dsize \<and> section_loads tools (split_on (CHR '','') secs) = Inr iloads \<and> data_loads tools = Inr dloads \<and>
        (\<forall>l \<in> set iloads. fst l + int (length (snd l)) \<le> isize) \<and> (\<forall>l \<in> set dloads. fst l + int (length (snd l)) \<le> dsize) \<and>
        itext = mem_lines (foldl put (replicate (nat isize) 0) iloads) \<and> dtext = mem_lines (foldl put (replicate (nat dsize) 0) dloads))"
proof -
  have "elf2mem tools isize dsize secs =
      rbind (bytearray isize) (\<lambda>z. rbind (place_sections tools isize (split_on (CHR '','') secs) z) (\<lambda>imem.
      rbind (data_loads tools) (\<lambda>ls. rbind (bytearray dsize) (\<lambda>z. rbind (place_blobs dsize ls z) (\<lambda>dmem. Inr (mem_lines imem, mem_lines dmem))))))"
    unfolding elf2mem_def data_loads_def rbind_assoc rbind_simps ..
  then show ?thesis unfolding rbind_eq_Inr bytearray_def place_sections_loads place_blobs_loads by (auto simp: place_sections_loads place_blobs_loads split: if_splits)
qed

lemma all_fit_put: "all_fit 8 m \<Longrightarrow> all_fit 8 (snd l) \<Longrightarrow> all_fit 8 (put m l)"
  by (auto simp: all_fit_def list_all_iff put_def slice_set_def Let_def dest: in_set_takeD in_set_dropD)

lemma all_fit_puts: "\<forall>l \<in> set ls. all_fit 8 (snd l) \<Longrightarrow> all_fit 8 m \<Longrightarrow> all_fit 8 (foldl put m ls)"
  by (induction ls arbitrary: m) (simp_all add: all_fit_put)

fun le_words :: "int list \<Rightarrow> int list" where
  \<comment> \<open>the complete little-endian words of a byte list\<close>
  "le_words (a # b # c # d # r) = (a + 2 ^ 8 * b + 2 ^ 16 * c + 2 ^ 24 * d) # le_words r"
| "le_words r = []"

lemma le_word:
  assumes "fits 8 a" "fits 8 b" "fits 8 c" "fits 8 d"
  shows "fits 32 (a + 2 ^ 8 * b + 2 ^ 16 * c + 2 ^ 24 * d)" "word_bytes (a + 2 ^ 8 * b + 2 ^ 16 * c + 2 ^ 24 * d) = [a, b, c, d]"
proof -
  have r: "0 \<le> x \<and> x < 256" if "fits 8 x" for x using that by (simp add: fits_def)
  note r = r [OF assms(1)] r [OF assms(2)] r [OF assms(3)] r [OF assms(4)]
  then show "fits 32 (a + 2 ^ 8 * b + 2 ^ 16 * c + 2 ^ 24 * d)" by (auto simp: fits_def)
  have h: "a + 2 ^ 8 * b + 2 ^ 16 * c + 2 ^ 24 * d = a + 256 * (b + 256 * (c + 256 * d))" by simp
  have m: "x AND 0xFF = x mod 256" "drop_bit 8 x = x div 256" "drop_bit 16 x = x div 256 div 256" "drop_bit 24 x = x div 256 div 256 div 256" for x :: int
    by (simp_all add: mask_simps take_bit_eq_mod drop_bit_eq_div flip: zdiv_zmult2_eq)
  have p: "(x + 256 * y) mod 256 = x" "(x + 256 * y) div 256 = y" if "0 \<le> x \<and> x < 256" for x y :: int using that by simp_all
  then show "word_bytes (a + 2 ^ 8 * b + 2 ^ 16 * c + 2 ^ 24 * d) = [a, b, c, d]" 
    unfolding h word_bytes_def m p [OF r(1)] p [OF r(2)] p [OF r(3)] using r(4) by simp
qed

lemma group_le_words: "all_fit 8 m \<Longrightarrow> group_words (map (format_b 8) m) = Inr (le_words m)"
proof (induction m rule: le_words.induct)
  case (1 a b c d r)
  then have f: "fits 8 a" "fits 8 b" "fits 8 c" "fits 8 d" "all_fit 8 r" by (simp_all add: all_fit_def)
  have "group_words (map (format_b 8) (concat (map word_bytes [a + 2 ^ 8 * b + 2 ^ 16 * c + 2 ^ 24 * d])) @ map (format_b 8) r) =
      Inr ([a + 2 ^ 8 * b + 2 ^ 16 * c + 2 ^ 24 * d] @ le_words r)"
    using le_word(1) [OF f(1-4)] 1(1) [OF f(5)] by (subst group_words_bytes) (simp_all add: all_fit_def)
  then show ?case using le_word(2) [OF f(1-4)] by simp
qed simp_all

lemma byte_lines: "filter (\<lambda>l. l \<noteq> []) (map py_strip (text_lines (mem_lines m))) = map (format_b 8) m"
proof -
  have n: "\<forall>l \<in> set (map (format_b 8) m). CHR 0x0A \<notin> set l" using format_b_binary [of 8] by fastforce
  have "text_lines (mem_lines m) = map (format_b 8) m"
    using text_lines_concat [OF n] by (simp only: mem_lines_def map_map comp_def)
  moreover have "py_strip (format_b 8 b) = format_b 8 b" for b
    by (rule strip_id) (use format_b_binary [of 8 b] in \<open>auto simp: py_isspace_def\<close>)
  moreover have "format_b 8 b \<noteq> []" for b using bin_digits_nonempty by (simp add: format_b_def Let_def)
  ultimately show ?thesis by (simp add: comp_def filter_id_conv)
qed

lemma load_mem_lines: "all_fit 8 m \<Longrightarrow> load_words (mem_lines m) = Inr (le_words m)"
  using group_le_words by (simp add: load_words_def byte_lines)

lemma loads_bytes:
  assumes "\<forall>sec b. objcopy tools sec = Some b \<longrightarrow> all_fit 8 b"
  shows "section_loads tools secs = Inr ls \<Longrightarrow> \<forall>l \<in> set ls. all_fit 8 (snd l)" "data_loads tools = Inr ls \<Longrightarrow> \<forall>l \<in> set ls. all_fit 8 (snd l)"
proof -
  have e: "extract_raw tools sec = Inr raw \<Longrightarrow> all_fit 8 raw" for sec raw using assms by (auto simp: extract_raw_def split: option.splits)
  show "data_loads tools = Inr ls \<Longrightarrow> \<forall>l \<in> set ls. all_fit 8 (snd l)" using e by (auto simp: data_loads_def)
  show "section_loads tools secs = Inr ls \<Longrightarrow> \<forall>l \<in> set ls. all_fit 8 (snd l)"
  proof (induction secs arbitrary: ls)
    case (Cons sec secs)
    then show ?case using e [of sec] by (fastforce simp: section_loads_def split: if_splits option.splits)
  qed (simp add: section_loads_def)
qed

section \<open>Failures\<close>

lemma int_digits_Inl: "int_digits b acc prev s = Inl e \<Longrightarrow> e = ValueError"
  by (induction b acc prev s rule: int_digits.induct) (auto split: if_splits option.splits)

lemma py_int16_Inl: "py_int16 s = Inl e \<Longrightarrow> e = ValueError"
proof -
  have "int_signed b u s = Inl e \<Longrightarrow> e = ValueError" for b u
    by (auto simp: int_signed_def rbind_eq_Inl simp del: int_digits.simps split: list.splits if_splits dest: int_digits_Inl)
  then show "py_int16 s = Inl e \<Longrightarrow> e = ValueError" unfolding py_int16_def .
qed

text \<open>
  The checks of a conversion, in the order in which they are made, each with the exception it raises. A tool is called only when its
  answer is needed: \<open>objdump\<close> for a section with content, \<open>nm\<close> for a data section with content.
\<close>

type_synonym check = "bool \<times> py_error"

definition raw_bytes :: "elf_tools \<Rightarrow> string \<Rightarrow> int list" where
  "raw_bytes tools sec = (case objcopy tools sec of None \<Rightarrow> [] | Some b \<Rightarrow> b)"

definition listed_number :: "(string list \<Rightarrow> bool) \<Rightarrow> nat \<Rightarrow> string option \<Rightarrow> int option" where
  \<comment> \<open>the hexadecimal number in column \<open>k\<close> of the first line whose words satisfy \<open>P\<close>\<close>
  "listed_number P k out =
     (case find P (map py_split (py_splitlines (case out of None \<Rightarrow> [] | Some t \<Rightarrow> t))) of
        None \<Rightarrow> None
      | Some parts \<Rightarrow> (case py_int16 (parts ! k) of Inl e \<Rightarrow> None | Inr v \<Rightarrow> Some v))"

definition section_address :: "elf_tools \<Rightarrow> string \<Rightarrow> int option" where
  "section_address tools sec = listed_number (\<lambda>parts. 4 \<le> length parts \<and> parts ! 1 = sec) 3 (objdump_h tools)"

definition symbol_address :: "elf_tools \<Rightarrow> string \<Rightarrow> int option" where
  "symbol_address tools name = listed_number (\<lambda>parts. 3 \<le> length parts \<and> last parts = name) 0 (nm_out tools)"

definition section_checks :: "elf_tools \<Rightarrow> int \<Rightarrow> string \<Rightarrow> check list" where
  "section_checks tools n sec =
     (objcopy tools sec \<noteq> None, RuntimeError) #
     (if raw_bytes tools sec = [] then []
      else [(objdump_h tools \<noteq> None, RuntimeError), (section_address tools sec \<noteq> None, ValueError),
        (the (section_address tools sec) + int (length (raw_bytes tools sec)) \<le> n, ValueError)])"

definition symbol_checks :: "elf_tools \<Rightarrow> string \<Rightarrow> string \<Rightarrow> check list" where
  "symbol_checks tools sec name =
     (if raw_bytes tools sec = [] then [] else [(nm_out tools \<noteq> None, RuntimeError), (symbol_address tools name \<noteq> None, ValueError)])"

definition blob_check :: "elf_tools \<Rightarrow> int \<Rightarrow> string \<Rightarrow> string \<Rightarrow> check" where
  "blob_check tools n sec name =
     ((if raw_bytes tools sec = [] then 0 else the (symbol_address tools name)) + int (length (raw_bytes tools sec)) \<le> n, ValueError)"

definition elf2mem_checks :: "elf_tools \<Rightarrow> int \<Rightarrow> int \<Rightarrow> string \<Rightarrow> check list" where
  "elf2mem_checks tools isize dsize secs =
     [(0 \<le> isize, ValueError)] @ concat (map (section_checks tools isize) (split_on (CHR '','') secs)) @
     [(objcopy tools ''.rodata'' \<noteq> None, RuntimeError)] @ [(objcopy tools ''.data'' \<noteq> None, RuntimeError)] @
     symbol_checks tools ''.rodata'' ''_rodata_start'' @ symbol_checks tools ''.data'' ''_data_start'' @ [(0 \<le> dsize, ValueError)] @
     [blob_check tools dsize ''.rodata'' ''_rodata_start'', blob_check tools dsize ''.data'' ''_data_start'']"

definition outcome :: "'a result \<Rightarrow> check list \<Rightarrow> bool" where
  \<comment> \<open>the exception of the first check that fails, a value when all hold\<close>
  "outcome r cs \<longleftrightarrow> (case find (\<lambda>c. \<not> fst c) cs of Some c \<Rightarrow> r = Inl (snd c) | None \<Rightarrow> (\<exists>v. r = Inr v))"

lemma find_append: "find P (xs @ ys) = (case find P xs of None \<Rightarrow> find P ys | Some x \<Rightarrow> Some x)"
  by (induction xs) auto

lemma outcome_simps [simp]:
  "outcome r [] \<longleftrightarrow> (\<exists>v. r = Inr v)" "outcome r ((True, e) # cs) \<longleftrightarrow> outcome r cs" "outcome r ((False, e) # cs) \<longleftrightarrow> r = Inl e"
  by (simp_all add: outcome_def)

lemma outcome_rbind: "outcome r cs \<Longrightarrow> (\<And>v. r = Inr v \<Longrightarrow> outcome (f v) ds) \<Longrightarrow> outcome (rbind r f) (cs @ ds)"
  by (cases "find (\<lambda>c. \<not> fst c) cs") (auto simp: outcome_def find_append split: option.splits)

lemma find_vma_listed:
  "find_vma sec ls = (case find (\<lambda>parts. 4 \<le> length parts \<and> parts ! 1 = sec) (map py_split ls) of
     None \<Rightarrow> Inr None | Some parts \<Rightarrow> rbind (py_int16 (parts ! 3)) (\<lambda>v. Inr (Some v)))"
  by (induction ls) (auto simp: Let_def)

lemma find_symbol_listed:
  "find_symbol name ls = (case find (\<lambda>parts. 3 \<le> length parts \<and> last parts = name) (map py_split ls) of
     None \<Rightarrow> Inl ValueError | Some parts \<Rightarrow> py_int16 (parts ! 0))"
  by (induction ls) (auto simp: Let_def)

lemma section_vma_checked:
  "objdump_h tools \<noteq> None \<Longrightarrow> rbind (get_section_vma tools sec) (\<lambda>v. case v of None \<Rightarrow> Inl ValueError | Some vma \<Rightarrow> f vma) =
     (case section_address tools sec of None \<Rightarrow> Inl ValueError | Some vma \<Rightarrow> f vma)"
  by (auto simp: get_section_vma_def section_address_def listed_number_def find_vma_listed dest: py_int16_Inl split: option.splits sum.splits)

lemma outcome_symbol:
  "outcome (if raw_bytes tools sec \<noteq> [] then get_symbol tools name else Inr 0) (symbol_checks tools sec name)"
  by (auto simp: outcome_def symbol_checks_def get_symbol_def symbol_address_def listed_number_def find_symbol_listed dest: py_int16_Inl
      split: option.splits sum.splits)

lemma symbol_checked:
  "(if raw_bytes tools sec \<noteq> [] then get_symbol tools name else Inr 0) = Inr v \<Longrightarrow>
   v = (if raw_bytes tools sec = [] then 0 else the (symbol_address tools name))"
  by (auto simp: get_symbol_def symbol_address_def listed_number_def find_symbol_listed split: option.splits if_splits)

lemma outcome_raw: "outcome (extract_raw tools sec) [(objcopy tools sec \<noteq> None, RuntimeError)]"
  by (auto simp: outcome_def extract_raw_def split: option.splits)

lemma raw_checked: "extract_raw tools sec = Inr raw \<Longrightarrow> raw = raw_bytes tools sec"
  by (auto simp: extract_raw_def raw_bytes_def split: option.splits)

lemma outcome_sections: "outcome (place_sections tools n secs m) (concat (map (section_checks tools n) secs))"
proof (induction secs arbitrary: m)
  case (Cons sec secs)
  show ?case
  proof (cases "objcopy tools sec")
    case (Some raw)
    let ?cs = "concat (map (section_checks tools n) secs)"
    have e: "extract_raw tools sec = Inr raw" "raw_bytes tools sec = raw" using Some by (simp_all add: extract_raw_def raw_bytes_def)
    show ?thesis
    proof (cases "raw = [] \<or> objdump_h tools = None")
      case True
      then show ?thesis using Some e Cons by (auto simp: section_checks_def get_section_vma_def)
    next
      case False
      then have o: "objdump_h tools \<noteq> None" "raw \<noteq> []" by auto
      then show ?thesis
        using Some e Cons by (cases "section_address tools sec") (auto simp: section_checks_def section_vma_checked [OF o(1)] not_less)
    qed
  qed (simp add: section_checks_def extract_raw_def)
qed simp

lemma outcome_blobs:
  "outcome (place_blobs n ls m) (map (\<lambda>l. (fst l + int (length (snd l)) \<le> n, ValueError)) ls)"
  by (induction n ls m rule: place_blobs.induct) (auto simp: not_less)

lemma outcome_bytearray: "outcome (bytearray n) [(0 \<le> n, ValueError)]"
  by (auto simp: outcome_def bytearray_def)

lemma outcome_data:
  assumes "r = raw_bytes tools ''.rodata''" "d = raw_bytes tools ''.data''"
    and "(if r \<noteq> [] then get_symbol tools ''_rodata_start'' else Inr 0) = Inr ro"
    and "(if d \<noteq> [] then get_symbol tools ''_data_start'' else Inr 0) = Inr dof"
  shows "outcome (rbind (place_blobs n [(ro, r), (dof, d)] z) (\<lambda>m. Inr (f m)))
    [blob_check tools n ''.rodata'' ''_rodata_start'', blob_check tools n ''.data'' ''_data_start'']"
proof -
  have "outcome (rbind (place_blobs n [(ro, r), (dof, d)] z) (\<lambda>m. Inr (f m)))
      (map (\<lambda>l. (fst l + int (length (snd l)) \<le> n, ValueError)) [(ro, r), (dof, d)] @ [])"
    by (rule outcome_rbind [OF outcome_blobs]) simp
  moreover have "ro = (if r = [] then 0 else the (symbol_address tools ''_rodata_start''))"
    "dof = (if d = [] then 0 else the (symbol_address tools ''_data_start''))"
    using symbol_checked assms by blast+
  ultimately show ?thesis unfolding blob_check_def assms(1,2) [symmetric] by simp
qed

lemma elf2mem_checked: "outcome (elf2mem tools isize dsize secs) (elf2mem_checks tools isize dsize secs)"
  unfolding elf2mem_def elf2mem_checks_def
proof (intro outcome_rbind outcome_bytearray outcome_sections outcome_raw, goal_cases)
  case (1 z imem r d)
  then show ?case using outcome_symbol [of tools "''.rodata''"] raw_checked by metis
next
  case (2 z imem r d ro)
  then show ?case using outcome_symbol [of tools "''.data''"] raw_checked by metis
next
  case (3 z imem r d ro dof zd)
  then show ?case by (intro outcome_data raw_checked)
qed

text \<open>C19. The converter makes its checks in order: a nonnegative instruction size; for each listed section that \<open>objcopy\<close> succeeds and, when
  the section has content, that \<open>objdump\<close> succeeds, that its table has a readable address for the section and that the section ends within
  the region; that \<open>objcopy\<close> succeeds on the data sections and, for those with content, that \<open>nm\<close> succeeds and has a readable symbol; a
  nonnegative data size; that both blobs fit. It fails exactly with the exception of the first check that does not hold, \<open>RuntimeError\<close> for a
  tool and \<open>ValueError\<close> otherwise, and writes both files exactly when all hold.\<close>

theorem elf2mem_outcome:
  "case find (\<lambda>c. \<not> fst c) (elf2mem_checks tools isize dsize secs) of
     Some c \<Rightarrow> elf2mem tools isize dsize secs = Inl (snd c)
   | None \<Rightarrow> (\<exists>files. elf2mem tools isize dsize secs = Inr files)"
  using elf2mem_checked unfolding outcome_def .

section \<open>Images of an ELF file\<close>

definition section_places :: "elf_file \<Rightarrow> string list \<Rightarrow> (int \<times> int list) list" where
  \<comment> \<open>the listed sections with content, at their VMA\<close>
  "section_places E secs = concat (map (\<lambda>sec. case find_section E sec of None \<Rightarrow> []
     | Some s \<Rightarrow> if sec_bytes s = [] then [] else [(int (sec_vma s), sec_bytes s)]) secs)"

definition data_place :: "elf_file \<Rightarrow> string \<Rightarrow> string \<Rightarrow> (int \<times> int list) option" where
  \<comment> \<open>a data section at the value of its symbol; an empty one needs no symbol\<close>
  "data_place E sec name = (if section_content E sec = [] then Some (0, [])
     else map_option (\<lambda>v. (int v, section_content E sec)) (symbol_value E name))"

definition data_places :: "elf_file \<Rightarrow> (int \<times> int list) list option" where
  "data_places E = (case (data_place E ''.rodata'' ''_rodata_start'', data_place E ''.data'' ''_data_start'') of
     (Some r, Some d) \<Rightarrow> Some [r, d] | _ \<Rightarrow> None)"

definition fits_in :: "int \<Rightarrow> (int \<times> int list) list \<Rightarrow> bool" where
  "fits_in n ls \<longleftrightarrow> 0 \<le> n \<and> list_all (\<lambda>l. fst l + int (length (snd l)) \<le> n) ls"

lemma section_loads_elf:
  assumes "wf_elf names E" "\<forall>t \<in> set names. CHR '','' \<notin> set t" "set secs \<subseteq> set names"
  shows "section_loads (tools_of E) secs = Inr (section_places E secs)"
  using assms(3)
proof (induction secs)
  case (Cons sec secs)
  then have v: "get_section_vma (tools_of E) sec = Inr (map_option (int \<circ> sec_vma) (find_section E sec))"
    using section_vma [OF assms(1) _ assms(2)] by simp
  have r: "extract_raw (tools_of E) sec = Inr (section_content E sec)" by (simp add: extract_raw_def tools_of_def)
  show ?case
    using Cons v r by (cases "find_section E sec") (auto simp: section_loads_def section_places_def section_content_def)
qed (simp add: section_loads_def section_places_def)

lemma data_loads_elf:
  assumes "wf_elf names E"
  shows "data_loads (tools_of E) = (case data_places E of None \<Rightarrow> Inl ValueError | Some ls \<Rightarrow> Inr ls)"
proof -
  have r: "extract_raw (tools_of E) sec = Inr (section_content E sec)" for sec by (simp add: extract_raw_def tools_of_def)
  show ?thesis
    unfolding data_loads_def r rbind_simps symbol_value_read [OF assms] data_places_def data_place_def
    by (auto split: option.splits)
qed

lemma places_nonneg: "l \<in> set (section_places E secs) \<Longrightarrow> 0 \<le> fst l" "data_places E = Some ls \<Longrightarrow> l \<in> set ls \<Longrightarrow> 0 \<le> fst l"
  by (auto simp: section_places_def data_places_def data_place_def split: option.splits if_splits)

lemma elf_bytes:
  assumes "wf_elf names E"
  shows "\<forall>sec b. objcopy (tools_of E) sec = Some b \<longrightarrow> all_fit 8 b"
proof -
  have "all_fit 8 (sec_bytes s)" if "find_section E sec = Some s" for sec s
    using that assms by (auto simp: find_section_def wf_elf_def list_all_iff find_Some_iff)
  then show ?thesis by (auto simp: tools_of_def section_content_def all_fit_def split: option.splits)
qed

lemma tools_of_checks:
  assumes "elf2mem (tools_of E) isize dsize secs = Inl e"
  shows "e = ValueError"
proof -
  have "\<forall>c \<in> set (elf2mem_checks (tools_of E) isize dsize secs). fst c \<or> snd c = ValueError"
    by (auto simp: elf2mem_checks_def section_checks_def symbol_checks_def blob_check_def tools_of_def split: if_splits)
  then show ?thesis
    using elf2mem_checked [of "tools_of E" isize dsize secs] assms by (auto simp: outcome_def find_Some_iff split: option.splits)
qed

lemma load_image_bytes:
  assumes "\<forall>l \<in> set ls. all_fit 8 (snd l)" "\<forall>l \<in> set ls. 0 \<le> fst l" "fits_in n ls"
  shows "all_fit 8 (load_image n ls)" "foldl put (replicate (nat n) 0) ls = load_image n ls"
proof -
  show e: "foldl put (replicate (nat n) 0) ls = load_image n ls" using assms(2,3) by (intro puts_image) (auto simp: fits_in_def list_all_iff)
  have "all_fit 8 (replicate (nat n) 0)" by (simp add: all_fit_def fits_def list_all_iff)
  then show "all_fit 8 (load_image n ls)" unfolding e [symmetric] using assms(1) by (rule all_fit_puts [rotated])
qed

text \<open>C13. On the output of the binary tools for an ELF file, the converter succeeds exactly when the sizes are nonnegative, the data sections
  with content have their symbols and everything fits. Byte for byte the instruction image then holds the listed sections at the VMA column of
  the section table, and the data image \<open>.rodata\<close> and \<open>.data\<close> at the values of their symbols: each byte is that of the last section
  placed over it, zero where there is none. Otherwise it raises \<open>ValueError\<close>. Reading the images back gives their little-endian words.\<close>

theorem elf_image_placed:
  assumes "wf_elf (split_on (CHR '','') secs) E"
    and binutils_output: "tools = tools_of E"
    and "iloads = section_places E (split_on (CHR '','') secs)"
  shows "elf2mem tools isize dsize secs = (case data_places E of None \<Rightarrow> Inl ValueError
      | Some dloads \<Rightarrow> if fits_in isize iloads \<and> fits_in dsize dloads
          then Inr (mem_lines (load_image isize iloads), mem_lines (load_image dsize dloads)) else Inl ValueError) \<and>
    (\<forall>itext dtext. elf2mem tools isize dsize secs = Inr (itext, dtext) \<longrightarrow>
      (\<exists>dloads. data_places E = Some dloads \<and> load_words itext = Inr (le_words (load_image isize iloads)) \<and>
        load_words dtext = Inr (le_words (load_image dsize dloads))))"
proof -
  let ?r = "elf2mem (tools_of E) isize dsize secs"
  have comma: "\<forall>t \<in> set (split_on (CHR '','') secs). CHR '','' \<notin> set t" using split_on_no_sep by blast
  have il: "section_loads (tools_of E) (split_on (CHR '','') secs) = Inr iloads"
    using section_loads_elf [OF assms(1) comma subset_refl] assms(3) by simp
  note dl = data_loads_elf [OF assms(1)]
  note b = elf_bytes [OF assms(1)]
  have iff: "?r = Inr (itext, dtext) \<longleftrightarrow> (\<exists>dloads. data_places E = Some dloads \<and> fits_in isize iloads \<and> fits_in dsize dloads \<and>
      itext = mem_lines (foldl put (replicate (nat isize) 0) iloads) \<and> dtext = mem_lines (foldl put (replicate (nat dsize) 0) dloads))" for itext dtext
    unfolding elf2mem_Inr il dl by (auto simp: fits_in_def list_all_iff split: option.splits)
  have i: "all_fit 8 (load_image isize iloads)" "foldl put (replicate (nat isize) 0) iloads = load_image isize iloads" if "fits_in isize iloads"
    using load_image_bytes [of iloads isize] loads_bytes(1) [OF b il] places_nonneg(1) that assms(3) by auto
  have d: "all_fit 8 (load_image dsize dloads)" "foldl put (replicate (nat dsize) 0) dloads = load_image dsize dloads"
    if "data_places E = Some dloads" "fits_in dsize dloads" for dloads
    using load_image_bytes [of dloads dsize] loads_bytes(2) [OF b, of dloads] places_nonneg(2) [OF that(1)] that dl by auto
  show ?thesis
  proof (cases "\<exists>dloads. data_places E = Some dloads \<and> fits_in isize iloads \<and> fits_in dsize dloads")
    case True
    then show ?thesis using iff i d load_mem_lines unfolding assms(2) by auto
  next
    case False
    then have "?r \<noteq> Inr (itext, dtext)" for itext dtext using iff by blast
    then have "?r = Inl ValueError" using tools_of_checks [of E isize dsize secs] by (cases ?r) auto
    then show ?thesis using False unfolding assms(2) by (auto split: option.splits)
  qed
qed

definition sample_elf :: elf_tools where
  "sample_elf = \<lparr>objcopy = \<lambda>s. if s = ''.text'' then Some [0x6F, 0, 0, 0] else Some [],
     objdump_h = Some ''  1 .text 00000004 00000004 00000004 00001000 2**2'', nm_out = Some []\<rparr>"

lemma sample_elf_bytes: "\<forall>sec b. objcopy sample_elf sec = Some b \<longrightarrow> all_fit 8 b"
  by (auto simp: sample_elf_def all_fit_def fits_def)

text \<open>A file with two overlapping code sections and a data section.\<close>

definition sample_file :: elf_file where
  "sample_file = \<lparr>elf_digits = 8, elf_heading = [[], ''a.elf:     file format elf32-littleriscv'', ''Idx Name          Size      VMA       LMA''],
     elf_sections =
       [\<lparr>sec_name = ''.text.init'', sec_bytes = [1, 2, 3, 4], sec_size = 4, sec_vma = 0, sec_lma = 0, sec_off = 4096, sec_align = 2,
          sec_flags = [''CONTENTS'', ''ALLOC'', ''LOAD'', ''CODE'']\<rparr>,
        \<lparr>sec_name = ''.text'', sec_bytes = [0x6F, 0], sec_size = 2, sec_vma = 3, sec_lma = 8, sec_off = 4100, sec_align = 2,
          sec_flags = [''CONTENTS'', ''CODE'']\<rparr>,
        \<lparr>sec_name = ''.data'', sec_bytes = [9], sec_size = 1, sec_vma = 1, sec_lma = 16, sec_off = 4104, sec_align = 0, sec_flags = []\<rparr>],
     elf_symbols = [\<lparr>sym_value = None, sym_type = CHR ''U'', sym_name = ''_data_start''\<rparr>, \<lparr>sym_value = Some 1, sym_type = CHR ''D'', sym_name = ''_data_start''\<rparr>]\<rparr>"

theorem elf_image_placed_witness:
  "elf2mem (tools_of sample_file) 6 2 ''.text.init,.text'' = Inr (mem_lines [1, 2, 3, 0x6F, 0, 0], mem_lines [0, 9])"
proof -
  have "wf_elf (split_on (CHR '','') ''.text.init,.text'') sample_file" by code_simp
  moreover have "section_places sample_file (split_on (CHR '','') ''.text.init,.text'') = [(0, [1, 2, 3, 4]), (3, [0x6F, 0])]" by code_simp
  moreover have "data_places sample_file = Some [(0, []), (1, [9])]" by code_simp
  moreover have "fits_in 6 [(0, [1, 2, 3, 4]), (3, [0x6F, 0])]" "fits_in 2 [(0, []), (1, [9])]" by code_simp+
  moreover have "load_image 6 [(0, [1, 2, 3, 4]), (3, [0x6F, 0])] = [1, 2, 3, 0x6F, 0, 0]" "load_image 2 [(0, []), (1, [9])] = [0, 9]" by code_simp+
  ultimately show ?thesis
    using elf_image_placed [OF _ refl refl, of "''.text.init,.text''" sample_file 6 2] by simp
qed

end
