(* ===== verification/Read_Dump.thy ===== *)
theory Read_Dump
  imports Sim_Run Iss_Memory_Props
begin

text \<open>
  The dump reader \<open>sim/tools/read_dump.py\<close>: a state dump is 32 register lines and then one line per memory byte, in decimal; the reader
  prints little-endian values at addresses of the memory part. The command line's address lists are arguments.
\<close>

definition load_mem :: "string \<Rightarrow> int list result" where
  "load_mem file = rbind (read_ints (\<lambda>v. v AND 0xFF) file) (\<lambda>vals. Inr (drop 32 vals))"

definition py_slice :: "'a list \<Rightarrow> int \<Rightarrow> int \<Rightarrow> 'a list" where
  \<comment> \<open>\<open>xs[a:b]\<close>: a negative bound counts from the end, and bounds are clipped\<close>
  "py_slice xs a b =
     (let n = int (length xs);
          lo = (if a < 0 then max 0 (a + n) else min a n);
          hi = (if b < 0 then max 0 (b + n) else min b n)
      in take (nat (hi - lo)) (drop (nat lo) xs))"

definition read_le :: "int list \<Rightarrow> int \<Rightarrow> nat \<Rightarrow> bool \<Rightarrow> int" where
  "read_le m addr size_bytes is_signed =
     (let b = py_slice m addr (addr + int size_bytes);
          v = foldl (\<lambda>v (i, byte). v OR push_bit (8 * i) byte) 0 (enumerate 0 b)
      in if is_signed \<and> v AND 2 ^ (size_bytes * 8 - 1) \<noteq> 0 then v - 2 ^ (size_bytes * 8) else v)"

record dump_args =
  arg_u8 :: "int list"
  arg_i8 :: "int list"
  arg_u16 :: "int list"
  arg_u32 :: "int list"
  arg_count :: int

definition read_dump :: "dump_args \<Rightarrow> string \<Rightarrow> (int \<times> int) list result" where
  \<comment> \<open>the addresses and values printed, in order\<close>
  "read_dump args file =
     rbind (load_mem file) (\<lambda>m. Inr
       (concat (map (\<lambda>(size_bytes, is_signed, addrs).
          concat (map (\<lambda>addr. map (\<lambda>i. let a = addr + int i * int size_bytes in (a, read_le m a size_bytes is_signed)) [0..<nat (arg_count args)]) addrs))
          [(1, False, arg_u8 args), (1, True, arg_i8 args), (2, False, arg_u16 args), (4, False, arg_u32 args)])))"

end
