(* ===== verification/Read_Dump_Props.thy ===== *)
theory Read_Dump_Props
  imports Read_Dump Random_Gen_Const Random_Gen_Props
begin

text \<open>The dump reader reads what the simulator would load.\<close>

section \<open>Dumps of numbers\<close>

lemma py_int10_of_str: "py_int10 (py_str n) = Inr n"
proof -
  have "py_strip (CHR '' '' # py_str n) = py_strip (py_str n)" by (simp add: py_strip_def py_isspace_def)
  then show ?thesis using py_int10_str [of n] by (simp add: py_int10_def int_signed_def)
qed

lemma newline_space [simp]: "py_isspace (CHR 0x0A)"
  by code_simp

lemma read_ints_printed: "read_ints f (join_lines (map py_str xs)) = Inr (map f xs)"
proof -
  have p: "py_strip (py_str n) = py_str n" "py_str n \<noteq> []" "CHR 0x0A \<notin> set (py_str n)" for n
    using strip_id [of "py_str n"] py_str_chars [of _ n] py_str_chars [of "CHR 0x0A" n] by (auto simp: py_str_def newline_space)
  then have "text_lines (join_lines (map py_str xs)) = map py_str xs" by (intro text_join) auto
  then have "filter (\<lambda>l. l \<noteq> []) (map py_strip (text_lines (join_lines (map py_str xs)))) = map py_str xs"
    using p by (simp add: filter_id_conv comp_def)
  then have "read_ints f (join_lines (map py_str xs)) = rtraverse (\<lambda>l. rbind (py_int10 l) (\<lambda>v. Inr (f v))) (map py_str xs)"
    by (simp only: read_ints_def)
  also have "\<dots> = Inr (map f xs)" by (induction xs) (simp_all add: py_int10_of_str)
  finally show ?thesis .
qed

section \<open>Little-endian values\<close>

lemma foldl_enumerate:
  "foldl (\<lambda>v (i, b). v OR push_bit (8 * i) b) z (enumerate 0 xs) = foldl (\<lambda>v i. v OR push_bit (8 * i) (xs ! i)) z [0..<length xs]"
proof -
  have "enumerate 0 xs = map (\<lambda>i. (i, xs ! i)) [0..<length xs]" by (rule nth_equalityI) (simp_all add: nth_enumerate_eq)
  then show ?thesis by (simp add: foldl_map)
qed

lemma read_le_unsigned:
  assumes "0 \<le> a" "a + int n \<le> int (length m)"
  shows "read_le m a n False = foldl (\<lambda>v i. v OR push_bit (8 * i) (m ! (nat a + i))) 0 [0..<n]"
proof -
  have s: "py_slice m a (a + int n) = take n (drop (nat a) m)" using assms by (simp add: py_slice_def Let_def)
  have "length (take n (drop (nat a) m)) = n" using assms by simp
  then show ?thesis
    unfolding read_le_def s Let_def foldl_enumerate using assms by (auto intro!: foldl_cong)
qed

lemma memory_byte:
  assumes "wf_iss s" "mem_mask s = 2 ^ k - 1" "k \<le> 28" "0 \<le> a" "a < 2 ^ k"
  shows "load_mem_byte s a = mem s ! nat a"
proof -
  have "(2::int) ^ k \<le> 2 ^ 28" using assms(3) by (intro power_increasing) auto
  then have "a < 0x10000000" using assms(5) by simp
  moreover have "a AND (2 ^ k - 1) = a" using assms(4,5) by (simp add: and_mask_power take_bit_int_eq_self)
  ultimately show ?thesis using assms(2) by (simp add: load_mem_byte_def)
qed

text \<open>On the dump of a state (its registers and its memory, one decimal number per line) the reader's values are what the simulator's
  load instructions would load at the same address: \<open>--i8\<close> is LB, \<open>--u8\<close> LBU, \<open>--u16\<close> LHU and \<open>--u32\<close> LWU.\<close>

theorem dump_values_are_loads:
  assumes "wf_iss s" "mem_mask s = 2 ^ k - 1" "k \<le> 28" "0 \<le> a" "a + 4 \<le> 2 ^ k"
  shows "\<exists>m. load_mem (join_lines (map py_str (regs s @ mem s))) = Inr m \<and>
    load_value s a 0 = Inr (read_le m a 1 True) \<and> load_value s a 4 = Inr (read_le m a 1 False) \<and>
    load_value s a 5 = Inr (read_le m a 2 False) \<and> load_value s a 6 = Inr (read_le m a 4 False)"
proof -
  have b: "\<forall>v \<in> set (mem s). v AND 0xFF = v" using assms(1) by (auto simp: wf_iss_def all_fit_def list_all_iff fits_take_bit_eq mask_simps)
  have l: "load_mem (join_lines (map py_str (regs s @ mem s))) = Inr (mem s)"
    unfolding load_mem_def read_ints_printed using assms(1) b by (simp add: wf_iss_def map_idI)
  have len: "int (length (mem s)) = 2 ^ k" using assms(1,2) by (simp add: wf_iss_def)
  have cell: "load_mem_byte s (a + int i) = mem s ! (nat a + i)" if "i < 4" for i
    using memory_byte [OF assms(1-3), of "a + int i"] assms(4,5) that by (simp add: nat_add_distrib)
  have r: "read_le (mem s) a n False = foldl (\<lambda>v i. v OR push_bit (8 * i) (load_mem_byte s (a + int i))) 0 [0..<n]" if "n \<le> 4" for n
    using read_le_unsigned [of a n "mem s"] assms(4,5) len that cell by (auto intro!: foldl_cong)
  have one: "read_le (mem s) a 1 False = load_mem_byte s a" using r [of 1] by simp
  have f: "take_bit 8 (load_mem_byte s a) = load_mem_byte s a" using load_mem_byte_fits [OF assms(1)] by (simp add: fits_take_bit_eq)
  have "read_le (mem s) a 1 True = s32 (load_mem_byte s a OR (if load_mem_byte s a AND 0x80 \<noteq> 0 then 0xFFFFFF00 else 0))"
    using one sign_extended_load(1) [of "load_mem_byte s a"] signed_of_unsigned [of 8 "load_mem_byte s a"] f
      and_power_eq_0_iff [of "load_mem_byte s a" 7]
    by (cases "bit (load_mem_byte s a) 7") (simp_all add: read_le_def Let_def)
  then show ?thesis using l one r [of 2] r [of 4]
    by (simp add: load_value_def load_half_bytes load_word_bytes Let_def)
qed

theorem dump_values_are_loads_witness:
  "\<exists>m. load_mem (join_lines (map py_str (regs (iss_init 4096 32) @ mem (iss_init 4096 32)))) = Inr m \<and>
     load_value (iss_init 4096 32) 40 6 = Inr (read_le m 40 4 False)"
  using dump_values_are_loads [of "iss_init (2 ^ 12) 32" 12 40] wf_iss_init [of 12 32] by (auto simp: iss_init_def)

end
