(* ===== verification/Profiler.thy ===== *)
theory Profiler
  imports Sim_Run "HOL-Library.AList"
begin

text \<open>
  The performance profiler \<open>sim/tools/profiler.py\<close>: the static instruction mix of a kernel, the two instrumented versions of it that read
  the hardware counters, and the report computed from the registers their simulations leave. The Verilog tools, the template
  and the paths are parameters. The quotients of the report are exact rationals: the rounding of Python's division to a
  double is not modelled, nor is the printing.
\<close>

section \<open>Tables\<close>

definition MCYCLE :: int where "MCYCLE = 0xB00"

definition MINSTRET :: int where "MINSTRET = 0xB02"

definition MHPMCOUNTER3_BASE :: int where "MHPMCOUNTER3_BASE = 0xB03"

definition MHPMEVENT3_BASE :: int where "MHPMEVENT3_BASE = 0x323"

definition NUM_HPM :: nat where "NUM_HPM = 9"

definition STALL_CAUSE_NAMES :: "string list" where
  "STALL_CAUSE_NAMES = [''hazard'', ''div'', ''mem'', ''fp'', ''float_lu'', ''itlb'', ''dtlb'', ''icache'', ''imem_wait'']"

definition ORIGINAL_EVENT_NAMES :: "string list" where
  "ORIGINAL_EVENT_NAMES =
     [''branches_retired'', ''mispredicts'', ''icache_hit'', ''icache_miss'', ''dcache_hit'', ''dcache_miss'', ''stall_aggregate'',
      ''interrupts'', ''exceptions'']"

definition MIX_BUCKETS :: "(string \<times> string list) list" where
  "MIX_BUCKETS =
     [(''branch'', [''beq'', ''bne'', ''blt'', ''bge'', ''ble'', ''bgt'']),
      (''jump'', [''jal'', ''jalr'']),
      (''load'', [''lw'', ''lh'', ''lb'', ''lhu'', ''lbu'', ''flw'']),
      (''store'', [''sw'', ''sh'', ''sb'', ''fsw'']),
      (''muldiv'', [''mul'', ''mulh'', ''mulhsu'', ''mulhu'', ''div'', ''divu'', ''rem'', ''remu'']),
      (''fp'', [''fadd.s'', ''fsub.s'', ''fmul.s'', ''fdiv.s'', ''fsqrt.s'', ''fmadd.s'', ''fmsub.s'',
                ''fnmadd.s'', ''fnmsub.s'', ''fcvt.w.s'', ''fcvt.wu.s'', ''fcvt.s.w'', ''fcvt.s.wu'',
                ''fmv.x.w'', ''fmv.w.x'', ''fclass.s'', ''feq.s'', ''flt.s'', ''fle.s'', ''fmin.s'', ''fmax.s'']),
      (''csr'', [''csrrw'', ''csrrs'', ''csrrc'', ''csrrwi'', ''csrrsi'', ''csrrci'']),
      (''system'', [''ecall'', ''ebreak'', ''mret'', ''sret'', ''sfence.vma'', ''fence'', ''nop''])]"

section \<open>The instruction mix\<close>

definition mix_bucket :: "string \<Rightarrow> string" where
  "mix_bucket mn = (case find (\<lambda>(name, mns). mn \<in> set mns) MIX_BUCKETS of Some (name, mns) \<Rightarrow> name | None \<Rightarrow> ''alu'')"

definition count_line :: "(string \<times> nat) list \<times> nat \<Rightarrow> string \<Rightarrow> (string \<times> nat) list \<times> nat" where
  "count_line = (\<lambda>(counts, total) raw.
     let line = py_strip (split_first CHR ''#'' raw) in
     if line = [] \<or> is_label line then (counts, total)
     else let bucket = mix_bucket (py_lower (hd (re_split is_sep line)));
              n = (case map_of counts bucket of Some n \<Rightarrow> n | None \<Rightarrow> 0)
          in (AList.update bucket (n + 1) counts, total + 1))"

definition classify_mix :: "string list \<Rightarrow> (string \<times> nat) list \<times> nat" where
  \<comment> \<open>the dictionary in insertion order, and the total\<close>
  "classify_mix kernel_lines = foldl count_line ([], 0) kernel_lines"

section \<open>The instrumented kernels\<close>

definition csr_hex :: "int \<Rightarrow> string" where
  \<comment> \<open>\<open>f"{n:#x}"\<close>\<close>
  "csr_hex n = ''0x'' @ py_hex n"

definition csrrs :: "int \<Rightarrow> int \<Rightarrow> string" where
  "csrrs rd csr_addr = asm_line ''csrrs'' [xr rd, csr_hex csr_addr, ''x0'']"

definition csrrwi :: "int \<Rightarrow> int \<Rightarrow> string" where
  "csrrwi csr_addr uimm = asm_line ''csrrwi'' [''x0'', csr_hex csr_addr, py_str uimm]"

fun insert_before_halt :: "string list \<Rightarrow> string list \<Rightarrow> string list result" where
  "insert_before_halt [] new_lines = Inl ValueError"
| "insert_before_halt (line # lines) new_lines =
     (if py_strip line = ''halt:'' then Inr (new_lines @ line # lines)
      else rbind (insert_before_halt lines new_lines) (\<lambda>out. Inr (line # out)))"

definition epilogue_a :: "string list" where
  "epilogue_a = [csrrs 19 MCYCLE, csrrs 20 MINSTRET] @ map (\<lambda>i. csrrs (21 + int i) (MHPMCOUNTER3_BASE + int i)) [0..<NUM_HPM]"

definition build_run_a :: "string list \<Rightarrow> string list result" where
  "build_run_a kernel_lines = insert_before_halt kernel_lines epilogue_a"

definition preamble_b :: "string list" where
  "preamble_b = map (\<lambda>i. csrrwi (MHPMEVENT3_BASE + int i) (10 + int i)) [0..<NUM_HPM] @
     map (\<lambda>i. asm_line ''csrrw'' [''x0'', csr_hex (MHPMCOUNTER3_BASE + int i), ''x0'']) [0..<NUM_HPM]"

definition epilogue_b :: "string list" where
  "epilogue_b = map (\<lambda>i. csrrs (19 + int i) (MHPMCOUNTER3_BASE + int i)) [0..<NUM_HPM]"

definition build_run_b :: "string list \<Rightarrow> string list result" where
  "build_run_b kernel_lines = rbind (insert_before_halt kernel_lines epilogue_b) (\<lambda>ls. Inr (preamble_b @ ls))"

section \<open>Running and reporting\<close>

record prof_rig =
  prof_simulate :: "string \<Rightarrow> string \<Rightarrow> sim_reply"
  prof_template :: string
  prof_init_file :: "string \<Rightarrow> string"
    \<comment> \<open>the relative path of the image, by tag\<close>
  prof_out_path :: "string \<Rightarrow> string"

definition prof_testbench :: "prof_rig \<Rightarrow> string \<Rightarrow> int \<Rightarrow> int \<Rightarrow> string" where
  "prof_testbench rg tag n msize =
     (let max_time = (n * 80 + 2000) * 10 in
      fill_template
        [(''__INIT_FILE__'', prof_init_file rg tag), (''__MAX_TIME__'', py_str max_time), (''__OUT_FILE__'', prof_out_path rg tag),
         (''__MEM_SIZE__'', py_str msize), (''__HAZARD_STRATEGY__'', ''0''), (''__PIPELINE_PROFILE__'', ''0''),
         (''__BRANCH_PREDICTOR__'', ''0''), (''__CACHE_MODE__'', ''0''), (''__MEM_LATENCY_I__'', ''0''), (''__MEM_LATENCY_D__'', ''0''),
         (''__XLEN__'', ''32'')] (prof_template rg))"

definition run_sim :: "prof_rig \<Rightarrow> string list \<Rightarrow> string \<Rightarrow> int \<Rightarrow> (int \<times> int list) result" where
  "run_sim rg lines tag msize =
     rbind (assemble lines 32) (\<lambda>ws.
     rbind (if msize < 0 then Inl ValueError else write_mem ws (nat msize)) (\<lambda>img.
       let r = prof_simulate rg img (prof_testbench rg tag (int (length ws)) msize) in
       if compile_rc r \<noteq> 0 then Inl RuntimeError
       else case sim_out r of
         None \<Rightarrow> Inl RuntimeError
       | Some file \<Rightarrow>
           if sim_rc r \<noteq> 0 then Inl RuntimeError
           else rbind (read_ints (\<lambda>v. v) file) (\<lambda>vals. rbind (list_at vals 0) (\<lambda>cycles. Inr (cycles, take 32 (drop 1 vals))))))"

record profile =
  prof_name :: string
  cycles_a :: int
  cycles_b :: int
  mcycle :: int
  minstret :: int
  ipc :: rat
  cpi :: "rat option"
  branch_accuracy :: "rat option"
  icache_hit_rate :: "rat option"
  dcache_hit_rate :: "rat option"
  stall_pct :: rat
  original_events :: "(string \<times> int) list"
  stall_causes :: "(string \<times> int) list"
  stall_cause_sum :: int
  instruction_mix :: "(string \<times> nat) list"
  instruction_mix_total :: nat

definition counters :: "string list \<Rightarrow> int list \<Rightarrow> nat \<Rightarrow> (string \<times> int) list result" where
  \<comment> \<open>\<open>{names[i]: regs[first + i] for i in range(NUM_HPM)}\<close>\<close>
  "counters names rs first = rtraverse (\<lambda>i. rbind (list_at rs (first + i)) (\<lambda>v. Inr (names ! i, v))) [0..<NUM_HPM]"

definition ratio :: "int \<Rightarrow> int \<Rightarrow> rat option" where
  \<comment> \<open>\<open>a / b if b else None\<close>\<close>
  "ratio a b = (if b \<noteq> 0 then Some (of_int a / of_int b) else None)"

definition profile_kernel :: "prof_rig \<Rightarrow> string \<Rightarrow> string list \<Rightarrow> int \<Rightarrow> profile result" where
  "profile_kernel rg name kernel_lines msize =
     (let (mix_counts, mix_total) = classify_mix kernel_lines in
      rbind (build_run_a kernel_lines) (\<lambda>la.
      rbind (run_sim rg la (name @ ''_a'') msize) (\<lambda>(ca, regs_a).
      rbind (list_at regs_a 19) (\<lambda>mc.
      rbind (list_at regs_a 20) (\<lambda>mi.
      rbind (counters ORIGINAL_EVENT_NAMES regs_a 21) (\<lambda>original.
      rbind (build_run_b kernel_lines) (\<lambda>lb.
      rbind (run_sim rg lb (name @ ''_b'') msize) (\<lambda>(cb, regs_b).
      rbind (counters STALL_CAUSE_NAMES regs_b 19) (\<lambda>causes.
        let ev = (\<lambda>k. the (map_of original k));
            i = (if mc \<noteq> 0 then of_int mi / of_int mc else 0)
        in Inr \<lparr>prof_name = name, cycles_a = ca, cycles_b = cb, mcycle = mc, minstret = mi, ipc = i,
             cpi = (if i \<noteq> 0 then Some (1 / i) else None),
             branch_accuracy = (if ev ''branches_retired'' \<noteq> 0
               then Some (1 - of_int (ev ''mispredicts'') / of_int (ev ''branches_retired'')) else None),
             icache_hit_rate = ratio (ev ''icache_hit'') (ev ''icache_hit'' + ev ''icache_miss''),
             dcache_hit_rate = ratio (ev ''dcache_hit'') (ev ''dcache_hit'' + ev ''dcache_miss''),
             stall_pct = (if mc \<noteq> 0 then of_int (ev ''stall_aggregate'') / of_int mc else 0),
             original_events = original, stall_causes = causes, stall_cause_sum = sum_list (map snd causes),
             instruction_mix = mix_counts, instruction_mix_total = mix_total\<rparr>)))))))))"

definition kernel_mem_size :: "string \<Rightarrow> int" where
  "kernel_mem_size name = (if name = ''bench_bubble_sort'' then 1024 else 256)"

fun profile_all :: "prof_rig \<Rightarrow> (string \<times> string list) list \<Rightarrow> profile list result" where
  \<comment> \<open>the loop over the kernels: a \<open>RuntimeError\<close> is printed and the kernel left out, any other exception ends the program\<close>
  "profile_all rg [] = Inr []"
| "profile_all rg ((name, kernel_lines) # progs) =
     (case profile_kernel rg name kernel_lines (kernel_mem_size name) of
        Inl e \<Rightarrow> if e = RuntimeError then profile_all rg progs else Inl e
      | Inr r \<Rightarrow> rbind (profile_all rg progs) (\<lambda>rs. Inr (r # rs)))"

definition profiler_main :: "prof_rig \<Rightarrow> (string \<times> string list) list \<Rightarrow> (int \<times> profile list) result" where
  \<comment> \<open>over the sorted names and lines of the kernels found: the exit status and what is reported\<close>
  "profiler_main rg progs =
     (if progs = [] then Inr (1, [])
      else rbind (profile_all rg progs) (\<lambda>results. Inr (if length results \<noteq> length progs then 1 else 0, results)))"

end
