(* ===== verification/Kernel_Asm.thy ===== *)
theory Kernel_Asm
  imports Random_Gen_Layout
begin

text \<open>
  Assembling a kernel with lines added before, after or at its end: labels move with the code, so every statement of the kernel keeps its word. All
  benchmark kernels end in the label \<open>halt\<close> and a jump to itself.
\<close>

section \<open>Where labels are looked up\<close>

lemma re_split_pieces: "t \<in> set (re_split sep s) \<Longrightarrow> c \<in> set t \<Longrightarrow> \<not> sep c"
proof (induction sep s rule: re_split.induct)
  case (1 sep s)
  show ?case
  proof (cases "dropWhile (\<lambda>c. \<not> sep c) s")
    case Nil
    have "re_split sep s = [s]" by (subst re_split.simps) (simp only: Nil list.case)
    then show ?thesis using 1(2,3) Nil by (auto simp: dropWhile_eq_Nil_conv)
  next
    case (Cons d ds)
    have "re_split sep s = takeWhile (\<lambda>c. \<not> sep c) s # re_split sep (dropWhile sep ds)" by (subst re_split.simps) (simp only: Cons list.case)
    then have "t = takeWhile (\<lambda>c. \<not> sep c) s \<or> t \<in> set (re_split sep (dropWhile sep ds))" using 1(2) by simp
    then show ?thesis using 1(1) [OF Cons] 1(3) by (auto dest: set_takeWhileD)
  qed
qed

lemma arg_rbind_cong: "(\<And>t. t \<in> set args \<Longrightarrow> f t = g t) \<Longrightarrow> rbind (arg args i) f = rbind (arg args i) g"
  by (auto simp: arg_def)

definition operands :: "string \<Rightarrow> string list" where
  "operands l = tl (re_split is_sep (py_strip l))"

lemma asm_stmt_cong:
  assumes "\<And>t. t \<in> set (operands l) \<Longrightarrow> resolve L t a = resolve L' t a'"
  shows "asm_stmt L xl (a, l) = asm_stmt L' xl (a', l)"
proof -
  let ?args = "operands l"
  have r: "rbind (arg ?args i) (\<lambda>t. rbind (resolve L t a) f) = rbind (arg ?args i) (\<lambda>t. rbind (resolve L' t a') f)" for i and f :: "int \<Rightarrow> int result"
    using assms by (intro arg_rbind_cong) simp
  have m: "asm_mem L a mn ?args = asm_mem L' a' mn ?args" for mn
    unfolding asm_mem_def r ..
  show ?thesis by (simp only: asm_stmt_def asm_insn_def Let_def fst_conv snd_conv operands_def [symmetric] m)
qed

lemma asm_stmts_append:
  "asm_stmts L xl (xs @ ys) = rbind (asm_stmts L xl xs) (\<lambda>u. rbind (asm_stmts L xl ys) (\<lambda>v. Inr (u @ v)))"
proof (induction xs)
  case Nil
  show ?case by (cases "asm_stmts L xl ys") auto
next
  case (Cons x xs)
  then show ?case by (cases "asm_stmt L xl x"; cases "asm_stmts L xl xs"; cases "asm_stmts L xl ys") auto
qed

lemma addressed_append: "addressed a (xs @ ys) = addressed a xs @ addressed (a + 4 * int (length xs)) ys"
  by (induction xs arbitrary: a) (auto simp: algebra_simps)

definition shifted :: "int \<Rightarrow> labels \<Rightarrow> labels" where
  "shifted d L = (\<lambda>t. map_option (\<lambda>v. v + d) (L t))"

lemma pass1_shift: "snd (pass1 xs (a + d) st' (shifted d L)) = shifted d (snd (pass1 xs a st L))"
proof (induction xs arbitrary: a st st' L)
  case (Cons raw xs)
  have u: "(shifted d L)(l \<mapsto> a + d) = shifted d (L(l \<mapsto> a))" for l by (auto simp: shifted_def)
  have c: "a + d + 4 = a + 4 + d" by simp
  show ?case by (simp add: Let_def Cons u c)
qed simp

lemma pass1_no_labels: "\<forall>l \<in> set xs. label_name l = None \<Longrightarrow> snd (pass1 xs a st L) = L"
  by (intro ext) (simp add: pass1_other_label)

lemma resolve_shift: "t \<noteq> l \<Longrightarrow> py_strip t = t \<Longrightarrow> resolve ((shifted d L)(l \<mapsto> v)) t (a + d) = resolve L t a"
  by (auto simp: resolve_def shifted_def split: option.splits)

lemma set_tl: "set (tl xs) \<subseteq> set xs"
  by (cases xs) auto

lemma asm_stmts_shift:
  assumes "\<forall>l \<in> set ls. k \<notin> set (operands l)"
  shows "asm_stmts ((shifted d L)(k \<mapsto> v)) xl (addressed (a + d) ls) = asm_stmts L xl (addressed a ls)"
  using assms
proof (induction ls arbitrary: a)
  case (Cons l ls)
  have p: "py_strip t = t" if "t \<in> set (operands l)" for t
    using re_split_pieces [of t is_sep "py_strip l"] set_tl [of "re_split is_sep (py_strip l)"] that by (intro strip_id) (auto simp: operands_def is_sep_def)
  have "asm_stmt ((shifted d L)(k \<mapsto> v)) xl (a + d, l) = asm_stmt L xl (a, l)"
    using Cons(2) p by (intro asm_stmt_cong resolve_shift) auto
  moreover have k: "\<forall>l \<in> set ls. k \<notin> set (operands l)" using Cons(2) by simp
  have "asm_stmts ((shifted d L)(k \<mapsto> v)) xl (addressed (a + d + 4) ls) = asm_stmts L xl (addressed (a + 4) ls)"
    using Cons(1) [OF k, of "a + 4"] unfolding add.assoc add.commute [of 4 d] .
  ultimately show ?case by (simp only: addressed.simps asm_stmts.simps)
qed simp

section \<open>Kernels\<close>

definition fixed_line :: "nat \<Rightarrow> string \<Rightarrow> int \<Rightarrow> bool" where
  \<comment> \<open>a line that assembles to the word wherever it stands\<close>
  "fixed_line xl l w \<longleftrightarrow> plain_line l \<and> (\<forall>L a. asm_stmt L xl (a, l) = Inr w)"

lemma fixed_stmts:
  assumes "list_all2 (fixed_line xl) ls ws"
  shows "asm_stmts L xl (addressed a ls) = Inr ws"
  using assms by (induction ls ws arbitrary: a rule: list_all2_induct) (simp_all add: fixed_line_def)

lemma kernel_words:
  assumes h: "label_name h = Some k" and post: "statements post = [j]" "\<forall>l \<in> set post. label_name l = None"
    and pre: "\<forall>l \<in> set pre. label_name l \<noteq> Some k" "\<forall>l \<in> set (statements pre). k \<notin> set (operands l)"
    and P: "list_all2 (fixed_line xl) P wP" and E: "list_all2 (fixed_line xl) E wE"
    and j: "\<And>L a. L k = Some a \<Longrightarrow> asm_stmt L xl (a, j) = Inr w"
  shows "assemble (P @ pre @ E @ h # post) xl =
    rbind (asm_stmts (snd (pass1 pre 0 [] Map.empty)) xl (addressed 0 (statements pre))) (\<lambda>body. Inr (wP @ body @ wE @ [w]))"
proof -
  have pl: "list_all plain_line P" "list_all plain_line E"
    using P E by (auto simp: list_all2_conv_all_nth list_all_length fixed_line_def)
  then have s: "statements P = P" "statements E = E" "\<forall>l \<in> set P. label_name l = None" "\<forall>l \<in> set E. label_name l = None"
    using statements_plain plain_no_label by (auto simp: list_all_iff)
  let ?d = "4 * int (length P)" and ?L0 = "snd (pass1 pre 0 [] Map.empty)"
  let ?v = "?d + 4 * int (length (statements pre)) + 4 * int (length E)"
  have hl: "is_label (clean h)" "py_strip (butlast (clean h)) = k" "clean h \<noteq> []" using h by (auto simp: label_name_def is_label_def split: if_splits)
  have e: "shifted ?d Map.empty = Map.empty" by (simp add: shifted_def fun_eq_iff)
  have L: "snd (pass1 (P @ pre @ E @ h # post) 0 [] Map.empty) = (shifted ?d ?L0)(k \<mapsto> ?v)"
    using pass1_shift [of pre 0 ?d _ Map.empty "[]"] hl
    by (simp add: pass1_append s pass1_no_labels post(2) e Let_def clean_def [symmetric])
  have st: "statements (P @ pre @ E @ h # post) = P @ statements pre @ E @ [j]" using s(1,2) hl(1) post(1) by simp
  have p: "asm_stmts ((shifted ?d ?L0)(k \<mapsto> ?v)) xl (addressed ?d (statements pre)) = asm_stmts ?L0 xl (addressed 0 (statements pre))"
    using asm_stmts_shift [OF pre(2), of ?d ?L0 ?v xl 0] by simp
  show ?thesis
    unfolding assemble_unfold L st addressed_append asm_stmts_append
    using fixed_stmts [OF P] fixed_stmts [OF E] p j [of "(shifted ?d ?L0)(k \<mapsto> ?v)" ?v]
    by (cases "asm_stmts ?L0 xl (addressed 0 (statements pre))") simp_all
qed

lemma added_words:
  assumes "list_all2 (fixed_line xl) E wE"
  shows "assemble (pre @ E) xl =
    rbind (asm_stmts (snd (pass1 pre 0 [] Map.empty)) xl (addressed 0 (statements pre))) (\<lambda>body. Inr (body @ wE))"
proof -
  have "list_all plain_line E" using assms by (auto simp: list_all2_conv_all_nth list_all_length fixed_line_def)
  then have s: "statements E = E" "\<forall>l \<in> set E. label_name l = None" using statements_plain plain_no_label by (auto simp: list_all_iff)
  have L: "snd (pass1 (pre @ E) 0 [] Map.empty) = snd (pass1 pre 0 [] Map.empty)" by (simp add: pass1_append pass1_no_labels [OF s(2)])
  show ?thesis
    unfolding assemble_unfold L using s(1) fixed_stmts [OF assms]
    by (cases "asm_stmts (snd (pass1 pre 0 [] Map.empty)) xl (addressed 0 (statements pre))") (simp_all add: addressed_append asm_stmts_append)
qed

lemma strip_keeps: "c \<in> set s \<Longrightarrow> \<not> py_isspace c \<Longrightarrow> c \<in> set (py_strip s)"
proof -
  have d: "c \<in> set xs \<Longrightarrow> \<not> py_isspace c \<Longrightarrow> c \<in> set (dropWhile py_isspace xs)" for xs by (induction xs) auto
  then show "c \<in> set s \<Longrightarrow> \<not> py_isspace c \<Longrightarrow> c \<in> set (py_strip s)" by (simp add: py_strip_def)
qed

lemma halt_line: "py_strip h = ''halt:'' \<Longrightarrow> label_name h = Some ''halt''"
proof -
  assume a: "py_strip h = ''halt:''"
  have "\<not> py_isspace CHR ''#''" by code_simp
  then have "CHR ''#'' \<notin> set h" using strip_keeps [of "CHR ''#''" h] a by auto
  then have t: "takeWhile (\<lambda>d. d \<noteq> CHR ''#'') h = h" by (auto simp: takeWhile_eq_all_conv)
  have "clean h = ''halt:''" by (simp only: clean_def split_first_def t a)
  moreover have "is_label ''halt:''" "py_strip (butlast ''halt:'') = ''halt''" by code_simp+
  ultimately show ?thesis by (simp add: label_name_def)
qed

lemma halt_jump: "L ''halt'' = Some a \<Longrightarrow> asm_stmt L xl (a, ''jal x0, halt'') = Inr 0x6F"
proof -
  assume a: "L ''halt'' = Some a"
  have e: "''jal x0, halt'' = asm_line ''jal'' [''x0'', ''halt'']" by code_simp
  have f: "plain_name ''jal''" "list_all token [''x0'', ''halt'']" "asm_alu 0 ''jal'' [] = None" "reg ''x0'' = Inr 0" "jal 0 (Num 0) = Inr 0x6F"
    "py_strip ''halt'' = ''halt''" "\<not> has_key LOAD ''jal''" "\<not> has_key STORE ''jal''" "\<not> has_key BRANCH ''jal''" by code_simp+
  have "asm_mem L a ''jal'' [''x0'', ''halt''] = Some (Inr 0x6F)"
    using a f(4-9) by (simp add: asm_mem_def reg_arg_def arg_def resolve_def)
  then show ?thesis unfolding e asm_stmt_line [OF f(1,2)] using f(3) by (intro asm_insn_group(2))
qed

end
