(* ===== verification/Profiler_Props.thy ===== *)
theory Profiler_Props
  imports Profiler Kernel_Asm
begin

text \<open>
  The instrumented kernels are the kernel: the assembler's words of the original program reappear unchanged between the added counter
  instructions, whatever labels the kernel has. The instruction mix counts every assembled word once.
\<close>

section \<open>The instruction mix\<close>

lemma sum_update:
  "sum_list (map snd (AList.update k (case map_of al k of Some n \<Rightarrow> n + 1 | None \<Rightarrow> 1) al)) = sum_list (map snd al) + (1::nat)"
  by (induction al) (auto split: option.splits)

lemma count_line_eq:
  "count_line (counts, tot) raw =
     (if clean raw = [] \<or> is_label (clean raw) then (counts, tot)
      else let b = mix_bucket (py_lower (hd (re_split is_sep (clean raw))))
           in (AList.update b (case map_of counts b of Some n \<Rightarrow> n + 1 | None \<Rightarrow> 1) counts, tot + 1))"
  by (auto simp: count_line_def clean_def Let_def split: option.splits)

lemma classify_mix_fold:
  "sum_list (map snd (fst (foldl count_line (counts, tot) lines))) = sum_list (map snd counts) + length (statements lines) \<and>
   snd (foldl count_line (counts, tot) lines) = tot + length (statements lines)"
proof (induction lines arbitrary: counts tot)
  case (Cons raw lines)
  show ?case
  proof (cases "clean raw = [] \<or> is_label (clean raw)")
    case True
    then show ?thesis using Cons by (auto simp: count_line_eq)
  next
    case False
    then show ?thesis using Cons by (simp add: count_line_eq Let_def sum_update)
  qed
qed simp

text \<open>The total of the instruction mix is the number of words the assembler produces for the kernel, and the counts of the buckets add up to it:
  every instruction is counted once, and labels, blank lines and comments are not.\<close>

theorem mix_counts_words:
  assumes "assemble kernel_lines xl = Inr ws"
  shows "snd (classify_mix kernel_lines) = length ws \<and> sum_list (map snd (fst (classify_mix kernel_lines))) = length ws"
proof -
  have "length ws = length (statements kernel_lines)" using assms by (auto simp: assemble_unfold asm_stmts_Inr)
  then show ?thesis using classify_mix_fold [of "[]" 0 kernel_lines] by (simp add: classify_mix_def)
qed

section \<open>The instrumented kernels\<close>

definition csr_insn :: "int \<Rightarrow> int \<Rightarrow> int \<Rightarrow> int \<Rightarrow> int" where
  \<comment> \<open>a CSR instruction: operation, destination, CSR number, source register or immediate\<close>
  "csr_insn f3 rd c z = enc_i (c, z, f3, rd, OP_SYSTEM)"

lemma csr_hex_reads: "0 \<le> c \<Longrightarrow> csr_lookup (Tok (csr_hex c)) = Inr c" "token (csr_hex c)"
proof -
  have "\<not> has_key CSR_ADDR (''0x'' @ s)" for s by (simp add: has_key_def CSR_ADDR_def)
  then show "0 \<le> c \<Longrightarrow> csr_lookup (Tok (csr_hex c)) = Inr c" 
    using pad0_hex(1) [of c 0] by (simp add: csr_hex_def csr_lookup_def pad0_def)
  show "token (csr_hex c)" unfolding csr_hex_def by (rule token_num(3))
qed

lemma csr_lines:
  assumes "fits 12 c" "fits 5 rd"
  shows "fixed_line xl (asm_line ''csrrs'' [xr rd, csr_hex c, ''x0'']) (csr_insn 2 rd c 0)"
    "fixed_line xl (asm_line ''csrrw'' [xr rd, csr_hex c, ''x0'']) (csr_insn 1 rd c 0)"
    "fits 5 z \<Longrightarrow> fixed_line xl (asm_line ''csrrwi'' [xr rd, csr_hex c, py_str z]) (csr_insn 5 rd c z)"
proof -
  have n: "py_get CSR_OP ''csrrs'' = Inr 2" "py_get CSR_OP ''csrrw'' = Inr 1" "py_get CSR_OP ''csrrwi'' = Inr 5"
    "reg ''x0'' = Inr 0" "token ''x0''" by code_simp+
  have s: "plain_name mn \<and> asm_alu 0 mn [] = None \<and> asm_mem Map.empty 0 mn [] = None" if "mn \<in> {''csrrs'', ''csrrw'', ''csrrwi''}" for mn
    using that by (elim insertE emptyE; simp only:; code_simp)
  have c: "csr_lookup (Tok (csr_hex c)) = Inr c" "take_bit 12 c = c" "token (csr_hex c)"
    using assms(1) csr_hex_reads fitsD(1) by (simp_all add: fits_take_bit_eq)
  have l: "fixed_line xl (asm_line mn ts) w" if "mn \<in> {''csrrs'', ''csrrw'', ''csrrwi''}" "list_all token ts" "asm_sys mn ts = Some (Inr w)" for mn ts w
    using asm_stmt_line [of mn ts] plain_asm_line [of mn ts] asm_insn_group(3) [of mn ts "Inr w"] s [OF that(1)] that
    by (auto simp: fixed_line_def plain_name_def)
  show "fixed_line xl (asm_line ''csrrs'' [xr rd, csr_hex c, ''x0'']) (csr_insn 2 rd c 0)"
    "fixed_line xl (asm_line ''csrrw'' [xr rd, csr_hex c, ''x0'']) (csr_insn 1 rd c 0)"
    "fits 5 z \<Longrightarrow> fixed_line xl (asm_line ''csrrwi'' [xr rd, csr_hex c, py_str z]) (csr_insn 5 rd c z)"
    using n c assms(2) fitsD(1) [OF assms(2)]
    by (auto intro!: l simp: asm_sys_def reg_arg_def tok_arg_def arg_def system_enc csr_insn_def fitsD(1) simp del: OP_SYSTEM_def)
qed

lemma insert_at_halt:
  assumes "py_strip h = ''halt:''" "\<forall>l \<in> set pre. label_name l \<noteq> Some ''halt''"
  shows "insert_before_halt (pre @ h # post) new = Inr (pre @ new @ h # post)"
  using assms by (induction pre) (auto dest: halt_line)

lemma added_lines:
  "list_all2 (fixed_line xl) epilogue_a ([csr_insn 2 19 MCYCLE 0, csr_insn 2 20 MINSTRET 0] @ map (\<lambda>i. csr_insn 2 (21 + int i) (MHPMCOUNTER3_BASE + int i) 0) [0..<9])"
  "list_all2 (fixed_line xl) epilogue_b (map (\<lambda>i. csr_insn 2 (19 + int i) (MHPMCOUNTER3_BASE + int i) 0) [0..<9])"
  "list_all2 (fixed_line xl) preamble_b (map (\<lambda>i. csr_insn 5 0 (MHPMEVENT3_BASE + int i) (10 + int i)) [0..<9] @
     map (\<lambda>i. csr_insn 1 0 (MHPMCOUNTER3_BASE + int i) 0) [0..<9])"
proof -
  have m: "list_all2 P (map f [0..<9]) (map g [0..<9])" if "\<And>i. i < 9 \<Longrightarrow> P (f i) (g i)" for P :: "string \<Rightarrow> int \<Rightarrow> bool" and f g
    using that by (simp add: list_all2_conv_all_nth)
  have x: "''x0'' = xr 0" by code_simp
  note d = csrrs_def csrrwi_def MCYCLE_def MINSTRET_def MHPMCOUNTER3_BASE_def MHPMEVENT3_BASE_def NUM_HPM_def
  show "list_all2 (fixed_line xl) epilogue_a ([csr_insn 2 19 MCYCLE 0, csr_insn 2 20 MINSTRET 0] @ map (\<lambda>i. csr_insn 2 (21 + int i) (MHPMCOUNTER3_BASE + int i) 0) [0..<9])"
    unfolding epilogue_a_def d by (auto intro!: list_all2_appendI m csr_lines simp: fits_def simp del: append.simps)
  show "list_all2 (fixed_line xl) epilogue_b (map (\<lambda>i. csr_insn 2 (19 + int i) (MHPMCOUNTER3_BASE + int i) 0) [0..<9])"
    unfolding epilogue_b_def d by (auto intro!: m csr_lines simp: fits_def)
  show "list_all2 (fixed_line xl) preamble_b (map (\<lambda>i. csr_insn 5 0 (MHPMEVENT3_BASE + int i) (10 + int i)) [0..<9] @
     map (\<lambda>i. csr_insn 1 0 (MHPMCOUNTER3_BASE + int i) 0) [0..<9])"
    unfolding preamble_b_def d
    using csr_lines(3) [of _ 0 _ xl, folded x] csr_lines(2) [of _ 0 xl, folded x] by (auto intro!: list_all2_appendI m simp: fits_def)
qed

text \<open>C18. Instrumenting does not disturb the kernel. For a kernel of the shape all benchmarks have (the label \<open>halt\<close>, after it only the self-loop, and no
  other reference to \<open>halt\<close>), run A assembles to the kernel's words with the eleven counter reads before the final self-loop, and run B
  to the nine event selections and nine counter resets, the kernel's words, the nine counter reads and the self-loop: all
  branches keep their displacements. The reads put counter \<open>3 + i\<close> into the register the report reads it from.\<close>

theorem instrumented_words:
  assumes "py_strip h = ''halt:''" "statements post = [''jal x0, halt'']" "\<forall>l \<in> set post. label_name l = None"
    and "\<forall>l \<in> set pre. label_name l \<noteq> Some ''halt''" "\<forall>l \<in> set (statements pre). ''halt'' \<notin> set (operands l)"
    and "assemble (pre @ h # post) xl = Inr ws"
  shows "\<exists>body la lb. ws = body @ [0x6F] \<and> build_run_a (pre @ h # post) = Inr la \<and> build_run_b (pre @ h # post) = Inr lb \<and>
    assemble la xl = Inr (body @ [csr_insn 2 19 0xB00 0, csr_insn 2 20 0xB02 0] @ map (\<lambda>i. csr_insn 2 (21 + int i) (0xB03 + int i) 0) [0..<9] @ [0x6F]) \<and>
    assemble lb xl = Inr (map (\<lambda>i. csr_insn 5 0 (0x323 + int i) (10 + int i)) [0..<9] @ map (\<lambda>i. csr_insn 1 0 (0xB03 + int i) 0) [0..<9] @
      body @ map (\<lambda>i. csr_insn 2 (19 + int i) (0xB03 + int i) 0) [0..<9] @ [0x6F])"
proof -
  note k = kernel_words [OF halt_line [OF assms(1)] assms(2-5) _ _ halt_jump, where xl = xl]
  obtain body where b: "asm_stmts (snd (pass1 pre 0 [] Map.empty)) xl (addressed 0 (statements pre)) = Inr body" "ws = body @ [0x6F]"
    using k [of "[]" "[]" "[]" "[]"] assms(6)
    by (cases "asm_stmts (snd (pass1 pre 0 [] Map.empty)) xl (addressed 0 (statements pre))") simp_all
  have "build_run_a (pre @ h # post) = Inr (pre @ epilogue_a @ h # post)" "build_run_b (pre @ h # post) = Inr (preamble_b @ pre @ epilogue_b @ h # post)"
    using insert_at_halt [OF assms(1,4)] by (simp_all add: build_run_a_def build_run_b_def)
  moreover note k [of "[]" "[]", OF _ added_lines(1)] k [OF added_lines(3,2)]
  ultimately show ?thesis
    using b by (simp add: MCYCLE_def MINSTRET_def MHPMCOUNTER3_BASE_def MHPMEVENT3_BASE_def)
qed

text \<open>The benchmark \<open>bench_fib.s\<close> has the shape.\<close>

definition fib_body :: "string list" where
  "fib_body = [''addi x1, x0, 0'', ''addi x2, x0, 1'', ''addi x3, x0, 30'', ''loop:'', ''add  x4, x1, x2'', ''add  x1, x0, x2'',
     ''add  x2, x0, x4'', ''addi x3, x3, -1'', ''bne  x3, x0, loop'', ''add x10, x1, x0'', ''fence'']"

definition fib_words :: "int list" where
  "fib_words = [0x93, 0x100113, 0x1E00193, 0x208233, 0x2000B3, 0x400133, 0xFFF18193, 0xFE0198E3, 0x8533, 0xFF0000F]"

lemma fib_assembles: "assemble (fib_body @ ''halt:'' # [''jal x0, halt'']) 32 = Inr (fib_words @ [0x6F])"
  by code_simp

theorem instrumented_words_witness:
  "\<exists>la. build_run_a (fib_body @ ''halt:'' # [''jal x0, halt'']) = Inr la \<and>
     assemble la 32 = Inr (fib_words @ [csr_insn 2 19 0xB00 0, csr_insn 2 20 0xB02 0] @ map (\<lambda>i. csr_insn 2 (21 + int i) (0xB03 + int i) 0) [0..<9] @ [0x6F])"
proof -
  have "py_strip ''halt:'' = ''halt:''" "statements [''jal x0, halt''] = [''jal x0, halt'']" "list_all (\<lambda>l. label_name l = None) [''jal x0, halt'']"
    "list_all (\<lambda>l. label_name l \<noteq> Some ''halt'') fib_body" "list_all (\<lambda>l. ''halt'' \<notin> set (operands l)) (statements fib_body)"
    by code_simp+
  then show ?thesis using instrumented_words [OF _ _ _ _ _ fib_assembles] by (auto simp: list_all_iff)
qed

theorem mix_counts_words_witness: "snd (classify_mix (fib_body @ ''halt:'' # [''jal x0, halt''])) = 11"
  using mix_counts_words [OF fib_assembles] by (simp add: fib_words_def)

section \<open>The exit status\<close>

lemma profile_all_length: "profile_all rg progs = Inr rs \<Longrightarrow> length rs \<le> length progs"
  by (induction rg progs arbitrary: rs rule: profile_all.induct) (force simp: rbind_eq_Inr split: sum.splits if_splits)+

lemma profile_all_complete:
  "profile_all rg progs = Inr rs \<and> length rs = length progs \<longleftrightarrow>
   list_all2 (\<lambda>(name, ls) r. profile_kernel rg name ls (kernel_mem_size name) = Inr r) progs rs"
proof (induction progs arbitrary: rs)
  case (Cons p progs)
  obtain name ls where [simp]: "p = (name, ls)" by fastforce
  show ?case
    by (cases "profile_kernel rg name ls (kernel_mem_size name)")
      (auto simp: list_all2_Cons1 Cons [symmetric] dest: profile_all_length)
qed auto

lemma profiler_status:
  "(\<exists>rs. profiler_main rg progs = Inr (0, rs)) \<longleftrightarrow> progs \<noteq> [] \<and>
     (\<exists>rs. list_all2 (\<lambda>(name, ls) r. profile_kernel rg name ls (kernel_mem_size name) = Inr r) progs rs)"
  by (auto simp: profiler_main_def rbind_eq_Inr profile_all_complete [symmetric] split: if_splits)

end
