(* ===== verification/Bench_Runner.thy ===== *)
theory Bench_Runner
  imports Random_Gen Elf2mem
begin

text \<open>
  The benchmark runner \<open>sim/tools/bench_runner.py\<close>: run a kernel on the reference simulator and on the RTL, in one configuration or in
  all those of a comparison, and report cycles and instructions per cycle. The Verilog tools, the templates' texts and the paths
  are parameters (record \<open>bench_rig\<close>). A run ends in a failure the runner reports (its class is kept), in an
  exception it does not catch (\<open>Inl\<close>), or not at all (\<open>None\<close>, a reference run that does not end). Ratios are exact rationals where the
  code has floats; printing is not modelled.
\<close>

section \<open>Tables and results\<close>

definition MEM_SIZE_OVERRIDES :: "(string \<times> int) list" where
  "MEM_SIZE_OVERRIDES = [(''bench_bubble_sort'', 512)]"

definition bench_mem_size :: "string \<Rightarrow> int" where
  \<comment> \<open>\<open>MEM_SIZE_OVERRIDES.get(name, 128)\<close>\<close>
  "bench_mem_size name = (case map_of MEM_SIZE_OVERRIDES name of Some m \<Rightarrow> m | None \<Rightarrow> 128)"

definition EXPECTED_X10 :: "(string \<times> int) list" where
  "EXPECTED_X10 = [(''bench_fib'', 832040), (''bench_sum_array'', 136), (''bench_bubble_sort'', 1)]"

definition OOO_COMPATIBLE_BENCHES :: "string list" where
  "OOO_COMPATIBLE_BENCHES = [''bench_fib'', ''bench_sum_array'']"

definition VECTOR_PAIR :: "string list" where
  "VECTOR_PAIR = [''bench_vecadd_scalar'', ''bench_vecadd_vector'']"

definition EXPECTED_X10_VECTOR_PAIR :: int where
  "EXPECTED_X10_VECTOR_PAIR = 396"

definition TARGET_RETIRED_VECTOR_PAIR :: "(string \<times> int) list" where
  "TARGET_RETIRED_VECTOR_PAIR = [(''bench_vecadd_scalar'', 208), (''bench_vecadd_vector'', 141)]"

record ooo_result =
  instructions :: int
  cycles :: int
  bench_ipc :: rat

record bench_result = ooo_result +
  icache_misses :: int
  icache_accesses :: int
  dcache_misses :: int

datatype bench_failure =
    Bench_asm_error
  | Bench_iss_error py_error
  | Bench_iss_wrong int
  | Bench_no_instructions
  | Bench_compile_error
  | Bench_simulation_error
  | Bench_timeout
  | Bench_rtl_wrong int

type_synonym 'r bench_outcome = "(bench_failure + 'r) result option"

record bench_rig =
  bench_simulate :: "string \<Rightarrow> string \<Rightarrow> sim_reply"
    \<comment> \<open>from the memory image and the testbench\<close>
  bench_template :: string
  ooo_template :: string
  vector_template :: string
  bench_source :: "string \<Rightarrow> string"
    \<comment> \<open>the path of a kernel by its name\<close>
  work_path :: "string \<Rightarrow> string"
    \<comment> \<open>\<open>os.path.join(work_dir, f)\<close>\<close>
  init_path :: "string \<Rightarrow> string"
    \<comment> \<open>the path of a file of \<open>work_dir\<close> relative to the current directory\<close>

definition bench_out_path :: "bench_rig \<Rightarrow> string \<Rightarrow> string" where
  "bench_out_path rg tag = py_replace [CHR 0x5C] ''/'' (work_path rg (tag @ ''.out''))"

definition true_div :: "int \<Rightarrow> int \<Rightarrow> rat result" where
  \<comment> \<open>\<open>a / b\<close>\<close>
  "true_div a b = (if b = 0 then Inl ZeroDivisionError else Inr (of_int a / of_int b))"

section \<open>One kernel on the pipelined core\<close>

definition reference_run :: "string \<Rightarrow> string \<Rightarrow> int \<Rightarrow> nat \<Rightarrow> int bench_outcome" where
  \<comment> \<open>load the image, run it on the simulator and check \<open>x10\<close>: the number of instructions executed\<close>
  "reference_run name img msize xl =
     (case load_words img of
        Inl e \<Rightarrow> Some (Inl e)
      | Inr ws \<Rightarrow>
      case run (iss_init msize xl) ws 200000 of
        None \<Rightarrow> None
      | Some (Inl e) \<Rightarrow> Some (Inr (Inl (Bench_iss_error e)))
      | Some (Inr (s, instrs)) \<Rightarrow>
      case map_of EXPECTED_X10 name of
        None \<Rightarrow> Some (Inr (Inr instrs))
      | Some expected \<Rightarrow>
          Some (Inr (if regs s ! 10 \<noteq> expected then Inl (Bench_iss_wrong (regs s ! 10)) else Inr instrs)))"

definition bench_tag :: "string \<Rightarrow> rtl_config \<Rightarrow> string" where
  "bench_tag name cfg =
     name @ ''_hs'' @ py_str (hazard_strategy cfg) @ ''_p'' @ py_str (pipeline_profile cfg) @ ''_bp'' @ py_str (branch_predictor cfg) @
     ''_cm'' @ py_str (cache_mode cfg) @ ''_rp'' @ py_str (replacement_policy cfg) @ ''_ve'' @ py_str (victim_entries cfg) @
     ''_be'' @ py_str (burst_enable cfg) @ ''_ldb'' @ py_str (mem_latency_d_burst cfg) @ ''_li'' @ py_str (mem_latency_i cfg) @
     ''_ld'' @ py_str (mem_latency_d cfg) @ ''_me'' @ py_str (mshr_entries cfg) @ ''_l2'' @ py_str (l2_size cfg) @
     ''_pf'' @ py_str (prefetch_mode cfg)"

definition bench_testbench :: "bench_rig \<Rightarrow> rtl_config \<Rightarrow> string \<Rightarrow> int \<Rightarrow> nat \<Rightarrow> int \<Rightarrow> string" where
  "bench_testbench rg cfg name msize xl instrs =
     (let max_time = (instrs * (60 + 2 * (mem_latency_i cfg + mem_latency_d cfg)) + 500) * 10 +
            (if cache_mode cfg \<noteq> 0 then 4000 else 0) in
      fill_template
        [(''__INIT_FILE__'', init_path rg (name @ ''.mem'')), (''__MAX_TIME__'', py_str max_time),
         (''__OUT_FILE__'', bench_out_path rg (bench_tag name cfg)), (''__MEM_SIZE__'', py_str msize),
         (''__HAZARD_STRATEGY__'', py_str (hazard_strategy cfg)), (''__PIPELINE_PROFILE__'', py_str (pipeline_profile cfg)),
         (''__BRANCH_PREDICTOR__'', py_str (branch_predictor cfg)), (''__CACHE_MODE__'', py_str (cache_mode cfg)),
         (''__REPLACEMENT_POLICY__'', py_str (replacement_policy cfg)), (''__VICTIM_ENTRIES__'', py_str (victim_entries cfg)),
         (''__MSHR_ENTRIES__'', py_str (mshr_entries cfg)), (''__L2_SIZE_BYTES__'', py_str (l2_size cfg)),
         (''__L2_WAYS__'', py_str (l2_ways cfg)), (''__L2_REPLACEMENT_POLICY__'', py_str (l2_replacement cfg)),
         (''__BURST_ENABLE__'', py_str (burst_enable cfg)), (''__MEM_LATENCY_D_BURST__'', py_str (mem_latency_d_burst cfg)),
         (''__XLEN__'', py_str (int xl)), (''__MEM_LATENCY_I__'', py_str (mem_latency_i cfg)),
         (''__MEM_LATENCY_D__'', py_str (mem_latency_d cfg)), (''__PREFETCH_MODE__'', py_str (prefetch_mode cfg))]
        (bench_template rg))"

definition read_bench :: "int \<Rightarrow> sim_reply \<Rightarrow> (bench_failure + bench_result) result" where
  \<comment> \<open>from the call of the compiler on\<close>
  "read_bench instrs r =
     (if compile_rc r \<noteq> 0 then Inr (Inl Bench_compile_error)
      else case sim_out r of
        None \<Rightarrow> Inr (Inl Bench_simulation_error)
      | Some file \<Rightarrow>
          if sim_rc r \<noteq> 0 then Inr (Inl Bench_simulation_error)
          else rbind (read_ints (\<lambda>v. v) file) (\<lambda>vals.
            rbind (list_at vals 0) (\<lambda>c.
            rbind (list_at vals 1) (\<lambda>im.
            rbind (list_at vals 2) (\<lambda>ia.
            rbind (list_at vals 3) (\<lambda>dm.
            rbind (true_div instrs c) (\<lambda>q.
            Inr (Inr \<lparr>instructions = instrs, cycles = c, bench_ipc = q, icache_misses = im, icache_accesses = ia, dcache_misses = dm\<rparr>))))))))"

definition run_bench :: "bench_rig \<Rightarrow> rtl_config \<Rightarrow> string \<Rightarrow> string \<Rightarrow> int \<Rightarrow> nat \<Rightarrow> bench_result bench_outcome" where
  \<comment> \<open>the kernel is given by its name and the text of its file\<close>
  "run_bench rg cfg name txt msize xl =
     (case asm_main (bench_source rg name) txt (work_path rg (name @ ''.mem'')) msize xl of
        None \<Rightarrow> Some (Inr (Inl Bench_asm_error))
      | Some (stdout, img) \<Rightarrow>
      case reference_run name img msize xl of
        None \<Rightarrow> None
      | Some (Inl e) \<Rightarrow> Some (Inl e)
      | Some (Inr (Inl f)) \<Rightarrow> Some (Inr (Inl f))
      | Some (Inr (Inr instrs)) \<Rightarrow> Some (read_bench instrs (bench_simulate rg img (bench_testbench rg cfg name msize xl instrs))))"

section \<open>One kernel on the out-of-order core\<close>

definition strip_halt_trailer_for_ooo :: "string \<Rightarrow> string result" where
  "strip_halt_trailer_for_ooo txt =
     (let ls = py_splitlines txt; body = takeWhile (\<lambda>l. py_strip l \<noteq> ''fence'') ls in
      if length body = length ls then Inl ValueError
      else Inr (join_lines (body @ replicate (nat OOO_TRAILER_NOP_COUNT) ''addi x0, x0, 0'')))"

definition ooo_bench_testbench :: "bench_rig \<Rightarrow> string \<Rightarrow> string \<Rightarrow> string \<Rightarrow> int \<Rightarrow> nat \<Rightarrow> int \<Rightarrow> string" where
  "ooo_bench_testbench rg tpl name tag msize xl target_retired =
     fill_template
       [(''__INIT_FILE__'', init_path rg (name @ ''_ooo.mem'')), (''__MAX_TIME__'', py_str ((target_retired * 70 + 500) * 10)),
        (''__OUT_FILE__'', bench_out_path rg tag), (''__MEM_SIZE__'', py_str msize), (''__XLEN__'', py_str (int xl)),
        (''__TARGET_RETIRED__'', py_str target_retired)] tpl"

definition read_ooo :: "sim_reply \<Rightarrow> (int list \<Rightarrow> (bench_failure + ooo_result) result) \<Rightarrow> (bench_failure + ooo_result) result" where
  \<comment> \<open>the common part of the two readers\<close>
  "read_ooo r use_vals =
     (if compile_rc r \<noteq> 0 then Inr (Inl Bench_compile_error)
      else case sim_out r of
        None \<Rightarrow> Inr (Inl Bench_simulation_error)
      | Some file \<Rightarrow>
          if sim_rc r \<noteq> 0 then Inr (Inl Bench_simulation_error)
          else if py_in ''TIMEOUT'' (sim_stdout r) then Inr (Inl Bench_timeout)
          else rbind (read_ints (\<lambda>v. v) file) use_vals)"

definition run_bench_ooo :: "bench_rig \<Rightarrow> string \<Rightarrow> string \<Rightarrow> int \<Rightarrow> nat \<Rightarrow> ooo_result bench_outcome" where
  "run_bench_ooo rg name txt msize xl =
     (case asm_main (bench_source rg name) txt (work_path rg (name @ ''_ooo_orig.mem'')) msize xl of
        None \<Rightarrow> Some (Inr (Inl Bench_asm_error))
      | Some (stdout, img) \<Rightarrow>
      case reference_run name img msize xl of
        None \<Rightarrow> None
      | Some (Inl e) \<Rightarrow> Some (Inl e)
      | Some (Inr (Inl f)) \<Rightarrow> Some (Inr (Inl f))
      | Some (Inr (Inr target_retired)) \<Rightarrow>
      if target_retired \<le> 0 then Some (Inr (Inl Bench_no_instructions))
      else case strip_halt_trailer_for_ooo txt of
        Inl e \<Rightarrow> Some (Inl e)
      | Inr stripped \<Rightarrow>
      case asm_main (work_path rg (name @ ''_ooo.s'')) stripped (work_path rg (name @ ''_ooo.mem'')) msize xl of
        None \<Rightarrow> Some (Inr (Inl Bench_asm_error))
      | Some (stdout, img) \<Rightarrow>
          Some (read_ooo (bench_simulate rg img (ooo_bench_testbench rg (ooo_template rg) name (name @ ''_ooo'') msize xl target_retired))
            (\<lambda>vals. rbind (list_at vals 0) (\<lambda>c. rbind (true_div target_retired c) (\<lambda>q.
               Inr (Inr \<lparr>instructions = target_retired, cycles = c, bench_ipc = q\<rparr>))))))"

definition run_bench_ooo_vector :: "bench_rig \<Rightarrow> string \<Rightarrow> string \<Rightarrow> int \<Rightarrow> int \<Rightarrow> nat \<Rightarrow> ooo_result bench_outcome" where
  "run_bench_ooo_vector rg name txt msize target_retired xl =
     (case strip_halt_trailer_for_ooo txt of
        Inl e \<Rightarrow> Some (Inl e)
      | Inr stripped \<Rightarrow>
      case asm_main (work_path rg (name @ ''_ooo.s'')) stripped (work_path rg (name @ ''_ooo.mem'')) msize xl of
        None \<Rightarrow> Some (Inr (Inl Bench_asm_error))
      | Some (stdout, img) \<Rightarrow>
          Some (read_ooo (bench_simulate rg img (ooo_bench_testbench rg (vector_template rg) name (name @ ''_ooovec'') msize xl target_retired))
            (\<lambda>vals. rbind (list_at vals 0) (\<lambda>c. rbind (list_at vals 1) (\<lambda>x10.
               if x10 \<noteq> EXPECTED_X10_VECTOR_PAIR then Inr (Inl (Bench_rtl_wrong x10))
               else rbind (true_div target_retired c) (\<lambda>q. Inr (Inr \<lparr>instructions = target_retired, cycles = c, bench_ipc = q\<rparr>)))))))"

section \<open>The configurations of a comparison\<close>

datatype compare =
    Single
  | Compare_strategies
  | Compare_profiles
  | Compare_predictors
  | Compare_cache
  | Compare_latency
  | Compare_replacement
  | Compare_victim_cache
  | Compare_burst
  | Compare_mshr
  | Compare_l2
  | Compare_prefetch
  | Compare_vector
  | Compare_ooo

definition forced_options :: "compare \<Rightarrow> rtl_config \<Rightarrow> rtl_config" where
  "forced_options m args =
     (case m of
        Compare_latency \<Rightarrow>
          if mem_latency_i args = 0 \<and> mem_latency_d args = 0 then args\<lparr>mem_latency_i := 3, mem_latency_d := 3\<rparr> else args
      | Compare_replacement \<Rightarrow> args\<lparr>cache_mode := 1\<rparr>
      | Compare_victim_cache \<Rightarrow> args\<lparr>cache_mode := 1\<rparr>
      | Compare_burst \<Rightarrow>
          args\<lparr>cache_mode := 1, burst_enable := 1, mem_latency_d := (if mem_latency_d args = 0 then 5 else mem_latency_d args)\<rparr>
      | Compare_mshr \<Rightarrow> args\<lparr>cache_mode := 1\<rparr>
      | Compare_l2 \<Rightarrow> args\<lparr>cache_mode := 1, l2_size := (if l2_size args = 0 then 8192 else l2_size args)\<rparr>
      | Compare_prefetch \<Rightarrow>
          args\<lparr>cache_mode := 1, mshr_entries := (if mshr_entries args \<le> 1 then 2 else mshr_entries args),
            prefetch_mode := (if prefetch_mode args = 0 then 1 else prefetch_mode args)\<rparr>
      | _ \<Rightarrow> args)"

definition bench_plan :: "compare \<Rightarrow> rtl_config \<Rightarrow> (int \<times> rtl_config) list" where
  \<comment> \<open>\<open>zip(keys, pairs)\<close>, from the forced options; the vector and out-of-order comparisons return before it is built\<close>
  "bench_plan m args =
     (case m of
        Compare_strategies \<Rightarrow> map (\<lambda>v. (v, args\<lparr>hazard_strategy := v\<rparr>)) [0, 1]
      | Compare_profiles \<Rightarrow> map (\<lambda>v. (v, args\<lparr>pipeline_profile := v\<rparr>)) [0, 1]
      | Compare_predictors \<Rightarrow> map (\<lambda>v. (v, args\<lparr>branch_predictor := v\<rparr>)) [0, 1, 2, 3]
      | Compare_cache \<Rightarrow> map (\<lambda>v. (v, args\<lparr>cache_mode := v\<rparr>)) [0, 1]
      | Compare_latency \<Rightarrow>
          [(0, args\<lparr>mem_latency_i := 0, mem_latency_d := 0\<rparr>),
           (1, args\<lparr>mem_latency_i := mem_latency_i args, mem_latency_d := mem_latency_d args\<rparr>)]
      | Compare_replacement \<Rightarrow> map (\<lambda>v. (v, args\<lparr>replacement_policy := v\<rparr>)) [0, 1, 2]
      | Compare_victim_cache \<Rightarrow> map (\<lambda>v. (v, args\<lparr>victim_entries := v\<rparr>)) [0, 4]
      | Compare_burst \<Rightarrow> [(0, args\<lparr>mem_latency_d_burst := mem_latency_d args\<rparr>), (1, args\<lparr>mem_latency_d_burst := 0\<rparr>)]
      | Compare_mshr \<Rightarrow> map (\<lambda>v. (v, args\<lparr>mshr_entries := v\<rparr>)) [1, 2, 4]
      | Compare_l2 \<Rightarrow> map (\<lambda>v. (v, args\<lparr>l2_size := v\<rparr>)) [0, l2_size args]
      | Compare_prefetch \<Rightarrow> map (\<lambda>v. (v, args\<lparr>prefetch_mode := v\<rparr>)) [0, prefetch_mode args]
      | Compare_vector \<Rightarrow> []
      | Compare_ooo \<Rightarrow> []
      | Single \<Rightarrow> [(hazard_strategy args, args)])"

section \<open>The runs and the exit status\<close>

fun otraverse :: "('a \<Rightarrow> 'b result option) \<Rightarrow> 'a list \<Rightarrow> 'b list result option" where
  \<comment> \<open>a loop that collects results; its body may raise or not end\<close>
  "otraverse f [] = Some (Inr [])"
| "otraverse f (x # xs) =
     (case f x of
        None \<Rightarrow> None
      | Some (Inl e) \<Rightarrow> Some (Inl e)
      | Some (Inr y) \<Rightarrow> (case otraverse f xs of
            None \<Rightarrow> None
          | Some (Inl e) \<Rightarrow> Some (Inl e)
          | Some (Inr ys) \<Rightarrow> Some (Inr (y # ys))))"

definition reported :: "string \<Rightarrow> 'r bench_outcome \<Rightarrow> (string \<times> 'r option) result option" where
  \<comment> \<open>a failure is printed and recorded as \<open>(name, None)\<close>\<close>
  "reported name out =
     (case out of
        None \<Rightarrow> None
      | Some (Inl e) \<Rightarrow> Some (Inl e)
      | Some (Inr (Inl f)) \<Rightarrow> Some (Inr (name, None))
      | Some (Inr (Inr r)) \<Rightarrow> Some (Inr (name, Some r)))"

type_synonym bench_results = "(int \<times> (string \<times> bench_result option) list) list"

definition bench_runs :: "bench_rig \<Rightarrow> (int \<times> rtl_config) list \<Rightarrow> (string \<times> string) list \<Rightarrow> bench_results result option" where
  \<comment> \<open>\<open>all_results\<close>, whose keys are those of the plan\<close>
  "bench_runs rg plan progs =
     otraverse (\<lambda>(key, cfg).
       case otraverse (\<lambda>(name, txt). reported name (run_bench rg cfg name txt (bench_mem_size name) 32)) progs of
         None \<Rightarrow> None
       | Some (Inl e) \<Rightarrow> Some (Inl e)
       | Some (Inr rs) \<Rightarrow> Some (Inr (key, rs))) plan"

definition bench_deltas :: "bench_results \<Rightarrow> (int \<times> (string \<times> (int \<times> rat) option) list) list" where
  \<comment> \<open>every other key against the first: the difference in cycles and the percentage, \<open>None\<close> for an incomplete pair\<close>
  "bench_deltas results =
     (case results of
        [] \<Rightarrow> []
      | (baseline_key, base) # rest \<Rightarrow>
          map (\<lambda>(key, rs). (key, map (\<lambda>(name, r0). (name,
            case (r0, map_of (rev rs) name) of
              (Some a, Some (Some b)) \<Rightarrow>
                let delta = cycles b - cycles a in Some (delta, 100 * of_int delta / of_int (cycles a))
            | _ \<Rightarrow> None)) base)) rest)"

definition vector_runs :: "bench_rig \<Rightarrow> (string \<Rightarrow> string option) \<Rightarrow> (string \<times> ooo_result option) list result option" where
  \<comment> \<open>\<open>files\<close> are those of the vector directory\<close>
  "vector_runs rg files =
     otraverse (\<lambda>name.
       case files name of
         None \<Rightarrow> Some (Inr (name, None))
       | Some txt \<Rightarrow>
           (case py_get TARGET_RETIRED_VECTOR_PAIR name of
              Inl e \<Rightarrow> Some (Inl e)
            | Inr target \<Rightarrow> reported name (run_bench_ooo_vector rg name txt 512 target 64))) VECTOR_PAIR"

definition ooo_runs :: "bench_rig \<Rightarrow> (string \<Rightarrow> string option) \<Rightarrow> (string \<times> (bench_result \<times> ooo_result) option) list result option" where
  "ooo_runs rg files =
     otraverse (\<lambda>name.
       case files name of
         None \<Rightarrow> Some (Inr (name, None))
       | Some txt \<Rightarrow>
           let msize = bench_mem_size name in
           (case reported name (run_bench rg default_config name txt msize 64) of
              None \<Rightarrow> None
            | Some (Inl e) \<Rightarrow> Some (Inl e)
            | Some (Inr (_, pipe)) \<Rightarrow>
           (case reported name (run_bench_ooo rg name txt (max msize 512) 64) of
              None \<Rightarrow> None
            | Some (Inl e) \<Rightarrow> Some (Inl e)
            | Some (Inr (_, ooo)) \<Rightarrow>
                Some (Inr (name, case (pipe, ooo) of (Some p, Some q) \<Rightarrow> Some (p, q) | _ \<Rightarrow> None))))) OOO_COMPATIBLE_BENCHES"

definition cycles_delta :: "int \<Rightarrow> int \<Rightarrow> rat" where
  \<comment> \<open>\<open>(new - old) / old * 100\<close>\<close>
  "cycles_delta old new = of_int (new - old) / of_int old * 100"

datatype bench_report =
    No_programs
  | Runs bench_results "(int \<times> (string \<times> (int \<times> rat) option) list) list"
  | Vector_report "(string \<times> ooo_result option) list" "rat option"
  | Ooo_report "(string \<times> (bench_result \<times> ooo_result \<times> rat) option) list"

definition bench_status :: "bench_results \<Rightarrow> int" where
  "bench_status results =
     (let failed = concat (map (\<lambda>(key, rs). map fst (filter (\<lambda>(n, r). r = None) rs)) results) in if failed \<noteq> [] then 1 else 0)"

definition bench_main :: "bench_rig \<Rightarrow> compare \<Rightarrow> rtl_config \<Rightarrow> (string \<times> string) list \<Rightarrow> (string \<Rightarrow> string option) \<Rightarrow> (int \<times> bench_report) result option" where
  \<comment> \<open>the exit status and what is reported, over the options, the sorted kernels of the directory and the files of its vector directory\<close>
  "bench_main rg m args progs vector_files =
     (case m of
        Compare_vector \<Rightarrow>
          (case vector_runs rg vector_files of
             None \<Rightarrow> None
           | Some (Inl e) \<Rightarrow> Some (Inl e)
           | Some (Inr rs) \<Rightarrow> Some (Inr (0, Vector_report rs
               (case map snd rs of [Some scalar_r, Some vector_r] \<Rightarrow> Some (cycles_delta (cycles scalar_r) (cycles vector_r)) | _ \<Rightarrow> None))))
      | Compare_ooo \<Rightarrow>
          (case ooo_runs rg (map_of progs) of
             None \<Rightarrow> None
           | Some (Inl e) \<Rightarrow> Some (Inl e)
           | Some (Inr rs) \<Rightarrow> Some (Inr (0, Ooo_report
               (map (\<lambda>(name, r). (name, map_option (\<lambda>(p, q). (p, q, cycles_delta (cycles p) (cycles q))) r)) rs))))
      | _ \<Rightarrow>
          if progs = [] then Some (Inr (1, No_programs))
          else (case bench_runs rg (bench_plan m (forced_options m args)) progs of
             None \<Rightarrow> None
           | Some (Inl e) \<Rightarrow> Some (Inl e)
           | Some (Inr results) \<Rightarrow>
               Some (Inr (bench_status results, Runs results (if m = Single then [] else bench_deltas results)))))"

end
