(* ===== verification/Bench_Runner_Props.thy ===== *)
theory Bench_Runner_Props
  imports Bench_Runner Kernel_Asm Random_Gen_Props Debugger_Props
begin

text \<open>
  The benchmark runner compares what it says it compares: every comparison varies its own parameter only, and its runs
  write different files. A reported result is one the reference simulator confirmed. The kernel the out-of-order core runs, with
  another trailer, computes what the original computes.
\<close>

section \<open>The configurations of a comparison\<close>

definition varies_only :: "compare \<Rightarrow> rtl_config \<Rightarrow> rtl_config \<Rightarrow> bool" where
  "varies_only m c base \<longleftrightarrow>
     (case m of
        Compare_strategies \<Rightarrow> c\<lparr>hazard_strategy := 0\<rparr> = base\<lparr>hazard_strategy := 0\<rparr>
      | Compare_profiles \<Rightarrow> c\<lparr>pipeline_profile := 0\<rparr> = base\<lparr>pipeline_profile := 0\<rparr>
      | Compare_predictors \<Rightarrow> c\<lparr>branch_predictor := 0\<rparr> = base\<lparr>branch_predictor := 0\<rparr>
      | Compare_cache \<Rightarrow> c\<lparr>cache_mode := 0\<rparr> = base\<lparr>cache_mode := 0\<rparr>
      | Compare_latency \<Rightarrow> c\<lparr>mem_latency_i := 0, mem_latency_d := 0\<rparr> = base\<lparr>mem_latency_i := 0, mem_latency_d := 0\<rparr>
      | Compare_replacement \<Rightarrow> c\<lparr>replacement_policy := 0\<rparr> = base\<lparr>replacement_policy := 0\<rparr>
      | Compare_victim_cache \<Rightarrow> c\<lparr>victim_entries := 0\<rparr> = base\<lparr>victim_entries := 0\<rparr>
      | Compare_burst \<Rightarrow> c\<lparr>mem_latency_d_burst := 0\<rparr> = base\<lparr>mem_latency_d_burst := 0\<rparr>
      | Compare_mshr \<Rightarrow> c\<lparr>mshr_entries := 0\<rparr> = base\<lparr>mshr_entries := 0\<rparr>
      | Compare_l2 \<Rightarrow> c\<lparr>l2_size := 0\<rparr> = base\<lparr>l2_size := 0\<rparr>
      | Compare_prefetch \<Rightarrow> c\<lparr>prefetch_mode := 0\<rparr> = base\<lparr>prefetch_mode := 0\<rparr>
      | _ \<Rightarrow> c = base)"

definition effective :: "compare \<Rightarrow> rtl_config \<Rightarrow> bool" where
  "effective m c \<longleftrightarrow>
     (case m of
        Compare_replacement \<Rightarrow> cache_mode c = 1
      | Compare_victim_cache \<Rightarrow> cache_mode c = 1
      | Compare_mshr \<Rightarrow> cache_mode c = 1
      | Compare_l2 \<Rightarrow> cache_mode c = 1
      | Compare_burst \<Rightarrow> cache_mode c = 1 \<and> burst_enable c = 1 \<and> mem_latency_d c \<noteq> 0
      | Compare_prefetch \<Rightarrow> cache_mode c = 1 \<and> 1 < mshr_entries c
      | _ \<Rightarrow> True)"

lemma sep_inj: "x \<notin> set b \<Longrightarrow> x \<notin> set b' \<Longrightarrow> a @ x # b = a' @ x # b' \<longleftrightarrow> a = a' \<and> b = b'"
proof -
  assume n: "x \<notin> set b" "x \<notin> set b'"
  have "b = b'" if "a @ x # b = a' @ x # b'"
  proof -
    have "takeWhile (\<lambda>y. y \<noteq> x) (rev (a @ x # b)) = rev b" "takeWhile (\<lambda>y. y \<noteq> x) (rev (a' @ x # b')) = rev b'"
      using n by (simp_all add: takeWhile_tail takeWhile_append2 takeWhile_append)
    then show "b = b'" using that by simp
  qed
  then show ?thesis by auto
qed

lemma seps_inj:
  assumes "length ts = length ts'" "\<forall>t \<in> set ts. x \<notin> set t" "\<forall>t \<in> set ts'. x \<notin> set t"
  shows "a @ concat (map (Cons x) ts) = a' @ concat (map (Cons x) ts') \<longleftrightarrow> a = a' \<and> ts = ts'"
  using assms
proof (induction ts arbitrary: ts' rule: rev_induct)
  case (snoc t ts)
  then obtain us u where u: "ts' = us @ [u]" by (cases ts' rule: rev_cases) auto
  then show ?case
    using snoc(2-4) snoc(1) [of us] sep_inj [of x t u "a @ concat (map (Cons x) ts)" "a' @ concat (map (Cons x) us)"] by auto
qed simp

lemma str_no_underscore: "CHR ''_'' \<notin> set (py_str n)"
proof -
  have "CHR ''_'' \<notin> set (digits 10 m)" for m
  proof
    assume "CHR ''_'' \<in> set (digits 10 m)"
    then obtain d where "d < 10" "CHR ''_'' = digit_char d" using digits_set [of 10] by force
    then show False using digit_char_word [of d] by simp
  qed
  then show ?thesis by (simp add: py_str_def)
qed

lemma py_str_inject: "py_str a = py_str b \<longleftrightarrow> a = b"
  by (metis py_int0_str sum.inject(2))

definition same_but_l2 :: "rtl_config \<Rightarrow> rtl_config \<Rightarrow> bool" where
  "same_but_l2 c c' \<longleftrightarrow> c\<lparr>l2_ways := 0, l2_replacement := 0\<rparr> = c'\<lparr>l2_ways := 0, l2_replacement := 0\<rparr>"

lemma bench_tag_inject: "bench_tag n c = bench_tag n' c' \<longleftrightarrow> n = n' \<and> same_but_l2 c c'"
proof -
  define segs where "segs c = [''hs'' @ py_str (hazard_strategy c), ''p'' @ py_str (pipeline_profile c), ''bp'' @ py_str (branch_predictor c),
     ''cm'' @ py_str (cache_mode c), ''rp'' @ py_str (replacement_policy c), ''ve'' @ py_str (victim_entries c),
     ''be'' @ py_str (burst_enable c), ''ldb'' @ py_str (mem_latency_d_burst c), ''li'' @ py_str (mem_latency_i c),
     ''ld'' @ py_str (mem_latency_d c), ''me'' @ py_str (mshr_entries c), ''l2'' @ py_str (l2_size c), ''pf'' @ py_str (prefetch_mode c)]" for c :: rtl_config
  have t: "bench_tag n c = n @ concat (map (Cons (CHR ''_'')) (segs c))" for n c by (simp add: bench_tag_def segs_def)
  have "bench_tag n c = bench_tag n' c' \<longleftrightarrow> n = n' \<and> segs c = segs c'"
    unfolding t by (rule seps_inj) (simp_all add: segs_def str_no_underscore)
  also have "segs c = segs c' \<longleftrightarrow> same_but_l2 c c'"
    unfolding segs_def same_but_l2_def by (cases c; cases c') (auto simp: py_str_inject)
  finally show ?thesis .
qed

lemma plan_l2: "(k, c) \<in> set (bench_plan m base) \<Longrightarrow> l2_ways c = l2_ways base \<and> l2_replacement c = l2_replacement base"
  by (cases m) (auto simp: bench_plan_def)

lemma plan_axis:
  "let base = forced_options m args; plan = bench_plan m base in
     distinct (map fst plan) \<and> distinct (map snd plan) \<and> 
     (if m \<in> {Compare_vector, Compare_ooo} then plan = [] else if m = Single then plan = [(hazard_strategy args, args)] else 2 \<le> length plan) \<and>
     list_all (\<lambda>(key, c). varies_only m c base \<and> effective m c) plan"
  by (cases m; cases args) (simp_all add: bench_plan_def forced_options_def varies_only_def effective_def)

lemma plan_tags_distinct:
  assumes "distinct (map fst progs)" "distinct (map snd plan)" "\<And>key c. (key, c) \<in> set plan \<Longrightarrow> l2_ways c = w \<and> l2_replacement c = p"
  shows "distinct (map (\<lambda>((key, c), (name, txt)). bench_tag name c) (List.product plan progs))"
proof -
  have eq: "c = c'" if "same_but_l2 c c'" "l2_ways c = l2_ways c'" "l2_replacement c = l2_replacement c'" for c c'
    using that by (cases c; cases c') (simp add: same_but_l2_def)
  have i: "inj_on snd (set plan)" "inj_on fst (set progs)" "distinct plan" "distinct progs" using assms(1,2) by (auto simp: distinct_map)
  have "inj_on (\<lambda>((key, c), (name, txt)). bench_tag name c) (set (List.product plan progs))"
  proof (rule inj_onI, clarsimp simp: bench_tag_inject)
    fix k c n x k' c' x'
    assume a: "(k, c) \<in> set plan" "(n, x) \<in> set progs" "(k', c') \<in> set plan" "(n, x') \<in> set progs" "same_but_l2 c c'"
    then have "c = c'" using eq assms(3) by metis
    then show "k = k' \<and> c = c' \<and> x = x'" using inj_onD [OF i(1) _ a(1,3)] inj_onD [OF i(2) _ a(2,4)] by simp
  qed
  then show ?thesis using i(3,4) by (simp add: distinct_map distinct_product)
qed

text \<open>C16. Every comparison over a parameter of the pipelined core varies that parameter and nothing else: the keys of its configurations are
  distinct, so no configuration overwrites the results of another; the configurations are distinct and at least two; each agrees with
  the options given (after those the comparison forces) in everything but the compared parameter, and the forced options are those
  without which that parameter has no effect. A plain run has the one configuration of the options; the vector and out-of-order comparisons
  are separate paths and have no plan. For kernels with distinct names the tags of all runs, which name their testbench, simulation and output
  files, are distinct; the memory image is named by the kernel alone and is the same file for all its configurations.\<close>

theorem comparison_plan:
  fixes progs :: "(string \<times> string) list"
  assumes "distinct (map fst progs)"
  shows "let base = forced_options m args; plan = bench_plan m base in
     distinct (map fst plan) \<and> distinct (map snd plan) \<and> 
     (if m \<in> {Compare_vector, Compare_ooo} then plan = [] else if m = Single then plan = [(hazard_strategy args, args)] else 2 \<le> length plan) \<and>
     list_all (\<lambda>(key, c). varies_only m c base \<and> effective m c) plan \<and>
     distinct (map (\<lambda>((key, c), (name, txt)). bench_tag name c) (List.product plan progs))"
  using plan_axis [of m args] plan_tags_distinct [OF assms] plan_l2 unfolding Let_def by blast

theorem comparison_plan_witness:
  "distinct (map (\<lambda>((key, c), (name, txt)). bench_tag name c)
     (List.product (bench_plan Compare_l2 (forced_options Compare_l2 default_config)) [(''bench_fib'', ''nop''), (''bench_sum_array'', ''nop'')]))"
  using comparison_plan [of "[(''bench_fib'', ''nop''), (''bench_sum_array'', ''nop'')]" Compare_l2 default_config] by (simp add: Let_def)

section \<open>The exit status\<close>

lemma bench_status_zero: "bench_status results = 0 \<longleftrightarrow> list_all (\<lambda>(key, rs). list_all (\<lambda>(n, r). r \<noteq> None) rs) results"
proof -
  have "concat (map (\<lambda>(key, rs). map fst (filter (\<lambda>(n, r). r = None) rs)) results) = [] \<longleftrightarrow>
      list_all (\<lambda>(key, rs). list_all (\<lambda>(n, r). r \<noteq> None) rs) results"
    by (induction results) (auto simp: filter_empty_conv list_all_iff)
  then show ?thesis by (simp add: bench_status_def Let_def)
qed

lemma otraverse_ok:
  "(\<exists>ys. otraverse f xs = Some (Inr ys) \<and> list_all P ys) \<longleftrightarrow> list_all (\<lambda>x. \<exists>y. f x = Some (Inr y) \<and> P y) xs"
proof (induction xs)
  case (Cons x xs)
  show ?case unfolding list.pred_inject(2) Cons [symmetric] by (fastforce split: option.splits sum.splits)
qed simp

lemma reported_ok: "(\<exists>y. reported name out = Some (Inr y) \<and> (case y of (n, r) \<Rightarrow> r \<noteq> None)) \<longleftrightarrow> (\<exists>r. out = Some (Inr (Inr r)))"
  by (auto simp: reported_def split: option.splits sum.splits)

lemma bench_runs_ok:
  "(\<exists>results. bench_runs rg plan progs = Some (Inr results) \<and> bench_status results = 0) \<longleftrightarrow>
   list_all (\<lambda>(key, cfg). list_all (\<lambda>(name, txt). \<exists>r. run_bench rg cfg name txt (bench_mem_size name) 32 = Some (Inr (Inr r))) progs) plan"
proof -
  have p: "(\<exists>y. (case x of (key, cfg) \<Rightarrow> case otraverse (\<lambda>(name, txt). reported name (run_bench rg cfg name txt (bench_mem_size name) 32)) progs of
         None \<Rightarrow> None | Some (Inl e) \<Rightarrow> Some (Inl e) | Some (Inr rs) \<Rightarrow> Some (Inr (key, rs))) = Some (Inr y) \<and>
        (case y of (key, rs) \<Rightarrow> list_all (\<lambda>(n, r). r \<noteq> None) rs)) \<longleftrightarrow>
      (case x of (key, cfg) \<Rightarrow> list_all (\<lambda>(name, txt). \<exists>r. run_bench rg cfg name txt (bench_mem_size name) 32 = Some (Inr (Inr r))) progs)" for x
  proof (cases x)
    case (Pair key cfg)
    let ?f = "\<lambda>(name, txt). reported name (run_bench rg cfg name txt (bench_mem_size name) 32)"
    have "(\<exists>y. ?f z = Some (Inr y) \<and> (case y of (n, r) \<Rightarrow> r \<noteq> None)) \<longleftrightarrow>
        (case z of (name, txt) \<Rightarrow> \<exists>r. run_bench rg cfg name txt (bench_mem_size name) 32 = Some (Inr (Inr r)))" for z
      by (cases z) (simp only: prod.case reported_ok)
    then have "(\<exists>rs. otraverse ?f progs = Some (Inr rs) \<and> list_all (\<lambda>(n, r). r \<noteq> None) rs) \<longleftrightarrow>
        list_all (\<lambda>(name, txt). \<exists>r. run_bench rg cfg name txt (bench_mem_size name) 32 = Some (Inr (Inr r))) progs"
      unfolding otraverse_ok by simp
    then show ?thesis unfolding Pair by (auto split: option.splits sum.splits)
  qed
  show ?thesis unfolding bench_status_zero bench_runs_def otraverse_ok p ..
qed

text \<open>The exit status is 0 exactly when there are kernels and every planned run of every kernel succeeds.\<close>

lemma bench_exit_status:
  "m \<notin> {Compare_vector, Compare_ooo} \<Longrightarrow>
   (\<exists>rep. bench_main rg m args progs vf = Some (Inr (0, rep))) \<longleftrightarrow> progs \<noteq> [] \<and>
     list_all (\<lambda>(key, cfg). list_all (\<lambda>(name, txt). \<exists>r. run_bench rg cfg name txt (bench_mem_size name) 32 = Some (Inr (Inr r))) progs)
       (bench_plan m (forced_options m args))"
  unfolding bench_runs_ok [symmetric]
  by (cases m) (auto simp: bench_main_def split: option.splits sum.splits)

section \<open>Results\<close>

lemma asm_main_image:
  "(\<exists>out. asm_main src txt outp (int sz) xl = Some (out, img)) \<longleftrightarrow> (\<exists>ws. assemble (text_lines txt) xl = Inr ws \<and> write_mem ws sz = Inr img)"
  by (auto simp: asm_main_def split: sum.splits)

lemma image_words:
  assumes "assemble ls xl = Inr ws" "write_mem ws sz = Inr img"
  shows "load_words img = Inr (ws @ replicate (sz div 4 - length ws) 0)"
proof -
  have f: "all_fit 32 ws" using assms(1) unfolding assemble_def by (auto split: prod.splits intro: asm_stmts_fit)
  have "4 * length ws \<le> sz" using assms(2) fill_mem_result [of "replicate sz 0" sz 0 ws] by (cases "4 * length ws \<le> sz") (auto simp: write_mem_def split: if_splits)
  from load_written [OF f this] show ?thesis using assms(2) by auto
qed

definition x10_expected :: "string \<Rightarrow> iss \<Rightarrow> bool" where
  "x10_expected name s \<longleftrightarrow> (case map_of EXPECTED_X10 name of None \<Rightarrow> True | Some v \<Rightarrow> regs s ! 10 = v)"

lemma reference_run_ok:
  assumes "load_words img = Inr ws"
  shows "reference_run name img msize xl = Some (Inr (Inr n)) \<longleftrightarrow>
    (\<exists>s. run (iss_init msize xl) ws 200000 = Some (Inr (s, n)) \<and> x10_expected name s)"
  unfolding reference_run_def assms x10_expected_def by (auto split: option.splits sum.splits prod.splits)

lemma first_four:
  "rbind (list_at vs 0) (\<lambda>a. rbind (list_at vs 1) (\<lambda>b. rbind (list_at vs 2) (\<lambda>c. rbind (list_at vs 3) (\<lambda>d. f a b c d)))) = Inr y \<longleftrightarrow>
   (\<exists>a b c d r. vs = a # b # c # d # r \<and> f a b c d = Inr y)"
proof (cases "3 < length vs")
  case True
  then obtain a vs1 where 1: "vs = a # vs1" "2 < length vs1" by (cases vs) auto
  then obtain b vs2 where 2: "vs1 = b # vs2" "1 < length vs2" by (cases vs1) auto
  then obtain c vs3 where 3: "vs2 = c # vs3" "0 < length vs3" by (cases vs2) auto
  then obtain d r where "vs = a # b # c # d # r" using 1 2 by (cases vs3) auto
  then show ?thesis by (simp add: list_at_def)
qed auto

lemma read_bench_ok:
  "read_bench n r = Inr (Inr b) \<longleftrightarrow> compile_rc r = 0 \<and> sim_rc r = 0 \<and>
     (\<exists>file c im ia dm vals. sim_out r = Some file \<and> read_ints (\<lambda>v. v) file = Inr (c # im # ia # dm # vals) \<and> c \<noteq> 0 \<and>
       b = \<lparr>instructions = n, cycles = c, bench_ipc = of_int n / of_int c, icache_misses = im, icache_accesses = ia, dcache_misses = dm\<rparr>)"
proof (cases "sim_out r")
  case (Some fl)
  have "read_bench n r = Inr (Inr b) \<longleftrightarrow> compile_rc r = 0 \<and> sim_rc r = 0 \<and> (\<exists>vs. read_ints (\<lambda>v. v) fl = Inr vs \<and>
      (\<exists>c im ia dm vals. vs = c # im # ia # dm # vals \<and> rbind (true_div n c) (\<lambda>q.
        Inr (Inr \<lparr>instructions = n, cycles = c, bench_ipc = q, icache_misses = im, icache_accesses = ia, dcache_misses = dm\<rparr>)) = Inr (Inr b)))"
    unfolding read_bench_def Some option.case first_four [symmetric] rbind_eq_Inr [of "read_ints (\<lambda>v. v) fl", symmetric] by simp
  then show ?thesis unfolding Some by (auto simp: true_div_def)
qed (simp add: read_bench_def)

text \<open>C17. The runner reports a result for a kernel exactly when the kernel assembles into the memory, the reference simulator runs it to its end
  with the expected value in \<open>x10\<close>, and the Verilog tools succeed and dump a nonzero cycle count with three counters; the result then has
  the reference simulator's instruction count, the dumped numbers and their quotient.\<close>

theorem bench_result_exact:
  "run_bench rg cfg name txt (int sz) xl = Some (Inr (Inr b)) \<longleftrightarrow>
   (\<exists>ws img s n. assemble (text_lines txt) xl = Inr ws \<and> write_mem ws sz = Inr img \<and>
      run (iss_init (int sz) xl) (ws @ replicate (sz div 4 - length ws) 0) 200000 = Some (Inr (s, n)) \<and> x10_expected name s \<and>
      (let r = bench_simulate rg img (bench_testbench rg cfg name (int sz) xl n) in
       compile_rc r = 0 \<and> sim_rc r = 0 \<and>
       (\<exists>file c im ia dm vals. sim_out r = Some file \<and> read_ints (\<lambda>v. v) file = Inr (c # im # ia # dm # vals) \<and> c \<noteq> 0 \<and>
         b = \<lparr>instructions = n, cycles = c, bench_ipc = of_int n / of_int c, icache_misses = im, icache_accesses = ia, dcache_misses = dm\<rparr>)))"
proof -
  have "run_bench rg cfg name txt (int sz) xl = Some (Inr (Inr b)) \<longleftrightarrow>
    (\<exists>img. (\<exists>out. asm_main (bench_source rg name) txt (work_path rg (name @ ''.mem'')) (int sz) xl = Some (out, img)) \<and>
      (\<exists>n. reference_run name img (int sz) xl = Some (Inr (Inr n)) \<and>
        read_bench n (bench_simulate rg img (bench_testbench rg cfg name (int sz) xl n)) = Inr (Inr b)))"
    unfolding run_bench_def by (auto split: option.splits sum.splits prod.splits)
  then show ?thesis
    unfolding asm_main_image read_bench_ok Let_def by (auto simp: reference_run_ok image_words; blast)
qed

section \<open>The kernel of the out-of-order core\<close>

lemma step_fillers: "step s 0x0FF0000F = Inr (s\<lparr>pc := pc s + 4\<rparr>)" "step s 0x13 = Inr (s\<lparr>pc := pc s + 4\<rparr>)" "step s 0 = Inr (s\<lparr>pc := pc s + 4\<rparr>)"
proof -
  have d: "dec_op 0x0FF0000F = 0b0001111" "dec_f3 0x0FF0000F = 0" "dec_op 0x13 = 0b0010011" "dec_f3 0x13 = 0" "dec_rd 0x13 = 0" by code_simp+
  show "step s 0x0FF0000F = Inr (s\<lparr>pc := pc s + 4\<rparr>)" by (simp add: step_def d next_pc_def)
  show "step s 0x13 = Inr (s\<lparr>pc := pc s + 4\<rparr>)" 
  proof -
    have "imm_ok 0x13" by code_simp
    then obtain v where "op_imm_result (xlen s) 0x13 (reg_A s 0x13) = Inr v" using op_imm_defined by blast
    then show ?thesis by (simp add: step_def d next_pc_def step_op_imm_def wr_next_def wr_def Let_def)
  qed
  show "step s 0 = Inr (s\<lparr>pc := pc s + 4\<rparr>)" by (simp add: step_def)
qed

lemma loops: "self_loop 0x6F" "\<not> self_loop 0x0FF0000F" "\<not> self_loop 0x13" "\<not> self_loop 0"
  by code_simp+

lemma stripped_words:
  assumes "k < length body + 2 + length zs" "k \<noteq> length body + 1"
  shows "step s ((body @ [0x13, 0] @ zs) ! k) = step s ((body @ [0x0FF0000F, 0x6F] @ zs) ! k)"
    "self_loop ((body @ [0x13, 0] @ zs) ! k) = self_loop ((body @ [0x0FF0000F, 0x6F] @ zs) ! k)"
proof -
  consider "k < length body" | "k = length body" | j where "k = length body + (2 + j)" using assms(2) less_iff_Suc_add [of "length body" k] 
    by (metis add_2_eq_Suc add_Suc_right add.right_neutral linorder_neqE_nat plus_1_eq_Suc add.commute not0_implies_Suc)
  then show "step s ((body @ [0x13, 0] @ zs) ! k) = step s ((body @ [0x0FF0000F, 0x6F] @ zs) ! k)"
    "self_loop ((body @ [0x13, 0] @ zs) ! k) = self_loop ((body @ [0x0FF0000F, 0x6F] @ zs) ! k)"
    by (cases; simp add: nth_append step_fillers loops)+
qed

lemma stripped_run:
  assumes "run_loop ws M s n = Some r" "ws = body @ [0x0FF0000F, 0x6F] @ zs" "r = Inr (s', n')"
  shows "run_loop (body @ [0x13, 0] @ zs) M s n = run_loop (body @ [0x13, 0] @ zs) M s' n'"
proof -
  let ?ws = "body @ [0x0FF0000F, 0x6F] @ zs" and ?vs = "body @ [0x13, 0] @ zs"
  have "ws = ?ws \<longrightarrow> r = Inr (s', n') \<longrightarrow> run_loop ?vs M s n = run_loop ?vs M s' n'"
  proof (rule run_loop.raw_induct [where P = "\<lambda>ws M s n r. ws = ?ws \<longrightarrow> r = Inr (s', n') \<longrightarrow> run_loop ?vs M s n = run_loop ?vs M s' n'", OF _ assms(1)], intro impI)
    fix loop ws M s n r
    assume IH: "\<And>ws M s n r. loop ws M s n = Some r \<Longrightarrow> ws = ?ws \<longrightarrow> r = Inr (s', n') \<longrightarrow> run_loop ?vs M s n = run_loop ?vs M s' n'"
      and body: "run_body loop ws M s n = Some r" and ws: "ws = ?ws" and r: "r = Inr (s', n')"
    show "run_loop ?vs M s n = run_loop ?vs M s' n'"
    proof (cases "n < M \<and> \<not> interrupt_due s n")
      case True
      obtain t fa where t: "translate s (pc s) Fetch = (t, fa)" by fastforce
      show ?thesis
      proof (cases fa)
        case None
        then have "loop ws M t n = Some r" using body True t by simp
        then show ?thesis using IH ws r True t None by (subst run_loop.simps) simp
      next
        case (Some a)
        let ?k = "nat (a div 4)"
        have ts: "t = s" using mmu.hit t Some by blast
        have stop: "run_loop ?vs M s n = run_loop ?vs M s' n'" if "r = Inr (s, n)" using that r by simp
        show ?thesis
        proof (cases "a \<ge> int (length ws) * 4 \<or> self_loop (ws ! ?k)")
          case True
          then show ?thesis using body \<open>n < M \<and> \<not> interrupt_due s n\<close> t Some ts by (intro stop) (auto simp: Let_def split: if_splits)
        next
          case False
          then obtain u where u: "step s (ws ! ?k) = Inr u" "loop ws M u (n + 1) = Some r"
            using body \<open>n < M \<and> \<not> interrupt_due s n\<close> t Some ts r by (auto simp: Let_def split: sum.splits)
          have "?k < length body + 2 + length zs" using False ws by (auto simp: nat_less_iff div_less_iff_less_mult)
          moreover have "?k \<noteq> length body + 1" using False ws loops(1) by (auto simp: nth_append)
          ultimately have "step s (?vs ! ?k) = Inr u" "\<not> self_loop (?vs ! ?k)"
            using stripped_words [of ?k body zs] u(1) False ws by auto
          then have "run_loop ?vs M s n = run_loop ?vs M u (n + 1)"
            using True t Some ts False ws by (subst run_loop.simps) (simp add: Let_def)
          then show ?thesis using IH [OF u(2)] ws r by simp
        qed
      qed
    next
      case False
      then have "loop ws M (take_interrupt s) n = Some r" "n < M" "interrupt_due s n" using body r by (auto split: if_splits)
      then show ?thesis using IH ws r by (subst run_loop.simps) simp
    qed
  qed
  then show ?thesis using assms(2,3) by blast
qed

lemma zero_tail:
  assumes "wf_iss s" "priv_mode s = PRIV_M" "pending_interrupt s = None" "pc s = 4 * int p" "4 * int (p + k) < 2 ^ 32"
    "n + int k < M" "length ws = p + k" "\<forall>i. p \<le> i \<and> i < p + k \<longrightarrow> ws ! i = 0"
  shows "run_loop ws M s n = Some (Inr (s\<lparr>pc := 4 * int (length ws)\<rparr>, n + int k))"
  using assms
proof (induction k arbitrary: s n p)
  case 0
  have "uxlen s (4 * int p) = 4 * int p" using 0 by (intro uxlen_small) auto
  then show ?case using 0 by (subst run_loop.simps) (simp add: interrupt_due_def translate_M mult.commute)
next
  case (Suc k)
  have "uxlen s (4 * int p) = 4 * int p" using Suc(2,6) by (intro uxlen_small) auto
  then have "run_loop ws M s n = run_loop ws M (s\<lparr>pc := 4 * int (p + 1)\<rparr>) (n + 1)"
    using Suc(3-) by (subst run_loop.simps) (simp add: interrupt_due_def translate_M loops step_fillers Let_def algebra_simps)
  also have "\<dots> = Some (Inr (s\<lparr>pc := 4 * int (length ws)\<rparr>, n + 1 + int k))"
    using Suc(2-) by (subst Suc(1) [of _ "p + 1"]) (auto simp: algebra_simps wf_pc)
  finally show ?case by simp
qed

lemma strip_trailer:
  assumes "\<forall>l \<in> set (pre @ f # post). \<forall>c \<in> set l. \<not> is_linebreak c" "py_strip f = ''fence''" "\<forall>l \<in> set pre. py_strip l \<noteq> ''fence''"
  shows "strip_halt_trailer_for_ooo (join_lines (pre @ f # post)) = Inr (join_lines (pre @ [''addi x0, x0, 0'']))"
proof -
  have "takeWhile (\<lambda>l. py_strip l \<noteq> ''fence'') (pre @ f # post) = pre" using assms(2,3) by (simp add: takeWhile_append2 del: py_strip_def)
  then show ?thesis
    unfolding strip_halt_trailer_for_ooo_def splitlines_join [OF assms(1)] by (simp add: OOO_TRAILER_NOP_COUNT_def Let_def)
qed

lemma trailer_lines: "fixed_line xl ''fence'' 0x0FF0000F" "fixed_line xl ''addi x0, x0, 0'' 0x13"
proof -
  have e: "''fence'' = asm_line ''fence'' []" "''addi x0, x0, 0'' = asm_line ''addi'' [''x0'', ''x0'', ''0'']" by code_simp+
  have f: "plain_name ''fence''" "plain_name ''addi''" "list_all token [''x0'', ''x0'', ''0'']" "asm_alu 0 ''fence'' [] = None"
    "asm_mem Map.empty 0 ''fence'' [] = None" "asm_sys ''fence'' [] = Some (Inr 0x0FF0000F)" "plain_line ''fence''" "plain_line ''addi x0, x0, 0''"
    by code_simp+
  show "fixed_line xl ''fence'' 0x0FF0000F"
    unfolding fixed_line_def using f asm_insn_group(3) [OF f(4-6)] asm_stmt_line [OF f(1), of "[]"] e(1) by simp
  have "asm_alu xl ''addi'' [''x0'', ''x0'', ''0''] = Some (Inr 0x13)"
  proof -
    have k: "\<not> has_key R_TYPE ''addi''" "has_key I_TYPE ''addi''" "py_get I_TYPE ''addi'' = Inr 0" "reg ''x0'' = Inr 0" "imm (Tok ''0'') 12 True = Inr 0"
      by code_simp+
    show ?thesis by (simp add: asm_alu_def k reg_arg_def tok_arg_def arg_def i_type_def Let_def u_bits_def)
  qed
  then show "fixed_line xl ''addi x0, x0, 0'' 0x13"
    unfolding fixed_line_def using f(8) asm_insn_group(1) asm_stmt_line [OF f(2,3)] e(2) by metis
qed

lemma stripped_kernel:
  assumes shape: "py_strip h = ''halt:''" "statements post = [''jal x0, halt'']" "\<forall>l \<in> set post. label_name l = None"
    "\<forall>l \<in> set pre. label_name l \<noteq> Some ''halt''" "\<forall>l \<in> set (statements pre). ''halt'' \<notin> set (operands l)"
    "\<forall>l \<in> set pre. py_strip l \<noteq> ''fence''" "\<forall>l \<in> set (pre @ ''fence'' # h # post). \<forall>c \<in> set l. \<not> is_linebreak c"
    and asm: "assemble (pre @ ''fence'' # h # post) xl = Inr ws" "length ws \<le> sz" "k \<le> 28" "xl = 32 \<or> xl = 64" "sz < 2 ^ 28"
    and run: "run (iss_init (2 ^ k) xl) (ws @ replicate (sz - length ws) 0) M = Some (Inr (s, n))"
    and halted: "pc s = 4 * int (length ws - 1)" "priv_mode s = PRIV_M" "pending_interrupt s = None" "n + int sz < M"
  shows "\<exists>txt vs. strip_halt_trailer_for_ooo (join_lines (pre @ ''fence'' # h # post)) = Inr txt \<and> assemble (text_lines txt) xl = Inr vs \<and>
    length vs = length ws - 1 \<and>
    run_loop (vs @ replicate (sz - length vs) 0) M (iss_init (2 ^ k) xl) 0 = run_loop (vs @ replicate (sz - length vs) 0) M s n \<and>
    run (iss_init (2 ^ k) xl) (vs @ replicate (sz - length vs) 0) M =
      Some (Inr (s\<lparr>pc := 4 * int sz\<rparr>, n + int (sz - length vs)))"
proof -
  let ?body = "asm_stmts (snd (pass1 pre 0 [] Map.empty)) xl (addressed 0 (statements pre))"
  let ?E = "[''addi x0, x0, 0'']"
  note k = kernel_words [OF halt_line [OF shape(1)] shape(2-5) _ _ halt_jump, where xl = xl and P = "[]" and wP = "[]" and E = "[''fence'']" and wE = "[0x0FF0000F]"]
  have "assemble (pre @ [''fence''] @ h # post) xl = rbind ?body (\<lambda>body. Inr (body @ [0x0FF0000F, 0x6F]))"
    using k trailer_lines(1) by simp
  then obtain body where b: "?body = Inr body" "ws = body @ [0x0FF0000F, 0x6F]" using asm(1) by (cases ?body) auto
  let ?vs = "body @ [0x13]"
  have strip: "strip_halt_trailer_for_ooo (join_lines (pre @ ''fence'' # h # post)) = Inr (join_lines (pre @ ?E))"
    by (rule strip_trailer [OF shape(7) _ shape(6)]) code_simp
  have "\<forall>l \<in> set (pre @ ?E). CHR 0x0A \<notin> set l" using shape(7) by (auto simp: is_linebreak_def)
  then have a: "assemble (text_lines (join_lines (pre @ ?E))) xl = Inr ?vs"
    using added_words [of xl ?E "[0x13]" pre] trailer_lines(2) b(1) by (simp add: text_join)
  let ?zs = "replicate (sz - length ws) 0 :: int list"
  have w: "?vs @ replicate (sz - length ?vs) 0 = body @ [0x13, 0] @ ?zs"
    using asm(2) b(2) by (simp add: Suc_diff_Suc replicate_Suc [symmetric] del: replicate_Suc)
  have r: "run_loop (body @ [0x13, 0] @ ?zs) M (iss_init (2 ^ k) xl) 0 = run_loop (body @ [0x13, 0] @ ?zs) M s n"
    by (rule stripped_run [OF run [unfolded run_def]]) (simp_all add: b(2))
  have wf: "wf_iss s" 
    using run_loop_result [OF run [unfolded run_def]] wf_iss_init [of k xl] asm(3,4) by (simp add: run_result_ok_def)
  have len: "length (body @ [0x13, 0] @ ?zs) = sz" using asm(2) b(2) by simp
  have t: "run_loop (body @ [0x13, 0] @ ?zs) M s n = Some (Inr (s\<lparr>pc := 4 * int sz\<rparr>, n + int (sz - length ?vs)))"
    using zero_tail [of s "length body + 1" "sz - length ?vs" n M "body @ [0x13, 0] @ ?zs"] wf halted b(2) asm(2,5) len
    by (auto simp: nth_append nth_Cons' of_nat_diff)
  show ?thesis
    using strip a w r t b(2) by (intro exI [of _ "join_lines (pre @ ?E)"] exI [of _ ?vs]) (simp add: run_def)
qed

text \<open>C15. The out-of-order core runs a kernel whose \<open>fence\<close>, \<open>halt\<close> trailer is replaced by a \<open>nop\<close>. On the reference simulator the two kernels compute the
  same: if the original halts in its self-loop after \<open>n\<close> instructions, the stripped kernel assembles, fits the same
  memory and reaches the same state after the same \<open>n\<close> instructions, which is where the RTL run is stopped;
  run on, it falls through the zero words behind it to the end of the memory and changes nothing but the program counter.\<close>

theorem stripped_kernel_equivalent:
  assumes shape: "py_strip h = ''halt:''" "statements post = [''jal x0, halt'']" "\<forall>l \<in> set post. label_name l = None"
    "\<forall>l \<in> set pre. label_name l \<noteq> Some ''halt''" "\<forall>l \<in> set (statements pre). ''halt'' \<notin> set (operands l)"
    "\<forall>l \<in> set pre. py_strip l \<noteq> ''fence''" "\<forall>l \<in> set (pre @ ''fence'' # h # post). \<forall>c \<in> set l. \<not> is_linebreak c"
    and asm: "assemble (pre @ ''fence'' # h # post) xl = Inr ws" "4 * length ws \<le> 2 ^ k" "k \<le> 16" "xl = 32 \<or> xl = 64"
    and run: "run (iss_init (2 ^ k) xl) (ws @ replicate (2 ^ k div 4 - length ws) 0) 200000 = Some (Inr (s, n))"
    and halted: "pc s = 4 * int (length ws - 1)" "priv_mode s = PRIV_M" "pending_interrupt s = None" "n < 180000"
  shows "\<exists>txt vs. strip_halt_trailer_for_ooo (join_lines (pre @ ''fence'' # h # post)) = Inr txt \<and> assemble (text_lines txt) xl = Inr vs \<and>
    length vs = length ws - 1 \<and>
    (let image_words = vs @ replicate (2 ^ k div 4 - length vs) 0 in
     run_loop image_words 200000 (iss_init (2 ^ k) xl) 0 = run_loop image_words 200000 s n \<and>
     run (iss_init (2 ^ k) xl) image_words 200000 = Some (Inr (s\<lparr>pc := 4 * int (2 ^ k div 4)\<rparr>, n + int (2 ^ k div 4 - length vs))))"
proof -
  have "(2::nat) ^ k \<le> 2 ^ 16" using asm(3) by (intro power_increasing) simp_all
  then have "length ws \<le> 2 ^ k div 4" "k \<le> 28" "2 ^ k div 4 < (2::nat) ^ 28" "n + int (2 ^ k div 4) < 200000" using asm(2,3) halted(4) by simp_all
  from stripped_kernel [OF shape asm(1) this(1,2) asm(4) this(3) run halted(1-3) this(4)] show ?thesis unfolding Let_def .
qed

theorem stripped_kernel_equivalent_witness:
  "\<exists>txt vs s. strip_halt_trailer_for_ooo (join_lines [''addi x10, x0, 5'', ''fence'', ''halt:'', ''jal x0, halt'']) = Inr txt \<and>
     assemble (text_lines txt) 64 = Inr vs \<and> run (iss_init 16 64) (vs @ replicate (4 - length vs) 0) 200000 = Some (Inr (s, 4))"
proof -
  let ?init = "iss_init (2 ^ 4) 64" and ?pre = "[''addi x10, x0, 5'']" and ?ws = "[0x500513, 0x0FF0000F, 0x6F] :: int list"
  have a: "assemble (?pre @ ''fence'' # ''halt:'' # [''jal x0, halt'']) 64 = Inr ?ws" by code_simp
  have sh: "py_strip ''halt:'' = ''halt:''" "statements [''jal x0, halt''] = [''jal x0, halt'']" "\<forall>l \<in> set [''jal x0, halt'']. label_name l = None"
    "\<forall>l \<in> set ?pre. label_name l \<noteq> Some ''halt''" "\<forall>l \<in> set (statements ?pre). ''halt'' \<notin> set (operands l)"
    "\<forall>l \<in> set ?pre. py_strip l \<noteq> ''fence''" "\<forall>l \<in> set (?pre @ ''fence'' # ''halt:'' # [''jal x0, halt'']). \<forall>c \<in> set l. \<not> is_linebreak c"
    by code_simp+
  have d: "dec_op 0x500513 = 0b0010011" "dec_rd 0x500513 = 10" "imm_ok 0x500513" "\<not> self_loop 0x500513" by code_simp+
  obtain v where "op_imm_result (xlen ?init) 0x500513 (reg_A ?init 0x500513) = Inr v" using op_imm_defined [OF d(3)] by blast
  then have s1: "step ?init 0x500513 = Inr (wr_next ?init 10 v)" by (simp add: step_def d step_op_imm_def Let_def)
  let ?s = "(wr_next ?init 10 v)\<lparr>pc := 8\<rparr>"
  have f0: "pc ?init = 0" "priv_mode ?init = PRIV_M" "pending_interrupt ?init = None" "xlen ?init = 64"
    by (simp_all add: iss_init_def)
  have f: "pc (wr_next ?init 10 v) = 4" "priv_mode (wr_next ?init 10 v) = PRIV_M" "pending_interrupt (wr_next ?init 10 v) = None" "xlen (wr_next ?init 10 v) = 64"
    using f0 by (simp_all add: wr_next_def wr_def next_pc_def)
  have ux: "uXLEN 0 64 = 0" "uXLEN 4 64 = 4" "uXLEN 8 64 = 8" by code_simp+
  have "run_loop (?ws @ [0]) 200000 ?init 0 = run_loop (?ws @ [0]) 200000 (wr_next ?init 10 v) 1"
    using s1 d(4) f0 by (subst run_loop.simps) (simp add: interrupt_due_def translate_M uxlen_def ux Let_def)
  also have "\<dots> = run_loop (?ws @ [0]) 200000 ?s 2"
    using f by (subst run_loop.simps) (simp add: interrupt_due_def translate_M uxlen_def ux step_fillers loops Let_def)
  also have "\<dots> = Some (Inr (?s, 2))"
    using f by (subst run_loop.simps) (simp add: interrupt_due_def translate_M uxlen_def ux loops Let_def)
  finally have r: "run ?init (?ws @ replicate (2 ^ 4 div 4 - length ?ws) 0) 200000 = Some (Inr (?s, 2))" by (simp add: run_def)
  have h: "4 * length ?ws \<le> 2 ^ 4" "(4::nat) \<le> 16" "(64::nat) = 32 \<or> (64::nat) = 64" "pc ?s = 4 * int (length ?ws - 1)" "priv_mode ?s = PRIV_M"
    "pending_interrupt ?s = None" "(2::int) < 180000" using f by simp_all
  obtain tx vs where "strip_halt_trailer_for_ooo (join_lines (?pre @ ''fence'' # ''halt:'' # [''jal x0, halt''])) = Inr tx"
    "assemble (text_lines tx) 64 = Inr vs" "length vs = length ?ws - 1"
    "run ?init (vs @ replicate (2 ^ 4 div 4 - length vs) 0) 200000 = Some (Inr (?s\<lparr>pc := 4 * int (2 ^ 4 div 4)\<rparr>, 2 + int (2 ^ 4 div 4 - length vs)))"
    using stripped_kernel_equivalent [OF sh a h(1-3) r h(4-7)] unfolding Let_def by blast
  then show ?thesis by (intro exI [of _ tx] exI [of _ vs] exI) (simp; fail)
qed

end
