(* ===== verification/Boot_Image.thy ===== *)
theory Boot_Image
  imports Elf2mem Gen_Dtb
begin

text \<open>
  The builders of boot images: \<open>build_linux_boot.py\<close> combines the firmware, a Linux kernel, its initial ramdisk and a device tree into an
  instruction and a data memory image, and \<open>build_sbi_firmware.py\<close> lays a device tree over the data memory of the firmware. They call
  \<open>elf2mem.py\<close> and \<open>gen_dtb.py\<close> as commands. The C compiler is a parameter: whether a command succeeds, and what the ELF
  tools say of the file it linked. Bytes are integers.
\<close>

section \<open>Commands\<close>

record fw_tools =
  gcc :: "string list \<Rightarrow> bool"
    \<comment> \<open>whether the command exits with status 0\<close>
  fw_elf :: elf_tools
    \<comment> \<open>the tools on the linked file\<close>

definition as_command :: "'a result \<Rightarrow> 'a result" where
  \<comment> \<open>\<open>run\<close> on a Python tool: any exception of the tool is a nonzero exit status\<close>
  "as_command r = (case r of Inl e \<Rightarrow> Inl RuntimeError | Inr x \<Rightarrow> Inr x)"

definition run_gcc :: "fw_tools \<Rightarrow> string list list \<Rightarrow> unit result" where
  \<comment> \<open>\<open>run\<close> on compiler commands, one after the other\<close>
  "run_gcc tools cmds = (if list_all (gcc tools) cmds then Inr () else Inl RuntimeError)"

definition gen_dtb_main :: "int \<Rightarrow> string \<Rightarrow> int option \<Rightarrow> int option \<Rightarrow> int list result" where
  \<comment> \<open>\<open>gen_dtb.py\<close> as a command, with the default clocks: the file it writes\<close>
  "gen_dtb_main mem_size_bytes bootargs initrd_start initrd_end =
     rbind (build_this_core_dtb mem_size_bytes 1000000 1843200 bootargs initrd_start initrd_end) (\<lambda>blob.
     rbind (parse_and_validate blob) (\<lambda>info. Inr blob))"

definition hex_of :: "int \<Rightarrow> string" where
  \<comment> \<open>\<open>f"{n:#x}"\<close> for \<open>n >= 0\<close>\<close>
  "hex_of n = ''0x'' @ py_hex n"

definition gcc_commands :: "string \<Rightarrow> string list \<Rightarrow> (string \<times> string) list \<Rightarrow> string \<Rightarrow> string list list" where
  \<comment> \<open>compile every source to its object, then link\<close>
  "gcc_commands cc cflags sources elf =
     map (\<lambda>(src, obj). cc # cflags @ [''-c'', src, ''-o'', obj]) sources @ [cc # cflags @ map snd sources @ [''-o'', elf]]"

definition in_dir :: "string \<Rightarrow> string \<Rightarrow> string" where
  \<comment> \<open>\<open>os.path.join(d, f)\<close>\<close>
  "in_dir d f = d @ ''/'' @ f"

section \<open>The firmware image\<close>

definition SBI_MEM_SIZE :: int where "SBI_MEM_SIZE = 32768"

definition DTB_ADDR :: int where "DTB_ADDR = 0x4000"

definition sbi_cflags :: "string \<Rightarrow> int \<Rightarrow> string list" where
  "sbi_cflags fw_dir spec_version =
     [''-march=rv64imafd_zicsr'', ''-mabi=lp64'', ''-nostdlib'', ''-nostartfiles'', ''-ffreestanding'', ''-msmall-data-limit=0'', ''-O1'',
      ''-DSPEC_VERSION_TO_REPORT='' @ py_str spec_version, ''-Wl,-T,'' @ in_dir fw_dir ''link_sbi.ld'', ''-I'', fw_dir]"

definition objects_of :: "string \<Rightarrow> string \<Rightarrow> (string \<times> string) list \<Rightarrow> (string \<times> string) list" where
  \<comment> \<open>sources with their extension, and the objects they compile to\<close>
  "objects_of fw_dir build_dir fs = map (\<lambda>(stem, ext). (in_dir fw_dir (stem @ ext), in_dir build_dir (stem @ ''.o''))) fs"

definition overlay_dtb_into_dmem :: "string \<Rightarrow> int list \<Rightarrow> nat \<Rightarrow> string result" where
  \<comment> \<open>the old text of the image and the blob; the new text\<close>
  "overlay_dtb_into_dmem dmem_text dtb_bytes dtb_addr =
     (let ls = py_splitlines dmem_text in
      if dtb_addr + length dtb_bytes > length ls then Inl ValueError
      else let ls' = take dtb_addr ls @ map (format_b 8) dtb_bytes @ drop (dtb_addr + length dtb_bytes) ls in
        Inr (if ls' = [] then [CHR 0x0A] else join_lines ls'))"

definition sbi_firmware :: "fw_tools \<Rightarrow> string \<Rightarrow> string \<Rightarrow> string \<Rightarrow> int \<Rightarrow> (string \<times> string) result" where
  \<comment> \<open>\<open>main\<close> of \<open>build_sbi_firmware.py\<close>: the two memory images\<close>
  "sbi_firmware tools cc fw_dir build_dir spec_version =
     rbind (run_gcc tools (gcc_commands cc (sbi_cflags fw_dir spec_version)
       (objects_of fw_dir build_dir [(''boot'', ''.S''), (''trap_entry'', ''.S''), (''sbi'', ''.c''), (''payload_start'', ''.S''), (''payload'', ''.c'')])
       (in_dir build_dir ''sbi_firmware.elf''))) (\<lambda>_.
     rbind (as_command (elf2mem (fw_elf tools) SBI_MEM_SIZE SBI_MEM_SIZE ''.text.boot,.text.payload'')) (\<lambda>(imem, dmem).
     rbind (as_command (gen_dtb_main SBI_MEM_SIZE ''console=ttyS0 earlycon'' None None)) (\<lambda>dtb.
     rbind (overlay_dtb_into_dmem dmem dtb (nat DTB_ADDR)) (\<lambda>dmem'. Inr (imem, dmem')))))"

section \<open>The Linux image\<close>

definition FW_LINK_SIZE :: int where "FW_LINK_SIZE = 32768"

definition KERNEL_LOAD_ADDR :: int where "KERNEL_LOAD_ADDR = 0x200000"

definition INITRD_ADDR :: int where "INITRD_ADDR = 0x1000000"

definition DTB_ADDR_KERNEL :: int where "DTB_ADDR_KERNEL = 0x1500000"

fun mem_bytes :: "nat \<Rightarrow> string list \<Rightarrow> int list \<Rightarrow> int list result" where
  \<comment> \<open>the loop of \<open>read_mem\<close> from line \<open>i\<close> on; a bytearray takes the values 0 to 255\<close>
  "mem_bytes i [] buf = Inr buf"
| "mem_bytes i (raw # ls) buf =
     (let line = py_strip raw in
      if line = [] then mem_bytes (i + 1) ls buf
      else rbind (py_int2 line) (\<lambda>v.
        if \<not> fits 8 v then Inl ValueError
        else if i < length buf then mem_bytes (i + 1) ls (buf[i := v]) else Inl IndexError))"

definition read_mem :: "string \<Rightarrow> nat \<Rightarrow> int list result" where
  "read_mem file size_bytes = mem_bytes 0 (text_lines file) (replicate size_bytes 0)"

definition unpack_Q :: "int list \<Rightarrow> nat \<Rightarrow> int result" where
  \<comment> \<open>\<open>struct.unpack_from("<Q", data, i)[0]\<close>\<close>
  "unpack_Q data i = (if i + 8 \<le> length data then Inr (be_value (rev (slice data i 8))) else Inl StructError)"

definition check_image :: "int list \<Rightarrow> int list \<Rightarrow> unit result" where
  \<comment> \<open>the header of the kernel, and that nothing overlaps\<close>
  "check_image kernel_bytes initramfs_bytes =
     rbind (unpack_Q kernel_bytes 8) (\<lambda>text_offset.
       if slice kernel_bytes 0x30 8 \<noteq> [0x52, 0x49, 0x53, 0x43, 0x56, 0, 0, 0] then Inl ValueError
       else if text_offset \<noteq> KERNEL_LOAD_ADDR then Inl ValueError
       else if INITRD_ADDR < KERNEL_LOAD_ADDR + int (length kernel_bytes) then Inl ValueError
       else if DTB_ADDR_KERNEL < INITRD_ADDR + int (length initramfs_bytes) then Inl ValueError
       else Inr ())"

definition linux_cflags :: "string \<Rightarrow> string list" where
  "linux_cflags fw_dir =
     [''-march=rv64imafd_zicsr'', ''-mabi=lp64'', ''-nostdlib'', ''-nostartfiles'', ''-ffreestanding'', ''-msmall-data-limit=0'', ''-O1'',
      ''-DSPEC_VERSION_TO_REPORT=2'', ''-DKERNEL_ENTRY='' @ hex_of KERNEL_LOAD_ADDR, ''-DKERNEL_DTB_ADDR='' @ hex_of DTB_ADDR_KERNEL,
      ''-Wl,-T,'' @ in_dir fw_dir ''link_sbi.ld'', ''-I'', fw_dir]"

definition linux_bootargs :: string where
  "linux_bootargs = ''earlycon=uart8250,mmio,0x10000000,1000000n8 console=ttyS0 rdinit=/init''"

definition combine :: "nat \<Rightarrow> (int \<times> int list) list \<Rightarrow> int list" where
  \<comment> \<open>a zeroed bytearray and slice assignments to it\<close>
  "combine limit parts = foldl (\<lambda>m (a, b). slice_set m a (a + int (length b)) b) (replicate limit 0) parts"

definition linux_boot :: "fw_tools \<Rightarrow> string \<Rightarrow> string \<Rightarrow> string \<Rightarrow> int list \<Rightarrow> int list \<Rightarrow> int \<Rightarrow> (string \<times> string \<times> int) result" where
  \<comment> \<open>\<open>main\<close> of \<open>build_linux_boot.py\<close>: the two memory images and the zero-initialisation limit it reports\<close>
  "linux_boot tools cc fw_dir build_dir kernel_bytes initramfs_bytes mem_size_bytes =
     rbind (check_image kernel_bytes initramfs_bytes) (\<lambda>_.
     rbind (run_gcc tools (gcc_commands cc (linux_cflags fw_dir)
       (objects_of fw_dir build_dir [(''boot'', ''.S''), (''trap_entry'', ''.S''), (''sbi'', ''.c'')]) (in_dir build_dir ''fw.elf''))) (\<lambda>_.
     rbind (as_command (elf2mem (fw_elf tools) FW_LINK_SIZE FW_LINK_SIZE ''.text.boot'')) (\<lambda>(fw_imem_text, fw_dmem_text).
     rbind (read_mem fw_imem_text (nat FW_LINK_SIZE)) (\<lambda>fw_imem.
     rbind (read_mem fw_dmem_text (nat FW_LINK_SIZE)) (\<lambda>fw_dmem.
     rbind (as_command (gen_dtb_main mem_size_bytes linux_bootargs (Some INITRD_ADDR) (Some (INITRD_ADDR + int (length initramfs_bytes))))) (\<lambda>dtb_bytes.
       let content_end = DTB_ADDR_KERNEL + int (length dtb_bytes) in
       if content_end > mem_size_bytes then Inl ValueError
       else let zero_init_limit = (content_end + 4095) div 4096 * 4096 in
         Inr (mem_lines (combine (nat zero_init_limit) [(0, fw_imem), (KERNEL_LOAD_ADDR, kernel_bytes)]),
              mem_lines (combine (nat zero_init_limit) [(0, fw_dmem), (KERNEL_LOAD_ADDR, kernel_bytes), (INITRD_ADDR, initramfs_bytes), (DTB_ADDR_KERNEL, dtb_bytes)]),
              zero_init_limit)))))))"

end
