(* ===== verification/Boot_Image_Props.thy ===== *)
theory Boot_Image_Props
  imports Boot_Image Elf2mem_Props Gen_Dtb_Props
begin

text \<open>
  The boot images hold what they were built from: the images of the firmware are read back byte for byte, and the combined images are
  the firmware, the kernel, the initial ramdisk and the device tree at their addresses with zeros between them.
\<close>

section \<open>Reading images back\<close>

lemma mem_text_lines: "text_lines (mem_lines m) = map (format_b 8) m"
proof -
  have n: "\<forall>l \<in> set (map (format_b 8) m). CHR 0x0A \<notin> set l" using format_b_binary [of 8] by fastforce
  show ?thesis using text_lines_concat [OF n] by (simp add: mem_lines_def comp_def)
qed

lemma format_b_nonempty: "format_b 8 b \<noteq> []"
  by (simp add: format_b_def Let_def)

lemma byte_read: "fits 8 b \<Longrightarrow> py_strip (format_b 8 b) = format_b 8 b \<and> py_int2 (format_b 8 b) = Inr b"
proof -
  assume b: "fits 8 b"
  have "py_strip (format_b 8 b) = format_b 8 b"
    by (rule strip_id) (use format_b_binary [of 8 b] in \<open>auto simp: py_isspace_def\<close>)
  moreover have "py_int2 (format_b 8 b) = Inr b"
    using py_int2_binary [OF format_b_binary format_b_nonempty] bin_val_format_b fitsD(1) [OF b] by simp
  ultimately show ?thesis ..
qed

lemma mem_bytes_text:
  "list_all (fits 8) ds \<Longrightarrow> mem_bytes (length p) (map (format_b 8) ds) (p @ rest) =
     (if length ds \<le> length rest then Inr (p @ ds @ drop (length ds) rest) else Inl IndexError)"
proof (induction ds arbitrary: p rest)
  case (Cons d ds)
  have d: "fits 8 d" "py_strip (format_b 8 d) = format_b 8 d" "py_int2 (format_b 8 d) = Inr d" using Cons(2) byte_read [of d] by auto
  show ?case
  proof (cases rest)
    case (Cons r rs)
    then have u: "(p @ rest)[length p := d] = (p @ [d]) @ rs" by (simp add: list_update_append)
    show ?thesis
      using Cons.IH [of "p @ [d]" rs] Cons.prems d by (simp add: Let_def format_b_nonempty u) (simp add: Cons)
  qed (use d in \<open>simp add: Let_def format_b_nonempty\<close>)
qed simp

text \<open>\<open>read_mem\<close> inverts \<open>write_mem\<close> of \<open>elf2mem.py\<close>.\<close>

lemma read_mem_text:
  "all_fit 8 m \<Longrightarrow> read_mem (mem_lines m) n = (if length m \<le> n then Inr (m @ replicate (n - length m) 0) else Inl IndexError)"
  using mem_bytes_text [of m "[]" "replicate n 0"] by (simp add: read_mem_def mem_text_lines all_fit_def)

section \<open>The device tree of the firmware\<close>

lemma splitlines_mem: "py_splitlines (mem_lines m) = map (format_b 8) m"
proof -
  have "\<forall>l \<in> set (map (format_b 8) m). \<forall>c \<in> set l. \<not> is_linebreak c" using format_b_binary [of 8] by (fastforce simp: is_linebreak_def)
  from splitlines_join [OF this] show ?thesis by (simp add: mem_lines_def join_lines_def comp_def)
qed

text \<open>Replacing lines of the text replaces bytes of the image.\<close>

lemma overlay_bytes:
  "overlay_dtb_into_dmem (mem_lines m) dtb a =
     (if a + length dtb \<le> length m then Inr (if m = [] then [CHR 0x0A] else mem_lines (take a m @ dtb @ drop (a + length dtb) m)) else Inl ValueError)"
proof -
  have "mem_lines ds = join_lines (map (format_b 8) ds)" for ds by (simp add: mem_lines_def join_lines_def comp_def)
  then show ?thesis
    unfolding overlay_dtb_into_dmem_def splitlines_mem Let_def by (auto simp: take_map drop_map)
qed

section \<open>Laying out an image\<close>

fun laid_out :: "nat \<Rightarrow> nat \<Rightarrow> (nat \<times> int list) list \<Rightarrow> int list" where
  "laid_out k limit [] = replicate (limit - k) 0"
| "laid_out k limit ((a, b) # ps) = replicate (a - k) 0 @ b @ laid_out (a + length b) limit ps"

fun ascending :: "nat \<Rightarrow> nat \<Rightarrow> (nat \<times> int list) list \<Rightarrow> bool" where
  "ascending k limit [] \<longleftrightarrow> k \<le> limit"
| "ascending k limit ((a, b) # ps) \<longleftrightarrow> k \<le> a \<and> ascending (a + length b) limit ps"

lemma ascending_le: "ascending k limit ps \<Longrightarrow> k \<le> limit"
  by (induction k limit ps rule: ascending.induct) auto

lemma combine_from:
  "ascending (length p) limit ps \<Longrightarrow>
   foldl (\<lambda>m (a, b). slice_set m a (a + int (length b)) b) (p @ replicate (limit - length p) 0) (map (\<lambda>(a, b). (int a, b)) ps) = p @ laid_out (length p) limit ps"
proof (induction ps arbitrary: p)
  case (Cons q ps)
  obtain a b where q: "q = (a, b)" by fastforce
  have l: "length p \<le> a" "ascending (a + length b) limit ps" "a + length b \<le> limit" using Cons(2) ascending_le by (auto simp: q)
  let ?p = "p @ replicate (a - length p) 0 @ b"
  have "slice_set (p @ replicate (limit - length p) 0) (int a) (int a + int (length b)) b = ?p @ replicate (limit - length ?p) 0"
    using l by (simp add: slice_set_def Let_def nat_add_distrib min_def)
  then show ?case using Cons(1) [of ?p] l by (simp add: q)
qed simp

lemma combine_layout: "ascending 0 limit ps \<Longrightarrow> combine limit (map (\<lambda>(a, b). (int a, b)) ps) = laid_out 0 limit ps"
  using combine_from [of "[]"] by (simp add: combine_def)

lemma check_image_ok: "check_image kern initrd = Inr () \<longleftrightarrow> 0x38 \<le> length kern \<and> be_value (rev (slice kern 8 8)) = KERNEL_LOAD_ADDR \<and>
    slice kern 0x30 8 = [0x52, 0x49, 0x53, 0x43, 0x56, 0, 0, 0] \<and> KERNEL_LOAD_ADDR + int (length kern) \<le> INITRD_ADDR \<and>
    INITRD_ADDR + int (length initrd) \<le> DTB_ADDR_KERNEL"
proof -
  have "0x38 \<le> length kern" if "slice kern 0x30 8 = [0x52, 0x49, 0x53, 0x43, 0x56, 0, 0, 0]"
    using arg_cong [OF that, of length] by (simp add: slice_def)
  then show ?thesis by (auto simp: check_image_def unpack_Q_def)
qed

lemma boot_layout:
  assumes "length mi \<le> 32768" "length md \<le> 32768" "KERNEL_LOAD_ADDR + int (length kern) \<le> INITRD_ADDR" "INITRD_ADDR + int (length initrd) \<le> DTB_ADDR_KERNEL"
    "DTB_ADDR_KERNEL + int (length dtb) \<le> int limit"
  shows "combine limit [(0, mi @ replicate (32768 - length mi) 0), (KERNEL_LOAD_ADDR, kern)] =
      mi @ replicate (0x200000 - length mi) 0 @ kern @ replicate (limit - (0x200000 + length kern)) 0"
    "combine limit [(0, md @ replicate (32768 - length md) 0), (KERNEL_LOAD_ADDR, kern), (INITRD_ADDR, initrd), (DTB_ADDR_KERNEL, dtb)] =
      md @ replicate (0x200000 - length md) 0 @ kern @ replicate (0x1000000 - (0x200000 + length kern)) 0 @
      initrd @ replicate (0x1500000 - (0x1000000 + length initrd)) 0 @ dtb @ replicate (limit - (0x1500000 + length dtb)) 0"
proof -
  have b: "0x200000 + length kern \<le> 0x1000000" "0x1000000 + length initrd \<le> 0x1500000" "0x1500000 + length dtb \<le> limit"
    using assms(3-5) by (simp_all add: KERNEL_LOAD_ADDR_def INITRD_ADDR_def DTB_ADDR_KERNEL_def)
  have pad: "replicate (32768 - length m) 0 @ replicate (0x200000 - 32768) 0 @ r = replicate (0x200000 - length m) (0::int) @ r"
    if "length m \<le> 32768" for m r :: "int list"
    using that by (simp add: replicate_add [symmetric] append_assoc [symmetric] del: append_assoc)
  show "combine limit [(0, mi @ replicate (32768 - length mi) 0), (KERNEL_LOAD_ADDR, kern)] =
      mi @ replicate (0x200000 - length mi) 0 @ kern @ replicate (limit - (0x200000 + length kern)) 0"
    using combine_layout [of limit "[(0, mi @ replicate (32768 - length mi) 0), (0x200000, kern)]"] b assms(1) pad [OF assms(1)]
    by (simp add: KERNEL_LOAD_ADDR_def)
  show "combine limit [(0, md @ replicate (32768 - length md) 0), (KERNEL_LOAD_ADDR, kern), (INITRD_ADDR, initrd), (DTB_ADDR_KERNEL, dtb)] =
      md @ replicate (0x200000 - length md) 0 @ kern @ replicate (0x1000000 - (0x200000 + length kern)) 0 @
      initrd @ replicate (0x1500000 - (0x1000000 + length initrd)) 0 @ dtb @ replicate (limit - (0x1500000 + length dtb)) 0"
    using combine_layout [of limit "[(0, md @ replicate (32768 - length md) 0), (0x200000, kern), (0x1000000, initrd), (0x1500000, dtb)]"] b assms(2) pad [OF assms(2)]
    by (simp add: KERNEL_LOAD_ADDR_def INITRD_ADDR_def DTB_ADDR_KERNEL_def)
qed

section \<open>The parts of the Linux image\<close>

definition boot_dtb :: "int \<Rightarrow> int list \<Rightarrow> int list result" where
  \<comment> \<open>the device tree of a boot with this initial ramdisk\<close>
  "boot_dtb msize initrd = build_this_core_dtb msize 1000000 1843200 linux_bootargs (Some INITRD_ADDR) (Some (INITRD_ADDR + int (length initrd)))"

lemma boot_dtb_built: "\<exists>blob. boot_dtb msize initrd = Inr blob \<and>
    gen_dtb_main msize linux_bootargs (Some INITRD_ADDR) (Some (INITRD_ADDR + int (length initrd))) = Inr blob"
proof -
  have "ascii linux_bootargs" "length linux_bootargs \<le> 2 ^ 30" by (simp_all add: linux_bootargs_def ascii_def)
  from core_dtb_built [OF this] obtain blob info where
    "build_this_core_dtb msize 1000000 1843200 linux_bootargs (Some INITRD_ADDR) (Some (INITRD_ADDR + int (length initrd))) = Inr blob"
    "parse_and_validate blob = Inr info" by blast
  then show ?thesis by (simp add: boot_dtb_def gen_dtb_main_def)
qed

definition fw_commands :: "string \<Rightarrow> string \<Rightarrow> string \<Rightarrow> string list list" where
  "fw_commands cc fw_dir build_dir = gcc_commands cc (linux_cflags fw_dir)
       (objects_of fw_dir build_dir [(''boot'', ''.S''), (''trap_entry'', ''.S''), (''sbi'', ''.c'')]) (in_dir build_dir ''fw.elf'')"

lemma as_command_Inr [simp]: "as_command r = Inr x \<longleftrightarrow> r = Inr x"
  by (cases r) (simp_all add: as_command_def)

lemma elf2mem_bytes:
  assumes "\<forall>sec b. objcopy tools sec = Some b \<longrightarrow> all_fit 8 b" "elf2mem tools isize dsize secs = Inr (itext, dtext)"
  shows "\<exists>mi md. itext = mem_lines mi \<and> dtext = mem_lines md \<and> all_fit 8 mi \<and> all_fit 8 md"
proof -
  obtain il dl where l: "section_loads tools (split_on (CHR '','') secs) = Inr il" "data_loads tools = Inr dl"
    "itext = mem_lines (foldl put (replicate (nat isize) 0) il)" "dtext = mem_lines (foldl put (replicate (nat dsize) 0) dl)"
    using assms(2) elf2mem_Inr by metis
  have "all_fit 8 (foldl put (replicate (nat isize) 0) il)" "all_fit 8 (foldl put (replicate (nat dsize) 0) dl)"
    using loads_bytes(1) [OF assms(1) l(1)] loads_bytes(2) [OF assms(1) l(2)] by (auto intro: all_fit_puts)
  then show ?thesis using l by blast
qed

text \<open>The firmware read back from its two files.\<close>

lemma firmware_read:
  assumes "\<forall>sec b. objcopy tools sec = Some b \<longrightarrow> all_fit 8 b"
  shows "(\<exists>it dt. elf2mem tools FW_LINK_SIZE FW_LINK_SIZE secs = Inr (it, dt) \<and> read_mem it (nat FW_LINK_SIZE) = Inr fi \<and>
      read_mem dt (nat FW_LINK_SIZE) = Inr fd) \<longleftrightarrow>
    (\<exists>mi md. elf2mem tools FW_LINK_SIZE FW_LINK_SIZE secs = Inr (mem_lines mi, mem_lines md) \<and> all_fit 8 mi \<and> all_fit 8 md \<and>
      length mi \<le> 32768 \<and> length md \<le> 32768 \<and> fi = mi @ replicate (32768 - length mi) 0 \<and> fd = md @ replicate (32768 - length md) 0)"
    (is "?l \<longleftrightarrow> ?r")
proof -
  have r: "read_mem (mem_lines m) (nat FW_LINK_SIZE) = Inr f \<longleftrightarrow> length m \<le> 32768 \<and> f = m @ replicate (32768 - length m) 0" if "all_fit 8 m" for m f
    using read_mem_text [OF that, of "nat FW_LINK_SIZE"] by (auto simp: FW_LINK_SIZE_def)
  show ?thesis
  proof
    assume ?l
    then obtain it dt where l: "elf2mem tools FW_LINK_SIZE FW_LINK_SIZE secs = Inr (it, dt)" "read_mem it (nat FW_LINK_SIZE) = Inr fi"
      "read_mem dt (nat FW_LINK_SIZE) = Inr fd" by blast
    obtain mi md where m: "it = mem_lines mi" "dt = mem_lines md" "all_fit 8 mi" "all_fit 8 md" using elf2mem_bytes [OF assms l(1)] by blast
    show ?r using l(1) m(3,4) l(2) [unfolded m(1) r [OF m(3)]] l(3) [unfolded m(2) r [OF m(4)]] unfolding m(1,2) by blast
  next
    assume ?r
    then show ?l using r by blast
  qed
qed

lemma check_image_parts: "check_image kern initrd = Inr () \<longleftrightarrow>
    0x38 \<le> length kern \<and> take 8 (drop 0x30 kern) = [0x52, 0x49, 0x53, 0x43, 0x56, 0, 0, 0] \<and>
    be_value (rev (take 8 (drop 8 kern))) = 0x200000 \<and> 0x200000 + length kern \<le> 0x1000000 \<and> 0x1000000 + length initrd \<le> 0x1500000"
  unfolding check_image_ok slice_def KERNEL_LOAD_ADDR_def INITRD_ADDR_def DTB_ADDR_KERNEL_def by auto

text \<open>C14. The build of a Linux boot succeeds exactly when the kernel has a RISC-V image header (at least 0x38 bytes, the magic \<open>RISCV\<close> and three
  zeros at 0x30, the load address as little-endian double word at 8), the kernel ends below the ramdisk's address and the ramdisk below the device tree's, the compiler commands succeed, the firmware converts and fits its region, and the device tree ends within the memory; the device tree is
  always built. Then the instruction image is the firmware's code, zeros, the kernel and zeros, and the data image the firmware's
  data, the kernel, the initial ramdisk and the device tree for exactly this ramdisk, each at its address with zeros between
  them, up to the next multiple of 4096.\<close>

theorem linux_boot_layout:
  assumes objcopy_bytes: "\<forall>sec b. objcopy (fw_elf tools) sec = Some b \<longrightarrow> all_fit 8 b"
  shows "linux_boot tools cc fw_dir build_dir kern initrd msize = Inr (itext, dtext, limit) \<longleftrightarrow>
    0x38 \<le> length kern \<and> take 8 (drop 0x30 kern) = [0x52, 0x49, 0x53, 0x43, 0x56, 0, 0, 0] \<and>
    be_value (rev (take 8 (drop 8 kern))) = 0x200000 \<and> 0x200000 + length kern \<le> 0x1000000 \<and> 0x1000000 + length initrd \<le> 0x1500000 \<and>
    list_all (gcc tools) (fw_commands cc fw_dir build_dir) \<and>
    (\<exists>mi md dtb. elf2mem (fw_elf tools) FW_LINK_SIZE FW_LINK_SIZE ''.text.boot'' = Inr (mem_lines mi, mem_lines md) \<and>
      all_fit 8 mi \<and> all_fit 8 md \<and> length mi \<le> 32768 \<and> length md \<le> 32768 \<and> boot_dtb msize initrd = Inr dtb \<and>
      DTB_ADDR_KERNEL + int (length dtb) \<le> msize \<and> limit = (DTB_ADDR_KERNEL + int (length dtb) + 4095) div 4096 * 4096 \<and>
      itext = mem_lines (mi @ replicate (0x200000 - length mi) 0 @ kern @ replicate (nat limit - (0x200000 + length kern)) 0) \<and>
      dtext = mem_lines (md @ replicate (0x200000 - length md) 0 @ kern @ replicate (0x1000000 - (0x200000 + length kern)) 0 @
        initrd @ replicate (0x1500000 - (0x1000000 + length initrd)) 0 @ dtb @ replicate (nat limit - (0x1500000 + length dtb)) 0))"
    (is "_ \<longleftrightarrow> ?len \<and> ?magic \<and> ?off \<and> ?k \<and> ?i \<and> ?gcc \<and> ?rest")
proof (cases "check_image kern initrd = Inr () \<and> ?gcc")
  case True
  obtain dtb where d: "boot_dtb msize initrd = Inr dtb" "gen_dtb_main msize linux_bootargs (Some INITRD_ADDR) (Some (INITRD_ADDR + int (length initrd))) = Inr dtb"
    using boot_dtb_built by blast
  define lim where "lim = (DTB_ADDR_KERNEL + int (length dtb) + 4095) div 4096 * 4096"
  have lim: "DTB_ADDR_KERNEL + int (length dtb) \<le> int (nat lim)" unfolding lim_def DTB_ADDR_KERNEL_def by linarith
  have k: "KERNEL_LOAD_ADDR + int (length kern) \<le> INITRD_ADDR" "INITRD_ADDR + int (length initrd) \<le> DTB_ADDR_KERNEL" using True check_image_ok by auto
  have "linux_boot tools cc fw_dir build_dir kern initrd msize = Inr (itext, dtext, limit) \<longleftrightarrow>
     (\<exists>fi fd. (\<exists>it dt. elf2mem (fw_elf tools) FW_LINK_SIZE FW_LINK_SIZE ''.text.boot'' = Inr (it, dt) \<and> read_mem it (nat FW_LINK_SIZE) = Inr fi \<and>
       read_mem dt (nat FW_LINK_SIZE) = Inr fd) \<and> DTB_ADDR_KERNEL + int (length dtb) \<le> msize \<and> limit = lim \<and>
       itext = mem_lines (combine (nat lim) [(0, fi), (KERNEL_LOAD_ADDR, kern)]) \<and>
       dtext = mem_lines (combine (nat lim) [(0, fd), (KERNEL_LOAD_ADDR, kern), (INITRD_ADDR, initrd), (DTB_ADDR_KERNEL, dtb)]))"
    using True unfolding linux_boot_def run_gcc_def fw_commands_def [symmetric] by (auto simp: d(2) Let_def lim_def not_less split: if_splits)
  also have "\<dots> \<longleftrightarrow> ?rest"
    unfolding firmware_read [OF objcopy_bytes] d(1) sum.inject using boot_layout [OF _ _ k lim] lim_def
    by (intro iffI; elim exE conjE) metis+
  finally show ?thesis using True check_image_parts by blast
next
  case False
  then have "linux_boot tools cc fw_dir build_dir kern initrd msize \<noteq> Inr (itext, dtext, limit)"
    by (auto simp: linux_boot_def run_gcc_def fw_commands_def split: if_splits)
  then show ?thesis using False check_image_parts by blast
qed

definition sample_fw :: fw_tools where
  "sample_fw = \<lparr>gcc = \<lambda>_. True, fw_elf = sample_elf\<rparr>"

definition sample_kernel :: "int list" where
  "sample_kernel = replicate 8 0 @ [0, 0, 0x20, 0, 0, 0, 0, 0] @ replicate 32 0 @ [0x52, 0x49, 0x53, 0x43, 0x56, 0, 0, 0]"

lemma sample_boots: "check_image sample_kernel [] = Inr ()"
  "elf2mem sample_elf FW_LINK_SIZE FW_LINK_SIZE ''.text.boot'' = Inr (mem_lines (replicate 32768 0), mem_lines (replicate 32768 0))"
proof -
  show "check_image sample_kernel [] = Inr ()" by code_simp
  have l: "section_loads sample_elf (split_on (CHR '','') ''.text.boot'') = Inr []" "data_loads sample_elf = Inr [(0, []), (0, [])]" by code_simp+
  have p: "put m (0, []) = m" for m by (simp add: put_def slice_set_def)
  show "elf2mem sample_elf FW_LINK_SIZE FW_LINK_SIZE ''.text.boot'' = Inr (mem_lines (replicate 32768 0), mem_lines (replicate 32768 0))"
    unfolding elf2mem_Inr l by (intro exI [of _ "[]"] exI [of _ "[(0, []), (0, [])]"]) (simp add: p FW_LINK_SIZE_def)
qed

theorem linux_boot_layout_witness:
  "\<exists>msize itext dtext limit. linux_boot sample_fw ''gcc'' ''fw'' ''build'' sample_kernel [] msize = Inr (itext, dtext, limit)"
proof -
  obtain dtb where d: "boot_dtb 0 [] = Inr dtb" using boot_dtb_built by blast
  let ?m = "2 ^ 32 * (0x1500000 + int (length dtb))"
  have b: "boot_dtb ?m [] = Inr dtb"
    using memory_size_truncated [of ?m] d unfolding boot_dtb_def by simp
  have l: "DTB_ADDR_KERNEL + int (length dtb) \<le> ?m" by (simp add: DTB_ADDR_KERNEL_def)
  have z: "all_fit 8 (replicate 32768 (0::int))" "length (replicate 32768 (0::int)) \<le> 32768" by (simp_all add: all_fit_def list_all_iff fits_def)
  have f: "\<forall>sec b. objcopy (fw_elf sample_fw) sec = Some b \<longrightarrow> all_fit 8 b" "list_all (gcc sample_fw) cmds"
    "elf2mem (fw_elf sample_fw) FW_LINK_SIZE FW_LINK_SIZE ''.text.boot'' = Inr (mem_lines (replicate 32768 0), mem_lines (replicate 32768 0))" for cmds
    using sample_elf_bytes sample_boots(2) by (simp_all add: sample_fw_def list_all_iff)
  note h = sample_boots(1) [unfolded check_image_parts]
  show ?thesis
    by (intro exI, rule linux_boot_layout [OF f(1), THEN iffD2], intro conjI exI)
      (rule f(2,3) z b l refl | simp add: h)+
qed

end
