(* ===== verification/Branch_Test.thy ===== *)
theory Branch_Test
  imports Asm Disasm
begin

text \<open>The test \<open>test_branch_encoding_roundtrip.py\<close> of the assembler and the disassembler, and that it passes.\<close>

definition EXPECTED_FUNCT3 :: "(string \<times> int) list" where
  "EXPECTED_FUNCT3 =
     [(''beq'', 0b000), (''bne'', 0b001), (''blt'', 0b100), (''bge'', 0b101), (''ble'', 0b010), (''bgt'', 0b011), (''bltu'', 0b110), (''bgeu'', 0b111)]"

definition check_roundtrip :: "string \<Rightarrow> unit result" where
  "check_roundtrip mnemonic =
     rbind (assemble [mnemonic @ '' x1, x2, 0''] 32) (\<lambda>ws.
       if length ws \<noteq> 1 then Inl AssertionError
       else let word = ws ! 0; funct3 = drop_bit 12 word AND 0x7 in
         rbind (py_get EXPECTED_FUNCT3 mnemonic) (\<lambda>expected.
           if funct3 \<noteq> expected then Inl AssertionError
           else if take (length mnemonic + 1) (disasm word 32) \<noteq> mnemonic @ '' '' then Inl AssertionError
           else Inr ()))"

fun count_fails :: "string list \<Rightarrow> nat result" where
  \<comment> \<open>the loop of \<open>main\<close>, which catches failed assertions only\<close>
  "count_fails [] = Inr 0"
| "count_fails (mnemonic # ms) =
     (case check_roundtrip mnemonic of
        Inl e \<Rightarrow> if e = AssertionError then rbind (count_fails ms) (\<lambda>n. Inr (n + 1)) else Inl e
      | Inr _ \<Rightarrow> count_fails ms)"

definition branch_test_main :: "int result" where
  \<comment> \<open>the exit status\<close>
  "branch_test_main = rbind (count_fails (map fst EXPECTED_FUNCT3)) (\<lambda>fails. Inr (if fails = 0 then 0 else 1))"

lemma branch_test_passes: "branch_test_main = Inr 0"
proof -
  have "list_all (\<lambda>mn. check_roundtrip mn = Inr ()) (map fst EXPECTED_FUNCT3)" by code_simp
  moreover have "count_fails ms = Inr 0" if "list_all (\<lambda>mn. check_roundtrip mn = Inr ()) ms" for ms
    using that by (induction ms) auto
  ultimately show ?thesis by (simp add: branch_test_main_def)
qed

end
