(* ===== verification/Gen_Trace.thy ===== *)
theory Gen_Trace
  imports Disasm Elf2mem
begin

text \<open>
  The converter of pipeline traces \<open>gen_trace.py\<close>: every row of the table, as the CSV reader delivers it (column names to cells), becomes a
  record with the instructions of the stages disassembled, and the rows after the program's end are cut off. The JSON text is not modelled.
\<close>

section \<open>Model\<close>

record trace_row =
  cycle :: int
  if_pc :: int
  if_inst :: string
  id_pc :: int
  id_inst :: string
  id_stall :: bool
  id_flush :: bool
  ex_pc :: int
  ex_inst :: string
  branch_taken :: bool
  ex_jump :: bool
  alu_out :: int
  fwd_a :: int
  fwd_b :: int
  mem_we :: bool
  mem_re :: bool
  mem_addr :: int
  mem_dest :: int
  mem_reg_write :: bool
  wb_dest :: int
  wb_val :: int
  wb_reg_write :: bool

definition cell :: "(string \<rightharpoonup> string) \<Rightarrow> string \<Rightarrow> string result" where
  "cell r k = (case r k of None \<Rightarrow> Inl KeyError | Some v \<Rightarrow> Inr v)"

definition int_cell :: "(string \<rightharpoonup> string) \<Rightarrow> string \<Rightarrow> int result" where
  \<comment> \<open>\<open>int(r[k])\<close>\<close>
  "int_cell r k = rbind (cell r k) py_int10"

definition bool_cell :: "(string \<rightharpoonup> string) \<Rightarrow> string \<Rightarrow> bool result" where
  \<comment> \<open>\<open>bool(int(r[k]))\<close>\<close>
  "bool_cell r k = rbind (int_cell r k) (\<lambda>v. Inr (v \<noteq> 0))"

definition trace_disasm :: "(string \<rightharpoonup> string) \<Rightarrow> string \<Rightarrow> nat \<Rightarrow> string result" where
  \<comment> \<open>\<open>disasm(r[k], xlen)\<close>, with \<open>disasm\<close> of this module\<close>
  "trace_disasm r k xl = rbind (cell r k) (\<lambda>hex_word. rbind (py_int16 hex_word) (\<lambda>w. Inr (disasm w xl)))"

definition trace_row_of :: "nat \<Rightarrow> (string \<rightharpoonup> string) \<Rightarrow> trace_row result" where
  "trace_row_of xl r =
     rbind (int_cell r ''cycle'') (\<lambda>cyc.
     rbind (int_cell r ''if_pc'') (\<lambda>ifp. rbind (trace_disasm r ''if_inst'' xl) (\<lambda>ifi.
     rbind (int_cell r ''id_pc'') (\<lambda>idp. rbind (trace_disasm r ''id_inst'' xl) (\<lambda>idi.
     rbind (bool_cell r ''stall'') (\<lambda>st. rbind (bool_cell r ''flush'') (\<lambda>fl.
     rbind (int_cell r ''ex_pc'') (\<lambda>exp. rbind (trace_disasm r ''ex_inst'' xl) (\<lambda>exi.
     rbind (bool_cell r ''branch_taken'') (\<lambda>bt. rbind (bool_cell r ''jump'') (\<lambda>ju.
     rbind (int_cell r ''alu_out'') (\<lambda>ao. rbind (int_cell r ''forwardA'') (\<lambda>fa. rbind (int_cell r ''forwardB'') (\<lambda>fb.
     rbind (bool_cell r ''mem_we'') (\<lambda>we. rbind (bool_cell r ''mem_re'') (\<lambda>re.
     rbind (int_cell r ''mem_addr'') (\<lambda>ma. rbind (int_cell r ''mem_dest'') (\<lambda>md. rbind (bool_cell r ''mem_regwrite'') (\<lambda>mw.
     rbind (int_cell r ''wb_dest'') (\<lambda>wd. rbind (int_cell r ''wb_val'') (\<lambda>wv. rbind (bool_cell r ''wb_regwrite'') (\<lambda>ww.
     Inr \<lparr>cycle = cyc, if_pc = ifp, if_inst = ifi, id_pc = idp, id_inst = idi, id_stall = st, id_flush = fl, ex_pc = exp, ex_inst = exi,
       branch_taken = bt, ex_jump = ju, alu_out = ao, fwd_a = fa, fwd_b = fb, mem_we = we, mem_re = re, mem_addr = ma, mem_dest = md,
       mem_reg_write = mw, wb_dest = wd, wb_val = wv, wb_reg_write = ww\<rparr>))))))))))))))))))))))"

definition bubble :: "trace_row \<Rightarrow> bool" where
  \<comment> \<open>nothing left to fetch or decode: the disassembler's dash in both stages\<close>
  "bubble r \<longleftrightarrow> if_inst r = [CHR 0xE2, CHR 0x80, CHR 0x94] \<and> id_inst r = [CHR 0xE2, CHR 0x80, CHR 0x94]"

definition gen_trace :: "nat \<Rightarrow> (string \<rightharpoonup> string) list \<Rightarrow> trace_row list result" where
  \<comment> \<open>\<open>main\<close>: the rows it writes\<close>
  "gen_trace xl rs = rbind (rtraverse (trace_row_of xl) rs) (\<lambda>rows. Inr (rev (dropWhile bubble (rev rows))))"

section \<open>What is cut off\<close>

text \<open>Only rows at the end, all of them bubbles, are cut off, and the last row kept is none.\<close>

lemma gen_trace_keeps:
  assumes "gen_trace xl rs = Inr rows"
  shows "\<exists>tail. rtraverse (trace_row_of xl) rs = Inr (rows @ tail) \<and> list_all bubble tail \<and> (rows = [] \<or> \<not> bubble (last rows))"
proof -
  obtain all where a: "rtraverse (trace_row_of xl) rs = Inr all" "rows = rev (dropWhile bubble (rev all))" using assms by (auto simp: gen_trace_def)
  let ?t = "rev (takeWhile bubble (rev all))"
  have "all = rows @ ?t" unfolding a(2) rev_append [symmetric] takeWhile_dropWhile_id by simp
  moreover have "list_all bubble ?t" by (auto simp: list_all_iff dest: set_takeWhileD)
  moreover have "rows = [] \<or> \<not> bubble (last rows)"
    unfolding a(2) using hd_dropWhile [of bubble "rev all"] by (auto simp: last_rev)
  ultimately show ?thesis using a(1) by metis
qed

end
