(* ===== verification/Coverage_Report.thy ===== *)
theory Coverage_Report
  imports Sim_Run
begin

text \<open>
  The coverage aggregator \<open>coverage_report.py\<close>: the counters every directed test leaves in \<open>coverage.txt\<close> are summed, and what no test
  exercised is reported. What compiling and running a testbench does is a parameter; the tables printed are not modelled.
\<close>

section \<open>Model\<close>

definition ALUCTL_NAMES :: "(int \<times> string) list" where
  "ALUCTL_NAMES =
     [(0, ''ADD''), (1, ''SUB''), (2, ''SLL''), (3, ''SLT''), (4, ''SLTU''), (5, ''XOR''), (6, ''SRL''), (7, ''SRA''), (8, ''OR''), (9, ''AND''),
      (10, ''BEQ''), (11, ''BNE''), (12, ''BLT''), (13, ''BGE''), (14, ''BLE (custom)''), (16, ''BGT (custom)''), (17, ''BLTU''), (18, ''BGEU''),
      (19, ''MUL''), (20, ''MULH''), (21, ''CTZ (custom)''), (22, ''MULHSU''), (23, ''MULHU''), (24, ''DIV''), (25, ''DIVU''), (26, ''REM''),
      (27, ''REMU''), (31, ''ILLEGAL'')]"

definition BRANCH_F3_NAMES :: "string list" where
  "BRANCH_F3_NAMES = [''beq'', ''bne'', ''blt'', ''bge'', ''ble'', ''bgt'', ''bltu'', ''bgeu'']"

record coverage =
  total_alu :: "int list"
  total_branch_taken :: "int list"
  total_branch_not_taken :: "int list"
  total_stall :: int
  total_flush :: int
  total_div :: int
  total_jump :: int

definition no_coverage :: coverage where
  "no_coverage = \<lparr>total_alu = replicate 32 0, total_branch_taken = replicate 8 0, total_branch_not_taken = replicate 8 0,
     total_stall = 0, total_flush = 0, total_div = 0, total_jump = 0\<rparr>"

definition py_position :: "'a list \<Rightarrow> int \<Rightarrow> nat result" where
  \<comment> \<open>the position \<open>xs[i]\<close> names; a negative index counts from the end\<close>
  "py_position xs i =
     (if 0 \<le> i \<and> i < int (length xs) then Inr (nat i)
      else if i < 0 \<and> - int (length xs) \<le> i then Inr (nat (i + int (length xs)))
      else Inl IndexError)"

definition int_part :: "string list \<Rightarrow> nat \<Rightarrow> int result" where
  \<comment> \<open>\<open>int(parts[i])\<close>\<close>
  "int_part parts i = rbind (list_at parts i) py_int10"

definition add_at :: "int list \<Rightarrow> string list \<Rightarrow> int list result" where
  \<comment> \<open>\<open>xs[int(parts[1])] += int(parts[2])\<close>\<close>
  "add_at xs parts =
     rbind (int_part parts 1) (\<lambda>i. rbind (py_position xs i) (\<lambda>k. rbind (int_part parts 2) (\<lambda>v. Inr (xs[k := xs ! k + v]))))"

definition cov_line :: "coverage \<Rightarrow> string \<Rightarrow> coverage result" where
  "cov_line c line =
     (let parts = py_split line in
      rbind (list_at parts 0) (\<lambda>kind.
        if kind = ''alu_ctl'' then rbind (add_at (total_alu c) parts) (\<lambda>t. Inr (c\<lparr>total_alu := t\<rparr>))
        else if kind = ''branch_taken'' then rbind (add_at (total_branch_taken c) parts) (\<lambda>t. Inr (c\<lparr>total_branch_taken := t\<rparr>))
        else if kind = ''branch_not_taken'' then rbind (add_at (total_branch_not_taken c) parts) (\<lambda>t. Inr (c\<lparr>total_branch_not_taken := t\<rparr>))
        else if kind = ''stall_cycles'' then rbind (int_part parts 1) (\<lambda>v. Inr (c\<lparr>total_stall := total_stall c + v\<rparr>))
        else if kind = ''flush_cycles'' then rbind (int_part parts 1) (\<lambda>v. Inr (c\<lparr>total_flush := total_flush c + v\<rparr>))
        else if kind = ''div_cycles'' then rbind (int_part parts 1) (\<lambda>v. Inr (c\<lparr>total_div := total_div c + v\<rparr>))
        else if kind = ''jump_cycles'' then rbind (int_part parts 1) (\<lambda>v. Inr (c\<lparr>total_jump := total_jump c + v\<rparr>))
        else Inr c))"

fun cov_lines :: "coverage \<Rightarrow> string list \<Rightarrow> coverage result" where
  "cov_lines c [] = Inr c"
| "cov_lines c (l # ls) = rbind (cov_line c l) (\<lambda>c'. cov_lines c' ls)"

record tb_run =
  tb_compiles :: bool
  tb_writes :: "string option"
    \<comment> \<open>the \<open>coverage.txt\<close> the simulation leaves, if it writes one\<close>

fun cov_suite :: "coverage \<Rightarrow> string option \<Rightarrow> tb_run list \<Rightarrow> coverage result" where
  \<comment> \<open>the loop over the testbenches; the second argument is the \<open>coverage.txt\<close> in the directory, which is removed once read\<close>
  "cov_suite c file [] = Inr c"
| "cov_suite c file (tb # tbs) =
     (if \<not> tb_compiles tb then cov_suite c file tbs
      else case (case tb_writes tb of Some t \<Rightarrow> Some t | None \<Rightarrow> file) of
        None \<Rightarrow> cov_suite c None tbs
      | Some t \<Rightarrow> rbind (cov_lines c (text_lines t)) (\<lambda>c'. cov_suite c' None tbs))"

definition uncovered :: "coverage \<Rightarrow> string list" where
  "uncovered c = map snd (filter (\<lambda>(code, name). total_alu c ! nat code = 0 \<and> code \<noteq> 31) ALUCTL_NAMES)"

definition branches_missing :: "coverage \<Rightarrow> (string list \<times> string list)" where
  \<comment> \<open>the branches reported as never taken and never not-taken\<close>
  "branches_missing c =
     (map ((!) BRANCH_F3_NAMES) (filter (\<lambda>f3. total_branch_taken c ! f3 = 0) [0..<8]),
      map ((!) BRANCH_F3_NAMES) (filter (\<lambda>f3. total_branch_not_taken c ! f3 = 0) [0..<8]))"

section \<open>Sums\<close>

definition cov_shape :: "coverage \<Rightarrow> bool" where
  "cov_shape c \<longleftrightarrow> length (total_alu c) = 32 \<and> length (total_branch_taken c) = 8 \<and> length (total_branch_not_taken c) = 8"

definition cov_plus :: "coverage \<Rightarrow> coverage \<Rightarrow> coverage" where
  "cov_plus a b =
     \<lparr>total_alu = map2 (+) (total_alu a) (total_alu b), total_branch_taken = map2 (+) (total_branch_taken a) (total_branch_taken b),
      total_branch_not_taken = map2 (+) (total_branch_not_taken a) (total_branch_not_taken b), total_stall = total_stall a + total_stall b,
      total_flush = total_flush a + total_flush b, total_div = total_div a + total_div b, total_jump = total_jump a + total_jump b\<rparr>"

lemma position_length: "length ys = length xs \<Longrightarrow> py_position ys i = py_position xs i" "py_position xs i = Inr k \<Longrightarrow> k < length xs"
  by (auto simp: py_position_def split: if_splits)

lemma add_at_plus:
  assumes "add_at xs parts = Inr xs'" "length ys = length xs"
  shows "length xs' = length xs" "add_at (map2 (+) ys xs) parts = Inr (map2 (+) ys xs')"
proof -
  obtain i k v where a: "int_part parts 1 = Inr i" "py_position xs i = Inr k" "int_part parts 2 = Inr v" "xs' = xs[k := xs ! k + v]"
    using assms(1) by (auto simp: add_at_def)
  show "length xs' = length xs" using a(4) by simp
  have "py_position (map2 (+) ys xs) i = Inr k" "k < length xs"
    using position_length(1) [of "map2 (+) ys xs" xs i] position_length(2) [OF a(2)] a(2) assms(2) by simp_all
  moreover have "(map2 (+) ys xs)[k := map2 (+) ys xs ! k + v] = map2 (+) ys xs'"
    unfolding a(4) using assms(2) calculation(2) by (intro nth_equalityI) (auto simp: nth_list_update)
  ultimately show "add_at (map2 (+) ys xs) parts = Inr (map2 (+) ys xs')" using a(1,3) by (simp add: add_at_def)
qed

lemma cov_line_plus:
  assumes "cov_line c l = Inr c'" "cov_shape c" "cov_shape b"
  shows "cov_shape c'" "cov_line (cov_plus b c) l = Inr (cov_plus b c')"
proof -
  have s: "length (total_alu b) = length (total_alu c)" "length (total_branch_taken b) = length (total_branch_taken c)"
    "length (total_branch_not_taken b) = length (total_branch_not_taken c)" using assms(2,3) by (simp_all add: cov_shape_def)
  show "cov_shape c'" using assms(1,2) add_at_plus(1) by (auto simp: cov_line_def cov_shape_def Let_def split: if_splits)
  show "cov_line (cov_plus b c) l = Inr (cov_plus b c')"
    using assms(1) add_at_plus(2) [OF _ s(1)] add_at_plus(2) [OF _ s(2)] add_at_plus(2) [OF _ s(3)]
    by (auto simp: cov_line_def cov_plus_def Let_def algebra_simps split: if_splits)
qed

text \<open>Counting from given totals is counting from zero and adding: the totals of the suite are the sums over its tests.\<close>

lemma cov_lines_plus:
  assumes "cov_lines c ls = Inr c'" "cov_shape c" "cov_shape b"
  shows "cov_shape c' \<and> cov_lines (cov_plus b c) ls = Inr (cov_plus b c')"
  using assms
proof (induction ls arbitrary: c)
  case (Cons l ls)
  then obtain d where d: "cov_line c l = Inr d" "cov_lines d ls = Inr c'" by auto
  then show ?case using cov_line_plus [OF d(1) Cons(3,4)] Cons(1) [OF d(2) _ Cons(4)] by simp
qed simp

lemma cov_suite_plus:
  assumes "cov_suite c f tbs = Inr c'" "cov_shape c" "cov_shape b"
  shows "cov_shape c' \<and> cov_suite (cov_plus b c) f tbs = Inr (cov_plus b c')"
  using assms
proof (induction tbs arbitrary: c f)
  case (Cons tb tbs)
  show ?case
  proof (cases "tb_compiles tb \<and> (case tb_writes tb of Some t \<Rightarrow> Some t | None \<Rightarrow> f) \<noteq> None")
    case True
    then obtain t d where t: "(case tb_writes tb of Some t \<Rightarrow> Some t | None \<Rightarrow> f) = Some t" "tb_compiles tb"
      "cov_lines c (text_lines t) = Inr d" "cov_suite d None tbs = Inr c'" using Cons(2) by auto
    then show ?thesis using cov_lines_plus [OF t(3) Cons(3,4)] Cons(1) [OF t(4) _ Cons(4)] by simp
  next
    case False
    then show ?thesis using Cons by (auto split: option.splits)
  qed
qed simp

text \<open>The labels of the branch report: four of the eight name another instruction than the assembler and the simulator give that code.\<close>

lemma branch_labels_wrong:
  "filter (\<lambda>f3. py_get BRANCH (BRANCH_F3_NAMES ! f3) \<noteq> Inr (int f3)) [0..<8] = [2, 3, 4, 5]"
  by code_simp

end
