(* ===== verification/Spec2Isabelle.thy ===== *)
theory Spec2Isabelle
  imports Float32_Round Iss_Memory_Props Mmu_Props Crypto_Props Disasm_Props Debugger_Props Gen_Dtb_Props
    Random_Tests_Props Elf2mem_Props Read_Dump_Props Profiler_Props Bench_Runner_Props
    Boot_Image_Props Branch_Test Gen_Trace Coverage_Report
begin

text \<open>
  \<^bold>\<open>Verification of the Python tools of a pipelined RISC-V processor (\<open>sim/tools\<close>).\<close>

  The repository holds a RISC-V core in Verilog and the Python tools its verification rests on: a reference instruction-set
  simulator (\<open>iss.py\<close>) that every RTL run is compared with, the assembler all test programs go through (\<open>asm.py\<close>), the
  disassembler (\<open>disasm.py\<close>), a step debugger over the simulator (\<open>debugger.py\<close>), a generator of random test
  programs (\<open>random_gen.py\<close>) and the driver that compares the RTL with the simulator on them (\<open>run_random_tests.py\<close>), a benchmark
  runner (\<open>bench_runner.py\<close>) and a profiler (\<open>profiler.py\<close>), a converter of ELF files to memory images (\<open>elf2mem.py\<close>), a reader of memory dumps (\<open>read_dump.py\<close>), a
  device-tree emitter (\<open>gen_dtb.py\<close>), the builders of boot images that combine both (\<open>build_linux_boot.py\<close>, \<open>build_sbi_firmware.py\<close>), and three small
  reports and tests. The assembler turns text into instruction words and writes them as a memory image; the
  debugger reads images and drives the simulator; the disassembler prints words for it; the generator writes assembly text that
  the driver assembles and runs on the simulator and on the RTL; the benchmark runner does
  so with fixed kernels under many configurations, and the profiler adds counter accesses to kernels before assembling them.
  This development models those tools as
  executable functions and proves them correct one by one and against each other.

  \<^bold>\<open>How Python is modelled.\<close> Integers are \<^typ>\<open>int\<close> with the bit operations of the library, so every mask and
  every missing mask of the source is visible. An object is a record, a method a function from the record to the record, an
  exception a value of \<open>py_error\<close> in the left summand of a result, in the evaluation order of the source. A dictionary is a map
  or, for the constant tables, an association list. Strings are lists of ASCII characters and files are their contents. Loops are
  structural recursion or folds; a loop that need not end is a partial function into \<open>option\<close> and its termination is a
  theorem. There is no fuel in the models; the only bound is \<open>max_steps\<close>, which is the source's own argument.
  A random source is the list of naturals it will deliver, and the code that draws from it is in the state monad of the library over that list;
  a theorem about every seed quantifies over the list. What an external program answers (the Verilog compiler and simulator, \<open>objcopy\<close>,
  \<open>objdump\<close>, \<open>nm\<close>) is a function in a record passed to the definitions that call it; the theorems hold for every such function, or
  name what they need of it.

  \<^bold>\<open>Theories and sources.\<close>
  \<^item> \<open>Prelude\<close>, \<open>Fixed_Width\<close>, \<open>Py_Text\<close>: exceptions and results, the predicate \<open>fits\<close> with its closure rules, the
    width helpers \<open>s32\<close> to \<open>sext\<close> of \<open>iss.py\<close>, and Python's string and number conversions.
  \<^item> \<open>Float32\<close> (\<open>f32_decode\<close> to \<open>f_cvt_from_int\<close>), \<open>Crypto\<close> (AES64, SHA-2, \<open>brev8\<close>), \<open>Iss_State\<close> (class \<open>ISS\<close>:
    constructor, register and CSR access, traps and returns, byte memory), \<open>Mmu\<close> (\<open>_read_pte\<close> to \<open>translate\<close>),
    \<open>Iss_Alu\<close> and \<open>Iss_Step\<close> (\<open>ISS.step\<close>, one definition per opcode case, and \<open>ISS.run\<close>).
  \<^item> \<open>Asm_Encode\<close> (operand readers, mnemonic tables, encoders) and \<open>Asm\<close> (\<open>assemble\<close>, \<open>write_mem\<close>) of \<open>asm.py\<close>.
  \<^item> \<open>Disasm\<close>: \<open>disasm.py\<close>. \<open>Debugger\<close>: \<open>load_words\<close>, the class \<open>Debugger\<close> and the commands of \<open>repl\<close>.
  \<^item> \<open>Random_Gen\<close>: the tables, constant builders, self-checks and \<open>gen_program\<close> of \<open>random_gen.py\<close>.
  \<^item> \<open>Sim_Run\<close>: what the drivers share (\<open>asm.py\<close> as a command, templates, dumps). \<open>Random_Tests\<close>: \<open>run_one\<close>, \<open>run_one_ooo\<close> and the loop
    over the seeds of \<open>run_random_tests.py\<close>. \<open>Profiler\<close>: \<open>profiler.py\<close>, with rationals for its floating-point ratios.
    \<open>Bench_Runner\<close>: \<open>bench_runner.py\<close>, likewise.
  \<^item> \<open>Elf2mem\<close>: \<open>elf2mem.py\<close>. \<open>Read_Dump\<close>: \<open>read_dump.py\<close>. \<open>Boot_Image\<close>: \<open>build_linux_boot.py\<close> and \<open>build_sbi_firmware.py\<close>.
  \<^item> \<open>Branch_Test\<close>: \<open>test_branch_encoding_roundtrip.py\<close>. \<open>Gen_Trace\<close>: \<open>gen_trace.py\<close>. \<open>Coverage_Report\<close>: \<open>coverage_report.py\<close>. These three hold
    their lemmas themselves: the test passes, only empty rows are cut off a trace, the totals are sums over the tests.
  \<^item> \<open>Gen_Dtb\<close>: \<open>FdtBuilder\<close>, \<open>build_this_core_dtb\<close> and \<open>parse_and_validate\<close> of \<open>gen_dtb.py\<close>.

  \<^bold>\<open>Interfaces.\<close> The laws one component relies on in another are locales: \<open>masked_view\<close> (a supervisor register is a masked view of a
  machine register), \<open>translator\<close> (a walk is a partial map that faults exactly where it is undefined), \<open>byte_store\<close>
  (little-endian values over a byte memory), \<open>machine_word\<close> (the ALU at a machine word length), \<open>insn_format\<close> (an
  instruction format is an encoder with a decoder that inverts it). Each is interpreted on the model's own definitions, and the
  properties rest on the interpretations.

  \<^bold>\<open>What is proved.\<close>
  \<^item> State and privilege (\<open>Iss_State_Props\<close>, \<open>Iss_Step_Props\<close>): the states reached by instructions, interrupts and fetch faults
    (relation \<open>exec\<close>, which the loop of \<open>run\<close> follows) are well formed; a step raises only the exceptions named and every list subscript is in
    range; software below M-mode cannot touch machine state and gains privilege only through a trap vector; returns undo traps;
    \<open>run\<close> returns on RV64, and may not on RV32.
  \<^item> Translation (\<open>Mmu_Props\<close>): the Sv32 and Sv39 walks refine their specifications and respect permissions.
  \<^item> Arithmetic: the ALU against machine words, carry-less products, rotations, counts (\<open>Iss_Alu_Props\<close>); loads after stores
    (\<open>Iss_Memory_Props\<close>); floating point correctly rounded in every mode on finite operands, with overflow and the flush of
    tiny results (\<open>Float32_Props\<close>, \<open>Float32_Round\<close>);
    SHA-2 and AES (\<open>Crypto_Props\<close>).
  \<^item> Assembler (\<open>Insn_Format\<close>, \<open>Asm_Encode_Props\<close>, \<open>Asm_Text\<close>, \<open>Asm_Props\<close>): outcome of assembling, operands the simulator decodes,
    assembled instructions and branches executed by the simulator.
  \<^item> Disassembler (\<open>Disasm_Int\<close>, \<open>Disasm_Props\<close>): what it prints for an assembled word assembles to the word, with the exact gaps.
  \<^item> Debugger (\<open>Debugger_Props\<close>): memory images round-trip, and \<open>continue\<close> agrees with \<open>run\<close>.
  \<^item> Random programs: straight and forward-branching code runs through (\<open>Iss_Straight\<close>); each generated line assembles to
    an instruction that neither traps nor raises (\<open>Random_Gen_Asm\<close>, \<open>Random_Gen_Items\<close>); labels lie ahead of their uses
    (\<open>Random_Gen_Layout\<close>); so every program halts (\<open>Random_Gen_Props\<close>). The constant builders load their constants
    (\<open>Random_Gen_Const\<close>); errors, size estimate and interrupt mode (\<open>Random_Gen_Modes\<close>).
  \<^item> Test driver (\<open>Random_Tests_Props\<close>): for every seed the reference side succeeds and the verdict is the comparison of the
    dump with the simulator's final state; the exit status is 0 exactly when all seeds pass.
  \<^item> Kernels (\<open>Kernel_Asm\<close>): lines added around a kernel leave its words alone. Profiler (\<open>Profiler_Props\<close>): so instrumented kernels keep their
    words; the instruction mix counts the assembled words. Benchmark runner (\<open>Bench_Runner_Props\<close>): a result is reported exactly
    when reference and RTL run succeed; each comparison varies its own parameter and its runs have distinct tags; the kernel with the trailer for the out-of-order
    core computes what the original computes; the exit status.
  \<^item> Images and dumps: what the binary tools print for an ELF file, and that the converter reads addresses and symbols from it
    (\<open>Elf_Listing\<close>); so sections end up at their addresses, later ones over earlier ones, and each failure is that of the first check that does not hold (\<open>Elf2mem_Props\<close>); the dump reader
    shows what a load would read (\<open>Read_Dump_Props\<close>); a boot image is its parts at their addresses, and when it is built (\<open>Boot_Image_Props\<close>).
  \<^item> Device tree (\<open>Gen_Dtb_Props\<close>): every balanced tree builds, passes the self-check and decodes to what was written; so does
    the tree of this core.

  \<^bold>\<open>Not modelled.\<close> Argument parsing, the texts printed, temporary files and paths of the modelled tools. The Verilog. Two build scripts
  (\<open>build_c_bench.py\<close>, \<open>build_kernel_boot.py\<close>) that put command lines of compilers together, \<open>build_viewer.py\<close>, which inserts a text into a page, and the
  plots of \<open>fpga/vivado/scripts\<close>: they have no logic of their own.
\<close>

end
